(* ===== verification/Vai_Prelude.thy ===== *)
theory Vai_Prelude
  imports Main "HOL-Library.Sublist" "HOL-Library.AList" "HOL-Library.Multiset"
    "HOL-Library.Char_ord" "HOL-Library.List_Lexorder"
begin

text \<open>
  Shared material of the development: names for the model's basic types, the fragments of
  the Rust standard library the components use (string prefixes, trimming, joining, decimal
  formatting and parsing, line splitting, UTF-8 replacement), and the generic facts about
  stable sorting and order-preserving de-duplication that several components need.

  Rust strings and byte vectors are both \<^typ>\<open>string\<close>: a \<^typ>\<open>char\<close> is one byte, so a
  \<open>String\<close> is the sequence of its UTF-8 bytes and \<open>len\<close> is \<^const>\<open>length\<close>.
\<close>

type_synonym uuid = nat
type_synonym time = nat
type_synonym bytes = string
type_synonym ('e, 'a) result = "'e + 'a"

named_theorems fs_simps \<open>the laws of the file abstractions\<close>
named_theorems store_simps \<open>reading a store after a write\<close>

section \<open>Results\<close>

text \<open>The \<open>?\<close> operator: the first error ends the computation.\<close>

definition bind_result :: "('e, 'a) result \<Rightarrow> ('a \<Rightarrow> ('e, 'b) result) \<Rightarrow> ('e, 'b) result" where
  "bind_result r f = (case r of Inl e \<Rightarrow> Inl e | Inr a \<Rightarrow> f a)"

lemma bind_result_simps [simp]:
  "bind_result (Inl e) f = Inl e"
  "bind_result (Inr a) f = f a"
  by (simp_all add: bind_result_def)

lemma bind_result_Inr_iff: "bind_result r f = Inr b \<longleftrightarrow> (\<exists>a. r = Inr a \<and> f a = Inr b)"
  by (cases r) simp_all

lemma bind_result_Inl_iff:
  "bind_result r f = Inl e \<longleftrightarrow> r = Inl e \<or> (\<exists>a. r = Inr a \<and> f a = Inl e)"
  by (cases r) simp_all

section \<open>Strings\<close>

definition strip_prefix :: "'a list \<Rightarrow> 'a list \<Rightarrow> 'a list option" where
  "strip_prefix p s = (if take (length p) s = p then Some (drop (length p) s) else None)"

definition starts_with :: "'a list \<Rightarrow> 'a list \<Rightarrow> bool" where
  "starts_with s p = (take (length p) s = p)"

definition ends_with :: "'a list \<Rightarrow> 'a list \<Rightarrow> bool" where
  "ends_with s p = (length p \<le> length s \<and> drop (length s - length p) s = p)"

lemma strip_prefix_append [simp]: "strip_prefix p (p @ s) = Some s"
  by (simp add: strip_prefix_def)

lemma strip_prefix_Some_iff: "strip_prefix p s = Some r \<longleftrightarrow> s = p @ r"
  unfolding strip_prefix_def by (metis append_take_drop_id append_eq_conv_conj option.inject option.distinct(1))

lemma strip_prefix_None_iff: "strip_prefix p s = None \<longleftrightarrow> (\<forall>r. s \<noteq> p @ r)"
  using strip_prefix_Some_iff [of p s] by (cases "strip_prefix p s") auto

lemma starts_with_iff: "starts_with s p \<longleftrightarrow> (\<exists>r. s = p @ r)"
  unfolding starts_with_def by (metis append_take_drop_id append_eq_conv_conj)

lemma starts_with_strip: "starts_with s p \<longleftrightarrow> strip_prefix p s \<noteq> None"
  by (simp add: starts_with_def strip_prefix_def)

lemma ends_with_append [simp]: "ends_with (s @ p) p"
  by (simp add: ends_with_def)

text \<open>\<open>str::split_once\<close> at the first occurrence of a character.\<close>

fun split_once :: "char \<Rightarrow> string \<Rightarrow> (string \<times> string) option" where
  "split_once c [] = None"
| "split_once c (x # xs) =
     (if x = c then Some ([], xs)
      else (case split_once c xs of None \<Rightarrow> None | Some (l, r) \<Rightarrow> Some (x # l, r)))"

lemma split_once_append [simp]: "c \<notin> set l \<Longrightarrow> split_once c (l @ c # r) = Some (l, r)"
  by (induction l) auto

lemma split_once_Some: "split_once c s = Some (l, r) \<Longrightarrow> s = l @ c # r \<and> c \<notin> set l"
  by (induction s arbitrary: l) (auto split: if_splits option.splits)

definition trim_end_matches :: "char \<Rightarrow> string \<Rightarrow> string" where
  "trim_end_matches c s = rev (dropWhile (\<lambda>x. x = c) (rev s))"

text \<open>ASCII white space, which is what \<open>str::trim\<close> removes from the files the program writes.\<close>

definition is_ws :: "char \<Rightarrow> bool" where
  "is_ws c \<longleftrightarrow> c \<in> {CHR 0x09, CHR 0x0A, CHR 0x0B, CHR 0x0C, CHR 0x0D, CHR 0x20}"

definition trim_end :: "string \<Rightarrow> string" where
  "trim_end s = rev (dropWhile is_ws (rev s))"

definition trim :: "string \<Rightarrow> string" where
  "trim s = trim_end (dropWhile is_ws s)"

definition no_ws :: "string \<Rightarrow> bool" where
  "no_ws s = list_all (\<lambda>c. \<not> is_ws c) s"

lemma no_ws_dropWhile: "no_ws s \<Longrightarrow> dropWhile is_ws s = s"
  by (cases s) (auto simp: no_ws_def)

lemma trim_no_ws [simp]: "no_ws s \<Longrightarrow> trim s = s"
  unfolding trim_def trim_end_def
  by (subst no_ws_dropWhile, assumption, subst no_ws_dropWhile) (auto simp: no_ws_def list_all_iff)

lemma trim_newline [simp]: "no_ws s \<Longrightarrow> trim (s @ [CHR 0x0A]) = s"
proof -
  assume s: "no_ws s"
  have nl: "is_ws (CHR 0x0A)" by (simp add: is_ws_def)
  show ?thesis
  proof (cases s)
    case Nil
    then show ?thesis by (simp add: trim_def trim_end_def nl)
  next
    case (Cons c cs)
    with s have "\<not> is_ws c" by (simp add: no_ws_def)
    moreover have "dropWhile is_ws (rev s) = rev s"
      using s by (intro no_ws_dropWhile) (auto simp: no_ws_def list_all_iff)
    ultimately show ?thesis by (simp add: trim_def trim_end_def nl Cons)
  qed
qed

text \<open>\<open>[String]::join\<close>.\<close>

fun join_with :: "string \<Rightarrow> string list \<Rightarrow> string" where
  "join_with sep [] = []"
| "join_with sep [x] = x"
| "join_with sep (x # y # zs) = x @ sep @ join_with sep (y # zs)"

text \<open>\<open>str::split(c)\<close>: always at least one piece.\<close>

fun split_char :: "char \<Rightarrow> string \<Rightarrow> string list" where
  "split_char c [] = [[]]"
| "split_char c (x # xs) =
     (if x = c then [] # split_char c xs
      else (case split_char c xs of [] \<Rightarrow> [[x]] | p # ps \<Rightarrow> (x # p) # ps))"

lemma split_char_nonempty: "split_char c s \<noteq> []"
  by (induction s) (auto split: list.splits)

lemma split_char_no_sep: "c \<notin> set s \<Longrightarrow> split_char c s = [s]"
  by (induction s) auto

lemma split_char_append: "c \<notin> set l \<Longrightarrow> split_char c (l @ c # r) = l # split_char c r"
  by (induction l) auto

lemma split_join:
  "xs \<noteq> [] \<Longrightarrow> \<forall>x\<in>set xs. c \<notin> set x \<Longrightarrow> split_char c (join_with [c] xs) = xs"
proof (induction xs rule: induct_list012)
  case (2 x)
  then show ?case by (simp add: split_char_no_sep)
next
  case (3 x y zs)
  then show ?case by (simp add: split_char_append)
qed simp

section \<open>Decimal numbers\<close>

text \<open>\<open>format!("{n}")\<close> for unsigned integers, and \<open>str::parse::<u64>\<close> (an optional plus sign,
  then at least one digit, nothing else, and the value within the type).\<close>

definition digit_char :: "nat \<Rightarrow> char" where
  "digit_char d = char_of (48 + d)"

definition digit_val :: "char \<Rightarrow> nat option" where
  "digit_val c = (let v = (of_char c :: nat) in if 48 \<le> v \<and> v \<le> 57 then Some (v - 48) else None)"

fun nat_to_string :: "nat \<Rightarrow> string" where
  "nat_to_string n = (if n < 10 then [digit_char n] else nat_to_string (n div 10) @ [digit_char (n mod 10)])"

declare nat_to_string.simps [simp del]

fun parse_digits :: "nat \<Rightarrow> string \<Rightarrow> nat option" where
  "parse_digits acc [] = Some acc"
| "parse_digits acc (c # cs) =
     (case digit_val c of None \<Rightarrow> None | Some d \<Rightarrow> parse_digits (10 * acc + d) cs)"

definition parse_u64 :: "string \<Rightarrow> nat option" where
  "parse_u64 s =
     (let t = (case strip_prefix ''+'' s of Some r \<Rightarrow> r | None \<Rightarrow> s)
      in if t = [] then None
         else (case parse_digits 0 t of
                 None \<Rightarrow> None
               | Some n \<Rightarrow> if n < 2 ^ 64 then Some n else None))"

lemma digit_val_char [simp]: "d < 10 \<Longrightarrow> digit_val (digit_char d) = Some d"
  by (simp add: digit_val_def digit_char_def)

lemma of_char_digit: "d < 10 \<Longrightarrow> (of_char (digit_char d) :: nat) = 48 + d"
  by (simp add: digit_char_def)

lemma digit_char_neq:
  assumes "d < 10" and "(of_char c :: nat) < 48 \<or> 57 < (of_char c :: nat)"
  shows "digit_char d \<noteq> c"
  using assms of_char_digit [OF assms(1)] by auto

lemma digit_char_not_ws: "d < 10 \<Longrightarrow> \<not> is_ws (digit_char d)"
  unfolding is_ws_def by (simp add: digit_char_neq)

lemma nat_to_string_digits: "c \<in> set (nat_to_string n) \<Longrightarrow> \<exists>d<10. c = digit_char d"
proof (induction n rule: nat_to_string.induct)
  case (1 n)
  have d: "\<exists>d<10. digit_char (n mod 10) = digit_char d" by (rule exI [of _ "n mod 10"]) simp
  from 1 show ?case
    by (subst (asm) (2) nat_to_string.simps) (use d in \<open>auto split: if_splits\<close>)
qed

lemma nat_to_string_nonempty [simp]: "nat_to_string n \<noteq> []"
  by (subst nat_to_string.simps) simp

lemma nat_to_string_no_ws [simp]: "no_ws (nat_to_string n)"
  unfolding no_ws_def list_all_iff using nat_to_string_digits digit_char_not_ws by blast

lemma parse_digits_append:
  "parse_digits acc (s @ t) =
     (case parse_digits acc s of None \<Rightarrow> None | Some a \<Rightarrow> parse_digits a t)"
  by (induction s arbitrary: acc) (auto split: option.splits)

lemma parse_digits_nat_to_string: "parse_digits 0 (nat_to_string n) = Some n"
proof (induction n rule: nat_to_string.induct)
  case (1 n)
  show ?case
  proof (cases "n < 10")
    case True
    then show ?thesis by (subst nat_to_string.simps) simp
  next
    case False
    with 1 show ?thesis by (subst nat_to_string.simps) (simp add: parse_digits_append)
  qed
qed

lemma hd_nat_to_string_neq:
  "(of_char c :: nat) < 48 \<or> 57 < (of_char c :: nat) \<Longrightarrow> hd (nat_to_string n) \<noteq> c"
  using nat_to_string_digits [of "hd (nat_to_string n)" n] digit_char_neq by fastforce

lemma strip_prefix_single: "s \<noteq> [] \<Longrightarrow> hd s \<noteq> c \<Longrightarrow> strip_prefix [c] s = None"
  by (cases s) (auto simp: strip_prefix_def)

lemma parse_u64_nat_to_string [simp]: "n < 2 ^ 64 \<Longrightarrow> parse_u64 (nat_to_string n) = Some n"
  by (simp add: parse_u64_def Let_def strip_prefix_single hd_nat_to_string_neq parse_digits_nat_to_string)

lemma nat_to_string_inj [simp]: "nat_to_string m = nat_to_string n \<longleftrightarrow> m = n"
  by (metis option.inject parse_digits_nat_to_string)

lemma not_in_nat_to_string:
  "(of_char c :: nat) < 48 \<or> 57 < (of_char c :: nat) \<Longrightarrow> c \<notin> set (nat_to_string n)"
  using nat_to_string_digits digit_char_neq by blast

section \<open>Stable sorting\<close>

text \<open>
  Rust's \<open>sort_by_key\<close> is stable; so is \<^const>\<open>sort_key\<close>. A relation holds between all
  pairs of the sorted list exactly when it holds, in the order the sort leaves them, between
  all pairs of the input.
\<close>

definition sort_pair :: "('a \<Rightarrow> 'b::linorder) \<Rightarrow> ('a \<Rightarrow> 'a \<Rightarrow> bool) \<Rightarrow> 'a \<Rightarrow> 'a \<Rightarrow> bool" where
  "sort_pair f P x y \<longleftrightarrow> (f x \<le> f y \<longrightarrow> P x y) \<and> (f y < f x \<longrightarrow> P y x)"

lemma sorted_wrt_insort_key:
  "sorted (map f zs) \<Longrightarrow>
   sorted_wrt P (insort_key f x zs) \<longleftrightarrow> sorted_wrt P zs \<and> (\<forall>y\<in>set zs. sort_pair f P x y)"
proof (induction zs)
  case (Cons z zs)
  then have le: "\<forall>y\<in>set zs. f z \<le> f y" by simp
  show ?case
  proof (cases "f x \<le> f z")
    case True
    with le have "\<forall>y\<in>set (z # zs). f x \<le> f y" by auto
    with True show ?thesis by (auto simp: sort_pair_def not_less[symmetric])
  next
    case False
    with Cons show ?thesis by (auto simp: sort_pair_def set_insort_key)
  qed
qed simp

lemma sorted_wrt_sort_key:
  "sorted_wrt P (sort_key f xs) \<longleftrightarrow> sorted_wrt (sort_pair f P) xs"
  by (induction xs) (auto simp: sorted_wrt_insort_key)

text \<open>Sorting by a key that no two elements share depends on the elements only.\<close>

lemma sort_key_mset_eq:
  assumes "mset xs = mset ys" and "inj_on f (set xs)"
  shows "sort_key f xs = sort_key f ys"
  using assms by (intro sort_key_inj_key_eq) simp_all

lemma sort_key_snoc_max:
  "\<forall>y\<in>set xs. f y < f x \<Longrightarrow> sort_key f (xs @ [x]) = sort_key f xs @ [x]"
proof (induction xs)
  case (Cons y ys)
  have "insort_key f y (zs @ [x]) = insort_key f y zs @ [x]" if "f y < f x" for zs
    using that by (induction zs) auto
  with Cons show ?case by simp
qed simp

lemma fold_max_upper: "(x :: nat) \<in> set xs \<Longrightarrow> x \<le> fold max xs a"
proof (induction xs arbitrary: a)
  case (Cons y ys)
  have "a \<le> fold max zs a" for zs and a :: nat
    by (induction zs arbitrary: a) (auto intro: order_trans [OF max.cobounded2])
  with Cons show ?case by (auto intro: order_trans [OF max.cobounded1])
qed simp

section \<open>Association lists\<close>

lemma update_map_snd:
  "AList.update k (f v) (map (\<lambda>(n, x). (n, f x)) al) = map (\<lambda>(n, x). (n, f x)) (AList.update k v al)"
  by (induction al) auto

lemma map_of_map_snd: "map_of (map (\<lambda>(n, x). (n, f x)) al) k = map_option f (map_of al k)"
  by (induction al) auto

section \<open>Order-preserving de-duplication\<close>

text \<open>The idiom \<open>filter(|x| seen.insert(key(x)))\<close>: keep the first element of each key.\<close>

fun dedup_by :: "('a \<Rightarrow> 'k) \<Rightarrow> 'k set \<Rightarrow> 'a list \<Rightarrow> 'a list" where
  "dedup_by f seen [] = []"
| "dedup_by f seen (x # xs) =
     (if f x \<in> seen then dedup_by f seen xs else x # dedup_by f (insert (f x) seen) xs)"

lemma dedup_by_keys: "f ` set (dedup_by f seen xs) = f ` set xs - seen"
  by (induction xs arbitrary: seen) auto

lemma dedup_by_subset: "set (dedup_by f seen xs) \<subseteq> set xs"
  by (induction xs arbitrary: seen) auto

lemma dedup_by_distinct: "distinct (map f (dedup_by f seen xs))"
proof (induction xs arbitrary: seen)
  case (Cons x xs)
  have "f x \<notin> f ` set (dedup_by f (insert (f x) seen) xs)"
    by (simp add: dedup_by_keys)
  with Cons show ?case by auto
qed simp

section \<open>Decoding and line splitting\<close>

definition byte_at :: "bytes \<Rightarrow> nat \<Rightarrow> nat" where
  "byte_at s i = (if i < length s then of_char (s ! i) else 0)"

definition is_cont :: "nat \<Rightarrow> bool" where
  "is_cont b \<longleftrightarrow> 128 \<le> b \<and> b \<le> 191"

text \<open>
  One step of the UTF-8 decoder: whether a scalar value starts here, and how many bytes it
  has (or how many bytes the ill-formed prefix has).
\<close>

definition utf8_step :: "bytes \<Rightarrow> bool \<times> nat" where
  "utf8_step s =
     (let b = byte_at s 0; c1 = byte_at s 1; c2 = byte_at s 2; c3 = byte_at s 3 in
      if b < 128 then (True, 1)
      else if 194 \<le> b \<and> b \<le> 223 then (if is_cont c1 then (True, 2) else (False, 1))
      else if 224 \<le> b \<and> b \<le> 239 then
        (if is_cont c1 \<and> (b = 224 \<longrightarrow> 160 \<le> c1) \<and> (b = 237 \<longrightarrow> c1 \<le> 159)
         then (if is_cont c2 then (True, 3) else (False, 2)) else (False, 1))
      else if 240 \<le> b \<and> b \<le> 244 then
        (if is_cont c1 \<and> (b = 240 \<longrightarrow> 144 \<le> c1) \<and> (b = 244 \<longrightarrow> c1 \<le> 143)
         then (if is_cont c2 then (if is_cont c3 then (True, 4) else (False, 3)) else (False, 2))
         else (False, 1))
      else (False, 1))"

lemma utf8_step_pos: "utf8_step s = (ok, n) \<Longrightarrow> 0 < n"
  by (auto simp: utf8_step_def Let_def split: if_splits)

function from_utf8_lossy :: "bytes \<Rightarrow> string" where
  "from_utf8_lossy s =
     (if s = [] then []
      else (case utf8_step s of (ok, n) \<Rightarrow>
        (if ok then take n s else [CHR 0xEF, CHR 0xBF, CHR 0xBD]) @ from_utf8_lossy (drop n s)))"
  by pat_completeness auto
termination
  by (relation "measure length") (auto dest: utf8_step_pos [OF sym])

declare from_utf8_lossy.simps [simp del]

definition ascii :: "bytes \<Rightarrow> bool" where
  "ascii s = list_all (\<lambda>c. (of_char c :: nat) < 128) s"

lemma from_utf8_lossy_ascii: "ascii s \<Longrightarrow> from_utf8_lossy s = s"
proof (induction s)
  case Nil
  then show ?case by (simp add: from_utf8_lossy.simps)
next
  case (Cons c s)
  then have "utf8_step (c # s) = (True, 1)" by (simp add: ascii_def utf8_step_def byte_at_def)
  with Cons show ?case by (subst from_utf8_lossy.simps) (simp add: ascii_def)
qed

definition strip_cr :: "string \<Rightarrow> string" where
  "strip_cr l = (if l \<noteq> [] \<and> last l = CHR 0x0D then butlast l else l)"

fun lines_acc :: "string \<Rightarrow> string \<Rightarrow> string list" where
  "lines_acc cur [] = (if cur = [] then [] else [rev cur])"
| "lines_acc cur (c # cs) =
     (if c = CHR 0x0A then strip_cr (rev cur) # lines_acc [] cs else lines_acc (c # cur) cs)"

text \<open>\<open>str::lines\<close>: pieces ended by a newline, with one carriage return before it dropped; a
  last piece without newline is a line too.\<close>

definition str_lines :: "string \<Rightarrow> string list" where
  "str_lines s = lines_acc [] s"

lemma lines_acc_line:
  "CHR 0x0A \<notin> set l \<Longrightarrow> lines_acc cur (l @ CHR 0x0A # s) = strip_cr (rev cur @ l) # lines_acc [] s"
  by (induction l arbitrary: cur) auto

definition plain_line :: "string \<Rightarrow> bool" where
  "plain_line l \<longleftrightarrow> CHR 0x0A \<notin> set l \<and> CHR 0x0D \<notin> set l"

lemma strip_cr_plain: "plain_line l \<Longrightarrow> strip_cr l = l"
  by (auto simp: plain_line_def strip_cr_def dest: last_in_set)

lemma str_lines_join:
  "ls \<noteq> [] \<Longrightarrow> \<forall>l\<in>set ls. plain_line l \<Longrightarrow> str_lines (join_with [CHR 0x0A] ls @ [CHR 0x0A]) = ls"
proof (induction ls rule: induct_list012)
  case (2 l)
  then show ?case
    using lines_acc_line [of l "[]" "[]"] by (simp add: str_lines_def plain_line_def strip_cr_plain)
next
  case (3 l m ls)
  then show ?case
    using lines_acc_line [of l "[]" "join_with [CHR 0x0A] (m # ls) @ [CHR 0x0A]"]
    by (simp add: str_lines_def plain_line_def strip_cr_plain)
qed simp

end
