(* ===== verification/EventLog.thy ===== *)
theory EventLog
  imports Vai_Prelude
begin

text \<open>
  The append-only event log (\<open>src/event_log/mod.rs\<close>): the event kinds, segment files of
  newline-delimited JSON, the SQLite index that locates every event by segment and byte offset,
  appending with segment rotation, the query functions and the index rebuild.

  \<open>serde_json\<close>, the RFC 3339 printer and the UUID printer are the fields of \<open>elog_env\<close>;
  \<open>json_ok\<close> states what the log relies on: parsing inverts printing, and a printed event has
  no line break and no white space at either end. The directory is the list of its
  \<open>*.events\<close> files with their contents, the index is the list of its rows.

  The interface to the rest of the program is the locale \<open>event_store\<close>: appending returns the
  event, keeps every event recorded before and adds the new one at the end.
\<close>

section \<open>Events\<close>

datatype ConflictSeverity = SevLow | SevMedium | SevHigh

record EntitySummary =
  es_id :: string
  es_kind :: string
  es_name :: string
  es_qualified_name :: string
  es_file_path :: string

record ConflictInfo =
  ci_conflict_id :: uuid
  ci_entity_a :: string
  ci_entity_b :: string
  ci_description :: string
  ci_severity :: ConflictSeverity

datatype EventKind =
    RepoInitialized uuid string
  | VersionCreated string "string option" string
  | WorkspaceCreated uuid string string
  | WorkspaceSubmitted uuid string
  | WorkspaceDiscarded uuid string
  | EntityAdded uuid EntitySummary
  | EntityModified uuid string string
  | EntityRemoved uuid string
  | FileAdded uuid string string
  | FileModified uuid string string string
  | FileRemoved uuid string
  | MergeCompleted uuid string nat
  | MergeConflictDetected uuid ConflictInfo
  | MergeConflictResolved uuid string string
  | RollbackCreated string string "string option"
  | IssueCreated uuid string string string
  | IssueUpdated uuid "string list"
  | IssueAssigned uuid string
  | IssueLinkedToWorkspace uuid uuid
  | IssueResolved uuid string "string option"
  | IssueClosed uuid string
  | EscalationCreated uuid string string "string list" string
  | EscalationResolved uuid string string
  | CommentCreated uuid uuid string string "uuid option" "uuid list"
  | RepoAgentSecretSet uuid string
  | RepoAgentSecretDeleted uuid string

fun event_type :: "EventKind \<Rightarrow> string" where
  "event_type (RepoInitialized _ _) = ''RepoInitialized''"
| "event_type (VersionCreated _ _ _) = ''VersionCreated''"
| "event_type (WorkspaceCreated _ _ _) = ''WorkspaceCreated''"
| "event_type (WorkspaceSubmitted _ _) = ''WorkspaceSubmitted''"
| "event_type (WorkspaceDiscarded _ _) = ''WorkspaceDiscarded''"
| "event_type (EntityAdded _ _) = ''EntityAdded''"
| "event_type (EntityModified _ _ _) = ''EntityModified''"
| "event_type (EntityRemoved _ _) = ''EntityRemoved''"
| "event_type (FileAdded _ _ _) = ''FileAdded''"
| "event_type (FileModified _ _ _ _) = ''FileModified''"
| "event_type (FileRemoved _ _) = ''FileRemoved''"
| "event_type (MergeCompleted _ _ _) = ''MergeCompleted''"
| "event_type (MergeConflictDetected _ _) = ''MergeConflictDetected''"
| "event_type (MergeConflictResolved _ _ _) = ''MergeConflictResolved''"
| "event_type (RollbackCreated _ _ _) = ''RollbackCreated''"
| "event_type (IssueCreated _ _ _ _) = ''IssueCreated''"
| "event_type (IssueUpdated _ _) = ''IssueUpdated''"
| "event_type (IssueAssigned _ _) = ''IssueAssigned''"
| "event_type (IssueLinkedToWorkspace _ _) = ''IssueLinkedToWorkspace''"
| "event_type (IssueResolved _ _ _) = ''IssueResolved''"
| "event_type (IssueClosed _ _) = ''IssueClosed''"
| "event_type (EscalationCreated _ _ _ _ _) = ''EscalationCreated''"
| "event_type (EscalationResolved _ _ _) = ''EscalationResolved''"
| "event_type (CommentCreated _ _ _ _ _ _) = ''CommentCreated''"
| "event_type (RepoAgentSecretSet _ _) = ''RepoAgentSecretSet''"
| "event_type (RepoAgentSecretDeleted _ _) = ''RepoAgentSecretDeleted''"

fun kind_workspace_id :: "EventKind \<Rightarrow> uuid option" where
  "kind_workspace_id (WorkspaceCreated w _ _) = Some w"
| "kind_workspace_id (WorkspaceSubmitted w _) = Some w"
| "kind_workspace_id (WorkspaceDiscarded w _) = Some w"
| "kind_workspace_id (EntityAdded w _) = Some w"
| "kind_workspace_id (EntityModified w _ _) = Some w"
| "kind_workspace_id (EntityRemoved w _) = Some w"
| "kind_workspace_id (FileAdded w _ _) = Some w"
| "kind_workspace_id (FileModified w _ _ _) = Some w"
| "kind_workspace_id (FileRemoved w _) = Some w"
| "kind_workspace_id (MergeCompleted w _ _) = Some w"
| "kind_workspace_id (MergeConflictDetected w _) = Some w"
| "kind_workspace_id _ = None"

fun kind_entity_id :: "EventKind \<Rightarrow> string option" where
  "kind_entity_id (EntityAdded _ e) = Some (es_id e)"
| "kind_entity_id (EntityModified _ i _) = Some i"
| "kind_entity_id (EntityRemoved _ i) = Some i"
| "kind_entity_id _ = None"

record Event =
  ev_id :: nat
  ev_timestamp :: time
  ev_kind :: EventKind

section \<open>The log\<close>

datatype EventLogError = ElIo | ElSqlite | ElSerde | ElNotFound string

record elog_env =
  ev_to_json :: "Event \<Rightarrow> string"
  ev_from_json :: "string \<Rightarrow> Event option"
  to_rfc3339 :: "time \<Rightarrow> string"
  uuid_to_string :: "uuid \<Rightarrow> string"

record index_row =
  row_id :: nat
  row_timestamp :: string
  row_event_type :: string
  row_workspace_id :: "string option"
  row_entity_id :: "string option"
  row_segment_file :: string
  row_byte_offset :: nat

record event_log =
  segments :: "(string \<times> bytes) list"
  index_rows :: "index_row list"

definition max_segment_bytes :: nat where
  "max_segment_bytes = 64 * 1024 * 1024"

text \<open>A fresh directory with an initialised schema: \<open>EventLog::open\<close> on a new path.\<close>

definition elog_empty :: event_log where
  "elog_empty = \<lparr>segments = [], index_rows = []\<rparr>"

definition next_id :: "event_log \<Rightarrow> nat" where
  "next_id log = fold max (map row_id (index_rows log)) 0 + 1"

definition list_segments :: "event_log \<Rightarrow> string list" where
  "list_segments log = filter (\<lambda>n. ends_with n ''.events'') (map fst (segments log))"

text \<open>\<open>trim_end_matches(".events")\<close> removes the suffix as often as it occurs; \<open>parse::<u32>\<close>.\<close>

function trim_events :: "string \<Rightarrow> string" where
  "trim_events s = (if ends_with s ''.events'' then trim_events (take (length s - 7) s) else s)"
  by pat_completeness auto
termination
  by (relation "measure length") (auto simp: ends_with_def)

declare trim_events.simps [simp del]

definition parse_u32 :: "string \<Rightarrow> nat option" where
  "parse_u32 s = (case parse_u64 s of Some n \<Rightarrow> if n < 2 ^ 32 then Some n else None | None \<Rightarrow> None)"

definition pad6 :: "nat \<Rightarrow> string" where
  "pad6 n = (let d = nat_to_string n in replicate (6 - length d) CHR ''0'' @ d)"

definition current_segment_name :: "event_log \<Rightarrow> string" where
  "current_segment_name log =
     (let names = sort (list_segments log) in
      if names = [] then ''000001.events''
      else let lst = last names;
               size = (case map_of (segments log) lst of Some c \<Rightarrow> length c | None \<Rightarrow> 0)
           in if size < max_segment_bytes then lst
              else let n = (case parse_u32 (trim_events lst) of Some k \<Rightarrow> k | None \<Rightarrow> 0)
                   in pad6 ((n + 1) mod 2 ^ 32) @ ''.events'')"

definition write_to_segment :: "('a) elog_env_scheme \<Rightarrow> event_log \<Rightarrow> Event \<Rightarrow> string \<times> nat \<times> event_log" where
  "write_to_segment env log e =
     (let name = current_segment_name log;
          old = (case map_of (segments log) name of Some c \<Rightarrow> c | None \<Rightarrow> []);
          line = ev_to_json env e @ [CHR 0x0A]
      in (name, length old, log\<lparr>segments := AList.update name (old @ line) (segments log)\<rparr>))"

definition make_row :: "('a) elog_env_scheme \<Rightarrow> Event \<Rightarrow> string \<Rightarrow> nat \<Rightarrow> index_row" where
  "make_row env e seg off =
     \<lparr>row_id = ev_id e, row_timestamp = to_rfc3339 env (ev_timestamp e),
      row_event_type = event_type (ev_kind e),
      row_workspace_id = map_option (uuid_to_string env) (kind_workspace_id (ev_kind e)),
      row_entity_id = kind_entity_id (ev_kind e),
      row_segment_file = seg, row_byte_offset = off\<rparr>"

text \<open>The insert fails on a primary key that is already in the table.\<close>

definition index_event ::
  "('a) elog_env_scheme \<Rightarrow> event_log \<Rightarrow> Event \<Rightarrow> string \<Rightarrow> nat \<Rightarrow> (EventLogError, event_log) result" where
  "index_event env log e seg off =
     (if list_ex (\<lambda>r. row_id r = ev_id e) (index_rows log) then Inl ElSqlite
      else Inr (log\<lparr>index_rows := index_rows log @ [make_row env e seg off]\<rparr>))"

definition elog_append ::
  "('a) elog_env_scheme \<Rightarrow> event_log \<Rightarrow> time \<Rightarrow> EventKind \<Rightarrow> (EventLogError, Event \<times> event_log) result" where
  "elog_append env log now kind =
     (let e = \<lparr>ev_id = next_id log, ev_timestamp = now, ev_kind = kind\<rparr>;
          (seg, off, log1) = write_to_segment env log e
      in bind_result (index_event env log1 e seg off) (\<lambda>log2. Inr (e, log2)))"

section \<open>Queries\<close>

text \<open>\<open>read_line\<close> from the byte offset, then \<open>from_str\<close> on the line without trailing white space.\<close>

definition read_event_at ::
  "('a) elog_env_scheme \<Rightarrow> event_log \<Rightarrow> string \<Rightarrow> nat \<Rightarrow> (EventLogError, Event) result" where
  "read_event_at env log seg off =
     (case map_of (segments log) seg of
        None \<Rightarrow> Inl ElIo
      | Some c \<Rightarrow>
          (case ev_from_json env (trim_end (takeWhile (\<lambda>x. x \<noteq> CHR 0x0A) (drop off c))) of
             None \<Rightarrow> Inl ElSerde
           | Some e \<Rightarrow> Inr e))"

fun load_events ::
  "('a) elog_env_scheme \<Rightarrow> event_log \<Rightarrow> (string \<times> nat) list \<Rightarrow> (EventLogError, Event list) result" where
  "load_events env log [] = Inr []"
| "load_events env log ((seg, off) # rows) =
     bind_result (read_event_at env log seg off)
       (\<lambda>e. bind_result (load_events env log rows) (\<lambda>es. Inr (e # es)))"

text \<open>\<open>SELECT segment_file, byte_offset FROM events WHERE \<dots> ORDER BY id\<close>.\<close>

definition query_index :: "event_log \<Rightarrow> (index_row \<Rightarrow> bool) \<Rightarrow> (string \<times> nat) list" where
  "query_index log cond =
     map (\<lambda>r. (row_segment_file r, row_byte_offset r)) (sort_key row_id (filter cond (index_rows log)))"

definition query_by_type where
  "query_by_type env log ty = load_events env log (query_index log (\<lambda>r. row_event_type r = ty))"

definition query_by_workspace where
  "query_by_workspace env log wid =
     load_events env log (query_index log (\<lambda>r. row_workspace_id r = Some (uuid_to_string env wid)))"

definition query_by_entity where
  "query_by_entity env log eid = load_events env log (query_index log (\<lambda>r. row_entity_id r = Some eid))"

definition query_by_time_range where
  "query_by_time_range env log start_t end_t =
     load_events env log (query_index log
       (\<lambda>r. to_rfc3339 env start_t \<le> row_timestamp r \<and> row_timestamp r \<le> to_rfc3339 env end_t))"

definition all_events where
  "all_events env log = load_events env log (query_index log (\<lambda>r. True))"

definition count_events :: "event_log \<Rightarrow> nat" where
  "count_events log = length (index_rows log)"

definition get_by_id ::
  "('a) elog_env_scheme \<Rightarrow> event_log \<Rightarrow> nat \<Rightarrow> (EventLogError, Event option) result" where
  "get_by_id env log i =
     (case query_index log (\<lambda>r. row_id r = i) of
        [] \<Rightarrow> Inr None
      | (seg, off) # _ \<Rightarrow> bind_result (read_event_at env log seg off) (\<lambda>e. Inr (Some e)))"

section \<open>Rebuilding the index\<close>

fun rebuild_lines ::
  "('a) elog_env_scheme \<Rightarrow> event_log \<Rightarrow> string \<Rightarrow> nat \<Rightarrow> string list \<Rightarrow> (EventLogError, event_log) result" where
  "rebuild_lines env log seg off [] = Inr log"
| "rebuild_lines env log seg off (l # ls) =
     (if trim l = [] then rebuild_lines env log seg (off + length l + 1) ls
      else (case ev_from_json env l of
              None \<Rightarrow> Inl ElSerde
            | Some e \<Rightarrow> bind_result (index_event env log e seg off)
                (\<lambda>log'. rebuild_lines env log' seg (off + length l + 1) ls)))"

fun rebuild_segments ::
  "('a) elog_env_scheme \<Rightarrow> event_log \<Rightarrow> string list \<Rightarrow> (EventLogError, event_log) result" where
  "rebuild_segments env log [] = Inr log"
| "rebuild_segments env log (seg # segs) =
     (case map_of (segments log) seg of
        None \<Rightarrow> Inl ElIo
      | Some c \<Rightarrow> bind_result (rebuild_lines env log seg 0 (str_lines c))
          (\<lambda>log'. rebuild_segments env log' segs))"

definition rebuild_index :: "('a) elog_env_scheme \<Rightarrow> event_log \<Rightarrow> (EventLogError, event_log) result" where
  "rebuild_index env log =
     (let cleared = log\<lparr>index_rows := []\<rparr>
      in rebuild_segments env cleared (sort (list_segments cleared)))"

section \<open>The interface of the log\<close>

text \<open>Several appends in a row, ended by the first error.\<close>

fun append_kinds ::
  "('s \<Rightarrow> time \<Rightarrow> EventKind \<Rightarrow> ('e, Event \<times> 's) result) \<Rightarrow> 's \<Rightarrow> time \<Rightarrow> EventKind list \<Rightarrow> ('e, 's) result" where
  "append_kinds app s now [] = Inr s"
| "append_kinds app s now (k # ks) =
     bind_result (app s now k) (\<lambda>(e, s'). append_kinds app s' now ks)"

locale event_store =
  fixes append :: "'s \<Rightarrow> time \<Rightarrow> EventKind \<Rightarrow> ('e, Event \<times> 's) result"
    and events :: "'s \<Rightarrow> Event list"
    and invar :: "'s \<Rightarrow> bool"
  assumes append_total: "invar s \<Longrightarrow> \<exists>e s'. append s now k = Inr (e, s')"
    and append_invar: "invar s \<Longrightarrow> append s now k = Inr (e, s') \<Longrightarrow> invar s'"
    and append_events: "invar s \<Longrightarrow> append s now k = Inr (e, s') \<Longrightarrow> events s' = events s @ [e]"
    and append_event:
      "invar s \<Longrightarrow> append s now k = Inr (e, s') \<Longrightarrow>
       ev_kind e = k \<and> ev_timestamp e = now \<and> (\<forall>e'\<in>set (events s). ev_id e' < ev_id e)"
begin

lemma appendE:
  assumes "invar s"
  obtains e s' where "append s now k = Inr (e, s')" "invar s'" "events s' = events s @ [e]"
    "ev_kind e = k" "ev_timestamp e = now" "\<forall>e'\<in>set (events s). ev_id e' < ev_id e"
  using append_total [OF assms] append_invar [OF assms] append_events [OF assms] append_event [OF assms]
  by metis

lemma append_kinds_ok:
  "invar s \<Longrightarrow> \<exists>s' es. append_kinds append s now ks = Inr s' \<and> invar s' \<and>
     events s' = events s @ es \<and> map ev_kind es = ks"
proof (induction ks arbitrary: s)
  case (Cons k ks)
  obtain e s1 where 1: "append s now k = Inr (e, s1)" "invar s1" "events s1 = events s @ [e]" "ev_kind e = k"
    using appendE [OF Cons.prems, of now k] by metis
  from Cons.IH [OF 1(2)] obtain s' es where "append_kinds append s1 now ks = Inr s'" "invar s'"
    "events s' = events s1 @ es" "map ev_kind es = ks" by blast
  with 1 show ?case by (intro exI [of _ s'] exI [of _ "e # es"]) simp
qed simp

lemma append_ids_distinct:
  assumes "invar s" "distinct (map ev_id (events s))" "append s now k = Inr (e, s')"
  shows "distinct (map ev_id (events s'))"
  using append_events [OF assms(1,3)] append_event [OF assms(1,3)] assms(2) by auto

end

section \<open>Well-formed logs\<close>

definition json_ok :: "('a) elog_env_scheme \<Rightarrow> bool" where
  "json_ok env \<longleftrightarrow>
     (\<forall>e. ev_from_json env (ev_to_json env e) = Some e \<and> CHR 0x0A \<notin> set (ev_to_json env e) \<and>
          ev_to_json env e \<noteq> [] \<and> \<not> is_ws (hd (ev_to_json env e)) \<and> \<not> is_ws (last (ev_to_json env e)))"

definition ser :: "('a) elog_env_scheme \<Rightarrow> Event list \<Rightarrow> bytes" where
  "ser env es = concat (map (\<lambda>e. ev_to_json env e @ [CHR 0x0A]) es)"

fun rows_from :: "('a) elog_env_scheme \<Rightarrow> string \<Rightarrow> nat \<Rightarrow> Event list \<Rightarrow> index_row list" where
  "rows_from env seg off [] = []"
| "rows_from env seg off (e # es) =
     make_row env e seg off # rows_from env seg (off + length (ev_to_json env e) + 1) es"

text \<open>
  The segments hold the events \<open>S\<close> file by file, one line each, and the index holds exactly
  one row for every event, with its position.
\<close>

definition layout :: "('a) elog_env_scheme \<Rightarrow> (string \<times> Event list) list \<Rightarrow> event_log \<Rightarrow> bool" where
  "layout env S log \<longleftrightarrow>
     segments log = map (\<lambda>(n, es). (n, ser env es)) S \<and> distinct (map fst S) \<and>
     (\<forall>n\<in>set (map fst S). ends_with n ''.events'') \<and>
     mset (index_rows log) = mset (concat (map (\<lambda>(n, es). rows_from env n 0 es) S)) \<and>
     distinct (map row_id (index_rows log))"

definition wf_log :: "('a) elog_env_scheme \<Rightarrow> event_log \<Rightarrow> bool" where
  "wf_log env log \<longleftrightarrow> json_ok env \<and> (\<exists>S. layout env S log)"

lemma rows_from_append:
  "rows_from env seg off (es @ [e]) = rows_from env seg off es @ [make_row env e seg (off + length (ser env es))]"
  by (induction es arbitrary: off) (simp_all add: ser_def add.assoc)

lemma make_row_sel [simp]:
  "row_id (make_row env e seg off) = ev_id e"
  "row_segment_file (make_row env e seg off) = seg"
  "row_byte_offset (make_row env e seg off) = off"
  "row_event_type (make_row env e seg off) = event_type (ev_kind e)"
  "row_workspace_id (make_row env e seg off) = map_option (uuid_to_string env) (kind_workspace_id (ev_kind e))"
  "row_entity_id (make_row env e seg off) = kind_entity_id (ev_kind e)"
  "row_timestamp (make_row env e seg off) = to_rfc3339 env (ev_timestamp e)"
  by (simp_all add: make_row_def)

lemma trim_end_json: "json_ok env \<Longrightarrow> trim_end (ev_to_json env e) = ev_to_json env e"
proof -
  assume "json_ok env"
  then have j: "ev_to_json env e \<noteq> []" "\<not> is_ws (last (ev_to_json env e))" by (simp_all add: json_ok_def)
  then obtain xs x where "ev_to_json env e = xs @ [x]" "\<not> is_ws x" by (metis append_butlast_last_id)
  then show ?thesis by (simp add: trim_end_def)
qed

lemma takeWhile_line: "c \<notin> set xs \<Longrightarrow> takeWhile (\<lambda>x. x \<noteq> c) (xs @ c # ys) = xs"
  by (induction xs) auto

lemma rows_from_read:
  "r \<in> set (rows_from env seg off es) \<Longrightarrow>
   \<exists>e pre post. r = make_row env e seg (off + length (ser env pre)) \<and> es = pre @ e # post"
proof (induction es arbitrary: off)
  case (Cons e es)
  show ?case
  proof (cases "r = make_row env e seg off")
    case True
    then show ?thesis by (intro exI [of _ e] exI [of _ "[]"] exI [of _ es]) (simp add: ser_def)
  next
    case False
    with Cons obtain e' pre post where
      "r = make_row env e' seg (off + length (ev_to_json env e) + 1 + length (ser env pre))" "es = pre @ e' # post"
      by force
    then show ?thesis by (intro exI [of _ e'] exI [of _ "e # pre"] exI [of _ post]) (simp add: ser_def)
  qed
qed simp

lemma read_event_at_ser:
  assumes "json_ok env" "map_of (segments log) seg = Some (ser env (pre @ e # post))"
  shows "read_event_at env log seg (length (ser env pre)) = Inr e"
proof -
  have "drop (length (ser env pre)) (ser env (pre @ e # post)) = ev_to_json env e @ CHR 0x0A # ser env post"
    by (simp add: ser_def)
  with assms show ?thesis
    by (simp add: read_event_at_def takeWhile_line trim_end_json) (simp add: json_ok_def takeWhile_line trim_end_json [OF assms(1)])
qed

lemma layout_segment:
  "layout env S log \<Longrightarrow> (n, es) \<in> set S \<Longrightarrow> map_of (segments log) n = Some (ser env es)"
  by (simp add: layout_def map_of_map_snd)

text \<open>Every row of the index can be read back, and describes the event it points to.\<close>

definition row_for :: "('a) elog_env_scheme \<Rightarrow> Event \<Rightarrow> index_row \<Rightarrow> bool" where
  "row_for env e r \<longleftrightarrow> r = make_row env e (row_segment_file r) (row_byte_offset r)"

lemma row_for_make [simp]: "row_for env e (make_row env e seg off)"
  by (simp add: row_for_def)

lemma row_for_sel:
  assumes "row_for env e r"
  shows "row_id r = ev_id e" "row_event_type r = event_type (ev_kind e)"
    "row_workspace_id r = map_option (uuid_to_string env) (kind_workspace_id (ev_kind e))"
    "row_entity_id r = kind_entity_id (ev_kind e)"
    "row_timestamp r = to_rfc3339 env (ev_timestamp e)"
  using assms unfolding row_for_def by (metis make_row_sel)+

lemma layout_row:
  assumes "json_ok env" "layout env S log" "r \<in> set (index_rows log)"
  obtains e where "read_event_at env log (row_segment_file r) (row_byte_offset r) = Inr e"
    "row_for env e r"
proof -
  have "set (index_rows log) = set (concat (map (\<lambda>(n, es). rows_from env n 0 es) S))"
    using assms(2) unfolding layout_def by (metis set_mset_mset)
  with assms(3) obtain n es where S: "(n, es) \<in> set S" "r \<in> set (rows_from env n 0 es)" by auto
  from rows_from_read [OF S(2)] obtain e pre post where
    "r = make_row env e n (length (ser env pre))" "es = pre @ e # post" by auto
  with S layout_segment [OF assms(2) S(1)] read_event_at_ser [OF assms(1)] that show ?thesis
    by (metis make_row_sel(2,3) row_for_make)
qed

text \<open>The events of the log in the order of their identifiers.\<close>

definition log_events :: "('a) elog_env_scheme \<Rightarrow> event_log \<Rightarrow> Event list" where
  "log_events env log = (case all_events env log of Inr es \<Rightarrow> es | Inl _ \<Rightarrow> [])"

definition row_event :: "('a) elog_env_scheme \<Rightarrow> event_log \<Rightarrow> index_row \<Rightarrow> Event" where
  "row_event env log r =
     (case read_event_at env log (row_segment_file r) (row_byte_offset r) of Inr e \<Rightarrow> e | Inl _ \<Rightarrow> undefined)"

lemma load_events_map:
  "\<forall>(seg, off)\<in>set rows. \<exists>e. read_event_at env log seg off = Inr e \<Longrightarrow>
   load_events env log rows =
     Inr (map (\<lambda>(seg, off). case read_event_at env log seg off of Inr e \<Rightarrow> e | Inl _ \<Rightarrow> undefined) rows)"
  by (induction rows) auto

lemma query_rows:
  assumes "wf_log env log"
  shows "load_events env log (query_index log cond) =
    Inr (map (row_event env log) (sort_key row_id (filter cond (index_rows log))))"
proof -
  from assms obtain S where S: "json_ok env" "layout env S log" by (auto simp: wf_log_def)
  have "\<forall>(seg, off)\<in>set (query_index log cond). \<exists>e. read_event_at env log seg off = Inr e"
    unfolding query_index_def by (auto elim: layout_row [OF S])
  then show ?thesis
    by (simp add: load_events_map) (simp add: query_index_def row_event_def comp_def)
qed

lemma row_event_for:
  assumes "wf_log env log" "r \<in> set (index_rows log)"
  shows "row_for env (row_event env log r) r"
proof -
  from assms obtain S where "json_ok env" "layout env S log" by (auto simp: wf_log_def)
  from layout_row [OF this assms(2)] show ?thesis by (metis row_event_def sum.case(2))
qed

lemmas row_event_sel = row_for_sel [OF row_event_for]

lemma log_events_rows:
  "wf_log env log \<Longrightarrow> log_events env log = map (row_event env log) (sort_key row_id (index_rows log))"
  by (simp add: log_events_def all_events_def query_rows)

lemma list_segments_layout: "layout env S log \<Longrightarrow> list_segments log = map fst S"
  by (auto simp: layout_def list_segments_def comp_def case_prod_unfold)

lemma current_segment_events: "ends_with (current_segment_name log) ''.events''"
proof -
  have "ends_with (last (sort (list_segments log))) ''.events''" if "sort (list_segments log) \<noteq> []"
    using last_in_set [OF that] by (simp add: list_segments_def)
  then show ?thesis by (auto simp: current_segment_name_def Let_def ends_with_def)
qed

lemma next_id_fresh: "r \<in> set (index_rows log) \<Longrightarrow> row_id r < next_id log"
  using fold_max_upper [of "row_id r" "map row_id (index_rows log)" 0] by (simp add: next_id_def less_Suc_eq_le)

text \<open>What an append does to the log.\<close>

lemma elog_append_eq:
  fixes log :: event_log and env :: "('a) elog_env_scheme" and now :: time and k :: EventKind
  defines "seg \<equiv> current_segment_name log"
  defines "old \<equiv> (case map_of (segments log) seg of Some c \<Rightarrow> c | None \<Rightarrow> [])"
  defines "e \<equiv> \<lparr>ev_id = next_id log, ev_timestamp = now, ev_kind = k\<rparr>"
  shows "elog_append env log now k =
    Inr (e, \<lparr>segments = AList.update seg (old @ ev_to_json env e @ [CHR 0x0A]) (segments log),
             index_rows = index_rows log @ [make_row env e seg (length old)]\<rparr>)"
proof -
  have "\<not> list_ex (\<lambda>r. row_id r = next_id log) (index_rows log)"
    using next_id_fresh by (fastforce simp: list_ex_iff)
  then show ?thesis
    by (simp add: elog_append_def write_to_segment_def index_event_def seg_def old_def e_def Let_def)
qed

lemma concat_update_mset:
  assumes "distinct (map fst S)"
  shows "mset (concat (map (\<lambda>(n, es). f n es) (AList.update k v S))) + mset (case map_of S k of Some u \<Rightarrow> f k u | None \<Rightarrow> []) =
         mset (concat (map (\<lambda>(n, es). f n es) S)) + mset (f k v)"
  using assms
proof (induction S)
  case (Cons p S)
  obtain n es where p: "p = (n, es)" by fastforce
  show ?case
  proof (cases "n = k")
    case True
    with p Cons.prems have "AList.update k v (p # S) = (k, v) # S" by simp
    with p True show ?thesis by simp
  next
    case False
    with p Cons show ?thesis by simp
  qed
qed simp

lemma layout_append:
  assumes "layout env S log" and "elog_append env log now k = Inr (e, log')"
  shows "layout env (AList.update (current_segment_name log)
    ((case map_of S (current_segment_name log) of Some es \<Rightarrow> es | None \<Rightarrow> []) @ [e]) S) log'"
proof -
  define seg where "seg = current_segment_name log"
  define es where "es = (case map_of S seg of Some es \<Rightarrow> es | None \<Rightarrow> [])"
  let ?S' = "AList.update seg (es @ [e]) S"
  have old: "(case map_of (segments log) seg of Some c \<Rightarrow> c | None \<Rightarrow> []) = ser env es"
    using assms(1) by (simp add: layout_def map_of_map_snd es_def ser_def split: option.split)
  have e: "e = \<lparr>ev_id = next_id log, ev_timestamp = now, ev_kind = k\<rparr>"
    and segs: "segments log' = AList.update seg (ser env es @ ev_to_json env e @ [CHR 0x0A]) (segments log)"
    and idx: "index_rows log' = index_rows log @ [make_row env e seg (length (ser env es))]"
    using assms(2) unfolding elog_append_eq old [unfolded seg_def] by (auto simp: seg_def)
  have "segments log' = map (\<lambda>(n, es). (n, ser env es)) ?S'"
    using assms(1) segs by (simp add: layout_def ser_def update_map_snd [symmetric])
  moreover have "distinct (map fst ?S')" using assms(1) by (simp add: layout_def distinct_update)
  moreover have "set (map fst ?S') = insert seg (set (map fst S))" by (simp add: dom_update)
  then have "\<forall>n\<in>set (map fst ?S'). ends_with n ''.events''"
    using assms(1) current_segment_events [of log] by (simp add: layout_def seg_def del: set_map)
  moreover have "next_id log \<notin> row_id ` set (index_rows log)"
    using next_id_fresh by (metis imageE less_irrefl)
  then have "distinct (map row_id (index_rows log'))"
    using assms(1) by (simp add: layout_def idx e)
  moreover have "mset (index_rows log') = mset (concat (map (\<lambda>(n, es). rows_from env n 0 es) ?S'))"
    using concat_update_mset [of S "\<lambda>n. rows_from env n 0" seg "es @ [e]"] assms(1)
    by (cases "map_of S seg") (simp_all add: layout_def idx rows_from_append es_def ser_def del: map_of_eq_Some_iff)
  ultimately show ?thesis unfolding layout_def seg_def [symmetric] es_def [symmetric] by blast
qed

lemma append_reads_old:
  assumes "json_ok env" "layout env S log" "elog_append env log now k = Inr (e, log')" "r \<in> set (index_rows log)"
  shows "row_event env log' r = row_event env log r"
proof -
  let ?seg = "current_segment_name log"
  let ?S' = "AList.update ?seg ((case map_of S ?seg of Some es \<Rightarrow> es | None \<Rightarrow> []) @ [e]) S"
  note l' = layout_append [OF assms(2,3)]
  have "set (index_rows log) = set (concat (map (\<lambda>(n, es). rows_from env n 0 es) S))"
    using assms(2) unfolding layout_def by (metis set_mset_mset)
  with assms(4) obtain n es where S: "(n, es) \<in> set S" "r \<in> set (rows_from env n 0 es)" by auto
  from rows_from_read [OF S(2)] obtain e' pre post where
    r: "r = make_row env e' n (length (ser env pre))" and es: "es = pre @ e' # post" by auto
  have n: "map_of S n = Some es" using S assms(2) by (simp add: layout_def)
  have "\<exists>post'. map_of ?S' n = Some (pre @ e' # post')"
    using n es by (cases "n = ?seg") (auto simp: update_conv')
  then obtain post' where "map_of (segments log') n = Some (ser env (pre @ e' # post'))"
    using l' by (auto simp: layout_def map_of_map_snd)
  moreover have "map_of (segments log) n = Some (ser env (pre @ e' # post))"
    using layout_segment [OF assms(2) S(1)] es by simp
  ultimately show ?thesis
    using assms(1) by (simp add: row_event_def r read_event_at_ser)
qed

lemma append_event_fields:
  assumes "elog_append env log now k = Inr (e, log')"
  shows "ev_id e = next_id log" "ev_timestamp e = now" "ev_kind e = k"
  using assms by (auto simp: elog_append_eq)

lemma append_new_row:
  assumes "json_ok env" "layout env S log" "elog_append env log now k = Inr (e, log')"
  obtains r where "index_rows log' = index_rows log @ [r]" "row_for env e r" "row_event env log' r = e"
proof -
  let ?seg = "current_segment_name log"
  let ?es = "case map_of S ?seg of Some es \<Rightarrow> es | None \<Rightarrow> []"
  let ?r = "make_row env e ?seg (length (ser env ?es))"
  have "(case map_of (segments log) ?seg of Some c \<Rightarrow> c | None \<Rightarrow> []) = ser env ?es"
    using assms(2) by (simp add: layout_def map_of_map_snd ser_def split: option.split)
  then have idx: "index_rows log' = index_rows log @ [?r]"
    using assms(3) by (auto simp: elog_append_eq)
  have "map_of (segments log') ?seg = Some (ser env (?es @ e # []))"
    using layout_append [OF assms(2,3)] by (simp add: layout_def map_of_map_snd update_conv')
  then have "read_event_at env log' ?seg (length (ser env ?es)) = Inr e"
    by (rule read_event_at_ser [OF assms(1)])
  then have "row_event env log' ?r = e" by (simp add: row_event_def)
  with idx that show ?thesis by (metis row_for_make)
qed

lemma wf_log_append: "wf_log env log \<Longrightarrow> elog_append env log now k = Inr (e, log') \<Longrightarrow> wf_log env log'"
  using layout_append by (fastforce simp: wf_log_def)

lemma wf_log_empty: "json_ok env \<Longrightarrow> wf_log env elog_empty"
  by (auto simp: wf_log_def layout_def elog_empty_def intro!: exI [of _ "[]"])

lemma wf_log_distinct: "wf_log env log \<Longrightarrow> distinct (map row_id (index_rows log))"
  by (auto simp: wf_log_def layout_def)

text \<open>A query over a property of events, before and after an append.\<close>

lemma query_append:
  assumes "wf_log env log" "elog_append env log now k = Inr (e, log')"
    and cond: "\<And>e r. row_for env e r \<Longrightarrow> cond r \<longleftrightarrow> P e"
  shows "load_events env log' (query_index log' cond) =
    bind_result (load_events env log (query_index log cond)) (\<lambda>es. Inr (es @ (if P e then [e] else [])))"
proof -
  note wf' = wf_log_append [OF assms(1,2)]
  obtain S where S: "json_ok env" "layout env S log" using assms(1) by (auto simp: wf_log_def)
  obtain r where r: "index_rows log' = index_rows log @ [r]" "row_for env e r" "row_event env log' r = e"
    using append_new_row [OF S assms(2)] by blast
  have lt: "\<forall>r'\<in>set (index_rows log). row_id r' < row_id r"
    using next_id_fresh append_event_fields(1) [OF assms(2)] row_for_sel(1) [OF r(2)] by simp
  have "sort_key row_id (filter cond (index_rows log')) =
      sort_key row_id (filter cond (index_rows log)) @ (if P e then [r] else [])"
    using r lt cond [OF r(2)] by (simp add: sort_key_snoc_max)
  moreover have "map (row_event env log') (sort_key row_id (filter cond (index_rows log))) =
      map (row_event env log) (sort_key row_id (filter cond (index_rows log)))"
    using append_reads_old [OF S assms(2)] by (intro map_cong) auto
  ultimately show ?thesis using r(3) by (simp add: query_rows [OF assms(1)] query_rows [OF wf'])
qed

lemma log_events_append:
  "wf_log env log \<Longrightarrow> elog_append env log now k = Inr (e, log') \<Longrightarrow>
   log_events env log' = log_events env log @ [e]"
  using query_append [of env log now k e log' "\<lambda>_. True" "\<lambda>_. True"] query_rows [of env log "\<lambda>_. True"]
  by (simp add: log_events_def all_events_def)

lemma log_events_ids: "wf_log env log \<Longrightarrow> e \<in> set (log_events env log) \<Longrightarrow> ev_id e < next_id log"
  using next_id_fresh row_event_sel(1) by (fastforce simp: log_events_rows)

interpretation elog: event_store "elog_append env" "log_events env" "wf_log env"
proof unfold_locales
  fix s now k
  assume "wf_log env s"
  show "\<exists>e s'. elog_append env s now k = Inr (e, s')" by (auto simp: elog_append_eq)
next
  fix s now k e s'
  assume "wf_log env s" "elog_append env s now k = Inr (e, s')"
  then show "wf_log env s'" by (rule wf_log_append)
next
  fix s now k e s'
  assume "wf_log env s" "elog_append env s now k = Inr (e, s')"
  then show "log_events env s' = log_events env s @ [e]" by (rule log_events_append)
next
  fix s now k e s'
  assume "wf_log env s" "elog_append env s now k = Inr (e, s')"
  then show "ev_kind e = k \<and> ev_timestamp e = now \<and> (\<forall>e'\<in>set (log_events env s). ev_id e' < ev_id e)"
    using append_event_fields log_events_ids by metis
qed

section \<open>The rebuilt index\<close>

lemma json_no_cr: "json_ok env \<Longrightarrow> strip_cr (ev_to_json env e) = ev_to_json env e"
proof -
  assume "json_ok env"
  then have "\<not> is_ws (last (ev_to_json env e))" by (simp add: json_ok_def)
  then have "last (ev_to_json env e) \<noteq> CHR 0x0D" by (auto simp: is_ws_def)
  then show ?thesis by (simp add: strip_cr_def)
qed

lemma str_lines_ser: "json_ok env \<Longrightarrow> str_lines (ser env es) = map (ev_to_json env) es"
proof (induction es)
  case (Cons e es)
  then have "CHR 0x0A \<notin> set (ev_to_json env e)" by (simp add: json_ok_def)
  with Cons show ?case
    using lines_acc_line [of "ev_to_json env e" "[]" "ser env es"]
    by (simp add: str_lines_def ser_def json_no_cr)
qed (simp add: str_lines_def ser_def)

lemma trim_json: "json_ok env \<Longrightarrow> trim (ev_to_json env e) = ev_to_json env e"
proof -
  assume j: "json_ok env"
  then have "ev_to_json env e \<noteq> []" "\<not> is_ws (hd (ev_to_json env e))" by (simp_all add: json_ok_def)
  then have "dropWhile is_ws (ev_to_json env e) = ev_to_json env e" by (cases "ev_to_json env e") auto
  with j show ?thesis by (simp add: trim_def trim_end_json)
qed

lemma rebuild_lines_ok:
  "json_ok env \<Longrightarrow> distinct (map row_id (index_rows log @ rows_from env seg off es)) \<Longrightarrow>
   rebuild_lines env log seg off (map (ev_to_json env) es) =
     Inr (log\<lparr>index_rows := index_rows log @ rows_from env seg off es\<rparr>)"
proof (induction es arbitrary: log off)
  case (Cons e es)
  let ?row = "make_row env e seg off"
  have "index_event env log e seg off = Inr (log\<lparr>index_rows := index_rows log @ [?row]\<rparr>)"
    using Cons.prems(2) by (simp add: index_event_def list_ex_iff) (metis image_eqI)
  moreover have "rebuild_lines env (log\<lparr>index_rows := index_rows log @ [?row]\<rparr>) seg
      (off + length (ev_to_json env e) + 1) (map (ev_to_json env) es) =
      Inr (log\<lparr>index_rows := (index_rows log @ [?row]) @ rows_from env seg (off + length (ev_to_json env e) + 1) es\<rparr>)"
    using Cons.IH [of "log\<lparr>index_rows := index_rows log @ [?row]\<rparr>" "off + length (ev_to_json env e) + 1"] Cons.prems
    by simp
  moreover have "ev_to_json env e \<noteq> []" "ev_from_json env (ev_to_json env e) = Some e"
    using Cons.prems(1) by (simp_all add: json_ok_def)
  ultimately show ?case using Cons.prems(1) by (simp add: trim_json)
qed simp

lemma rebuild_segments_ok:
  assumes "json_ok env" "\<forall>n\<in>set ns. map_of (segments log) n = Some (ser env (E n))"
    "distinct (map row_id (index_rows log @ concat (map (\<lambda>n. rows_from env n 0 (E n)) ns)))"
  shows "rebuild_segments env log ns =
    Inr (log\<lparr>index_rows := index_rows log @ concat (map (\<lambda>n. rows_from env n 0 (E n)) ns)\<rparr>)"
  using assms(2,3)
proof (induction ns arbitrary: log)
  case (Cons n ns)
  let ?log = "log\<lparr>index_rows := index_rows log @ rows_from env n 0 (E n)\<rparr>"
  have "rebuild_lines env log n 0 (map (ev_to_json env) (E n)) = Inr ?log"
    using Cons.prems(2) by (intro rebuild_lines_ok [OF assms(1)]) auto
  moreover have "rebuild_segments env ?log ns =
      Inr (?log\<lparr>index_rows := index_rows ?log @ concat (map (\<lambda>n. rows_from env n 0 (E n)) ns)\<rparr>)"
    using Cons.prems by (intro Cons.IH) auto
  ultimately show ?case using Cons.prems(1) by (simp add: str_lines_ser [OF assms(1)])
qed simp

lemma mset_concat_map_cong: "mset xs = mset ys \<Longrightarrow> mset (concat (map f xs)) = mset (concat (map f ys))"
  by (metis mset_map mset_concat sum_mset_sum_list)

lemma concat_keys:
  "distinct (map fst S) \<Longrightarrow>
   concat (map (\<lambda>n. f n (the (map_of S n))) (map fst S)) = concat (map (\<lambda>(n, es). f n es) S)"
  by (intro arg_cong [of _ _ concat]) (auto simp: comp_def)

lemma rebuild_index_rows:
  assumes "json_ok env" "layout env S log"
  obtains rows where "rebuild_index env log = Inr (log\<lparr>index_rows := rows\<rparr>)" "mset rows = mset (index_rows log)"
proof -
  let ?E = "\<lambda>n. the (map_of S n)"
  let ?ns = "sort (list_segments log)"
  let ?rows = "concat (map (\<lambda>n. rows_from env n 0 (?E n)) ?ns)"
  have ns: "mset ?ns = mset (map fst S)" using assms(2) by (simp add: list_segments_layout)
  have "mset ?rows = mset (concat (map (\<lambda>n. rows_from env n 0 (?E n)) (map fst S)))"
    by (rule mset_concat_map_cong [OF ns])
  also have "\<dots> = mset (index_rows log)"
    using assms(2) concat_keys [of S "\<lambda>n. rows_from env n 0"] by (simp add: layout_def)
  finally have rows: "mset ?rows = mset (index_rows log)" .
  have "distinct (map row_id ?rows)"
    using assms(2) mset_eq_imp_distinct_iff [of "map row_id ?rows" "map row_id (index_rows log)"] rows
    by (simp add: layout_def)
  moreover have "\<forall>n\<in>set ?ns. map_of (segments log) n = Some (ser env (?E n))"
    using assms(2) by (auto simp: list_segments_layout [OF assms(2)]) (simp add: layout_def map_of_map_snd)
  moreover have "list_segments (log\<lparr>index_rows := []\<rparr>) = list_segments log" by (simp add: list_segments_def)
  ultimately have "rebuild_index env log = Inr (log\<lparr>index_rows := ?rows\<rparr>)"
    using rebuild_segments_ok [of env ?ns "log\<lparr>index_rows := []\<rparr>" ?E] assms(1)
    by (simp add: rebuild_index_def Let_def)
  with rows that show ?thesis by blast
qed

lemma query_index_perm:
  assumes "mset rows = mset (index_rows log)" "distinct (map row_id (index_rows log))"
  shows "query_index (log\<lparr>index_rows := rows\<rparr>) cond = query_index log cond"
proof -
  have "inj_on row_id (set (filter cond rows))"
    using assms by (metis distinct_map inj_on_subset mset_filter set_mset_mset filter_is_subset)
  then have "sort_key row_id (filter cond rows) = sort_key row_id (filter cond (index_rows log))"
    using assms(1) by (intro sort_key_mset_eq) simp_all
  then show ?thesis by (simp add: query_index_def)
qed

end
