(* ===== verification/Wire.thy ===== *)
theory Wire
  imports EventLog
begin

text \<open>
  A concrete textual encoding of the data the program stores, used to instantiate the
  serialiser parameters where a property is applied at a concrete input: values are written as
  lists of natural numbers (strings by their length and bytes), printed in decimal with commas.
  Every decoder inverts its encoder, whatever follows in the stream.
\<close>

type_synonym 'a enc = "'a \<Rightarrow> nat list"
type_synonym 'a dec = "nat list \<Rightarrow> ('a \<times> nat list) option"

definition wires :: "'a enc \<Rightarrow> 'a dec \<Rightarrow> bool" where
  "wires e d \<longleftrightarrow> (\<forall>x r. d (e x @ r) = Some (x, r))"

lemma wiresD [simp]: "wires e d \<Longrightarrow> d (e x @ r) = Some (x, r)"
  by (simp add: wires_def)

lemma wiresD_Nil: "wires e d \<Longrightarrow> d (e x) = Some (x, [])"
  using wiresD [of e d x "[]"] by simp

section \<open>Streams of numbers as text\<close>

definition nats_to_text :: "nat list \<Rightarrow> string" where
  "nats_to_text ns = CHR ''['' # join_with [CHR '',''] (map nat_to_string ns) @ [CHR '']'']"

definition text_to_nats :: "string \<Rightarrow> nat list option" where
  "text_to_nats s =
     (if length s < 2 then None
      else let b = butlast (tl s)
           in if b = [] then Some []
              else those (map (parse_digits 0) (split_char (CHR '','') b)))"

lemma comma_not_digit: "CHR '','' \<notin> set (nat_to_string n)"
  by (rule not_in_nat_to_string) simp

lemma join_digits_nonempty: "ns \<noteq> [] \<Longrightarrow> join_with sep (map nat_to_string ns) \<noteq> []"
  by (cases ns; cases "tl ns") auto

lemma those_decimal: "those (map (parse_digits 0 \<circ> nat_to_string) ns) = Some ns"
  by (induction ns) (simp_all add: parse_digits_nat_to_string)

lemma text_to_nats_inverse [simp]: "text_to_nats (nats_to_text ns) = Some ns"
proof (cases "ns = []")
  case True
  then show ?thesis by (simp add: text_to_nats_def nats_to_text_def)
next
  case False
  let ?ss = "map nat_to_string ns"
  have "split_char (CHR '','') (join_with [CHR '',''] ?ss) = ?ss"
    using False by (intro split_join) (auto simp: comma_not_digit)
  with False show ?thesis
    by (simp add: text_to_nats_def nats_to_text_def join_digits_nonempty those_decimal)
qed

lemma set_join: "set (join_with sep xs) \<subseteq> set sep \<union> \<Union> (set ` set xs)"
  by (induction xs rule: induct_list012) auto

lemma nats_to_text_chars:
  "c \<in> set (nats_to_text ns) \<Longrightarrow> c \<in> {CHR ''['', CHR '']'', CHR '',''} \<or> (\<exists>d<10. c = digit_char d)"
  using set_join [of "[CHR '','']" "map nat_to_string ns"] nat_to_string_digits
  by (fastforce simp: nats_to_text_def)

lemma nats_to_text_no_newline: "CHR 0x0A \<notin> set (nats_to_text ns)"
proof
  assume "CHR 0x0A \<in> set (nats_to_text ns)"
  from nats_to_text_chars [OF this] obtain d where d: "d < 10" "CHR 0x0A = digit_char d" by auto
  have "digit_char d \<noteq> CHR 0x0A" by (rule digit_char_neq [OF d(1)]) simp
  with d(2) show False by simp
qed

section \<open>Encoders and decoders\<close>

definition e_nat :: "nat enc" where "e_nat n = [n]"
fun d_nat :: "nat dec" where "d_nat [] = None" | "d_nat (n # r) = Some (n, r)"

definition d_map :: "('a \<Rightarrow> 'b) \<Rightarrow> 'a dec \<Rightarrow> 'b dec" where
  "d_map f d s = (case d s of None \<Rightarrow> None | Some (x, r) \<Rightarrow> Some (f x, r))"

definition d_app :: "('a \<Rightarrow> 'b) dec \<Rightarrow> 'a dec \<Rightarrow> 'b dec" where
  "d_app df d s = (case df s of None \<Rightarrow> None
     | Some (f, r) \<Rightarrow> (case d r of None \<Rightarrow> None | Some (x, r') \<Rightarrow> Some (f x, r')))"

fun e_list :: "'a enc \<Rightarrow> 'a list enc" where
  "e_list e xs = length xs # concat (map e xs)"

fun d_times :: "nat \<Rightarrow> 'a dec \<Rightarrow> 'a list dec" where
  "d_times 0 d s = Some ([], s)"
| "d_times (Suc n) d s = (case d s of None \<Rightarrow> None
     | Some (x, r) \<Rightarrow> (case d_times n d r of None \<Rightarrow> None | Some (xs, r') \<Rightarrow> Some (x # xs, r')))"

fun d_list :: "'a dec \<Rightarrow> 'a list dec" where
  "d_list d [] = None"
| "d_list d (n # r) = d_times n d r"

definition e_str :: "string enc" where "e_str s = e_list (\<lambda>c. [of_char c]) s"
definition d_str :: "string dec" where "d_str = d_list (d_map char_of d_nat)"

fun e_opt :: "'a enc \<Rightarrow> 'a option enc" where
  "e_opt e None = [0]"
| "e_opt e (Some x) = 1 # e x"

fun d_opt :: "'a dec \<Rightarrow> 'a option dec" where
  "d_opt d [] = None"
| "d_opt d (n # r) = (if n = 0 then Some (None, r) else d_map Some d r)"

definition e_bool :: "bool enc" where "e_bool b = [if b then 1 else 0]"
definition d_bool :: "bool dec" where "d_bool = d_map (\<lambda>n. n = 1) d_nat"

lemma wires_nat [simp]: "wires e_nat d_nat"
  by (simp add: wires_def e_nat_def)

lemma wires_bool [simp]: "wires e_bool d_bool"
  by (auto simp: wires_def e_bool_def d_bool_def d_map_def)

lemma d_times_wires: "wires e d \<Longrightarrow> d_times (length xs) d (concat (map e xs) @ r) = Some (xs, r)"
  by (induction xs) auto

lemma wires_list [simp]: "wires e d \<Longrightarrow> wires (e_list e) (d_list d)"
  unfolding wires_def [of "e_list e"] by (simp add: d_times_wires)

lemma wires_str [simp]: "wires e_str d_str"
proof -
  have "wires (\<lambda>c. [of_char c]) (d_map char_of d_nat)" by (simp add: wires_def d_map_def)
  then have "wires (e_list (\<lambda>c. [of_char c])) (d_list (d_map char_of d_nat))" by (rule wires_list)
  then show ?thesis by (simp add: wires_def e_str_def d_str_def)
qed

lemma wires_opt [simp]: "wires e d \<Longrightarrow> wires (e_opt e) (d_opt d)"
  unfolding wires_def [of "e_opt e"]
proof (intro allI)
  fix x r
  assume "wires e d"
  then show "d_opt d (e_opt e x @ r) = Some (x, r)" by (cases x) (simp_all add: d_map_def)
qed

lemma d_map_wires [simp]: "wires e d \<Longrightarrow> d_map f d (e x @ r) = Some (f x, r)"
  by (simp add: d_map_def)

lemma d_app_wires: "df s = Some (f, e x @ r) \<Longrightarrow> wires e d \<Longrightarrow> d_app df d s = Some (f x, r)"
  by (simp add: d_app_def)

section \<open>Events\<close>

definition e_sev :: "ConflictSeverity enc" where
  "e_sev s = [case s of SevLow \<Rightarrow> 0 | SevMedium \<Rightarrow> 1 | SevHigh \<Rightarrow> 2]"
definition d_sev :: "ConflictSeverity dec" where
  "d_sev = d_map (\<lambda>n. if n = 0 then SevLow else if n = 1 then SevMedium else SevHigh) d_nat"

lemma wires_sev [simp]: "wires e_sev d_sev"
  by (auto simp: wires_def e_sev_def d_sev_def d_map_def split: ConflictSeverity.splits)

definition e_summary :: "EntitySummary enc" where
  "e_summary s = e_str (es_id s) @ e_str (es_kind s) @ e_str (es_name s) @ e_str (es_qualified_name s) @ e_str (es_file_path s)"
definition d_summary :: "EntitySummary dec" where
  "d_summary = d_app (d_app (d_app (d_app (d_map EntitySummary.make d_str) d_str) d_str) d_str) d_str"

definition e_info :: "ConflictInfo enc" where
  "e_info c = e_nat (ci_conflict_id c) @ e_str (ci_entity_a c) @ e_str (ci_entity_b c) @ e_str (ci_description c) @ e_sev (ci_severity c)"
definition d_info :: "ConflictInfo dec" where
  "d_info = d_app (d_app (d_app (d_app (d_map ConflictInfo.make d_nat) d_str) d_str) d_str) d_sev"

lemmas d_app_chain = d_app_def d_map_def

lemma wires_summary [simp]: "wires e_summary d_summary"
  unfolding wires_def by (simp add: e_summary_def d_summary_def d_app_chain EntitySummary.defs)

lemma wires_info [simp]: "wires e_info d_info"
  unfolding wires_def by (simp add: e_info_def d_info_def d_app_chain ConflictInfo.defs)

fun e_kind :: "EventKind enc" where
  "e_kind (RepoInitialized a b) = 0 # e_nat a @ e_str b"
| "e_kind (VersionCreated a b c) = 1 # e_str a @ e_opt e_str b @ e_str c"
| "e_kind (WorkspaceCreated a b c) = 2 # e_nat a @ e_str b @ e_str c"
| "e_kind (WorkspaceSubmitted a b) = 3 # e_nat a @ e_str b"
| "e_kind (WorkspaceDiscarded a b) = 4 # e_nat a @ e_str b"
| "e_kind (EntityAdded a b) = 5 # e_nat a @ e_summary b"
| "e_kind (EntityModified a b c) = 6 # e_nat a @ e_str b @ e_str c"
| "e_kind (EntityRemoved a b) = 7 # e_nat a @ e_str b"
| "e_kind (FileAdded a b c) = 8 # e_nat a @ e_str b @ e_str c"
| "e_kind (FileModified a b c d) = 9 # e_nat a @ e_str b @ e_str c @ e_str d"
| "e_kind (FileRemoved a b) = 10 # e_nat a @ e_str b"
| "e_kind (MergeCompleted a b c) = 11 # e_nat a @ e_str b @ e_nat c"
| "e_kind (MergeConflictDetected a b) = 12 # e_nat a @ e_info b"
| "e_kind (MergeConflictResolved a b c) = 13 # e_nat a @ e_str b @ e_str c"
| "e_kind (RollbackCreated a b c) = 14 # e_str a @ e_str b @ e_opt e_str c"
| "e_kind (IssueCreated a b c d) = 15 # e_nat a @ e_str b @ e_str c @ e_str d"
| "e_kind (IssueUpdated a b) = 16 # e_nat a @ e_list e_str b"
| "e_kind (IssueAssigned a b) = 17 # e_nat a @ e_str b"
| "e_kind (IssueLinkedToWorkspace a b) = 18 # e_nat a @ e_nat b"
| "e_kind (IssueResolved a b c) = 19 # e_nat a @ e_str b @ e_opt e_str c"
| "e_kind (IssueClosed a b) = 20 # e_nat a @ e_str b"
| "e_kind (EscalationCreated a b c d e) = 21 # e_nat a @ e_str b @ e_str c @ e_list e_str d @ e_str e"
| "e_kind (EscalationResolved a b c) = 22 # e_nat a @ e_str b @ e_str c"
| "e_kind (CommentCreated a b c d e f) = 23 # e_nat a @ e_nat b @ e_str c @ e_str d @ e_opt e_nat e @ e_list e_nat f"
| "e_kind (RepoAgentSecretSet a b) = 24 # e_nat a @ e_str b"
| "e_kind (RepoAgentSecretDeleted a b) = 25 # e_nat a @ e_str b"

definition d2 where "d2 C p q = d_app (d_map C p) q"
definition d3 where "d3 C p q r = d_app (d_app (d_map C p) q) r"
definition d4 where "d4 C p q r s = d_app (d_app (d_app (d_map C p) q) r) s"
definition d5 where "d5 C p q r s t = d_app (d_app (d_app (d_app (d_map C p) q) r) s) t"
definition d6 where "d6 C p q r s t u = d_app (d_app (d_app (d_app (d_app (d_map C p) q) r) s) t) u"

definition kind_decoders :: "EventKind dec list" where
  "kind_decoders =
    [d2 RepoInitialized d_nat d_str, d3 VersionCreated d_str (d_opt d_str) d_str,
     d3 WorkspaceCreated d_nat d_str d_str, d2 WorkspaceSubmitted d_nat d_str,
     d2 WorkspaceDiscarded d_nat d_str, d2 EntityAdded d_nat d_summary,
     d3 EntityModified d_nat d_str d_str, d2 EntityRemoved d_nat d_str,
     d3 FileAdded d_nat d_str d_str, d4 FileModified d_nat d_str d_str d_str,
     d2 FileRemoved d_nat d_str, d3 MergeCompleted d_nat d_str d_nat,
     d2 MergeConflictDetected d_nat d_info, d3 MergeConflictResolved d_nat d_str d_str,
     d3 RollbackCreated d_str d_str (d_opt d_str), d4 IssueCreated d_nat d_str d_str d_str,
     d2 IssueUpdated d_nat (d_list d_str), d2 IssueAssigned d_nat d_str,
     d2 IssueLinkedToWorkspace d_nat d_nat, d3 IssueResolved d_nat d_str (d_opt d_str),
     d2 IssueClosed d_nat d_str, d5 EscalationCreated d_nat d_str d_str (d_list d_str) d_str,
     d3 EscalationResolved d_nat d_str d_str,
     d6 CommentCreated d_nat d_nat d_str d_str (d_opt d_nat) (d_list d_nat),
     d2 RepoAgentSecretSet d_nat d_str, d2 RepoAgentSecretDeleted d_nat d_str]"

fun d_kind :: "EventKind dec" where
  "d_kind [] = None"
| "d_kind (t # r) = (if t < 26 then (kind_decoders ! t) r else None)"

lemmas d_chain = d2_def d3_def d4_def d5_def d6_def d_app_chain

lemma wires_kind [simp]: "wires e_kind d_kind"
  unfolding wires_def
proof (intro allI)
  fix k r
  show "d_kind (e_kind k @ r) = Some (k, r)"
    by (cases k) (simp_all add: kind_decoders_def d_chain del: e_list.simps)
qed

definition e_event :: "Event enc" where
  "e_event e = e_nat (ev_id e) @ e_nat (ev_timestamp e) @ e_kind (ev_kind e)"
definition d_event :: "Event dec" where
  "d_event = d3 Event.make d_nat d_nat d_kind"

lemma wires_event [simp]: "wires e_event d_event"
  unfolding wires_def by (simp add: e_event_def d_event_def d_chain Event.defs)

section \<open>Text codecs\<close>

definition to_text :: "'a enc \<Rightarrow> 'a \<Rightarrow> string" where
  "to_text e x = nats_to_text (e x)"

definition from_text :: "'a dec \<Rightarrow> string \<Rightarrow> 'a option" where
  "from_text d s = (case text_to_nats s of None \<Rightarrow> None | Some ns \<Rightarrow> map_option fst (d ns))"

lemma from_to_text: "wires e d \<Longrightarrow> from_text d (to_text e x) = Some x"
  by (simp add: from_text_def to_text_def wiresD_Nil)

definition sample_env :: elog_env where
  "sample_env = \<lparr>ev_to_json = to_text e_event, ev_from_json = from_text d_event,
     to_rfc3339 = nat_to_string, uuid_to_string = nat_to_string\<rparr>"

lemma to_text_ends: "hd (to_text e x) = CHR ''[''" "last (to_text e x) = CHR '']''" "to_text e x \<noteq> []"
  by (simp_all add: to_text_def nats_to_text_def)

lemma json_ok_text:
  assumes "ev_to_json env = to_text e_event" "ev_from_json env = from_text d_event"
  shows "json_ok env"
  using assms nats_to_text_no_newline
  by (auto simp: json_ok_def from_to_text to_text_ends is_ws_def) (auto simp: to_text_def)

lemma json_ok_sample [simp]: "json_ok sample_env"
  by (rule json_ok_text) (simp_all add: sample_env_def)

end
