(* ===== verification/EventLog_Laws.thy ===== *)
theory EventLog_Laws
  imports Wire
begin

text \<open>
  The properties of the event log, over the definitions of \<open>EventLog\<close>: what an append leaves in
  the log, that every query selects exactly the matching events in the order of their
  identifiers, and that the index rebuilt from the segments answers every query as before.
\<close>

lemma query_filter:
  assumes "wf_log env log" and cond: "\<And>e r. row_for env e r \<Longrightarrow> cond r \<longleftrightarrow> P e"
  shows "load_events env log (query_index log cond) = Inr (filter P (log_events env log))"
proof -
  have "filter P (map (row_event env log) (sort_key row_id (index_rows log))) =
      map (row_event env log) (filter (P \<circ> row_event env log) (sort_key row_id (index_rows log)))"
    by (rule filter_map)
  also have "filter (P \<circ> row_event env log) (sort_key row_id (index_rows log)) =
      filter cond (sort_key row_id (index_rows log))"
    using cond [OF row_event_for [OF assms(1)]] by (intro filter_cong) auto
  finally show ?thesis by (simp add: query_rows [OF assms(1)] log_events_rows [OF assms(1)] filter_sort)
qed

lemma all_events_log: "wf_log env log \<Longrightarrow> all_events env log = Inr (log_events env log)"
  using query_filter [of env log "\<lambda>_. True" "\<lambda>_. True"] by (simp add: all_events_def)

lemma log_events_empty: "json_ok env \<Longrightarrow> log_events env elog_empty = []"
  by (simp add: log_events_rows [OF wf_log_empty]) (simp add: elog_empty_def)

lemma log_events_increasing:
  assumes "wf_log env log"
  shows "sorted_wrt (<) (map ev_id (log_events env log))"
proof -
  let ?rs = "sort_key row_id (index_rows log)"
  have "map ev_id (log_events env log) = map row_id ?rs"
    using row_event_sel(1) [OF assms] by (auto simp: log_events_rows [OF assms])
  moreover have "distinct (map row_id ?rs)"
    using wf_log_distinct [OF assms] mset_eq_imp_distinct_iff [of "map row_id ?rs" "map row_id (index_rows log)"]
    by simp
  ultimately show ?thesis by (metis sorted_sort_key strict_sorted_iff)
qed

lemma get_by_id_log:
  assumes "wf_log env log" "e \<in> set (log_events env log)"
  shows "get_by_id env log (ev_id e) = Inr (Some e)"
proof -
  let ?f = "filter (\<lambda>e'. ev_id e' = ev_id e) (log_events env log)"
  have "distinct (map ev_id (log_events env log))"
    using log_events_increasing [OF assms(1)] strict_sorted_iff by blast
  then have "\<forall>e'\<in>set (log_events env log). ev_id e' = ev_id e \<longrightarrow> e' = e"
    using assms(2) by (auto simp: distinct_map inj_on_def)
  moreover have hd0: "?f \<noteq> []" using assms(2) by (auto simp: filter_empty_conv)
  ultimately have hd: "?f \<noteq> []" "hd ?f = e" using hd_in_set [OF hd0] by auto
  let ?q = "query_index log (\<lambda>r. row_id r = ev_id e)"
  have load: "load_events env log ?q = Inr ?f"
    by (rule query_filter [OF assms(1)]) (simp add: row_for_sel(1))
  with hd obtain p q where q: "?q = p # q" by (cases ?q) auto
  obtain seg off where p: "p = (seg, off)" by fastforce
  from load hd q p show ?thesis
    by (auto simp: get_by_id_def bind_result_Inr_iff) (metis list.sel(1))
qed

text \<open>C4: Appending to a well-formed log succeeds and keeps it well-formed; the log then holds the
  earlier events, unchanged and in order, followed by the new one, whose identifier is larger
  than every earlier identifier and under which it can be read back.\<close>

theorem elog_append_spec:
  assumes "wf_log env log"
  shows "\<exists>e log'. elog_append env log now k = Inr (e, log') \<and> wf_log env log' \<and>
    all_events env log' = Inr (log_events env log @ [e]) \<and>
    ev_kind e = k \<and> ev_timestamp e = now \<and> (\<forall>e'\<in>set (log_events env log). ev_id e' < ev_id e) \<and>
    get_by_id env log' (ev_id e) = Inr (Some e)"
proof -
  obtain e log' where a: "elog_append env log now k = Inr (e, log')" "wf_log env log'"
    "log_events env log' = log_events env log @ [e]"
    "ev_kind e = k" "ev_timestamp e = now" "\<forall>e'\<in>set (log_events env log). ev_id e' < ev_id e"
    by (rule elog.appendE [OF assms])
  moreover have "all_events env log' = Inr (log_events env log @ [e])"
    using all_events_log [OF a(2)] a(3) by simp
  moreover have "get_by_id env log' (ev_id e) = Inr (Some e)"
    using get_by_id_log [OF a(2)] a(3) by simp
  ultimately show ?thesis by blast
qed

theorem elog_append_spec_witness:
  "\<exists>e log'. elog_append sample_env elog_empty 7 (WorkspaceSubmitted 3 ''done'') = Inr (e, log') \<and>
     wf_log sample_env log' \<and> ev_kind e = WorkspaceSubmitted 3 ''done'' \<and>
     get_by_id sample_env log' (ev_id e) = Inr (Some e)"
  using elog_append_spec [OF wf_log_empty [OF json_ok_sample], of 7 "WorkspaceSubmitted 3 ''done''"] by blast

text \<open>A sequence of appends to a fresh log succeeds, and the log then holds exactly the
  appended events in that order, with strictly increasing identifiers.\<close>

theorem elog_history:
  assumes "json_ok env"
  shows "\<exists>log es. append_kinds (elog_append env) elog_empty now ks = Inr log \<and>
    all_events env log = Inr es \<and> map ev_kind es = ks \<and> sorted_wrt (<) (map ev_id es) \<and>
    list_all (\<lambda>e. get_by_id env log (ev_id e) = Inr (Some e)) es"
proof -
  note wf = wf_log_empty [OF assms]
  have nil: "log_events env elog_empty = []"
    by (simp add: log_events_rows [OF wf]) (simp add: elog_empty_def)
  obtain log es where
    l: "append_kinds (elog_append env) elog_empty now ks = Inr log" "wf_log env log"
      "log_events env log = es" "map ev_kind es = ks"
    using elog.append_kinds_ok [OF wf, of now ks] unfolding nil append_Nil by blast
  then show ?thesis
    using all_events_log [OF l(2)] log_events_increasing [OF l(2)] get_by_id_log [OF l(2)]
    by (intro exI [of _ log] exI [of _ es]) (auto simp: list_all_iff)
qed

theorem elog_history_witness:
  "\<exists>log es. append_kinds (elog_append sample_env) elog_empty 1 [IssueClosed 4 ''dup'', FileRemoved 2 ''a.rs''] = Inr log \<and>
     all_events sample_env log = Inr es \<and> map ev_kind es = [IssueClosed 4 ''dup'', FileRemoved 2 ''a.rs'']"
  using elog_history [OF json_ok_sample, of 1 "[IssueClosed 4 ''dup'', FileRemoved 2 ''a.rs'']"]
  by (elim exE conjE) (intro exI conjI)

text \<open>The type, workspace, entity and time-range queries return exactly the events of the log
  with that type, workspace, entity or printed time, in the order of their identifiers.\<close>

theorem elog_queries_exact:
  assumes "wf_log env log" "inj (uuid_to_string env)"
  shows "query_by_type env log ty = Inr (filter (\<lambda>e. event_type (ev_kind e) = ty) (log_events env log)) \<and>
    query_by_workspace env log w = Inr (filter (\<lambda>e. kind_workspace_id (ev_kind e) = Some w) (log_events env log)) \<and>
    query_by_entity env log i = Inr (filter (\<lambda>e. kind_entity_id (ev_kind e) = Some i) (log_events env log)) \<and>
    query_by_time_range env log t u = Inr (filter (\<lambda>e. to_rfc3339 env t \<le> to_rfc3339 env (ev_timestamp e) \<and>
      to_rfc3339 env (ev_timestamp e) \<le> to_rfc3339 env u) (log_events env log))"
  unfolding query_by_type_def query_by_workspace_def query_by_entity_def query_by_time_range_def
  using assms(2) by (intro conjI query_filter [OF assms(1)]) (auto simp: row_for_sel inj_eq)

lemma inj_nat_to_string: "inj nat_to_string"
  by (simp add: inj_def nat_to_string_inj)

theorem elog_queries_exact_witness:
  "inj (uuid_to_string sample_env) \<and> wf_log sample_env elog_empty \<and>
   query_by_workspace sample_env elog_empty 3 =
     Inr (filter (\<lambda>e. kind_workspace_id (ev_kind e) = Some 3) (log_events sample_env elog_empty))"
  using elog_queries_exact [of sample_env elog_empty _ 3] wf_log_empty [OF json_ok_sample] inj_nat_to_string
  by (simp add: sample_env_def)

text \<open>Rebuilding the index from the segments of a well-formed log succeeds, and every query
  over the rebuilt index selects the same event positions in the same order, so that every
  reader sees the same events.\<close>

theorem rebuild_index_queries:
  assumes "wf_log env log"
  shows "\<exists>log'. rebuild_index env log = Inr log' \<and> wf_log env log' \<and> segments log' = segments log \<and>
    query_index log' = query_index log \<and> all_events env log' = all_events env log \<and>
    count_events log' = count_events log \<and> next_id log' = next_id log"
proof -
  obtain S where S: "json_ok env" "layout env S log" using assms by (auto simp: wf_log_def)
  obtain rows where r: "rebuild_index env log = Inr (log\<lparr>index_rows := rows\<rparr>)" "mset rows = mset (index_rows log)"
    by (rule rebuild_index_rows [OF S])
  let ?log = "log\<lparr>index_rows := rows\<rparr>"
  have "distinct (map row_id rows)"
    using r(2) wf_log_distinct [OF assms] mset_eq_imp_distinct_iff [of "map row_id rows" "map row_id (index_rows log)"]
    by simp
  with S r have wf: "wf_log env ?log" by (auto simp: wf_log_def layout_def)
  have q: "query_index ?log = query_index log"
    using query_index_perm [OF r(2) wf_log_distinct [OF assms]] by blast
  have "load_events env ?log ps = load_events env log ps" for ps
    by (induction ps) (auto simp: read_event_at_def)
  with q have "all_events env ?log = all_events env log" by (simp add: all_events_def)
  moreover have "count_events ?log = count_events log"
    using mset_eq_length [OF r(2)] by (simp add: count_events_def)
  moreover have "next_id ?log = next_id log"
    using r(2) by (simp add: next_id_def Max.set_eq_fold [symmetric] flip: list.set_map set_mset_mset)
  ultimately show ?thesis using r(1) wf q by (intro exI [of _ ?log]) simp
qed

theorem rebuild_index_queries_witness:
  "wf_log sample_env elog_empty \<and> (\<exists>log'. rebuild_index sample_env elog_empty = Inr log' \<and>
     query_index log' = query_index elog_empty)"
  using rebuild_index_queries [OF wf_log_empty [OF json_ok_sample]] wf_log_empty [OF json_ok_sample] by blast

end
