(* ===== verification/Workspace.thy ===== *)
theory Workspace
  imports EventLog_Laws
begin

text \<open>
  Workspaces (\<open>src/workspace/mod.rs\<close>): the metadata kept in \<open>meta.toml\<close>, the active pointer, and
  the operations create, list, get, switch, discard, active and update_meta.

  The \<open>.vai\<close> directory is the record \<open>vai_dir\<close>: the \<open>head\<close> and \<open>active\<close> files, the
  workspace directories by name, and the event log. Source files (project root, overlays and
  pre-change snapshots) are the files of \<open>disk\<close>, by path relative to the project root. The
  TOML printer and parser of \<open>WorkspaceMeta\<close> are parameters (\<open>ws_env\<close>); \<open>meta_ok\<close> says that
  parsing inverts printing. The clock is read once per operation.
\<close>

datatype WorkspaceError =
    WsIo | WsTomlSer | WsTomlDe | WsEventLog EventLogError | WsNotFound string | WsNoActiveWorkspace

datatype WorkspaceStatus = WCreated | WActive | WSubmitted | WMerged | WDiscarded

fun status_as_str :: "WorkspaceStatus \<Rightarrow> string" where
  "status_as_str WCreated = ''Created''"
| "status_as_str WActive = ''Active''"
| "status_as_str WSubmitted = ''Submitted''"
| "status_as_str WMerged = ''Merged''"
| "status_as_str WDiscarded = ''Discarded''"

record WorkspaceMeta =
  wm_id :: uuid
  wm_intent :: string
  wm_base_version :: string
  wm_status :: WorkspaceStatus
  wm_created_at :: time
  wm_updated_at :: time
  wm_issue_id :: "uuid option"
  wm_deleted_paths :: "string list"

record CreateResult =
  cr_workspace :: WorkspaceMeta
  cr_path :: string

type_synonym disk = "(string \<times> bytes) list"

record ws_dir =
  meta_toml :: "string option"
  deleted_manifest :: "bytes option"

record vai_dir =
  head_file :: "string option"
  active_file :: "string option"
  ws_dirs :: "(string \<times> ws_dir) list"
  elog :: event_log

record ws_env = elog_env +
  meta_to_toml :: "WorkspaceMeta \<Rightarrow> string"
  meta_from_toml :: "string \<Rightarrow> WorkspaceMeta option"

section \<open>Helpers\<close>

definition map_err :: "('e \<Rightarrow> 'f) \<Rightarrow> ('e, 'a) result \<Rightarrow> ('f, 'a) result" where
  "map_err f r = (case r of Inl e \<Rightarrow> Inl (f e) | Inr a \<Rightarrow> Inr a)"

text \<open>\<open>log.append(kind)?\<close> on the log of the directory.\<close>

definition vai_append ::
  "('a) elog_env_scheme \<Rightarrow> ('b) vai_dir_scheme \<Rightarrow> time \<Rightarrow> EventKind \<Rightarrow> (EventLogError, Event \<times> ('b) vai_dir_scheme) result" where
  "vai_append env vai now kind =
     bind_result (elog_append env (elog vai) now kind) (\<lambda>(e, log). Inr (e, vai\<lparr>elog := log\<rparr>))"

definition ws_path :: "string \<Rightarrow> string" where
  "ws_path i = ''.vai/workspaces/'' @ i"

definition overlay_dir :: "string \<Rightarrow> string" where
  "overlay_dir i = ws_path i @ ''/overlay''"

definition write_meta ::
  "('a) ws_env_scheme \<Rightarrow> ('b) vai_dir_scheme \<Rightarrow> string \<Rightarrow> WorkspaceMeta \<Rightarrow> (WorkspaceError, ('b) vai_dir_scheme) result" where
  "write_meta env vai d meta =
     (case map_of (ws_dirs vai) d of
        None \<Rightarrow> Inl WsIo
      | Some w \<Rightarrow> Inr (vai\<lparr>ws_dirs := AList.update d (w\<lparr>meta_toml := Some (meta_to_toml env meta)\<rparr>) (ws_dirs vai)\<rparr>))"

definition read_meta_dir :: "('a) ws_env_scheme \<Rightarrow> ws_dir \<Rightarrow> (WorkspaceError, WorkspaceMeta) result" where
  "read_meta_dir env w =
     (case meta_toml w of
        None \<Rightarrow> Inl WsIo
      | Some c \<Rightarrow> (case meta_from_toml env c of None \<Rightarrow> Inl WsTomlDe | Some m \<Rightarrow> Inr m))"

definition set_active :: "('b) vai_dir_scheme \<Rightarrow> string \<Rightarrow> ('b) vai_dir_scheme" where
  "set_active vai i = vai\<lparr>active_file := Some i\<rparr>"

definition read_active :: "('b) vai_dir_scheme \<Rightarrow> (WorkspaceError, string) result" where
  "read_active vai =
     (case active_file vai of
        None \<Rightarrow> Inl WsNoActiveWorkspace
      | Some c \<Rightarrow> (let i = trim c in if i = [] then Inl WsNoActiveWorkspace else Inr i))"

section \<open>Operations\<close>

text \<open>\<open>fs::create_dir_all\<close> keeps a directory that is already there.\<close>

definition ensure_ws_dir :: "string \<Rightarrow> ('b) vai_dir_scheme \<Rightarrow> ('b) vai_dir_scheme" where
  "ensure_ws_dir d vai =
     (case map_of (ws_dirs vai) d of
        Some _ \<Rightarrow> vai
      | None \<Rightarrow> vai\<lparr>ws_dirs := ws_dirs vai @ [(d, \<lparr>meta_toml = None, deleted_manifest = None\<rparr>)]\<rparr>)"

definition create_with_id ::
  "('a) ws_env_scheme \<Rightarrow> ('b) vai_dir_scheme \<Rightarrow> string \<Rightarrow> string \<Rightarrow> uuid \<Rightarrow> time \<Rightarrow>
   (WorkspaceError, CreateResult \<times> ('b) vai_dir_scheme) result" where
  "create_with_id env vai intent base_version i now =
     (let d = uuid_to_string env i;
          meta = \<lparr>wm_id = i, wm_intent = intent, wm_base_version = base_version, wm_status = WCreated,
                  wm_created_at = now, wm_updated_at = now, wm_issue_id = None, wm_deleted_paths = []\<rparr>
      in bind_result (write_meta env (ensure_ws_dir d vai) d meta) (\<lambda>vai1.
         bind_result (map_err WsEventLog (vai_append env vai1 now (WorkspaceCreated i intent base_version))) (\<lambda>(e, vai2).
         Inr (\<lparr>cr_workspace = meta, cr_path = ws_path d\<rparr>, set_active vai2 d))))"

text \<open>\<open>create\<close> draws the identifier: \<open>fresh\<close> is the UUID v4.\<close>

definition ws_create where
  "ws_create env vai intent base_version fresh now = create_with_id env vai intent base_version fresh now"

definition inactive :: "WorkspaceStatus \<Rightarrow> bool" where
  "inactive s \<longleftrightarrow> s = WDiscarded \<or> s = WMerged"

fun list_entries ::
  "('a) ws_env_scheme \<Rightarrow> bool \<Rightarrow> (string \<times> ws_dir) list \<Rightarrow> (WorkspaceError, WorkspaceMeta list) result" where
  "list_entries env incl [] = Inr []"
| "list_entries env incl ((d, w) # ds) =
     (if meta_toml w = None then list_entries env incl ds
      else bind_result (read_meta_dir env w) (\<lambda>m.
           bind_result (list_entries env incl ds) (\<lambda>ms.
           Inr (if \<not> incl \<and> inactive (wm_status m) then ms else m # ms))))"

text \<open>\<open>sort_by_key(Reverse(created_at))\<close>: stable, newest first.\<close>

definition newest_first :: "WorkspaceMeta list \<Rightarrow> WorkspaceMeta list" where
  "newest_first ms = sort_key (\<lambda>m. - int (wm_created_at m)) ms"

definition list_filtered ::
  "('a) ws_env_scheme \<Rightarrow> ('b) vai_dir_scheme \<Rightarrow> bool \<Rightarrow> (WorkspaceError, WorkspaceMeta list) result" where
  "list_filtered env vai incl =
     bind_result (list_entries env incl (ws_dirs vai)) (\<lambda>ms. Inr (newest_first ms))"

definition ws_list where "ws_list env vai = list_filtered env vai False"
definition ws_list_all where "ws_list_all env vai = list_filtered env vai True"

definition ws_get ::
  "('a) ws_env_scheme \<Rightarrow> ('b) vai_dir_scheme \<Rightarrow> string \<Rightarrow> (WorkspaceError, WorkspaceMeta) result" where
  "ws_get env vai i =
     (case map_of (ws_dirs vai) i of None \<Rightarrow> Inl (WsNotFound i) | Some w \<Rightarrow> read_meta_dir env w)"

definition ws_switch ::
  "('a) ws_env_scheme \<Rightarrow> ('b) vai_dir_scheme \<Rightarrow> string \<Rightarrow> (WorkspaceError, WorkspaceMeta \<times> ('b) vai_dir_scheme) result" where
  "ws_switch env vai i =
     bind_result (ws_get env vai i) (\<lambda>meta.
       if inactive (wm_status meta)
       then Inl (WsNotFound (i @ '' (workspace is '' @ status_as_str (wm_status meta) @ '', cannot switch to it)''))
       else Inr (meta, set_active vai i))"

text \<open>\<open>fs::remove_dir_all\<close> on the workspace directory: its entry and every file below it.\<close>

definition remove_ws_dir :: "string \<Rightarrow> ('b) vai_dir_scheme \<times> disk \<Rightarrow> ('b) vai_dir_scheme \<times> disk" where
  "remove_ws_dir d st =
     (case st of (vai, files) \<Rightarrow>
        (vai\<lparr>ws_dirs := AList.delete d (ws_dirs vai)\<rparr>,
         filter (\<lambda>(p, _). \<not> starts_with p (ws_path d @ ''/'')) files))"

definition ws_discard ::
  "('a) ws_env_scheme \<Rightarrow> ('b) vai_dir_scheme \<times> disk \<Rightarrow> string \<Rightarrow> string option \<Rightarrow> time \<Rightarrow>
   (WorkspaceError, WorkspaceMeta \<times> ('b) vai_dir_scheme \<times> disk) result" where
  "ws_discard env st i reason now =
     (case st of (vai, files) \<Rightarrow>
        (case map_of (ws_dirs vai) i of
           None \<Rightarrow> Inl (WsNotFound i)
         | Some w \<Rightarrow>
             bind_result (read_meta_dir env w) (\<lambda>meta.
             bind_result (map_err WsEventLog (vai_append env vai now
               (WorkspaceDiscarded (wm_id meta) (case reason of Some r \<Rightarrow> r | None \<Rightarrow> ''discarded by user'')))) (\<lambda>(e, vai1).
             let meta' = meta\<lparr>wm_status := WDiscarded, wm_updated_at := now\<rparr>
             in bind_result (write_meta env vai1 i meta') (\<lambda>vai2.
                let (vai3, files') = remove_ws_dir i (vai2, files);
                    vai4 = (if read_active vai3 = Inr i then vai3\<lparr>active_file := None\<rparr> else vai3)
                in Inr (meta', vai4, files'))))))"

definition active_id :: "('b) vai_dir_scheme \<Rightarrow> string option" where
  "active_id vai = (case read_active vai of Inr i \<Rightarrow> Some i | Inl _ \<Rightarrow> None)"

definition ws_active ::
  "('a) ws_env_scheme \<Rightarrow> ('b) vai_dir_scheme \<Rightarrow> (WorkspaceError, WorkspaceMeta) result" where
  "ws_active env vai = bind_result (read_active vai) (\<lambda>i. ws_get env vai i)"

definition update_meta ::
  "('a) ws_env_scheme \<Rightarrow> ('b) vai_dir_scheme \<Rightarrow> WorkspaceMeta \<Rightarrow> (WorkspaceError, ('b) vai_dir_scheme) result" where
  "update_meta env vai meta = write_meta env vai (uuid_to_string env (wm_id meta)) meta"

section \<open>Well-formed directories\<close>

definition meta_ok :: "('a) ws_env_scheme \<Rightarrow> bool" where
  "meta_ok env \<longleftrightarrow> (\<forall>m. meta_from_toml env (meta_to_toml env m) = Some m)"

definition uuid_ok :: "('a) elog_env_scheme \<Rightarrow> bool" where
  "uuid_ok env \<longleftrightarrow> inj (uuid_to_string env) \<and>
     (\<forall>u. uuid_to_string env u \<noteq> [] \<and> trim (uuid_to_string env u) = uuid_to_string env u)"

text \<open>The workspaces by directory name.\<close>

definition ws_view :: "('a) ws_env_scheme \<Rightarrow> ('b) vai_dir_scheme \<Rightarrow> string \<Rightarrow> WorkspaceMeta option" where
  "ws_view env vai d = (case ws_get env vai d of Inr m \<Rightarrow> Some m | Inl _ \<Rightarrow> None)"

definition wf_dirs :: "('a) ws_env_scheme \<Rightarrow> (string \<times> ws_dir) list \<Rightarrow> bool" where
  "wf_dirs env ds \<longleftrightarrow> distinct (map fst ds) \<and>
     (\<forall>(d, w)\<in>set ds. \<exists>m. read_meta_dir env w = Inr m \<and> d = uuid_to_string env (wm_id m))"

definition wf_vai :: "('a) ws_env_scheme \<Rightarrow> ('b) vai_dir_scheme \<Rightarrow> bool" where
  "wf_vai env vai \<longleftrightarrow> meta_ok env \<and> uuid_ok env \<and> wf_log env (elog vai) \<and> wf_dirs env (ws_dirs vai) \<and>
     (\<forall>c. active_file vai = Some c \<longrightarrow> c \<in> fst ` set (ws_dirs vai))"

definition vai_kinds :: "('a) elog_env_scheme \<Rightarrow> ('b) vai_dir_scheme \<Rightarrow> EventKind list" where
  "vai_kinds env vai = map ev_kind (log_events env (elog vai))"

lemma wf_vai_dirs: "wf_vai env vai \<Longrightarrow> wf_dirs env (ws_dirs vai)"
  by (simp add: wf_vai_def)

lemma map_err_simps [simp]: "map_err f (Inl e) = Inl (f e)" "map_err f (Inr a) = Inr a"
  by (simp_all add: map_err_def)

lemma vai_append_ok:
  assumes "wf_log env (elog vai)"
  obtains e log where "vai_append env vai now k = Inr (e, vai\<lparr>elog := log\<rparr>)" "wf_log env log"
    "vai_kinds env (vai\<lparr>elog := log\<rparr>) = vai_kinds env vai @ [k]"
    "log_events env log = log_events env (elog vai) @ [e]" "ev_kind e = k"
proof -
  obtain e log where "elog_append env (elog vai) now k = Inr (e, log)" "wf_log env log"
    "log_events env log = log_events env (elog vai) @ [e]" "ev_kind e = k"
    by (rule elog.appendE [OF assms])
  with that show ?thesis by (simp add: vai_append_def vai_kinds_def)
qed

lemma wf_dirs_read:
  "wf_dirs env ds \<Longrightarrow> map_of ds d = Some w \<Longrightarrow> \<exists>m. read_meta_dir env w = Inr m \<and> d = uuid_to_string env (wm_id m)"
  unfolding wf_dirs_def by (blast dest: map_of_SomeD)

lemma wf_dirs_update:
  assumes "wf_dirs env ds" "read_meta_dir env w = Inr m" "d = uuid_to_string env (wm_id m)"
  shows "wf_dirs env (AList.update d w ds)"
proof -
  have dist: "distinct (map fst ds)" "distinct (map fst (AList.update d w ds))"
    using assms(1) by (simp_all add: wf_dirs_def distinct_update)
  have "\<exists>m. read_meta_dir env w' = Inr m \<and> d' = uuid_to_string env (wm_id m)"
    if "(d', w') \<in> set (AList.update d w ds)" for d' w'
  proof -
    from that dist have "((map_of ds)(d \<mapsto> w)) d' = Some w'"
      by (metis map_of_is_SomeI update_conv)
    then show ?thesis using assms wf_dirs_read [OF assms(1), of d' w'] by (auto split: if_splits)
  qed
  with dist show ?thesis by (auto simp: wf_dirs_def)
qed

lemma dom_delete: "fst ` set (AList.delete d xs) = fst ` set xs - {d}"
  by (auto simp: AList.delete_eq image_iff)

lemma wf_dirs_delete: "wf_dirs env ds \<Longrightarrow> wf_dirs env (AList.delete d ds)"
  unfolding wf_dirs_def by (auto simp: AList.delete_eq distinct_map_filter)

lemma ws_get_view: "wf_dirs env (ws_dirs vai) \<Longrightarrow>
  ws_get env vai d = (case ws_view env vai d of Some m \<Rightarrow> Inr m | None \<Rightarrow> Inl (WsNotFound d))"
  using wf_dirs_read [of env "ws_dirs vai" d]
  by (fastforce simp: ws_view_def ws_get_def split: option.splits)

lemma ws_view_dom: "wf_dirs env (ws_dirs vai) \<Longrightarrow> ws_view env vai d \<noteq> None \<longleftrightarrow> d \<in> fst ` set (ws_dirs vai)"
proof (cases "map_of (ws_dirs vai) d")
  case None
  moreover have "d \<notin> fst ` set (ws_dirs vai)" using None by (metis map_of_eq_None_iff)
  ultimately show ?thesis by (simp add: ws_view_def ws_get_def)
next
  case (Some w)
  assume "wf_dirs env (ws_dirs vai)"
  then obtain m where "read_meta_dir env w = Inr m" using wf_dirs_read [OF _ Some] by blast
  moreover have "d \<in> fst ` set (ws_dirs vai)" using Some by (metis map_of_eq_None_iff option.distinct(1))
  ultimately show ?thesis using Some by (simp add: ws_view_def ws_get_def)
qed

lemma ws_view_id: "wf_dirs env (ws_dirs vai) \<Longrightarrow> ws_view env vai d = Some m \<Longrightarrow> d = uuid_to_string env (wm_id m)"
  using wf_dirs_read [of env "ws_dirs vai" d]
  by (fastforce simp: ws_view_def ws_get_def split: option.splits)

lemma ws_view_cong: "ws_dirs vai = ws_dirs vai' \<Longrightarrow> ws_view env vai = ws_view env vai'"
  by (simp add: ws_view_def ws_get_def fun_eq_iff)

lemma vai_kinds_cong [simp]:
  "vai_kinds env (vai\<lparr>active_file := a\<rparr>) = vai_kinds env vai"
  "vai_kinds env (vai\<lparr>ws_dirs := ds\<rparr>) = vai_kinds env vai"
  "vai_kinds env (vai\<lparr>head_file := h\<rparr>) = vai_kinds env vai"
  by (simp_all add: vai_kinds_def)

text \<open>Writing the metadata of a directory updates the view at its name.\<close>

lemma write_meta_ok:
  assumes "meta_ok env" "map_of (ws_dirs vai) d = Some w"
  obtains w' where "write_meta env vai d m = Inr (vai\<lparr>ws_dirs := AList.update d w' (ws_dirs vai)\<rparr>)"
    "read_meta_dir env w' = Inr m" "deleted_manifest w' = deleted_manifest w"
  using assms that [of "w\<lparr>meta_toml := Some (meta_to_toml env m)\<rparr>"]
  by (simp add: write_meta_def read_meta_dir_def meta_ok_def)

lemma ws_view_update:
  "read_meta_dir env w = Inr m \<Longrightarrow>
   ws_view env (vai\<lparr>ws_dirs := AList.update d w (ws_dirs vai)\<rparr>) = (ws_view env vai)(d \<mapsto> m)"
  by (rule ext) (simp add: ws_view_def ws_get_def update_conv')

lemma ws_view_delete:
  "ws_view env (vai\<lparr>ws_dirs := AList.delete d (ws_dirs vai)\<rparr>) = (ws_view env vai)(d := None)"
  by (rule ext) (simp add: ws_view_def ws_get_def delete_conv')

lemma wf_vai_write_meta:
  assumes "wf_vai env vai" "ws_view env vai (uuid_to_string env (wm_id m)) \<noteq> None"
  obtains vai' where "update_meta env vai m = Inr vai'" "wf_vai env vai'"
    "ws_view env vai' = (ws_view env vai)(uuid_to_string env (wm_id m) \<mapsto> m)"
    "elog vai' = elog vai" "active_file vai' = active_file vai" "head_file vai' = head_file vai"
    "vai_dir.more vai' = vai_dir.more vai"
proof -
  let ?d = "uuid_to_string env (wm_id m)"
  from assms obtain w where w: "map_of (ws_dirs vai) ?d = Some w"
    by (auto simp: ws_view_def ws_get_def split: option.splits)
  have ok: "meta_ok env" using assms(1) by (simp add: wf_vai_def)
  obtain w' where w': "write_meta env vai ?d m = Inr (vai\<lparr>ws_dirs := AList.update ?d w' (ws_dirs vai)\<rparr>)"
    "read_meta_dir env w' = Inr m" by (rule write_meta_ok [OF ok w])
  have "wf_vai env (vai\<lparr>ws_dirs := AList.update ?d w' (ws_dirs vai)\<rparr>)"
    using assms(1) wf_dirs_update [OF _ w'(2) refl] by (auto simp: wf_vai_def dom_update)
  with that w' show ?thesis by (simp add: update_meta_def ws_view_update [OF w'(2)])
qed

section \<open>Behaviour of the operations\<close>

lemma ensure_ws_dir_ok:
  obtains w where "map_of (ws_dirs (ensure_ws_dir d vai)) d = Some w"
    "AList.update d w' (ws_dirs (ensure_ws_dir d vai)) = AList.update d w' (ws_dirs vai)"
    "(ensure_ws_dir d vai)\<lparr>ws_dirs := x\<rparr> = vai\<lparr>ws_dirs := x\<rparr>"
proof (cases "map_of (ws_dirs vai) d")
  case (Some w)
  with that show ?thesis by (simp add: ensure_ws_dir_def)
next
  case None
  have "AList.update d w' (xs @ [(d, v)]) = AList.update d w' xs" if "d \<notin> fst ` set xs" for xs :: "(string \<times> ws_dir) list" and v
    using that by (induction xs) auto
  moreover have "d \<notin> fst ` set (ws_dirs vai)" using None by (metis map_of_eq_None_iff)
  ultimately show ?thesis using None that by (simp add: ensure_ws_dir_def map_add_def)
qed

lemma create_with_id_ok:
  assumes "wf_vai env vai"
  obtains r vai' where "create_with_id env vai intent base i now = Inr (r, vai')" "wf_vai env vai'"
    "cr_workspace r = \<lparr>wm_id = i, wm_intent = intent, wm_base_version = base, wm_status = WCreated,
       wm_created_at = now, wm_updated_at = now, wm_issue_id = None, wm_deleted_paths = []\<rparr>"
    "ws_view env vai' = (ws_view env vai)(uuid_to_string env i \<mapsto> cr_workspace r)"
    "active_file vai' = Some (uuid_to_string env i)"
    "vai_kinds env vai' = vai_kinds env vai @ [WorkspaceCreated i intent base]"
    "head_file vai' = head_file vai" "vai_dir.more vai' = vai_dir.more vai"
proof -
  let ?d = "uuid_to_string env i"
  define meta where "meta = \<lparr>wm_id = i, wm_intent = intent, wm_base_version = base, wm_status = WCreated,
    wm_created_at = now, wm_updated_at = now, wm_issue_id = None, wm_deleted_paths = []\<rparr>"
  have ok: "meta_ok env" "wf_log env (elog vai)" using assms by (simp_all add: wf_vai_def)
  obtain w where w: "map_of (ws_dirs (ensure_ws_dir ?d vai)) ?d = Some w"
    by (rule ensure_ws_dir_ok)
  obtain w' where w': "write_meta env (ensure_ws_dir ?d vai) ?d meta =
      Inr ((ensure_ws_dir ?d vai)\<lparr>ws_dirs := AList.update ?d w' (ws_dirs (ensure_ws_dir ?d vai))\<rparr>)"
    "read_meta_dir env w' = Inr meta" by (rule write_meta_ok [OF ok(1) w])
  let ?v1 = "vai\<lparr>ws_dirs := AList.update ?d w' (ws_dirs vai)\<rparr>"
  have v1: "write_meta env (ensure_ws_dir ?d vai) ?d meta = Inr ?v1"
    using w'(1) by (metis ensure_ws_dir_ok)
  have wf1: "wf_log env (elog ?v1)" using ok(2) by simp
  obtain e log where l: "vai_append env ?v1 now (WorkspaceCreated i intent base) = Inr (e, ?v1\<lparr>elog := log\<rparr>)"
    "wf_log env log" "vai_kinds env (?v1\<lparr>elog := log\<rparr>) = vai_kinds env ?v1 @ [WorkspaceCreated i intent base]"
    by (rule vai_append_ok [OF wf1])
  let ?v2 = "set_active (?v1\<lparr>elog := log\<rparr>) ?d"
  have "create_with_id env vai intent base i now = Inr (\<lparr>cr_workspace = meta, cr_path = ws_path ?d\<rparr>, ?v2)"
    using v1 l(1) by (simp add: create_with_id_def meta_def Let_def)
  moreover have "wf_vai env ?v2"
    using assms l(2) wf_dirs_update [OF _ w'(2)] by (auto simp: wf_vai_def set_active_def dom_update meta_def)
  moreover have "ws_view env ?v2 = (ws_view env vai)(?d \<mapsto> meta)"
    using ws_view_update [OF w'(2)] by (subst ws_view_cong [of _ ?v1]) (simp_all add: set_active_def)
  ultimately show ?thesis using that l(3) by (simp add: set_active_def meta_def)
qed

lemma read_active_wf:
  assumes "wf_vai env vai"
  shows "read_active vai = (case active_file vai of None \<Rightarrow> Inl WsNoActiveWorkspace | Some c \<Rightarrow> Inr c)"
proof (cases "active_file vai")
  case (Some c)
  with assms have "c \<in> fst ` set (ws_dirs vai)" by (simp add: wf_vai_def)
  then obtain u where "c = uuid_to_string env u" using assms by (force simp: wf_vai_def wf_dirs_def)
  with assms Some show ?thesis by (auto simp: read_active_def wf_vai_def uuid_ok_def)
qed (simp add: read_active_def)

lemma ws_discard_ok:
  assumes "wf_vai env vai" "ws_view env vai i = Some m"
  obtains m' vai' where
    "ws_discard env (vai, files) i reason now = Inr (m', vai', filter (\<lambda>(p, _). \<not> starts_with p (ws_path i @ ''/'')) files)"
    "m' = m\<lparr>wm_status := WDiscarded, wm_updated_at := now\<rparr>" "wf_vai env vai'"
    "ws_view env vai' = (ws_view env vai)(i := None)"
    "active_file vai' = (if active_file vai = Some i then None else active_file vai)"
    "vai_kinds env vai' = vai_kinds env vai @ [WorkspaceDiscarded (wm_id m) (case reason of Some r \<Rightarrow> r | None \<Rightarrow> ''discarded by user'')]"
    "head_file vai' = head_file vai" "vai_dir.more vai' = vai_dir.more vai"
proof -
  let ?k = "WorkspaceDiscarded (wm_id m) (case reason of Some r \<Rightarrow> r | None \<Rightarrow> ''discarded by user'')"
  let ?m = "m\<lparr>wm_status := WDiscarded, wm_updated_at := now\<rparr>"
  have ok: "meta_ok env" "wf_log env (elog vai)" "wf_dirs env (ws_dirs vai)" using assms(1) by (simp_all add: wf_vai_def)
  from assms(2) obtain w where w: "map_of (ws_dirs vai) i = Some w" "read_meta_dir env w = Inr m"
    by (auto simp: ws_view_def ws_get_def split: option.splits sum.splits)
  obtain e log where l: "vai_append env vai now ?k = Inr (e, vai\<lparr>elog := log\<rparr>)" "wf_log env log"
    "vai_kinds env (vai\<lparr>elog := log\<rparr>) = vai_kinds env vai @ [?k]" by (rule vai_append_ok [OF ok(2)])
  obtain w' where w': "write_meta env (vai\<lparr>elog := log\<rparr>) i ?m =
      Inr (vai\<lparr>elog := log, ws_dirs := AList.update i w' (ws_dirs vai)\<rparr>)"
    using write_meta_ok [OF ok(1), of "vai\<lparr>elog := log\<rparr>" i w ?m] w(1) by auto
  let ?v3 = "vai\<lparr>elog := log, ws_dirs := AList.delete i (ws_dirs vai)\<rparr>"
  have act: "read_active ?v3 = Inr i \<longleftrightarrow> active_file vai = Some i"
    using read_active_wf [OF assms(1)] by (auto simp: read_active_def split: option.splits)
  let ?v4 = "if active_file vai = Some i then ?v3\<lparr>active_file := None\<rparr> else ?v3"
  have "ws_discard env (vai, files) i reason now =
      Inr (?m, ?v4, filter (\<lambda>(p, _). \<not> starts_with p (ws_path i @ ''/'')) files)"
    using w l(1) w' act by (simp add: ws_discard_def remove_ws_dir_def Let_def delete_update_same)
  moreover have "wf_vai env ?v4"
    using assms(1) l(2) wf_dirs_delete [OF ok(3)] by (auto simp: wf_vai_def dom_delete)
  moreover have "ws_view env ?v4 = (ws_view env vai)(i := None)"
    by (subst ws_view_cong [of _ "vai\<lparr>ws_dirs := AList.delete i (ws_dirs vai)\<rparr>"]) (simp_all add: ws_view_delete)
  moreover have "vai_kinds env ?v4 = vai_kinds env vai @ [?k]" using l(3) by (simp add: vai_kinds_def)
  ultimately show ?thesis using that by simp
qed

lemma ws_switch_eq:
  assumes "wf_vai env vai"
  shows "ws_switch env vai i =
    (case ws_view env vai i of
       None \<Rightarrow> Inl (WsNotFound i)
     | Some m \<Rightarrow> if inactive (wm_status m)
         then Inl (WsNotFound (i @ '' (workspace is '' @ status_as_str (wm_status m) @ '', cannot switch to it)''))
         else Inr (m, vai\<lparr>active_file := Some i\<rparr>))"
  using assms by (simp add: ws_switch_def ws_get_view wf_vai_def set_active_def split: option.split)

lemma wf_vai_switch:
  assumes "wf_vai env vai" "ws_switch env vai i = Inr (m, vai')"
  shows "wf_vai env vai'"
proof -
  have "ws_view env vai i = Some m" "vai' = vai\<lparr>active_file := Some i\<rparr>"
    using assms(2) by (auto simp: ws_switch_eq [OF assms(1)] split: option.splits if_splits)
  moreover from this have "i \<in> fst ` set (ws_dirs vai)"
    using ws_view_dom [of env vai i] assms(1) by (simp add: wf_vai_def)
  ultimately show ?thesis using assms(1) by (simp add: wf_vai_def)
qed

lemma list_entries_ok:
  assumes "wf_dirs env ds"
  obtains f where "\<forall>(d, w)\<in>set ds. read_meta_dir env w = Inr (f d) \<and> d = uuid_to_string env (wm_id (f d))"
    "\<And>incl. list_entries env incl ds = Inr (filter (\<lambda>m. incl \<or> \<not> inactive (wm_status m)) (map (f \<circ> fst) ds))"
proof -
  define f where "f d = (case read_meta_dir env (the (map_of ds d)) of Inr m \<Rightarrow> m | Inl _ \<Rightarrow> undefined)" for d
  have f: "read_meta_dir env w = Inr (f d) \<and> d = uuid_to_string env (wm_id (f d))" if "(d, w) \<in> set ds" for d w
  proof -
    have m: "map_of ds d = Some w" using that assms by (simp add: wf_dirs_def)
    with wf_dirs_read [OF assms m] show ?thesis by (auto simp: f_def)
  qed
  have "list_entries env incl xs = Inr (filter (\<lambda>m. incl \<or> \<not> inactive (wm_status m)) (map (f \<circ> fst) xs))"
    if "set xs \<subseteq> set ds" for incl xs
    using that
  proof (induction xs)
    case (Cons x xs)
    obtain d w where x: "x = (d, w)" by fastforce
    with Cons.prems have r: "read_meta_dir env w = Inr (f d)" using f by auto
    then have "meta_toml w \<noteq> None" by (auto simp: read_meta_dir_def split: option.splits)
    with Cons x r show ?case by simp
  qed simp
  with f that show ?thesis by blast
qed

lemma list_filtered_ok:
  assumes "wf_vai env vai"
  obtains ms where "list_filtered env vai incl = Inr ms"
    "set ms = {m. \<exists>d. ws_view env vai d = Some m \<and> (incl \<or> \<not> inactive (wm_status m))}"
    "distinct (map wm_id ms)" "sorted_wrt (\<lambda>a b. wm_created_at b \<le> wm_created_at a) ms"
proof -
  let ?ds = "ws_dirs vai"
  have wf: "wf_dirs env ?ds" using assms by (simp add: wf_vai_def)
  obtain f where f: "\<forall>(d, w)\<in>set ?ds. read_meta_dir env w = Inr (f d) \<and> d = uuid_to_string env (wm_id (f d))"
    "list_entries env incl ?ds = Inr (filter (\<lambda>m. incl \<or> \<not> inactive (wm_status m)) (map (f \<circ> fst) ?ds))"
    by (rule list_entries_ok [OF wf]) blast
  let ?ms = "filter (\<lambda>m. incl \<or> \<not> inactive (wm_status m)) (map (f \<circ> fst) ?ds)"
  have view: "ws_view env vai d = (if d \<in> fst ` set ?ds then Some (f d) else None)" for d
    using f(1) ws_view_dom [OF wf, of d]
    by (auto simp: ws_view_def ws_get_def split: option.splits sum.splits dest!: map_of_SomeD)
  have ids: "map (uuid_to_string env \<circ> wm_id) (map (f \<circ> fst) ?ds) = map fst ?ds"
    using f(1) by (auto simp: comp_def)
  then have "distinct (map (uuid_to_string env \<circ> wm_id) (map (f \<circ> fst) ?ds))"
    using wf unfolding ids wf_dirs_def by blast
  then have "distinct (map wm_id (map (f \<circ> fst) ?ds))" by (metis distinct_map map_map)
  then have d: "distinct (map wm_id ?ms)" by (rule distinct_map_filter)
  have "distinct (map wm_id (newest_first ?ms))"
    using d mset_eq_imp_distinct_iff [of "map wm_id (newest_first ?ms)" "map wm_id ?ms"]
    by (simp add: newest_first_def)
  moreover have "sorted_wrt (\<lambda>a b. wm_created_at b \<le> wm_created_at a) (newest_first ?ms)"
  proof -
    have "sorted (map (\<lambda>m. - int (wm_created_at m)) (newest_first ?ms))" by (simp add: newest_first_def)
    then show ?thesis by (simp add: sorted_map)
  qed
  moreover have "set (newest_first ?ms) = {m. \<exists>d. ws_view env vai d = Some m \<and> (incl \<or> \<not> inactive (wm_status m))}"
    by (auto simp: newest_first_def view split: if_splits)
  ultimately show ?thesis using that f(2) by (simp add: list_filtered_def)
qed

section \<open>Reachable directories\<close>

definition vai_empty :: vai_dir where
  "vai_empty = \<lparr>head_file = Some ''v1\<newline>'', active_file = None, ws_dirs = [], elog = elog_empty\<rparr>"

text \<open>The operations as steps on the directory and the files below it; failing calls do not step.\<close>

inductive ws_step :: "('a) ws_env_scheme \<Rightarrow> vai_dir \<times> disk \<Rightarrow> vai_dir \<times> disk \<Rightarrow> bool" for env where
  step_create: "create_with_id env vai intent base i now = Inr (r, vai') \<Longrightarrow> ws_step env (vai, fs) (vai', fs)"
| step_switch: "ws_switch env vai i = Inr (m, vai') \<Longrightarrow> ws_step env (vai, fs) (vai', fs)"
| step_discard: "ws_discard env (vai, fs) i reason now = Inr (m, vai', fs') \<Longrightarrow> ws_step env (vai, fs) (vai', fs')"
| step_update: "update_meta env vai m = Inr vai' \<Longrightarrow> ws_step env (vai, fs) (vai', fs)"

inductive_cases ws_stepE: "ws_step env (vai, fs) (vai', fs')"

definition ws_reachable :: "('a) ws_env_scheme \<Rightarrow> vai_dir \<times> disk \<Rightarrow> bool" where
  "ws_reachable env st \<longleftrightarrow> (\<exists>fs. (ws_step env)\<^sup>*\<^sup>* (vai_empty, fs) st)"

lemma wf_vai_update_meta:
  assumes "wf_vai env vai" "update_meta env vai m = Inr vai'"
  shows "wf_vai env vai'"
proof -
  have "map_of (ws_dirs vai) (uuid_to_string env (wm_id m)) \<noteq> None"
    using assms(2) by (auto simp: update_meta_def write_meta_def split: option.splits)
  then have "ws_view env vai (uuid_to_string env (wm_id m)) \<noteq> None"
    using assms(1) ws_view_dom [of env vai] by (simp add: wf_vai_def map_of_eq_None_iff)
  then obtain v2 where "update_meta env vai m = Inr v2" "wf_vai env v2"
    by (rule wf_vai_write_meta [OF assms(1)])
  with assms(2) show ?thesis by simp
qed

lemma wf_vai_create:
  assumes "wf_vai env vai" "create_with_id env vai intent base i now = Inr (r, vai')"
  shows "wf_vai env vai'"
proof -
  obtain r2 v2 where "create_with_id env vai intent base i now = Inr (r2, v2)" "wf_vai env v2"
    by (rule create_with_id_ok [OF assms(1)])
  with assms(2) show ?thesis by simp
qed

lemma wf_vai_discard:
  assumes "wf_vai env vai" "ws_discard env (vai, fs) i reason now = Inr (m', vai', fs')"
  shows "wf_vai env vai'"
proof (cases "ws_view env vai i")
  case None
  then have "map_of (ws_dirs vai) i = None"
    using ws_view_dom [of env vai i] assms(1) by (simp add: wf_vai_def map_of_eq_None_iff)
  with assms(2) show ?thesis by (simp add: ws_discard_def)
next
  case (Some m)
  obtain m2 v2 where "ws_discard env (vai, fs) i reason now =
      Inr (m2, v2, filter (\<lambda>(p, _). \<not> starts_with p (ws_path i @ ''/'')) fs)" "wf_vai env v2"
    by (rule ws_discard_ok [OF assms(1) Some])
  with assms(2) show ?thesis by simp
qed

lemma ws_step_wf: "ws_step env st st' \<Longrightarrow> wf_vai env (fst st) \<Longrightarrow> wf_vai env (fst st')"
  by (induction rule: ws_step.induct)
     (auto intro: wf_vai_create wf_vai_switch wf_vai_discard wf_vai_update_meta)

lemma wf_vai_empty: "json_ok env \<Longrightarrow> meta_ok env \<Longrightarrow> uuid_ok env \<Longrightarrow> wf_vai env vai_empty"
  by (simp add: wf_vai_def vai_empty_def wf_dirs_def wf_log_empty)

lemma ws_reachable_wf:
  assumes "json_ok env" "meta_ok env" "uuid_ok env" "ws_reachable env st"
  shows "wf_vai env (fst st)"
proof -
  from assms(4) obtain fs where "(ws_step env)\<^sup>*\<^sup>* (vai_empty, fs) st" by (auto simp: ws_reachable_def)
  then show ?thesis
    by (induction rule: rtranclp_induct) (simp_all add: wf_vai_empty assms ws_step_wf)
qed

section \<open>A concrete environment\<close>

definition e_status :: "WorkspaceStatus enc" where
  "e_status s = [case s of WCreated \<Rightarrow> 0 | WActive \<Rightarrow> 1 | WSubmitted \<Rightarrow> 2 | WMerged \<Rightarrow> 3 | WDiscarded \<Rightarrow> 4]"
definition d_status :: "WorkspaceStatus dec" where
  "d_status = d_map (\<lambda>n. [WCreated, WActive, WSubmitted, WMerged, WDiscarded] ! n) d_nat"

lemma wires_status [simp]: "wires e_status d_status"
  by (auto simp: wires_def e_status_def d_status_def d_map_def split: WorkspaceStatus.splits)

definition e_meta :: "WorkspaceMeta enc" where
  "e_meta m = e_nat (wm_id m) @ e_str (wm_intent m) @ e_str (wm_base_version m) @ e_status (wm_status m) @
     e_nat (wm_created_at m) @ e_nat (wm_updated_at m) @ e_opt e_nat (wm_issue_id m) @ e_list e_str (wm_deleted_paths m)"
definition d_meta :: "WorkspaceMeta dec" where
  "d_meta = d_app (d_app (d6 WorkspaceMeta.make d_nat d_str d_str d_status d_nat d_nat) (d_opt d_nat)) (d_list d_str)"

lemma wires_meta [simp]: "wires e_meta d_meta"
  unfolding wires_def by (simp add: e_meta_def d_meta_def d_chain WorkspaceMeta.defs del: e_list.simps)

definition sample_ws_env :: ws_env where
  "sample_ws_env = \<lparr>ev_to_json = to_text e_event, ev_from_json = from_text d_event,
     to_rfc3339 = nat_to_string, uuid_to_string = nat_to_string,
     meta_to_toml = to_text e_meta, meta_from_toml = from_text d_meta\<rparr>"

lemma uuid_ok_decimal: "uuid_to_string env = nat_to_string \<Longrightarrow> uuid_ok env"
  by (simp add: uuid_ok_def inj_nat_to_string nat_to_string_nonempty)

lemma meta_ok_text: "meta_to_toml env = to_text e_meta \<Longrightarrow> meta_from_toml env = from_text d_meta \<Longrightarrow> meta_ok env"
  by (simp add: meta_ok_def from_to_text)

lemma sample_ws_ok [simp]: "json_ok sample_ws_env" "meta_ok sample_ws_env" "uuid_ok sample_ws_env"
  by (auto intro: json_ok_text meta_ok_text uuid_ok_decimal simp: sample_ws_env_def)

lemma sample_ws_wf [simp]: "wf_vai sample_ws_env vai_empty"
  by (simp add: wf_vai_empty)

section \<open>Properties\<close>

text \<open>Creating a workspace in a well-formed directory succeeds: the new workspace is stored under
  its identifier with status Created, every other workspace is unchanged, it becomes the active
  workspace, and the log gains exactly the WorkspaceCreated event.\<close>

theorem create_with_id_spec:
  assumes "wf_vai env vai"
  shows "\<exists>r vai'. create_with_id env vai intent base i now = Inr (r, vai') \<and> wf_vai env vai' \<and>
    ws_view env vai' = (ws_view env vai)(uuid_to_string env i \<mapsto> cr_workspace r) \<and>
    ws_active env vai' = Inr (cr_workspace r) \<and> wm_id (cr_workspace r) = i \<and>
    wm_status (cr_workspace r) = WCreated \<and> wm_base_version (cr_workspace r) = base \<and>
    vai_kinds env vai' = vai_kinds env vai @ [WorkspaceCreated i intent base]"
proof -
  obtain r vai' where c: "create_with_id env vai intent base i now = Inr (r, vai')" "wf_vai env vai'"
    "cr_workspace r = \<lparr>wm_id = i, wm_intent = intent, wm_base_version = base, wm_status = WCreated,
       wm_created_at = now, wm_updated_at = now, wm_issue_id = None, wm_deleted_paths = []\<rparr>"
    "ws_view env vai' = (ws_view env vai)(uuid_to_string env i \<mapsto> cr_workspace r)"
    "active_file vai' = Some (uuid_to_string env i)"
    "vai_kinds env vai' = vai_kinds env vai @ [WorkspaceCreated i intent base]"
    by (rule create_with_id_ok [OF assms])
  have "ws_active env vai' = Inr (cr_workspace r)"
    using c(4,5) by (simp add: ws_active_def read_active_wf [OF c(2)] ws_get_view [OF wf_vai_dirs [OF c(2)]])
  with c show ?thesis by auto
qed

theorem create_with_id_spec_witness:
  "\<exists>r vai'. create_with_id sample_ws_env vai_empty ''fix'' ''v1'' 5 9 = Inr (r, vai') \<and>
     ws_active sample_ws_env vai' = Inr (cr_workspace r)"
  using create_with_id_spec [OF sample_ws_wf, of "''fix''" "''v1''" 5 9] by blast

text \<open>Discarding an existing workspace succeeds: its directory and every file below it are gone,
  no other workspace changes, the active pointer is cleared exactly when it pointed to it, and
  the event log keeps its history and gains the WorkspaceDiscarded event.\<close>

theorem ws_discard_spec:
  assumes "wf_vai env vai" "ws_get env vai i = Inr m"
  shows "\<exists>m' vai' files'. ws_discard env (vai, files) i reason now = Inr (m', vai', files') \<and> wf_vai env vai' \<and>
    wm_status m' = WDiscarded \<and> ws_get env vai' i = Inl (WsNotFound i) \<and>
    ws_view env vai' = (ws_view env vai)(i := None) \<and>
    active_id vai' = (if active_id vai = Some i then None else active_id vai) \<and>
    files' = filter (\<lambda>(p, _). \<not> starts_with p (ws_path i @ ''/'')) files \<and>
    vai_kinds env vai' = vai_kinds env vai @ [WorkspaceDiscarded (wm_id m) (case reason of Some r \<Rightarrow> r | None \<Rightarrow> ''discarded by user'')]"
proof -
  have v: "ws_view env vai i = Some m" using assms(2) by (simp add: ws_view_def)
  obtain m' vai' where d:
    "ws_discard env (vai, files) i reason now = Inr (m', vai', filter (\<lambda>(p, _). \<not> starts_with p (ws_path i @ ''/'')) files)"
    "m' = m\<lparr>wm_status := WDiscarded, wm_updated_at := now\<rparr>" "wf_vai env vai'"
    "ws_view env vai' = (ws_view env vai)(i := None)"
    "active_file vai' = (if active_file vai = Some i then None else active_file vai)"
    "vai_kinds env vai' = vai_kinds env vai @ [WorkspaceDiscarded (wm_id m) (case reason of Some r \<Rightarrow> r | None \<Rightarrow> ''discarded by user'')]"
    by (rule ws_discard_ok [OF assms(1) v])
  have "ws_get env vai' i = Inl (WsNotFound i)" using d(3,4) by (simp add: ws_get_view wf_vai_def)
  moreover have "active_id vai' = (if active_id vai = Some i then None else active_id vai)"
    using read_active_wf [OF assms(1)] read_active_wf [OF d(3)] d(5) by (auto simp: active_id_def split: option.splits)
  ultimately show ?thesis using d by simp
qed

theorem ws_discard_spec_witness:
  "\<exists>(vai :: vai_dir) m' vai' files'. ws_discard sample_ws_env (vai, [(''.vai/workspaces/5/overlay/a'', ''x''), (''a'', ''y'')]) ''5'' None 11 = Inr (m', vai', files') \<and>
     ws_get sample_ws_env vai' ''5'' = Inl (WsNotFound ''5'') \<and> files' = [(''a'', ''y'')]"
proof -
  obtain r :: CreateResult and vai :: vai_dir where c: "wf_vai sample_ws_env vai"
    "ws_view sample_ws_env vai = (ws_view sample_ws_env vai_empty)(uuid_to_string sample_ws_env 5 \<mapsto> cr_workspace r)"
    by (rule create_with_id_ok [OF sample_ws_wf, of "''fix''" "''v1''" 5 9]) blast
  have five: "uuid_to_string sample_ws_env 5 = ''5''" by (simp add: sample_ws_env_def) code_simp
  have g: "ws_get sample_ws_env vai ''5'' = Inr (cr_workspace r)"
    using c five by (simp add: ws_get_view wf_vai_def)
  let ?F = "[(''.vai/workspaces/5/overlay/a'', ''x''), (''a'', ''y'')]"
  have f: "filter (\<lambda>(p, _). \<not> starts_with p (ws_path ''5'' @ ''/'')) ?F = [(''a'', ''y'')]"
    by (simp add: starts_with_def ws_path_def)
  show ?thesis
    using ws_discard_spec [OF c(1) g, of ?F None 11] unfolding f
    by (elim exE conjE) (intro exI conjI)
qed

text \<open>Listing the workspaces of a well-formed directory returns each stored workspace exactly
  once, newest first, leaving out the discarded and merged ones.\<close>

theorem ws_list_spec:
  assumes "wf_vai env vai"
  shows "\<exists>ms. ws_list env vai = Inr ms \<and>
    set ms = {m. \<exists>d. ws_view env vai d = Some m \<and> \<not> inactive (wm_status m)} \<and>
    distinct (map wm_id ms) \<and> sorted_wrt (\<lambda>a b. wm_created_at b \<le> wm_created_at a) ms"
proof -
  obtain ms where "list_filtered env vai False = Inr ms"
    "set ms = {m. \<exists>d. ws_view env vai d = Some m \<and> (False \<or> \<not> inactive (wm_status m))}"
    "distinct (map wm_id ms)" "sorted_wrt (\<lambda>a b. wm_created_at b \<le> wm_created_at a) ms"
    by (rule list_filtered_ok [OF assms])
  then show ?thesis by (simp add: ws_list_def)
qed

theorem ws_list_spec_witness:
  "\<exists>ms. ws_list sample_ws_env vai_empty = Inr ms \<and> distinct (map wm_id ms)"
  using ws_list_spec [OF sample_ws_wf] by blast

text \<open>In every directory reached from the initial one by creating, switching to, discarding and
  updating workspaces, the active pointer never dangles: there is no active workspace, or its
  metadata can be read.\<close>

theorem ws_active_never_dangles:
  assumes "json_ok env" "meta_ok env" "uuid_ok env" "ws_reachable env (vai, files)"
  shows "ws_active env vai = Inl WsNoActiveWorkspace \<or> (\<exists>m. ws_active env vai = Inr m \<and> active_id vai = Some (uuid_to_string env (wm_id m)))"
proof -
  have wf: "wf_vai env vai" using ws_reachable_wf [OF assms] by simp
  then have wd: "wf_dirs env (ws_dirs vai)" by (simp add: wf_vai_def)
  show ?thesis
  proof (cases "active_file vai")
    case None
    with wf show ?thesis by (simp add: ws_active_def read_active_wf)
  next
    case (Some c)
    with wf have "c \<in> fst ` set (ws_dirs vai)" by (simp add: wf_vai_def)
    with ws_view_dom [OF wd] obtain m where m: "ws_view env vai c = Some m" by blast
    with Some wf wd show ?thesis
      using ws_view_id [OF wd m] by (simp add: ws_active_def active_id_def read_active_wf ws_get_view)
  qed
qed

theorem ws_active_never_dangles_witness:
  "json_ok sample_ws_env \<and> ws_reachable sample_ws_env (vai_empty, []) \<and>
   (ws_active sample_ws_env vai_empty = Inl WsNoActiveWorkspace \<or>
    (\<exists>m. ws_active sample_ws_env vai_empty = Inr m \<and> active_id vai_empty = Some (uuid_to_string sample_ws_env (wm_id m))))"
proof -
  have "ws_reachable sample_ws_env (vai_empty, [])" unfolding ws_reachable_def by blast
  with ws_active_never_dangles [OF sample_ws_ok this] show ?thesis by simp
qed

end
