(* ===== verification/MergeFs.thy ===== *)
theory MergeFs
  imports Workspace
begin

text \<open>
  The file abstraction of the merge and diff engines (\<open>src/merge_fs.rs\<close>) and the object store
  below it (\<open>FileStore\<close> and \<open>MemFileStore\<close> of \<open>src/storage/mod.rs\<close>).

  The traits \<open>FileStore\<close> and \<open>MergeFs\<close> are records of functions over a state. A read of
  \<open>S3MergeFs\<close> fills its cache, so reading returns the new state too; on an error the state is the
  old one. The locale \<open>file_store\<close> states what \<open>S3MergeFs\<close> relies on, the locale \<open>merge_fs\<close> what
  the engines rely on: a key resolves to a location, and the state holds a content per location.
  Both are interpreted on the implementations: \<open>MemFileStore\<close>, \<open>S3MergeFs\<close> over any
  \<open>file_store\<close>, and \<open>DiskMergeFs\<close>.

  Paths are strings relative to the repository root; directories are not represented, so a path
  exists when a file is stored there. Identifiers and relative paths are not absolute.
\<close>

section \<open>The object store\<close>

datatype StorageError =
    StNotFound string | StConflict string | StInvalidTransition string | StDatabase string
  | StIo string | StSerialization string | StRateLimitExceeded string

record FileMetadata =
  fm_path :: string
  fm_size :: nat
  fm_content_hash :: string
  fm_updated_at :: time

record 'f FileStore =
  fst_put :: "'f \<Rightarrow> uuid \<Rightarrow> string \<Rightarrow> bytes \<Rightarrow> (StorageError, string \<times> 'f) result"
  fst_get :: "'f \<Rightarrow> uuid \<Rightarrow> string \<Rightarrow> (StorageError, bytes) result"
  fst_list :: "'f \<Rightarrow> uuid \<Rightarrow> string \<Rightarrow> (StorageError, FileMetadata list) result"
  fst_delete :: "'f \<Rightarrow> uuid \<Rightarrow> string \<Rightarrow> (StorageError, 'f) result"
  fst_exists :: "'f \<Rightarrow> uuid \<Rightarrow> string \<Rightarrow> (StorageError, bool) result"

text \<open>\<open>MemFileStore\<close>: the files by path; the repository is ignored. \<open>sha\<close> is SHA-256 in hex.\<close>

type_synonym mem_files = "(string \<times> bytes) list"

definition mem_put :: "(bytes \<Rightarrow> string) \<Rightarrow> mem_files \<Rightarrow> uuid \<Rightarrow> string \<Rightarrow> bytes \<Rightarrow> (StorageError, string \<times> mem_files) result" where
  "mem_put sha m r p c = Inr (sha c, AList.update p c m)"

definition mem_get :: "mem_files \<Rightarrow> uuid \<Rightarrow> string \<Rightarrow> (StorageError, bytes) result" where
  "mem_get m r p = (case map_of m p of Some c \<Rightarrow> Inr c | None \<Rightarrow> Inl (StNotFound p))"

definition mem_list :: "(bytes \<Rightarrow> string) \<Rightarrow> time \<Rightarrow> mem_files \<Rightarrow> uuid \<Rightarrow> string \<Rightarrow> (StorageError, FileMetadata list) result" where
  "mem_list sha now m r pre =
     Inr (map (\<lambda>(k, v). \<lparr>fm_path = k, fm_size = length v, fm_content_hash = sha v, fm_updated_at = now\<rparr>)
       (filter (\<lambda>(k, _). starts_with k pre) m))"

definition mem_delete :: "mem_files \<Rightarrow> uuid \<Rightarrow> string \<Rightarrow> (StorageError, mem_files) result" where
  "mem_delete m r p = Inr (AList.delete p m)"

definition mem_exists :: "mem_files \<Rightarrow> uuid \<Rightarrow> string \<Rightarrow> (StorageError, bool) result" where
  "mem_exists m r p = Inr (map_of m p \<noteq> None)"

definition MemFileStore :: "(bytes \<Rightarrow> string) \<Rightarrow> time \<Rightarrow> mem_files FileStore" where
  "MemFileStore sha now =
     \<lparr>fst_put = mem_put sha, fst_get = mem_get, fst_list = mem_list sha now,
      fst_delete = mem_delete, fst_exists = mem_exists\<rparr>"

locale file_store =
  fixes ops :: "'f FileStore"
    and stored :: "'f \<Rightarrow> uuid \<Rightarrow> string \<Rightarrow> bytes option"
    and sinv :: "'f \<Rightarrow> bool"
  assumes put_ok: "sinv f \<Longrightarrow> \<exists>h f'. fst_put ops f r p c = Inr (h, f') \<and> sinv f' \<and> stored f' r = (stored f r)(p \<mapsto> c)"
    and get_ok: "sinv f \<Longrightarrow> stored f r p = Some c \<Longrightarrow> fst_get ops f r p = Inr c"
    and get_err: "sinv f \<Longrightarrow> stored f r p = None \<Longrightarrow> \<exists>e. fst_get ops f r p = Inl e"
    and list_ok: "sinv f \<Longrightarrow> \<exists>ms. fst_list ops f r pre = Inr ms \<and>
      fm_path ` set ms = {p. starts_with p pre \<and> stored f r p \<noteq> None}"
    and delete_ok: "sinv f \<Longrightarrow> \<exists>f'. fst_delete ops f r p = Inr f' \<and> sinv f' \<and> stored f' r = (stored f r)(p := None)"
    and exists_ok: "sinv f \<Longrightarrow> fst_exists ops f r p = Inr (stored f r p \<noteq> None)"

interpretation mem: file_store "MemFileStore sha now" "\<lambda>m r. map_of m" "\<lambda>m. distinct (map fst m)"
proof unfold_locales
  fix m :: mem_files and r p c
  assume d: "distinct (map fst m)"
  show "\<exists>h f'. fst_put (MemFileStore sha now) m r p c = Inr (h, f') \<and> distinct (map fst f') \<and> map_of f' = (map_of m)(p \<mapsto> c)"
    using d by (simp add: MemFileStore_def mem_put_def distinct_update update_conv')
  show "\<exists>ms. fst_list (MemFileStore sha now) m r p = Inr ms \<and> fm_path ` set ms = {q. starts_with q p \<and> map_of m q \<noteq> None}"
  proof -
    have "fm_path ` (\<lambda>(k, v). \<lparr>fm_path = k, fm_size = length v, fm_content_hash = sha v, fm_updated_at = now\<rparr>) ` set (filter (\<lambda>(k, _). starts_with k p) m)
      = {q \<in> fst ` set m. starts_with q p}" by force
    also have "\<dots> = {q. starts_with q p \<and> map_of m q \<noteq> None}" by (auto simp: map_of_eq_None_iff)
    finally show ?thesis by (simp add: MemFileStore_def mem_list_def)
  qed
  show "\<exists>f'. fst_delete (MemFileStore sha now) m r p = Inr f' \<and> distinct (map fst f') \<and> map_of f' = (map_of m)(p := None)"
    using d by (simp add: MemFileStore_def mem_delete_def distinct_delete delete_conv')
  show "fst_exists (MemFileStore sha now) m r p = Inr (map_of m p \<noteq> None)"
    by (simp add: MemFileStore_def mem_exists_def)
qed (simp_all add: MemFileStore_def mem_get_def)

section \<open>The trait and its contract\<close>

datatype IoError = IoNotFound string | IoInvalidInput string | IoOther string

record 's MergeFs =
  mf_read :: "'s \<Rightarrow> string \<Rightarrow> (IoError, bytes \<times> 's) result"
  mf_write :: "'s \<Rightarrow> string \<Rightarrow> bytes \<Rightarrow> (IoError, 's) result"
  mf_list :: "'s \<Rightarrow> string \<Rightarrow> (IoError, string list) result"
  mf_exists :: "'s \<Rightarrow> string \<Rightarrow> (IoError, bool) result"
  mf_delete :: "'s \<Rightarrow> string \<Rightarrow> (IoError, 's) result"

definition snapshot_prefix :: "string \<Rightarrow> string" where
  "snapshot_prefix ver = ''snapshot/'' @ ver @ ''/''"

text \<open>The keys \<open>format!("overlay/{rel}")\<close>, \<open>format!("base/{rel}")\<close> and \<open>format!("snapshot/{ver}/{rel}")\<close>.\<close>

definition overlay_key :: "string \<Rightarrow> string" where "overlay_key rel = ''overlay/'' @ rel"
definition base_key :: "string \<Rightarrow> string" where "base_key rel = ''base/'' @ rel"
definition snapshot_key :: "string \<Rightarrow> string \<Rightarrow> string" where "snapshot_key ver rel = snapshot_prefix ver @ rel"

lemmas key_defs = overlay_key_def base_key_def snapshot_key_def snapshot_prefix_def

lemma overlay_key_inj [simp]: "overlay_key r = overlay_key r' \<longleftrightarrow> r = r'"
  and base_key_inj [simp]: "base_key r = base_key r' \<longleftrightarrow> r = r'"
  and snapshot_key_inj [simp]: "snapshot_key v r = snapshot_key v r' \<longleftrightarrow> r = r'"
  and keys_disjoint [simp]: "overlay_key r \<noteq> base_key r'" "base_key r' \<noteq> overlay_key r"
    "overlay_key r \<noteq> snapshot_key v r'" "snapshot_key v r' \<noteq> overlay_key r"
    "base_key r \<noteq> snapshot_key v r'" "snapshot_key v r' \<noteq> base_key r"
  by (simp_all add: key_defs)

definition version_name :: "string \<Rightarrow> bool" where
  "version_name ver \<longleftrightarrow> ver \<noteq> [] \<and> CHR ''/'' \<notin> set ver \<and> CHR 0x5C \<notin> set ver"

text \<open>
  \<open>resolve\<close> maps a key to its location, \<open>content\<close> is what the state holds there. Keys that
  satisfy \<open>good\<close> do not share a location.
\<close>

locale merge_fs =
  fixes ops :: "'s MergeFs"
    and resolve :: "string \<Rightarrow> string option"
    and content :: "'s \<Rightarrow> string \<Rightarrow> bytes option"
    and good :: "string \<Rightarrow> bool"
    and inv :: "'s \<Rightarrow> bool"
  assumes resolve_inj: "good k \<Longrightarrow> good k' \<Longrightarrow> resolve k = resolve k' \<Longrightarrow> resolve k \<noteq> None \<Longrightarrow> k = k'"
    and resolve_ns: "resolve (overlay_key rel) \<noteq> None" "resolve (base_key rel) \<noteq> None"
      "version_name ver \<Longrightarrow> resolve (snapshot_key ver rel) \<noteq> None"
    and read_ok: "inv s \<Longrightarrow> resolve k = Some l \<Longrightarrow> content s l = Some c \<Longrightarrow>
      \<exists>s'. mf_read ops s k = Inr (c, s') \<and> inv s' \<and> content s' = content s"
    and read_err: "inv s \<Longrightarrow> resolve k = Some l \<Longrightarrow> content s l = None \<Longrightarrow> \<exists>e. mf_read ops s k = Inl e"
    and write_ok: "inv s \<Longrightarrow> good k \<Longrightarrow> resolve k = Some l \<Longrightarrow>
      \<exists>s'. mf_write ops s k c = Inr s' \<and> inv s' \<and> content s' = (content s)(l \<mapsto> c)"
    and exists_ok: "inv s \<Longrightarrow> resolve k = Some l \<Longrightarrow> mf_exists ops s k = Inr (content s l \<noteq> None)"
    and delete_ok: "inv s \<Longrightarrow> resolve k = Some l \<Longrightarrow>
      \<exists>s'. mf_delete ops s k = Inr s' \<and> inv s' \<and> content s' = (content s)(l := None)"
    and list_ok: "inv s \<Longrightarrow> pre = ''overlay/'' \<or> (\<exists>ver. version_name ver \<and> pre = snapshot_prefix ver) \<Longrightarrow>
      \<exists>ks. mf_list ops s pre = Inr ks \<and> distinct ks \<and>
        (\<forall>k. k \<in> set ks \<longleftrightarrow> starts_with k pre \<and> (\<exists>l c. resolve k = Some l \<and> content s l = Some c)) \<and>
        (\<forall>k\<in>set ks. good k)"
begin

definition fdata :: "'s \<Rightarrow> string \<Rightarrow> bytes option" where
  "fdata s k = (case resolve k of None \<Rightarrow> None | Some l \<Rightarrow> content s l)"

lemma fdata_cong: "content s' = content s \<Longrightarrow> fdata s' = fdata s"
  by (rule ext) (simp add: fdata_def split: option.split)

lemma read_file: "inv s \<Longrightarrow> fdata s k = Some c \<Longrightarrow> \<exists>s'. mf_read ops s k = Inr (c, s') \<and> inv s' \<and> fdata s' = fdata s"
proof -
  assume a: "inv s" "fdata s k = Some c"
  then obtain l where "resolve k = Some l" "content s l = Some c" by (auto simp: fdata_def split: option.splits)
  from read_ok [OF a(1) this] fdata_cong show ?thesis by blast
qed

lemma read_missing: "inv s \<Longrightarrow> resolve k \<noteq> None \<Longrightarrow> fdata s k = None \<Longrightarrow> \<exists>e. mf_read ops s k = Inl e"
  using read_err [of s k] by (auto simp: fdata_def)

lemma exists_file: "inv s \<Longrightarrow> resolve k \<noteq> None \<Longrightarrow> mf_exists ops s k = Inr (fdata s k \<noteq> None)"
  using exists_ok [of s k] by (auto simp: fdata_def)

lemma write_file:
  assumes "inv s" "good k" "resolve k \<noteq> None"
  shows "\<exists>s'. mf_write ops s k c = Inr s' \<and> inv s' \<and> (\<forall>k'. good k' \<longrightarrow> fdata s' k' = (if k' = k then Some c else fdata s k'))"
proof -
  from assms(3) obtain l where l: "resolve k = Some l" by blast
  from write_ok [OF assms(1,2) l] obtain s' where
    "mf_write ops s k c = Inr s'" "inv s'" "content s' = (content s)(l \<mapsto> c)" by blast
  moreover have "fdata s' k' = (if k' = k then Some c else fdata s k')" if "good k'" for k'
  proof -
    have "resolve k' = Some l \<longleftrightarrow> k' = k" using resolve_inj [OF assms(2) that] l by (metis option.distinct(1))
    then show ?thesis using calculation(3) by (cases "resolve k'") (auto simp: fdata_def)
  qed
  ultimately show ?thesis by blast
qed

lemma delete_file:
  assumes "inv s" "good k" "resolve k \<noteq> None"
  shows "\<exists>s'. mf_delete ops s k = Inr s' \<and> inv s' \<and> (\<forall>k'. good k' \<longrightarrow> fdata s' k' = (if k' = k then None else fdata s k'))"
proof -
  from assms(3) obtain l where l: "resolve k = Some l" by blast
  from delete_ok [OF assms(1) l] obtain s' where
    "mf_delete ops s k = Inr s'" "inv s'" "content s' = (content s)(l := None)" by blast
  moreover have "fdata s' k' = (if k' = k then None else fdata s k')" if "good k'" for k'
  proof -
    have "resolve k' = Some l \<longleftrightarrow> k' = k" using resolve_inj [OF assms(2) that] l by (metis option.distinct(1))
    then show ?thesis using calculation(3) by (cases "resolve k'") (auto simp: fdata_def)
  qed
  ultimately show ?thesis by blast
qed

lemma list_files:
  assumes "inv s" "pre = ''overlay/'' \<or> (\<exists>ver. version_name ver \<and> pre = snapshot_prefix ver)"
  shows "\<exists>ks. mf_list ops s pre = Inr ks \<and> distinct ks \<and>
    (\<forall>k. k \<in> set ks \<longleftrightarrow> starts_with k pre \<and> fdata s k \<noteq> None) \<and> (\<forall>k\<in>set ks. good k)"
proof -
  have "(\<exists>l c. resolve k = Some l \<and> content s l = Some c) \<longleftrightarrow> fdata s k \<noteq> None" for k
    by (auto simp: fdata_def split: option.splits)
  with list_ok [OF assms] show ?thesis by simp
qed

end

section \<open>DiskMergeFs\<close>

definition disk_resolve :: "string \<Rightarrow> string \<Rightarrow> (IoError, string) result" where
  "disk_resolve wid key =
     (case strip_prefix ''overlay/'' key of
        Some rel \<Rightarrow> Inr (overlay_dir wid @ ''/'' @ rel)
      | None \<Rightarrow>
          (case strip_prefix ''base/'' key of
             Some rel \<Rightarrow> Inr rel
           | None \<Rightarrow>
               (case strip_prefix ''snapshot/'' key of
                  Some rest \<Rightarrow>
                    (case split_once (CHR ''/'') rest of
                       None \<Rightarrow> Inl (IoInvalidInput (''bad snapshot key: '' @ key))
                     | Some (ver, rel) \<Rightarrow> Inr (''.vai/versions/'' @ ver @ ''/snapshot/'' @ rel))
                | None \<Rightarrow> Inl (IoInvalidInput (''unknown MergeFs namespace in key: '' @ key)))))"

text \<open>The root directory of a prefix, with its trailing separator, and the canonical prefix.\<close>

definition disk_prefix_root :: "string \<Rightarrow> string \<Rightarrow> (IoError, string \<times> string) result" where
  "disk_prefix_root wid pre =
     (if pre = ''overlay/'' \<or> pre = ''overlay'' then Inr (overlay_dir wid @ ''/'', ''overlay/'')
      else if pre = ''base/'' \<or> pre = ''base'' then Inr ([], ''base/'')
      else (case strip_prefix ''snapshot/'' pre of
              Some rest \<Rightarrow>
                (let ver = trim_end_matches (CHR ''/'') rest
                 in if ver = [] then Inl (IoInvalidInput ''snapshot prefix must include a version id (e.g. 'snapshot/v2/')'')
                    else Inr (''.vai/versions/'' @ ver @ ''/snapshot/'', ''snapshot/'' @ ver @ ''/''))
            | None \<Rightarrow> Inl (IoInvalidInput (''unknown MergeFs namespace in prefix: '' @ pre))))"

definition disk_read :: "string \<Rightarrow> disk \<Rightarrow> string \<Rightarrow> (IoError, bytes \<times> disk) result" where
  "disk_read wid d key =
     bind_result (disk_resolve wid key) (\<lambda>p.
       case map_of d p of None \<Rightarrow> Inl (IoNotFound p) | Some c \<Rightarrow> Inr (c, d))"

definition disk_write :: "string \<Rightarrow> disk \<Rightarrow> string \<Rightarrow> bytes \<Rightarrow> (IoError, disk) result" where
  "disk_write wid d key c = bind_result (disk_resolve wid key) (\<lambda>p. Inr (AList.update p c d))"

text \<open>\<open>list_recursive\<close>: every file below the root, its relative path with back slashes turned round.\<close>

definition list_recursive :: "string \<Rightarrow> string \<Rightarrow> disk \<Rightarrow> string list" where
  "list_recursive root pre d =
     concat (map (\<lambda>(p, _). case strip_prefix root p of
         None \<Rightarrow> []
       | Some rel \<Rightarrow> [pre @ map (\<lambda>ch. if ch = CHR 0x5C then CHR ''/'' else ch) rel]) d)"

definition disk_list :: "string \<Rightarrow> disk \<Rightarrow> string \<Rightarrow> (IoError, string list) result" where
  "disk_list wid d pre =
     bind_result (disk_prefix_root wid pre) (\<lambda>(root, canonical). Inr (list_recursive root canonical d))"

definition disk_exists :: "string \<Rightarrow> disk \<Rightarrow> string \<Rightarrow> (IoError, bool) result" where
  "disk_exists wid d key = bind_result (disk_resolve wid key) (\<lambda>p. Inr (map_of d p \<noteq> None))"

definition disk_delete :: "string \<Rightarrow> disk \<Rightarrow> string \<Rightarrow> (IoError, disk) result" where
  "disk_delete wid d key =
     bind_result (disk_resolve wid key) (\<lambda>p. Inr (if map_of d p \<noteq> None then AList.delete p d else d))"

definition DiskMergeFs :: "string \<Rightarrow> disk MergeFs" where
  "DiskMergeFs wid = \<lparr>mf_read = disk_read wid, mf_write = disk_write wid, mf_list = disk_list wid,
     mf_exists = disk_exists wid, mf_delete = disk_delete wid\<rparr>"

text \<open>Keys of source files, without back slashes; the repository's own directory is not one.\<close>

definition disk_good :: "string \<Rightarrow> bool" where
  "disk_good k \<longleftrightarrow> CHR 0x5C \<notin> set k \<and> \<not> starts_with k ''base/.vai/''"

definition disk_inv :: "string \<Rightarrow> disk \<Rightarrow> bool" where
  "disk_inv wid d \<longleftrightarrow> CHR 0x5C \<notin> set wid \<and> distinct (map fst d) \<and> (\<forall>p\<in>set (map fst d). CHR 0x5C \<notin> set p)"

definition disk_loc :: "string \<Rightarrow> string \<Rightarrow> string option" where
  "disk_loc wid k = (case disk_resolve wid k of Inr p \<Rightarrow> Some p | Inl _ \<Rightarrow> None)"

lemma disk_resolve_simps [simp]:
  "disk_resolve wid (overlay_key rel) = Inr (overlay_dir wid @ ''/'' @ rel)"
  "disk_resolve wid (base_key rel) = Inr rel"
  "version_name ver \<Longrightarrow> disk_resolve wid (snapshot_key ver rel) = Inr (''.vai/versions/'' @ ver @ ''/snapshot/'' @ rel)"
  by (simp_all add: disk_resolve_def strip_prefix_def key_defs version_name_def)

lemma disk_resolve_cases:
  assumes "disk_resolve wid k = Inr p"
  obtains rel where "k = ''overlay/'' @ rel" "p = overlay_dir wid @ ''/'' @ rel"
  | rel where "k = ''base/'' @ rel" "p = rel"
  | ver rel where "CHR ''/'' \<notin> set ver" "k = ''snapshot/'' @ ver @ ''/'' @ rel" "p = ''.vai/versions/'' @ ver @ ''/snapshot/'' @ rel"
  using assms unfolding disk_resolve_def
  by (auto split: option.splits prod.splits simp: strip_prefix_Some_iff dest: split_once_Some)

lemma split_unique: "(c :: char) \<notin> set u \<Longrightarrow> c \<notin> set v \<Longrightarrow> u @ c # x = v @ c # y \<Longrightarrow> u = v \<and> x = y"
  by (metis split_once_append option.inject prod.inject)

lemma disk_loc_inj:
  assumes "disk_good k" "disk_good k'" "disk_loc wid k = disk_loc wid k'" "disk_loc wid k \<noteq> None"
  shows "k = k'"
proof -
  from assms(3,4) obtain p where p: "disk_resolve wid k = Inr p" "disk_resolve wid k' = Inr p"
    by (auto simp: disk_loc_def split: sum.splits)
  from p(1) show ?thesis
  proof (cases rule: disk_resolve_cases)
    case (1 rel)
    with p(2) assms(2) show ?thesis
      by (cases rule: disk_resolve_cases) (auto simp: disk_good_def overlay_dir_def ws_path_def starts_with_def)
  next
    case (2 rel)
    with p(2) assms(1) show ?thesis
      by (cases rule: disk_resolve_cases) (auto simp: disk_good_def overlay_dir_def ws_path_def starts_with_def)
  next
    case (3 ver rel)
    with p(2) assms(2) show ?thesis
      by (cases rule: disk_resolve_cases) (auto simp: disk_good_def overlay_dir_def ws_path_def starts_with_def dest: split_unique)
  qed
qed

lemma disk_path_plain:
  "CHR 0x5C \<notin> set wid \<Longrightarrow> disk_good k \<Longrightarrow> disk_resolve wid k = Inr p \<Longrightarrow> CHR 0x5C \<notin> set p"
  by (erule disk_resolve_cases) (auto simp: disk_good_def overlay_dir_def ws_path_def)

lemma plain_rel: "CHR 0x5C \<notin> set rel \<Longrightarrow> map (\<lambda>ch. if ch = CHR 0x5C then CHR ''/'' else ch) rel = rel"
  by (induction rel) auto

definition below :: "string \<Rightarrow> string \<Rightarrow> disk \<Rightarrow> string list" where
  "below root pre d =
     concat (map (\<lambda>x. case strip_prefix root (fst x) of None \<Rightarrow> [] | Some rel \<Rightarrow> [pre @ rel]) d)"

lemma below_set: "set (below root pre d) = {pre @ rel | rel. root @ rel \<in> fst ` set d}"
proof (induction d)
  case (Cons x d)
  show ?case
  proof (cases "strip_prefix root (fst x)")
    case None
    then have "fst x \<noteq> root @ rel" "root @ rel \<noteq> fst x" for rel unfolding strip_prefix_None_iff by metis+
    with None Cons show ?thesis by (auto simp: below_def)
  next
    case (Some rel)
    then have "fst x = root @ rel" by (simp add: strip_prefix_Some_iff)
    with Some Cons show ?thesis by (auto simp: below_def)
  qed
qed (simp add: below_def)

lemma below_distinct: "distinct (map fst d) \<Longrightarrow> distinct (below root pre d)"
proof (induction d)
  case (Cons x d)
  then show ?case
    using below_set [of root pre d]
    by (cases "strip_prefix root (fst x)") (auto simp: below_def strip_prefix_Some_iff)
qed (simp add: below_def)

lemma list_recursive_below:
  assumes "disk_inv wid d"
  shows "list_recursive root pre d = below root pre d"
  unfolding list_recursive_def below_def
  using assms by (intro arg_cong [of _ _ concat] map_cong)
    (fastforce simp: disk_inv_def plain_rel strip_prefix_Some_iff split: option.split)+

lemma list_recursive_set:
  assumes "disk_inv wid d"
  shows "set (list_recursive root pre d) = {pre @ rel | rel. map_of d (root @ rel) \<noteq> None}"
    and "distinct (list_recursive root pre d)"
  using assms by (simp_all add: list_recursive_below [OF assms] below_set below_distinct disk_inv_def map_of_eq_None_iff)

lemma disk_list_keys:
  assumes "disk_inv wid d" "pre = ''overlay/'' \<or> (\<exists>ver. version_name ver \<and> pre = snapshot_prefix ver)"
  obtains root where "disk_list wid d pre = Inr (list_recursive root pre d)"
    "\<And>rel. disk_resolve wid (pre @ rel) = Inr (root @ rel)" "\<not> starts_with pre ''base/''"
proof (cases "pre = ''overlay/''")
  case True
  with that [of "overlay_dir wid @ ''/''"] show ?thesis
    by (simp add: disk_list_def disk_prefix_root_def disk_resolve_def strip_prefix_def starts_with_def)
next
  case False
  with assms(2) obtain ver where v: "version_name ver" "pre = snapshot_prefix ver" by blast
  have "trim_end_matches (CHR ''/'') (ver @ ''/'') = ver"
    using v(1) unfolding trim_end_matches_def version_name_def by (cases "rev ver") auto
  with v that [of "''.vai/versions/'' @ ver @ ''/snapshot/''"] disk_resolve_simps(3) [OF v(1), of wid] show ?thesis
    by (simp add: snapshot_key_def disk_list_def disk_prefix_root_def snapshot_prefix_def strip_prefix_def starts_with_def version_name_def)
qed

interpretation disk: merge_fs "DiskMergeFs wid" "disk_loc wid" "\<lambda>d. map_of d" disk_good "disk_inv wid"
proof unfold_locales
  fix k k'
  assume "disk_good k" "disk_good k'" "disk_loc wid k = disk_loc wid k'" "disk_loc wid k \<noteq> None"
  then show "k = k'" by (rule disk_loc_inj)
next
  fix d k l c
  assume a: "disk_inv wid d" "disk_good k" "disk_loc wid k = Some l"
  then have r: "disk_resolve wid k = Inr l" by (simp add: disk_loc_def split: sum.splits)
  have "CHR 0x5C \<notin> set l" using disk_path_plain [OF _ a(2) r] a(1) by (simp add: disk_inv_def)
  then have "disk_inv wid (AList.update l c d)"
    using a(1) by (simp add: disk_inv_def distinct_update dom_update)
  with r show "\<exists>s'. mf_write (DiskMergeFs wid) d k c = Inr s' \<and> disk_inv wid s' \<and> map_of s' = (map_of d)(l \<mapsto> c)"
    by (simp add: DiskMergeFs_def disk_write_def update_conv')
next
  fix d k l
  assume a: "disk_inv wid d" "disk_loc wid k = Some l"
  then have r: "disk_resolve wid k = Inr l" by (simp add: disk_loc_def split: sum.splits)
  have "disk_inv wid (AList.delete l d)" using a(1) by (auto simp: disk_inv_def AList.delete_eq distinct_map_filter)
  with a(1) r show "\<exists>s'. mf_delete (DiskMergeFs wid) d k = Inr s' \<and> disk_inv wid s' \<and> map_of s' = (map_of d)(l := None)"
    by (auto simp: DiskMergeFs_def disk_delete_def delete_conv')
next
  fix d pre
  assume a: "disk_inv wid d" "pre = ''overlay/'' \<or> (\<exists>ver. version_name ver \<and> pre = snapshot_prefix ver)"
  obtain root where l: "disk_list wid d pre = Inr (list_recursive root pre d)"
    "\<And>rel. disk_resolve wid (pre @ rel) = Inr (root @ rel)" "\<not> starts_with pre ''base/''"
    by (rule disk_list_keys [OF a]) blast
  have "k \<in> set (list_recursive root pre d) \<longleftrightarrow> starts_with k pre \<and> (\<exists>l c. disk_loc wid k = Some l \<and> map_of d l = Some c)" for k
    unfolding list_recursive_set(1) [OF a(1)] starts_with_iff using l(2) by (auto simp: disk_loc_def)
  moreover have "disk_good k" if "k \<in> set (list_recursive root pre d)" for k
  proof -
    from that obtain rel where k: "k = pre @ rel" "root @ rel \<in> fst ` set d"
      unfolding list_recursive_set(1) [OF a(1)] by (auto simp: map_of_eq_None_iff)
    then have "CHR 0x5C \<notin> set rel" using a(1) by (fastforce simp: disk_inv_def)
    then show ?thesis
      using a(2) k(1) by (auto simp: disk_good_def snapshot_prefix_def version_name_def starts_with_def)
  qed
  ultimately show "\<exists>ks. mf_list (DiskMergeFs wid) d pre = Inr ks \<and> distinct ks \<and>
      (\<forall>k. k \<in> set ks \<longleftrightarrow> starts_with k pre \<and> (\<exists>l c. disk_loc wid k = Some l \<and> map_of d l = Some c)) \<and>
      (\<forall>k\<in>set ks. disk_good k)"
    using l(1) list_recursive_set(2) [OF a(1)] by (simp add: DiskMergeFs_def)
qed (auto simp: disk_loc_def DiskMergeFs_def disk_read_def disk_exists_def split: sum.splits)

section \<open>S3MergeFs\<close>

record 'f S3MergeFs =
  s3_store :: 'f
  s3_repo_id :: uuid
  s3_overlay_prefix :: string
  s3_base_prefix :: string
  s3_read_cache :: "(string \<times> bytes) list"
  s3_pending_writes :: "(string \<times> bytes) list"
  s3_pending_deletes :: "string list"

definition s3_new :: "'f \<Rightarrow> uuid \<Rightarrow> string \<Rightarrow> string \<Rightarrow> 'f S3MergeFs" where
  "s3_new st repo ov base =
     \<lparr>s3_store = st, s3_repo_id = repo, s3_overlay_prefix = ov, s3_base_prefix = base,
      s3_read_cache = [], s3_pending_writes = [], s3_pending_deletes = []\<rparr>"

definition s3_path :: "'f S3MergeFs \<Rightarrow> string \<Rightarrow> (IoError, string) result" where
  "s3_path s key =
     (case strip_prefix ''overlay/'' key of
        Some rel \<Rightarrow> Inr (s3_overlay_prefix s @ rel)
      | None \<Rightarrow>
          (case strip_prefix ''base/'' key of
             Some rel \<Rightarrow> Inr (s3_base_prefix s @ rel)
           | None \<Rightarrow>
               (case strip_prefix ''snapshot/'' key of
                  Some rest \<Rightarrow>
                    (case split_once (CHR ''/'') rest of
                       None \<Rightarrow> Inl (IoInvalidInput (''bad snapshot key: '' @ key))
                     | Some (ver, rel) \<Rightarrow> Inr (''versions/'' @ ver @ ''/snapshot/'' @ rel))
                | None \<Rightarrow> Inl (IoInvalidInput (''unknown MergeFs namespace in key: '' @ key)))))"

definition s3_prefix :: "'f S3MergeFs \<Rightarrow> string \<Rightarrow> (IoError, string \<times> string) result" where
  "s3_prefix s pre =
     (if pre = ''overlay/'' \<or> pre = ''overlay'' then Inr (s3_overlay_prefix s, ''overlay/'')
      else if pre = ''base/'' \<or> pre = ''base'' then Inr (s3_base_prefix s, ''base/'')
      else (case strip_prefix ''snapshot/'' pre of
              Some rest \<Rightarrow>
                (let ver = trim_end_matches (CHR ''/'') rest
                 in if ver = [] then Inl (IoInvalidInput ''snapshot prefix must include a version id'')
                    else Inr (''versions/'' @ ver @ ''/snapshot/'', ''snapshot/'' @ ver @ ''/''))
            | None \<Rightarrow> Inl (IoInvalidInput (''unknown MergeFs namespace in prefix: '' @ pre))))"

definition s3_read :: "'f FileStore \<Rightarrow> 'f S3MergeFs \<Rightarrow> string \<Rightarrow> (IoError, bytes \<times> 'f S3MergeFs) result" where
  "s3_read st s key =
     bind_result (s3_path s key) (\<lambda>p.
       case map_of (s3_pending_writes s) p of
         Some c \<Rightarrow> Inr (c, s)
       | None \<Rightarrow>
           if p \<in> set (s3_pending_deletes s) then Inl (IoNotFound (''deleted: '' @ p))
           else (case map_of (s3_read_cache s) p of
                   Some c \<Rightarrow> Inr (c, s)
                 | None \<Rightarrow>
                     (case fst_get st (s3_store s) (s3_repo_id s) p of
                        Inl e \<Rightarrow> Inl (IoNotFound p)
                      | Inr c \<Rightarrow> Inr (c, s\<lparr>s3_read_cache := AList.update p c (s3_read_cache s)\<rparr>))))"

definition s3_write :: "'f S3MergeFs \<Rightarrow> string \<Rightarrow> bytes \<Rightarrow> (IoError, 'f S3MergeFs) result" where
  "s3_write s key c =
     bind_result (s3_path s key) (\<lambda>p.
       Inr (s\<lparr>s3_pending_deletes := filter (\<lambda>q. q \<noteq> p) (s3_pending_deletes s),
              s3_pending_writes := AList.update p c (s3_pending_writes s)\<rparr>))"

text \<open>The loops that collect the keys: paths that are not deleted, each key once.\<close>

fun s3_collect :: "string \<Rightarrow> string \<Rightarrow> string list \<Rightarrow> string list \<Rightarrow> string list \<Rightarrow> string list" where
  "s3_collect s3p mp dels keys [] = keys"
| "s3_collect s3p mp dels keys (p # ps) =
     (if p \<in> set dels then s3_collect s3p mp dels keys ps
      else (case strip_prefix s3p p of
              None \<Rightarrow> s3_collect s3p mp dels keys ps
            | Some rel \<Rightarrow>
                (let k = mp @ rel
                 in if k \<in> set keys then s3_collect s3p mp dels keys ps
                    else s3_collect s3p mp dels (keys @ [k]) ps)))"

definition s3_list :: "'f FileStore \<Rightarrow> 'f S3MergeFs \<Rightarrow> string \<Rightarrow> (IoError, string list) result" where
  "s3_list st s pre =
     bind_result (s3_prefix s pre) (\<lambda>(s3p, mp).
       let s3_files = (case fst_list st (s3_store s) (s3_repo_id s) s3p of Inr ms \<Rightarrow> map fm_path ms | Inl _ \<Rightarrow> []);
           pending = filter (\<lambda>k. starts_with k s3p) (map fst (s3_pending_writes s));
           keys1 = s3_collect s3p mp (s3_pending_deletes s) [] s3_files;
           keys2 = s3_collect s3p mp (s3_pending_deletes s) keys1 pending
       in Inr (sort keys2))"

definition s3_exists :: "'f FileStore \<Rightarrow> 'f S3MergeFs \<Rightarrow> string \<Rightarrow> (IoError, bool) result" where
  "s3_exists st s key =
     bind_result (s3_path s key) (\<lambda>p.
       if map_of (s3_pending_writes s) p \<noteq> None then Inr True
       else if p \<in> set (s3_pending_deletes s) then Inr False
       else if map_of (s3_read_cache s) p \<noteq> None then Inr True
       else (case fst_exists st (s3_store s) (s3_repo_id s) p of Inr b \<Rightarrow> Inr b | Inl e \<Rightarrow> Inl (IoOther p)))"

definition s3_delete :: "'f S3MergeFs \<Rightarrow> string \<Rightarrow> (IoError, 'f S3MergeFs) result" where
  "s3_delete s key =
     bind_result (s3_path s key) (\<lambda>p.
       Inr (s\<lparr>s3_pending_writes := AList.delete p (s3_pending_writes s),
              s3_read_cache := AList.delete p (s3_read_cache s),
              s3_pending_deletes := (if p \<in> set (s3_pending_deletes s) then s3_pending_deletes s
                                     else s3_pending_deletes s @ [p])\<rparr>))"

fun flush_writes :: "'f FileStore \<Rightarrow> uuid \<Rightarrow> 'f \<Rightarrow> (string \<times> bytes) list \<Rightarrow> (IoError, 'f) result" where
  "flush_writes st r f [] = Inr f"
| "flush_writes st r f ((p, c) # ws) =
     (case fst_put st f r p c of Inl e \<Rightarrow> Inl (IoOther p) | Inr (h, f') \<Rightarrow> flush_writes st r f' ws)"

text \<open>Deletions are best effort: an error leaves the store as it is.\<close>

fun flush_deletes :: "'f FileStore \<Rightarrow> uuid \<Rightarrow> 'f \<Rightarrow> string list \<Rightarrow> 'f" where
  "flush_deletes st r f [] = f"
| "flush_deletes st r f (p # ps) =
     flush_deletes st r (case fst_delete st f r p of Inr f' \<Rightarrow> f' | Inl _ \<Rightarrow> f) ps"

definition s3_flush :: "'f FileStore \<Rightarrow> 'f S3MergeFs \<Rightarrow> (IoError, 'f S3MergeFs) result" where
  "s3_flush st s =
     bind_result (flush_writes st (s3_repo_id s) (s3_store s) (s3_pending_writes s)) (\<lambda>f.
       Inr (s\<lparr>s3_store := flush_deletes st (s3_repo_id s) f (s3_pending_deletes s),
              s3_pending_writes := [], s3_pending_deletes := []\<rparr>))"

definition s3_ops :: "'f FileStore \<Rightarrow> 'f S3MergeFs MergeFs" where
  "s3_ops st = \<lparr>mf_read = s3_read st, mf_write = s3_write, mf_list = s3_list st,
     mf_exists = s3_exists st, mf_delete = s3_delete\<rparr>"

text \<open>The server opens it with \<open>workspaces/{id}/\<close> and \<open>current/\<close> as prefixes.\<close>

definition s3_loc :: "string \<Rightarrow> string \<Rightarrow> string option" where
  "s3_loc wid k =
     (case s3_path (s3_new () 0 (''workspaces/'' @ wid @ ''/'') ''current/'') k of Inr p \<Rightarrow> Some p | Inl _ \<Rightarrow> None)"

definition s3_content :: "('f \<Rightarrow> uuid \<Rightarrow> string \<Rightarrow> bytes option) \<Rightarrow> 'f S3MergeFs \<Rightarrow> string \<Rightarrow> bytes option" where
  "s3_content stored s p =
     (case map_of (s3_pending_writes s) p of
        Some c \<Rightarrow> Some c
      | None \<Rightarrow> if p \<in> set (s3_pending_deletes s) then None else stored (s3_store s) (s3_repo_id s) p)"

definition s3_inv :: "('f \<Rightarrow> uuid \<Rightarrow> string \<Rightarrow> bytes option) \<Rightarrow> ('f \<Rightarrow> bool) \<Rightarrow> string \<Rightarrow> 'f S3MergeFs \<Rightarrow> bool" where
  "s3_inv stored sinv wid s \<longleftrightarrow>
     sinv (s3_store s) \<and> s3_overlay_prefix s = ''workspaces/'' @ wid @ ''/'' \<and> s3_base_prefix s = ''current/'' \<and>
     distinct (map fst (s3_pending_writes s)) \<and>
     (\<forall>p\<in>set (s3_pending_deletes s). map_of (s3_pending_writes s) p = None) \<and>
     (\<forall>p c. map_of (s3_read_cache s) p = Some c \<longrightarrow> stored (s3_store s) (s3_repo_id s) p = Some c)"

lemma s3_path_cong:
  "s3_overlay_prefix s = s3_overlay_prefix t \<Longrightarrow> s3_base_prefix s = s3_base_prefix t \<Longrightarrow> s3_path s k = s3_path t k"
  unfolding s3_path_def by (simp cong: option.case_cong)

lemma s3_path_loc: "s3_inv stored sinv wid s \<Longrightarrow> s3_loc wid k = Some l \<longleftrightarrow> s3_path s k = Inr l"
  using s3_path_cong [of s "s3_new () 0 (''workspaces/'' @ wid @ ''/'') ''current/''" k]
  by (auto simp: s3_loc_def s3_inv_def s3_new_def split: sum.splits)

lemma s3_path_cases:
  assumes "s3_path s k = Inr p"
  obtains rel where "k = ''overlay/'' @ rel" "p = s3_overlay_prefix s @ rel"
  | rel where "k = ''base/'' @ rel" "p = s3_base_prefix s @ rel"
  | ver rel where "CHR ''/'' \<notin> set ver" "k = ''snapshot/'' @ ver @ ''/'' @ rel" "p = ''versions/'' @ ver @ ''/snapshot/'' @ rel"
  using assms unfolding s3_path_def
  by (auto split: option.splits prod.splits simp: strip_prefix_Some_iff dest: split_once_Some)

lemma s3_loc_inj:
  assumes "s3_loc wid k = Some l" "s3_loc wid k' = Some l"
  shows "k = k'"
proof -
  let ?s = "s3_new () 0 (''workspaces/'' @ wid @ ''/'') ''current/''"
  from assms have p: "s3_path ?s k = Inr l" "s3_path ?s k' = Inr l"
    by (auto simp: s3_loc_def split: sum.splits)
  from p(1) show ?thesis
  proof (cases rule: s3_path_cases)
    case (1 rel)
    with p(2) show ?thesis by (cases rule: s3_path_cases) (auto simp: s3_new_def)
  next
    case (2 rel)
    with p(2) show ?thesis by (cases rule: s3_path_cases) (auto simp: s3_new_def)
  next
    case (3 ver rel)
    with p(2) show ?thesis by (cases rule: s3_path_cases) (auto simp: s3_new_def dest: split_unique)
  qed
qed

lemma s3_loc_simps [simp]:
  "s3_loc wid (overlay_key rel) = Some (''workspaces/'' @ wid @ ''/'' @ rel)"
  "s3_loc wid (base_key rel) = Some (''current/'' @ rel)"
  "version_name ver \<Longrightarrow> s3_loc wid (snapshot_key ver rel) = Some (''versions/'' @ ver @ ''/snapshot/'' @ rel)"
  by (simp_all add: s3_loc_def s3_path_def strip_prefix_def key_defs version_name_def s3_new_def)

lemma s3_collect_set:
  "set (s3_collect s3p mp dels keys ps) = set keys \<union> {mp @ rel | rel. s3p @ rel \<in> set ps \<and> s3p @ rel \<notin> set dels}"
proof (induction s3p mp dels keys ps rule: s3_collect.induct)
  case (2 s3p mp dels keys p ps)
  show ?case
  proof (cases "strip_prefix s3p p")
    case None
    then have "s3p @ rel \<noteq> p" for rel unfolding strip_prefix_None_iff by metis
    with 2 None show ?thesis by auto
  next
    case (Some rel)
    then have p: "p = s3p @ rel" by (simp add: strip_prefix_Some_iff)
    show ?thesis
    proof (cases "p \<in> set dels")
      case True
      with 2(1) p show ?thesis by auto
    next
      case False
      with 2(3,4) [OF False Some refl] p show ?thesis by (auto simp: Let_def)
    qed
  qed
qed simp

lemma s3_collect_distinct: "distinct keys \<Longrightarrow> distinct (s3_collect s3p mp dels keys ps)"
  by (induction s3p mp dels keys ps rule: s3_collect.induct) (auto simp: Let_def split: option.split)

lemma s3_list_keys:
  assumes "pre = ''overlay/'' \<or> (\<exists>ver. version_name ver \<and> pre = snapshot_prefix ver)"
    "s3_inv stored sinv wid s"
  obtains s3p where "s3_prefix s pre = Inr (s3p, pre)" "\<And>rel. s3_loc wid (pre @ rel) = Some (s3p @ rel)"
proof (cases "pre = ''overlay/''")
  case True
  with assms(2) that [of "s3_overlay_prefix s"] s3_loc_simps(1) [of wid] show ?thesis
    by (simp add: s3_prefix_def s3_inv_def overlay_key_def)
next
  case False
  with assms(1) obtain ver where v: "version_name ver" "pre = snapshot_prefix ver" by blast
  have "trim_end_matches (CHR ''/'') (ver @ ''/'') = ver"
    using v(1) unfolding trim_end_matches_def version_name_def by (cases "rev ver") auto
  with v that [of "''versions/'' @ ver @ ''/snapshot/''"] s3_loc_simps(3) [OF v(1), of wid] show ?thesis
    by (simp add: snapshot_key_def s3_prefix_def snapshot_prefix_def strip_prefix_def version_name_def)
qed

context file_store
begin

lemma s3_read_law:
  assumes "s3_inv stored sinv wid s" "s3_loc wid k = Some l" "s3_content stored s l = Some c"
  shows "\<exists>s'. mf_read (s3_ops ops) s k = Inr (c, s') \<and> s3_inv stored sinv wid s' \<and> s3_content stored s' = s3_content stored s"
proof -
  have p: "s3_path s k = Inr l" using assms(1,2) by (simp add: s3_path_loc)
  have coh: "map_of (s3_read_cache s) l = Some c' \<Longrightarrow> stored (s3_store s) (s3_repo_id s) l = Some c'" for c'
    using assms(1) by (simp add: s3_inv_def)
  let ?s = "s\<lparr>s3_read_cache := AList.update l c (s3_read_cache s)\<rparr>"
  show ?thesis
  proof (cases "map_of (s3_pending_writes s) l \<noteq> None \<or> map_of (s3_read_cache s) l \<noteq> None")
    case True
    with assms p coh show ?thesis
      by (intro exI [of _ s]) (auto simp: s3_ops_def s3_read_def s3_content_def split: option.splits if_splits)
  next
    case False
    with assms(3) have st: "stored (s3_store s) (s3_repo_id s) l = Some c" "l \<notin> set (s3_pending_deletes s)"
      by (auto simp: s3_content_def split: if_splits)
    then have "fst_get ops (s3_store s) (s3_repo_id s) l = Inr c"
      using get_ok assms(1) by (simp add: s3_inv_def)
    with False p st have "mf_read (s3_ops ops) s k = Inr (c, ?s)" by (simp add: s3_ops_def s3_read_def)
    moreover have "s3_inv stored sinv wid ?s" using assms(1) st(1) by (simp add: s3_inv_def update_conv')
    moreover have "s3_content stored ?s = s3_content stored s"
      by (simp add: s3_content_def fun_eq_iff split: option.split)
    ultimately show ?thesis by blast
  qed
qed

lemma s3_read_missing:
  assumes "s3_inv stored sinv wid s" "s3_loc wid k = Some l" "s3_content stored s l = None"
  shows "\<exists>e. mf_read (s3_ops ops) s k = Inl e"
proof -
  have p: "s3_path s k = Inr l" using assms(1,2) by (simp add: s3_path_loc)
  show ?thesis
  proof (cases "l \<in> set (s3_pending_deletes s)")
    case True
    with p assms(3) show ?thesis by (simp add: s3_ops_def s3_read_def s3_content_def split: option.splits)
  next
    case False
    with assms(3) have n: "map_of (s3_pending_writes s) l = None" "stored (s3_store s) (s3_repo_id s) l = None"
      by (auto simp: s3_content_def split: option.splits)
    then have "map_of (s3_read_cache s) l = None" using assms(1) by (cases "map_of (s3_read_cache s) l") (auto simp: s3_inv_def)
    with False p n get_err [of "s3_store s" "s3_repo_id s" l] assms(1) show ?thesis
      by (auto simp: s3_ops_def s3_read_def s3_inv_def)
  qed
qed

lemma s3_exists_law:
  assumes "s3_inv stored sinv wid s" "s3_loc wid k = Some l"
  shows "mf_exists (s3_ops ops) s k = Inr (s3_content stored s l \<noteq> None)"
proof -
  have p: "s3_path s k = Inr l" using assms by (simp add: s3_path_loc)
  have "map_of (s3_read_cache s) l \<noteq> None \<Longrightarrow> stored (s3_store s) (s3_repo_id s) l \<noteq> None"
    using assms(1) by (auto simp: s3_inv_def)
  moreover have "fst_exists ops (s3_store s) (s3_repo_id s) l = Inr (stored (s3_store s) (s3_repo_id s) l \<noteq> None)"
    using assms(1) by (simp add: s3_inv_def exists_ok)
  ultimately show ?thesis using p
    by (cases "map_of (s3_pending_writes s) l") (auto simp: s3_ops_def s3_exists_def s3_content_def)
qed

lemma s3_list_law:
  assumes "s3_inv stored sinv wid s" "pre = ''overlay/'' \<or> (\<exists>ver. version_name ver \<and> pre = snapshot_prefix ver)"
  shows "\<exists>ks. mf_list (s3_ops ops) s pre = Inr ks \<and> distinct ks \<and>
    (\<forall>k. k \<in> set ks \<longleftrightarrow> starts_with k pre \<and> (\<exists>l c. s3_loc wid k = Some l \<and> s3_content stored s l = Some c))"
proof -
  obtain s3p where pre: "s3_prefix s pre = Inr (s3p, pre)" "\<And>rel. s3_loc wid (pre @ rel) = Some (s3p @ rel)"
    by (rule s3_list_keys [OF assms(2,1)]) blast
  have si: "sinv (s3_store s)" using assms(1) by (simp add: s3_inv_def)
  obtain ms where ms: "fst_list ops (s3_store s) (s3_repo_id s) s3p = Inr ms"
    "fm_path ` set ms = {p. starts_with p s3p \<and> stored (s3_store s) (s3_repo_id s) p \<noteq> None}"
    using list_ok [OF si] by blast
  let ?pend = "filter (\<lambda>k. starts_with k s3p) (map fst (s3_pending_writes s))"
  let ?ks = "s3_collect s3p pre (s3_pending_deletes s) (s3_collect s3p pre (s3_pending_deletes s) [] (map fm_path ms)) ?pend"
  have live: "(s3p @ rel \<in> fm_path ` set ms \<and> s3p @ rel \<notin> set (s3_pending_deletes s)) \<or>
      (s3p @ rel \<in> set ?pend \<and> s3p @ rel \<notin> set (s3_pending_deletes s)) \<longleftrightarrow>
      s3_content stored s (s3p @ rel) \<noteq> None" for rel
  proof -
    have "q \<in> fst ` set (s3_pending_writes s) \<longleftrightarrow> map_of (s3_pending_writes s) q \<noteq> None" for q
      by (simp add: map_of_eq_None_iff)
    moreover have "\<forall>p\<in>set (s3_pending_deletes s). map_of (s3_pending_writes s) p = None"
      using assms(1) by (simp add: s3_inv_def)
    ultimately show ?thesis
      unfolding ms(2) s3_content_def by (cases "map_of (s3_pending_writes s) (s3p @ rel)") (auto simp: starts_with_def)
  qed
  have "set ?ks = {pre @ rel | rel. s3_content stored s (s3p @ rel) \<noteq> None}"
    unfolding s3_collect_set set_map by (simp only: live [symmetric]) auto
  then have "k \<in> set ?ks \<longleftrightarrow> starts_with k pre \<and> (\<exists>l c. s3_loc wid k = Some l \<and> s3_content stored s l = Some c)" for k
    unfolding starts_with_iff using pre(2) by auto
  moreover have "mf_list (s3_ops ops) s pre = Inr (sort ?ks)"
    using pre(1) ms(1) by (simp add: s3_ops_def s3_list_def)
  moreover have "distinct (sort ?ks)" by (simp add: s3_collect_distinct)
  ultimately show ?thesis by (intro exI [of _ "sort ?ks"]) (simp del: sorted_sort)
qed

end

sublocale file_store \<subseteq> s3: merge_fs "s3_ops ops" "s3_loc wid" "s3_content stored" "\<lambda>_. True" "s3_inv stored sinv wid" for wid
proof unfold_locales
  fix k k'
  assume "s3_loc wid k = s3_loc wid k'" "s3_loc wid k \<noteq> None"
  then obtain l where "s3_loc wid k = Some l" "s3_loc wid k' = Some l" by (cases "s3_loc wid k'") auto
  then show "k = k'" by (rule s3_loc_inj)
next
  fix s k l c
  assume a: "s3_inv stored sinv wid s" "s3_loc wid k = Some l"
  then have "mf_write (s3_ops ops) s k c = Inr (s\<lparr>s3_pending_deletes := filter (\<lambda>q. q \<noteq> l) (s3_pending_deletes s),
      s3_pending_writes := AList.update l c (s3_pending_writes s)\<rparr>)"
    by (simp add: s3_path_loc s3_ops_def s3_write_def)
  then show "\<exists>s'. mf_write (s3_ops ops) s k c = Inr s' \<and> s3_inv stored sinv wid s' \<and> s3_content stored s' = (s3_content stored s)(l \<mapsto> c)"
    using a(1) by (simp add: s3_inv_def s3_content_def fun_eq_iff update_conv' distinct_update split: option.split)
next
  fix s k l
  assume a: "s3_inv stored sinv wid s" "s3_loc wid k = Some l"
  then have "mf_delete (s3_ops ops) s k = Inr (s\<lparr>s3_pending_writes := AList.delete l (s3_pending_writes s),
      s3_read_cache := AList.delete l (s3_read_cache s),
      s3_pending_deletes := (if l \<in> set (s3_pending_deletes s) then s3_pending_deletes s else s3_pending_deletes s @ [l])\<rparr>)"
    by (simp add: s3_path_loc s3_ops_def s3_delete_def)
  then show "\<exists>s'. mf_delete (s3_ops ops) s k = Inr s' \<and> s3_inv stored sinv wid s' \<and> s3_content stored s' = (s3_content stored s)(l := None)"
    using a(1) by (auto simp: s3_inv_def s3_content_def fun_eq_iff delete_conv' distinct_delete split: if_splits option.split)
next
  fix s pre
  assume "s3_inv stored sinv wid s" "pre = ''overlay/'' \<or> (\<exists>ver. version_name ver \<and> pre = snapshot_prefix ver)"
  from s3_list_law [OF this] show "\<exists>ks. mf_list (s3_ops ops) s pre = Inr ks \<and> distinct ks \<and>
      (\<forall>k. k \<in> set ks \<longleftrightarrow> starts_with k pre \<and> (\<exists>l c. s3_loc wid k = Some l \<and> s3_content stored s l = Some c)) \<and>
      (\<forall>k\<in>set ks. True)" by simp
qed (auto simp: s3_read_law s3_read_missing s3_exists_law)

context file_store
begin

lemma flush_writes_ok:
  "sinv f \<Longrightarrow> distinct (map fst ws) \<Longrightarrow>
   \<exists>f'. flush_writes ops r f ws = Inr f' \<and> sinv f' \<and>
     stored f' r = (\<lambda>p. case map_of ws p of Some c \<Rightarrow> Some c | None \<Rightarrow> stored f r p)"
proof (induction ws arbitrary: f)
  case (Cons w ws)
  obtain p c where w: "w = (p, c)" by fastforce
  obtain h f1 where f1: "fst_put ops f r p c = Inr (h, f1)" "sinv f1" "stored f1 r = (stored f r)(p \<mapsto> c)"
    using put_ok [OF Cons.prems(1)] by blast
  obtain f2 where f2: "flush_writes ops r f1 ws = Inr f2" "sinv f2"
    "stored f2 r = (\<lambda>p. case map_of ws p of Some c \<Rightarrow> Some c | None \<Rightarrow> stored f1 r p)"
    using Cons.IH [OF f1(2)] Cons.prems(2) by auto
  have "map_of ws p = None" using Cons.prems(2) w by (simp add: map_of_eq_None_iff)
  then have "stored f2 r = (\<lambda>q. case map_of (w # ws) q of Some c \<Rightarrow> Some c | None \<Rightarrow> stored f r q)"
    using f2(3) f1(3) w by (auto simp: fun_eq_iff split: option.split)
  with f1(1) f2 w show ?case by simp
qed simp

lemma flush_deletes_ok:
  "sinv f \<Longrightarrow> sinv (flush_deletes ops r f ps) \<and>
   stored (flush_deletes ops r f ps) r = (\<lambda>p. if p \<in> set ps then None else stored f r p)"
proof (induction ps arbitrary: f)
  case (Cons p ps)
  obtain f1 where f1: "fst_delete ops f r p = Inr f1" "sinv f1" "stored f1 r = (stored f r)(p := None)"
    using delete_ok [OF Cons.prems] by blast
  from Cons.IH [OF f1(2)] f1 show ?case by (auto simp: fun_eq_iff)
qed simp

lemma s3_flush_ok:
  assumes "s3_inv stored sinv wid s"
  shows "\<exists>s'. s3_flush ops s = Inr s' \<and> sinv (s3_store s') \<and> s3_repo_id s' = s3_repo_id s \<and>
    stored (s3_store s') (s3_repo_id s) = s3_content stored s \<and>
    s3_pending_writes s' = [] \<and> s3_pending_deletes s' = []"
proof -
  let ?r = "s3_repo_id s"
  have i: "sinv (s3_store s)" "distinct (map fst (s3_pending_writes s))"
    "\<forall>p\<in>set (s3_pending_deletes s). map_of (s3_pending_writes s) p = None"
    using assms by (simp_all add: s3_inv_def)
  obtain f where f: "flush_writes ops ?r (s3_store s) (s3_pending_writes s) = Inr f" "sinv f"
    "stored f ?r = (\<lambda>p. case map_of (s3_pending_writes s) p of Some c \<Rightarrow> Some c | None \<Rightarrow> stored (s3_store s) ?r p)"
    using flush_writes_ok [OF i(1,2)] by blast
  have "stored (flush_deletes ops ?r f (s3_pending_deletes s)) ?r = s3_content stored s"
    using flush_deletes_ok [OF f(2), of ?r "s3_pending_deletes s"] f(3) i(3)
    by (auto simp: s3_content_def fun_eq_iff split: option.split)
  with f(1) flush_deletes_ok [OF f(2)] show ?thesis by (simp add: s3_flush_def)
qed

end

section \<open>Properties\<close>

text \<open>DiskMergeFs implements the contract of the file abstraction: reads return what was last
  written to the resolved path, writes and deletions change only that path, and listings return
  every existing key of the overlay or of a version snapshot exactly once.\<close>

theorem disk_implements_merge_fs:
  "merge_fs (DiskMergeFs wid) (disk_loc wid) (\<lambda>d. map_of d) disk_good (disk_inv wid)"
  by (rule disk.merge_fs_axioms)

text \<open>C9: S3MergeFs over the in-memory object store implements the same contract: the buffered
  writes, the staged deletions, the read cache and the store together behave like one file map,
  until the buffer is flushed.\<close>

theorem s3_implements_merge_fs:
  "merge_fs (s3_ops (MemFileStore sha now)) (s3_loc wid) (s3_content (\<lambda>m r. map_of m)) (\<lambda>_. True)
     (s3_inv (\<lambda>m r. map_of m) (\<lambda>m. distinct (map fst m)) wid)"
  by (rule mem.s3.merge_fs_axioms)

text \<open>Flushing S3MergeFs succeeds, leaves no pending write or deletion, and the object store
  then holds exactly the content that reads returned before the flush.\<close>

theorem s3_flush_materialises:
  assumes "s3_inv (\<lambda>m r. map_of m) (\<lambda>m. distinct (map fst m)) wid s"
  shows "\<exists>s'. s3_flush (MemFileStore sha now) s = Inr s' \<and>
    map_of (s3_store s') = s3_content (\<lambda>m r. map_of m) s \<and>
    s3_pending_writes s' = [] \<and> s3_pending_deletes s' = []"
  using mem.s3_flush_ok [OF assms] by auto

theorem s3_flush_materialises_witness:
  "\<exists>s'. s3_flush (MemFileStore (\<lambda>_. ''h'') 0)
     \<lparr>s3_store = [(''current/a'', ''x'')], s3_repo_id = 1, s3_overlay_prefix = ''workspaces/7/'', s3_base_prefix = ''current/'',
      s3_read_cache = [(''current/a'', ''x'')], s3_pending_writes = [(''current/b'', ''y'')], s3_pending_deletes = [''current/a'']\<rparr> = Inr s' \<and>
     map_of (s3_store s') ''current/a'' = None \<and> map_of (s3_store s') ''current/b'' = Some ''y''"
proof -
  let ?s = "\<lparr>s3_store = [(''current/a'', ''x'')], s3_repo_id = 1, s3_overlay_prefix = ''workspaces/7/'', s3_base_prefix = ''current/'',
    s3_read_cache = [(''current/a'', ''x'')], s3_pending_writes = [(''current/b'', ''y'')], s3_pending_deletes = [''current/a'']\<rparr>"
  have i: "s3_inv (\<lambda>m r. map_of m) (\<lambda>m. distinct (map fst m)) ''7'' ?s" by (simp add: s3_inv_def)
  have "s3_content (\<lambda>m r. map_of m) ?s ''current/a'' = None" "s3_content (\<lambda>m r. map_of m) ?s ''current/b'' = Some ''y''"
    by (simp_all add: s3_content_def)
  with s3_flush_materialises [OF i, of "\<lambda>_. ''h''" 0] show ?thesis by metis
qed

text \<open>The read cache is not invalidated by a write or by a flush: after reading a file, writing
  it and flushing, the object store holds the new content and a further read of the same
  S3MergeFs returns the old one.\<close>

theorem s3_stale_read_after_flush:
  "(case s3_read (MemFileStore sha now) (s3_new [(''current/a'', ''old'')] r ''workspaces/7/'' ''current/'') (base_key ''a'') of
      Inr (c1, s1) \<Rightarrow> (case s3_write s1 (base_key ''a'') ''new'' of
        Inr s2 \<Rightarrow> (case s3_flush (MemFileStore sha now) s2 of
          Inr s3 \<Rightarrow> map_of (s3_store s3) ''current/a'' = Some ''new'' \<and>
            map_option fst (case s3_read (MemFileStore sha now) s3 (base_key ''a'') of Inr x \<Rightarrow> Some x | Inl _ \<Rightarrow> None) = Some ''old''
        | Inl _ \<Rightarrow> False) | Inl _ \<Rightarrow> False) | Inl _ \<Rightarrow> False)"
  by (simp add: s3_read_def s3_write_def s3_flush_def s3_path_def s3_new_def base_key_def strip_prefix_def
      MemFileStore_def mem_get_def mem_put_def)

end
