(* ===== verification/Version.thy ===== *)
theory Version
  imports MergeFs
begin

text \<open>
  Version history (\<open>src/version/mod.rs\<close>): the metadata files \<open>versions/<id>.toml\<close>, the change
  summary of a version replayed from the event log, the impact analysis and the rollback.

  The directory record gains \<open>version_files\<close>, the \<open>*.toml\<close> files of \<open>.vai/versions\<close> by name
  without extension; the pre-change snapshots below \<open>.vai/versions/<id>/snapshot\<close> are files of
  \<open>disk\<close>. The TOML codec of \<open>VersionMeta\<close> is a parameter.
\<close>

datatype VersionError = VeIo | VeTomlSer | VeTomlDe | VeNotFound string | VeEventLog EventLogError

record VersionMeta =
  vm_id :: "uuid option"
  vm_version_id :: string
  vm_parent_version_id :: "string option"
  vm_intent :: string
  vm_created_by :: string
  vm_created_at :: time
  vm_merge_event_id :: "nat option"

record ver_dir = vai_dir +
  version_files :: "(string \<times> string) list"

record ver_env = ws_env +
  ver_to_toml :: "VersionMeta \<Rightarrow> string"
  ver_from_toml :: "string \<Rightarrow> VersionMeta option"

definition parse_version_number :: "string \<Rightarrow> nat" where
  "parse_version_number vid =
     (case strip_prefix ''v'' vid of
        None \<Rightarrow> 0
      | Some s \<Rightarrow> (case parse_u64 s of Some n \<Rightarrow> n | None \<Rightarrow> 0))"

definition create_version ::
  "('a) ver_env_scheme \<Rightarrow> ('b) ver_dir_scheme \<Rightarrow> string \<Rightarrow> string option \<Rightarrow> string \<Rightarrow> string \<Rightarrow> nat option \<Rightarrow> time \<Rightarrow>
   (VersionError, VersionMeta \<times> ('b) ver_dir_scheme) result" where
  "create_version env vai vid parent intent created_by merge_event now =
     (let meta = \<lparr>vm_id = None, vm_version_id = vid, vm_parent_version_id = parent, vm_intent = intent,
                  vm_created_by = created_by, vm_created_at = now, vm_merge_event_id = merge_event\<rparr>
      in Inr (meta, vai\<lparr>version_files := AList.update vid (ver_to_toml env meta) (version_files vai)\<rparr>))"

fun read_versions :: "('a) ver_env_scheme \<Rightarrow> (string \<times> string) list \<Rightarrow> (VersionError, VersionMeta list) result" where
  "read_versions env [] = Inr []"
| "read_versions env ((n, c) # fs) =
     (case ver_from_toml env c of
        None \<Rightarrow> Inl VeTomlDe
      | Some m \<Rightarrow> bind_result (read_versions env fs) (\<lambda>ms. Inr (m # ms)))"

definition list_versions ::
  "('a) ver_env_scheme \<Rightarrow> ('b) ver_dir_scheme \<Rightarrow> (VersionError, VersionMeta list) result" where
  "list_versions env vai =
     bind_result (read_versions env (version_files vai)) (\<lambda>ms.
       Inr (sort_key (\<lambda>m. parse_version_number (vm_version_id m)) ms))"

definition get_version ::
  "('a) ver_env_scheme \<Rightarrow> ('b) ver_dir_scheme \<Rightarrow> string \<Rightarrow> (VersionError, VersionMeta) result" where
  "get_version env vai vid =
     (case map_of (version_files vai) vid of
        None \<Rightarrow> Inl (VeNotFound vid)
      | Some c \<Rightarrow> (case ver_from_toml env c of None \<Rightarrow> Inl VeTomlDe | Some m \<Rightarrow> Inr m))"

definition version_id_of :: "nat \<Rightarrow> string" where
  "version_id_of n = ''v'' @ nat_to_string n"

definition next_version_id ::
  "('a) ver_env_scheme \<Rightarrow> ('b) ver_dir_scheme \<Rightarrow> (VersionError, string) result" where
  "next_version_id env vai =
     bind_result (list_versions env vai) (\<lambda>vs.
       let mx = fold max (map (\<lambda>v. parse_version_number (vm_version_id v)) vs) 0
       in Inr (version_id_of ((mx + 1) mod 2 ^ 64)))"

section \<open>Change summaries\<close>

datatype VersionChangeType = VcAdded | VcModified | VcRemoved

fun sigil :: "VersionChangeType \<Rightarrow> string" where
  "sigil VcAdded = ''+''"
| "sigil VcModified = ''~''"
| "sigil VcRemoved = ''-''"

fun change_label :: "VersionChangeType \<Rightarrow> string" where
  "change_label VcAdded = ''added''"
| "change_label VcModified = ''modified''"
| "change_label VcRemoved = ''removed''"

record VersionEntityChange =
  vec_entity_id :: string
  vec_change_type :: VersionChangeType
  vec_kind :: "string option"
  vec_qualified_name :: "string option"
  vec_file_path :: "string option"
  vec_change_description :: "string option"

datatype VersionFileChangeType = VfAdded | VfModified | VfRemoved

record VersionFileChange =
  vfc_path :: string
  vfc_change_type :: VersionFileChangeType
  vfc_hash :: "string option"

record VersionChanges =
  vch_version :: VersionMeta
  vch_entity_changes :: "VersionEntityChange list"
  vch_file_changes :: "VersionFileChange list"

datatype RiskLevel = RiskLow | RiskMedium | RiskHigh

record ImpactItem =
  im_version_id :: string
  im_intent :: string
  im_overlapping_entities :: "string list"
  im_overlapping_files :: "string list"
  im_risk :: RiskLevel

record ImpactAnalysis =
  ia_target_version :: VersionMeta
  ia_target_changes :: VersionChanges
  ia_downstream_impacts :: "ImpactItem list"

record RollbackResult =
  rb_new_version :: VersionMeta
  rb_files_restored :: nat
  rb_files_deleted :: nat

text \<open>One iteration of the loop over the events of the workspace; a later event of a path wins.\<close>

fun apply_event ::
  "EventKind \<Rightarrow> VersionEntityChange list \<times> (string \<times> VersionFileChange) list \<Rightarrow>
   VersionEntityChange list \<times> (string \<times> VersionFileChange) list" where
  "apply_event (EntityAdded _ e) (ecs, fm) =
     (ecs @ [\<lparr>vec_entity_id = es_id e, vec_change_type = VcAdded, vec_kind = Some (es_kind e),
              vec_qualified_name = Some (es_qualified_name e), vec_file_path = Some (es_file_path e),
              vec_change_description = None\<rparr>], fm)"
| "apply_event (EntityModified _ i d) (ecs, fm) =
     (ecs @ [\<lparr>vec_entity_id = i, vec_change_type = VcModified, vec_kind = None, vec_qualified_name = None,
              vec_file_path = None, vec_change_description = Some d\<rparr>], fm)"
| "apply_event (EntityRemoved _ i) (ecs, fm) =
     (ecs @ [\<lparr>vec_entity_id = i, vec_change_type = VcRemoved, vec_kind = None, vec_qualified_name = None,
              vec_file_path = None, vec_change_description = None\<rparr>], fm)"
| "apply_event (FileAdded _ p h) (ecs, fm) =
     (ecs, AList.update p \<lparr>vfc_path = p, vfc_change_type = VfAdded, vfc_hash = Some h\<rparr> fm)"
| "apply_event (FileModified _ p _ h) (ecs, fm) =
     (ecs, AList.update p \<lparr>vfc_path = p, vfc_change_type = VfModified, vfc_hash = Some h\<rparr> fm)"
| "apply_event (FileRemoved _ p) (ecs, fm) =
     (ecs, AList.update p \<lparr>vfc_path = p, vfc_change_type = VfRemoved, vfc_hash = None\<rparr> fm)"
| "apply_event _ acc = acc"

definition changes_of_events :: "Event list \<Rightarrow> VersionEntityChange list \<times> VersionFileChange list" where
  "changes_of_events es =
     (let (ecs, fm) = fold (\<lambda>e. apply_event (ev_kind e)) es ([], [])
      in (ecs, sort_key vfc_path (map snd fm)))"

definition get_version_changes ::
  "('a) ver_env_scheme \<Rightarrow> ('b) ver_dir_scheme \<Rightarrow> string \<Rightarrow> (VersionError, VersionChanges) result" where
  "get_version_changes env vai vid =
     bind_result (get_version env vai vid) (\<lambda>version.
       let none = \<lparr>vch_version = version, vch_entity_changes = [], vch_file_changes = []\<rparr>
       in case vm_merge_event_id version of
            None \<Rightarrow> Inr none
          | Some mid \<Rightarrow>
              bind_result (map_err VeEventLog (get_by_id env (elog vai) mid)) (\<lambda>ev.
              case Option.bind ev (\<lambda>e. kind_workspace_id (ev_kind e)) of
                None \<Rightarrow> Inr none
              | Some w \<Rightarrow>
                  bind_result (map_err VeEventLog (query_by_workspace env (elog vai) w)) (\<lambda>events.
                  let (ecs, fcs) = changes_of_events events
                  in Inr \<lparr>vch_version = version, vch_entity_changes = ecs, vch_file_changes = fcs\<rparr>)))"

fun versions_diff_loop ::
  "('a) ver_env_scheme \<Rightarrow> ('b) ver_dir_scheme \<Rightarrow> nat \<Rightarrow> nat \<Rightarrow> VersionMeta list \<Rightarrow> (VersionError, VersionChanges list) result" where
  "versions_diff_loop env vai a b [] = Inr []"
| "versions_diff_loop env vai a b (v # vs) =
     (let n = parse_version_number (vm_version_id v)
      in if a < n \<and> n \<le> b
         then bind_result (get_version_changes env vai (vm_version_id v)) (\<lambda>c.
              bind_result (versions_diff_loop env vai a b vs) (\<lambda>cs. Inr (c # cs)))
         else versions_diff_loop env vai a b vs)"

definition get_versions_diff ::
  "('a) ver_env_scheme \<Rightarrow> ('b) ver_dir_scheme \<Rightarrow> string \<Rightarrow> string \<Rightarrow> (VersionError, VersionChanges list) result" where
  "get_versions_diff env vai va vb =
     (let a = parse_version_number va; b = parse_version_number vb
      in if b \<le> a then Inr []
         else bind_result (list_versions env vai) (\<lambda>vs. versions_diff_loop env vai a b vs))"

section \<open>Impact analysis\<close>

definition impact_item :: "string set \<Rightarrow> string set \<Rightarrow> VersionMeta \<Rightarrow> VersionChanges \<Rightarrow> ImpactItem option" where
  "impact_item tids tpaths v changes =
     (let ents = map (\<lambda>ec. case vec_qualified_name ec of Some q \<Rightarrow> q | None \<Rightarrow> vec_entity_id ec)
                   (filter (\<lambda>ec. vec_entity_id ec \<in> tids) (vch_entity_changes changes));
          files = map vfc_path (filter (\<lambda>fc. vfc_path fc \<in> tpaths) (vch_file_changes changes))
      in if ents = [] \<and> files = [] then None
         else Some \<lparr>im_version_id = vm_version_id v, im_intent = vm_intent v, im_overlapping_entities = ents,
                    im_overlapping_files = files, im_risk = (if ents \<noteq> [] then RiskHigh else RiskLow)\<rparr>)"

fun impact_loop ::
  "('a) ver_env_scheme \<Rightarrow> ('b) ver_dir_scheme \<Rightarrow> nat \<Rightarrow> string set \<Rightarrow> string set \<Rightarrow> VersionMeta list \<Rightarrow>
   (VersionError, ImpactItem list) result" where
  "impact_loop env vai tnum tids tpaths [] = Inr []"
| "impact_loop env vai tnum tids tpaths (v # vs) =
     (if parse_version_number (vm_version_id v) \<le> tnum then impact_loop env vai tnum tids tpaths vs
      else bind_result (get_version_changes env vai (vm_version_id v)) (\<lambda>changes.
           bind_result (impact_loop env vai tnum tids tpaths vs) (\<lambda>items.
           Inr (case impact_item tids tpaths v changes of None \<Rightarrow> items | Some it \<Rightarrow> it # items))))"

definition analyze_rollback_impact ::
  "('a) ver_env_scheme \<Rightarrow> ('b) ver_dir_scheme \<Rightarrow> string \<Rightarrow> (VersionError, ImpactAnalysis) result" where
  "analyze_rollback_impact env vai vid =
     bind_result (get_version_changes env vai vid) (\<lambda>target.
       let tids = vec_entity_id ` set (vch_entity_changes target);
           tpaths = vfc_path ` set (vch_file_changes target)
       in bind_result (list_versions env vai) (\<lambda>vs.
          bind_result (impact_loop env vai (parse_version_number vid) tids tpaths vs) (\<lambda>items.
          Inr \<lparr>ia_target_version = vch_version target, ia_target_changes = target, ia_downstream_impacts = items\<rparr>)))"

section \<open>Rollback\<close>

definition contains_str :: "string \<Rightarrow> string \<Rightarrow> bool" where
  "contains_str s sub \<longleftrightarrow> list_ex (\<lambda>n. starts_with (drop n s) sub) [0..<Suc (length s)]"

definition filtered_files :: "VersionChanges \<Rightarrow> string option \<Rightarrow> string set option" where
  "filtered_files target entity_filter =
     map_option (\<lambda>name.
       set (List.map_filter vec_file_path
         (filter (\<lambda>ec. vec_qualified_name ec = Some name \<or> contains_str (vec_entity_id ec) name)
           (vch_entity_changes target)))) entity_filter"

definition snapshot_path :: "string \<Rightarrow> string \<Rightarrow> string" where
  "snapshot_path vid p = ''.vai/versions/'' @ vid @ ''/snapshot/'' @ p"

text \<open>One iteration over the file changes; the counters are restored and deleted files.\<close>

definition rollback_file :: "string \<Rightarrow> string set option \<Rightarrow> VersionFileChange \<Rightarrow> disk \<times> nat \<times> nat \<Rightarrow> disk \<times> nat \<times> nat" where
  "rollback_file vid allowed fc st =
     (case st of (d, restored, deleted) \<Rightarrow>
        if (case allowed of Some a \<Rightarrow> vfc_path fc \<notin> a | None \<Rightarrow> False) then (d, restored, deleted)
        else (case vfc_change_type fc of
                VfAdded \<Rightarrow>
                  if map_of d (vfc_path fc) \<noteq> None then (AList.delete (vfc_path fc) d, restored, deleted + 1)
                  else (d, restored, deleted)
              | _ \<Rightarrow>
                  (case map_of d (snapshot_path vid (vfc_path fc)) of
                     Some c \<Rightarrow> (AList.update (vfc_path fc) c d, restored + 1, deleted)
                   | None \<Rightarrow> (d, restored, deleted))))"

definition rollback ::
  "('a) ver_env_scheme \<Rightarrow> ('b) ver_dir_scheme \<times> disk \<Rightarrow> string \<Rightarrow> string option \<Rightarrow> time \<Rightarrow>
   (VersionError, RollbackResult \<times> ('b) ver_dir_scheme \<times> disk) result" where
  "rollback env st vid entity_filter now =
     (case st of (vai, d) \<Rightarrow>
        bind_result (get_version_changes env vai vid) (\<lambda>target.
        let allowed = filtered_files target entity_filter;
            (d', restored, deleted) = fold (rollback_file vid allowed) (vch_file_changes target) (d, 0, 0)
        in bind_result (case head_file vai of None \<Rightarrow> Inl VeIo | Some h \<Rightarrow> Inr (trim h)) (\<lambda>head.
           bind_result (next_version_id env vai) (\<lambda>new_id.
           bind_result (map_err VeEventLog (vai_append env vai now (RollbackCreated vid new_id entity_filter))) (\<lambda>(e1, vai1).
           bind_result (map_err VeEventLog (vai_append env vai1 now (VersionCreated new_id (Some head) (''rollback '' @ vid)))) (\<lambda>(e2, vai2).
           bind_result (create_version env vai2 new_id (Some head) (''rollback '' @ vid) ''agent'' None now) (\<lambda>(meta, vai3).
           Inr (\<lparr>rb_new_version = meta, rb_files_restored = restored, rb_files_deleted = deleted\<rparr>,
                vai3\<lparr>head_file := Some (new_id @ [CHR 0x0A])\<rparr>, d'))))))))"

section \<open>Well-formed histories\<close>

definition ver_ok :: "('a) ver_env_scheme \<Rightarrow> bool" where
  "ver_ok env \<longleftrightarrow> (\<forall>m. ver_from_toml env (ver_to_toml env m) = Some m)"

text \<open>Every file parses, its name is the version it describes, and there is room for a next number.\<close>

definition wf_versions :: "('a) ver_env_scheme \<Rightarrow> (string \<times> string) list \<Rightarrow> bool" where
  "wf_versions env fs \<longleftrightarrow> ver_ok env \<and> distinct (map fst fs) \<and>
     (\<forall>(n, c)\<in>set fs. \<exists>m. ver_from_toml env c = Some m \<and> vm_version_id m = n \<and> parse_version_number n < 2 ^ 64 - 1)"

definition ver_view :: "('a) ver_env_scheme \<Rightarrow> ('b) ver_dir_scheme \<Rightarrow> string \<Rightarrow> VersionMeta option" where
  "ver_view env vai n = (case get_version env vai n of Inr m \<Rightarrow> Some m | Inl _ \<Rightarrow> None)"

lemma wf_versions_read:
  "wf_versions env fs \<Longrightarrow> map_of fs n = Some c \<Longrightarrow> \<exists>m. ver_from_toml env c = Some m \<and> vm_version_id m = n"
  unfolding wf_versions_def by (blast dest: map_of_SomeD)

lemma get_version_view:
  "wf_versions env (version_files vai) \<Longrightarrow>
   get_version env vai n = (case ver_view env vai n of Some m \<Rightarrow> Inr m | None \<Rightarrow> Inl (VeNotFound n))"
  using wf_versions_read [of env "version_files vai" n]
  by (fastforce simp: ver_view_def get_version_def split: option.splits)

lemma read_versions_ok:
  assumes "wf_versions env fs"
  obtains ms where "read_versions env fs = Inr ms" "map vm_version_id ms = map fst fs"
    "\<forall>m. m \<in> set ms \<longleftrightarrow> (\<exists>n c. (n, c) \<in> set fs \<and> ver_from_toml env c = Some m)"
proof -
  have "\<exists>ms. read_versions env gs = Inr ms \<and> map vm_version_id ms = map fst gs \<and>
      (\<forall>m. m \<in> set ms \<longleftrightarrow> (\<exists>n c. (n, c) \<in> set gs \<and> ver_from_toml env c = Some m))"
    if "set gs \<subseteq> set fs" for gs
    using that
  proof (induction gs)
    case (Cons g gs)
    obtain n c where g: "g = (n, c)" by fastforce
    with Cons.prems assms obtain m where m: "ver_from_toml env c = Some m" "vm_version_id m = n"
      unfolding wf_versions_def by fastforce
    from Cons obtain ms where "read_versions env gs = Inr ms" "map vm_version_id ms = map fst gs"
      "\<forall>m. m \<in> set ms \<longleftrightarrow> (\<exists>n c. (n, c) \<in> set gs \<and> ver_from_toml env c = Some m)" by auto
    with g m show ?case by (intro exI [of _ "m # ms"]) auto
  qed simp
  from this [OF subset_refl] that show ?thesis by blast
qed

lemma ver_view_Some:
  "ver_view env vai n = Some m \<longleftrightarrow> (\<exists>c. map_of (version_files vai) n = Some c \<and> ver_from_toml env c = Some m)"
  by (auto simp: ver_view_def get_version_def split: option.splits)

lemma list_versions_ok:
  assumes "wf_versions env (version_files vai)"
  obtains ms where "list_versions env vai = Inr ms" "distinct (map vm_version_id ms)"
    "set ms = {m. \<exists>n. ver_view env vai n = Some m}"
    "sorted (map (\<lambda>m. parse_version_number (vm_version_id m)) ms)"
proof -
  obtain ms where ms: "read_versions env (version_files vai) = Inr ms" "map vm_version_id ms = map fst (version_files vai)"
    "\<forall>m. m \<in> set ms \<longleftrightarrow> (\<exists>n c. (n, c) \<in> set (version_files vai) \<and> ver_from_toml env c = Some m)"
    by (rule read_versions_ok [OF assms])
  let ?ms = "sort_key (\<lambda>m. parse_version_number (vm_version_id m)) ms"
  have d: "distinct (map fst (version_files vai))" using assms by (simp add: wf_versions_def)
  have "mset (map vm_version_id ?ms) = mset (map vm_version_id ms)" by simp
  from mset_eq_imp_distinct_iff [OF this] have "distinct (map vm_version_id ?ms)" using ms(2) d by simp
  moreover have "set ?ms = {m. \<exists>n. ver_view env vai n = Some m}"
    using ms(3) by (auto simp: ver_view_Some map_of_eq_Some_iff [OF d])
  moreover have "list_versions env vai = Inr ?ms" using ms(1) by (simp add: list_versions_def)
  ultimately show ?thesis using that by simp
qed

lemma parse_version_id_of [simp]: "n < 2 ^ 64 \<Longrightarrow> parse_version_number (version_id_of n) = n"
  unfolding parse_version_number_def version_id_of_def strip_prefix_append by simp

lemma next_version_id_ok:
  assumes "wf_versions env (version_files vai)"
  obtains n where "next_version_id env vai = Inr (version_id_of n)" "0 < n" "n < 2 ^ 64"
    "\<And>m v. ver_view env vai m = Some v \<Longrightarrow> parse_version_number m < n" "version_id_of n \<notin> fst ` set (version_files vai)"
proof -
  obtain ms where ms: "list_versions env vai = Inr ms" "set ms = {m. \<exists>n. ver_view env vai n = Some m}"
    by (rule list_versions_ok [OF assms])
  define mx where "mx = fold max (map (\<lambda>v. parse_version_number (vm_version_id v)) ms) 0"
  have name: "vm_version_id v = m \<and> parse_version_number m < 2 ^ 64 - 1" if "ver_view env vai m = Some v" for m v
    using that assms unfolding wf_versions_def ver_view_def get_version_def
    by (fastforce split: option.splits sum.splits dest: map_of_SomeD)
  have mx: "parse_version_number m \<le> mx" if "ver_view env vai m = Some v" for m v
  proof -
    have "parse_version_number (vm_version_id v) \<in> set (map (\<lambda>v. parse_version_number (vm_version_id v)) ms)"
      using that ms(2) by auto
    from fold_max_upper [OF this] name [OF that] show ?thesis by (simp add: mx_def)
  qed
  have "fold max xs a \<in> insert a (set xs)" for xs and a :: nat
    by (induction xs arbitrary: a) (auto simp: max_def split: if_splits)
  from this [of "map (\<lambda>v. parse_version_number (vm_version_id v)) ms" 0]
  have small: "mx < 2 ^ 64 - 1" using name ms(2) by (fastforce simp: mx_def)
  have "next_version_id env vai = Inr (version_id_of (mx + 1))"
    using ms(1) small by (simp add: next_version_id_def mx_def [symmetric])
  moreover have "version_id_of (mx + 1) \<notin> fst ` set (version_files vai)"
  proof
    assume "version_id_of (mx + 1) \<in> fst ` set (version_files vai)"
    then obtain v where "ver_view env vai (version_id_of (mx + 1)) = Some v"
      using assms unfolding wf_versions_def by (fastforce simp: ver_view_def get_version_def)
    from mx [OF this] small show False by simp
  qed
  ultimately show ?thesis using that [of "mx + 1"] mx small by fastforce
qed

lemma ver_view_create:
  assumes "ver_ok env"
  obtains meta vai' where "create_version env vai vid parent intent by now_ev t = Inr (meta, vai')"
    "vm_version_id meta = vid" "vm_parent_version_id meta = parent" "vm_intent meta = intent" "vm_merge_event_id meta = now_ev"
    "vai' = vai\<lparr>version_files := AList.update vid (ver_to_toml env meta) (version_files vai)\<rparr>"
    "ver_view env vai' = (ver_view env vai)(vid \<mapsto> meta)"
proof -
  let ?m = "\<lparr>vm_id = None, vm_version_id = vid, vm_parent_version_id = parent, vm_intent = intent,
    vm_created_by = by, vm_created_at = t, vm_merge_event_id = now_ev\<rparr>"
  let ?v = "vai\<lparr>version_files := AList.update vid (ver_to_toml env ?m) (version_files vai)\<rparr>"
  have "ver_view env ?v = (ver_view env vai)(vid \<mapsto> ?m)"
    using assms by (auto simp: ver_view_def get_version_def update_conv' ver_ok_def fun_eq_iff)
  then show ?thesis using that [of ?m ?v] by (simp add: create_version_def Let_def)
qed

lemma wf_versions_update:
  assumes "wf_versions env fs" "vm_version_id m = n" "parse_version_number n < 2 ^ 64 - 1"
  shows "wf_versions env (AList.update n (ver_to_toml env m) fs)"
proof -
  have ok: "ver_ok env" "distinct (map fst fs)" using assms(1) by (simp_all add: wf_versions_def)
  have "(k, c) \<in> set (AList.update n (ver_to_toml env m) fs) \<Longrightarrow> (k, c) \<in> set fs \<or> (k = n \<and> c = ver_to_toml env m)" for k c
    using ok(2) by (metis distinct_update map_of_eq_Some_iff map_of_is_SomeI map_upd_Some_unfold update_conv')
  then show ?thesis using assms ok unfolding wf_versions_def ver_ok_def by (fastforce simp: distinct_update)
qed

section \<open>Rolling files back\<close>

text \<open>What the rollback makes of one path: specification.\<close>

definition rolled_back :: "string \<Rightarrow> disk \<Rightarrow> VersionFileChangeType \<Rightarrow> string \<Rightarrow> bytes option" where
  "rolled_back vid d ty p =
     (case ty of
        VfAdded \<Rightarrow> None
      | _ \<Rightarrow> (case map_of d (snapshot_path vid p) of Some c \<Rightarrow> Some c | None \<Rightarrow> map_of d p))"

lemma rollback_file_step:
  assumes "rollback_file vid None fc (d, r, k) = (d', r', k')" "\<not> starts_with (vfc_path fc) ''.vai/''"
  shows "map_of d' = (map_of d)(vfc_path fc := rolled_back vid d (vfc_change_type fc) (vfc_path fc))"
    and "map_of d' (snapshot_path vid p) = map_of d (snapshot_path vid p)"
proof -
  have ne: "vfc_path fc \<noteq> snapshot_path vid p" for p
    using assms(2) by (auto simp: snapshot_path_def starts_with_def)
  show m: "map_of d' = (map_of d)(vfc_path fc := rolled_back vid d (vfc_change_type fc) (vfc_path fc))"
    using assms(1) by (auto simp: rollback_file_def rolled_back_def delete_conv' update_conv' fun_eq_iff
        split: VersionFileChangeType.splits option.splits if_splits)
  show "map_of d' (snapshot_path vid p) = map_of d (snapshot_path vid p)"
    unfolding m using ne [of p] by simp
qed

lemma rollback_files:
  assumes "distinct (map vfc_path fcs)" "\<forall>fc\<in>set fcs. \<not> starts_with (vfc_path fc) ''.vai/''"
  shows "map_of (fst (fold (rollback_file vid None) fcs (d, r, k))) p =
    (case find (\<lambda>fc. vfc_path fc = p) fcs of
       Some fc \<Rightarrow> rolled_back vid d (vfc_change_type fc) p
     | None \<Rightarrow> map_of d p)"
  using assms
proof (induction fcs arbitrary: d r k)
  case (Cons fc fcs)
  obtain d' r' k' where s: "rollback_file vid None fc (d, r, k) = (d', r', k')" by (metis prod_cases3)
  note st = rollback_file_step [OF s]
  have nv: "\<not> starts_with (vfc_path fc) ''.vai/''" using Cons.prems by simp
  have same: "rolled_back vid d' ty q = rolled_back vid d ty q" if "q \<noteq> vfc_path fc" for ty q
  proof -
    have "map_of d' q = map_of d q" using that st(1) [OF nv] by simp
    then show ?thesis using st(2) [OF nv, of q] by (simp add: rolled_back_def split: VersionFileChangeType.split option.split)
  qed
  have IH: "map_of (fst (fold (rollback_file vid None) fcs (d', r', k'))) p =
      (case find (\<lambda>fc. vfc_path fc = p) fcs of Some fc \<Rightarrow> rolled_back vid d' (vfc_change_type fc) p | None \<Rightarrow> map_of d' p)"
    using Cons.prems by (intro Cons.IH) auto
  show ?case
  proof (cases "vfc_path fc = p")
    case True
    then have "find (\<lambda>fc. vfc_path fc = p) fcs = None" using Cons.prems(1) by (simp add: find_None_iff) (metis image_eqI)
    with IH s True st(1) [OF nv] show ?thesis by simp
  next
    case False
    with IH s st(1) [OF nv] same show ?thesis by (auto split: option.split)
  qed
qed simp

text \<open>The file changes of a version name each path once.\<close>

definition keyed :: "(string \<times> VersionFileChange) list \<Rightarrow> bool" where
  "keyed fm \<longleftrightarrow> distinct (map fst fm) \<and> (\<forall>p fc. map_of fm p = Some fc \<longrightarrow> vfc_path fc = p)"

lemma keyed_update: "keyed fm \<Longrightarrow> vfc_path fc = p \<Longrightarrow> keyed (AList.update p fc fm)"
  by (simp add: keyed_def distinct_update update_conv')

lemma apply_event_keys: "keyed fm \<Longrightarrow> keyed (snd (apply_event k (ecs, fm)))"
  by (cases k) (simp_all add: keyed_update)

lemma fold_apply_event_keys:
  "keyed (snd acc) \<Longrightarrow> keyed (snd (fold (\<lambda>e. apply_event (ev_kind e)) es acc))"
proof (induction es arbitrary: acc)
  case (Cons e es)
  from apply_event_keys [OF Cons.prems, of "ev_kind e" "fst acc"]
  have "keyed (snd (apply_event (ev_kind e) acc))" by simp
  from Cons.IH [OF this] show ?case by simp
qed simp

lemma mset_map_sort: "mset (map f (sort_key g xs)) = mset (map f xs)"
  by simp

lemma changes_paths_distinct: "distinct (map vfc_path (snd (changes_of_events es)))"
proof -
  obtain ecs fm where f: "fold (\<lambda>e. apply_event (ev_kind e)) es ([], []) = (ecs, fm)" by fastforce
  have k: "keyed fm" using fold_apply_event_keys [of "([], [])" es] f by (simp add: keyed_def)
  have "map vfc_path (map snd fm) = map fst fm"
    using k by (auto simp: keyed_def)
  then have "distinct (map vfc_path (map snd fm))" using k unfolding keyed_def by (simp only:)
  then have "distinct (map vfc_path (sort_key vfc_path (map snd fm)))"
    using mset_eq_imp_distinct_iff [OF mset_map_sort] by blast
  then show ?thesis using f by (simp add: changes_of_events_def)
qed

lemma version_changes_distinct:
  assumes "get_version_changes env vai vid = Inr target"
  shows "distinct (map vfc_path (vch_file_changes target))"
proof -
  have "vch_file_changes target = [] \<or> (\<exists>es. vch_file_changes target = snd (changes_of_events es))"
    using assms by (auto simp: get_version_changes_def bind_result_Inr_iff Let_def case_prod_beta split: option.splits) blast
  then show ?thesis using changes_paths_distinct by auto
qed

section \<open>A concrete environment\<close>

definition e_ver :: "VersionMeta enc" where
  "e_ver m = e_opt e_nat (vm_id m) @ e_str (vm_version_id m) @ e_opt e_str (vm_parent_version_id m) @ e_str (vm_intent m) @
     e_str (vm_created_by m) @ e_nat (vm_created_at m) @ e_opt e_nat (vm_merge_event_id m)"
definition d_ver :: "VersionMeta dec" where
  "d_ver = d_app (d6 VersionMeta.make (d_opt d_nat) d_str (d_opt d_str) d_str d_str d_nat) (d_opt d_nat)"

lemma wires_ver [simp]: "wires e_ver d_ver"
  unfolding wires_def by (simp add: e_ver_def d_ver_def d_chain VersionMeta.defs)

definition sample_ver_env :: ver_env where
  "sample_ver_env = \<lparr>ev_to_json = to_text e_event, ev_from_json = from_text d_event,
     to_rfc3339 = nat_to_string, uuid_to_string = nat_to_string,
     meta_to_toml = to_text e_meta, meta_from_toml = from_text d_meta,
     ver_to_toml = to_text e_ver, ver_from_toml = from_text d_ver\<rparr>"

lemma sample_ver_ok [simp]: "json_ok sample_ver_env" "meta_ok sample_ver_env" "uuid_ok sample_ver_env" "ver_ok sample_ver_env"
  by (auto intro: json_ok_text meta_ok_text uuid_ok_decimal simp: sample_ver_env_def ver_ok_def from_to_text)

definition sample_version :: VersionMeta where
  "sample_version = \<lparr>vm_id = None, vm_version_id = ''v1'', vm_parent_version_id = None, vm_intent = ''initial repository'',
     vm_created_by = ''agent'', vm_created_at = 0, vm_merge_event_id = None\<rparr>"

definition sample_repo :: ver_dir where
  "sample_repo = \<lparr>head_file = Some ''v1\<newline>'', active_file = None, ws_dirs = [], elog = elog_empty,
     version_files = [(''v1'', ver_to_toml sample_ver_env sample_version)]\<rparr>"

lemma version_id_1: "version_id_of 1 = ''v1''"
  by code_simp

lemma parse_v1: "parse_version_number ''v1'' = 1"
  using parse_version_id_of [of 1] unfolding version_id_1 by simp

lemma sample_repo_ok [simp]:
  "wf_vai sample_ver_env sample_repo" "wf_versions sample_ver_env (version_files sample_repo)"
proof -
  have "ver_from_toml sample_ver_env (ver_to_toml sample_ver_env sample_version) = Some sample_version"
    using sample_ver_ok(4) by (simp add: ver_ok_def)
  then show "wf_versions sample_ver_env (version_files sample_repo)"
    by (simp add: wf_versions_def sample_repo_def parse_v1) (simp add: sample_version_def)
qed (simp add: wf_vai_def sample_repo_def wf_dirs_def wf_log_empty)

section \<open>Properties\<close>

text \<open>The next version identifier is \<open>v<n>\<close> with a number larger than that of every existing
  version, compared numerically, and no version of that name exists.\<close>

theorem next_version_id_fresh:
  assumes "wf_versions env (version_files vai)"
  shows "\<exists>n. next_version_id env vai = Inr (version_id_of n) \<and> 0 < n \<and>
    get_version env vai (version_id_of n) = Inl (VeNotFound (version_id_of n)) \<and>
    (\<forall>m v. get_version env vai m = Inr v \<longrightarrow> parse_version_number m < n)"
proof -
  obtain n where n: "next_version_id env vai = Inr (version_id_of n)" "0 < n"
    "\<And>m v. ver_view env vai m = Some v \<Longrightarrow> parse_version_number m < n" "version_id_of n \<notin> fst ` set (version_files vai)"
    by (rule next_version_id_ok [OF assms]) blast
  then have "get_version env vai (version_id_of n) = Inl (VeNotFound (version_id_of n))"
    by (simp add: get_version_def) (metis map_of_eq_None_iff option.simps(4))
  with n show ?thesis by (intro exI [of _ n]) (simp add: ver_view_def)
qed

theorem next_version_id_fresh_witness:
  "wf_versions sample_ver_env (version_files sample_repo) \<and>
   (\<exists>n. next_version_id sample_ver_env sample_repo = Inr (version_id_of n) \<and> 0 < n)"
  using next_version_id_fresh [OF sample_repo_ok(2)] sample_repo_ok(2) by blast

text \<open>A created version can be read back with the data it was created with, no other version
  changes, and the listing then holds every version exactly once in numeric order.\<close>

theorem create_version_roundtrip:
  assumes "wf_versions env (version_files vai)" "parse_version_number vid < 2 ^ 64 - 1"
  shows "\<exists>meta vai' ms. create_version env vai vid parent intent by ev now = Inr (meta, vai') \<and>
    get_version env vai' vid = Inr meta \<and> vm_parent_version_id meta = parent \<and> vm_intent meta = intent \<and>
    ver_view env vai' = (ver_view env vai)(vid \<mapsto> meta) \<and>
    list_versions env vai' = Inr ms \<and> set ms = {m. \<exists>n. ver_view env vai' n = Some m} \<and>
    distinct (map vm_version_id ms) \<and> sorted (map (\<lambda>m. parse_version_number (vm_version_id m)) ms)"
proof -
  have ok: "ver_ok env" using assms(1) by (simp add: wf_versions_def)
  obtain meta vai' where c: "create_version env vai vid parent intent by ev now = Inr (meta, vai')"
    "vm_version_id meta = vid" "vm_parent_version_id meta = parent" "vm_intent meta = intent" "vm_merge_event_id meta = ev"
    "vai' = vai\<lparr>version_files := AList.update vid (ver_to_toml env meta) (version_files vai)\<rparr>"
    "ver_view env vai' = (ver_view env vai)(vid \<mapsto> meta)"
    by (rule ver_view_create [OF ok])
  have wf: "wf_versions env (version_files vai')" using wf_versions_update [OF assms(1) c(2) assms(2)] c(6) by simp
  obtain ms where "list_versions env vai' = Inr ms" "distinct (map vm_version_id ms)"
    "set ms = {m. \<exists>n. ver_view env vai' n = Some m}"
    "sorted (map (\<lambda>m. parse_version_number (vm_version_id m)) ms)"
    by (rule list_versions_ok [OF wf])
  moreover have "get_version env vai' vid = Inr meta" using get_version_view [OF wf] c(7) by simp
  ultimately show ?thesis using c by blast
qed

theorem create_version_roundtrip_witness:
  "\<exists>meta vai'. create_version sample_ver_env sample_repo ''v1'' None ''again'' ''agent'' None 3 = Inr (meta, vai') \<and>
     get_version sample_ver_env vai' ''v1'' = Inr meta"
  using create_version_roundtrip [OF sample_repo_ok(2), of "''v1''" None "''again''" "''agent''" None 3] parse_v1
  by auto



end
