(* ===== verification/Graph.thy ===== *)
theory Graph
  imports Vai_Prelude
begin

text \<open>
  The semantic graph (\<open>src/graph/mod.rs\<close>): entities, relationships, and the snapshot database
  with its queries, incremental update and breadth-first search. The two tables are lists of
  rows with their primary keys; a query without \<open>ORDER BY\<close> returns the rows in table order.
  The language front ends (\<open>parse_source_file\<close>, modelled in \<open>Extract\<close>) and SHA-256 are parameters here.
\<close>

section \<open>Entities and relationships\<close>

datatype GraphError = GSqlite | GIo | GLanguage string | GParse string

datatype EntityKind =
    KFunction | KMethod | KStruct | KEnum | KTrait | KImpl | KModule | KUseStatement
  | KClass | KInterface | KTypeAlias | KComponent | KHook | KExportStatement

fun kind_as_str :: "EntityKind \<Rightarrow> string" where
  "kind_as_str KFunction = ''function''"
| "kind_as_str KMethod = ''method''"
| "kind_as_str KStruct = ''struct''"
| "kind_as_str KEnum = ''enum''"
| "kind_as_str KTrait = ''trait''"
| "kind_as_str KImpl = ''impl''"
| "kind_as_str KModule = ''module''"
| "kind_as_str KUseStatement = ''use_statement''"
| "kind_as_str KClass = ''class''"
| "kind_as_str KInterface = ''interface''"
| "kind_as_str KTypeAlias = ''type_alias''"
| "kind_as_str KComponent = ''component''"
| "kind_as_str KHook = ''hook''"
| "kind_as_str KExportStatement = ''export_statement''"

definition kind_from_str :: "string \<Rightarrow> EntityKind option" where
  "kind_from_str s =
     (if s = ''function'' then Some KFunction
      else if s = ''method'' then Some KMethod
      else if s = ''struct'' then Some KStruct
      else if s = ''enum'' then Some KEnum
      else if s = ''trait'' then Some KTrait
      else if s = ''impl'' then Some KImpl
      else if s = ''module'' then Some KModule
      else if s = ''use_statement'' then Some KUseStatement
      else if s = ''class'' then Some KClass
      else if s = ''interface'' then Some KInterface
      else if s = ''type_alias'' then Some KTypeAlias
      else if s = ''component'' then Some KComponent
      else if s = ''hook'' then Some KHook
      else if s = ''export_statement'' then Some KExportStatement
      else None)"

record Entity =
  en_id :: string
  en_kind :: EntityKind
  en_name :: string
  en_qualified_name :: string
  en_file_path :: string
  en_byte_range :: "nat \<times> nat"
  en_line_range :: "nat \<times> nat"
  en_parent_entity :: "string option"

definition compute_id :: "(bytes \<Rightarrow> string) \<Rightarrow> string \<Rightarrow> string \<Rightarrow> string" where
  "compute_id sha file_path qualified_name = sha (file_path @ ''::'' @ qualified_name)"

datatype RelationshipKind = RContains | RImports | RCalls | RImplements | RExtends

fun rel_as_str :: "RelationshipKind \<Rightarrow> string" where
  "rel_as_str RContains = ''contains''"
| "rel_as_str RImports = ''imports''"
| "rel_as_str RCalls = ''calls''"
| "rel_as_str RImplements = ''implements''"
| "rel_as_str RExtends = ''extends''"

definition rel_from_str :: "string \<Rightarrow> RelationshipKind option" where
  "rel_from_str s =
     (if s = ''contains'' then Some RContains
      else if s = ''imports'' then Some RImports
      else if s = ''calls'' then Some RCalls
      else if s = ''implements'' then Some RImplements
      else if s = ''extends'' then Some RExtends
      else None)"

record Relationship =
  rl_id :: string
  rl_kind :: RelationshipKind
  rl_from_entity :: string
  rl_to_entity :: string

definition rel_new :: "(bytes \<Rightarrow> string) \<Rightarrow> RelationshipKind \<Rightarrow> string \<Rightarrow> string \<Rightarrow> Relationship" where
  "rel_new sha k a b =
     \<lparr>rl_id = sha (rel_as_str k @ ''::'' @ a @ ''::'' @ b), rl_kind = k, rl_from_entity = a, rl_to_entity = b\<rparr>"

record GraphStats =
  gs_entity_count :: nat
  gs_by_kind :: "(string \<times> nat) list"
  gs_relationship_count :: nat
  gs_file_count :: nat

record ParseStats =
  ps_entities_found :: nat
  ps_relationships_found :: nat

section \<open>The snapshot database\<close>

record entity_row =
  er_id :: string
  er_kind :: string
  er_name :: string
  er_qualified_name :: string
  er_file_path :: string
  er_byte_start :: nat
  er_byte_end :: nat
  er_line_start :: nat
  er_line_end :: nat
  er_parent_entity :: "string option"

record rel_row =
  rr_id :: string
  rr_kind :: string
  rr_from :: string
  rr_to :: string

record graph_db =
  entities_tbl :: "entity_row list"
  rels_tbl :: "rel_row list"

definition graph_empty :: graph_db where
  "graph_empty = \<lparr>entities_tbl = [], rels_tbl = []\<rparr>"

definition entity_to_row :: "Entity \<Rightarrow> entity_row" where
  "entity_to_row e =
     \<lparr>er_id = en_id e, er_kind = kind_as_str (en_kind e), er_name = en_name e,
      er_qualified_name = en_qualified_name e, er_file_path = en_file_path e,
      er_byte_start = fst (en_byte_range e), er_byte_end = snd (en_byte_range e),
      er_line_start = fst (en_line_range e), er_line_end = snd (en_line_range e),
      er_parent_entity = en_parent_entity e\<rparr>"

definition row_to_entity :: "entity_row \<Rightarrow> Entity" where
  "row_to_entity r =
     \<lparr>en_id = er_id r, en_kind = (case kind_from_str (er_kind r) of Some k \<Rightarrow> k | None \<Rightarrow> KFunction),
      en_name = er_name r, en_qualified_name = er_qualified_name r, en_file_path = er_file_path r,
      en_byte_range = (er_byte_start r, er_byte_end r), en_line_range = (er_line_start r, er_line_end r),
      en_parent_entity = er_parent_entity r\<rparr>"

definition rel_to_row :: "Relationship \<Rightarrow> rel_row" where
  "rel_to_row r =
     \<lparr>rr_id = rl_id r, rr_kind = rel_as_str (rl_kind r), rr_from = rl_from_entity r, rr_to = rl_to_entity r\<rparr>"

definition row_to_relationship :: "rel_row \<Rightarrow> Relationship" where
  "row_to_relationship r =
     \<lparr>rl_id = rr_id r, rl_kind = (case rel_from_str (rr_kind r) of Some k \<Rightarrow> k | None \<Rightarrow> RContains),
      rl_from_entity = rr_from r, rl_to_entity = rr_to r\<rparr>"

text \<open>\<open>INSERT OR REPLACE\<close>: a row with the same primary key goes first.\<close>

definition upsert_entity :: "graph_db \<Rightarrow> Entity \<Rightarrow> graph_db" where
  "upsert_entity g e =
     g\<lparr>entities_tbl := filter (\<lambda>r. er_id r \<noteq> en_id e) (entities_tbl g) @ [entity_to_row e]\<rparr>"

definition upsert_relationship :: "graph_db \<Rightarrow> Relationship \<Rightarrow> graph_db" where
  "upsert_relationship g r =
     g\<lparr>rels_tbl := filter (\<lambda>x. rr_id x \<noteq> rl_id r) (rels_tbl g) @ [rel_to_row r]\<rparr>"

definition get_entity_ids_for_file :: "graph_db \<Rightarrow> string \<Rightarrow> string list" where
  "get_entity_ids_for_file g f = map er_id (filter (\<lambda>r. er_file_path r = f) (entities_tbl g))"

definition delete_rels_of :: "string \<Rightarrow> graph_db \<Rightarrow> graph_db" where
  "delete_rels_of i g = g\<lparr>rels_tbl := filter (\<lambda>r. \<not> (rr_from r = i \<or> rr_to r = i)) (rels_tbl g)\<rparr>"

definition remove_file :: "graph_db \<Rightarrow> string \<Rightarrow> graph_db" where
  "remove_file g f =
     (let g' = fold delete_rels_of (get_entity_ids_for_file g f) g
      in g'\<lparr>entities_tbl := filter (\<lambda>r. er_file_path r \<noteq> f) (entities_tbl g')\<rparr>)"

text \<open>
  The removal happens before the file is parsed, so that the database changes even when the
  parser fails: the state is returned in both cases.
\<close>

definition update_file ::
  "(string \<Rightarrow> bytes \<Rightarrow> (GraphError, Entity list \<times> Relationship list) result) \<Rightarrow> graph_db \<Rightarrow> string \<Rightarrow> bytes \<Rightarrow>
   (GraphError, ParseStats) result \<times> graph_db" where
  "update_file parse_source_file g f source =
     (let g1 = remove_file g f
      in case parse_source_file f source of
           Inl e \<Rightarrow> (Inl e, g1)
         | Inr (entities, rels) \<Rightarrow>
             (Inr \<lparr>ps_entities_found = length entities, ps_relationships_found = length rels\<rparr>,
              fold (\<lambda>r g. upsert_relationship g r) rels (fold (\<lambda>e g. upsert_entity g e) entities g1)))"

section \<open>Queries\<close>

text \<open>\<open>ORDER BY file_path, line_start\<close> and \<open>ORDER BY file_path, byte_start\<close>.\<close>

definition order_by_line :: "entity_row list \<Rightarrow> entity_row list" where
  "order_by_line rs = sort_key er_file_path (sort_key er_line_start rs)"

definition order_by_byte :: "entity_row list \<Rightarrow> entity_row list" where
  "order_by_byte rs = sort_key er_file_path (sort_key er_byte_start rs)"

text \<open>The SQL operator \<open>LIKE\<close> on ASCII text: case-insensitive, \<open>%\<close> any sequence, \<open>_\<close> one character.\<close>

definition ascii_lower :: "char \<Rightarrow> char" where
  "ascii_lower c = (let n = of_char c :: nat in if 65 \<le> n \<and> n \<le> 90 then char_of (n + 32) else c)"

definition to_lowercase :: "string \<Rightarrow> string" where
  "to_lowercase s = map ascii_lower s"

function sql_like :: "string \<Rightarrow> string \<Rightarrow> bool" where
  "sql_like [] s = (s = [])"
| "sql_like (p # ps) s =
     (if p = CHR ''%'' then sql_like ps s \<or> (if s = [] then False else sql_like (p # ps) (tl s))
      else (case s of [] \<Rightarrow> False | c # cs \<Rightarrow> (p = CHR ''_'' \<or> ascii_lower p = ascii_lower c) \<and> sql_like ps cs))"
  by pat_completeness auto
termination
  by (relation "measure (\<lambda>(p, s). length p + length s)") (auto simp: neq_Nil_conv)

definition contains_pattern :: "string \<Rightarrow> string" where
  "contains_pattern p = ''%'' @ p @ ''%''"

definition get_entity_by_id :: "graph_db \<Rightarrow> string \<Rightarrow> Entity option" where
  "get_entity_by_id g i =
     (case filter (\<lambda>r. er_id r = i) (entities_tbl g) of [] \<Rightarrow> None | r # _ \<Rightarrow> Some (row_to_entity r))"

definition get_entities_by_name :: "graph_db \<Rightarrow> string \<Rightarrow> Entity list" where
  "get_entities_by_name g n =
     map row_to_entity (order_by_line (filter (\<lambda>r. er_name r = n) (entities_tbl g)))"

definition search_entities_by_name :: "graph_db \<Rightarrow> string \<Rightarrow> Entity list" where
  "search_entities_by_name g p =
     map row_to_entity (order_by_line (filter (\<lambda>r. sql_like (contains_pattern p) (er_name r)) (entities_tbl g)))"

definition search_entities_broad :: "graph_db \<Rightarrow> string \<Rightarrow> Entity list" where
  "search_entities_broad g t =
     (let like = contains_pattern (to_lowercase t)
      in map row_to_entity (order_by_line (filter
           (\<lambda>r. sql_like like (to_lowercase (er_name r)) \<or> sql_like like (to_lowercase (er_qualified_name r)) \<or>
                sql_like like (to_lowercase (er_file_path r))) (entities_tbl g))))"

definition get_entities_in_file :: "graph_db \<Rightarrow> string \<Rightarrow> Entity list" where
  "get_entities_in_file g f =
     map row_to_entity (sort_key er_byte_start (filter (\<lambda>r. er_file_path r = f) (entities_tbl g)))"

definition get_relationships_for_entity :: "graph_db \<Rightarrow> string \<Rightarrow> Relationship list" where
  "get_relationships_for_entity g i =
     map row_to_relationship (filter (\<lambda>r. rr_from r = i \<or> rr_to r = i) (rels_tbl g))"

definition get_outgoing_relationships :: "graph_db \<Rightarrow> string \<Rightarrow> Relationship list" where
  "get_outgoing_relationships g i = map row_to_relationship (filter (\<lambda>r. rr_from r = i) (rels_tbl g))"

definition get_incoming_relationships :: "graph_db \<Rightarrow> string \<Rightarrow> Relationship list" where
  "get_incoming_relationships g i = map row_to_relationship (filter (\<lambda>r. rr_to r = i) (rels_tbl g))"

text \<open>\<open>GROUP BY kind\<close>: one entry per kind that occurs.\<close>

definition graph_stats :: "graph_db \<Rightarrow> GraphStats" where
  "graph_stats g =
     \<lparr>gs_entity_count = length (entities_tbl g),
      gs_by_kind = map (\<lambda>k. (k, length (filter (\<lambda>r. er_kind r = k) (entities_tbl g)))) (remdups (map er_kind (entities_tbl g))),
      gs_relationship_count = length (rels_tbl g),
      gs_file_count = length (remdups (map er_file_path (entities_tbl g)))\<rparr>"

definition all_entities :: "graph_db \<Rightarrow> Entity list" where
  "all_entities g = map row_to_entity (order_by_byte (entities_tbl g))"

definition filter_entities :: "graph_db \<Rightarrow> string option \<Rightarrow> string option \<Rightarrow> string option \<Rightarrow> Entity list" where
  "filter_entities g kind file name =
     map row_to_entity (order_by_line (filter
       (\<lambda>r. (case kind of Some k \<Rightarrow> er_kind r = k | None \<Rightarrow> True) \<and>
            (case file of Some f \<Rightarrow> er_file_path r = f | None \<Rightarrow> True) \<and>
            (case name of Some n \<Rightarrow> sql_like (contains_pattern n) (er_name r) | None \<Rightarrow> True)) (entities_tbl g)))"

definition get_entities_by_ids :: "graph_db \<Rightarrow> string list \<Rightarrow> Entity list" where
  "get_entities_by_ids g ids =
     (if ids = [] then []
      else map row_to_entity (order_by_line (filter (\<lambda>r. er_id r \<in> set ids) (entities_tbl g))))"

section \<open>Reachability\<close>

definition nb_of :: "string \<Rightarrow> Relationship \<Rightarrow> string" where
  "nb_of i r = (if rl_from_entity r = i then rl_to_entity r else rl_from_entity r)"

text \<open>The inner loop over the relationships of the entity that left the queue.\<close>

fun visit_rels ::
  "string \<Rightarrow> nat \<Rightarrow> Relationship list \<Rightarrow> string list \<Rightarrow> (string \<times> nat) list \<Rightarrow> string list \<times> (string \<times> nat) list" where
  "visit_rels i hops [] visited queue = (visited, queue)"
| "visit_rels i hops (r # rs) visited queue =
     (let nb = nb_of i r
      in if nb \<in> set visited then visit_rels i hops rs visited queue
         else visit_rels i hops rs (visited @ [nb]) (queue @ [(nb, hops + 1)]))"

definition endpoints :: "graph_db \<Rightarrow> string set" where
  "endpoints g = rr_from ` set (rels_tbl g) \<union> rr_to ` set (rels_tbl g)"

lemma finite_endpoints [simp]: "finite (endpoints g)"
  by (simp add: endpoints_def)

lemma visit_rels_measure:
  "finite E \<Longrightarrow> \<forall>r\<in>set rs. rl_from_entity r \<in> E \<and> rl_to_entity r \<in> E \<Longrightarrow>
   2 * card (E - set (fst (visit_rels i h rs visited queue))) + length (snd (visit_rels i h rs visited queue))
     \<le> 2 * card (E - set visited) + length queue"
proof (induction i h rs visited queue rule: visit_rels.induct)
  case (2 i h r rs visited queue)
  define nb where "nb = nb_of i r"
  have nb: "nb \<in> E" using 2(4) by (simp add: nb_def nb_of_def)
  show ?case
  proof (cases "nb \<in> set visited")
    case True
    with 2 show ?thesis by (simp add: nb_def Let_def)
  next
    case False
    have "E - set (visited @ [nb]) = (E - set visited) - {nb}" by auto
    moreover have "card (E - set visited) \<ge> 1" using nb False 2(3) by (metis DiffI One_nat_def Suc_leI card_gt_0_iff empty_iff finite_Diff)
    ultimately have "2 * card (E - set (visited @ [nb])) + length (queue @ [(nb, h + 1)]) \<le> 2 * card (E - set visited) + length queue"
      using nb False 2(3) by simp
    moreover have "2 * card (E - set (fst (visit_rels i h rs (visited @ [nb]) (queue @ [(nb, h + 1)])))) +
        length (snd (visit_rels i h rs (visited @ [nb]) (queue @ [(nb, h + 1)])))
        \<le> 2 * card (E - set (visited @ [nb])) + length (queue @ [(nb, h + 1)])"
      using 2(2) [OF nb_def] False 2(3,4) by simp
    ultimately show ?thesis using False by (simp add: nb_def [symmetric] Let_def)
  qed
qed simp

function bfs :: "graph_db \<Rightarrow> nat \<Rightarrow> string list \<Rightarrow> (string \<times> nat) list \<Rightarrow> string list" where
  "bfs g max_hops visited [] = visited"
| "bfs g max_hops visited ((i, hops) # queue) =
     (if hops \<ge> max_hops then bfs g max_hops visited queue
      else let (visited', queue') = visit_rels i hops (get_relationships_for_entity g i) visited queue
           in bfs g max_hops visited' queue')"
  by pat_completeness auto
termination
proof (relation "measure (\<lambda>(g, m, v, q). 2 * card (endpoints g - set v) + length q)")
  fix g :: graph_db and m v i hops q x and v' q'
  assume x: "x = visit_rels i hops (get_relationships_for_entity g i) v q" "(v', q') = x"
  have "\<forall>r\<in>set (get_relationships_for_entity g i). rl_from_entity r \<in> endpoints g \<and> rl_to_entity r \<in> endpoints g"
    by (auto simp: get_relationships_for_entity_def row_to_relationship_def endpoints_def)
  from visit_rels_measure [OF finite_endpoints this, of i hops v q] x
  show "((g, m, v', q'), g, m, v, (i, hops) # q) \<in> measure (\<lambda>(g, m, v, q). 2 * card (endpoints g - set v) + length q)"
    by (metis (no_types, lifting) case_prod_conv fst_conv in_measure le_imp_less_Suc length_Cons add_Suc_right snd_conv)
qed auto

text \<open>Seeds, each once.\<close>

fun seed_ids :: "string list \<Rightarrow> string list \<Rightarrow> string list" where
  "seed_ids visited [] = visited"
| "seed_ids visited (i # is) = seed_ids (if i \<in> set visited then visited else visited @ [i]) is"

definition reachable_entities :: "graph_db \<Rightarrow> string list \<Rightarrow> nat \<Rightarrow> Entity list \<times> Relationship list" where
  "reachable_entities g seeds max_hops =
     (let vs = seed_ids [] seeds;
          ids = bfs g max_hops vs (map (\<lambda>i. (i, 0)) vs);
          entities = get_entities_by_ids g ids;
          rels = concat (map (\<lambda>i. filter (\<lambda>r. rl_from_entity r \<in> set ids \<and> rl_to_entity r \<in> set ids)
                   (get_relationships_for_entity g i)) ids)
      in (entities, dedup_by rl_id {} rels))"

section \<open>Reading and writing rows\<close>

lemma kind_roundtrip [simp]: "kind_from_str (kind_as_str k) = Some k"
  by (cases k) (simp_all add: kind_from_str_def)

lemma rel_roundtrip [simp]: "rel_from_str (rel_as_str k) = Some k"
  by (cases k) (simp_all add: rel_from_str_def)

lemma row_to_entity_inverse [simp]: "row_to_entity (entity_to_row e) = e"
  by (simp add: row_to_entity_def entity_to_row_def)

lemma row_to_relationship_inverse [simp]: "row_to_relationship (rel_to_row r) = r"
  by (simp add: row_to_relationship_def rel_to_row_def)

lemma entity_to_row_sel [simp]:
  "er_id (entity_to_row e) = en_id e" "er_file_path (entity_to_row e) = en_file_path e"
  by (simp_all add: entity_to_row_def)

lemma rel_to_row_sel [simp]:
  "rr_id (rel_to_row r) = rl_id r" "rr_from (rel_to_row r) = rl_from_entity r" "rr_to (rel_to_row r) = rl_to_entity r"
  by (simp_all add: rel_to_row_def)

text \<open>The invariant of the tables: primary keys are unique.\<close>

definition wf_graph :: "graph_db \<Rightarrow> bool" where
  "wf_graph g \<longleftrightarrow> distinct (map er_id (entities_tbl g)) \<and> distinct (map rr_id (rels_tbl g))"

lemma wf_upsert_entity: "wf_graph g \<Longrightarrow> wf_graph (upsert_entity g e)"
  by (auto simp: wf_graph_def upsert_entity_def distinct_map_filter)

lemma wf_upsert_relationship: "wf_graph g \<Longrightarrow> wf_graph (upsert_relationship g r)"
  by (auto simp: wf_graph_def upsert_relationship_def distinct_map_filter)

lemma wf_fold_entities: "wf_graph g \<Longrightarrow> wf_graph (fold (\<lambda>e g. upsert_entity g e) es g)"
  by (induction es arbitrary: g) (simp_all add: wf_upsert_entity)

lemma wf_fold_rels: "wf_graph g \<Longrightarrow> wf_graph (fold (\<lambda>r g. upsert_relationship g r) rs g)"
  by (induction rs arbitrary: g) (simp_all add: wf_upsert_relationship)

lemma fold_delete_rels:
  "fold delete_rels_of is g = g\<lparr>rels_tbl := filter (\<lambda>r. rr_from r \<notin> set is \<and> rr_to r \<notin> set is) (rels_tbl g)\<rparr>"
  by (induction "is" arbitrary: g) (auto simp: delete_rels_of_def conj_ac intro!: arg_cong [of _ _ "\<lambda>x. _\<lparr>rels_tbl := x\<rparr>"] filter_cong)

lemma remove_file_eq:
  "remove_file g f =
     \<lparr>entities_tbl = filter (\<lambda>r. er_file_path r \<noteq> f) (entities_tbl g),
      rels_tbl = filter (\<lambda>r. rr_from r \<notin> set (get_entity_ids_for_file g f) \<and> rr_to r \<notin> set (get_entity_ids_for_file g f)) (rels_tbl g)\<rparr>"
  by (simp add: remove_file_def fold_delete_rels)

lemma wf_remove_file: "wf_graph g \<Longrightarrow> wf_graph (remove_file g f)"
  by (simp add: wf_graph_def remove_file_eq distinct_map_filter)

lemma fold_upsert_entities:
  "distinct (map en_id es) \<Longrightarrow>
   fold (\<lambda>e g. upsert_entity g e) es g =
     g\<lparr>entities_tbl := filter (\<lambda>r. er_id r \<notin> en_id ` set es) (entities_tbl g) @ map entity_to_row es\<rparr>"
proof (induction es arbitrary: g)
  case (Cons e es)
  have "filter (\<lambda>r. er_id r \<notin> en_id ` set es) (filter (\<lambda>r. er_id r \<noteq> en_id e) (entities_tbl g)) =
      filter (\<lambda>r. er_id r \<notin> en_id ` set (e # es)) (entities_tbl g)" by (auto intro: filter_cong)
  with Cons show ?case by (simp add: upsert_entity_def)
qed simp

lemma entities_fold_rels [simp]: "entities_tbl (fold (\<lambda>r g. upsert_relationship g r) rs g) = entities_tbl g"
  by (induction rs arbitrary: g) (simp_all add: upsert_relationship_def)

lemma update_file_wf: "wf_graph g \<Longrightarrow> wf_graph (snd (update_file parse g f src))"
  by (auto simp: update_file_def Let_def wf_remove_file wf_fold_entities wf_fold_rels split: sum.split)

section \<open>Breadth-first search\<close>

text \<open>Reference definition: the identifiers at most \<open>n\<close> undirected steps away from \<open>S\<close>.\<close>

definition nbs :: "graph_db \<Rightarrow> string set \<Rightarrow> string set" where
  "nbs g S = {w. \<exists>r\<in>set (rels_tbl g). (rr_from r \<in> S \<and> w = rr_to r) \<or> (rr_to r \<in> S \<and> w = rr_from r)}"

fun within :: "graph_db \<Rightarrow> string set \<Rightarrow> nat \<Rightarrow> string set" where
  "within g S 0 = S"
| "within g S (Suc n) = within g S n \<union> nbs g (within g S n)"

lemma nbs_Un: "nbs g (A \<union> B) = nbs g A \<union> nbs g B"
  by (auto simp: nbs_def)

lemma nbs_mono: "A \<subseteq> B \<Longrightarrow> nbs g A \<subseteq> nbs g B"
  by (auto simp: nbs_def)

lemma visit_rels_new:
  "\<exists>new. visit_rels i h rs visited queue = (visited @ new, queue @ map (\<lambda>w. (w, h + 1)) new) \<and>
     set new = nb_of i ` set rs - set visited"
proof (induction i h rs visited queue rule: visit_rels.induct)
  case (2 i h r rs visited queue)
  define nb where "nb = nb_of i r"
  show ?case
  proof (cases "nb \<in> set visited")
    case True
    with 2(1) [OF nb_def True] show ?thesis by (auto simp: nb_def [symmetric] Let_def)
  next
    case False
    from 2(2) [OF nb_def False] obtain new where
      "visit_rels i h rs (visited @ [nb]) (queue @ [(nb, h + 1)]) =
        (visited @ [nb] @ new, queue @ [(nb, h + 1)] @ map (\<lambda>w. (w, h + 1)) new)"
      "set new = nb_of i ` set rs - set (visited @ [nb])"
      by auto
    with False show ?thesis
      by (intro exI [of _ "nb # new"]) (auto simp: nb_def [symmetric] Let_def)
  qed
qed simp

lemma rel_neighbours:
  "nb_of i ` set (get_relationships_for_entity g i) = nbs g {i}"
proof -
  have row: "nb_of i (row_to_relationship r) = (if rr_from r = i then rr_to r else rr_from r)" for r
    by (simp add: nb_of_def row_to_relationship_def)
  have "nb_of i ` set (get_relationships_for_entity g i) =
      (\<lambda>r. if rr_from r = i then rr_to r else rr_from r) ` {r \<in> set (rels_tbl g). rr_from r = i \<or> rr_to r = i}"
    by (simp add: get_relationships_for_entity_def image_image row)
  also have "\<dots> = nbs g {i}"
  proof (rule set_eqI, rule iffI)
    fix w
    assume "w \<in> nbs g {i}"
    then obtain r where r: "r \<in> set (rels_tbl g)" "(rr_from r = i \<and> w = rr_to r) \<or> (rr_to r = i \<and> w = rr_from r)"
      by (auto simp: nbs_def)
    then have "w = (if rr_from r = i then rr_to r else rr_from r)" by auto
    with r show "w \<in> (\<lambda>r. if rr_from r = i then rr_to r else rr_from r) ` {r \<in> set (rels_tbl g). rr_from r = i \<or> rr_to r = i}"
      by blast
  qed (auto simp: nbs_def split: if_splits)
  finally show ?thesis .
qed

text \<open>One level of the search: the entries at distance \<open>n\<close> are processed before those at \<open>n + 1\<close>.\<close>

lemma bfs_level:
  assumes "n < m"
  shows "\<exists>new. bfs g m visited (map (\<lambda>v. (v, n)) L @ map (\<lambda>v. (v, n + 1)) M) =
      bfs g m (visited @ new) (map (\<lambda>v. (v, n + 1)) (M @ new)) \<and> set new = nbs g (set L) - set visited"
proof (induction L arbitrary: visited M)
  case Nil
  show ?case by (intro exI [of _ "[]"]) (simp add: nbs_def)
next
  case (Cons v L)
  obtain new1 where new1: "visit_rels v n (get_relationships_for_entity g v) visited (map (\<lambda>v. (v, n)) L @ map (\<lambda>v. (v, n + 1)) M) =
      (visited @ new1, (map (\<lambda>v. (v, n)) L @ map (\<lambda>v. (v, n + 1)) M) @ map (\<lambda>w. (w, n + 1)) new1)"
    "set new1 = nbs g {v} - set visited"
    using visit_rels_new [of v n "get_relationships_for_entity g v"] unfolding rel_neighbours by blast
  obtain new2 where new2: "bfs g m (visited @ new1) (map (\<lambda>v. (v, n)) L @ map (\<lambda>v. (v, n + 1)) (M @ new1)) =
      bfs g m ((visited @ new1) @ new2) (map (\<lambda>v. (v, n + 1)) ((M @ new1) @ new2))"
    "set new2 = nbs g (set L) - set (visited @ new1)" using Cons by blast
  have "nbs g (set (v # L)) = nbs g {v} \<union> nbs g (set L)" using nbs_Un [of g "{v}" "set L"] by simp
  then show ?case using assms new1 new2 by (intro exI [of _ "new1 @ new2"]) auto
qed

lemma bfs_done: "m \<le> n \<Longrightarrow> bfs g m visited (map (\<lambda>v. (v, n)) L) = visited"
  by (induction L) auto

lemma bfs_within:
  assumes "n \<le> m" "set visited = within g S n" "set L \<subseteq> set visited" "nbs g (set visited - set L) \<subseteq> set visited"
  shows "set (bfs g m visited (map (\<lambda>v. (v, n)) L)) = within g S m"
  using assms
proof (induction "m - n" arbitrary: n visited L)
  case 0
  then show ?case by (simp add: bfs_done)
next
  case (Suc k)
  then have n: "n < m" by simp
  obtain new where new: "bfs g m visited (map (\<lambda>v. (v, n)) L) = bfs g m (visited @ new) (map (\<lambda>v. (v, n + 1)) new)"
    "set new = nbs g (set L) - set visited" using bfs_level [OF n, of g visited L "[]"] by auto
  have split: "nbs g (set visited) = nbs g (set visited - set L) \<union> nbs g (set L)"
    using nbs_Un [of g "set visited - set L" "set L"] Suc.prems(3) by (simp add: Un_absorb2)
  then have v: "set (visited @ new) = within g S (n + 1)"
    using Suc.prems(2,4) new(2) by auto
  have "set (visited @ new) - set new = set visited" using new(2) by auto
  moreover have "nbs g (set visited) \<subseteq> set (visited @ new)" using split Suc.prems(4) new(2) by auto
  ultimately have "nbs g (set (visited @ new) - set new) \<subseteq> set (visited @ new)" by simp
  then have "set (bfs g m (visited @ new) (map (\<lambda>v. (v, n + 1)) new)) = within g S m"
    using Suc.hyps(2) n by (intro Suc.hyps(1) v) auto
  with new(1) show ?case by simp
qed

lemma seed_ids_set: "set (seed_ids visited is) = set visited \<union> set is"
  by (induction visited "is" rule: seed_ids.induct) auto

lemma bfs_reaches: "set (bfs g m (seed_ids [] seeds) (map (\<lambda>i. (i, 0)) (seed_ids [] seeds))) = within g (set seeds) m"
  by (rule bfs_within) (simp_all add: seed_ids_set nbs_def)

lemma bfs_rels:
  assumes "wf_graph g" "set ids = A"
  shows "set (dedup_by rl_id {} (concat (map (\<lambda>i. filter (\<lambda>r. rl_from_entity r \<in> set ids \<and> rl_to_entity r \<in> set ids)
      (get_relationships_for_entity g i)) ids))) =
    row_to_relationship ` {r \<in> set (rels_tbl g). rr_from r \<in> A \<and> rr_to r \<in> A}" (is "set (dedup_by rl_id {} ?rs) = ?R")
proof -
  have sub: "set ?rs = ?R"
    using assms(2) by (auto simp: get_relationships_for_entity_def row_to_relationship_def)
  have inj: "inj_on rl_id ?R"
    using assms(1) by (auto simp: inj_on_def row_to_relationship_def wf_graph_def distinct_map)
  have "rl_id ` set (dedup_by rl_id {} ?rs) = rl_id ` ?R" by (simp add: dedup_by_keys flip: sub)
  moreover have "set (dedup_by rl_id {} ?rs) \<subseteq> ?R" using dedup_by_subset unfolding sub [symmetric] .
  ultimately show ?thesis using inj_on_image_eq_iff [OF inj _ subset_refl] by blast
qed


definition sample_entity :: "string \<Rightarrow> string \<Rightarrow> Entity" where
  "sample_entity i f = \<lparr>en_id = i, en_kind = KFunction, en_name = i, en_qualified_name = i, en_file_path = f,
     en_byte_range = (0, 4), en_line_range = (1, 1), en_parent_entity = None\<rparr>"

definition sample_graph :: graph_db where
  "sample_graph = \<lparr>entities_tbl = map entity_to_row [sample_entity ''a'' ''x.rs'', sample_entity ''b'' ''y.rs'', sample_entity ''c'' ''z.rs''],
     rels_tbl = [\<lparr>rr_id = ''ab'', rr_kind = ''calls'', rr_from = ''a'', rr_to = ''b''\<rparr>,
                 \<lparr>rr_id = ''bc'', rr_kind = ''calls'', rr_from = ''b'', rr_to = ''c''\<rparr>]\<rparr>"

lemma sample_graph_wf: "wf_graph sample_graph"
  by (simp add: wf_graph_def sample_graph_def entity_to_row_def sample_entity_def)

section \<open>Properties\<close>

text \<open>The breadth-first search returns exactly the stored entities whose identifier is at most
  \<open>max_hops\<close> undirected relationship steps away from a seed, and exactly the relationships that
  connect two identifiers of that set, each once.\<close>

theorem reachable_entities_exact:
  assumes "wf_graph g"
  shows "set (fst (reachable_entities g seeds max_hops)) =
      row_to_entity ` {r \<in> set (entities_tbl g). er_id r \<in> within g (set seeds) max_hops} \<and>
    set (snd (reachable_entities g seeds max_hops)) =
      row_to_relationship ` {r \<in> set (rels_tbl g). rr_from r \<in> within g (set seeds) max_hops \<and> rr_to r \<in> within g (set seeds) max_hops} \<and>
    distinct (map rl_id (snd (reachable_entities g seeds max_hops)))"
proof -
  let ?vs = "seed_ids [] seeds"
  let ?ids = "bfs g max_hops ?vs (map (\<lambda>i. (i, 0)) ?vs)"
  have ids: "set ?ids = within g (set seeds) max_hops" by (rule bfs_reaches)
  have "set (get_entities_by_ids g ?ids) = row_to_entity ` {r \<in> set (entities_tbl g). er_id r \<in> set ?ids}"
    by (auto simp: get_entities_by_ids_def order_by_line_def)
  then show ?thesis
    using ids bfs_rels [OF assms ids] by (simp add: reachable_entities_def Let_def dedup_by_distinct)
qed

theorem reachable_entities_exact_witness:
  "set (fst (reachable_entities sample_graph [''a''] 1)) = {sample_entity ''a'' ''x.rs'', sample_entity ''b'' ''y.rs''}"
proof -
  have w: "within sample_graph (set [''a'']) 1 = {''a'', ''b''}"
    by (auto simp: nbs_def sample_graph_def)
  have "{r \<in> set (entities_tbl sample_graph). er_id r \<in> {''a'', ''b''}} =
      entity_to_row ` {sample_entity ''a'' ''x.rs'', sample_entity ''b'' ''y.rs''}"
    by (auto simp: sample_graph_def sample_entity_def)
  with reachable_entities_exact [OF sample_graph_wf, of "[''a'']" 1] show ?thesis
    unfolding w by (simp add: image_image)
qed

text \<open>Updating a file whose parse succeeds replaces exactly the entities of that file by the
  parsed ones and keeps the entities of every other file, when the identifiers the parser returns
  are distinct, belong to the file and are not used by another file; the keys stay unique.\<close>

theorem update_file_replaces:
  assumes "wf_graph g" "parse f src = Inr (es, rs)" "distinct (map en_id es)" "\<forall>e\<in>set es. en_file_path e = f"
    "\<forall>r\<in>set (entities_tbl g). er_file_path r \<noteq> f \<longrightarrow> er_id r \<notin> en_id ` set es"
  shows "wf_graph (snd (update_file parse g f src)) \<and>
    set (get_entities_in_file (snd (update_file parse g f src)) f) = set es \<and>
    filter (\<lambda>r. er_file_path r \<noteq> f) (entities_tbl (snd (update_file parse g f src))) =
      filter (\<lambda>r. er_file_path r \<noteq> f) (entities_tbl g)"
proof -
  have keep: "filter (\<lambda>r. er_id r \<notin> en_id ` set es) (filter (\<lambda>r. er_file_path r \<noteq> f) (entities_tbl g)) =
      filter (\<lambda>r. er_file_path r \<noteq> f) (entities_tbl g)"
    unfolding filter_filter using assms(5) by (intro filter_cong) auto
  have tbl: "entities_tbl (snd (update_file parse g f src)) =
      filter (\<lambda>r. er_file_path r \<noteq> f) (entities_tbl g) @ map entity_to_row es"
    using assms(2) keep by (simp add: update_file_def Let_def fold_upsert_entities [OF assms(3)] remove_file_eq)
  have own: "filter (\<lambda>r. er_file_path r = f) (map entity_to_row es) = map entity_to_row es"
    "filter (\<lambda>r. er_file_path r \<noteq> f) (map entity_to_row es) = []"
    using assms(4) by (simp_all add: filter_id_conv filter_empty_conv)
  have "set (get_entities_in_file (snd (update_file parse g f src)) f) = row_to_entity ` set (map entity_to_row es)"
    unfolding get_entities_in_file_def tbl filter_append own by (auto simp: filter_empty_conv)
  moreover have "row_to_entity ` set (map entity_to_row es) = set es" by (simp add: image_image)
  ultimately show ?thesis using update_file_wf [OF assms(1)] tbl own by simp
qed

theorem update_file_replaces_witness:
  "set (get_entities_in_file (snd (update_file (\<lambda>_ _. Inr ([sample_entity ''d'' ''x.rs''], [])) sample_graph ''x.rs'' ''src'')) ''x.rs'') =
     {sample_entity ''d'' ''x.rs''}"
proof -
  have "\<forall>r\<in>set (entities_tbl sample_graph). er_file_path r \<noteq> ''x.rs'' \<longrightarrow> er_id r \<notin> en_id ` set [sample_entity ''d'' ''x.rs'']"
    by (simp add: sample_graph_def sample_entity_def)
  with update_file_replaces [OF sample_graph_wf, of "\<lambda>_ _. Inr ([sample_entity ''d'' ''x.rs''], [])" "''x.rs''" "''src''"
      "[sample_entity ''d'' ''x.rs'']" "[]"]
  show ?thesis by (simp add: sample_entity_def)
qed

text \<open>When the parser fails, updating a file reports the error, and the file's entities and every
  relationship that touches them are gone from the graph although no new ones were stored.\<close>

theorem update_file_parse_error:
  assumes "parse f src = Inl e"
  shows "fst (update_file parse g f src) = Inl e \<and> get_entities_in_file (snd (update_file parse g f src)) f = [] \<and>
    list_all (\<lambda>i. get_relationships_for_entity (snd (update_file parse g f src)) i = []) (get_entity_ids_for_file g f)"
  using assms by (auto simp: update_file_def remove_file_eq get_entities_in_file_def get_relationships_for_entity_def
      list_all_iff filter_empty_conv)

theorem update_file_parse_error_witness:
  "fst (update_file (\<lambda>_ _. Inl (GParse ''bad'')) sample_graph ''x.rs'' ''src'') = Inl (GParse ''bad'') \<and>
   get_entities_in_file (snd (update_file (\<lambda>_ _. Inl (GParse ''bad'')) sample_graph ''x.rs'' ''src'')) ''x.rs'' = []"
  using update_file_parse_error [of "\<lambda>_ _. Inl (GParse ''bad'')" "''x.rs''" "''src''" "GParse ''bad''" sample_graph] by simp

end
