(* ===== verification/Diff.thy ===== *)
theory Diff
  imports Version Graph
begin

text \<open>
  Workspace diffs (\<open>src/diff/mod.rs\<close>): file-level and entity-level changes between the overlay of
  a workspace and the repository, computed through the file abstraction, and the recording of
  the change events. \<open>parse_rust_source\<close> (a tree-sitter walk), SHA-256 and the JSON parser of the
  deletion manifest are parameters of \<open>diff_env\<close>. A Rust \<open>HashMap\<close> is an association list; its
  iteration order is the order of the list. A failed \<open>expect\<close> is the error \<open>DfPanic\<close>.
\<close>

datatype DiffError = DfIo IoError | DfWorkspace WorkspaceError | DfGraph GraphError | DfEventLog EventLogError | DfPanic

datatype FileChangeType = FcAdded | FcModified | FcDeleted

record FileDiff =
  fd_path :: string
  fd_change_type :: FileChangeType
  fd_lines :: nat
  fd_content_hash :: string

datatype EntityChangeType = EcAdded | EcModified | EcRemoved

record EntityChange =
  ec_entity_id :: string
  ec_qualified_name :: string
  ec_kind :: EntityKind
  ec_file_path :: string
  ec_change_type :: EntityChangeType
  ec_line_range :: "(nat \<times> nat) option"

record WorkspaceDiff =
  wd_workspace_id :: uuid
  wd_base_version :: string
  wd_file_diffs :: "FileDiff list"
  wd_entity_changes :: "EntityChange list"

record diff_env = ver_env +
  parse_rust_source :: "string \<Rightarrow> bytes \<Rightarrow> (GraphError, Entity list \<times> Relationship list) result"
  sha256_hex :: "bytes \<Rightarrow> string"
  paths_from_json :: "bytes \<Rightarrow> string list option"

definition wd_is_empty :: "WorkspaceDiff \<Rightarrow> bool" where
  "wd_is_empty d \<longleftrightarrow> wd_file_diffs d = [] \<and> wd_entity_changes d = []"

definition count_lines :: "bytes \<Rightarrow> nat" where
  "count_lines c = (if c = [] then 0 else length (filter (\<lambda>b. b = CHR 0x0A) c) + 1)"

section \<open>Entity changes\<close>

text \<open>\<open>slice.get(a..b)\<close>, the bytes of an entity, and \<open>iter().map(|e| (e.id, e)).collect()\<close>.\<close>

definition slice_get :: "bytes \<Rightarrow> nat \<Rightarrow> nat \<Rightarrow> bytes option" where
  "slice_get c a b = (if a \<le> b \<and> b \<le> length c then Some (take (b - a) (drop a c)) else None)"

definition entity_bytes :: "bytes \<Rightarrow> Entity \<Rightarrow> bytes" where
  "entity_bytes c e =
     (case slice_get c (fst (en_byte_range e)) (min (snd (en_byte_range e)) (length c)) of Some b \<Rightarrow> b | None \<Rightarrow> [])"

definition entity_map :: "Entity list \<Rightarrow> (string \<times> Entity) list" where
  "entity_map es = fold (\<lambda>e m. AList.update (en_id e) e m) es []"

definition entity_change :: "string \<Rightarrow> EntityChangeType \<Rightarrow> string \<Rightarrow> Entity \<Rightarrow> EntityChange" where
  "entity_change rel ty i e =
     \<lparr>ec_entity_id = i, ec_qualified_name = en_qualified_name e, ec_kind = en_kind e, ec_file_path = rel,
      ec_change_type = ty, ec_line_range = (if ty = EcRemoved then None else Some (en_line_range e))\<rparr>"

fun diff_overlay_entities ::
  "string \<Rightarrow> bytes \<Rightarrow> bytes \<Rightarrow> (string \<times> Entity) list \<Rightarrow> (string \<times> Entity) list \<Rightarrow> EntityChange list" where
  "diff_overlay_entities rel overlay base bm [] = []"
| "diff_overlay_entities rel overlay base bm ((i, e) # om) =
     (case map_of bm i of
        Some be \<Rightarrow>
          if entity_bytes base be \<noteq> entity_bytes overlay e
          then entity_change rel EcModified i e # diff_overlay_entities rel overlay base bm om
          else diff_overlay_entities rel overlay base bm om
      | None \<Rightarrow> entity_change rel EcAdded i e # diff_overlay_entities rel overlay base bm om)"

fun diff_base_entities :: "string \<Rightarrow> (string \<times> Entity) list \<Rightarrow> (string \<times> Entity) list \<Rightarrow> EntityChange list" where
  "diff_base_entities rel om [] = []"
| "diff_base_entities rel om ((i, e) # bm) =
     (if map_of om i = None then entity_change rel EcRemoved i e # diff_base_entities rel om bm
      else diff_base_entities rel om bm)"

definition compute_entity_diff ::
  "('a) diff_env_scheme \<Rightarrow> string \<Rightarrow> bytes \<Rightarrow> bytes option \<Rightarrow> (DiffError, EntityChange list) result" where
  "compute_entity_diff env rel overlay base_content =
     bind_result (map_err DfGraph (parse_rust_source env rel overlay)) (\<lambda>(overlay_entities, _).
       let om = entity_map overlay_entities
       in case base_content of
            Some base \<Rightarrow>
              bind_result (map_err DfGraph (parse_rust_source env rel base)) (\<lambda>(base_entities, _).
                let bm = entity_map base_entities
                in Inr (diff_overlay_entities rel overlay base bm om @ diff_base_entities rel om bm))
          | None \<Rightarrow> Inr (map (\<lambda>(_, e). entity_change rel EcAdded (en_id e) e) om))"

section \<open>The diff\<close>

text \<open>One overlay key: read it, compare with the base file, and diff the entities of a Rust file.\<close>

definition diff_overlay_file ::
  "('a) diff_env_scheme \<Rightarrow> 's MergeFs \<Rightarrow> 's \<Rightarrow> string \<Rightarrow> (DiffError, FileDiff \<times> EntityChange list \<times> 's) result" where
  "diff_overlay_file env fs s key =
     (case strip_prefix ''overlay/'' key of
        None \<Rightarrow> Inl DfPanic
      | Some rel \<Rightarrow>
          bind_result (map_err DfIo (mf_read fs s key)) (\<lambda>(content, s1).
          bind_result (map_err DfIo (mf_exists fs s1 (base_key rel))) (\<lambda>ex.
          let fd = \<lparr>fd_path = rel, fd_change_type = (if ex then FcModified else FcAdded),
                    fd_lines = count_lines content, fd_content_hash = sha256_hex env content\<rparr>
          in if ends_with rel ''.rs'' then
               bind_result (map_err DfIo (mf_exists fs s1 (base_key rel))) (\<lambda>ex2.
               if ex2 then
                 bind_result (map_err DfIo (mf_read fs s1 (base_key rel))) (\<lambda>(base, s2).
                 bind_result (compute_entity_diff env rel content (Some base)) (\<lambda>ecs. Inr (fd, ecs, s2)))
               else bind_result (compute_entity_diff env rel content None) (\<lambda>ecs. Inr (fd, ecs, s1)))
             else Inr (fd, [], s1))))"

fun diff_overlay_loop ::
  "('a) diff_env_scheme \<Rightarrow> 's MergeFs \<Rightarrow> 's \<Rightarrow> string list \<Rightarrow> (DiffError, FileDiff list \<times> EntityChange list \<times> 's) result" where
  "diff_overlay_loop env fs s [] = Inr ([], [], s)"
| "diff_overlay_loop env fs s (k # ks) =
     bind_result (diff_overlay_file env fs s k) (\<lambda>(fd, ecs, s1).
     bind_result (diff_overlay_loop env fs s1 ks) (\<lambda>(fds, ecss, s2). Inr (fd # fds, ecs @ ecss, s2)))"

definition deleted_entities ::
  "('a) diff_env_scheme \<Rightarrow> 's MergeFs \<Rightarrow> 's \<Rightarrow> string \<Rightarrow> EntityChange list \<times> 's" where
  "deleted_entities env fs s path =
     (if ends_with path ''.rs'' then
        (case mf_read fs s (base_key path) of
           Inl _ \<Rightarrow> ([], s)
         | Inr (content, s1) \<Rightarrow>
             (case parse_rust_source env path content of
                Inl _ \<Rightarrow> ([], s1)
              | Inr (entities, _) \<Rightarrow> (map (\<lambda>e. entity_change path EcRemoved (en_id e) e) entities, s1)))
      else ([], s))"

fun diff_deleted_loop ::
  "('a) diff_env_scheme \<Rightarrow> 's MergeFs \<Rightarrow> 's \<Rightarrow> string list \<Rightarrow> (DiffError, FileDiff list \<times> EntityChange list \<times> 's) result" where
  "diff_deleted_loop env fs s [] = Inr ([], [], s)"
| "diff_deleted_loop env fs s (p # ps) =
     bind_result (map_err DfIo (mf_exists fs s (base_key p))) (\<lambda>ex.
       if ex then
         (let (ecs, s1) = deleted_entities env fs s p;
              fd = \<lparr>fd_path = p, fd_change_type = FcDeleted, fd_lines = 0, fd_content_hash = []\<rparr>
          in bind_result (diff_deleted_loop env fs s1 ps) (\<lambda>(fds, ecss, s2). Inr (fd # fds, ecs @ ecss, s2)))
       else diff_deleted_loop env fs s ps)"

definition compute_with_fs ::
  "('a) diff_env_scheme \<Rightarrow> 's MergeFs \<Rightarrow> 's \<Rightarrow> uuid \<Rightarrow> string \<Rightarrow> string list \<Rightarrow> (DiffError, WorkspaceDiff \<times> 's) result" where
  "compute_with_fs env fs s wid base_version deleted_paths =
     bind_result (map_err DfIo (mf_list fs s ''overlay/'')) (\<lambda>keys.
     bind_result (diff_overlay_loop env fs s keys) (\<lambda>(fds1, ecs1, s1).
     bind_result (diff_deleted_loop env fs s1 deleted_paths) (\<lambda>(fds2, ecs2, s2).
     Inr (\<lparr>wd_workspace_id = wid, wd_base_version = base_version, wd_file_diffs = fds1 @ fds2,
           wd_entity_changes = ecs1 @ ecs2\<rparr>, s2))))"

text \<open>The deletion manifest of a workspace and, for \<open>compute\<close>, its union with the metadata.\<close>

definition read_manifest :: "('a) diff_env_scheme \<Rightarrow> ('b) vai_dir_scheme \<Rightarrow> uuid \<Rightarrow> string list" where
  "read_manifest env vai wid =
     (case Option.bind (map_of (ws_dirs vai) (uuid_to_string env wid)) deleted_manifest of
        None \<Rightarrow> []
      | Some b \<Rightarrow> (case paths_from_json env b of Some ps \<Rightarrow> ps | None \<Rightarrow> []))"

definition diff_compute ::
  "('a) diff_env_scheme \<Rightarrow> ('b) vai_dir_scheme \<Rightarrow> disk \<Rightarrow> (DiffError, WorkspaceDiff \<times> disk) result" where
  "diff_compute env vai d =
     bind_result (map_err DfWorkspace (ws_active env vai)) (\<lambda>meta.
       let deleted = dedup_by (\<lambda>p. p) {} (read_manifest env vai (wm_id meta) @ wm_deleted_paths meta)
       in compute_with_fs env (DiskMergeFs (uuid_to_string env (wm_id meta))) d (wm_id meta) (wm_base_version meta) deleted)"

section \<open>Recording the events\<close>

fun file_event :: "uuid \<Rightarrow> FileDiff \<Rightarrow> EventKind" where
  "file_event w fd =
     (case fd_change_type fd of
        FcAdded \<Rightarrow> FileAdded w (fd_path fd) (fd_content_hash fd)
      | FcModified \<Rightarrow> FileModified w (fd_path fd) [] (fd_content_hash fd)
      | FcDeleted \<Rightarrow> FileRemoved w (fd_path fd))"

text \<open>\<open>qualified_name.split("::").last()\<close>.\<close>

fun last_segment_acc :: "string \<Rightarrow> string \<Rightarrow> string" where
  "last_segment_acc acc [] = acc"
| "last_segment_acc acc [c] = acc @ [c]"
| "last_segment_acc acc (c # d # cs) =
     (if c = CHR '':'' \<and> d = CHR '':'' then last_segment_acc [] cs else last_segment_acc (acc @ [c]) (d # cs))"

definition last_segment :: "string \<Rightarrow> string" where
  "last_segment s = last_segment_acc [] s"

fun entity_event :: "uuid \<Rightarrow> EntityChange \<Rightarrow> EventKind" where
  "entity_event w ec =
     (case ec_change_type ec of
        EcAdded \<Rightarrow> EntityAdded w \<lparr>es_id = ec_entity_id ec, es_kind = kind_as_str (ec_kind ec),
          es_name = last_segment (ec_qualified_name ec), es_qualified_name = ec_qualified_name ec,
          es_file_path = ec_file_path ec\<rparr>
      | EcModified \<Rightarrow> EntityModified w (ec_entity_id ec)
          (kind_as_str (ec_kind ec) @ '' `'' @ ec_qualified_name ec @ ''` modified in '' @ ec_file_path ec)
      | EcRemoved \<Rightarrow> EntityRemoved w (ec_entity_id ec))"

definition record_events ::
  "('a) diff_env_scheme \<Rightarrow> ('b) vai_dir_scheme \<Rightarrow> WorkspaceDiff \<Rightarrow> time \<Rightarrow> (DiffError, ('b) vai_dir_scheme) result" where
  "record_events env vai diff now =
     bind_result (map_err DfWorkspace (ws_active env vai)) (\<lambda>meta.
       if wm_status meta \<noteq> WCreated then Inr vai
       else bind_result (map_err DfEventLog (append_kinds (vai_append env) vai now
              (map (file_event (wd_workspace_id diff)) (wd_file_diffs diff) @
               map (entity_event (wd_workspace_id diff)) (wd_entity_changes diff)))) (\<lambda>vai1.
            map_err DfWorkspace (update_meta env vai1 (meta\<lparr>wm_status := WActive, wm_updated_at := now\<rparr>))))"

section \<open>The log of the directory\<close>

interpretation vlog: event_store "vai_append env" "\<lambda>vai. log_events env (elog vai)" "\<lambda>vai. wf_log env (elog vai)"
  for env :: "('a) elog_env_scheme"
proof unfold_locales
  fix s :: "('b) vai_dir_scheme" and now k
  assume "wf_log env (elog s)"
  then show "\<exists>e s'. vai_append env s now k = Inr (e, s')" by (metis vai_append_ok)
next
  fix s :: "('b) vai_dir_scheme" and now k e s'
  assume a: "wf_log env (elog s)" "vai_append env s now k = Inr (e, s')"
  then obtain log where l: "elog_append env (elog s) now k = Inr (e, log)" "s' = s\<lparr>elog := log\<rparr>"
    by (auto simp: vai_append_def bind_result_Inr_iff)
  show "wf_log env (elog s')" using elog.append_invar [OF a(1) l(1)] l(2) by simp
  show "log_events env (elog s') = log_events env (elog s) @ [e]" using elog.append_events [OF a(1) l(1)] l(2) by simp
  show "ev_kind e = k \<and> ev_timestamp e = now \<and> (\<forall>e'\<in>set (log_events env (elog s)). ev_id e' < ev_id e)"
    using elog.append_event [OF a(1) l(1)] by simp
qed

lemma vai_append_elog: "vai_append env vai now k = Inr (e, vai') \<Longrightarrow> \<exists>log. vai' = vai\<lparr>elog := log\<rparr>"
  by (auto simp: vai_append_def bind_result_Inr_iff)

lemma append_kinds_elog: "append_kinds (vai_append env) vai now ks = Inr vai' \<Longrightarrow> \<exists>log. vai' = vai\<lparr>elog := log\<rparr>"
proof (induction ks arbitrary: vai)
  case (Cons k ks)
  from Cons.prems obtain e vai1 where "vai_append env vai now k = Inr (e, vai1)" "append_kinds (vai_append env) vai1 now ks = Inr vai'"
    by (auto simp: bind_result_Inr_iff)
  with Cons.IH [OF this(2)] vai_append_elog [OF this(1)] show ?case by auto
next
  case Nil
  have "vai = vai\<lparr>elog := elog vai\<rparr>" by (cases vai) simp
  moreover have "vai' = vai" using Nil by simp
  ultimately show ?case by metis
qed

lemma append_kinds_vai:
  fixes vai :: "('b) vai_dir_scheme"
  assumes "wf_log env (elog vai)"
  obtains log where "append_kinds (vai_append env) vai now ks = Inr (vai\<lparr>elog := log\<rparr>)" "wf_log env log"
    "vai_kinds env (vai\<lparr>elog := log\<rparr>) = vai_kinds env vai @ ks"
proof -
  obtain vai' es where v: "append_kinds (vai_append env) vai now ks = Inr vai'" "wf_log env (elog vai')"
    "log_events env (elog vai') = log_events env (elog vai) @ es" "map ev_kind es = ks"
    using vlog.append_kinds_ok [OF assms] by blast
  obtain log where "vai' = vai\<lparr>elog := log\<rparr>" using append_kinds_elog [OF v(1)] by blast
  with v that show ?thesis by (simp add: vai_kinds_def)
qed

section \<open>The diff over any file abstraction\<close>

definition parse_total :: "('a) diff_env_scheme \<Rightarrow> bool" where
  "parse_total env \<longleftrightarrow> (\<forall>f c. \<exists>r. parse_rust_source env f c = Inr r)"

lemma compute_entity_diff_total: "parse_total env \<Longrightarrow> \<exists>ecs. compute_entity_diff env rel c b = Inr ecs"
proof -
  assume p: "parse_total env"
  obtain oe r where "parse_rust_source env rel c = Inr (oe, r)" using p by (fastforce simp: parse_total_def)
  moreover obtain be r2 where "parse_rust_source env rel (the b) = Inr (be, r2)" using p by (fastforce simp: parse_total_def)
  ultimately show ?thesis by (cases b) (simp_all add: compute_entity_diff_def Let_def)
qed

definition overlay_change :: "bool \<Rightarrow> FileChangeType" where
  "overlay_change ex = (if ex then FcModified else FcAdded)"

context merge_fs
begin

lemma diff_overlay_file_ok:
  assumes "inv s" "parse_total env" "fdata s (overlay_key rel) = Some c"
  shows "\<exists>fd ecs s'. diff_overlay_file env ops s (overlay_key rel) = Inr (fd, ecs, s') \<and> inv s' \<and> fdata s' = fdata s \<and>
    fd_path fd = rel \<and> fd_change_type fd = overlay_change (fdata s (base_key rel) \<noteq> None) \<and> fd_content_hash fd = sha256_hex env c"
proof -
  obtain s1 where s1: "mf_read ops s (overlay_key rel) = Inr (c, s1)" "inv s1" "fdata s1 = fdata s"
    using read_file [OF assms(1,3)] by blast
  have ex: "mf_exists ops s1 (base_key rel) = Inr (fdata s (base_key rel) \<noteq> None)"
    using exists_file [OF s1(2) resolve_ns(2)] s1(3) by simp
  have strip: "strip_prefix ''overlay/'' (overlay_key rel) = Some rel" unfolding overlay_key_def by (rule strip_prefix_append)
  show ?thesis
  proof (cases "fdata s (base_key rel)")
    case None
    obtain ecs where "compute_entity_diff env rel c None = Inr ecs" using compute_entity_diff_total [OF assms(2)] by blast
    with None s1 ex strip show ?thesis by (simp add: diff_overlay_file_def overlay_change_def Let_def)
  next
    case (Some b)
    obtain ecs where "compute_entity_diff env rel c (Some b) = Inr ecs" using compute_entity_diff_total [OF assms(2)] by blast
    moreover obtain s2 where "mf_read ops s1 (base_key rel) = Inr (b, s2)" "inv s2" "fdata s2 = fdata s1"
      using read_file [OF s1(2)] s1(3) Some by metis
    ultimately show ?thesis using Some s1 ex strip by (simp add: diff_overlay_file_def overlay_change_def Let_def)
  qed
qed

lemma diff_overlay_loop_ok:
  assumes "parse_total env"
  shows "inv s \<Longrightarrow> \<forall>r\<in>set rels. fdata s (overlay_key r) \<noteq> None \<Longrightarrow>
   \<exists>fds ecs s'. diff_overlay_loop env ops s (map overlay_key rels) = Inr (fds, ecs, s') \<and> inv s' \<and> fdata s' = fdata s \<and>
     map (\<lambda>fd. (fd_path fd, fd_change_type fd)) fds = map (\<lambda>r. (r, overlay_change (fdata s (base_key r) \<noteq> None))) rels"
proof (induction rels arbitrary: s)
  case (Cons r rels)
  then obtain c where c: "fdata s (overlay_key r) = Some c" by auto
  obtain fd ecs s1 where 1: "diff_overlay_file env ops s (overlay_key r) = Inr (fd, ecs, s1)" "inv s1" "fdata s1 = fdata s"
    "fd_path fd = r" "fd_change_type fd = overlay_change (fdata s (base_key r) \<noteq> None)"
    using diff_overlay_file_ok [OF Cons.prems(1) assms c] by blast
  obtain fds ecs2 s2 where 2: "diff_overlay_loop env ops s1 (map overlay_key rels) = Inr (fds, ecs2, s2)" "inv s2" "fdata s2 = fdata s1"
    "map (\<lambda>fd. (fd_path fd, fd_change_type fd)) fds = map (\<lambda>r. (r, overlay_change (fdata s1 (base_key r) \<noteq> None))) rels"
    using Cons.IH [OF 1(2)] Cons.prems(2) 1(3) by auto
  from 1 2 show ?case by simp
qed simp

lemma deleted_entities_ok:
  assumes "inv s" "fdata s (base_key p) \<noteq> None"
  shows "inv (snd (deleted_entities env ops s p)) \<and> fdata (snd (deleted_entities env ops s p)) = fdata s"
proof -
  from assms(2) obtain c where c: "fdata s (base_key p) = Some c" by blast
  obtain s1 where "mf_read ops s (base_key p) = Inr (c, s1)" "inv s1" "fdata s1 = fdata s"
    using read_file [OF assms(1) c] by blast
  with assms(1) show ?thesis by (auto simp: deleted_entities_def split: sum.split)
qed

lemma diff_deleted_loop_ok:
  "inv s \<Longrightarrow>
   \<exists>fds ecs s'. diff_deleted_loop env ops s ps = Inr (fds, ecs, s') \<and> inv s' \<and> fdata s' = fdata s \<and>
     map (\<lambda>fd. (fd_path fd, fd_change_type fd)) fds = map (\<lambda>p. (p, FcDeleted)) (filter (\<lambda>p. fdata s (base_key p) \<noteq> None) ps)"
proof (induction ps arbitrary: s)
  case (Cons p ps)
  note ex = exists_file [OF Cons.prems resolve_ns(2), of p]
  show ?case
  proof (cases "fdata s (base_key p) = None")
    case True
    with ex Cons.IH [OF Cons.prems] show ?thesis by simp
  next
    case False
    obtain ecs s1 where d: "deleted_entities env ops s p = (ecs, s1)" by fastforce
    have s1: "inv s1" "fdata s1 = fdata s" using deleted_entities_ok [OF Cons.prems False, of env] d by simp_all
    obtain fds ecs2 s2 where "diff_deleted_loop env ops s1 ps = Inr (fds, ecs2, s2)" "inv s2" "fdata s2 = fdata s1"
      "map (\<lambda>fd. (fd_path fd, fd_change_type fd)) fds = map (\<lambda>p. (p, FcDeleted)) (filter (\<lambda>p. fdata s1 (base_key p) \<noteq> None) ps)"
      using Cons.IH [OF s1(1)] by blast
    with False ex d s1(2) show ?thesis by (simp add: Let_def)
  qed
qed simp

lemma list_overlay:
  assumes "inv s"
  obtains rels where "mf_list ops s ''overlay/'' = Inr (map overlay_key rels)" "distinct rels"
    "\<And>r. r \<in> set rels \<longleftrightarrow> fdata s (overlay_key r) \<noteq> None" "\<And>r. r \<in> set rels \<Longrightarrow> good (overlay_key r)"
proof -
  obtain ks where ks: "mf_list ops s ''overlay/'' = Inr ks" "distinct ks"
    "\<forall>k. k \<in> set ks \<longleftrightarrow> starts_with k ''overlay/'' \<and> fdata s k \<noteq> None" "\<forall>k\<in>set ks. good k"
    using list_files [OF assms, of "''overlay/''"] by blast
  define rels where "rels = map (\<lambda>k. the (strip_prefix ''overlay/'' k)) ks"
  have "overlay_key (the (strip_prefix ''overlay/'' k)) = k" if "k \<in> set ks" for k
  proof -
    have "starts_with k ''overlay/''" using that ks(3) by blast
    then obtain r where "k = ''overlay/'' @ r" unfolding starts_with_iff by blast
    then show ?thesis by (simp only: strip_prefix_append overlay_key_def option.sel)
  qed
  then have eq: "ks = map overlay_key rels" unfolding rels_def by (simp add: map_idI)
  have "starts_with (overlay_key r) ''overlay/''" for r by (simp add: overlay_key_def starts_with_def)
  moreover have "overlay_key r \<in> set ks \<longleftrightarrow> r \<in> set rels" for r unfolding eq by auto
  ultimately have "r \<in> set rels \<longleftrightarrow> fdata s (overlay_key r) \<noteq> None" for r using ks(3) by blast
  with that [of rels] ks eq show ?thesis by (auto simp: distinct_map)
qed

lemma compute_with_fs_ok:
  assumes "inv s" "parse_total env"
  shows "\<exists>wd s' rels. compute_with_fs env ops s w bv dels = Inr (wd, s') \<and> inv s' \<and> fdata s' = fdata s \<and>
    wd_workspace_id wd = w \<and> distinct rels \<and> (\<forall>r. r \<in> set rels \<longleftrightarrow> fdata s (overlay_key r) \<noteq> None) \<and>
    map (\<lambda>fd. (fd_path fd, fd_change_type fd)) (wd_file_diffs wd) =
      map (\<lambda>r. (r, overlay_change (fdata s (base_key r) \<noteq> None))) rels @
      map (\<lambda>p. (p, FcDeleted)) (filter (\<lambda>p. fdata s (base_key p) \<noteq> None) dels)"
proof -
  obtain rels where r: "mf_list ops s ''overlay/'' = Inr (map overlay_key rels)" "distinct rels"
    "\<And>r. r \<in> set rels \<longleftrightarrow> fdata s (overlay_key r) \<noteq> None" by (rule list_overlay [OF assms(1)]) blast
  obtain fds ecs s1 where 1: "diff_overlay_loop env ops s (map overlay_key rels) = Inr (fds, ecs, s1)" "inv s1" "fdata s1 = fdata s"
    "map (\<lambda>fd. (fd_path fd, fd_change_type fd)) fds = map (\<lambda>r. (r, overlay_change (fdata s (base_key r) \<noteq> None))) rels"
    using diff_overlay_loop_ok [OF assms(2,1), of rels] r(3) by blast
  obtain fds2 ecs2 s2 where 2: "diff_deleted_loop env ops s1 dels = Inr (fds2, ecs2, s2)" "inv s2" "fdata s2 = fdata s1"
    "map (\<lambda>fd. (fd_path fd, fd_change_type fd)) fds2 = map (\<lambda>p. (p, FcDeleted)) (filter (\<lambda>p. fdata s1 (base_key p) \<noteq> None) dels)"
    using diff_deleted_loop_ok [OF 1(2)] by blast
  let ?wd = "\<lparr>wd_workspace_id = w, wd_base_version = bv, wd_file_diffs = fds @ fds2, wd_entity_changes = ecs @ ecs2\<rparr>"
  from r 1 2 show ?thesis
    by (intro exI [of _ ?wd] exI [of _ s2] exI [of _ rels]) (simp add: compute_with_fs_def)
qed

end

section \<open>Entity changes, by identifier\<close>

lemma entity_map_distinct: "distinct (map fst (entity_map es))"
proof -
  have "distinct (map fst m) \<Longrightarrow> distinct (map fst (fold (\<lambda>e m. AList.update (en_id e) e m) es m))" for m
    by (induction es arbitrary: m) (simp_all add: distinct_update)
  then show ?thesis by (simp add: entity_map_def)
qed

lemma entity_map_keys: "fst ` set (entity_map es) = en_id ` set es"
proof -
  have "fst ` set (fold (\<lambda>e m. AList.update (en_id e) e m) es m) = fst ` set m \<union> en_id ` set es" for m
    by (induction es arbitrary: m) (auto simp: dom_update)
  then show ?thesis by (simp add: entity_map_def)
qed

lemma entity_change_sel [simp]:
  "ec_entity_id (entity_change rel ty i e) = i" "ec_change_type (entity_change rel ty i e) = ty"
  by (simp_all add: entity_change_def)

lemma diff_overlay_entities_eq:
  "diff_overlay_entities rel ov base bm om =
     map (\<lambda>(i, e). entity_change rel (if map_of bm i = None then EcAdded else EcModified) i e)
       (filter (\<lambda>(i, e). case map_of bm i of None \<Rightarrow> True | Some be \<Rightarrow> entity_bytes base be \<noteq> entity_bytes ov e) om)"
proof (induction om)
  case (Cons p om)
  obtain i e where "p = (i, e)" by fastforce
  with Cons show ?case by (cases "map_of bm i") simp_all
qed simp

lemma diff_base_entities_eq:
  "diff_base_entities rel om bm =
     map (\<lambda>(i, e). entity_change rel EcRemoved i e) (filter (\<lambda>(i, e). map_of om i = None) bm)"
  by (induction bm) auto

lemma map_entity_id: "map ec_entity_id (map (\<lambda>(i, e). entity_change rel (ty i) i e) xs) = map fst xs"
  by (simp add: case_prod_unfold)

lemma diff_overlay_entities_ids:
  "map ec_entity_id (diff_overlay_entities rel ov base bm om) =
   map fst (filter (\<lambda>(i, e). case map_of bm i of None \<Rightarrow> True | Some be \<Rightarrow> entity_bytes base be \<noteq> entity_bytes ov e) om)"
  unfolding diff_overlay_entities_eq by (rule map_entity_id)

lemma diff_base_entities_ids:
  "map ec_entity_id (diff_base_entities rel om bm) = map fst (filter (\<lambda>(i, e). map_of om i = None) bm)"
  unfolding diff_base_entities_eq by (rule map_entity_id)

lemma diff_overlay_entities_set:
  "(\<lambda>c. (ec_entity_id c, ec_change_type c)) ` set (diff_overlay_entities rel ov base bm om) =
     {(i, EcAdded) | i e. (i, e) \<in> set om \<and> map_of bm i = None} \<union>
     {(i, EcModified) | i e be. (i, e) \<in> set om \<and> map_of bm i = Some be \<and> entity_bytes base be \<noteq> entity_bytes ov e}"
proof -
  have "(\<lambda>c. (ec_entity_id c, ec_change_type c)) ` set (diff_overlay_entities rel ov base bm om) =
      (\<lambda>(i, e). (i, if map_of bm i = None then EcAdded else EcModified)) `
        {(i, e) \<in> set om. case map_of bm i of None \<Rightarrow> True | Some be \<Rightarrow> entity_bytes base be \<noteq> entity_bytes ov e}"
    unfolding diff_overlay_entities_eq by (simp add: image_image case_prod_unfold)
  also have "\<dots> = {(i, EcAdded) | i e. (i, e) \<in> set om \<and> map_of bm i = None} \<union>
     {(i, EcModified) | i e be. (i, e) \<in> set om \<and> map_of bm i = Some be \<and> entity_bytes base be \<noteq> entity_bytes ov e}"
    by (force split: option.splits)
  finally show ?thesis .
qed

lemma diff_base_entities_set:
  "(\<lambda>c. (ec_entity_id c, ec_change_type c)) ` set (diff_base_entities rel om bm) =
     {(i, EcRemoved) | i e. (i, e) \<in> set bm \<and> map_of om i = None}"
  unfolding diff_base_entities_eq by (force simp: image_image case_prod_unfold)

lemma entity_diff_distinct:
  assumes "distinct (map fst om)" "distinct (map fst bm)"
  shows "distinct (map ec_entity_id (diff_overlay_entities rel ov base bm om @ diff_base_entities rel om bm))"
  unfolding map_append diff_overlay_entities_ids diff_base_entities_ids
  using assms by (force simp: distinct_map_filter map_of_eq_None_iff)

section \<open>Properties\<close>

text \<open>Computing the diff of a workspace through the disk succeeds when its Rust files parse, and
  changes no file: every overlay file is reported exactly once, as modified when the repository
  has a file at that path and as added otherwise, followed by exactly those explicit deletions
  whose file exists.\<close>

theorem compute_with_fs_classifies:
  assumes "disk_inv wid d" "parse_total env"
  shows "\<exists>wd d' rels. compute_with_fs env (DiskMergeFs wid) d w bv dels = Inr (wd, d') \<and>
    distinct rels \<and> set rels = {r. map_of d (overlay_dir wid @ ''/'' @ r) \<noteq> None} \<and>
    map (\<lambda>fd. (fd_path fd, fd_change_type fd)) (wd_file_diffs wd) =
      map (\<lambda>r. (r, if map_of d r \<noteq> None then FcModified else FcAdded)) rels @
      map (\<lambda>p. (p, FcDeleted)) (filter (\<lambda>p. map_of d p \<noteq> None) dels) \<and>
    (\<forall>p. map_of d' p = map_of d p)"
proof -
  have fd: "disk.fdata wid d (overlay_key r) = map_of d (overlay_dir wid @ ''/'' @ r)"
    "disk.fdata wid d (base_key r) = map_of d r" for d r
    by (simp_all add: disk.fdata_def disk_loc_def)
  obtain wd d' rels where c: "compute_with_fs env (DiskMergeFs wid) d w bv dels = Inr (wd, d')"
    "disk.fdata wid d' = disk.fdata wid d" "distinct rels" "\<forall>r. r \<in> set rels \<longleftrightarrow> disk.fdata wid d (overlay_key r) \<noteq> None"
    "map (\<lambda>fd. (fd_path fd, fd_change_type fd)) (wd_file_diffs wd) =
      map (\<lambda>r. (r, overlay_change (disk.fdata wid d (base_key r) \<noteq> None))) rels @
      map (\<lambda>p. (p, FcDeleted)) (filter (\<lambda>p. disk.fdata wid d (base_key p) \<noteq> None) dels)"
    using disk.compute_with_fs_ok [OF assms] by blast
  have "map_of d' p = map_of d p" for p using fun_cong [OF c(2), of "base_key p"] by (simp add: fd)
  moreover have "set rels = {r. map_of d (overlay_dir wid @ ''/'' @ r) \<noteq> None}" using c(4) by (auto simp: fd)
  ultimately show ?thesis using c(1,3,5) unfolding fd overlay_change_def by blast
qed

text \<open>The entity diff of a file reports each entity identifier at most once: as added when only the
  overlay has it, as removed when only the base has it, and as modified exactly when both have it
  with different bytes.\<close>

theorem compute_entity_diff_exact:
  assumes "parse_rust_source env rel ov = Inr (oes, r1)" "parse_rust_source env rel base = Inr (bes, r2)"
  shows "\<exists>ecs. compute_entity_diff env rel ov (Some base) = Inr ecs \<and> distinct (map ec_entity_id ecs) \<and>
    (\<lambda>c. (ec_entity_id c, ec_change_type c)) ` set ecs =
      {(i, EcAdded) | i. i \<in> en_id ` set oes \<and> i \<notin> en_id ` set bes} \<union>
      {(i, EcModified) | i e be. map_of (entity_map oes) i = Some e \<and> map_of (entity_map bes) i = Some be \<and>
         entity_bytes base be \<noteq> entity_bytes ov e} \<union>
      {(i, EcRemoved) | i. i \<in> en_id ` set bes \<and> i \<notin> en_id ` set oes}"
proof -
  let ?om = "entity_map oes" and ?bm = "entity_map bes"
  let ?ecs = "diff_overlay_entities rel ov base ?bm ?om @ diff_base_entities rel ?om ?bm"
  have none: "map_of (entity_map es) i = None \<longleftrightarrow> i \<notin> en_id ` set es" for es i
    by (simp add: map_of_eq_None_iff entity_map_keys)
  have mem: "(i, e) \<in> set (entity_map es) \<longleftrightarrow> map_of (entity_map es) i = Some e" for es i e
    by (simp add: map_of_eq_Some_iff entity_map_distinct)
  have some: "i \<in> en_id ` set es \<longleftrightarrow> (\<exists>e. map_of (entity_map es) i = Some e)" for es i
    using none [of es i] by (cases "map_of (entity_map es) i") auto
  have "compute_entity_diff env rel ov (Some base) = Inr ?ecs" using assms by (simp add: compute_entity_diff_def Let_def)
  moreover have "distinct (map ec_entity_id ?ecs)"
    by (simp add: entity_diff_distinct entity_map_distinct del: map_append)
  moreover have "(\<lambda>c. (ec_entity_id c, ec_change_type c)) ` set ?ecs =
      {(i, EcAdded) | i. i \<in> en_id ` set oes \<and> i \<notin> en_id ` set bes} \<union>
      {(i, EcModified) | i e be. map_of ?om i = Some e \<and> map_of ?bm i = Some be \<and> entity_bytes base be \<noteq> entity_bytes ov e} \<union>
      {(i, EcRemoved) | i. i \<in> en_id ` set bes \<and> i \<notin> en_id ` set oes}"
    unfolding set_append image_Un diff_overlay_entities_set diff_base_entities_set mem none some by blast
  ultimately show ?thesis by blast
qed

text \<open>The change events of a diff are recorded only once: after a successful recording the active
  workspace is no longer in status Created, and recording again leaves the directory unchanged.\<close>

theorem record_events_once:
  assumes "wf_vai env vai" "record_events env vai diff now = Inr vai'"
  shows "wf_vai env vai' \<and> record_events env vai' diff' now' = Inr vai' \<and>
    (vai' = vai \<or> vai_kinds env vai' = vai_kinds env vai @
       map (file_event (wd_workspace_id diff)) (wd_file_diffs diff) @
       map (entity_event (wd_workspace_id diff)) (wd_entity_changes diff))"
proof -
  let ?ks = "map (file_event (wd_workspace_id diff)) (wd_file_diffs diff) @
    map (entity_event (wd_workspace_id diff)) (wd_entity_changes diff)"
  obtain m where m: "ws_active env vai = Inr m"
    using assms(2) by (cases "ws_active env vai") (simp_all add: record_events_def)
  show ?thesis
  proof (cases "wm_status m = WCreated")
    case False
    with m assms(2) have "vai' = vai" by (simp add: record_events_def)
    with False m assms(1) show ?thesis by (simp add: record_events_def)
  next
    case True
    let ?m = "m\<lparr>wm_status := WActive, wm_updated_at := now\<rparr>"
    have wl: "wf_log env (elog vai)" using assms(1) by (simp add: wf_vai_def)
    obtain log where l: "append_kinds (vai_append env) vai now ?ks = Inr (vai\<lparr>elog := log\<rparr>)" "wf_log env log"
      "vai_kinds env (vai\<lparr>elog := log\<rparr>) = vai_kinds env vai @ ?ks" by (rule append_kinds_vai [OF wl])
    let ?v1 = "vai\<lparr>elog := log\<rparr>"
    have wf1: "wf_vai env ?v1" using assms(1) l(2) by (simp add: wf_vai_def)
    obtain a where a: "active_file vai = Some a" "ws_view env vai a = Some m"
      using m read_active_wf [OF assms(1)] ws_get_view [OF wf_vai_dirs [OF assms(1)]]
      by (auto simp: ws_active_def split: option.splits)
    have am: "a = uuid_to_string env (wm_id m)" using ws_view_id [OF wf_vai_dirs [OF assms(1)] a(2)] .
    have "ws_view env ?v1 = ws_view env vai" by (rule ws_view_cong) simp
    then have "ws_view env ?v1 (uuid_to_string env (wm_id ?m)) \<noteq> None" using a(2) am by simp
    then obtain v2 where v2: "update_meta env ?v1 ?m = Inr v2" "wf_vai env v2"
      "ws_view env v2 = (ws_view env ?v1)(uuid_to_string env (wm_id ?m) \<mapsto> ?m)" "elog v2 = elog ?v1"
      "active_file v2 = active_file ?v1" by (rule wf_vai_write_meta [OF wf1]) blast
    have v: "vai' = v2" using assms(2) m True l(1) v2(1) by (simp add: record_events_def)
    have "ws_active env v2 = Inr ?m"
      using v2(3,5) a(1) am by (simp add: ws_active_def read_active_wf [OF v2(2)] ws_get_view [OF wf_vai_dirs [OF v2(2)]])
    moreover have "vai_kinds env v2 = vai_kinds env vai @ ?ks" using l(3) v2(4) by (simp add: vai_kinds_def)
    ultimately show ?thesis using v v2(2) by (simp add: record_events_def)
  qed
qed

section \<open>Concrete inputs\<close>

definition sample_diff_env :: diff_env where
  "sample_diff_env = \<lparr>ev_to_json = to_text e_event, ev_from_json = from_text d_event,
     to_rfc3339 = nat_to_string, uuid_to_string = nat_to_string,
     meta_to_toml = to_text e_meta, meta_from_toml = from_text d_meta,
     ver_to_toml = to_text e_ver, ver_from_toml = from_text d_ver,
     parse_rust_source = (\<lambda>f c. Inr (if c = [] then [] else [sample_entity ''e1'' f], [])),
     sha256_hex = (\<lambda>c. c), paths_from_json = from_text (d_list d_str)\<rparr>"

lemma sample_diff_ok [simp]:
  "json_ok sample_diff_env" "meta_ok sample_diff_env" "uuid_ok sample_diff_env" "ver_ok sample_diff_env" "parse_total sample_diff_env"
  by (auto intro: json_ok_text meta_ok_text uuid_ok_decimal
      simp: sample_diff_env_def ver_ok_def from_to_text parse_total_def)

lemma sample_diff_wf: "wf_vai sample_diff_env vai_empty"
  by (simp add: wf_vai_empty)

theorem compute_with_fs_classifies_witness:
  "\<exists>wd d' rels. compute_with_fs sample_diff_env (DiskMergeFs ''7'') [(''.vai/workspaces/7/overlay/a.rs'', ''x''), (''a.rs'', ''y'')] 7 ''v1'' [''b''] = Inr (wd, d') \<and>
     distinct rels \<and> map (\<lambda>fd. (fd_path fd, fd_change_type fd)) (wd_file_diffs wd) =
      map (\<lambda>r. (r, if map_of [(''.vai/workspaces/7/overlay/a.rs'', ''x''), (''a.rs'', ''y'')] r \<noteq> None then FcModified else FcAdded)) rels @
      map (\<lambda>p. (p, FcDeleted)) (filter (\<lambda>p. map_of [(''.vai/workspaces/7/overlay/a.rs'', ''x''), (''a.rs'', ''y'')] p \<noteq> None) [''b''])"
proof -
  have "disk_inv ''7'' [(''.vai/workspaces/7/overlay/a.rs'', ''x''), (''a.rs'', ''y'')]" by (simp add: disk_inv_def)
  from compute_with_fs_classifies [OF this sample_diff_ok(5), of 7 "''v1''" "[''b'']"] show ?thesis by blast
qed

theorem compute_entity_diff_exact_witness:
  "\<exists>ecs. compute_entity_diff sample_diff_env ''a.rs'' ''x'' (Some []) = Inr ecs \<and> distinct (map ec_entity_id ecs)"
proof -
  have p: "parse_rust_source sample_diff_env ''a.rs'' ''x'' = Inr ([sample_entity ''e1'' ''a.rs''], [])"
    "parse_rust_source sample_diff_env ''a.rs'' [] = Inr ([], [])" by (simp_all add: sample_diff_env_def)
  show ?thesis using compute_entity_diff_exact [OF p] by (elim exE conjE) (intro exI conjI)
qed

theorem record_events_once_witness:
  "\<exists>vai :: vai_dir. \<exists>vai' diff. record_events sample_diff_env vai diff 2 = Inr vai' \<and> record_events sample_diff_env vai' diff 3 = Inr vai'"
proof -
  let ?d = "\<lparr>wd_workspace_id = 5, wd_base_version = ''v1'', wd_file_diffs = [], wd_entity_changes = []\<rparr>"
  obtain r :: CreateResult and vai :: vai_dir where c: "wf_vai sample_diff_env vai"
    "ws_view sample_diff_env vai = (ws_view sample_diff_env vai_empty)(uuid_to_string sample_diff_env 5 \<mapsto> cr_workspace r)"
    "active_file vai = Some (uuid_to_string sample_diff_env 5)"
    "cr_workspace r = \<lparr>wm_id = 5, wm_intent = ''fix'', wm_base_version = ''v1'', wm_status = WCreated,
       wm_created_at = 1, wm_updated_at = 1, wm_issue_id = None, wm_deleted_paths = []\<rparr>"
    by (rule create_with_id_ok [OF sample_diff_wf, of "''fix''" "''v1''" 5 1]) blast
  have act: "ws_active sample_diff_env vai = Inr (cr_workspace r)"
    using c(2,3) by (simp add: ws_active_def read_active_wf [OF c(1)] ws_get_view [OF wf_vai_dirs [OF c(1)]])
  let ?m = "(cr_workspace r)\<lparr>wm_status := WActive, wm_updated_at := 2\<rparr>"
  have "ws_view sample_diff_env vai (uuid_to_string sample_diff_env (wm_id ?m)) \<noteq> None" using c(2,4) by simp
  then obtain v2 where "update_meta sample_diff_env vai ?m = Inr v2"
    by (rule wf_vai_write_meta [OF c(1)]) blast
  then have rec: "record_events sample_diff_env vai ?d 2 = Inr v2" using act c(4) by (simp add: record_events_def)
  from record_events_once [OF c(1) rec, of ?d 3] rec show ?thesis by blast
qed

end
