(* ===== verification/TextMerge.thy ===== *)
theory TextMerge
  imports Vai_Prelude
begin

text \<open>
  Level 1 of the merge engine (\<open>src/merge/mod.rs\<close>): lossy decoding and line splitting, the
  longest common subsequence of two line sequences by a dynamic-programming table, the hunks
  derived from it, the overlap test and the application of two hunk sets to the base text.

  The abstract specification is \<open>patch_spec\<close>, which says line by line what a set of hunks
  does to a text: every hunk inserts its lines before its first base line and deletes its base
  range. The lemmas show that the table computes a longest common subsequence, that the hunks
  computed from it are exactly the difference of the two texts, and when the loop that applies
  two hunk sets computes their specification or panics on a slice index.
\<close>

section \<open>Line splitting\<close>

definition split_lines :: "bytes \<Rightarrow> string list" where
  "split_lines content =
     (let s = from_utf8_lossy content in if s = [] then [] else str_lines s)"

section \<open>Longest common subsequence\<close>

text \<open>One row of the table, from the row below it; the loop over \<open>j\<close> runs from the right.\<close>

fun dp_row :: "'a \<Rightarrow> 'a list \<Rightarrow> nat list \<Rightarrow> nat list" where
  "dp_row x [] below = [0]"
| "dp_row x (y # ys) below =
     (let rest = dp_row x ys (tl below)
      in (if x = y then 1 + hd (tl below) else max (hd below) (hd rest)) # rest)"

fun dp_table :: "'a list \<Rightarrow> 'a list \<Rightarrow> nat list list" where
  "dp_table [] b = [replicate (Suc (length b)) 0]"
| "dp_table (x # xs) b = (let below = dp_table xs b in dp_row x b (hd below) # below)"

function lcs_walk :: "'a list \<Rightarrow> 'a list \<Rightarrow> nat list list \<Rightarrow> nat \<Rightarrow> nat \<Rightarrow> (nat \<times> nat) list" where
  "lcs_walk a b dp i j =
     (if i < length a \<and> j < length b then
        (if a ! i = b ! j then (i, j) # lcs_walk a b dp (Suc i) (Suc j)
         else if dp ! Suc i ! j \<ge> dp ! i ! Suc j then lcs_walk a b dp (Suc i) j
         else lcs_walk a b dp i (Suc j))
      else [])"
  by pat_completeness auto
termination
  by (relation "measure (\<lambda>(a, b, dp, i, j). (length a - i) + (length b - j))") auto

declare lcs_walk.simps [simp del]

definition lcs_indices :: "'a list \<Rightarrow> 'a list \<Rightarrow> (nat \<times> nat) list" where
  "lcs_indices a b =
     (if length a = 0 \<or> length b = 0 then [] else lcs_walk a b (dp_table a b) 0 0)"

text \<open>The length the table stands for.\<close>

fun lcs_len :: "'a list \<Rightarrow> 'a list \<Rightarrow> nat" where
  "lcs_len [] ys = 0"
| "lcs_len xs [] = 0"
| "lcs_len (x # xs) (y # ys) =
     (if x = y then Suc (lcs_len xs ys) else max (lcs_len xs (y # ys)) (lcs_len (x # xs) ys))"

lemma lcs_len_Nil2 [simp]: "lcs_len xs [] = 0"
  by (cases xs) simp_all

lemma dp_row_correct:
  assumes "below = map (\<lambda>j. lcs_len xs (drop j ys)) [0..<Suc (length ys)]"
  shows "dp_row x ys below = map (\<lambda>j. lcs_len (x # xs) (drop j ys)) [0..<Suc (length ys)]"
  using assms
proof (induction ys arbitrary: below)
  case (Cons y ys)
  have b: "below = lcs_len xs (y # ys) # map (\<lambda>j. lcs_len xs (drop j ys)) [0..<Suc (length ys)]"
    unfolding Cons.prems by (simp add: upt_conv_Cons map_Suc_upt [symmetric] del: upt_Suc)
  have hd2: "hd (map (\<lambda>j. lcs_len zs (drop j ys)) [0..<Suc (length ys)]) = lcs_len zs ys" for zs
    by (simp add: upt_conv_Cons del: upt_Suc)
  have "dp_row x ys (tl below) = map (\<lambda>j. lcs_len (x # xs) (drop j ys)) [0..<Suc (length ys)]"
    by (rule Cons.IH) (simp add: b del: upt_Suc)
  then show ?case
    by (simp add: b hd2 upt_conv_Cons map_Suc_upt [symmetric] Let_def del: upt_Suc)
qed simp

lemma dp_table_correct:
  "dp_table a b = map (\<lambda>i. map (\<lambda>j. lcs_len (drop i a) (drop j b)) [0..<Suc (length b)]) [0..<Suc (length a)]"
proof (induction a)
  case Nil
  then show ?case by (simp add: map_replicate_const del: upt_Suc)
next
  case (Cons x xs)
  have hd0: "hd (map f [0..<Suc n]) = f 0" for f :: "nat \<Rightarrow> nat list" and n
    by (simp add: upt_conv_Cons del: upt_Suc)
  have "dp_row x b (hd (dp_table xs b)) = map (\<lambda>j. lcs_len (x # xs) (drop j b)) [0..<Suc (length b)]"
    by (rule dp_row_correct) (simp add: Cons hd0 del: upt_Suc)
  then show ?case
    by (simp add: Cons upt_conv_Cons [of 0 "Suc (Suc (length xs))"] map_Suc_upt [symmetric] Let_def comp_def
             del: upt_Suc)
qed

lemma dp_table_nth:
  "i \<le> length a \<Longrightarrow> j \<le> length b \<Longrightarrow> dp_table a b ! i ! j = lcs_len (drop i a) (drop j b)"
  by (simp add: dp_table_correct del: upt_Suc)


text \<open>The walk reads the table at the positions it visits, so it walks the specification.\<close>

lemma lcs_walk_length:
  "i \<le> length a \<Longrightarrow> j \<le> length b \<Longrightarrow>
   length (lcs_walk a b (dp_table a b) i j) = lcs_len (drop i a) (drop j b)"
proof (induction a b "dp_table a b" i j rule: lcs_walk.induct)
  case (1 a b i j)
  show ?case
  proof (cases "i < length a \<and> j < length b")
    case True
    then have d: "drop i a = a ! i # drop (Suc i) a" "drop j b = b ! j # drop (Suc j) b"
      by (simp_all add: Cons_nth_drop_Suc)
    show ?thesis using 1 True
      by (subst lcs_walk.simps) (auto simp: d dp_table_nth max_def)
  next
    case False
    with 1 show ?thesis by (subst lcs_walk.simps) auto
  qed
qed

text \<open>The pairs increase strictly in both coordinates from \<open>(i, j)\<close> and match equal elements.\<close>

fun matching :: "'a list \<Rightarrow> 'a list \<Rightarrow> nat \<Rightarrow> nat \<Rightarrow> (nat \<times> nat) list \<Rightarrow> bool" where
  "matching a b i j [] = (i \<le> length a \<and> j \<le> length b)"
| "matching a b i j ((x, y) # ps) =
     (i \<le> x \<and> j \<le> y \<and> x < length a \<and> y < length b \<and> a ! x = b ! y \<and>
      matching a b (Suc x) (Suc y) ps)"

lemma matching_mono: "matching a b i' j' ps \<Longrightarrow> i \<le> i' \<Longrightarrow> j \<le> j' \<Longrightarrow> matching a b i j ps"
  by (cases ps) auto

lemma lcs_walk_matching:
  "i \<le> length a \<Longrightarrow> j \<le> length b \<Longrightarrow> matching a b i j (lcs_walk a b dp i j)"
proof (induction a b dp i j rule: lcs_walk.induct)
  case (1 a b dp i j)
  show ?case
  proof (cases "i < length a \<and> j < length b")
    case True
    with 1 show ?thesis
      by (subst lcs_walk.simps) (auto intro: matching_mono)
  next
    case False
    with 1 show ?thesis by (subst lcs_walk.simps) auto
  qed
qed

lemma lcs_indices_walk: "lcs_indices a b = lcs_walk a b (dp_table a b) 0 0"
  by (auto simp: lcs_indices_def lcs_walk.simps [of a b _ 0 0])

lemma lcs_indices_matching: "matching a b 0 0 (lcs_indices a b)"
  by (simp add: lcs_indices_walk lcs_walk_matching)

lemma lcs_indices_length: "length (lcs_indices a b) = lcs_len a b"
  by (simp add: lcs_indices_walk lcs_walk_length)

lemma subseq_Cons_both: "subseq (z # zs) (x # xs) \<Longrightarrow> z \<noteq> x \<Longrightarrow> subseq (z # zs) xs"
  by (auto elim: list_emb.cases)

lemma subseq_length_lcs_len: "subseq zs xs \<Longrightarrow> subseq zs ys \<Longrightarrow> length zs \<le> lcs_len xs ys"
proof (induction xs ys arbitrary: zs rule: lcs_len.induct)
  case (3 x xs y ys)
  show ?case
  proof (cases zs)
    case Nil
    then show ?thesis by simp
  next
    case (Cons z zs')
    show ?thesis
    proof (cases "x = y")
      case True
      from 3(4,5) Cons have "subseq zs' xs" "subseq zs' ys"
        by (metis subseq_Cons2_iff subseq_Cons')+
      with 3(1) True Cons show ?thesis by simp
    next
      case False
      then consider "z \<noteq> x" | "z \<noteq> y" by blast
      then show ?thesis
      proof cases
        case 1
        with 3(4) Cons have "subseq zs xs" by (auto dest: subseq_Cons_both)
        with 3(2,5) False show ?thesis by (simp add: le_max_iff_disj)
      next
        case 2
        with 3(5) Cons have "subseq zs ys" by (auto dest: subseq_Cons_both)
        with 3(3,4) False show ?thesis by (simp add: le_max_iff_disj)
      qed
    qed
  qed
qed auto

section \<open>Hunks\<close>

record hunk =
  base_start :: nat
  base_end :: nat
  new_lines :: "string list"

fun hunk_loop :: "string list \<Rightarrow> string list \<Rightarrow> nat \<Rightarrow> nat \<Rightarrow> (nat \<times> nat) list \<Rightarrow> hunk list" where
  "hunk_loop base modified base_pos mod_pos [] =
     (if base_pos < length base \<or> mod_pos < length modified
      then [\<lparr>base_start = base_pos, base_end = length base, new_lines = drop mod_pos modified\<rparr>]
      else [])"
| "hunk_loop base modified base_pos mod_pos ((bi, mi) # pairs) =
     (if bi > base_pos \<or> mi > mod_pos
      then [\<lparr>base_start = base_pos, base_end = bi,
             new_lines = take (mi - mod_pos) (drop mod_pos modified)\<rparr>]
      else []) @ hunk_loop base modified (Suc bi) (Suc mi) pairs"

definition compute_hunks :: "string list \<Rightarrow> string list \<Rightarrow> hunk list" where
  "compute_hunks base modified =
     filter (\<lambda>h. base_start h < base_end h \<or> new_lines h \<noteq> [])
       (hunk_loop base modified 0 0 (lcs_indices base modified))"

definition hunk_pair_overlap :: "hunk \<Rightarrow> hunk \<Rightarrow> bool" where
  "hunk_pair_overlap ha hb =
     (if base_start ha < base_end ha \<and> base_start hb < base_end hb
      then base_start ha < base_end hb \<and> base_start hb < base_end ha
      else base_start ha = base_end ha \<and> base_start hb = base_end hb \<and>
           base_start ha = base_start hb \<and> new_lines ha \<noteq> [] \<and> new_lines hb \<noteq> [])"

definition hunks_overlap :: "hunk list \<Rightarrow> hunk list \<Rightarrow> bool" where
  "hunks_overlap a b = list_ex (\<lambda>ha. list_ex (hunk_pair_overlap ha) b) a"

text \<open>
  The loop that applies the sorted hunks; \<open>None\<close> is the panic of the slice
  \<open>base[pos..hunk.base_start]\<close> when it is not a valid range.
\<close>

definition slice_range :: "'a list \<Rightarrow> nat \<Rightarrow> nat \<Rightarrow> 'a list option" where
  "slice_range xs a b = (if a \<le> b \<and> b \<le> length xs then Some (take (b - a) (drop a xs)) else None)"

fun apply_loop :: "string list \<Rightarrow> nat \<Rightarrow> hunk list \<Rightarrow> string list option" where
  "apply_loop base pos [] = slice_range base pos (length base)"
| "apply_loop base pos (h # hs) =
     (case slice_range base pos (base_start h) of
        None \<Rightarrow> None
      | Some before \<Rightarrow>
          map_option (\<lambda>rest. before @ new_lines h @ rest)
            (apply_loop base (if base_end h > pos then base_end h else pos) hs))"

definition join_lines :: "bytes \<Rightarrow> bytes \<Rightarrow> string list \<Rightarrow> bytes" where
  "join_lines head_raw ws_raw ls =
     (let out = join_with [CHR 0x0A] ls;
          had_newline = ends_with head_raw [CHR 0x0A] \<or> ends_with ws_raw [CHR 0x0A]
      in if had_newline \<and> \<not> ends_with out [CHR 0x0A] then out @ [CHR 0x0A] else out)"

definition apply_two_hunk_sets ::
  "string list \<Rightarrow> bytes \<Rightarrow> bytes \<Rightarrow> hunk list \<Rightarrow> hunk list \<Rightarrow> bytes option" where
  "apply_two_hunk_sets base head_raw ws_raw head_hunks ws_hunks =
     (if head_hunks = [] then Some ws_raw
      else if ws_hunks = [] then Some head_raw
      else map_option (join_lines head_raw ws_raw)
             (apply_loop base 0 (sort_key base_start (head_hunks @ ws_hunks))))"


section \<open>Specification of a patch\<close>

text \<open>
  What a set of hunks makes of base line \<open>i\<close>: the lines inserted before it by the hunks that
  start there, then the line itself unless some hunk deletes it. Position \<open>length base\<close> is the
  end of the text, where only insertions happen.
\<close>

definition inserted_at :: "hunk list \<Rightarrow> nat \<Rightarrow> string list" where
  "inserted_at hs i = concat (map new_lines (filter (\<lambda>h. base_start h = i) hs))"

definition deleted_at :: "hunk list \<Rightarrow> nat \<Rightarrow> bool" where
  "deleted_at hs i = list_ex (\<lambda>h. base_start h \<le> i \<and> i < base_end h) hs"

definition line_view :: "string list \<Rightarrow> hunk list \<Rightarrow> nat \<Rightarrow> string list" where
  "line_view base hs i =
     inserted_at hs i @ (if i < length base \<and> \<not> deleted_at hs i then [base ! i] else [])"

definition patch_from :: "string list \<Rightarrow> hunk list \<Rightarrow> nat \<Rightarrow> string list" where
  "patch_from base hs pos = concat (map (line_view base hs) [pos..<Suc (length base)])"

definition patch_spec :: "string list \<Rightarrow> hunk list \<Rightarrow> string list" where
  "patch_spec base hs = patch_from base hs 0"

text \<open>Two hunks can be applied one after the other when the first ends before the second starts.\<close>

definition ends_before :: "hunk \<Rightarrow> hunk \<Rightarrow> bool" where
  "ends_before h h' \<longleftrightarrow> base_end h \<le> base_start h'"

fun chained :: "nat \<Rightarrow> nat \<Rightarrow> hunk list \<Rightarrow> bool" where
  "chained n pos [] = (pos \<le> n)"
| "chained n pos (h # hs) =
     (pos \<le> base_start h \<and> base_start h \<le> base_end h \<and> base_end h \<le> n \<and> chained n (base_end h) hs)"

definition wf_hunk :: "nat \<Rightarrow> hunk \<Rightarrow> bool" where
  "wf_hunk n h \<longleftrightarrow> base_start h \<le> base_end h \<and> base_end h \<le> n"

lemma chained_iff:
  "chained n pos hs \<longleftrightarrow>
     pos \<le> n \<and> (\<forall>h\<in>set hs. pos \<le> base_start h \<and> wf_hunk n h) \<and> sorted_wrt ends_before hs"
proof (induction hs arbitrary: pos)
  case (Cons h hs)
  then show ?case by (auto simp: wf_hunk_def ends_before_def)
qed simp

lemma chained_mono: "chained n p' hs \<Longrightarrow> p \<le> p' \<Longrightarrow> chained n p hs"
  by (cases hs) auto

lemma apply_loop_Some_iff:
  "pos \<le> length base \<Longrightarrow> \<forall>h\<in>set hs. wf_hunk (length base) h \<Longrightarrow>
   (\<exists>r. apply_loop base pos hs = Some r) \<longleftrightarrow> chained (length base) pos hs"
proof (induction hs arbitrary: pos)
  case (Cons h hs)
  then have wf: "base_start h \<le> base_end h" "base_end h \<le> length base" by (simp_all add: wf_hunk_def)
  show ?case
  proof (cases "pos \<le> base_start h")
    case True
    with wf have "(if base_end h > pos then base_end h else pos) = base_end h" by auto
    with True wf Cons show ?thesis by (auto simp: slice_range_def)
  next
    case False
    then show ?thesis by (simp add: slice_range_def)
  qed
qed (simp add: slice_range_def)

lemma line_view_before:
  assumes "\<forall>h\<in>set hs. i < base_start h" and "i < length base"
  shows "line_view base hs i = [base ! i]"
proof -
  from assms have "inserted_at hs i = []" "\<not> deleted_at hs i"
    by (auto simp: inserted_at_def deleted_at_def list_ex_iff filter_empty_conv)
  with assms show ?thesis by (simp add: line_view_def)
qed

lemma concat_singletons: "a \<le> b \<Longrightarrow> b \<le> length xs \<Longrightarrow> concat (map (\<lambda>i. [xs ! i]) [a..<b]) = take (b - a) (drop a xs)"
proof (induction b)
  case (Suc b)
  then show ?case
  proof (cases "a = Suc b")
    case False
    with Suc.prems have "a \<le> b" "b < length xs" by auto
    with Suc.IH show ?thesis
      by (simp add: Suc_diff_le take_Suc_conv_app_nth)
  qed simp
qed simp

lemma patch_from_split:
  "pos \<le> q \<Longrightarrow> q \<le> length base \<Longrightarrow>
   patch_from base hs pos = concat (map (line_view base hs) [pos..<q]) @ patch_from base hs q"
  unfolding patch_from_def
  using upt_add_eq_append [of pos q "Suc (length base) - q"] by (simp del: upt_Suc)

lemma patch_from_skip:
  assumes "pos \<le> q" "q \<le> length base" "\<forall>h\<in>set hs. q \<le> base_start h"
  shows "patch_from base hs pos = take (q - pos) (drop pos base) @ patch_from base hs q"
proof -
  have "map (line_view base hs) [pos..<q] = map (\<lambda>i. [base ! i]) [pos..<q]"
    using assms by (intro map_cong) (auto intro!: line_view_before)
  then have "concat (map (line_view base hs) [pos..<q]) = take (q - pos) (drop pos base)"
    using concat_singletons [of pos q base] assms by (simp only:)
  then show ?thesis
    using assms patch_from_split [of pos q base hs] by simp
qed

lemma line_view_Cons_other:
  "base_end h \<le> i \<Longrightarrow> base_start h \<noteq> i \<Longrightarrow> line_view base (h # hs) i = line_view base hs i"
  by (simp add: line_view_def inserted_at_def deleted_at_def)

lemma line_view_Cons_insert:
  "base_start h = i \<Longrightarrow> base_end h = i \<Longrightarrow> line_view base (h # hs) i = new_lines h @ line_view base hs i"
  by (simp add: line_view_def inserted_at_def deleted_at_def)

lemma line_view_Cons_delete:
  assumes "base_start h \<le> i" "i < base_end h" "\<forall>h'\<in>set hs. base_end h \<le> base_start h'"
  shows "line_view base (h # hs) i = (if base_start h = i then new_lines h else [])"
proof -
  have "filter (\<lambda>h'. base_start h' = i) hs = []"
    using assms by (auto simp: filter_empty_conv)
  with assms show ?thesis by (simp add: line_view_def inserted_at_def deleted_at_def)
qed

lemma patch_from_hunk:
  assumes "wf_hunk (length base) h" "\<forall>h'\<in>set hs. base_end h \<le> base_start h'"
  shows "patch_from base (h # hs) (base_start h) = new_lines h @ patch_from base hs (base_end h)"
proof (cases "base_start h = base_end h")
  case True
  have "patch_from base (h # hs) (base_start h) =
      line_view base (h # hs) (base_start h) @ concat (map (line_view base (h # hs)) [Suc (base_start h)..<Suc (length base)])"
    using assms True by (simp add: patch_from_def wf_hunk_def upt_conv_Cons del: upt_Suc)
  also have "map (line_view base (h # hs)) [Suc (base_start h)..<Suc (length base)] =
      map (line_view base hs) [Suc (base_start h)..<Suc (length base)]"
    using True by (intro map_cong) (auto intro!: line_view_Cons_other)
  finally show ?thesis
    using assms True by (simp add: line_view_Cons_insert patch_from_def wf_hunk_def upt_conv_Cons del: upt_Suc)
next
  case False
  with assms have lt: "base_start h < base_end h" by (simp add: wf_hunk_def)
  have tl: "map (line_view base (h # hs)) [Suc (base_start h)..<base_end h] = map (\<lambda>i. []) [Suc (base_start h)..<base_end h]"
    using assms by (intro map_cong) (auto simp: line_view_Cons_delete)
  have "concat (map (line_view base (h # hs)) [base_start h..<base_end h]) = new_lines h"
    unfolding upt_conv_Cons [OF lt] using assms lt tl
    by (simp add: line_view_Cons_delete concat_eq_Nil_conv)
  moreover have "patch_from base (h # hs) (base_end h) = patch_from base hs (base_end h)"
    unfolding patch_from_def using lt
    by (intro arg_cong [of _ _ concat] map_cong) (auto intro!: line_view_Cons_other)
  ultimately show ?thesis
    using assms lt patch_from_split [of "base_start h" "base_end h" base "h # hs"] by (simp add: wf_hunk_def)
qed

lemma patch_from_Nil: "pos \<le> length base \<Longrightarrow> patch_from base [] pos = drop pos base"
  using patch_from_skip [of pos "length base" base "[]"]
  by (simp add: patch_from_def line_view_def inserted_at_def del: upt_Suc)

lemma apply_loop_patch:
  "chained (length base) pos hs \<Longrightarrow> apply_loop base pos hs = Some (patch_from base hs pos)"
proof (induction hs arbitrary: pos)
  case Nil
  then show ?case by (simp add: slice_range_def patch_from_Nil)
next
  case (Cons h hs)
  then have c: "pos \<le> base_start h" "wf_hunk (length base) h" "chained (length base) (base_end h) hs"
    by (simp_all add: wf_hunk_def)
  then have st: "\<forall>h'\<in>set hs. base_end h \<le> base_start h'" and wf: "base_start h \<le> base_end h" "base_end h \<le> length base"
    by (simp_all add: chained_iff wf_hunk_def)
  have "patch_from base (h # hs) pos =
      take (base_start h - pos) (drop pos base) @ patch_from base (h # hs) (base_start h)"
    using c st wf by (intro patch_from_skip) auto
  moreover have "(if base_end h > pos then base_end h else pos) = base_end h"
    using c wf by auto
  ultimately show ?case
    using c wf st Cons.IH [OF c(3)] by (simp add: slice_range_def patch_from_hunk)
qed


section \<open>The hunks are the difference of the two texts\<close>

lemma apply_loop_step:
  assumes "apply_loop base (Suc p) hs = Some r" and "p < length base"
    and "\<forall>h\<in>set hs. wf_hunk (length base) h"
  shows "apply_loop base p hs = Some (base ! p # r)"
proof -
  have ch: "chained (length base) (Suc p) hs"
    using assms apply_loop_Some_iff [of "Suc p" base hs] by auto
  then have le: "\<forall>h\<in>set hs. Suc p \<le> base_start h" by (simp add: chained_iff)
  have "patch_from base hs p = take 1 (drop p base) @ patch_from base hs (Suc p)"
    using patch_from_skip [of p "Suc p" base hs] assms le by simp
  moreover have "take 1 (drop p base) = [base ! p]"
    using assms by (simp add: take_Suc_conv_app_nth take_drop)
  moreover have "apply_loop base p hs = Some (patch_from base hs p)"
    using ch by (intro apply_loop_patch) (auto intro: chained_mono)
  ultimately show ?thesis using ch assms by (simp add: apply_loop_patch)
qed

lemma hunk_loop_wf:
  "matching base m bp mp ps \<Longrightarrow> h \<in> set (hunk_loop base m bp mp ps) \<Longrightarrow>
   wf_hunk (length base) h \<and> (base_start h < base_end h \<or> new_lines h \<noteq> [])"
proof (induction ps arbitrary: bp mp)
  case (Cons p ps)
  then show ?case by (cases p) (auto simp: wf_hunk_def split: if_splits)
qed (auto simp: wf_hunk_def split: if_splits)

lemma hunk_loop_apply:
  "matching base m bp mp ps \<Longrightarrow> apply_loop base bp (hunk_loop base m bp mp ps) = Some (drop mp m)"
proof (induction ps arbitrary: bp mp)
  case Nil
  then show ?case by (auto simp: slice_range_def)
next
  case (Cons p ps)
  obtain bi mi where p: "p = (bi, mi)" by fastforce
  with Cons.prems have c: "bp \<le> bi" "mp \<le> mi" "bi < length base" "mi < length m" "base ! bi = m ! mi"
    "matching base m (Suc bi) (Suc mi) ps" by simp_all
  let ?hs = "hunk_loop base m (Suc bi) (Suc mi) ps"
  have "apply_loop base bi ?hs = Some (base ! bi # drop (Suc mi) m)"
    using Cons.IH [OF c(6)] c hunk_loop_wf [OF c(6)] by (intro apply_loop_step) auto
  then have rest: "apply_loop base bi ?hs = Some (drop mi m)"
    using c by (simp add: Cons_nth_drop_Suc)
  have "take (mi - mp) (drop mp m) @ drop mi m = drop mp m"
    using c by (metis append_take_drop_id drop_drop le_add_diff_inverse2)
  with rest c p show ?case by (auto simp: slice_range_def)
qed

lemma compute_hunks_loop:
  "compute_hunks base m = hunk_loop base m 0 0 (lcs_indices base m)"
  unfolding compute_hunks_def
  using hunk_loop_wf [OF lcs_indices_matching] by (intro filter_True) blast

lemma compute_hunks_apply: "apply_loop base 0 (compute_hunks base m) = Some m"
  by (simp add: compute_hunks_loop hunk_loop_apply lcs_indices_matching)

lemma compute_hunks_wf: "h \<in> set (compute_hunks base m) \<Longrightarrow> wf_hunk (length base) h"
  using hunk_loop_wf [OF lcs_indices_matching] by (simp add: compute_hunks_loop)

lemma compute_hunks_chained: "chained (length base) 0 (compute_hunks base m)"
  using apply_loop_Some_iff [of 0 base "compute_hunks base m"] compute_hunks_apply compute_hunks_wf
  by auto

section \<open>Applying two hunk sets\<close>

text \<open>
  Every hunk of one set ends before the next hunk of the other one starts, in the order of the
  stable sort (of two hunks with the same start, the HEAD hunk comes first).
\<close>

definition hunks_separated :: "hunk list \<Rightarrow> hunk list \<Rightarrow> bool" where
  "hunks_separated head_hunks ws_hunks =
     list_all (\<lambda>h. list_all (\<lambda>w.
       (base_start h \<le> base_start w \<longrightarrow> base_end h \<le> base_start w) \<and>
       (base_start w < base_start h \<longrightarrow> base_end w \<le> base_start h)) ws_hunks) head_hunks"

lemma hunks_separated_iff:
  "hunks_separated hs ws \<longleftrightarrow> (\<forall>h\<in>set hs. \<forall>w\<in>set ws. sort_pair base_start ends_before h w)"
  by (simp add: hunks_separated_def list_all_iff sort_pair_def ends_before_def)

lemma chained_sort_pairs: "chained n pos hs \<Longrightarrow> sorted_wrt (sort_pair base_start ends_before) hs"
  by (rule sorted_wrt_mono_rel [where P = ends_before])
     (auto simp: chained_iff sort_pair_def ends_before_def wf_hunk_def)

lemma chained_sort_append:
  assumes "chained n 0 hs" "chained n 0 ws"
  shows "chained n 0 (sort_key base_start (hs @ ws)) \<longleftrightarrow> hunks_separated hs ws"
  using assms chained_sort_pairs [OF assms(1)] chained_sort_pairs [OF assms(2)]
  by (auto simp: chained_iff [of n 0 "sort_key base_start (hs @ ws)"] chained_iff [of n 0 hs]
        chained_iff [of n 0 ws] sorted_wrt_sort_key sorted_wrt_append hunks_separated_iff)

lemma patch_spec_sort: "patch_spec base (sort_key base_start hs) = patch_spec base hs"
proof -
  have "filter (\<lambda>h. base_start h = i) (sort_key base_start hs) = filter (\<lambda>h. base_start h = i) hs" for i
    by (rule sort_key_stable)
  then have "line_view base (sort_key base_start hs) = line_view base hs"
    by (simp add: fun_eq_iff line_view_def inserted_at_def deleted_at_def list_ex_iff)
  then show ?thesis by (simp add: patch_spec_def patch_from_def)
qed

lemma apply_loop_sorted:
  assumes "chained (length base) 0 hs" "chained (length base) 0 ws"
  shows "apply_loop base 0 (sort_key base_start (hs @ ws)) =
    (if hunks_separated hs ws then Some (patch_spec base (hs @ ws)) else None)"
proof (cases "hunks_separated hs ws")
  case True
  with chained_sort_append [OF assms]
  have "apply_loop base 0 (sort_key base_start (hs @ ws)) = Some (patch_spec base (sort_key base_start (hs @ ws)))"
    by (simp only: apply_loop_patch patch_spec_def)
  with True show ?thesis by (simp only: patch_spec_sort if_True)
next
  case False
  have "\<forall>h\<in>set (sort_key base_start (hs @ ws)). wf_hunk (length base) h"
    using assms by (auto simp: chained_iff)
  with False chained_sort_append [OF assms] show ?thesis
    using apply_loop_Some_iff [of 0 base "sort_key base_start (hs @ ws)"] by (auto simp del: sort_key_simps)
qed


lemma matching_subseq:
  "matching a b i j ps \<Longrightarrow>
   subseq (map (\<lambda>p. a ! fst p) ps) (drop i a) \<and> subseq (map (\<lambda>p. a ! fst p) ps) (drop j b)"
proof (induction ps arbitrary: i j)
  case (Cons p ps)
  obtain x y where p: "p = (x, y)" by fastforce
  have shift: "subseq (zs ! n # ms) (drop k zs)"
    if "k \<le> n" "n < length zs" "subseq ms (drop (Suc n) zs)" for zs :: "'a list" and ms k n
  proof -
    have "drop k zs = take (n - k) (drop k zs) @ zs ! n # drop (Suc n) zs"
      using that by (metis Cons_nth_drop_Suc append_take_drop_id drop_drop le_add_diff_inverse2)
    moreover have "subseq (zs ! n # ms) (zs ! n # drop (Suc n) zs)" using that by simp
    ultimately show ?thesis by (metis subseq_drop_many append_Nil list_emb_append_mono list_emb_Nil)
  qed
  from Cons p have *: "a ! x = b ! y" "i \<le> x" "j \<le> y" "x < length a" "y < length b"
    "subseq (map (\<lambda>p. a ! fst p) ps) (drop (Suc x) a)" "subseq (map (\<lambda>p. a ! fst p) ps) (drop (Suc y) b)"
    by auto
  with shift [of i x a] shift [of j y b] p show ?case by simp
qed simp

lemma finite_subseqs: "finite {zs. subseq zs xs}"
  by (rule finite_subset [of _ "set (subseqs xs)"]) auto

lemma join_lines_newline:
  assumes "ends_with head_raw [CHR 0x0A]" "ls \<noteq> []" "last ls \<noteq> []" "\<forall>l\<in>set ls. plain_line l"
  shows "join_lines head_raw ws_raw ls = join_with [CHR 0x0A] ls @ [CHR 0x0A]"
proof -
  have "\<exists>p. join_with [CHR 0x0A] ls = p @ last ls"
    using assms(2) by (induction ls rule: induct_list012) auto
  then obtain p where p: "join_with [CHR 0x0A] ls = p @ last ls" by blast
  have "\<not> ends_with (p @ last ls) [CHR 0x0A]"
  proof
    assume "ends_with (p @ last ls) [CHR 0x0A]"
    then have "last (p @ last ls) = CHR 0x0A"
      using assms(3) unfolding ends_with_def by (metis last_drop last.simps diff_less length_greater_0_conv
        length_0_conv append_is_Nil_conv less_numeral_extra(1) list.size(3) length_Cons zero_less_Suc)
    then have "CHR 0x0A \<in> set (last ls)" using assms(3) by (metis last_appendR last_in_set)
    with assms(2,4) show False by (auto simp: plain_line_def)
  qed
  with assms(1) p show ?thesis by (simp add: join_lines_def)
qed

section \<open>Properties\<close>

text \<open>C10: \<open>lcs_indices\<close> returns index pairs that increase strictly in both sequences, lie within
  them and pair equal elements, and there are as many of them as the longest common
  subsequence of the two sequences has elements.\<close>

theorem lcs_indices_longest:
  "matching a b 0 0 (lcs_indices a b) \<and>
   length (lcs_indices a b) = Max (length ` {zs. subseq zs a \<and> subseq zs b})"
proof
  show m: "matching a b 0 0 (lcs_indices a b)" by (rule lcs_indices_matching)
  let ?S = "{zs. subseq zs a \<and> subseq zs b}"
  have "finite (length ` ?S)"
    by (rule finite_imageI, rule finite_subset [OF _ finite_subseqs [of a]]) auto
  moreover have "length (lcs_indices a b) \<in> length ` ?S"
    using matching_subseq [OF m] by (intro image_eqI [of _ _ "map (\<lambda>p. a ! fst p) (lcs_indices a b)"]) auto
  moreover have "\<forall>n\<in>length ` ?S. n \<le> length (lcs_indices a b)"
    by (auto simp: lcs_indices_length subseq_length_lcs_len)
  ultimately show "length (lcs_indices a b) = Max (length ` ?S)"
    by (intro Max_eqI [symmetric]) auto
qed

text \<open>C6: the hunks \<open>compute_hunks\<close> derives from a base text and a modified text are exactly
  their difference: applying them to the base, by the program's loop or by the line-by-line
  specification, gives the modified text.\<close>

theorem compute_hunks_roundtrip:
  "apply_loop base 0 (compute_hunks base modified) = Some modified \<and>
   patch_spec base (compute_hunks base modified) = modified"
  using compute_hunks_apply [of base modified] apply_loop_patch [OF compute_hunks_chained [of base modified]]
  by (simp add: patch_spec_def)

text \<open>the level-1 merge of the HEAD hunks and the workspace hunks of one base text. A side
  without hunks leaves the other side's bytes as they are; otherwise the result is the text in
  which exactly the edits of both sides are applied, HEAD's before the workspace's where both
  insert, when every hunk of one side ends before the hunk of the other side that follows it in
  the sort, and a slice panic in every other case.\<close>

theorem level1_merge_result:
  "let H = compute_hunks base head; W = compute_hunks base ws
   in apply_two_hunk_sets base head_raw ws_raw H W =
    (if H = [] then Some ws_raw else if W = [] then Some head_raw
     else if hunks_separated H W then Some (join_lines head_raw ws_raw (patch_spec base (H @ W)))
     else None)"
  unfolding apply_two_hunk_sets_def Let_def
  by (simp add: apply_loop_sorted compute_hunks_chained del: sort_key_simps)

text \<open>What the overlap test misses. When \<open>hunks_overlap\<close> reports no overlap, the two hunk
  sets can be applied together exactly when no pure insertion of HEAD lies strictly inside a
  range the workspace replaces and no pure insertion of the workspace lies inside, or at the
  start of, a range HEAD replaces.\<close>

theorem level1_separated_iff:
  assumes "\<not> hunks_overlap (compute_hunks base head) (compute_hunks base ws)"
  shows "hunks_separated (compute_hunks base head) (compute_hunks base ws) \<longleftrightarrow>
    \<not> (\<exists>h\<in>set (compute_hunks base head). \<exists>w\<in>set (compute_hunks base ws).
        (base_start h = base_end h \<and> base_start w < base_start h \<and> base_start h < base_end w) \<or>
        (base_start w = base_end w \<and> base_start h \<le> base_start w \<and> base_start w < base_end h))"
proof -
  have pair: "sort_pair base_start ends_before h w \<longleftrightarrow>
        \<not> ((base_start h = base_end h \<and> base_start w < base_start h \<and> base_start h < base_end w) \<or>
           (base_start w = base_end w \<and> base_start h \<le> base_start w \<and> base_start w < base_end h))"
    if "h \<in> set (compute_hunks base head)" "w \<in> set (compute_hunks base ws)" for h w
  proof -
    have "base_start h \<le> base_end h" "base_start w \<le> base_end w" "\<not> hunk_pair_overlap h w"
      using that assms compute_hunks_wf
      by (auto simp: wf_hunk_def hunks_overlap_def list_ex_iff)
    then show ?thesis
      by (auto simp: sort_pair_def ends_before_def hunk_pair_overlap_def split: if_splits)
  qed
  show ?thesis unfolding hunks_separated_iff using pair by blast
qed

theorem level1_separated_iff_witness:
  "\<not> hunks_overlap (compute_hunks [''a'', ''b'', ''c''] [''x'', ''b'', ''c''])
       (compute_hunks [''a'', ''b'', ''c''] [''a'', ''b'', ''y'', ''c'']) \<and>
   hunks_separated (compute_hunks [''a'', ''b'', ''c''] [''x'', ''b'', ''c''])
       (compute_hunks [''a'', ''b'', ''c''] [''a'', ''b'', ''y'', ''c''])"
proof -
  have H: "compute_hunks [''a'', ''b'', ''c''] [''x'', ''b'', ''c''] =
      [\<lparr>base_start = 0, base_end = 1, new_lines = [''x'']\<rparr>]" by code_simp
  have W: "compute_hunks [''a'', ''b'', ''c''] [''a'', ''b'', ''y'', ''c''] =
      [\<lparr>base_start = 2, base_end = 2, new_lines = [''y'']\<rparr>]" by code_simp
  have o: "\<not> hunks_overlap (compute_hunks [''a'', ''b'', ''c''] [''x'', ''b'', ''c''])
       (compute_hunks [''a'', ''b'', ''c''] [''a'', ''b'', ''y'', ''c''])"
    unfolding H W by code_simp
  show ?thesis using level1_separated_iff [OF o] o by (simp add: H W)
qed

text \<open>The slice panic is reachable. For the base text \<open>a b c\<close>, a HEAD that replaces all
  three lines and a workspace that inserts a line after the first, the overlap test finds no
  overlap, so the merge goes on to apply both hunk sets, and the application panics.\<close>

theorem level1_insertion_panics:
  "let H = compute_hunks [''a'', ''b'', ''c''] [''x''];
       W = compute_hunks [''a'', ''b'', ''c''] [''a'', ''n'', ''b'', ''c'']
   in \<not> hunks_overlap H W \<and>
      apply_two_hunk_sets [''a'', ''b'', ''c''] ''x'' ''anbc'' H W = None"
  by code_simp

text \<open>The bytes of a level-1 merge read back as the merged lines, for ASCII text without
  carriage returns that ends in a newline and whose last merged line is not blank.\<close>

theorem join_lines_reads_back:
  assumes "ends_with head_raw [CHR 0x0A]" and "ls \<noteq> []" and "last ls \<noteq> []"
    and "\<forall>l\<in>set ls. plain_line l" and "ascii (join_with [CHR 0x0A] ls)"
  shows "split_lines (join_lines head_raw ws_raw ls) = ls"
proof -
  have "ascii (join_with [CHR 0x0A] ls @ [CHR 0x0A])" using assms(5) by (simp add: ascii_def)
  with assms show ?thesis
    by (simp add: join_lines_newline split_lines_def from_utf8_lossy_ascii str_lines_join Let_def)
qed

theorem join_lines_reads_back_witness:
  "split_lines (join_lines [CHR ''h'', CHR 0x0A] [] [''p'', [], ''q'']) = [''p'', [], ''q'']"
  by (rule join_lines_reads_back) (simp_all add: ends_with_def plain_line_def ascii_def)

text \<open>
  A blank last line is lost: the joined text already ends in the newline that separates it, so
  no newline is added for it.
\<close>

lemma join_lines_drops_blank_last_line:
  "join_lines [CHR ''p'', CHR 0x0A, CHR 0x0A] [CHR ''p'', CHR 0x0A, CHR 0x0A] [''p'', []] = [CHR ''p'', CHR 0x0A]"
  by (simp add: join_lines_def ends_with_def)

end
