(* ===== verification/MergeEngine.thy ===== *)
theory MergeEngine
  imports Diff TextMerge
begin

text \<open>
  The merge engine (\<open>src/merge/mod.rs\<close>): the three-level merge of one file, submitting a
  workspace by fast-forward or semantic merge through the file abstraction, and the conflict
  records. The directory record gains the conflict files and the graph database.

  The identifiers of new conflicts come from \<open>fresh\<close>, a supply of UUIDs; a panic of the file merge
  is \<open>None\<close> there and the error \<open>MePanic\<close> of the engine. The merge-pattern library that
  \<open>resolve_conflict\<close> notifies on a best-effort basis is in \<open>MergePatterns\<close>, which completes the operation.
\<close>

record ConflictRecord =
  cf_conflict_id :: uuid
  cf_workspace_id :: uuid
  cf_file_path :: string
  cf_entity_ids :: "string list"
  cf_description :: string
  cf_severity :: ConflictSeverity
  cf_merge_level :: nat
  cf_resolved :: bool

datatype MergeError =
    MeIo IoError | MeWorkspace WorkspaceError | MeDiff DiffError | MeEventLog EventLogError | MeGraph GraphError
  | MeVersion VersionError | MeRepo | MeTomlSer | MeTomlDe | MeMergePattern | MeConflictNotFound string
  | MeHeadAdvanced string string | MeSemanticConflicts nat "ConflictRecord list" | MeEmptyWorkspace | MePanic

record SubmitResult =
  sr_version :: VersionMeta
  sr_files_applied :: nat
  sr_entities_changed :: nat
  sr_auto_resolved :: nat
  sr_entity_ids :: "string list"

record merge_dir = ver_dir +
  conflict_files :: "(string \<times> string) list"
  graph_snapshot :: graph_db

record merge_env = diff_env +
  conflict_to_toml :: "ConflictRecord \<Rightarrow> string"
  conflict_from_toml :: "string \<Rightarrow> ConflictRecord option"
  uuid_parse :: "string \<Rightarrow> uuid option"
  parse_source_file :: "string \<Rightarrow> bytes \<Rightarrow> (GraphError, Entity list \<times> Relationship list) result"

definition make_conflict ::
  "uuid \<Rightarrow> string \<Rightarrow> uuid \<Rightarrow> string list \<Rightarrow> string \<Rightarrow> ConflictSeverity \<Rightarrow> nat \<Rightarrow> ConflictRecord" where
  "make_conflict uid path wid ids desc sev level =
     \<lparr>cf_conflict_id = uid, cf_workspace_id = wid, cf_file_path = path, cf_entity_ids = ids,
      cf_description = desc, cf_severity = sev, cf_merge_level = level, cf_resolved = False\<rparr>"

section \<open>Entities of a file\<close>

text \<open>A hash set is the list of its elements, each once.\<close>

definition changed_entity_ids :: "Entity list \<Rightarrow> bytes \<Rightarrow> Entity list \<Rightarrow> bytes \<Rightarrow> string list" where
  "changed_entity_ids base_ents base mod_ents modified =
     (let bm = entity_map base_ents; mm = entity_map mod_ents
      in map fst (filter (\<lambda>(i, e). case map_of bm i of
             Some be \<Rightarrow> entity_bytes base be \<noteq> entity_bytes modified e
           | None \<Rightarrow> True) mm) @
         map fst (filter (\<lambda>(i, _). map_of mm i = None) bm))"

text \<open>\<open>Vec::splice\<close> panics when the range is not within the vector.\<close>

definition splice_bytes :: "bytes \<Rightarrow> nat \<Rightarrow> nat \<Rightarrow> bytes \<Rightarrow> bytes option" where
  "splice_bytes r a b rep = (if a \<le> b \<and> b \<le> length r then Some (take a r @ rep @ drop b r) else None)"

fun splice_all :: "bytes \<Rightarrow> (nat \<times> nat \<times> bytes) list \<Rightarrow> bytes option" where
  "splice_all r [] = Some r"
| "splice_all r ((a, b, rep) # rs) = (case splice_bytes r a b rep of None \<Rightarrow> None | Some r' \<Rightarrow> splice_all r' rs)"

definition entity_slice :: "bytes \<Rightarrow> Entity \<Rightarrow> bytes option" where
  "entity_slice c e = slice_get c (fst (en_byte_range e)) (min (snd (en_byte_range e)) (length c))"

text \<open>The loop that collects the replacements; \<open>None\<close> is the \<open>?\<close> on a slice that is out of range.\<close>

fun collect_replacements ::
  "bytes \<Rightarrow> bytes \<Rightarrow> (string \<times> Entity) list \<Rightarrow> (string \<times> Entity) list \<Rightarrow> string list \<Rightarrow> (nat \<times> nat \<times> bytes) list option" where
  "collect_replacements head ws hm wm [] = Some []"
| "collect_replacements head ws hm wm (i # is) =
     (case map_of wm i of
        None \<Rightarrow> collect_replacements head ws hm wm is
      | Some we \<Rightarrow>
          (case entity_slice ws we of
             None \<Rightarrow> None
           | Some b \<Rightarrow>
               (case collect_replacements head ws hm wm is of
                  None \<Rightarrow> None
                | Some rs \<Rightarrow>
                    Some (case map_of hm i of
                            Some he \<Rightarrow> (fst (en_byte_range he), min (snd (en_byte_range he)) (length head), b) # rs
                          | None \<Rightarrow> rs))))"

text \<open>The loop that appends the entities HEAD does not have.\<close>

fun append_new ::
  "bytes \<Rightarrow> (string \<times> Entity) list \<Rightarrow> (string \<times> Entity) list \<Rightarrow> bool \<Rightarrow> bytes \<Rightarrow> string list \<Rightarrow> bytes option" where
  "append_new ws hm wm appended r [] = Some r"
| "append_new ws hm wm appended r (i # is) =
     (if map_of hm i \<noteq> None then append_new ws hm wm appended r is
      else (case map_of wm i of
              None \<Rightarrow> append_new ws hm wm appended r is
            | Some we \<Rightarrow>
                (case entity_slice ws we of
                   None \<Rightarrow> None
                 | Some b \<Rightarrow>
                     (let r1 = (if \<not> appended \<and> \<not> ends_with r [CHR 0x0A] then r @ [CHR 0x0A] else r);
                          r2 = r1 @ b;
                          r3 = (if \<not> ends_with r2 [CHR 0x0A] then r2 @ [CHR 0x0A] else r2)
                      in append_new ws hm wm True r3 is))))"

text \<open>\<open>None\<close> is a panic, \<open>Some None\<close> the value \<open>None\<close> of the source.\<close>

definition merge_by_entity_substitution ::
  "bytes \<Rightarrow> bytes \<Rightarrow> Entity list \<Rightarrow> Entity list \<Rightarrow> string list \<Rightarrow> bytes option option" where
  "merge_by_entity_substitution head ws head_ents ws_ents ids =
     (let hm = entity_map head_ents; wm = entity_map ws_ents
      in case collect_replacements head ws hm wm ids of
           None \<Rightarrow> Some None
         | Some reps \<Rightarrow>
             (case splice_all head (sort_key (\<lambda>r. - int (fst r)) reps) of
                None \<Rightarrow> None
              | Some r \<Rightarrow> Some (append_new ws hm wm False r ids)))"

section \<open>Referential conflicts\<close>

definition valid_utf8 :: "bytes \<Rightarrow> bool" where
  "valid_utf8 c \<longleftrightarrow> from_utf8_lossy c = c"

definition em_dash :: string where
  "em_dash = [CHR 0xE2, CHR 0x80, CHR 0x94]"

definition entity_name :: "Entity list \<Rightarrow> Entity list \<Rightarrow> string \<Rightarrow> string" where
  "entity_name base_ents head_ents i =
     (case find (\<lambda>e. en_id e = i) base_ents of
        Some e \<Rightarrow> en_qualified_name e
      | None \<Rightarrow> (case find (\<lambda>e. en_id e = i) head_ents of Some e \<Rightarrow> en_qualified_name e | None \<Rightarrow> ''unknown''))"

definition head_changed_it :: "bytes \<Rightarrow> bytes \<Rightarrow> Entity list \<Rightarrow> Entity \<Rightarrow> bool" where
  "head_changed_it base head head_ents removed \<longleftrightarrow>
     \<not> list_ex (\<lambda>e. en_id e = en_id removed) head_ents \<or>
     list_ex (\<lambda>he. en_id he = en_id removed \<and> entity_bytes base removed \<noteq> entity_bytes head he) head_ents"

text \<open>The messages of the three checks and of the fallback.\<close>

definition msg_both :: "string \<Rightarrow> string" where
  "msg_both name = ''Entity `'' @ name @ ''` was modified by both workspace and HEAD '' @ em_dash @ '' manual resolution required''"

definition msg_removed :: "string \<Rightarrow> string" where
  "msg_removed name = ''Entity `'' @ name @ ''` removed in workspace but modified in HEAD '' @ em_dash @ '' cannot auto-merge''"

definition msg_stale :: "string \<Rightarrow> string" where
  "msg_stale name = ''Entity `'' @ name @ ''` removed/renamed in workspace but old name still referenced in HEAD '' @ em_dash @
     '' possible stale call site''"

definition msg_fallback :: "string \<Rightarrow> string" where
  "msg_fallback path = ''Overlapping changes in `'' @ path @ ''` could not be auto-merged''"

text \<open>\<open>conflicts.push(make_conflict(..))\<close>, with the next identifier of the supply.\<close>

definition push_conflict ::
  "(nat \<Rightarrow> uuid) \<Rightarrow> nat \<Rightarrow> string \<Rightarrow> uuid \<Rightarrow> string list \<Rightarrow> string \<Rightarrow> ConflictSeverity \<Rightarrow> ConflictRecord list \<Rightarrow> ConflictRecord list" where
  "push_conflict fresh n path wid ids desc sev cs = cs @ [make_conflict (fresh (n + length cs)) path wid ids desc sev 3]"

definition detect_referential_conflicts ::
  "(nat \<Rightarrow> uuid) \<Rightarrow> nat \<Rightarrow> string \<Rightarrow> uuid \<Rightarrow> bytes \<Rightarrow> bytes \<Rightarrow> Entity list \<Rightarrow> Entity list \<Rightarrow> Entity list \<Rightarrow> string list \<Rightarrow>
   ConflictRecord list" where
  "detect_referential_conflicts fresh n path wid base head base_ents head_ents ws_ents overlap =
     (let push = push_conflict fresh n path wid;
          cs1 = fold (\<lambda>i. push [i] (msg_both (entity_name base_ents head_ents i)) SevHigh) overlap [];
          ws_removed = filter (\<lambda>e. \<not> list_ex (\<lambda>w. en_id w = en_id e) ws_ents) base_ents;
          cs2 = fold (\<lambda>e cs. if head_changed_it base head head_ents e
                  then push [en_id e] (msg_removed (en_qualified_name e)) SevHigh cs else cs) ws_removed cs1;
          cs3 = (if valid_utf8 head
                 then fold (\<lambda>e cs. if list_ex (\<lambda>c. en_id e \<in> set (cf_entity_ids c)) cs then cs
                        else if en_name e \<noteq> [] \<and> contains_str head (en_name e)
                        then push [en_id e] (msg_stale (en_name e)) SevMedium cs
                        else cs) ws_removed cs2
                 else cs2)
      in if cs3 = [] then push [] (msg_fallback path) SevHigh cs3 else cs3)"

section \<open>Three-level merge of a file\<close>

datatype FileMergeResult = AutoMerged bytes nat | Conflicts "ConflictRecord list"

definition try_merge_file ::
  "('a) merge_env_scheme \<Rightarrow> (nat \<Rightarrow> uuid) \<Rightarrow> nat \<Rightarrow> string \<Rightarrow> bytes \<Rightarrow> bytes \<Rightarrow> bytes \<Rightarrow> uuid \<Rightarrow> FileMergeResult option" where
  "try_merge_file env fresh n path base head ws wid =
     (let base_lines = split_lines base;
          head_hunks = compute_hunks base_lines (split_lines head);
          ws_hunks = compute_hunks base_lines (split_lines ws);
          generic = Conflicts [make_conflict (fresh n) path wid [] (''Overlapping text changes in `'' @ path @ ''`'') SevMedium 1]
      in if \<not> hunks_overlap head_hunks ws_hunks
         then map_option (\<lambda>m. AutoMerged m 1) (apply_two_hunk_sets base_lines head ws head_hunks ws_hunks)
         else if ends_with path ''.rs''
         then (case (parse_rust_source env path base, parse_rust_source env path head, parse_rust_source env path ws) of
                 (Inr (base_ents, _), Inr (head_ents, _), Inr (ws_ents, _)) \<Rightarrow>
                   (let head_ids = changed_entity_ids base_ents base head_ents head;
                        ws_ids = changed_entity_ids base_ents base ws_ents ws;
                        overlap = filter (\<lambda>i. i \<in> set ws_ids) head_ids;
                        level3 = Conflicts (detect_referential_conflicts fresh n path wid base head base_ents head_ents ws_ents overlap)
                    in if overlap = []
                       then (case merge_by_entity_substitution head ws head_ents ws_ents ws_ids of
                               None \<Rightarrow> None
                             | Some (Some m) \<Rightarrow> Some (AutoMerged m 2)
                             | Some None \<Rightarrow> Some level3)
                       else Some level3)
               | _ \<Rightarrow> Some generic)
         else Some generic)"

section \<open>Helpers of the engine\<close>

definition read_head :: "('b) vai_dir_scheme \<Rightarrow> (MergeError, string) result" where
  "read_head vai = (case head_file vai of None \<Rightarrow> Inl MeRepo | Some h \<Rightarrow> Inr (trim h))"

definition parse_version_num :: "string \<Rightarrow> nat" where
  "parse_version_num v =
     (case parse_u64 (dropWhile (\<lambda>c. c = CHR ''v'') v) of Some n \<Rightarrow> n | None \<Rightarrow> 0)"

fun insert_missing :: "string \<Rightarrow> bytes \<Rightarrow> (string \<times> bytes) list \<Rightarrow> (string \<times> bytes) list" where
  "insert_missing p c m = (case map_of m p of None \<Rightarrow> m @ [(p, c)] | Some _ \<Rightarrow> m)"

fun collect_keys ::
  "'s MergeFs \<Rightarrow> string \<Rightarrow> 's \<Rightarrow> (string \<times> bytes) list \<Rightarrow> string list \<Rightarrow> (MergeError, (string \<times> bytes) list \<times> 's) result" where
  "collect_keys fs pre s acc [] = Inr (acc, s)"
| "collect_keys fs pre s acc (k # ks) =
     (case strip_prefix pre k of
        None \<Rightarrow> Inl MePanic
      | Some rel \<Rightarrow>
          bind_result (map_err MeIo (mf_read fs s k)) (\<lambda>(c, s1).
            collect_keys fs pre s1 (insert_missing rel c acc) ks))"

fun collect_versions ::
  "'s MergeFs \<Rightarrow> 's \<Rightarrow> (string \<times> bytes) list \<Rightarrow> nat list \<Rightarrow> (MergeError, (string \<times> bytes) list \<times> 's) result" where
  "collect_versions fs s acc [] = Inr (acc, s)"
| "collect_versions fs s acc (n # ns) =
     (let pre = snapshot_prefix (version_id_of n)
      in bind_result (map_err MeIo (mf_list fs s pre)) (\<lambda>ks.
         bind_result (collect_keys fs pre s acc ks) (\<lambda>(acc1, s1). collect_versions fs s1 acc1 ns)))"

definition collect_head_changed_files ::
  "'s MergeFs \<Rightarrow> 's \<Rightarrow> ('b) vai_dir_scheme \<Rightarrow> string \<Rightarrow> (MergeError, (string \<times> bytes) list \<times> 's) result" where
  "collect_head_changed_files fs s vai base_version =
     bind_result (read_head vai) (\<lambda>head.
       collect_versions fs s [] [parse_version_num base_version + 1..<Suc (parse_version_num head)])"

text \<open>\<open>path.rsplit('.').next()\<close>: what follows the last dot, or the whole path.\<close>

definition extension :: "string \<Rightarrow> string" where
  "extension p = rev (takeWhile (\<lambda>c. c \<noteq> CHR ''.'') (rev p))"

definition is_supported_source_file :: "string \<Rightarrow> bool" where
  "is_supported_source_file p \<longleftrightarrow> extension p \<in> {''rs'', ''ts'', ''tsx'', ''js'', ''jsx''}"

fun update_graph_for_diff ::
  "('a) merge_env_scheme \<Rightarrow> 's MergeFs \<Rightarrow> 's \<Rightarrow> graph_db \<Rightarrow> FileDiff list \<Rightarrow> graph_db \<times> 's" where
  "update_graph_for_diff env fs s g [] = (g, s)"
| "update_graph_for_diff env fs s g (fd # fds) =
     (if is_supported_source_file (fd_path fd)
      then (case mf_read fs s (base_key (fd_path fd)) of
              Inl _ \<Rightarrow> update_graph_for_diff env fs s g fds
            | Inr (c, s1) \<Rightarrow>
                update_graph_for_diff env fs s1 (snd (update_file (parse_source_file env) g (fd_path fd) c)) fds)
      else update_graph_for_diff env fs s g fds)"

fun save_pre_change_snapshot :: "'s MergeFs \<Rightarrow> 's \<Rightarrow> string \<Rightarrow> string list \<Rightarrow> (MergeError, 's) result" where
  "save_pre_change_snapshot fs s vid [] = Inr s"
| "save_pre_change_snapshot fs s vid (p # ps) =
     bind_result (map_err MeIo (mf_exists fs s (base_key p))) (\<lambda>ex.
       if ex then
         bind_result (map_err MeIo (mf_read fs s (base_key p))) (\<lambda>(c, s1).
         bind_result (map_err MeIo (mf_write fs s1 (snapshot_key vid p) c)) (\<lambda>s2.
         save_pre_change_snapshot fs s2 vid ps))
       else save_pre_change_snapshot fs s vid ps)"

fun delete_base_files :: "'s MergeFs \<Rightarrow> 's \<Rightarrow> string list \<Rightarrow> (MergeError, 's) result" where
  "delete_base_files fs s [] = Inr s"
| "delete_base_files fs s (p # ps) =
     bind_result (map_err MeIo (mf_delete fs s (base_key p))) (\<lambda>s1. delete_base_files fs s1 ps)"

fun copy_overlay :: "'s MergeFs \<Rightarrow> 's \<Rightarrow> string list \<Rightarrow> (MergeError, 's) result" where
  "copy_overlay fs s [] = Inr s"
| "copy_overlay fs s (k # ks) =
     (case strip_prefix ''overlay/'' k of
        None \<Rightarrow> Inl MePanic
      | Some rel \<Rightarrow>
          bind_result (map_err MeIo (mf_read fs s k)) (\<lambda>(c, s1).
          bind_result (map_err MeIo (mf_write fs s1 (base_key rel) c)) (\<lambda>s2. copy_overlay fs s2 ks)))"

definition apply_overlay :: "'s MergeFs \<Rightarrow> 's \<Rightarrow> string list \<Rightarrow> (MergeError, nat \<times> 's) result" where
  "apply_overlay fs s deleted_paths =
     bind_result (map_err MeIo (mf_list fs s ''overlay/'')) (\<lambda>ks.
     bind_result (copy_overlay fs s ks) (\<lambda>s1.
     bind_result (delete_base_files fs s1 deleted_paths) (\<lambda>s2. Inr (length ks, s2))))"

definition advance_head_and_close_workspace ::
  "('a) merge_env_scheme \<Rightarrow> ('b) merge_dir_scheme \<Rightarrow> string \<Rightarrow> WorkspaceMeta \<Rightarrow> time \<Rightarrow> (MergeError, ('b) merge_dir_scheme) result" where
  "advance_head_and_close_workspace env vai new_id ws_meta now =
     bind_result (map_err MeWorkspace (update_meta env (vai\<lparr>head_file := Some (new_id @ [CHR 0x0A])\<rparr>)
       (ws_meta\<lparr>wm_status := WMerged, wm_updated_at := now\<rparr>))) (\<lambda>vai1.
     Inr (vai1\<lparr>active_file := None\<rparr>))"

text \<open>\<open>let _ = log.append(FileRemoved)\<close> for every deleted path.\<close>

fun emit_removed :: "('a) merge_env_scheme \<Rightarrow> ('b) merge_dir_scheme \<Rightarrow> time \<Rightarrow> uuid \<Rightarrow> string list \<Rightarrow> ('b) merge_dir_scheme" where
  "emit_removed env vai now wid [] = vai"
| "emit_removed env vai now wid (p # ps) =
     emit_removed env (case vai_append env vai now (FileRemoved wid p) of Inr (_, v) \<Rightarrow> v | Inl _ \<Rightarrow> vai) now wid ps"

text \<open>
  The end of both merge paths: graph update, events, the version and the closing of the
  workspace.
\<close>

definition finish_merge ::
  "('a) merge_env_scheme \<Rightarrow> 's MergeFs \<Rightarrow> 's \<Rightarrow> ('b) merge_dir_scheme \<Rightarrow> WorkspaceMeta \<Rightarrow> WorkspaceDiff \<Rightarrow> string list \<Rightarrow> string \<Rightarrow> nat \<Rightarrow> nat \<Rightarrow> time \<Rightarrow>
   (MergeError, SubmitResult \<times> 's \<times> ('b) merge_dir_scheme) result" where
  "finish_merge env fs s vai ws_meta diff deleted_paths new_id files_applied auto_resolved now =
     (let (g, s1) = update_graph_for_diff env fs s (graph_snapshot vai) (wd_file_diffs diff);
          vai1 = emit_removed env (vai\<lparr>graph_snapshot := g\<rparr>) now (wm_id ws_meta) deleted_paths
      in bind_result (map_err MeEventLog (vai_append env vai1 now (MergeCompleted (wm_id ws_meta) new_id auto_resolved))) (\<lambda>(merge_event, vai2).
         bind_result (map_err MeEventLog (vai_append env vai2 now (VersionCreated new_id (Some (wm_base_version ws_meta)) (wm_intent ws_meta)))) (\<lambda>(_, vai3).
         bind_result (map_err MeVersion (create_version env vai3 new_id (Some (wm_base_version ws_meta)) (wm_intent ws_meta) ''agent''
           (Some (ev_id merge_event)) now)) (\<lambda>(version_meta, vai4).
         bind_result (advance_head_and_close_workspace env vai4 new_id ws_meta now) (\<lambda>vai5.
         let entity_ids = map ec_entity_id (wd_entity_changes diff)
         in Inr (\<lparr>sr_version = version_meta, sr_files_applied = files_applied, sr_entities_changed = length entity_ids,
                  sr_auto_resolved = auto_resolved, sr_entity_ids = entity_ids\<rparr>, s1, vai5))))))"

definition fast_forward_merge ::
  "('a) merge_env_scheme \<Rightarrow> 's MergeFs \<Rightarrow> 's \<Rightarrow> ('b) merge_dir_scheme \<Rightarrow> WorkspaceMeta \<Rightarrow> WorkspaceDiff \<Rightarrow> string list \<Rightarrow> time \<Rightarrow>
   (MergeError, SubmitResult \<times> 's \<times> ('b) merge_dir_scheme) result" where
  "fast_forward_merge env fs s vai ws_meta diff deleted_paths now =
     bind_result (map_err MeVersion (next_version_id env vai)) (\<lambda>new_id.
     bind_result (save_pre_change_snapshot fs s new_id (map fd_path (wd_file_diffs diff))) (\<lambda>s1.
     bind_result (apply_overlay fs s1 deleted_paths) (\<lambda>(files_applied, s2).
     finish_merge env fs s2 vai ws_meta diff deleted_paths new_id files_applied 0 now)))"

section \<open>Semantic merge\<close>

text \<open>The loop over the file diffs: merged files, number of auto-merged files, conflicts.\<close>

fun merge_files_loop ::
  "('a) merge_env_scheme \<Rightarrow> (nat \<Rightarrow> uuid) \<Rightarrow> 's MergeFs \<Rightarrow> (string \<times> bytes) list \<Rightarrow> uuid \<Rightarrow> 's \<Rightarrow>
   (string \<times> bytes) list \<Rightarrow> nat \<Rightarrow> ConflictRecord list \<Rightarrow> string list \<Rightarrow>
   (MergeError, (string \<times> bytes) list \<times> nat \<times> ConflictRecord list \<times> 's) result" where
  "merge_files_loop env fresh fs hc wid s merged auto cs [] = Inr (merged, auto, cs, s)"
| "merge_files_loop env fresh fs hc wid s merged auto cs (p # ps) =
     bind_result (map_err MeIo (mf_read fs s (overlay_key p))) (\<lambda>(ws_content, s1).
       case map_of hc p of
         None \<Rightarrow> merge_files_loop env fresh fs hc wid s1 (merged @ [(p, ws_content)]) auto cs ps
       | Some base_content \<Rightarrow>
           bind_result (map_err MeIo (mf_exists fs s1 (base_key p))) (\<lambda>ex.
           bind_result (if ex then map_err MeIo (mf_read fs s1 (base_key p)) else Inr ([], s1)) (\<lambda>(head_content, s2).
           case try_merge_file env fresh (length cs) p base_content head_content ws_content wid of
             None \<Rightarrow> Inl MePanic
           | Some (AutoMerged m _) \<Rightarrow> merge_files_loop env fresh fs hc wid s2 (merged @ [(p, m)]) (auto + 1) cs ps
           | Some (Conflicts fcs) \<Rightarrow> merge_files_loop env fresh fs hc wid s2 merged auto (cs @ fcs) ps)))"

fun write_merged :: "'s MergeFs \<Rightarrow> 's \<Rightarrow> (string \<times> bytes) list \<Rightarrow> (MergeError, 's) result" where
  "write_merged fs s [] = Inr s"
| "write_merged fs s ((p, c) # ms) =
     bind_result (map_err MeIo (mf_write fs s (base_key p) c)) (\<lambda>s1. write_merged fs s1 ms)"

definition store_all_conflicts ::
  "('a) merge_env_scheme \<Rightarrow> ('b) merge_dir_scheme \<Rightarrow> ConflictRecord list \<Rightarrow> ('b) merge_dir_scheme" where
  "store_all_conflicts env vai cs =
     vai\<lparr>conflict_files := fold (\<lambda>c fs. AList.update (uuid_to_string env (cf_conflict_id c)) (conflict_to_toml env c) fs) cs (conflict_files vai)\<rparr>"

definition conflict_event :: "uuid \<Rightarrow> ConflictRecord \<Rightarrow> EventKind" where
  "conflict_event wid c =
     MergeConflictDetected wid
       \<lparr>ci_conflict_id = cf_conflict_id c,
        ci_entity_a = (case cf_entity_ids c of [] \<Rightarrow> [] | a # _ \<Rightarrow> a),
        ci_entity_b = (case cf_entity_ids c of _ # b # _ \<Rightarrow> b | _ \<Rightarrow> []),
        ci_description = cf_description c, ci_severity = cf_severity c\<rparr>"

text \<open>
  A merge that stops with conflicts has stored them and logged their events, so the result comes
  with the state in every case; a stage that fails on I/O leaves the state it started from.
\<close>

type_synonym ('s, 'b) submit_out = "(MergeError, SubmitResult) result \<times> 's \<times> ('b) merge_dir_scheme"

definition out_of ::
  "'s \<Rightarrow> ('b) merge_dir_scheme \<Rightarrow> (MergeError, SubmitResult \<times> 's \<times> ('b) merge_dir_scheme) result \<Rightarrow> ('s, 'b) submit_out" where
  "out_of s vai r = (case r of Inl e \<Rightarrow> (Inl e, s, vai) | Inr (x, s', vai') \<Rightarrow> (Inr x, s', vai'))"

definition semantic_merge ::
  "('a) merge_env_scheme \<Rightarrow> (nat \<Rightarrow> uuid) \<Rightarrow> 's MergeFs \<Rightarrow> 's \<Rightarrow> ('b) merge_dir_scheme \<Rightarrow> WorkspaceMeta \<Rightarrow> WorkspaceDiff \<Rightarrow> string list \<Rightarrow> time \<Rightarrow>
   ('s, 'b) submit_out" where
  "semantic_merge env fresh fs s vai ws_meta diff deleted_paths now =
     (case bind_result (collect_head_changed_files fs s vai (wm_base_version ws_meta)) (\<lambda>(hc, s1).
             merge_files_loop env fresh fs hc (wm_id ws_meta) s1 [] 0 [] (map fd_path (wd_file_diffs diff))) of
        Inl e \<Rightarrow> (Inl e, s, vai)
      | Inr (merged, auto, conflicts, s2) \<Rightarrow>
          if conflicts \<noteq> [] then
            (case append_kinds (vai_append env) (store_all_conflicts env vai conflicts) now (map (conflict_event (wm_id ws_meta)) conflicts) of
               Inl e \<Rightarrow> (Inl (MeEventLog e), s2, store_all_conflicts env vai conflicts)
             | Inr vai1 \<Rightarrow> (Inl (MeSemanticConflicts (length conflicts) conflicts), s2, vai1))
          else
            out_of s2 vai
              (bind_result (map_err MeVersion (next_version_id env vai)) (\<lambda>new_id.
               bind_result (save_pre_change_snapshot fs s2 new_id (map fd_path (wd_file_diffs diff))) (\<lambda>s3.
               bind_result (write_merged fs s3 merged) (\<lambda>s4.
               bind_result (delete_base_files fs s4 deleted_paths) (\<lambda>s5.
               finish_merge env fs s5 vai ws_meta diff deleted_paths new_id (length merged) auto now))))))"

section \<open>Submitting a workspace\<close>

definition changes_summary :: "WorkspaceDiff \<Rightarrow> string" where
  "changes_summary d =
     nat_to_string (length (wd_file_diffs d)) @ '' file(s), '' @ nat_to_string (length (wd_entity_changes d)) @ '' entity change(s)''"

definition submit_with_fs ::
  "('a) merge_env_scheme \<Rightarrow> (nat \<Rightarrow> uuid) \<Rightarrow> 's MergeFs \<Rightarrow> 's \<Rightarrow> ('b) merge_dir_scheme \<Rightarrow> WorkspaceMeta \<Rightarrow> string list \<Rightarrow> time \<Rightarrow>
   ('s, 'b) submit_out" where
  "submit_with_fs env fresh fs s vai ws_meta deleted_paths now =
     (case compute_with_fs env fs s (wm_id ws_meta) (wm_base_version ws_meta) deleted_paths of
        Inl e \<Rightarrow> (Inl (MeDiff e), s, vai)
      | Inr (diff, s1) \<Rightarrow>
          if wd_is_empty diff then (Inl MeEmptyWorkspace, s1, vai)
          else (case record_events env vai diff now of
                  Inl e \<Rightarrow> (Inl (MeDiff e), s1, vai)
                | Inr vai1 \<Rightarrow>
                    (case vai_append env vai1 now (WorkspaceSubmitted (wm_id ws_meta) (changes_summary diff)) of
                       Inl e \<Rightarrow> (Inl (MeEventLog e), s1, vai1)
                     | Inr (_, vai2) \<Rightarrow>
                         (case read_head vai2 of
                            Inl e \<Rightarrow> (Inl e, s1, vai2)
                          | Inr head \<Rightarrow>
                              if head = wm_base_version ws_meta
                              then out_of s1 vai2 (fast_forward_merge env fs s1 vai2 ws_meta diff deleted_paths now)
                              else semantic_merge env fresh fs s1 vai2 ws_meta diff deleted_paths now))))"

definition submit ::
  "('a) merge_env_scheme \<Rightarrow> (nat \<Rightarrow> uuid) \<Rightarrow> ('b) merge_dir_scheme \<Rightarrow> disk \<Rightarrow> time \<Rightarrow> (disk, 'b) submit_out" where
  "submit env fresh vai d now =
     (case ws_active env vai of
        Inl e \<Rightarrow> (Inl (MeWorkspace e), d, vai)
      | Inr ws_meta \<Rightarrow>
          submit_with_fs env fresh (DiskMergeFs (uuid_to_string env (wm_id ws_meta))) d vai ws_meta
            (read_manifest env vai (wm_id ws_meta)) now)"

section \<open>Conflict records\<close>

definition list_conflicts :: "('a) merge_env_scheme \<Rightarrow> ('b) merge_dir_scheme \<Rightarrow> ConflictRecord list" where
  "list_conflicts env vai =
     sort_key cf_conflict_id (List.map_filter (\<lambda>(_, c). conflict_from_toml env c) (conflict_files vai))"

definition resolve_conflict ::
  "('a) merge_env_scheme \<Rightarrow> ('b) merge_dir_scheme \<Rightarrow> string \<Rightarrow> time \<Rightarrow> (MergeError, ConflictRecord \<times> ('b) merge_dir_scheme) result" where
  "resolve_conflict env vai cid now =
     (case uuid_parse env cid of
        None \<Rightarrow> Inl (MeConflictNotFound cid)
      | Some i \<Rightarrow>
          (case map_of (conflict_files vai) (uuid_to_string env i) of
             None \<Rightarrow> Inl (MeConflictNotFound cid)
           | Some content \<Rightarrow>
               (case conflict_from_toml env content of
                  None \<Rightarrow> Inl MeTomlDe
                | Some record \<Rightarrow>
                    let record' = record\<lparr>cf_resolved := True\<rparr>;
                        vai1 = vai\<lparr>conflict_files := AList.update (uuid_to_string env i) (conflict_to_toml env record') (conflict_files vai)\<rparr>
                    in bind_result (map_err MeEventLog (vai_append env vai1 now (MergeConflictResolved i ''manual'' ''agent''))) (\<lambda>(_, vai2).
                       Inr (record', vai2)))))"

end
