(* ===== verification/Merge_Laws.thy ===== *)
theory Merge_Laws
  imports MergeEngine
begin

text \<open>
  Properties of the merge engine. The file part is proved once for every implementation of the
  file abstraction, in the context of \<open>merge_fs\<close>: what the pre-change snapshot, the overlay copy,
  the deletions and the merged files make of each key. The metadata part is \<open>finish_merge_ok\<close>.
\<close>

section \<open>Files\<close>

context merge_fs
begin

lemma save_snapshot_ok:
  "inv s \<Longrightarrow> version_name vid \<Longrightarrow> \<forall>p\<in>set ps. good (snapshot_key vid p) \<and> good (base_key p) \<Longrightarrow>
   \<exists>s'. save_pre_change_snapshot ops s vid ps = Inr s' \<and> inv s' \<and>
     (\<forall>k. good k \<longrightarrow> (\<forall>p. k \<noteq> snapshot_key vid p) \<longrightarrow> fdata s' k = fdata s k) \<and>
     (\<forall>p. good (snapshot_key vid p) \<longrightarrow> fdata s' (snapshot_key vid p) =
        (if p \<in> set ps \<and> fdata s (base_key p) \<noteq> None then fdata s (base_key p) else fdata s (snapshot_key vid p)))"
proof (induction ps arbitrary: s)
  case (Cons p ps)
  note ex = exists_file [OF Cons.prems(1) resolve_ns(2), of p]
  show ?case
  proof (cases "fdata s (base_key p)")
    case None
    then have "save_pre_change_snapshot ops s vid (p # ps) = save_pre_change_snapshot ops s vid ps" using ex by simp
    moreover have "q \<in> set (p # ps) \<and> fdata s (base_key q) \<noteq> None \<longleftrightarrow> q \<in> set ps \<and> fdata s (base_key q) \<noteq> None" for q
      using None by auto
    moreover have ps: "\<forall>p\<in>set ps. good (snapshot_key vid p) \<and> good (base_key p)" using Cons.prems(3) by simp
    ultimately show ?thesis using Cons.IH [OF Cons.prems(1,2) ps] by (simp only: )
  next
    case (Some c)
    obtain s1 where s1: "mf_read ops s (base_key p) = Inr (c, s1)" "inv s1" "fdata s1 = fdata s"
      using read_file [OF Cons.prems(1) Some] by blast
    have g: "good (snapshot_key vid p)" "good (base_key p)" using Cons.prems(3) by simp_all
    obtain s2 where s2: "mf_write ops s1 (snapshot_key vid p) c = Inr s2" "inv s2"
      "\<forall>k'. good k' \<longrightarrow> fdata s2 k' = (if k' = snapshot_key vid p then Some c else fdata s1 k')"
      using write_file [OF s1(2) g(1) resolve_ns(3) [OF Cons.prems(2)]] by blast
    obtain s' where s': "save_pre_change_snapshot ops s2 vid ps = Inr s'" "inv s'"
      "\<forall>k. good k \<longrightarrow> (\<forall>p. k \<noteq> snapshot_key vid p) \<longrightarrow> fdata s' k = fdata s2 k"
      "\<forall>p. good (snapshot_key vid p) \<longrightarrow> fdata s' (snapshot_key vid p) =
        (if p \<in> set ps \<and> fdata s2 (base_key p) \<noteq> None then fdata s2 (base_key p) else fdata s2 (snapshot_key vid p))"
      using Cons.IH [OF s2(2) Cons.prems(2)] Cons.prems(3) by auto
    have base: "q \<in> set (p # ps) \<Longrightarrow> fdata s2 (base_key q) = fdata s (base_key q)" for q
      using s2(3) s1(3) Cons.prems(3) by auto
    have "fdata s' (snapshot_key vid q) =
        (if q \<in> set (p # ps) \<and> fdata s (base_key q) \<noteq> None then fdata s (base_key q) else fdata s (snapshot_key vid q))"
      if gq: "good (snapshot_key vid q)" for q
    proof (cases "q \<in> set ps")
      case True
      then show ?thesis using s'(4) gq base [of q] s2(3) s1(3) Some by auto
    next
      case False
      then show ?thesis using s'(4) gq s2(3) s1(3) Some by auto
    qed
    moreover have "fdata s' k = fdata s k" if "good k" "\<forall>p. k \<noteq> snapshot_key vid p" for k
      using that s'(3) s2(3) s1(3) by simp
    ultimately show ?thesis using ex Some s1(1) s2(1) s'(1,2) by simp
  qed
qed simp

lemma copy_overlay_ok:
  "inv s \<Longrightarrow> \<forall>r\<in>set rels. fdata s (overlay_key r) \<noteq> None \<and> good (overlay_key r) \<and> good (base_key r) \<Longrightarrow>
   \<exists>s'. copy_overlay ops s (map overlay_key rels) = Inr s' \<and> inv s' \<and>
     (\<forall>k. good k \<longrightarrow> (\<forall>r. k \<noteq> base_key r) \<longrightarrow> fdata s' k = fdata s k) \<and>
     (\<forall>r. good (base_key r) \<longrightarrow> fdata s' (base_key r) =
        (if r \<in> set rels then fdata s (overlay_key r) else fdata s (base_key r)))"
proof (induction rels arbitrary: s)
  case (Cons r rels)
  then obtain c where c: "fdata s (overlay_key r) = Some c" by auto
  have strip: "strip_prefix ''overlay/'' (overlay_key r) = Some r" unfolding overlay_key_def by (rule strip_prefix_append)
  obtain s1 where s1: "mf_read ops s (overlay_key r) = Inr (c, s1)" "inv s1" "fdata s1 = fdata s"
    using read_file [OF Cons.prems(1) c] by blast
  have g: "good (base_key r)" using Cons.prems(2) by simp
  obtain s2 where s2: "mf_write ops s1 (base_key r) c = Inr s2" "inv s2"
    "\<forall>k'. good k' \<longrightarrow> fdata s2 k' = (if k' = base_key r then Some c else fdata s1 k')"
    using write_file [OF s1(2) g resolve_ns(2)] by blast
  have ov: "good (overlay_key q) \<Longrightarrow> fdata s2 (overlay_key q) = fdata s (overlay_key q)" for q
    using s2(3) s1(3) by simp
  obtain s' where s': "copy_overlay ops s2 (map overlay_key rels) = Inr s'" "inv s'"
    "\<forall>k. good k \<longrightarrow> (\<forall>r. k \<noteq> base_key r) \<longrightarrow> fdata s' k = fdata s2 k"
    "\<forall>r. good (base_key r) \<longrightarrow> fdata s' (base_key r) = (if r \<in> set rels then fdata s2 (overlay_key r) else fdata s2 (base_key r))"
    using Cons.IH [OF s2(2)] Cons.prems(2) ov by auto
  have "fdata s' (base_key q) = (if q \<in> set (r # rels) then fdata s (overlay_key q) else fdata s (base_key q))"
    if "good (base_key q)" for q
    using s'(4) that s2(3) s1(3) ov c Cons.prems(2) by auto
  moreover have "fdata s' k = fdata s k" if "good k" "\<forall>r. k \<noteq> base_key r" for k
    using that s'(3) s2(3) s1(3) by simp
  ultimately show ?case using strip s1(1) s2(1) s'(1,2) by simp
qed simp

lemma delete_base_files_ok:
  "inv s \<Longrightarrow> \<forall>p\<in>set ps. good (base_key p) \<Longrightarrow>
   \<exists>s'. delete_base_files ops s ps = Inr s' \<and> inv s' \<and>
     (\<forall>k. good k \<longrightarrow> fdata s' k = (if \<exists>p\<in>set ps. k = base_key p then None else fdata s k))"
proof (induction ps arbitrary: s)
  case (Cons p ps)
  have g: "good (base_key p)" using Cons.prems(2) by simp
  obtain s1 where s1: "mf_delete ops s (base_key p) = Inr s1" "inv s1"
    "\<forall>k'. good k' \<longrightarrow> fdata s1 k' = (if k' = base_key p then None else fdata s k')"
    using delete_file [OF Cons.prems(1) g resolve_ns(2)] by blast
  obtain s' where "delete_base_files ops s1 ps = Inr s'" "inv s'"
    "\<forall>k. good k \<longrightarrow> fdata s' k = (if \<exists>p\<in>set ps. k = base_key p then None else fdata s1 k)"
    using Cons.IH [OF s1(2)] Cons.prems(2) by auto
  with s1 show ?case by auto
qed simp

lemma update_graph_fdata:
  "inv s \<Longrightarrow> inv (snd (update_graph_for_diff env ops s g fds)) \<and> fdata (snd (update_graph_for_diff env ops s g fds)) = fdata s"
proof (induction fds arbitrary: s g)
  case (Cons fd fds)
  show ?case
  proof (cases "fdata s (base_key (fd_path fd))")
    case None
    then obtain e where "mf_read ops s (base_key (fd_path fd)) = Inl e"
      using read_missing [OF Cons.prems resolve_ns(2)] by blast
    with Cons show ?thesis by simp
  next
    case (Some c)
    then obtain s1 where "mf_read ops s (base_key (fd_path fd)) = Inr (c, s1)" "inv s1" "fdata s1 = fdata s"
      using read_file [OF Cons.prems] by blast
    with Cons show ?thesis by simp
  qed
qed simp

lemma apply_overlay_ok:
  assumes "inv s" "\<And>r. fdata s (overlay_key r) \<noteq> None \<Longrightarrow> good (base_key r)" "\<forall>p\<in>set dels. good (base_key p)"
  shows "\<exists>n s'. apply_overlay ops s dels = Inr (n, s') \<and> inv s' \<and>
    (\<forall>k. good k \<longrightarrow> (\<forall>r. k \<noteq> base_key r) \<longrightarrow> fdata s' k = fdata s k) \<and>
    (\<forall>r. good (base_key r) \<longrightarrow> fdata s' (base_key r) =
       (if r \<in> set dels then None
        else case fdata s (overlay_key r) of Some c \<Rightarrow> Some c | None \<Rightarrow> fdata s (base_key r)))"
proof -
  obtain rels where r: "mf_list ops s ''overlay/'' = Inr (map overlay_key rels)" "distinct rels"
    "\<And>r. r \<in> set rels \<longleftrightarrow> fdata s (overlay_key r) \<noteq> None" "\<And>r. r \<in> set rels \<Longrightarrow> good (overlay_key r)"
    by (rule list_overlay [OF assms(1)]) blast
  obtain s1 where s1: "copy_overlay ops s (map overlay_key rels) = Inr s1" "inv s1"
    "\<forall>k. good k \<longrightarrow> (\<forall>r. k \<noteq> base_key r) \<longrightarrow> fdata s1 k = fdata s k"
    "\<forall>r. good (base_key r) \<longrightarrow> fdata s1 (base_key r) = (if r \<in> set rels then fdata s (overlay_key r) else fdata s (base_key r))"
    using copy_overlay_ok [OF assms(1), of rels] r(3,4) assms(2) by blast
  obtain s2 where s2: "delete_base_files ops s1 dels = Inr s2" "inv s2"
    "\<forall>k. good k \<longrightarrow> fdata s2 k = (if \<exists>p\<in>set dels. k = base_key p then None else fdata s1 k)"
    using delete_base_files_ok [OF s1(2) assms(3)] by blast
  have "fdata s2 (base_key q) = (if q \<in> set dels then None
      else case fdata s (overlay_key q) of Some c \<Rightarrow> Some c | None \<Rightarrow> fdata s (base_key q))" if "good (base_key q)" for q
    using s2(3) s1(4) that r(3) [of q] by (auto split: option.split)
  moreover have "fdata s2 k = fdata s k" if "good k" "\<forall>r. k \<noteq> base_key r" for k
    using s2(3) s1(3) that by simp
  ultimately show ?thesis using r(1) s1(1) s2(1,2) by (simp add: apply_overlay_def)
qed

end

section \<open>Metadata\<close>

lemma wf_vai_cong:
  "elog v = elog w \<Longrightarrow> ws_dirs v = ws_dirs w \<Longrightarrow> active_file v = active_file w \<Longrightarrow> wf_vai env v \<longleftrightarrow> wf_vai env w"
  by (simp add: wf_vai_def)

lemma ver_view_cong: "version_files v = version_files w \<Longrightarrow> ver_view env v = ver_view env w"
  by (simp add: ver_view_def get_version_def fun_eq_iff)

lemma vai_kinds_elog: "elog v = elog w \<Longrightarrow> vai_kinds env v = vai_kinds env w"
  by (simp add: vai_kinds_def)

lemma emit_removed_ok:
  "wf_log env (elog vai) \<Longrightarrow>
   \<exists>log. emit_removed env vai now wid ps = vai\<lparr>elog := log\<rparr> \<and> wf_log env log \<and>
     vai_kinds env (vai\<lparr>elog := log\<rparr>) = vai_kinds env vai @ map (FileRemoved wid) ps"
proof (induction ps arbitrary: vai)
  case Nil
  have "vai = vai\<lparr>elog := elog vai\<rparr>" by (cases vai) simp
  with Nil show ?case by (metis append_Nil2 emit_removed.simps(1) list.simps(8))
next
  case (Cons p ps)
  obtain e log1 where 1: "vai_append env vai now (FileRemoved wid p) = Inr (e, vai\<lparr>elog := log1\<rparr>)" "wf_log env log1"
    "vai_kinds env (vai\<lparr>elog := log1\<rparr>) = vai_kinds env vai @ [FileRemoved wid p]" by (rule vai_append_ok [OF Cons.prems])
  have "wf_log env (elog (vai\<lparr>elog := log1\<rparr>))" using 1(2) by simp
  from Cons.IH [OF this] 1 show ?case by auto
qed

text \<open>The metadata after the last stage of a merge.\<close>

lemma finish_merge_ok:
  fixes vai :: "('b) merge_dir_scheme" and env :: "('a) merge_env_scheme"
  assumes "wf_vai env vai" "ver_ok env" "ws_view env vai (uuid_to_string env (wm_id m)) \<noteq> None"
  shows "\<exists>sr vai'. finish_merge env fs s vai m diff dels new n auto now =
      Inr (sr, snd (update_graph_for_diff env fs s (graph_snapshot vai) (wd_file_diffs diff)), vai') \<and>
    wf_vai env vai' \<and> head_file vai' = Some (new @ [CHR 0x0A]) \<and> active_file vai' = None \<and>
    ws_view env vai' = (ws_view env vai)(uuid_to_string env (wm_id m) \<mapsto> m\<lparr>wm_status := WMerged, wm_updated_at := now\<rparr>) \<and>
    ver_view env vai' = (ver_view env vai)(new \<mapsto> sr_version sr) \<and>
    vai_kinds env vai' = vai_kinds env vai @ map (FileRemoved (wm_id m)) dels @
      [MergeCompleted (wm_id m) new auto, VersionCreated new (Some (wm_base_version m)) (wm_intent m)] \<and>
    vm_version_id (sr_version sr) = new \<and> vm_parent_version_id (sr_version sr) = Some (wm_base_version m) \<and>
    sr_files_applied sr = n \<and> sr_auto_resolved sr = auto"
proof -
  let ?w = "wm_id m" and ?d = "uuid_to_string env (wm_id m)"
  let ?g = "fst (update_graph_for_diff env fs s (graph_snapshot vai) (wd_file_diffs diff))"
  let ?v0 = "vai\<lparr>graph_snapshot := ?g\<rparr>"
  have wl0: "wf_log env (elog ?v0)" using assms(1) by (simp add: wf_vai_def)
  obtain log1 where 1: "emit_removed env ?v0 now ?w dels = ?v0\<lparr>elog := log1\<rparr>" "wf_log env log1"
    "vai_kinds env (?v0\<lparr>elog := log1\<rparr>) = vai_kinds env ?v0 @ map (FileRemoved ?w) dels"
    using emit_removed_ok [OF wl0] by blast
  let ?v1 = "?v0\<lparr>elog := log1\<rparr>"
  have wl1: "wf_log env (elog ?v1)" using 1(2) by simp
  obtain e2 log2 where 2: "vai_append env ?v1 now (MergeCompleted ?w new auto) = Inr (e2, ?v1\<lparr>elog := log2\<rparr>)" "wf_log env log2"
    "vai_kinds env (?v1\<lparr>elog := log2\<rparr>) = vai_kinds env ?v1 @ [MergeCompleted ?w new auto]"
    by (rule vai_append_ok [OF wl1])
  let ?v2 = "?v1\<lparr>elog := log2\<rparr>" and ?vc = "VersionCreated new (Some (wm_base_version m)) (wm_intent m)"
  have wl2: "wf_log env (elog ?v2)" using 2(2) by simp
  obtain e3 log3 where 3: "vai_append env ?v2 now ?vc = Inr (e3, ?v2\<lparr>elog := log3\<rparr>)" "wf_log env log3"
    "vai_kinds env (?v2\<lparr>elog := log3\<rparr>) = vai_kinds env ?v2 @ [?vc]"
    by (rule vai_append_ok [OF wl2])
  let ?v3 = "?v2\<lparr>elog := log3\<rparr>"
  obtain meta v4 where 4: "create_version env ?v3 new (Some (wm_base_version m)) (wm_intent m) ''agent'' (Some (ev_id e2)) now = Inr (meta, v4)"
    "vm_version_id meta = new" "vm_parent_version_id meta = Some (wm_base_version m)"
    "v4 = ?v3\<lparr>version_files := AList.update new (ver_to_toml env meta) (version_files ?v3)\<rparr>"
    "ver_view env v4 = (ver_view env ?v3)(new \<mapsto> meta)"
    by (rule ver_view_create [OF assms(2)])
  let ?v5 = "v4\<lparr>head_file := Some (new @ [CHR 0x0A])\<rparr>" and ?m = "m\<lparr>wm_status := WMerged, wm_updated_at := now\<rparr>"
  have dirs: "ws_dirs ?v5 = ws_dirs vai" "active_file ?v5 = active_file vai" "elog ?v5 = log3"
    "version_files ?v5 = version_files v4" using 4(4) by simp_all
  have wf5: "wf_vai env ?v5" using assms(1) dirs 3(2) by (simp add: wf_vai_def)
  have view5: "ws_view env ?v5 = ws_view env vai" by (rule ws_view_cong [OF dirs(1)])
  then have "ws_view env ?v5 (uuid_to_string env (wm_id ?m)) \<noteq> None" using assms(3) by simp
  then obtain v6 where 6: "update_meta env ?v5 ?m = Inr v6" "wf_vai env v6"
    "ws_view env v6 = (ws_view env ?v5)(uuid_to_string env (wm_id ?m) \<mapsto> ?m)" "elog v6 = elog ?v5"
    "head_file v6 = head_file ?v5" "vai_dir.more v6 = vai_dir.more ?v5"
    by (rule wf_vai_write_meta [OF wf5])
  let ?v7 = "v6\<lparr>active_file := None\<rparr>"
  have "version_files v6 = version_files ?v5"
    using 6(6) by (cases v6; cases ?v5) simp
  then have ver: "ver_view env ?v7 = (ver_view env vai)(new \<mapsto> meta)"
    using 4(5) ver_view_cong [of ?v7 v4 env] ver_view_cong [of ?v3 vai env] dirs(4) by simp
  have kinds: "vai_kinds env ?v7 = vai_kinds env vai @ map (FileRemoved ?w) dels @ [MergeCompleted ?w new auto, ?vc]"
    using 1(3) 2(3) 3(3) vai_kinds_elog [of ?v7 ?v3 env] 6(4) dirs(3) vai_kinds_elog [of ?v0 vai env] by simp
  have "finish_merge env fs s vai m diff dels new n auto now =
      Inr (\<lparr>sr_version = meta, sr_files_applied = n, sr_entities_changed = length (wd_entity_changes diff), sr_auto_resolved = auto,
            sr_entity_ids = map ec_entity_id (wd_entity_changes diff)\<rparr>,
           snd (update_graph_for_diff env fs s (graph_snapshot vai) (wd_file_diffs diff)), ?v7)"
    using 1(1) 2(1) 3(1) 4(1) 6(1)
    by (simp add: finish_merge_def advance_head_and_close_workspace_def case_prod_beta Let_def)
  moreover have "wf_vai env ?v7" using 6(2) by (simp add: wf_vai_def)
  moreover have "ws_view env ?v7 = (ws_view env vai)(?d \<mapsto> ?m)"
    using 6(3) view5 ws_view_cong [of ?v7 v6 env] by simp
  ultimately show ?thesis using ver kinds 4(2,3) 6(5) by simp
qed

section \<open>The fast-forward merge\<close>

lemma version_name_of: "version_name (version_id_of n)"
proof -
  have "CHR ''/'' \<notin> set (nat_to_string n)" "CHR 0x5C \<notin> set (nat_to_string n)"
    by (rule not_in_nat_to_string, simp)+
  then show ?thesis by (simp add: version_name_def version_id_of_def)
qed

context merge_fs
begin

text \<open>The paths of a diff and its deletions can be used as keys.\<close>

definition usable :: "'s \<Rightarrow> string \<Rightarrow> string list \<Rightarrow> bool" where
  "usable s vid dels \<longleftrightarrow>
     (\<forall>p. fdata s (overlay_key p) \<noteq> None \<or> p \<in> set dels \<longrightarrow> good (base_key p) \<and> good (snapshot_key vid p) \<and> good (overlay_key p))"

lemma fast_forward_ok:
  fixes vai :: "('b) merge_dir_scheme" and env :: "('a) merge_env_scheme"
  assumes "inv s" "wf_vai env vai" "wf_versions env (version_files vai)" "ws_view env vai (uuid_to_string env (wm_id m)) \<noteq> None"
    and fds: "set (map fd_path (wd_file_diffs diff)) \<subseteq> {p. fdata s (overlay_key p) \<noteq> None \<or> p \<in> set dels}"
    and us: "\<And>n. usable s (version_id_of n) dels"
  obtains sr s' vai' n where "fast_forward_merge env ops s vai m diff dels now = Inr (sr, s', vai')" "inv s'" "wf_vai env vai'"
    "next_version_id env vai = Inr (version_id_of n)" "ver_view env vai (version_id_of n) = None"
    "head_file vai' = Some (version_id_of n @ [CHR 0x0A])" "active_file vai' = None"
    "ws_view env vai' = (ws_view env vai)(uuid_to_string env (wm_id m) \<mapsto> m\<lparr>wm_status := WMerged, wm_updated_at := now\<rparr>)"
    "ver_view env vai' = (ver_view env vai)(version_id_of n \<mapsto> sr_version sr)"
    "vai_kinds env vai' = vai_kinds env vai @ map (FileRemoved (wm_id m)) dels @
      [MergeCompleted (wm_id m) (version_id_of n) 0, VersionCreated (version_id_of n) (Some (wm_base_version m)) (wm_intent m)]"
    "vm_version_id (sr_version sr) = version_id_of n" "vm_parent_version_id (sr_version sr) = Some (wm_base_version m)"
    "\<forall>r. good (base_key r) \<longrightarrow> good (overlay_key r) \<longrightarrow> fdata s' (base_key r) =
       (if r \<in> set dels then None else case fdata s (overlay_key r) of Some c \<Rightarrow> Some c | None \<Rightarrow> fdata s (base_key r))"
    "\<forall>r. r \<in> set (map fd_path (wd_file_diffs diff)) \<longrightarrow> fdata s (base_key r) \<noteq> None \<longrightarrow>
       fdata s' (snapshot_key (version_id_of n) r) = fdata s (base_key r)"
    "\<forall>r. good (overlay_key r) \<longrightarrow> fdata s' (overlay_key r) = fdata s (overlay_key r)"
proof -
  let ?ps = "map fd_path (wd_file_diffs diff)"
  obtain n where n: "next_version_id env vai = Inr (version_id_of n)" "version_id_of n \<notin> fst ` set (version_files vai)"
    by (rule next_version_id_ok [OF assms(3)]) blast
  let ?new = "version_id_of n"
  have old: "ver_view env vai ?new = None" using n(2) by (metis map_of_eq_None_iff not_None_eq option.distinct(1) ver_view_Some)
  have g: "good (base_key p) \<and> good (snapshot_key ?new p) \<and> good (overlay_key p)" if "p \<in> set ?ps \<or> fdata s (overlay_key p) \<noteq> None \<or> p \<in> set dels" for p
    using us [of n] fds that unfolding usable_def by blast
  obtain s1 where s1: "save_pre_change_snapshot ops s ?new ?ps = Inr s1" "inv s1"
    "\<forall>k. good k \<longrightarrow> (\<forall>p. k \<noteq> snapshot_key ?new p) \<longrightarrow> fdata s1 k = fdata s k"
    "\<forall>p. good (snapshot_key ?new p) \<longrightarrow> fdata s1 (snapshot_key ?new p) =
      (if p \<in> set ?ps \<and> fdata s (base_key p) \<noteq> None then fdata s (base_key p) else fdata s (snapshot_key ?new p))"
    using save_snapshot_ok [OF assms(1) version_name_of, of ?ps n] g by blast
  obtain rels where lst: "mf_list ops s1 ''overlay/'' = Inr (map overlay_key rels)"
    "\<And>r. r \<in> set rels \<longleftrightarrow> fdata s1 (overlay_key r) \<noteq> None" "\<And>r. r \<in> set rels \<Longrightarrow> good (overlay_key r)"
    by (rule list_overlay [OF s1(2)]) blast
  have ovs: "fdata s1 (overlay_key r) \<noteq> None \<Longrightarrow> good (base_key r)" for r
  proof -
    assume "fdata s1 (overlay_key r) \<noteq> None"
    then have "good (overlay_key r)" "fdata s1 (overlay_key r) \<noteq> None" using lst(2,3) by blast+
    then have "fdata s (overlay_key r) \<noteq> None" using s1(3) by (metis keys_disjoint(3))
    then show ?thesis using g by blast
  qed
  obtain k s2 where s2: "apply_overlay ops s1 dels = Inr (k, s2)" "inv s2"
    "\<forall>k. good k \<longrightarrow> (\<forall>r. k \<noteq> base_key r) \<longrightarrow> fdata s2 k = fdata s1 k"
    "\<forall>r. good (base_key r) \<longrightarrow> fdata s2 (base_key r) =
       (if r \<in> set dels then None else case fdata s1 (overlay_key r) of Some c \<Rightarrow> Some c | None \<Rightarrow> fdata s1 (base_key r))"
    using apply_overlay_ok [OF s1(2) ovs, of dels] g by blast
  let ?s3 = "snd (update_graph_for_diff env ops s2 (graph_snapshot vai) (wd_file_diffs diff))"
  have s3: "inv ?s3" "fdata ?s3 = fdata s2" using update_graph_fdata [OF s2(2), of env "graph_snapshot vai" "wd_file_diffs diff"] by simp_all
  have vok: "ver_ok env" using assms(3) by (simp add: wf_versions_def)
  obtain sr vai' where f: "finish_merge env ops s2 vai m diff dels ?new k 0 now = Inr (sr, ?s3, vai')"
    "wf_vai env vai'" "head_file vai' = Some (?new @ [CHR 0x0A])" "active_file vai' = None"
    "ws_view env vai' = (ws_view env vai)(uuid_to_string env (wm_id m) \<mapsto> m\<lparr>wm_status := WMerged, wm_updated_at := now\<rparr>)"
    "ver_view env vai' = (ver_view env vai)(?new \<mapsto> sr_version sr)"
    "vai_kinds env vai' = vai_kinds env vai @ map (FileRemoved (wm_id m)) dels @
      [MergeCompleted (wm_id m) ?new 0, VersionCreated ?new (Some (wm_base_version m)) (wm_intent m)]"
    "vm_version_id (sr_version sr) = ?new" "vm_parent_version_id (sr_version sr) = Some (wm_base_version m)"
    using finish_merge_ok [OF assms(2) vok assms(4), of ops s2 diff dels ?new k 0 now] by blast
  have ff: "fast_forward_merge env ops s vai m diff dels now = Inr (sr, ?s3, vai')"
    using n(1) s1(1) s2(1) f(1) by (simp add: fast_forward_merge_def)
  have base: "fdata ?s3 (base_key r) = (if r \<in> set dels then None else case fdata s (overlay_key r) of Some c \<Rightarrow> Some c | None \<Rightarrow> fdata s (base_key r))"
    if "good (base_key r)" "good (overlay_key r)" for r
    using that s2(4) s1(3) unfolding s3(2) by (simp split: option.split)
  have snap: "fdata ?s3 (snapshot_key ?new r) = fdata s (base_key r)" if "r \<in> set ?ps" "fdata s (base_key r) \<noteq> None" for r
    using that s2(3) s1(4) g [of r] unfolding s3(2) by simp
  have ov: "fdata ?s3 (overlay_key r) = fdata s (overlay_key r)" if "good (overlay_key r)" for r
    using that s2(3) s1(3) unfolding s3(2) by simp
  show ?thesis by (rule that [OF ff s3(1) f(2) n(1) old f(3-9)]) (use base snap ov in simp_all)
qed

end

end
