(* ===== verification/Submit.thy ===== *)
theory Submit
  imports Merge_Laws
begin

text \<open>
  Submitting the active workspace of a repository on disk (\<open>submit\<close> of \<open>src/merge/mod.rs\<close>): the
  general lemmas of \<open>Merge_Laws\<close> are used through the interpretation \<open>disk\<close>, so that the
  properties here speak of the files of the repository and of the \<open>.vai\<close> directory.
\<close>

section \<open>Locations on disk\<close>

lemma disk_fdata [simp]:
  "disk.fdata wid d (overlay_key r) = map_of d (overlay_dir wid @ ''/'' @ r)"
  "disk.fdata wid d (base_key r) = map_of d r"
  "version_name v \<Longrightarrow> disk.fdata wid d (snapshot_key v r) = map_of d (''.vai/versions/'' @ v @ ''/snapshot/'' @ r)"
  by (simp_all add: disk.fdata_def disk_loc_def)

text \<open>Paths of source files: no back slashes, and outside the repository's own directory.\<close>

definition source_path :: "string \<Rightarrow> bool" where
  "source_path p \<longleftrightarrow> CHR 0x5C \<notin> set p \<and> \<not> starts_with p ''.vai/''"

lemma starts_with_base_key: "starts_with (base_key p) ''base/.vai/'' \<longleftrightarrow> starts_with p ''.vai/''"
  by (simp add: starts_with_def base_key_def)

lemma source_path_good:
  assumes "source_path p"
  shows "disk_good (base_key p)" "disk_good (overlay_key p)" "disk_good (snapshot_key (version_id_of n) p)"
proof -
  have "CHR 0x5C \<notin> set (version_id_of n)" using version_name_of [of n] by (simp add: version_name_def)
  then show "disk_good (snapshot_key (version_id_of n) p)" using assms
    by (simp add: disk_good_def source_path_def key_defs starts_with_def)
  show "disk_good (base_key p)" using assms
    unfolding disk_good_def starts_with_base_key by (simp add: source_path_def base_key_def)
  show "disk_good (overlay_key p)" using assms
    by (simp add: disk_good_def source_path_def key_defs starts_with_def)
qed

section \<open>Recording the events of a submission\<close>

text \<open>The change events that recording a diff adds for a workspace in a given state.\<close>

definition change_events :: "WorkspaceMeta \<Rightarrow> WorkspaceDiff \<Rightarrow> EventKind list" where
  "change_events m diff =
     (if wm_status m \<noteq> WCreated then []
      else map (file_event (wd_workspace_id diff)) (wd_file_diffs diff) @
           map (entity_event (wd_workspace_id diff)) (wd_entity_changes diff))"

lemma active_view:
  assumes "wf_vai env vai" "ws_active env vai = Inr m"
  shows "active_file vai = Some (uuid_to_string env (wm_id m))" "ws_view env vai (uuid_to_string env (wm_id m)) = Some m"
proof -
  obtain a where a: "active_file vai = Some a" "ws_view env vai a = Some m"
    using assms(2) read_active_wf [OF assms(1)] ws_get_view [OF wf_vai_dirs [OF assms(1)]]
    by (auto simp: ws_active_def split: option.splits)
  have "a = uuid_to_string env (wm_id m)" using ws_view_id [OF wf_vai_dirs [OF assms(1)] a(2)] .
  with a show "active_file vai = Some (uuid_to_string env (wm_id m))" "ws_view env vai (uuid_to_string env (wm_id m)) = Some m"
    by simp_all
qed

lemma record_events_ok:
  fixes vai :: "('b) merge_dir_scheme"
  assumes "wf_vai env vai" "ws_active env vai = Inr m"
  obtains vai1 m1 where "record_events env vai diff now = Inr vai1" "wf_vai env vai1"
    "ws_view env vai1 = (ws_view env vai)(uuid_to_string env (wm_id m) \<mapsto> m1)"
    "vai_kinds env vai1 = vai_kinds env vai @ change_events m diff"
    "head_file vai1 = head_file vai" "vai_dir.more vai1 = vai_dir.more vai" "active_file vai1 = active_file vai"
proof (cases "wm_status m = WCreated")
  case False
  have "ws_view env vai = (ws_view env vai)(uuid_to_string env (wm_id m) \<mapsto> m)"
    using active_view(2) [OF assms] by (simp add: fun_upd_idem)
  with False assms show ?thesis by (intro that [of vai m]) (simp_all add: record_events_def change_events_def)
next
  case True
  let ?m = "m\<lparr>wm_status := WActive, wm_updated_at := now\<rparr>" and ?ks = "change_events m diff"
  have ks: "?ks = map (file_event (wd_workspace_id diff)) (wd_file_diffs diff) @
      map (entity_event (wd_workspace_id diff)) (wd_entity_changes diff)" using True by (simp add: change_events_def)
  have wl: "wf_log env (elog vai)" using assms(1) by (simp add: wf_vai_def)
  obtain log where l: "append_kinds (vai_append env) vai now ?ks = Inr (vai\<lparr>elog := log\<rparr>)" "wf_log env log"
    "vai_kinds env (vai\<lparr>elog := log\<rparr>) = vai_kinds env vai @ ?ks" by (rule append_kinds_vai [OF wl])
  let ?v1 = "vai\<lparr>elog := log\<rparr>"
  have wf1: "wf_vai env ?v1" using assms(1) l(2) by (simp add: wf_vai_def)
  have view: "ws_view env ?v1 = ws_view env vai" by (rule ws_view_cong) simp
  then have "ws_view env ?v1 (uuid_to_string env (wm_id ?m)) \<noteq> None" using active_view(2) [OF assms] by simp
  then obtain v2 where v2: "update_meta env ?v1 ?m = Inr v2" "wf_vai env v2"
    "ws_view env v2 = (ws_view env ?v1)(uuid_to_string env (wm_id ?m) \<mapsto> ?m)" "elog v2 = elog ?v1" "active_file v2 = active_file ?v1"
    "head_file v2 = head_file ?v1" "vai_dir.more v2 = vai_dir.more ?v1" by (rule wf_vai_write_meta [OF wf1])
  have "vai_kinds env v2 = vai_kinds env vai @ ?ks" using l(3) v2(4) vai_kinds_elog [of v2 ?v1 env] by simp
  moreover have "record_events env vai diff now = Inr v2"
    using assms(2) True l(1) v2(1) unfolding ks by (simp add: record_events_def)
  ultimately show ?thesis using that [of v2 ?m] v2 view by simp
qed

section \<open>Submitting, for every file abstraction\<close>

context merge_fs
begin

text \<open>Up to the choice of the merge path: the diff, the recorded events and the HEAD that is read.\<close>

lemma submit_prefix_ok:
  fixes vai :: "('b) merge_dir_scheme" and env :: "('a) merge_env_scheme"
  assumes "inv s" "parse_total env" "wf_vai env vai" "ws_active env vai = Inr m" "head_file vai = Some h"
    and ne: "fdata s (overlay_key p0) \<noteq> None \<or> p0 \<in> set dels \<and> fdata s (base_key p0) \<noteq> None"
  obtains diff s1 vai2 m1 where
    "submit_with_fs env fresh ops s vai m dels now =
      (if trim h = wm_base_version m then out_of s1 vai2 (fast_forward_merge env ops s1 vai2 m diff dels now)
       else semantic_merge env fresh ops s1 vai2 m diff dels now)"
    "inv s1" "fdata s1 = fdata s" "wf_vai env vai2"
    "ws_view env vai2 = (ws_view env vai)(uuid_to_string env (wm_id m) \<mapsto> m1)"
    "vai_kinds env vai2 = vai_kinds env vai @ change_events m diff @ [WorkspaceSubmitted (wm_id m) (changes_summary diff)]"
    "head_file vai2 = head_file vai" "vai_dir.more vai2 = vai_dir.more vai"
    "set (map fd_path (wd_file_diffs diff)) =
      {p. fdata s (overlay_key p) \<noteq> None \<or> p \<in> set dels \<and> fdata s (base_key p) \<noteq> None}"
    "\<forall>p\<in>set dels. fdata s (base_key p) \<noteq> None \<longrightarrow> (\<exists>fd\<in>set (wd_file_diffs diff). fd_path fd = p \<and> fd_change_type fd = FcDeleted)"
    "active_file vai2 = active_file vai"
proof -
  obtain diff s1 rels where c: "compute_with_fs env ops s (wm_id m) (wm_base_version m) dels = Inr (diff, s1)" "inv s1" "fdata s1 = fdata s"
    "\<forall>r. r \<in> set rels \<longleftrightarrow> fdata s (overlay_key r) \<noteq> None"
    "map (\<lambda>fd. (fd_path fd, fd_change_type fd)) (wd_file_diffs diff) =
      map (\<lambda>r. (r, overlay_change (fdata s (base_key r) \<noteq> None))) rels @
      map (\<lambda>p. (p, FcDeleted)) (filter (\<lambda>p. fdata s (base_key p) \<noteq> None) dels)"
    using compute_with_fs_ok [OF assms(1,2)] by blast
  have "map fd_path (wd_file_diffs diff) = map fst (map (\<lambda>fd. (fd_path fd, fd_change_type fd)) (wd_file_diffs diff))" by simp
  then have "map fd_path (wd_file_diffs diff) = rels @ filter (\<lambda>p. fdata s (base_key p) \<noteq> None) dels"
    unfolding c(5) by (simp add: comp_def)
  then have ps: "set (map fd_path (wd_file_diffs diff)) =
      {p. fdata s (overlay_key p) \<noteq> None \<or> p \<in> set dels \<and> fdata s (base_key p) \<noteq> None}" using c(4) by auto
  have del: "\<exists>fd\<in>set (wd_file_diffs diff). fd_path fd = p \<and> fd_change_type fd = FcDeleted"
    if "p \<in> set dels" "fdata s (base_key p) \<noteq> None" for p
  proof -
    have "(p, FcDeleted) \<in> set (map (\<lambda>fd. (fd_path fd, fd_change_type fd)) (wd_file_diffs diff))"
      unfolding c(5) using that by simp
    then show ?thesis by auto
  qed
  have "wd_file_diffs diff \<noteq> []" using ps ne by auto
  then have ne: "\<not> wd_is_empty diff" by (simp add: wd_is_empty_def)
  obtain vai1 m1 where r: "record_events env vai diff now = Inr vai1" "wf_vai env vai1"
    "ws_view env vai1 = (ws_view env vai)(uuid_to_string env (wm_id m) \<mapsto> m1)"
    "vai_kinds env vai1 = vai_kinds env vai @ change_events m diff"
    "head_file vai1 = head_file vai" "vai_dir.more vai1 = vai_dir.more vai" "active_file vai1 = active_file vai"
    by (rule record_events_ok [OF assms(3,4)])
  have wl: "wf_log env (elog vai1)" using r(2) by (simp add: wf_vai_def)
  let ?k = "WorkspaceSubmitted (wm_id m) (changes_summary diff)"
  obtain e log where l: "vai_append env vai1 now ?k = Inr (e, vai1\<lparr>elog := log\<rparr>)" "wf_log env log"
    "vai_kinds env (vai1\<lparr>elog := log\<rparr>) = vai_kinds env vai1 @ [?k]" by (rule vai_append_ok [OF wl])
  let ?v2 = "vai1\<lparr>elog := log\<rparr>"
  have "submit_with_fs env fresh ops s vai m dels now =
      (if trim h = wm_base_version m then out_of s1 ?v2 (fast_forward_merge env ops s1 ?v2 m diff dels now)
       else semantic_merge env fresh ops s1 ?v2 m diff dels now)"
    using c(1) ne r(1,5) l(1) assms(5) by (simp add: submit_with_fs_def read_head_def)
  moreover have "wf_vai env ?v2" using r(2) l(2) by (simp add: wf_vai_def)
  moreover have "ws_view env ?v2 = (ws_view env vai)(uuid_to_string env (wm_id m) \<mapsto> m1)"
    using r(3) ws_view_cong [of ?v2 vai1 env] by simp
  moreover have "vai_kinds env ?v2 = vai_kinds env vai @ change_events m diff @ [?k]" using l(3) r(4) by simp
  moreover have "head_file ?v2 = head_file vai" "vai_dir.more ?v2 = vai_dir.more vai" "active_file ?v2 = active_file vai" using r(5-7) by simp_all
  ultimately show ?thesis using that [of s1 ?v2 diff m1] c(2,3) ps del by simp
qed

lemma submit_ff_ok:
  fixes vai :: "('b) merge_dir_scheme" and env :: "('a) merge_env_scheme"
  assumes "inv s" "parse_total env" "wf_vai env vai" "wf_versions env (version_files vai)" "ws_active env vai = Inr m"
    "head_file vai = Some h" "trim h = wm_base_version m" "\<And>n. usable s (version_id_of n) dels"
    "fdata s (overlay_key p0) \<noteq> None \<or> p0 \<in> set dels \<and> fdata s (base_key p0) \<noteq> None"
  obtains sr s' vai' n diff where "submit_with_fs env fresh ops s vai m dels now = (Inr sr, s', vai')"
    "inv s'" "wf_vai env vai'" "ver_view env vai (version_id_of n) = None"
    "head_file vai' = Some (version_id_of n @ [CHR 0x0A])" "active_file vai' = None"
    "ws_view env vai' = (ws_view env vai)(uuid_to_string env (wm_id m) \<mapsto> m\<lparr>wm_status := WMerged, wm_updated_at := now\<rparr>)"
    "ver_view env vai' = (ver_view env vai)(version_id_of n \<mapsto> sr_version sr)"
    "vm_version_id (sr_version sr) = version_id_of n" "vm_parent_version_id (sr_version sr) = Some (wm_base_version m)"
    "vai_kinds env vai' = vai_kinds env vai @ change_events m diff @ [WorkspaceSubmitted (wm_id m) (changes_summary diff)] @
      map (FileRemoved (wm_id m)) dels @
      [MergeCompleted (wm_id m) (version_id_of n) 0, VersionCreated (version_id_of n) (Some (wm_base_version m)) (wm_intent m)]"
    "\<forall>r. good (base_key r) \<longrightarrow> good (overlay_key r) \<longrightarrow> fdata s' (base_key r) =
       (if r \<in> set dels then None else case fdata s (overlay_key r) of Some c \<Rightarrow> Some c | None \<Rightarrow> fdata s (base_key r))"
    "\<forall>r. fdata s (overlay_key r) \<noteq> None \<or> r \<in> set dels \<longrightarrow> fdata s (base_key r) \<noteq> None \<longrightarrow>
       fdata s' (snapshot_key (version_id_of n) r) = fdata s (base_key r)"
proof -
  obtain diff s1 vai2 m1 where p:
    "submit_with_fs env fresh ops s vai m dels now =
      (if trim h = wm_base_version m then out_of s1 vai2 (fast_forward_merge env ops s1 vai2 m diff dels now)
       else semantic_merge env fresh ops s1 vai2 m diff dels now)"
    "inv s1" "fdata s1 = fdata s" "wf_vai env vai2"
    "ws_view env vai2 = (ws_view env vai)(uuid_to_string env (wm_id m) \<mapsto> m1)"
    "vai_kinds env vai2 = vai_kinds env vai @ change_events m diff @ [WorkspaceSubmitted (wm_id m) (changes_summary diff)]"
    "head_file vai2 = head_file vai" "vai_dir.more vai2 = vai_dir.more vai"
    "set (map fd_path (wd_file_diffs diff)) =
      {p. fdata s (overlay_key p) \<noteq> None \<or> p \<in> set dels \<and> fdata s (base_key p) \<noteq> None}"
    "\<forall>p\<in>set dels. fdata s (base_key p) \<noteq> None \<longrightarrow> (\<exists>fd\<in>set (wd_file_diffs diff). fd_path fd = p \<and> fd_change_type fd = FcDeleted)"
    "active_file vai2 = active_file vai"
    by (rule submit_prefix_ok [OF assms(1,2,3,5,6,9), of fresh now])
  have vf: "version_files vai2 = version_files vai" using p(8) by (cases vai2; cases vai) simp
  have vers: "wf_versions env (version_files vai2)" unfolding vf by (rule assms(4))
  have vv: "ver_view env vai2 = ver_view env vai" by (rule ver_view_cong [OF vf])
  have act: "ws_view env vai2 (uuid_to_string env (wm_id m)) \<noteq> None" using p(5) by simp
  have sub: "set (map fd_path (wd_file_diffs diff)) \<subseteq> {p. fdata s1 (overlay_key p) \<noteq> None \<or> p \<in> set dels}"
    using p(9) unfolding p(3) by blast
  have us: "usable s1 (version_id_of n) dels" for n using assms(8) unfolding usable_def p(3) by simp
  obtain sr s' vai' n where f: "fast_forward_merge env ops s1 vai2 m diff dels now = Inr (sr, s', vai')" "inv s'" "wf_vai env vai'"
    "next_version_id env vai2 = Inr (version_id_of n)" "ver_view env vai2 (version_id_of n) = None"
    "head_file vai' = Some (version_id_of n @ [CHR 0x0A])" "active_file vai' = None"
    "ws_view env vai' = (ws_view env vai2)(uuid_to_string env (wm_id m) \<mapsto> m\<lparr>wm_status := WMerged, wm_updated_at := now\<rparr>)"
    "ver_view env vai' = (ver_view env vai2)(version_id_of n \<mapsto> sr_version sr)"
    "vai_kinds env vai' = vai_kinds env vai2 @ map (FileRemoved (wm_id m)) dels @
      [MergeCompleted (wm_id m) (version_id_of n) 0, VersionCreated (version_id_of n) (Some (wm_base_version m)) (wm_intent m)]"
    "vm_version_id (sr_version sr) = version_id_of n" "vm_parent_version_id (sr_version sr) = Some (wm_base_version m)"
    "\<forall>r. good (base_key r) \<longrightarrow> good (overlay_key r) \<longrightarrow> fdata s' (base_key r) =
       (if r \<in> set dels then None else case fdata s1 (overlay_key r) of Some c \<Rightarrow> Some c | None \<Rightarrow> fdata s1 (base_key r))"
    "\<forall>r. r \<in> set (map fd_path (wd_file_diffs diff)) \<longrightarrow> fdata s1 (base_key r) \<noteq> None \<longrightarrow>
       fdata s' (snapshot_key (version_id_of n) r) = fdata s1 (base_key r)"
    "\<forall>r. good (overlay_key r) \<longrightarrow> fdata s' (overlay_key r) = fdata s1 (overlay_key r)"
    by (rule fast_forward_ok [OF p(2,4) vers act sub us, of now])
  have sub: "submit_with_fs env fresh ops s vai m dels now = (Inr sr, s', vai')"
    using p(1) assms(7) f(1) by (simp add: out_of_def)
  have view: "ws_view env vai' = (ws_view env vai)(uuid_to_string env (wm_id m) \<mapsto> m\<lparr>wm_status := WMerged, wm_updated_at := now\<rparr>)"
    using f(8) p(5) by simp
  have kinds: "vai_kinds env vai' = vai_kinds env vai @ change_events m diff @ [WorkspaceSubmitted (wm_id m) (changes_summary diff)] @
      map (FileRemoved (wm_id m)) dels @
      [MergeCompleted (wm_id m) (version_id_of n) 0, VersionCreated (version_id_of n) (Some (wm_base_version m)) (wm_intent m)]"
    using f(10) p(6) by simp
  show ?thesis
    by (rule that [OF sub f(2,3) f(5) [unfolded vv] f(6,7) view f(9) [unfolded vv] f(11,12) kinds f(13) [unfolded p(3)]])
      (use f(14) p(9) in \<open>auto simp: p(3)\<close>)
qed

end

section \<open>Properties\<close>

text \<open>C1: Submitting the active workspace of a repository whose HEAD is still the version the workspace
  was based on succeeds: every source file becomes its overlay version, the explicitly deleted
  files are gone and all others are unchanged; the previous content of each changed file is kept
  in the snapshot of the new version; HEAD names that fresh version, whose parent is the base;
  the workspace is merged and no longer active; earlier versions, workspaces and events are kept.\<close>

theorem submit_fast_forward:
  fixes vai :: "('b) merge_dir_scheme" and env :: "('a) merge_env_scheme"
  assumes "wf_vai env vai" "wf_versions env (version_files vai)" "parse_total env" "ws_active env vai = Inr m"
    "head_file vai = Some h" "trim h = wm_base_version m" "wid = uuid_to_string env (wm_id m)" "disk_inv wid d"
    "dels = read_manifest env vai (wm_id m)" "ov = (\<lambda>p. map_of d (overlay_dir wid @ ''/'' @ p))"
    and src: "\<forall>p. ov p \<noteq> None \<or> p \<in> set dels \<longrightarrow> source_path p"
    and ne: "\<exists>p. ov p \<noteq> None \<or> p \<in> set dels \<and> map_of d p \<noteq> None"
  shows "\<exists>sr d' vai' n evs. submit env fresh vai d now = (Inr sr, d', vai') \<and> wf_vai env vai' \<and>
    (\<forall>p. source_path p \<longrightarrow> map_of d' p =
       (if p \<in> set dels then None else case ov p of Some c \<Rightarrow> Some c | None \<Rightarrow> map_of d p)) \<and>
    (\<forall>p. (ov p \<noteq> None \<or> p \<in> set dels) \<and> map_of d p \<noteq> None \<longrightarrow>
       map_of d' (''.vai/versions/'' @ version_id_of n @ ''/snapshot/'' @ p) = map_of d p) \<and>
    ver_view env vai (version_id_of n) = None \<and> ver_view env vai' = (ver_view env vai)(version_id_of n \<mapsto> sr_version sr) \<and>
    vm_parent_version_id (sr_version sr) = Some (wm_base_version m) \<and> head_file vai' = Some (version_id_of n @ [CHR 0x0A]) \<and>
    ws_view env vai' = (ws_view env vai)(wid \<mapsto> m\<lparr>wm_status := WMerged, wm_updated_at := now\<rparr>) \<and> active_file vai' = None \<and>
    vai_kinds env vai' = vai_kinds env vai @ evs @ map (FileRemoved (wm_id m)) dels @
      [MergeCompleted (wm_id m) (version_id_of n) 0, VersionCreated (version_id_of n) (Some (wm_base_version m)) (wm_intent m)]"
proof -
  from ne obtain p0 where p0: "ov p0 \<noteq> None \<or> p0 \<in> set dels \<and> map_of d p0 \<noteq> None" by blast
  have ne: "disk.fdata wid d (overlay_key p0) \<noteq> None \<or> p0 \<in> set dels \<and> disk.fdata wid d (base_key p0) \<noteq> None"
    using p0 by (simp add: assms(10))
  have us: "disk.usable wid d (version_id_of n) dels" for n
    unfolding disk.usable_def using src source_path_good by (simp add: assms(10))
  have sub: "submit env fresh vai d now = submit_with_fs env fresh (DiskMergeFs wid) d vai m dels now"
    by (simp add: submit_def assms(4,7,9))
  obtain sr d' vai' n diff where r: "submit_with_fs env fresh (DiskMergeFs wid) d vai m dels now = (Inr sr, d', vai')"
    "disk_inv wid d'" "wf_vai env vai'" "ver_view env vai (version_id_of n) = None"
    "head_file vai' = Some (version_id_of n @ [CHR 0x0A])" "active_file vai' = None"
    "ws_view env vai' = (ws_view env vai)(uuid_to_string env (wm_id m) \<mapsto> m\<lparr>wm_status := WMerged, wm_updated_at := now\<rparr>)"
    "ver_view env vai' = (ver_view env vai)(version_id_of n \<mapsto> sr_version sr)"
    "vm_version_id (sr_version sr) = version_id_of n" "vm_parent_version_id (sr_version sr) = Some (wm_base_version m)"
    "vai_kinds env vai' = vai_kinds env vai @ change_events m diff @ [WorkspaceSubmitted (wm_id m) (changes_summary diff)] @
      map (FileRemoved (wm_id m)) dels @
      [MergeCompleted (wm_id m) (version_id_of n) 0, VersionCreated (version_id_of n) (Some (wm_base_version m)) (wm_intent m)]"
    "\<forall>r. disk_good (base_key r) \<longrightarrow> disk_good (overlay_key r) \<longrightarrow> disk.fdata wid d' (base_key r) =
       (if r \<in> set dels then None else case disk.fdata wid d (overlay_key r) of Some c \<Rightarrow> Some c | None \<Rightarrow> disk.fdata wid d (base_key r))"
    "\<forall>r. disk.fdata wid d (overlay_key r) \<noteq> None \<or> r \<in> set dels \<longrightarrow> disk.fdata wid d (base_key r) \<noteq> None \<longrightarrow>
       disk.fdata wid d' (snapshot_key (version_id_of n) r) = disk.fdata wid d (base_key r)"
    by (rule disk.submit_ff_ok [OF assms(8,3,1,2,4,5,6) us ne, of fresh now])
  have files: "\<forall>p. source_path p \<longrightarrow> map_of d' p = (if p \<in> set dels then None else case ov p of Some c \<Rightarrow> Some c | None \<Rightarrow> map_of d p)"
    using r(12) source_path_good unfolding disk_fdata assms(10) by blast
  have snaps: "\<forall>p. (ov p \<noteq> None \<or> p \<in> set dels) \<and> map_of d p \<noteq> None \<longrightarrow>
       map_of d' (''.vai/versions/'' @ version_id_of n @ ''/snapshot/'' @ p) = map_of d p"
    using r(13) unfolding disk_fdata(1,2) disk_fdata(3) [OF version_name_of] assms(10) by blast
  show ?thesis
    by (intro exI conjI, unfold sub, rule r(1), rule r(3), rule files, rule snaps, rule r(4), rule r(8), rule r(10), rule r(5))
      (use r(6,7,11) in \<open>simp_all add: assms(7)\<close>)
qed

end
