(* ===== verification/Semantic_Laws.thy ===== *)
theory Semantic_Laws
  imports Submit
begin

text \<open>
  The semantic merge: which files HEAD changed since the base of the workspace, the loop over the
  changed files, and what is written, stored and logged at the end. As in \<open>Merge_Laws\<close>, the file
  part is proved in the context of \<open>merge_fs\<close> and used through the interpretation \<open>disk\<close>.
\<close>

section \<open>Files changed by HEAD\<close>

context merge_fs
begin

lemma read_back:
  assumes "inv s" "resolve k \<noteq> None" "mf_read ops s k = Inr (c, s1)"
  shows "fdata s k = Some c" "inv s1" "fdata s1 = fdata s"
proof -
  obtain c' where c': "fdata s k = Some c'" using read_missing [OF assms(1,2)] assms(3) by (cases "fdata s k") auto
  from read_file [OF assms(1) c'] assms(3) c' show "fdata s k = Some c" "inv s1" "fdata s1 = fdata s" by auto
qed

lemma list_snapshot:
  assumes "inv s" "version_name v"
  obtains rels where "mf_list ops s (snapshot_prefix v) = Inr (map (snapshot_key v) rels)"
    "\<forall>r. r \<in> set rels \<longleftrightarrow> fdata s (snapshot_key v r) \<noteq> None"
proof -
  have pre: "snapshot_prefix v = ''overlay/'' \<or> (\<exists>ver. version_name ver \<and> snapshot_prefix v = snapshot_prefix ver)"
    using assms(2) by (intro disjI2 exI [of _ v]) simp
  obtain ks where ks: "mf_list ops s (snapshot_prefix v) = Inr ks"
    "\<forall>k. k \<in> set ks \<longleftrightarrow> starts_with k (snapshot_prefix v) \<and> fdata s k \<noteq> None"
    using list_files [OF assms(1) pre] by (elim exE conjE) (rule that)
  let ?rels = "map (drop (length (snapshot_prefix v))) ks"
  have "k = snapshot_key v (drop (length (snapshot_prefix v)) k)" if "k \<in> set ks" for k
    using that ks(2) unfolding starts_with_def snapshot_key_def by (metis append_take_drop_id)
  then have eq: "ks = map (snapshot_key v) ?rels" by (simp add: map_idI)
  have "r \<in> set ?rels \<longleftrightarrow> fdata s (snapshot_key v r) \<noteq> None" for r
  proof -
    have "r \<in> set ?rels \<longleftrightarrow> snapshot_key v r \<in> set (map (snapshot_key v) ?rels)" by auto
    also have "\<dots> \<longleftrightarrow> snapshot_key v r \<in> set ks" using eq by simp
    also have "\<dots> \<longleftrightarrow> fdata s (snapshot_key v r) \<noteq> None" using ks(2) by (simp add: snapshot_key_def starts_with_def)
    finally show ?thesis .
  qed
  with ks(1) eq that show ?thesis by metis
qed

text \<open>The content of a file before HEAD first changed it after the base version.\<close>

definition head_base :: "'s \<Rightarrow> nat list \<Rightarrow> string \<Rightarrow> bytes option" where
  "head_base s ns p =
     (case filter (\<lambda>n. fdata s (snapshot_key (version_id_of n) p) \<noteq> None) ns of
        [] \<Rightarrow> None | n # _ \<Rightarrow> fdata s (snapshot_key (version_id_of n) p))"

lemma head_base_cong: "fdata s' = fdata s \<Longrightarrow> head_base s' ns p = head_base s ns p"
  unfolding head_base_def by (simp only: )

lemma collect_keys_ok:
  assumes "version_name v"
  shows "inv s \<Longrightarrow> \<forall>r\<in>set rels. fdata s (snapshot_key v r) \<noteq> None \<Longrightarrow>
   \<exists>acc' s'. collect_keys ops (snapshot_prefix v) s acc (map (snapshot_key v) rels) = Inr (acc', s') \<and> inv s' \<and> fdata s' = fdata s \<and>
     (\<forall>p. map_of acc' p = (case map_of acc p of Some c \<Rightarrow> Some c
        | None \<Rightarrow> if p \<in> set rels then fdata s (snapshot_key v p) else None))"
proof (induction rels arbitrary: s acc)
  case Nil
  then show ?case by (auto split: option.split)
next
  case (Cons r rels)
  then obtain c where c: "fdata s (snapshot_key v r) = Some c" by auto
  obtain s1 where s1: "mf_read ops s (snapshot_key v r) = Inr (c, s1)" "inv s1" "fdata s1 = fdata s"
    using read_file [OF Cons.prems(1) c] by blast
  have strip: "strip_prefix (snapshot_prefix v) (snapshot_key v r) = Some r" unfolding snapshot_key_def by (rule strip_prefix_append)
  have fs1: "\<forall>r\<in>set rels. fdata s1 (snapshot_key v r) \<noteq> None" using Cons.prems(2) s1(3) by simp
  obtain acc' s' where i: "collect_keys ops (snapshot_prefix v) s1 (insert_missing r c acc) (map (snapshot_key v) rels) = Inr (acc', s')"
    "inv s'" "fdata s' = fdata s1"
    "\<forall>p. map_of acc' p = (case map_of (insert_missing r c acc) p of Some c \<Rightarrow> Some c
        | None \<Rightarrow> if p \<in> set rels then fdata s1 (snapshot_key v p) else None)"
    using Cons.IH [OF s1(2) fs1] by blast
  have "map_of acc' p = (case map_of acc p of Some c \<Rightarrow> Some c
        | None \<Rightarrow> if p \<in> set (r # rels) then fdata s (snapshot_key v p) else None)" for p
    using i(4) c s1(3) by (auto split: option.split)
  then show ?case using strip s1(1,3) i(1-3) by simp
qed

lemma collect_versions_ok:
  "inv s \<Longrightarrow> \<exists>acc' s'. collect_versions ops s acc ns = Inr (acc', s') \<and> inv s' \<and> fdata s' = fdata s \<and>
     (\<forall>p. map_of acc' p = (case map_of acc p of Some c \<Rightarrow> Some c | None \<Rightarrow> head_base s ns p))"
proof (induction ns arbitrary: s acc)
  case Nil
  then show ?case by (auto simp: head_base_def split: option.split)
next
  case (Cons n ns)
  let ?v = "version_id_of n"
  obtain rels where l: "mf_list ops s (snapshot_prefix ?v) = Inr (map (snapshot_key ?v) rels)"
    "\<forall>r. r \<in> set rels \<longleftrightarrow> fdata s (snapshot_key ?v r) \<noteq> None"
    by (rule list_snapshot [OF Cons.prems version_name_of])
  obtain a1 s1 where k: "collect_keys ops (snapshot_prefix ?v) s acc (map (snapshot_key ?v) rels) = Inr (a1, s1)" "inv s1" "fdata s1 = fdata s"
    "\<forall>p. map_of a1 p = (case map_of acc p of Some c \<Rightarrow> Some c
        | None \<Rightarrow> if p \<in> set rels then fdata s (snapshot_key ?v p) else None)"
    using collect_keys_ok [OF version_name_of Cons.prems, of rels n acc] l(2) by blast
  obtain a2 s2 where c: "collect_versions ops s1 a1 ns = Inr (a2, s2)" "inv s2" "fdata s2 = fdata s1"
    "\<forall>p. map_of a2 p = (case map_of a1 p of Some c \<Rightarrow> Some c | None \<Rightarrow> head_base s1 ns p)"
    using Cons.IH [OF k(2)] by blast
  have "map_of a2 p = (case map_of acc p of Some c \<Rightarrow> Some c | None \<Rightarrow> head_base s (n # ns) p)" for p
    using c(4) k(4) l(2) head_base_cong [OF k(3), of ns p] by (auto simp: head_base_def split: option.split)
  then show ?case using l(1) k(1,3) c(1-3) by (simp add: Let_def)
qed

end

section \<open>Conflicts of one file\<close>

lemma fold_keeps: "(\<And>x acc. P acc \<Longrightarrow> P (f x acc)) \<Longrightarrow> P acc \<Longrightarrow> P (fold f xs acc)"
  by (induction xs arbitrary: acc) simp_all

text \<open>The identifiers of the conflicts are consecutive elements of the supply, and all belong to one workspace.\<close>

definition numbered :: "(nat \<Rightarrow> uuid) \<Rightarrow> nat \<Rightarrow> uuid \<Rightarrow> ConflictRecord list \<Rightarrow> bool" where
  "numbered fresh n wid cs \<longleftrightarrow>
     map cf_conflict_id cs = map fresh [n..<n + length cs] \<and> (\<forall>c\<in>set cs. cf_workspace_id c = wid \<and> \<not> cf_resolved c)"

lemma numbered_Nil [simp]: "numbered fresh n wid []"
  by (simp add: numbered_def)

lemma numbered_push [simp]:
  "numbered fresh n wid cs \<Longrightarrow> numbered fresh n wid (push_conflict fresh n p wid ids desc sev cs)"
  by (simp add: numbered_def make_conflict_def push_conflict_def)

lemma numbered_append:
  assumes "numbered fresh n wid cs" "numbered fresh (n + length cs) wid cs'"
  shows "numbered fresh n wid (cs @ cs')"
proof -
  have "[n..<n + (length cs + length cs')] = [n..<n + length cs] @ [n + length cs..<n + (length cs + length cs')]"
    by (metis add.assoc le_add1 upt_add_eq_append)
  with assms show ?thesis by (auto simp: numbered_def add.assoc)
qed

lemma detect_referential_numbered:
  "numbered fresh n wid (detect_referential_conflicts fresh n path wid base head base_ents head_ents ws_ents overlap)"
  unfolding detect_referential_conflicts_def
  by (simp add: Let_def fold_keeps [where P = "numbered fresh n wid"])

lemma detect_referential_ne:
  "detect_referential_conflicts fresh n path wid base head base_ents head_ents ws_ents overlap \<noteq> []"
  by (simp add: detect_referential_conflicts_def Let_def push_conflict_def)

lemma try_merge_file_conflicts:
  assumes "try_merge_file env fresh n path base head ws wid = Some (Conflicts cs)"
  shows "cs \<noteq> [] \<and> numbered fresh n wid cs"
proof -
  have "numbered fresh n wid [make_conflict (fresh n) path wid ids desc sev l]" for ids desc sev l
    by (simp add: numbered_def make_conflict_def)
  then show ?thesis using assms
    unfolding try_merge_file_def Let_def
    by (auto split: if_splits option.splits sum.splits simp: detect_referential_ne detect_referential_numbered)
qed

text \<open>Whether a file merges does not depend on the identifiers its conflicts would get.\<close>

fun is_conflict :: "FileMergeResult option \<Rightarrow> bool" where
  "is_conflict (Some (Conflicts _)) = True"
| "is_conflict _ = False"

lemma try_merge_file_supply:
  "try_merge_file env fresh n path base head ws wid = None \<longleftrightarrow> try_merge_file env fresh 0 path base head ws wid = None"
  "is_conflict (try_merge_file env fresh n path base head ws wid) \<longleftrightarrow> is_conflict (try_merge_file env fresh 0 path base head ws wid)"
  unfolding try_merge_file_def Let_def by (auto split: sum.split option.split prod.split)

section \<open>The loop over the changed files\<close>

context merge_fs
begin

text \<open>The content the merge gives a changed file, unless it conflicts.\<close>

definition merged_file :: "('a) merge_env_scheme \<Rightarrow> (nat \<Rightarrow> uuid) \<Rightarrow> uuid \<Rightarrow> 's \<Rightarrow> (string \<Rightarrow> bytes option) \<Rightarrow> string \<Rightarrow> bytes option" where
  "merged_file env fresh wid s hb p =
     (case fdata s (overlay_key p) of
        None \<Rightarrow> None
      | Some w \<Rightarrow>
          (case hb p of
             None \<Rightarrow> Some w
           | Some b \<Rightarrow>
               (case try_merge_file env fresh 0 p b (case fdata s (base_key p) of None \<Rightarrow> [] | Some c \<Rightarrow> c) w wid of
                  Some (AutoMerged m _) \<Rightarrow> Some m
                | _ \<Rightarrow> None)))"

lemma merged_file_cong: "fdata s' = fdata s \<Longrightarrow> merged_file env fresh wid s' hb p = merged_file env fresh wid s hb p"
  unfolding merged_file_def by (simp only: )

text \<open>One round of the loop, by what the file abstraction holds for the path.\<close>

lemma merge_files_missing:
  assumes "inv s" "fdata s (overlay_key p) = None"
  shows "\<exists>e. merge_files_loop env fresh ops hc wid s merged auto cs (p # ps) = Inl (MeIo e)"
proof -
  obtain e where "mf_read ops s (overlay_key p) = Inl e" using read_missing [OF assms(1) resolve_ns(1) assms(2)] by blast
  then show ?thesis by simp
qed

abbreviation head_text :: "'s \<Rightarrow> string \<Rightarrow> bytes" where
  "head_text s p \<equiv> (case fdata s (base_key p) of None \<Rightarrow> [] | Some c \<Rightarrow> c)"

lemma merge_files_changed:
  assumes "inv s" "fdata s (overlay_key p) = Some w" "map_of hc p = Some b"
  shows "\<exists>s'. inv s' \<and> fdata s' = fdata s \<and>
    merge_files_loop env fresh ops hc wid s merged auto cs (p # ps) =
     (case try_merge_file env fresh (length cs) p b (head_text s p) w wid of
        None \<Rightarrow> Inl MePanic
      | Some (AutoMerged m _) \<Rightarrow> merge_files_loop env fresh ops hc wid s' (merged @ [(p, m)]) (auto + 1) cs ps
      | Some (Conflicts fcs) \<Rightarrow> merge_files_loop env fresh ops hc wid s' merged auto (cs @ fcs) ps)"
proof -
  obtain s1 where s1: "mf_read ops s (overlay_key p) = Inr (w, s1)" "inv s1" "fdata s1 = fdata s"
    using read_file [OF assms(1,2)] by blast
  have ex: "mf_exists ops s1 (base_key p) = Inr (fdata s (base_key p) \<noteq> None)"
    using exists_file [OF s1(2) resolve_ns(2), of p] by (simp add: s1(3))
  show ?thesis
  proof (cases "fdata s (base_key p)")
    case None
    with s1 ex assms(3) show ?thesis by (intro exI [of _ s1]) simp
  next
    case (Some c)
    then have "fdata s1 (base_key p) = Some c" by (simp add: s1(3))
    then obtain s2 where "mf_read ops s1 (base_key p) = Inr (c, s2)" "inv s2" "fdata s2 = fdata s1"
      using read_file [OF s1(2)] by blast
    with s1 ex Some assms(3) show ?thesis by (intro exI [of _ s2]) simp
  qed
qed

lemma merge_files_cases:
  assumes "inv s" "fdata s (overlay_key p) = Some w"
  obtains (direct) s' where "inv s'" "fdata s' = fdata s" "map_of hc p = None"
      "merge_files_loop env fresh ops hc wid s merged auto cs (p # ps) = merge_files_loop env fresh ops hc wid s' (merged @ [(p, w)]) auto cs ps"
  | (panic) b where "map_of hc p = Some b" "try_merge_file env fresh (length cs) p b (head_text s p) w wid = None"
      "merge_files_loop env fresh ops hc wid s merged auto cs (p # ps) = Inl MePanic"
  | (auto) s' b m l where "inv s'" "fdata s' = fdata s" "map_of hc p = Some b"
      "try_merge_file env fresh (length cs) p b (head_text s p) w wid = Some (AutoMerged m l)"
      "merge_files_loop env fresh ops hc wid s merged auto cs (p # ps) = merge_files_loop env fresh ops hc wid s' (merged @ [(p, m)]) (auto + 1) cs ps"
  | (conflict) s' b fcs where "inv s'" "fdata s' = fdata s" "map_of hc p = Some b"
      "try_merge_file env fresh (length cs) p b (head_text s p) w wid = Some (Conflicts fcs)"
      "merge_files_loop env fresh ops hc wid s merged auto cs (p # ps) = merge_files_loop env fresh ops hc wid s' merged auto (cs @ fcs) ps"
proof (cases "map_of hc p")
  case None
  obtain s1 where "mf_read ops s (overlay_key p) = Inr (w, s1)" "inv s1" "fdata s1 = fdata s"
    using read_file [OF assms] by blast
  with None show ?thesis by (intro direct [of s1]) simp_all
next
  case (Some b)
  let ?t = "try_merge_file env fresh (length cs) p b (head_text s p) w wid"
  obtain s' where s': "inv s'" "fdata s' = fdata s"
    "merge_files_loop env fresh ops hc wid s merged auto cs (p # ps) =
     (case ?t of
        None \<Rightarrow> Inl MePanic
      | Some (AutoMerged m _) \<Rightarrow> merge_files_loop env fresh ops hc wid s' (merged @ [(p, m)]) (auto + 1) cs ps
      | Some (Conflicts fcs) \<Rightarrow> merge_files_loop env fresh ops hc wid s' merged auto (cs @ fcs) ps)"
    using merge_files_changed [OF assms Some, of env fresh wid merged auto cs ps] by blast
  consider "?t = None" | m l where "?t = Some (AutoMerged m l)" | fcs where "?t = Some (Conflicts fcs)"
    by (cases ?t, simp, metis FileMergeResult.exhaust)
  then show ?thesis
  proof cases
    case 1
    show ?thesis by (rule panic [OF Some 1]) (simp only: s'(3) 1 option.case)
  next
    case 2
    show ?thesis by (rule auto [OF s'(1,2) Some 2]) (simp only: s'(3) 2 option.case FileMergeResult.case)
  next
    case 3
    show ?thesis by (rule conflict [OF s'(1,2) Some 3]) (simp only: s'(3) 3 option.case FileMergeResult.case)
  qed
qed

lemma merge_files_ok:
  assumes "\<forall>p. map_of hc p = hb p"
  shows "inv s \<Longrightarrow> \<forall>p\<in>set ps. merged_file env fresh wid s hb p = Some (f p) \<Longrightarrow>
    \<exists>s'. inv s' \<and> fdata s' = fdata s \<and> merge_files_loop env fresh ops hc wid s merged auto [] ps =
      Inr (merged @ map (\<lambda>p. (p, f p)) ps, auto + length (filter (\<lambda>p. hb p \<noteq> None) ps), [], s')"
proof (induction ps arbitrary: s merged auto)
  case (Cons p ps)
  then have mp: "merged_file env fresh wid s hb p = Some (f p)" by simp
  then obtain w where w: "fdata s (overlay_key p) = Some w" by (auto simp: merged_file_def split: option.splits)
  obtain s1 where s1: "inv s1" "fdata s1 = fdata s" "merge_files_loop env fresh ops hc wid s merged auto [] (p # ps) =
      merge_files_loop env fresh ops hc wid s1 (merged @ [(p, f p)]) (auto + (if hb p \<noteq> None then 1 else 0)) [] ps"
    by (rule merge_files_cases [OF Cons.prems(1) w, of hc env fresh wid merged auto "[]" ps])
      (use assms mp w in \<open>auto simp: merged_file_def simp del: merge_files_loop.simps\<close>)
  have "\<forall>p\<in>set ps. merged_file env fresh wid s1 hb p = Some (f p)"
  proof
    fix q assume "q \<in> set ps"
    with Cons.prems(2) have "merged_file env fresh wid s hb q = Some (f q)" by simp
    then show "merged_file env fresh wid s1 hb q = Some (f q)" unfolding merged_file_cong [OF s1(2)] .
  qed
  from Cons.IH [OF s1(1) this, of "merged @ [(p, f p)]" "auto + (if hb p \<noteq> None then 1 else 0)"] s1(2,3)
  show ?case by (cases "hb p") (simp_all del: merge_files_loop.simps)
qed auto

text \<open>Whatever the outcome, the files are only read; conflicts get consecutive identifiers.\<close>

lemma merge_files_frame:
  "inv s \<Longrightarrow> numbered fresh 0 wid cs \<Longrightarrow> merge_files_loop env fresh ops hc wid s merged auto cs ps = Inr (merged', auto', cs', s') \<Longrightarrow>
   inv s' \<and> fdata s' = fdata s \<and> numbered fresh 0 wid cs' \<and> (\<forall>p\<in>set ps. fdata s (overlay_key p) \<noteq> None)"
proof (induction ps arbitrary: s merged auto cs)
  case (Cons p ps)
  obtain w where w: "fdata s (overlay_key p) = Some w"
    using merge_files_missing [OF Cons.prems(1), of p env fresh hc wid merged auto cs ps] Cons.prems(3)
    by (cases "fdata s (overlay_key p)") auto
  have app: "numbered fresh 0 wid (cs @ fcs)" if "try_merge_file env fresh (length cs) p b h w wid = Some (Conflicts fcs)" for b h fcs
    using numbered_append [OF Cons.prems(2)] try_merge_file_conflicts [OF that] by simp
  obtain s1 m1 a1 c1 where s1: "inv s1" "fdata s1 = fdata s" "numbered fresh 0 wid c1"
    "merge_files_loop env fresh ops hc wid s1 m1 a1 c1 ps = Inr (merged', auto', cs', s')"
    by (rule merge_files_cases [OF Cons.prems(1) w, of hc env fresh wid merged auto cs ps])
      (use Cons.prems(2,3) app in \<open>force simp del: merge_files_loop.simps\<close>)+
  from Cons.IH [OF s1(1,3,4)] s1(2) w show ?case by simp
qed simp

lemma merge_files_errors:
  "inv s \<Longrightarrow> merge_files_loop env fresh ops hc wid s merged auto cs ps = Inl e \<Longrightarrow> (\<exists>io. e = MeIo io) \<or> e = MePanic"
proof (induction ps arbitrary: s merged auto cs)
  case (Cons p ps)
  show ?case
  proof (cases "fdata s (overlay_key p)")
    case None
    from merge_files_missing [OF Cons.prems(1) None, of env fresh hc wid merged auto cs ps] Cons.prems(2) show ?thesis by auto
  next
    case (Some w)
    show ?thesis
      by (rule merge_files_cases [OF Cons.prems(1) Some, of hc env fresh wid merged auto cs ps])
        (use Cons.prems(2) Cons.IH in \<open>auto simp del: merge_files_loop.simps\<close>)
  qed
qed simp

text \<open>A file that conflicts makes the loop end with conflicts, unless another one panics or is missing.\<close>

lemma merge_files_conflicting:
  "inv s \<Longrightarrow> \<forall>p\<in>set ps. fdata s (overlay_key p) \<noteq> None \<Longrightarrow>
   \<forall>p\<in>set ps. \<forall>b w. map_of hc p = Some b \<longrightarrow> fdata s (overlay_key p) = Some w \<longrightarrow> try_merge_file env fresh 0 p b (head_text s p) w wid \<noteq> None \<Longrightarrow>
   cs \<noteq> [] \<or> (\<exists>p\<in>set ps. \<exists>b w. map_of hc p = Some b \<and> fdata s (overlay_key p) = Some w \<and>
     is_conflict (try_merge_file env fresh 0 p b (head_text s p) w wid)) \<Longrightarrow>
   \<exists>merged' auto' cs' s'. merge_files_loop env fresh ops hc wid s merged auto cs ps = Inr (merged', auto', cs', s') \<and> cs' \<noteq> []"
proof (induction ps arbitrary: s merged auto cs)
  case (Cons p ps)
  then obtain w where w: "fdata s (overlay_key p) = Some w" by auto
  show ?case
  proof (rule merge_files_cases [OF Cons.prems(1) w, of hc env fresh wid merged auto cs ps])
    fix s' assume a: "inv s'" "fdata s' = fdata s" "map_of hc p = None"
      "merge_files_loop env fresh ops hc wid s merged auto cs (p # ps) = merge_files_loop env fresh ops hc wid s' (merged @ [(p, w)]) auto cs ps"
    show ?thesis unfolding a(4) by (rule Cons.IH [OF a(1)]) (use Cons.prems(2-4) a(2,3) in auto)
  next
    fix b assume a: "map_of hc p = Some b" "try_merge_file env fresh (length cs) p b (head_text s p) w wid = None"
    then have "try_merge_file env fresh 0 p b (head_text s p) w wid = None" using try_merge_file_supply(1) by blast
    with Cons.prems(3) a(1) w show ?thesis by auto
  next
    fix s' b m l assume a: "inv s'" "fdata s' = fdata s" "map_of hc p = Some b"
      "try_merge_file env fresh (length cs) p b (head_text s p) w wid = Some (AutoMerged m l)"
      "merge_files_loop env fresh ops hc wid s merged auto cs (p # ps) = merge_files_loop env fresh ops hc wid s' (merged @ [(p, m)]) (auto + 1) cs ps"
    have "\<not> is_conflict (try_merge_file env fresh 0 p b (head_text s p) w wid)"
      using try_merge_file_supply(2) [of env fresh "length cs" p b "head_text s p" w wid] a(4) by simp
    then show ?thesis unfolding a(5) by (intro Cons.IH [OF a(1)]) (use Cons.prems(2-4) a(2,3) w in auto)
  next
    fix s' b fcs assume a: "inv s'" "fdata s' = fdata s" "map_of hc p = Some b"
      "try_merge_file env fresh (length cs) p b (head_text s p) w wid = Some (Conflicts fcs)"
      "merge_files_loop env fresh ops hc wid s merged auto cs (p # ps) = merge_files_loop env fresh ops hc wid s' merged auto (cs @ fcs) ps"
    have "fcs \<noteq> []" using try_merge_file_conflicts [OF a(4)] by blast
    then show ?thesis unfolding a(5) by (intro Cons.IH [OF a(1)]) (use Cons.prems(2-3) a(2) in auto)
  qed
qed auto

lemma write_merged_ok:
  "inv s \<Longrightarrow> \<forall>p\<in>set ps. good (base_key p) \<Longrightarrow>
   \<exists>s'. write_merged ops s (map (\<lambda>p. (p, f p)) ps) = Inr s' \<and> inv s' \<and>
     (\<forall>k. good k \<longrightarrow> (\<forall>r. k \<noteq> base_key r) \<longrightarrow> fdata s' k = fdata s k) \<and>
     (\<forall>r. good (base_key r) \<longrightarrow> fdata s' (base_key r) = (if r \<in> set ps then Some (f r) else fdata s (base_key r)))"
proof (induction ps arbitrary: s)
  case (Cons p ps)
  have g: "good (base_key p)" using Cons.prems(2) by simp
  obtain s1 where s1: "mf_write ops s (base_key p) (f p) = Inr s1" "inv s1"
    "\<forall>k'. good k' \<longrightarrow> fdata s1 k' = (if k' = base_key p then Some (f p) else fdata s k')"
    using write_file [OF Cons.prems(1) g resolve_ns(2)] by blast
  obtain s' where s': "write_merged ops s1 (map (\<lambda>p. (p, f p)) ps) = Inr s'" "inv s'"
    "\<forall>k. good k \<longrightarrow> (\<forall>r. k \<noteq> base_key r) \<longrightarrow> fdata s' k = fdata s1 k"
    "\<forall>r. good (base_key r) \<longrightarrow> fdata s' (base_key r) = (if r \<in> set ps then Some (f r) else fdata s1 (base_key r))"
    using Cons.IH [OF s1(2)] Cons.prems(2) by auto
  have "fdata s' (base_key r) = (if r \<in> set (p # ps) then Some (f r) else fdata s (base_key r))" if "good (base_key r)" for r
    using that s'(4) s1(3) by auto
  then show ?case using s1(1,3) s'(1-3) by simp
qed simp

section \<open>The semantic merge\<close>

text \<open>The versions between the base of the workspace and HEAD.\<close>

abbreviation since_base :: "string \<Rightarrow> string \<Rightarrow> nat list" where
  "since_base bv h \<equiv> [parse_version_num bv + 1..<Suc (parse_version_num h)]"

lemma collect_head_ok:
  assumes "inv s" "head_file vai = Some h"
  obtains hc s1 where "collect_head_changed_files ops s vai bv = Inr (hc, s1)" "inv s1" "fdata s1 = fdata s"
    "\<forall>p. map_of hc p = head_base s (since_base bv (trim h)) p"
proof -
  obtain hc s1 where "collect_versions ops s [] (since_base bv (trim h)) = Inr (hc, s1)" "inv s1" "fdata s1 = fdata s"
    "\<forall>p. map_of hc p = head_base s (since_base bv (trim h)) p"
    using collect_versions_ok [OF assms(1), of "[]" "since_base bv (trim h)"] by auto
  moreover from this(1) have "collect_head_changed_files ops s vai bv = Inr (hc, s1)"
    using assms(2) by (simp add: collect_head_changed_files_def read_head_def del: upt_Suc)
  ultimately show ?thesis using that by blast
qed

text \<open>The snapshot, the merged files and the deletions, one after the other.\<close>

lemma apply_merged_ok:
  assumes "inv s" "version_name vid" "\<forall>p\<in>set ps \<union> set dels. good (snapshot_key vid p) \<and> good (base_key p)"
  obtains s3 s4 s5 where "save_pre_change_snapshot ops s vid ps = Inr s3" "write_merged ops s3 (map (\<lambda>p. (p, f p)) ps) = Inr s4"
    "delete_base_files ops s4 dels = Inr s5" "inv s5"
    "\<forall>r. good (base_key r) \<longrightarrow> fdata s5 (base_key r) =
       (if r \<in> set dels then None else if r \<in> set ps then Some (f r) else fdata s (base_key r))"
    "\<forall>r. r \<in> set ps \<longrightarrow> fdata s (base_key r) \<noteq> None \<longrightarrow> fdata s5 (snapshot_key vid r) = fdata s (base_key r)"
proof -
  obtain s3 where s3: "save_pre_change_snapshot ops s vid ps = Inr s3" "inv s3"
    "\<forall>k. good k \<longrightarrow> (\<forall>p. k \<noteq> snapshot_key vid p) \<longrightarrow> fdata s3 k = fdata s k"
    "\<forall>p. good (snapshot_key vid p) \<longrightarrow> fdata s3 (snapshot_key vid p) =
      (if p \<in> set ps \<and> fdata s (base_key p) \<noteq> None then fdata s (base_key p) else fdata s (snapshot_key vid p))"
    using save_snapshot_ok [OF assms(1,2), of ps] assms(3) by blast
  obtain s4 where s4: "write_merged ops s3 (map (\<lambda>p. (p, f p)) ps) = Inr s4" "inv s4"
    "\<forall>k. good k \<longrightarrow> (\<forall>r. k \<noteq> base_key r) \<longrightarrow> fdata s4 k = fdata s3 k"
    "\<forall>r. good (base_key r) \<longrightarrow> fdata s4 (base_key r) = (if r \<in> set ps then Some (f r) else fdata s3 (base_key r))"
    using write_merged_ok [OF s3(2), of ps f] assms(3) by blast
  obtain s5 where s5: "delete_base_files ops s4 dels = Inr s5" "inv s5"
    "\<forall>k. good k \<longrightarrow> fdata s5 k = (if \<exists>p\<in>set dels. k = base_key p then None else fdata s4 k)"
    using delete_base_files_ok [OF s4(2), of dels] assms(3) by blast
  show ?thesis
    by (rule that [OF s3(1) s4(1) s5(1,2)]) (use s5(3) s4(3,4) s3(3,4) assms(3) in auto)
qed

lemma semantic_merge_ok:
  fixes vai :: "('b) merge_dir_scheme" and env :: "('a) merge_env_scheme"
  assumes "inv s" "wf_vai env vai" "wf_versions env (version_files vai)" "ws_view env vai (uuid_to_string env (wm_id m)) \<noteq> None"
    and h: "head_file vai = Some h"
    and hb: "hb = head_base s (since_base (wm_base_version m) (trim h))"
    and ps: "ps = map fd_path (wd_file_diffs diff)"
    and merged: "\<forall>p\<in>set ps. merged_file env fresh (wm_id m) s hb p = Some (f p)"
    and us: "\<And>n. usable s (version_id_of n) dels"
  obtains sr s' vai' n where "semantic_merge env fresh ops s vai m diff dels now = (Inr sr, s', vai')" "inv s'" "wf_vai env vai'"
    "ver_view env vai (version_id_of n) = None"
    "head_file vai' = Some (version_id_of n @ [CHR 0x0A])" "active_file vai' = None"
    "ws_view env vai' = (ws_view env vai)(uuid_to_string env (wm_id m) \<mapsto> m\<lparr>wm_status := WMerged, wm_updated_at := now\<rparr>)"
    "ver_view env vai' = (ver_view env vai)(version_id_of n \<mapsto> sr_version sr)"
    "sr_auto_resolved sr = length (filter (\<lambda>p. hb p \<noteq> None) ps)"
    "\<forall>r. good (base_key r) \<longrightarrow> fdata s' (base_key r) =
       (if r \<in> set dels then None else if r \<in> set ps then Some (f r) else fdata s (base_key r))"
    "\<forall>r. r \<in> set ps \<longrightarrow> fdata s (base_key r) \<noteq> None \<longrightarrow> fdata s' (snapshot_key (version_id_of n) r) = fdata s (base_key r)"
proof -
  obtain hc s1 where c: "collect_head_changed_files ops s vai (wm_base_version m) = Inr (hc, s1)" "inv s1" "fdata s1 = fdata s"
    "\<forall>p. map_of hc p = head_base s (since_base (wm_base_version m) (trim h)) p" by (rule collect_head_ok [OF assms(1) h])
  have hc: "\<forall>p. map_of hc p = hb p" using c(4) unfolding hb .
  have m1: "\<forall>p\<in>set ps. merged_file env fresh (wm_id m) s1 hb p = Some (f p)"
    using merged unfolding merged_file_cong [OF c(3)] .
  let ?auto = "length (filter (\<lambda>p. hb p \<noteq> None) ps)"
  obtain s2 where l: "inv s2" "fdata s2 = fdata s1"
    "merge_files_loop env fresh ops hc (wm_id m) s1 [] 0 [] ps = Inr (map (\<lambda>p. (p, f p)) ps, ?auto, [], s2)"
    using merge_files_ok [OF hc c(2) m1, of "[]" 0] by auto
  have fd2: "fdata s2 = fdata s" using l(2) c(3) by simp
  have ov: "fdata s (overlay_key p) \<noteq> None" if "p \<in> set ps" for p
    using merged that by (auto simp: merged_file_def split: option.splits)
  obtain n where n: "next_version_id env vai = Inr (version_id_of n)" "version_id_of n \<notin> fst ` set (version_files vai)"
    by (rule next_version_id_ok [OF assms(3)]) blast
  let ?new = "version_id_of n"
  have old: "ver_view env vai ?new = None" using n(2) by (metis map_of_eq_None_iff not_None_eq option.distinct(1) ver_view_Some)
  have g: "\<forall>p\<in>set ps \<union> set dels. good (snapshot_key ?new p) \<and> good (base_key p)"
    using us [of n] ov unfolding usable_def by blast
  obtain s3 s4 s5 where st: "save_pre_change_snapshot ops s2 ?new ps = Inr s3" "write_merged ops s3 (map (\<lambda>p. (p, f p)) ps) = Inr s4"
    "delete_base_files ops s4 dels = Inr s5" "inv s5"
    "\<forall>r. good (base_key r) \<longrightarrow> fdata s5 (base_key r) =
       (if r \<in> set dels then None else if r \<in> set ps then Some (f r) else fdata s2 (base_key r))"
    "\<forall>r. r \<in> set ps \<longrightarrow> fdata s2 (base_key r) \<noteq> None \<longrightarrow> fdata s5 (snapshot_key ?new r) = fdata s2 (base_key r)"
    by (rule apply_merged_ok [OF l(1) version_name_of g])
  let ?s6 = "snd (update_graph_for_diff env ops s5 (graph_snapshot vai) (wd_file_diffs diff))"
  have s6: "inv ?s6" "fdata ?s6 = fdata s5"
    using update_graph_fdata [OF st(4), of env "graph_snapshot vai" "wd_file_diffs diff"] by simp_all
  have vok: "ver_ok env" using assms(3) by (simp add: wf_versions_def)
  obtain sr vai' where e: "finish_merge env ops s5 vai m diff dels ?new (length (map (\<lambda>p. (p, f p)) ps)) ?auto now = Inr (sr, ?s6, vai')"
    "wf_vai env vai'" "head_file vai' = Some (?new @ [CHR 0x0A])" "active_file vai' = None"
    "ws_view env vai' = (ws_view env vai)(uuid_to_string env (wm_id m) \<mapsto> m\<lparr>wm_status := WMerged, wm_updated_at := now\<rparr>)"
    "ver_view env vai' = (ver_view env vai)(?new \<mapsto> sr_version sr)" "sr_auto_resolved sr = ?auto"
    using finish_merge_ok [OF assms(2) vok assms(4), of ops s5 diff dels ?new "length (map (\<lambda>p. (p, f p)) ps)" ?auto now] by blast
  have "semantic_merge env fresh ops s vai m diff dels now = (Inr sr, ?s6, vai')"
    using c(1) l(3) n(1) st(1-3) e(1) unfolding ps by (simp add: semantic_merge_def out_of_def del: length_map map_map)
  then show ?thesis
    by (rule that [OF _ s6(1) e(2) old e(3-7)]) (use s6(2) st(5,6) fd2 in simp_all)
qed

text \<open>
  A changed file without an overlay version stops the merge with an I/O error (or an earlier
  panic), before anything is written.
\<close>

lemma semantic_merge_missing:
  fixes vai :: "('b) merge_dir_scheme"
  assumes "inv s" "head_file vai = Some h" "p \<in> set (map fd_path (wd_file_diffs diff))" "fdata s (overlay_key p) = None"
  shows "\<exists>e. semantic_merge env fresh ops s vai m diff dels now = (Inl e, s, vai) \<and> ((\<exists>io. e = MeIo io) \<or> e = MePanic)"
proof -
  let ?ps = "map fd_path (wd_file_diffs diff)"
  obtain hc s1 where c: "collect_head_changed_files ops s vai (wm_base_version m) = Inr (hc, s1)" "inv s1" "fdata s1 = fdata s"
    by (rule collect_head_ok [OF assms(1,2), of "wm_base_version m"]) blast
  show ?thesis
  proof (cases "merge_files_loop env fresh ops hc (wm_id m) s1 [] 0 [] ?ps")
    case (Inl e)
    then have "semantic_merge env fresh ops s vai m diff dels now = (Inl e, s, vai)" using c(1) by (simp add: semantic_merge_def)
    with merge_files_errors [OF c(2) Inl] show ?thesis by blast
  next
    case (Inr x)
    obtain a b d s2 where "x = (a, b, d, s2)" by (metis prod_cases4)
    with Inr have "\<forall>p\<in>set ?ps. fdata s1 (overlay_key p) \<noteq> None"
      using merge_files_frame [OF c(2) numbered_Nil, where ps = ?ps] by blast
    with assms(3,4) c(3) show ?thesis by auto
  qed
qed

text \<open>A merge with a conflicting file stops, has written no file and stores and logs every conflict.\<close>

lemma semantic_merge_conflicts:
  fixes vai :: "('b) merge_dir_scheme" and env :: "('a) merge_env_scheme"
  assumes "inv s" "head_file vai = Some h" "wf_log env (elog vai)"
    and hb: "hb = head_base s (since_base (wm_base_version m) (trim h))" and ps: "ps = map fd_path (wd_file_diffs diff)"
    and ov: "\<forall>p\<in>set ps. fdata s (overlay_key p) \<noteq> None"
    and np: "\<forall>p\<in>set ps. \<forall>b w. hb p = Some b \<longrightarrow> fdata s (overlay_key p) = Some w \<longrightarrow> try_merge_file env fresh 0 p b (head_text s p) w (wm_id m) \<noteq> None"
    and cf: "\<exists>p\<in>set ps. \<exists>b w. hb p = Some b \<and> fdata s (overlay_key p) = Some w \<and> is_conflict (try_merge_file env fresh 0 p b (head_text s p) w (wm_id m))"
  obtains cs s' log vai' where "semantic_merge env fresh ops s vai m diff dels now = (Inl (MeSemanticConflicts (length cs) cs), s', vai')"
    "inv s'" "fdata s' = fdata s" "cs \<noteq> []" "numbered fresh 0 (wm_id m) cs"
    "vai' = (store_all_conflicts env vai cs)\<lparr>elog := log\<rparr>" "wf_log env log"
    "vai_kinds env vai' = vai_kinds env vai @ map (conflict_event (wm_id m)) cs"
proof -
  obtain hc s1 where c: "collect_head_changed_files ops s vai (wm_base_version m) = Inr (hc, s1)" "inv s1" "fdata s1 = fdata s"
    "\<forall>p. map_of hc p = head_base s (since_base (wm_base_version m) (trim h)) p" by (rule collect_head_ok [OF assms(1,2)])
  have hc: "map_of hc p = hb p" for p using c(4) unfolding hb by blast
  obtain merged auto cs s2 where l: "merge_files_loop env fresh ops hc (wm_id m) s1 [] 0 [] ps = Inr (merged, auto, cs, s2)" "cs \<noteq> []"
    using merge_files_conflicting [OF c(2), of ps hc env fresh "wm_id m" "[]" "[]" 0] ov np cf unfolding hc c(3) by blast
  have fr: "inv s2" "fdata s2 = fdata s1" "numbered fresh 0 (wm_id m) cs"
    using merge_files_frame [OF c(2) numbered_Nil l(1)] by blast+
  let ?v = "store_all_conflicts env vai cs"
  have "wf_log env (elog ?v)" using assms(3) by (simp add: store_all_conflicts_def)
  then obtain log where a: "append_kinds (vai_append env) ?v now (map (conflict_event (wm_id m)) cs) = Inr (?v\<lparr>elog := log\<rparr>)"
    "wf_log env log" "vai_kinds env (?v\<lparr>elog := log\<rparr>) = vai_kinds env ?v @ map (conflict_event (wm_id m)) cs"
    by (rule append_kinds_vai)
  have k: "vai_kinds env ?v = vai_kinds env vai" by (rule vai_kinds_elog) (simp add: store_all_conflicts_def)
  have "semantic_merge env fresh ops s vai m diff dels now = (Inl (MeSemanticConflicts (length cs) cs), s2, ?v\<lparr>elog := log\<rparr>)"
    using c(1) l a(1) unfolding ps by (simp add: semantic_merge_def)
  then show ?thesis using that [OF _ fr(1) _ l(2) fr(3) refl a(2)] fr(2) c(3) a(3) k by simp
qed

end

end
