(* ===== verification/Semantic_Properties.thy ===== *)
theory Semantic_Properties
  imports Semantic_Laws
begin

text \<open>
  Submitting on disk when HEAD has moved since the workspace was created, the conflict records
  that such a submission may leave and their resolution, and the concrete repository on which
  the properties of \<open>submit\<close> are exercised.
\<close>

section \<open>What the semantic merge is to produce\<close>

text \<open>
  The specification of the merge of one path: \<open>ov\<close> and \<open>base\<close> are the overlay and the repository,
  \<open>hb\<close> the content before HEAD changed the file.
\<close>

definition three_way ::
  "('a) merge_env_scheme \<Rightarrow> (nat \<Rightarrow> uuid) \<Rightarrow> uuid \<Rightarrow> (string \<Rightarrow> bytes option) \<Rightarrow> (string \<Rightarrow> bytes option) \<Rightarrow> (string \<Rightarrow> bytes option) \<Rightarrow>
   string \<Rightarrow> bytes option" where
  "three_way env fresh wid hb base ov p =
     (case ov p of
        None \<Rightarrow> None
      | Some w \<Rightarrow>
          (case hb p of
             None \<Rightarrow> Some w
           | Some b \<Rightarrow>
               (case try_merge_file env fresh 0 p b (case base p of None \<Rightarrow> [] | Some c \<Rightarrow> c) w wid of
                  Some (AutoMerged m _) \<Rightarrow> Some m
                | _ \<Rightarrow> None)))"

text \<open>The snapshot of a path in the first of some versions that has one.\<close>

definition first_snapshot :: "disk \<Rightarrow> nat list \<Rightarrow> string \<Rightarrow> bytes option" where
  "first_snapshot d ns p =
     (case filter (\<lambda>n. map_of d (''.vai/versions/'' @ version_id_of n @ ''/snapshot/'' @ p) \<noteq> None) ns of
        [] \<Rightarrow> None | n # _ \<Rightarrow> map_of d (''.vai/versions/'' @ version_id_of n @ ''/snapshot/'' @ p))"

lemma disk_head_base: "disk.head_base wid d ns = first_snapshot d ns"
  unfolding fun_eq_iff disk.head_base_def first_snapshot_def disk_fdata(3) [OF version_name_of] by simp

lemma disk_merged_file:
  "disk.merged_file wid env fresh i d hb = three_way env fresh i hb (map_of d) (\<lambda>p. map_of d (overlay_dir wid @ ''/'' @ p))"
  unfolding fun_eq_iff disk.merged_file_def three_way_def disk_fdata(1,2) by simp

section \<open>Stored conflicts\<close>

definition conflict_ok :: "('a) merge_env_scheme \<Rightarrow> bool" where
  "conflict_ok env \<longleftrightarrow> (\<forall>c. conflict_from_toml env (conflict_to_toml env c) = Some c)"

lemma store_all_sel [simp]:
  "elog (store_all_conflicts env vai cs) = elog vai" "head_file (store_all_conflicts env vai cs) = head_file vai"
  "version_files (store_all_conflicts env vai cs) = version_files vai" "active_file (store_all_conflicts env vai cs) = active_file vai"
  "ws_dirs (store_all_conflicts env vai cs) = ws_dirs vai"
  by (simp_all add: store_all_conflicts_def)

lemma fold_update_map_of:
  "distinct (map f xs) \<Longrightarrow> map_of (fold (\<lambda>x m. AList.update (f x) (g x) m) xs m) k =
     (case find (\<lambda>x. f x = k) xs of Some x \<Rightarrow> Some (g x) | None \<Rightarrow> map_of m k)"
proof (induction xs arbitrary: m)
  case (Cons x xs)
  have "find (\<lambda>y. f y = f x) xs = None" using Cons.prems by (simp add: find_None_iff) (metis image_eqI)
  with Cons show ?case by (auto simp: update_conv' split: option.split)
qed simp

text \<open>Every conflict is found in its file.\<close>

lemma stored_conflict:
  assumes "inj (uuid_to_string env)" "inj fresh" "numbered fresh 0 wid cs" "c \<in> set cs"
  shows "map_of (conflict_files (store_all_conflicts env vai cs)) (uuid_to_string env (cf_conflict_id c)) =
    Some (conflict_to_toml env c)"
proof -
  let ?f = "\<lambda>c. uuid_to_string env (cf_conflict_id c)"
  have "map ?f cs = map (\<lambda>n. uuid_to_string env (fresh n)) [0..<length cs]"
    using arg_cong [of _ _ "map (uuid_to_string env)", OF conjunct1 [OF assms(3) [unfolded numbered_def]]] by (simp add: comp_def)
  moreover have "inj (\<lambda>n. uuid_to_string env (fresh n))" using assms(1,2) by (simp add: inj_def)
  ultimately have d: "distinct (map ?f cs)" by (metis distinct_map distinct_upt inj_on_subset subset_UNIV)
  have "find (\<lambda>x. ?f x = ?f c) cs = Some c"
  proof -
    obtain x where x: "find (\<lambda>x. ?f x = ?f c) cs = Some x" using assms(4) by (cases "find (\<lambda>x. ?f x = ?f c) cs") (auto simp: find_None_iff)
    then have "x \<in> set cs" "?f x = ?f c" by (auto simp: find_Some_iff)
    then have "x = c" using d assms(4) by (simp add: distinct_map inj_on_def)
    with x show ?thesis by simp
  qed
  with fold_update_map_of [OF d, of "conflict_to_toml env" "conflict_files vai" "?f c"] show ?thesis
    by (simp add: store_all_conflicts_def)
qed

lemma list_conflicts_member:
  assumes "map_of (conflict_files vai) k = Some t" "conflict_from_toml env t = Some c"
  shows "c \<in> set (list_conflicts env vai)"
proof -
  have "(k, t) \<in> set (conflict_files vai)" using assms(1) by (rule map_of_SomeD)
  with assms(2) show ?thesis by (force simp: list_conflicts_def map_filter_def)
qed

section \<open>Submitting on disk, up to the choice of the merge path\<close>

lemma submit_on_disk:
  fixes vai :: "('b) merge_dir_scheme" and env :: "('a) merge_env_scheme"
  assumes "wf_vai env vai" "parse_total env" "ws_active env vai = Inr m" "head_file vai = Some h"
    "wid = uuid_to_string env (wm_id m)" "disk_inv wid d" "dels = read_manifest env vai (wm_id m)"
    "ov = (\<lambda>p. map_of d (overlay_dir wid @ ''/'' @ p))" and ne: "\<exists>p. ov p \<noteq> None \<or> p \<in> set dels \<and> map_of d p \<noteq> None"
  obtains diff s1 vai2 m1 where
    "submit env fresh vai d now =
      (if trim h = wm_base_version m then out_of s1 vai2 (fast_forward_merge env (DiskMergeFs wid) s1 vai2 m diff dels now)
       else semantic_merge env fresh (DiskMergeFs wid) s1 vai2 m diff dels now)"
    "disk_inv wid s1" "disk.fdata wid s1 = disk.fdata wid d" "wf_vai env vai2"
    "ws_view env vai2 = (ws_view env vai)(wid \<mapsto> m1)"
    "vai_kinds env vai2 = vai_kinds env vai @ change_events m diff @ [WorkspaceSubmitted (wm_id m) (changes_summary diff)]"
    "head_file vai2 = Some h" "version_files vai2 = version_files vai" "conflict_files vai2 = conflict_files vai"
    "active_file vai2 = active_file vai"
    "set (map fd_path (wd_file_diffs diff)) = {p. ov p \<noteq> None \<or> p \<in> set dels \<and> map_of d p \<noteq> None}"
proof -
  from ne obtain p0 where p0: "ov p0 \<noteq> None \<or> p0 \<in> set dels \<and> map_of d p0 \<noteq> None" by blast
  have ne: "disk.fdata wid d (overlay_key p0) \<noteq> None \<or> p0 \<in> set dels \<and> disk.fdata wid d (base_key p0) \<noteq> None"
    using p0 by (simp add: assms(8))
  obtain diff s1 vai2 m1 where p:
    "submit_with_fs env fresh (DiskMergeFs wid) d vai m dels now =
      (if trim h = wm_base_version m then out_of s1 vai2 (fast_forward_merge env (DiskMergeFs wid) s1 vai2 m diff dels now)
       else semantic_merge env fresh (DiskMergeFs wid) s1 vai2 m diff dels now)"
    "disk_inv wid s1" "disk.fdata wid s1 = disk.fdata wid d" "wf_vai env vai2"
    "ws_view env vai2 = (ws_view env vai)(uuid_to_string env (wm_id m) \<mapsto> m1)"
    "vai_kinds env vai2 = vai_kinds env vai @ change_events m diff @ [WorkspaceSubmitted (wm_id m) (changes_summary diff)]"
    "head_file vai2 = head_file vai" "vai_dir.more vai2 = vai_dir.more vai"
    "set (map fd_path (wd_file_diffs diff)) =
      {p. disk.fdata wid d (overlay_key p) \<noteq> None \<or> p \<in> set dels \<and> disk.fdata wid d (base_key p) \<noteq> None}"
    "\<forall>p\<in>set dels. disk.fdata wid d (base_key p) \<noteq> None \<longrightarrow> (\<exists>fd\<in>set (wd_file_diffs diff). fd_path fd = p \<and> fd_change_type fd = FcDeleted)"
    "active_file vai2 = active_file vai"
    by (rule disk.submit_prefix_ok [OF assms(6,2,1,3,4) ne, of fresh now])
  have sub: "submit env fresh vai d now = submit_with_fs env fresh (DiskMergeFs wid) d vai m dels now"
    by (simp add: submit_def assms(3,5,7))
  have more: "version_files vai2 = version_files vai" "conflict_files vai2 = conflict_files vai"
    using p(8) by (cases vai2; cases vai; simp)+
  show ?thesis
    by (rule that [OF _ p(2-4) _ p(6) _ more p(11)])
      (use p(1,5,7,9) sub in \<open>simp_all add: assms(4,5,8) del: if_split\<close>)
qed

section \<open>Properties\<close>

text \<open>C2: Submitting when HEAD has moved on, with every file that both sides changed merging
  automatically, succeeds: a file only the workspace changed becomes its overlay version, a file
  both changed becomes the three-way merge of its content before HEAD changed it, HEAD's content
  and the overlay, deleted files are gone and all others are kept; the previous content of each
  changed file is saved, HEAD moves to a fresh version and the workspace is closed as merged.\<close>

theorem submit_semantic_merge:
  fixes vai :: "('b) merge_dir_scheme" and env :: "('a) merge_env_scheme"
  assumes "wf_vai env vai" "wf_versions env (version_files vai)" "parse_total env" "ws_active env vai = Inr m"
    "head_file vai = Some h" "trim h \<noteq> wm_base_version m" "wid = uuid_to_string env (wm_id m)" "disk_inv wid d"
    "dels = read_manifest env vai (wm_id m)" "ov = (\<lambda>p. map_of d (overlay_dir wid @ ''/'' @ p))"
    and hb: "hb = first_snapshot d [parse_version_num (wm_base_version m) + 1..<Suc (parse_version_num (trim h))]"
    and src: "\<forall>p. ov p \<noteq> None \<or> p \<in> set dels \<longrightarrow> source_path p" and ne: "\<exists>p. ov p \<noteq> None"
    and dl: "\<forall>p\<in>set dels. map_of d p \<noteq> None \<longrightarrow> ov p \<noteq> None"
    and mg: "\<forall>p. ov p \<noteq> None \<longrightarrow> three_way env fresh (wm_id m) hb (map_of d) ov p \<noteq> None"
  shows "\<exists>sr d' vai' n. submit env fresh vai d now = (Inr sr, d', vai') \<and> wf_vai env vai' \<and>
    (\<forall>p. source_path p \<longrightarrow> map_of d' p =
       (if p \<in> set dels then None else if ov p \<noteq> None then three_way env fresh (wm_id m) hb (map_of d) ov p else map_of d p)) \<and>
    (\<forall>p. ov p \<noteq> None \<and> map_of d p \<noteq> None \<longrightarrow>
       map_of d' (''.vai/versions/'' @ version_id_of n @ ''/snapshot/'' @ p) = map_of d p) \<and>
    ver_view env vai (version_id_of n) = None \<and> ver_view env vai' = (ver_view env vai)(version_id_of n \<mapsto> sr_version sr) \<and>
    head_file vai' = Some (version_id_of n @ [CHR 0x0A]) \<and> active_file vai' = None \<and>
    ws_view env vai' = (ws_view env vai)(wid \<mapsto> m\<lparr>wm_status := WMerged, wm_updated_at := now\<rparr>)"
proof -
  let ?f = "\<lambda>p. the (three_way env fresh (wm_id m) hb (map_of d) ov p)"
  have us: "disk.usable wid d (version_id_of n) dels" for n
    unfolding disk.usable_def using src source_path_good by (simp add: assms(10))
  have ne: "\<exists>p. ov p \<noteq> None \<or> p \<in> set dels \<and> map_of d p \<noteq> None" using ne by blast
  obtain diff s1 vai2 m1 where p: "submit env fresh vai d now =
      (if trim h = wm_base_version m then out_of s1 vai2 (fast_forward_merge env (DiskMergeFs wid) s1 vai2 m diff dels now)
       else semantic_merge env fresh (DiskMergeFs wid) s1 vai2 m diff dels now)"
    "disk_inv wid s1" "disk.fdata wid s1 = disk.fdata wid d" "wf_vai env vai2"
    "ws_view env vai2 = (ws_view env vai)(wid \<mapsto> m1)"
    "vai_kinds env vai2 = vai_kinds env vai @ change_events m diff @ [WorkspaceSubmitted (wm_id m) (changes_summary diff)]"
    "head_file vai2 = Some h" "version_files vai2 = version_files vai" "conflict_files vai2 = conflict_files vai"
    "active_file vai2 = active_file vai"
    "set (map fd_path (wd_file_diffs diff)) = {p. ov p \<noteq> None \<or> p \<in> set dels \<and> map_of d p \<noteq> None}"
    by (rule submit_on_disk [OF assms(1,3,4,5,7,8,9,10) ne, of fresh now])
  have vers: "wf_versions env (version_files vai2)" unfolding p(8) by (rule assms(2))
  have vv: "ver_view env vai2 = ver_view env vai" by (rule ver_view_cong [OF p(8)])
  have act: "ws_view env vai2 (uuid_to_string env (wm_id m)) \<noteq> None" using p(5) by (simp add: assms(7))
  let ?ps = "map fd_path (wd_file_diffs diff)"
  have ps: "r \<in> set ?ps \<longleftrightarrow> ov r \<noteq> None" for r using p(11) dl by auto
  let ?ns = "[parse_version_num (wm_base_version m) + 1..<Suc (parse_version_num (trim h))]"
  have hb1: "hb = disk.head_base wid s1 ?ns"
    unfolding hb disk_head_base [symmetric, where wid = wid] using disk.head_base_cong [OF p(3)] by (simp add: fun_eq_iff)
  have tw: "disk.merged_file wid env fresh (wm_id m) s1 hb q = three_way env fresh (wm_id m) hb (map_of d) ov q" for q
    using disk.merged_file_cong [OF p(3), of env fresh "wm_id m" hb q] unfolding disk_merged_file assms(10) .
  have mf: "\<forall>q\<in>set ?ps. disk.merged_file wid env fresh (wm_id m) s1 hb q = Some (?f q)"
  proof
    fix q assume "q \<in> set ?ps"
    then have "three_way env fresh (wm_id m) hb (map_of d) ov q \<noteq> None" using mg ps by blast
    then show "disk.merged_file wid env fresh (wm_id m) s1 hb q = Some (?f q)" unfolding tw by simp
  qed
  have us1: "disk.usable wid s1 (version_id_of n) dels" for n using us unfolding disk.usable_def p(3) .
  obtain sr d' vai' n where r: "semantic_merge env fresh (DiskMergeFs wid) s1 vai2 m diff dels now = (Inr sr, d', vai')" "disk_inv wid d'" "wf_vai env vai'"
    "ver_view env vai2 (version_id_of n) = None"
    "head_file vai' = Some (version_id_of n @ [CHR 0x0A])" "active_file vai' = None"
    "ws_view env vai' = (ws_view env vai2)(uuid_to_string env (wm_id m) \<mapsto> m\<lparr>wm_status := WMerged, wm_updated_at := now\<rparr>)"
    "ver_view env vai' = (ver_view env vai2)(version_id_of n \<mapsto> sr_version sr)"
    "sr_auto_resolved sr = length (filter (\<lambda>p. hb p \<noteq> None) ?ps)"
    "\<forall>r. disk_good (base_key r) \<longrightarrow> disk.fdata wid d' (base_key r) =
       (if r \<in> set dels then None else if r \<in> set ?ps then Some (?f r) else disk.fdata wid s1 (base_key r))"
    "\<forall>r. r \<in> set ?ps \<longrightarrow> disk.fdata wid s1 (base_key r) \<noteq> None \<longrightarrow>
       disk.fdata wid d' (snapshot_key (version_id_of n) r) = disk.fdata wid s1 (base_key r)"
    by (rule disk.semantic_merge_ok [OF p(2,4) vers act p(7) hb1 refl mf us1, of now])
  have files: "\<forall>q. source_path q \<longrightarrow> map_of d' q =
       (if q \<in> set dels then None else if ov q \<noteq> None then three_way env fresh (wm_id m) hb (map_of d) ov q else map_of d q)"
    using r(10) source_path_good(1) ps mg unfolding p(3) disk_fdata by auto
  have snaps: "\<forall>q. ov q \<noteq> None \<and> map_of d q \<noteq> None \<longrightarrow>
       map_of d' (''.vai/versions/'' @ version_id_of n @ ''/snapshot/'' @ q) = map_of d q"
    using r(11) ps unfolding p(3) disk_fdata(1,2) disk_fdata(3) [OF version_name_of] by blast
  have view: "ws_view env vai' = (ws_view env vai)(wid \<mapsto> m\<lparr>wm_status := WMerged, wm_updated_at := now\<rparr>)"
    using r(7) p(5) by (simp add: assms(7))
  have res: "submit env fresh vai d now = (Inr sr, d', vai')" unfolding p(1) using assms(6) r(1) by simp
  show ?thesis
    by (intro exI conjI, rule res, rule r(3), rule files, rule snaps, rule r(4) [unfolded vv], rule r(8) [unfolded vv], rule r(5), rule r(6), rule view)
qed

text \<open>C3: When HEAD has moved on and a changed file does not merge, the submission reports conflicts and
  leaves the repository as it was: no file changes, HEAD, the versions and the active workspace
  are kept, and every reported conflict is stored unresolved, listed, and logged as one event.\<close>

theorem submit_reports_conflicts:
  fixes vai :: "('b) merge_dir_scheme" and env :: "('a) merge_env_scheme"
  assumes "wf_vai env vai" "parse_total env" "ws_active env vai = Inr m" "head_file vai = Some h" "trim h \<noteq> wm_base_version m"
    "wid = uuid_to_string env (wm_id m)" "disk_inv wid d" "dels = read_manifest env vai (wm_id m)"
    "ov = (\<lambda>p. map_of d (overlay_dir wid @ ''/'' @ p))"
    and hb: "hb = first_snapshot d [parse_version_num (wm_base_version m) + 1..<Suc (parse_version_num (trim h))]"
    and dl: "\<forall>p\<in>set dels. map_of d p \<noteq> None \<longrightarrow> ov p \<noteq> None"
    and tm: "tm = (\<lambda>p b w. try_merge_file env fresh 0 p b (case map_of d p of None \<Rightarrow> [] | Some c \<Rightarrow> c) w (wm_id m))"
    and np: "\<forall>p b w. hb p = Some b \<longrightarrow> ov p = Some w \<longrightarrow> tm p b w \<noteq> None"
    and cf: "\<exists>p b w. hb p = Some b \<and> ov p = Some w \<and> is_conflict (tm p b w)"
    and "conflict_ok env" "inj fresh"
  shows "\<exists>cs d' vai' evs. submit env fresh vai d now = (Inl (MeSemanticConflicts (length cs) cs), d', vai') \<and> cs \<noteq> [] \<and>
    map_of d' = map_of d \<and> head_file vai' = head_file vai \<and> version_files vai' = version_files vai \<and>
    active_file vai' = active_file vai \<and> set cs \<subseteq> set (list_conflicts env vai') \<and>
    (\<forall>c\<in>set cs. cf_workspace_id c = wm_id m \<and> \<not> cf_resolved c) \<and>
    vai_kinds env vai' = vai_kinds env vai @ evs @ map (conflict_event (wm_id m)) cs"
proof -
  have ne: "\<exists>p. ov p \<noteq> None \<or> p \<in> set dels \<and> map_of d p \<noteq> None" using cf by blast
  obtain diff s1 vai2 m1 where p: "submit env fresh vai d now =
      (if trim h = wm_base_version m then out_of s1 vai2 (fast_forward_merge env (DiskMergeFs wid) s1 vai2 m diff dels now)
       else semantic_merge env fresh (DiskMergeFs wid) s1 vai2 m diff dels now)"
    "disk_inv wid s1" "disk.fdata wid s1 = disk.fdata wid d" "wf_vai env vai2"
    "ws_view env vai2 = (ws_view env vai)(wid \<mapsto> m1)"
    "vai_kinds env vai2 = vai_kinds env vai @ change_events m diff @ [WorkspaceSubmitted (wm_id m) (changes_summary diff)]"
    "head_file vai2 = Some h" "version_files vai2 = version_files vai" "conflict_files vai2 = conflict_files vai"
    "active_file vai2 = active_file vai"
    "set (map fd_path (wd_file_diffs diff)) = {p. ov p \<noteq> None \<or> p \<in> set dels \<and> map_of d p \<noteq> None}"
    by (rule submit_on_disk [OF assms(1-4,6-9) ne, of fresh now])
  let ?ps = "map fd_path (wd_file_diffs diff)"
  have ps: "q \<in> set ?ps \<longleftrightarrow> ov q \<noteq> None" for q using p(11) dl by auto
  have fd: "disk.fdata wid s1 (overlay_key q) = ov q" "disk.fdata wid s1 (base_key q) = map_of d q" for q
    unfolding p(3) by (simp_all add: assms(9))
  have wl: "wf_log env (elog vai2)" using p(4) by (simp add: wf_vai_def)
  have hb1: "hb = disk.head_base wid s1 [parse_version_num (wm_base_version m) + 1..<Suc (parse_version_num (trim h))]"
    unfolding hb disk_head_base [symmetric, where wid = wid] using disk.head_base_cong [OF p(3)] by (simp add: fun_eq_iff)
  have ov: "\<forall>q\<in>set ?ps. disk.fdata wid s1 (overlay_key q) \<noteq> None" unfolding fd using ps by blast
  have np1: "\<forall>q\<in>set ?ps. \<forall>b w. hb q = Some b \<longrightarrow> disk.fdata wid s1 (overlay_key q) = Some w \<longrightarrow>
      try_merge_file env fresh 0 q b (case disk.fdata wid s1 (base_key q) of None \<Rightarrow> [] | Some c \<Rightarrow> c) w (wm_id m) \<noteq> None"
    unfolding fd using np unfolding tm by blast
  have cf1: "\<exists>q\<in>set ?ps. \<exists>b w. hb q = Some b \<and> disk.fdata wid s1 (overlay_key q) = Some w \<and>
      is_conflict (try_merge_file env fresh 0 q b (case disk.fdata wid s1 (base_key q) of None \<Rightarrow> [] | Some c \<Rightarrow> c) w (wm_id m))"
    unfolding fd using cf ps unfolding tm by blast
  obtain cs d' log vai' where r: "semantic_merge env fresh (DiskMergeFs wid) s1 vai2 m diff dels now = (Inl (MeSemanticConflicts (length cs) cs), d', vai')"
    "disk_inv wid d'" "disk.fdata wid d' = disk.fdata wid s1" "cs \<noteq> []" "numbered fresh 0 (wm_id m) cs"
    "vai' = (store_all_conflicts env vai2 cs)\<lparr>elog := log\<rparr>" "wf_log env log"
    "vai_kinds env vai' = vai_kinds env vai2 @ map (conflict_event (wm_id m)) cs"
    by (rule disk.semantic_merge_conflicts [OF p(2,7) wl hb1 refl ov np1 cf1, of dels now])
  have files: "map_of d' q = map_of d q" for q using fun_cong [OF r(3), of "base_key q"] fun_cong [OF p(3), of "base_key q"] by simp
  have inj: "inj (uuid_to_string env)" using assms(1) by (simp add: wf_vai_def uuid_ok_def)
  have "c \<in> set (list_conflicts env vai')" if c: "c \<in> set cs" for c
    by (rule list_conflicts_member [of _ "uuid_to_string env (cf_conflict_id c)" "conflict_to_toml env c"])
      (use stored_conflict [OF inj assms(16) r(5) c, of vai2] assms(15) in \<open>simp_all add: r(6) conflict_ok_def\<close>)
  moreover have "head_file vai' = head_file vai" "version_files vai' = version_files vai" "active_file vai' = active_file vai"
    using p(7,8,10) assms(4) unfolding r(6) by simp_all
  moreover have "\<forall>c\<in>set cs. cf_workspace_id c = wm_id m \<and> \<not> cf_resolved c" using r(5) by (simp add: numbered_def)
  moreover have "submit env fresh vai d now = (Inl (MeSemanticConflicts (length cs) cs), d', vai')" using p(1) assms(5) r(1) by simp
  ultimately show ?thesis using r(4,8) p(6) files
    by (intro exI [of _ cs] exI [of _ d'] exI [of _ vai'] exI [of _ "change_events m diff @ [WorkspaceSubmitted (wm_id m) (changes_summary diff)]"])
      (auto simp: fun_eq_iff)
qed

text \<open>C15: When HEAD has moved on, a workspace that deletes an existing file cannot be submitted: the merge
  reads the overlay version of every changed file, and a deleted file has none. The submission
  fails with an I/O error (or an earlier panic of the file merge) and changes nothing but the log.\<close>

theorem submit_deletion_after_head_moved:
  fixes vai :: "('b) merge_dir_scheme" and env :: "('a) merge_env_scheme"
  assumes "wf_vai env vai" "parse_total env" "ws_active env vai = Inr m" "head_file vai = Some h" "trim h \<noteq> wm_base_version m"
    "wid = uuid_to_string env (wm_id m)" "disk_inv wid d" "p0 \<in> set (read_manifest env vai (wm_id m))" "map_of d p0 \<noteq> None"
    "map_of d (overlay_dir wid @ ''/'' @ p0) = None"
  shows "\<exists>e d' vai'. submit env fresh vai d now = (Inl e, d', vai') \<and> ((\<exists>io. e = MeIo io) \<or> e = MePanic) \<and>
    map_of d' = map_of d \<and> head_file vai' = head_file vai \<and> version_files vai' = version_files vai \<and> active_file vai' = active_file vai"
proof -
  let ?dels = "read_manifest env vai (wm_id m)"
  have ne: "\<exists>p. map_of d (overlay_dir wid @ ''/'' @ p) \<noteq> None \<or> p \<in> set ?dels \<and> map_of d p \<noteq> None"
    using assms(8,9) by blast
  obtain diff s1 vai2 m1 where p: "submit env fresh vai d now =
      (if trim h = wm_base_version m then out_of s1 vai2 (fast_forward_merge env (DiskMergeFs wid) s1 vai2 m diff ?dels now)
       else semantic_merge env fresh (DiskMergeFs wid) s1 vai2 m diff ?dels now)"
    "disk_inv wid s1" "disk.fdata wid s1 = disk.fdata wid d" "wf_vai env vai2"
    "ws_view env vai2 = (ws_view env vai)(wid \<mapsto> m1)"
    "vai_kinds env vai2 = vai_kinds env vai @ change_events m diff @ [WorkspaceSubmitted (wm_id m) (changes_summary diff)]"
    "head_file vai2 = Some h" "version_files vai2 = version_files vai" "conflict_files vai2 = conflict_files vai"
    "active_file vai2 = active_file vai"
    "set (map fd_path (wd_file_diffs diff)) = {p. map_of d (overlay_dir wid @ ''/'' @ p) \<noteq> None \<or> p \<in> set ?dels \<and> map_of d p \<noteq> None}"
    by (rule submit_on_disk [OF assms(1-4,6,7) refl refl ne, of fresh now])
  have "p0 \<in> set (map fd_path (wd_file_diffs diff))" using p(11) assms(8,9) by blast
  moreover have "disk.fdata wid s1 (overlay_key p0) = None" using p(3) assms(10) by simp
  ultimately obtain e where e: "semantic_merge env fresh (DiskMergeFs wid) s1 vai2 m diff ?dels now = (Inl e, s1, vai2)"
    "(\<exists>io. e = MeIo io) \<or> e = MePanic"
    using disk.semantic_merge_missing [OF p(2,7)] by blast
  have "map_of s1 q = map_of d q" for q using fun_cong [OF p(3), of "base_key q"] by simp
  with e p(1,7,8,10) assms(4,5) show ?thesis by (simp add: fun_eq_iff)
qed

text \<open>A conflict reported by a submission can be resolved by its identifier: the record is stored as
  resolved and listed so, every other conflict file is kept, one event is logged, and an
  identifier that is not a UUID or has no record is reported as not found.\<close>

theorem resolve_reported_conflict:
  fixes vai :: "('b) merge_dir_scheme" and env :: "('a) merge_env_scheme"
  assumes "wf_log env (elog vai)" "conflict_ok env" "uuid_parse env cid = Some i"
    "map_of (conflict_files vai) (uuid_to_string env i) = Some (conflict_to_toml env c)"
  shows "\<exists>vai'. resolve_conflict env vai cid now = Inr (c\<lparr>cf_resolved := True\<rparr>, vai') \<and>
    c\<lparr>cf_resolved := True\<rparr> \<in> set (list_conflicts env vai') \<and>
    map_of (conflict_files vai') = (map_of (conflict_files vai))(uuid_to_string env i \<mapsto> conflict_to_toml env (c\<lparr>cf_resolved := True\<rparr>)) \<and>
    vai_kinds env vai' = vai_kinds env vai @ [MergeConflictResolved i ''manual'' ''agent''] \<and>
    head_file vai' = head_file vai \<and> version_files vai' = version_files vai \<and>
    (\<forall>cid'. uuid_parse env cid' = None \<or>
       (\<exists>j. uuid_parse env cid' = Some j \<and> map_of (conflict_files vai) (uuid_to_string env j) = None) \<longrightarrow>
       resolve_conflict env vai cid' now = Inl (MeConflictNotFound cid'))"
proof -
  let ?c = "c\<lparr>cf_resolved := True\<rparr>" and ?k = "uuid_to_string env i"
  let ?v1 = "vai\<lparr>conflict_files := AList.update ?k (conflict_to_toml env ?c) (conflict_files vai)\<rparr>"
  have ok: "conflict_from_toml env (conflict_to_toml env x) = Some x" for x :: ConflictRecord using assms(2) by (simp add: conflict_ok_def)
  have wl: "wf_log env (elog ?v1)" using assms(1) by simp
  obtain e log where l: "vai_append env ?v1 now (MergeConflictResolved i ''manual'' ''agent'') = Inr (e, ?v1\<lparr>elog := log\<rparr>)"
    "vai_kinds env (?v1\<lparr>elog := log\<rparr>) = vai_kinds env ?v1 @ [MergeConflictResolved i ''manual'' ''agent'']"
    by (rule vai_append_ok [OF wl])
  let ?v2 = "?v1\<lparr>elog := log\<rparr>"
  have "resolve_conflict env vai cid now = Inr (?c, ?v2)" using assms(3,4) ok l(1) by (simp add: resolve_conflict_def Let_def)
  moreover have files: "map_of (conflict_files ?v2) = (map_of (conflict_files vai))(?k \<mapsto> conflict_to_toml env ?c)" by (simp add: update_conv')
  moreover have "?c \<in> set (list_conflicts env ?v2)" by (rule list_conflicts_member [of _ ?k "conflict_to_toml env ?c"]) (simp add: update_conv', rule ok)
  moreover have "vai_kinds env ?v1 = vai_kinds env vai" by (rule vai_kinds_elog) simp
  moreover have "head_file ?v2 = head_file vai" "version_files ?v2 = version_files vai" by simp_all
  moreover have "\<forall>cid'. uuid_parse env cid' = None \<or>
       (\<exists>j. uuid_parse env cid' = Some j \<and> map_of (conflict_files vai) (uuid_to_string env j) = None) \<longrightarrow>
       resolve_conflict env vai cid' now = Inl (MeConflictNotFound cid')" by (auto simp: resolve_conflict_def)
  ultimately show ?thesis using l(2) by (intro exI [of _ ?v2]) simp
qed

section \<open>A concrete repository\<close>

definition e_conflict :: "ConflictRecord enc" where
  "e_conflict c = e_nat (cf_conflict_id c) @ e_nat (cf_workspace_id c) @ e_str (cf_file_path c) @ e_list e_str (cf_entity_ids c) @
     e_str (cf_description c) @ e_sev (cf_severity c) @ e_nat (cf_merge_level c) @ e_bool (cf_resolved c)"
definition d_conflict :: "ConflictRecord dec" where
  "d_conflict = d_app (d_app (d6 ConflictRecord.make d_nat d_nat d_str (d_list d_str) d_str d_sev) d_nat) d_bool"

lemma wires_conflict [simp]: "wires e_conflict d_conflict"
  unfolding wires_def by (simp add: e_conflict_def d_conflict_def d_chain ConflictRecord.defs del: e_list.simps)

definition sample_merge_env :: merge_env where
  "sample_merge_env = \<lparr>ev_to_json = to_text e_event, ev_from_json = from_text d_event,
     to_rfc3339 = nat_to_string, uuid_to_string = nat_to_string,
     meta_to_toml = to_text e_meta, meta_from_toml = from_text d_meta,
     ver_to_toml = to_text e_ver, ver_from_toml = from_text d_ver,
     parse_rust_source = (\<lambda>f c. Inr ([], [])), sha256_hex = (\<lambda>c. c), paths_from_json = from_text (d_list d_str),
     conflict_to_toml = to_text e_conflict, conflict_from_toml = from_text d_conflict,
     uuid_parse = parse_digits 0, parse_source_file = (\<lambda>f c. Inr ([], []))\<rparr>"

lemma sample_merge_ok [simp]:
  "json_ok sample_merge_env" "meta_ok sample_merge_env" "uuid_ok sample_merge_env" "ver_ok sample_merge_env"
  "parse_total sample_merge_env" "conflict_ok sample_merge_env" "uuid_to_string sample_merge_env = nat_to_string"
  "uuid_parse sample_merge_env = parse_digits 0"
  by (auto intro: json_ok_text meta_ok_text uuid_ok_decimal
      simp: sample_merge_env_def ver_ok_def from_to_text parse_total_def conflict_ok_def)

definition sample_meta :: WorkspaceMeta where
  "sample_meta = \<lparr>wm_id = 5, wm_intent = ''fix'', wm_base_version = ''v1'', wm_status = WCreated,
     wm_created_at = 1, wm_updated_at = 1, wm_issue_id = None, wm_deleted_paths = []\<rparr>"

text \<open>A repository with HEAD \<open>h\<close>, one version, and workspace 5 active with a deletion manifest.\<close>

definition sample_dir :: "string \<Rightarrow> string list \<Rightarrow> merge_dir" where
  "sample_dir h dels = \<lparr>head_file = Some h, active_file = Some (nat_to_string 5),
     ws_dirs = [(nat_to_string 5, \<lparr>meta_toml = Some (to_text e_meta sample_meta), deleted_manifest = Some (to_text (e_list e_str) dels)\<rparr>)],
     elog = elog_empty, version_files = (''v1'', to_text e_ver sample_version) #
       (if h = ''v1'' then [] else [(''v2'', to_text e_ver (sample_version\<lparr>vm_version_id := ''v2''\<rparr>))]), conflict_files = [],
     graph_snapshot = sample_graph\<rparr>"

lemma sample_read_meta: "read_meta_dir sample_merge_env \<lparr>meta_toml = Some (to_text e_meta sample_meta), deleted_manifest = x\<rparr> = Inr sample_meta"
  by (simp add: read_meta_dir_def sample_merge_env_def from_to_text)

lemma version_id_2: "version_id_of 2 = ''v2''"
  by code_simp

lemma parse_v2: "parse_version_number ''v2'' = 2"
  using parse_version_id_of [of 2] unfolding version_id_2 by simp

lemma parse_version_num_id: "n < 2 ^ 64 \<Longrightarrow> parse_version_num (version_id_of n) = n"
proof -
  assume n: "n < 2 ^ 64"
  have "CHR ''v'' \<notin> set (nat_to_string n)" by (rule not_in_nat_to_string) simp
  then have "dropWhile (\<lambda>c. c = CHR ''v'') (nat_to_string n) = nat_to_string n" by (cases "nat_to_string n") auto
  with n show ?thesis by (simp add: parse_version_num_def version_id_of_def)
qed

lemma sample_dir_wf: "wf_vai sample_merge_env (sample_dir h dels)" "wf_versions sample_merge_env (version_files (sample_dir h dels))"
proof -
  show "wf_vai sample_merge_env (sample_dir h dels)"
    by (simp add: wf_vai_def sample_dir_def wf_dirs_def wf_log_empty sample_read_meta) (simp add: sample_meta_def)
  have "ver_from_toml sample_merge_env (to_text e_ver v) = Some v" for v
    by (simp add: sample_merge_env_def from_to_text)
  then show "wf_versions sample_merge_env (version_files (sample_dir h dels))"
    by (simp add: wf_versions_def sample_dir_def parse_v1 parse_v2) (simp add: sample_version_def)
qed

lemma sample_dir_active: "ws_active sample_merge_env (sample_dir h dels) = Inr sample_meta"
proof -
  have "trim (nat_to_string 5) = nat_to_string 5" "nat_to_string 5 \<noteq> []"
    using sample_merge_ok(3) by (auto simp: uuid_ok_def)
  then show ?thesis by (simp add: ws_active_def read_active_def ws_get_def sample_dir_def sample_read_meta Let_def)
qed

lemma sample_dir_manifest: "read_manifest sample_merge_env (sample_dir h dels) 5 = dels"
  by (simp add: read_manifest_def sample_dir_def) (simp add: sample_merge_env_def from_to_text)

lemma sample_meta_sel [simp]: "wm_id sample_meta = 5" "wm_base_version sample_meta = ''v1''"
  by (simp_all add: sample_meta_def)

lemma sample_dir_head [simp]: "head_file (sample_dir h dels) = Some h"
  by (simp add: sample_dir_def)

lemma sample_wid: "nat_to_string 5 = ''5''"
  by code_simp

lemma overlay_5: "overlay_dir ''5'' @ ''/'' @ p = ''.vai/workspaces/5/overlay/'' @ p"
  by (simp add: overlay_dir_def ws_path_def)

lemma trim_v1: "trim ''v1'' = ''v1''"
  by code_simp

text \<open>Fast-forward: a modified, a deleted and an untouched file.\<close>

definition sample_disk :: disk where
  "sample_disk = [(''.vai/workspaces/5/overlay/a.txt'', ''new''), (''a.txt'', ''old''), (''b.txt'', ''bye''), (''c.txt'', ''same'')]"

lemma sample_disk_inv: "disk_inv ''5'' sample_disk"
  by (simp add: disk_inv_def sample_disk_def)

lemma sample_overlay: "map_of sample_disk (''.vai/workspaces/5/overlay/'' @ p) = (if p = ''a.txt'' then Some ''new'' else None)"
  by (simp add: sample_disk_def)

theorem submit_fast_forward_witness:
  "\<exists>sr d' vai'. submit sample_merge_env id (sample_dir ''v1'' [''b.txt'']) sample_disk 9 = (Inr sr, d', vai') \<and>
     map_of d' ''a.txt'' = Some ''new'' \<and> map_of d' ''b.txt'' = None \<and> map_of d' ''c.txt'' = Some ''same'' \<and> active_file vai' = None"
proof -
  let ?V = "sample_dir ''v1'' [''b.txt'']"
  have h: "head_file ?V = Some ''v1''" "trim ''v1'' = wm_base_version sample_meta" by (simp_all add: trim_v1)
  have w: "''5'' = uuid_to_string sample_merge_env (wm_id sample_meta)" by (simp add: sample_wid)
  have ov: "(\<lambda>p. map_of sample_disk (overlay_dir ''5'' @ ''/'' @ p)) = (\<lambda>p. if p = ''a.txt'' then Some ''new'' else None)"
    unfolding overlay_5 sample_overlay ..
  have dels: "[''b.txt''] = read_manifest sample_merge_env ?V (wm_id sample_meta)" by (simp add: sample_dir_manifest)
  have src: "\<forall>p. (if p = ''a.txt'' then Some ''new'' else None) \<noteq> None \<or> p \<in> set [''b.txt''] \<longrightarrow> source_path p"
    by (auto simp: source_path_def starts_with_def)
  have ne: "\<exists>p. (if p = ''a.txt'' then Some ''new'' else None) \<noteq> None \<or> p \<in> set [''b.txt''] \<and> map_of sample_disk p \<noteq> None" by auto
  have sp: "source_path ''a.txt''" "source_path ''b.txt''" "source_path ''c.txt''" by (simp_all add: source_path_def starts_with_def)
  from submit_fast_forward [OF sample_dir_wf sample_merge_ok(5) sample_dir_active h w sample_disk_inv dels ov [symmetric] src ne, of id 9]
  show ?thesis using sp by (elim exE conjE) (intro exI conjI, assumption, simp_all add: sample_disk_def)
qed

text \<open>HEAD has moved to \<open>v2\<close>, which changed the last line of a file whose first line the workspace changes.\<close>

definition moved_disk :: "string \<Rightarrow> disk" where
  "moved_disk ws = [(''.vai/workspaces/5/overlay/a.txt'', ws), (''.vai/versions/v2/snapshot/a.txt'', ''1\<newline>2\<newline>3\<newline>''),
     (''a.txt'', ''1\<newline>2\<newline>H\<newline>''), (''b.txt'', ''bye'')]"

lemma moved_disk_facts:
  "disk_inv ''5'' (moved_disk ws)"
  "map_of (moved_disk ws) (overlay_dir ''5'' @ ''/'' @ p) = (if p = ''a.txt'' then Some ws else None)"
  "map_of (moved_disk ws) ''a.txt'' = Some ''1\<newline>2\<newline>H\<newline>''" "map_of (moved_disk ws) ''b.txt'' = Some ''bye''"
  unfolding overlay_5 by (simp_all add: disk_inv_def moved_disk_def)

lemma trim_v2: "trim ''v2'' = ''v2''"
  by code_simp

lemma parse_num: "parse_version_num ''v1'' = 1" "parse_version_num ''v2'' = 2"
  using parse_version_num_id [of 1] parse_version_num_id [of 2] unfolding version_id_1 version_id_2 by simp_all

lemma moved_base: "first_snapshot (moved_disk ws) [parse_version_num ''v1'' + 1..<Suc (parse_version_num (trim ''v2''))] ''a.txt'' = Some ''1\<newline>2\<newline>3\<newline>''"
proof -
  have "[parse_version_num ''v1'' + 1..<Suc (parse_version_num (trim ''v2''))] = [2]" by (simp add: parse_num trim_v2 upt_rec)
  then show ?thesis by (simp add: first_snapshot_def version_id_2) (simp add: moved_disk_def)
qed

lemma moved_merge:
  "try_merge_file sample_merge_env id 0 ''a.txt'' ''1\<newline>2\<newline>3\<newline>'' ''1\<newline>2\<newline>H\<newline>'' ''W\<newline>2\<newline>3\<newline>'' 5 =
     Some (AutoMerged ''W\<newline>2\<newline>H\<newline>'' 1)"
  by code_simp

lemma conflict_not_None: "is_conflict r \<Longrightarrow> r \<noteq> None"
  by (cases r) auto

lemma clash_merge:
  "is_conflict (try_merge_file sample_merge_env id 0 ''a.txt'' ''1\<newline>2\<newline>3\<newline>'' ''1\<newline>2\<newline>H\<newline>'' ''1\<newline>2\<newline>W\<newline>'' 5)"
  by code_simp

lemma moved_overlay: "(\<lambda>p. map_of (moved_disk ws) (overlay_dir ''5'' @ ''/'' @ p)) = (\<lambda>p. if p = ''a.txt'' then Some ws else None)"
  unfolding moved_disk_facts(2) ..

lemma moved_wid: "''5'' = uuid_to_string sample_merge_env (wm_id sample_meta)"
  by (simp add: sample_wid)

lemma moved_head: "head_file (sample_dir ''v2'' dels) = Some ''v2''" "trim ''v2'' \<noteq> wm_base_version sample_meta"
  by (simp_all add: trim_v2)

lemma moved_manifest: "dels = read_manifest sample_merge_env (sample_dir ''v2'' dels) (wm_id sample_meta)"
  by (simp add: sample_dir_manifest)

lemmas moved = moved_head moved_wid moved_disk_facts(1) moved_manifest moved_overlay [symmetric]

theorem submit_semantic_merge_witness:
  "\<exists>sr d' vai'. submit sample_merge_env id (sample_dir ''v2'' []) (moved_disk ''W\<newline>2\<newline>3\<newline>'') 9 = (Inr sr, d', vai') \<and>
     map_of d' ''a.txt'' = Some ''W\<newline>2\<newline>H\<newline>'' \<and> active_file vai' = None"
proof -
  let ?w = "''W\<newline>2\<newline>3\<newline>''" and ?ov = "\<lambda>p. if p = ''a.txt'' then Some ''W\<newline>2\<newline>3\<newline>'' else None"
  let ?hb = "first_snapshot (moved_disk ?w) [parse_version_num (wm_base_version sample_meta) + 1..<Suc (parse_version_num (trim ''v2''))]"
  have hb: "?hb ''a.txt'' = Some ''1\<newline>2\<newline>3\<newline>''" using moved_base by simp
  have tw: "three_way sample_merge_env id (wm_id sample_meta) ?hb (map_of (moved_disk ?w)) ?ov ''a.txt'' = Some ''W\<newline>2\<newline>H\<newline>''"
    unfolding three_way_def hb moved_disk_facts(3) using moved_merge by simp
  have src: "\<forall>p. ?ov p \<noteq> None \<or> p \<in> set [] \<longrightarrow> source_path p" by (simp add: source_path_def starts_with_def)
  have ne: "\<exists>p. ?ov p \<noteq> None" by auto
  have mg: "\<forall>p. ?ov p \<noteq> None \<longrightarrow> three_way sample_merge_env id (wm_id sample_meta) ?hb (map_of (moved_disk ?w)) ?ov p \<noteq> None"
  proof (intro allI impI)
    fix p assume "?ov p \<noteq> None"
    then have "p = ''a.txt''" by (auto split: if_splits)
    then show "three_way sample_merge_env id (wm_id sample_meta) ?hb (map_of (moved_disk ?w)) ?ov p \<noteq> None" using tw by simp
  qed
  have dl: "\<forall>p\<in>set []. map_of (moved_disk ?w) p \<noteq> None \<longrightarrow> ?ov p \<noteq> None" by simp
  have sp: "source_path ''a.txt''" by (simp add: source_path_def starts_with_def)
  obtain sr d' vai' where r: "submit sample_merge_env id (sample_dir ''v2'' []) (moved_disk ?w) 9 = (Inr sr, d', vai')"
    "\<forall>p. source_path p \<longrightarrow> map_of d' p = (if p \<in> set [] then None else if ?ov p \<noteq> None
       then three_way sample_merge_env id (wm_id sample_meta) ?hb (map_of (moved_disk ?w)) ?ov p else map_of (moved_disk ?w) p)"
    "active_file vai' = None"
    using submit_semantic_merge [OF sample_dir_wf sample_merge_ok(5) sample_dir_active moved refl src ne dl mg, of 9] by (elim exE conjE)
  have "map_of d' ''a.txt'' = Some ''W\<newline>2\<newline>H\<newline>''" using r(2) sp tw by simp
  with r(1,3) show ?thesis by (intro exI conjI)
qed

theorem submit_reports_conflicts_witness:
  "\<exists>cs d' vai'. submit sample_merge_env id (sample_dir ''v2'' []) (moved_disk ''1\<newline>2\<newline>W\<newline>'') 9 =
     (Inl (MeSemanticConflicts (length cs) cs), d', vai') \<and> cs \<noteq> [] \<and> map_of d' ''a.txt'' = Some ''1\<newline>2\<newline>H\<newline>''"
proof -
  let ?w = "''1\<newline>2\<newline>W\<newline>''" and ?ov = "\<lambda>p. if p = ''a.txt'' then Some ''1\<newline>2\<newline>W\<newline>'' else None"
  let ?hb = "first_snapshot (moved_disk ?w) [parse_version_num (wm_base_version sample_meta) + 1..<Suc (parse_version_num (trim ''v2''))]"
  let ?tm = "\<lambda>p b w. try_merge_file sample_merge_env id 0 p b (case map_of (moved_disk ?w) p of None \<Rightarrow> [] | Some c \<Rightarrow> c) w (wm_id sample_meta)"
  have hb: "?hb ''a.txt'' = Some ''1\<newline>2\<newline>3\<newline>''" using moved_base by simp
  have tm: "is_conflict (?tm ''a.txt'' ''1\<newline>2\<newline>3\<newline>'' ?w)" unfolding moved_disk_facts(3) using clash_merge by simp
  have np: "\<forall>p b w. ?hb p = Some b \<longrightarrow> ?ov p = Some w \<longrightarrow> ?tm p b w \<noteq> None"
  proof (intro allI impI)
    fix p b w assume a: "?hb p = Some b" "?ov p = Some w"
    then have pw: "p = ''a.txt''" "w = ?w" by (auto split: if_splits)
    then have "b = ''1\<newline>2\<newline>3\<newline>''" using a(1) hb by simp
    then have "is_conflict (?tm p b w)" using pw tm by simp
    then show "?tm p b w \<noteq> None" by (rule conflict_not_None)
  qed
  have cf: "\<exists>p b w. ?hb p = Some b \<and> ?ov p = Some w \<and> is_conflict (?tm p b w)"
    using hb tm by (intro exI [of _ "''a.txt''"] exI [of _ "''1\<newline>2\<newline>3\<newline>''"] exI [of _ ?w]) simp
  have dl: "\<forall>p\<in>set []. map_of (moved_disk ?w) p \<noteq> None \<longrightarrow> ?ov p \<noteq> None" by simp
  show ?thesis
    using submit_reports_conflicts [OF sample_dir_wf(1) sample_merge_ok(5) sample_dir_active moved refl dl refl np cf sample_merge_ok(6) inj_on_id, of 9]
      moved_disk_facts(3) by (elim exE conjE) (intro exI conjI, assumption+, simp)
qed

theorem submit_deletion_after_head_moved_witness:
  "\<exists>e d' vai'. submit sample_merge_env id (sample_dir ''v2'' [''b.txt'']) (moved_disk ''W'') 9 = (Inl e, d', vai') \<and>
     ((\<exists>io. e = MeIo io) \<or> e = MePanic) \<and> map_of d' = map_of (moved_disk ''W'')"
proof -
  have "''b.txt'' \<in> set (read_manifest sample_merge_env (sample_dir ''v2'' [''b.txt'']) (wm_id sample_meta))"
    by (simp add: sample_dir_manifest)
  moreover have "map_of (moved_disk ''W'') ''b.txt'' \<noteq> None" "map_of (moved_disk ''W'') (overlay_dir ''5'' @ ''/'' @ ''b.txt'') = None"
    unfolding moved_disk_facts(2,4) by simp_all
  ultimately show ?thesis
    using submit_deletion_after_head_moved [OF sample_dir_wf(1) sample_merge_ok(5) sample_dir_active moved_head moved_wid moved_disk_facts(1), of "''b.txt''" "[''b.txt'']" "''W''" id 9]
    by blast
qed

definition sample_conflict :: ConflictRecord where
  "sample_conflict = make_conflict 7 ''a.txt'' 5 [] ''clash'' SevMedium 1"

theorem resolve_reported_conflict_witness:
  "\<exists>vai'. resolve_conflict sample_merge_env ((sample_dir ''v2'' [])\<lparr>conflict_files := [(nat_to_string 7, to_text e_conflict sample_conflict)]\<rparr>) (nat_to_string 7) 9 =
     Inr (sample_conflict\<lparr>cf_resolved := True\<rparr>, vai')"
proof -
  let ?V = "(sample_dir ''v2'' [])\<lparr>conflict_files := [(nat_to_string 7, to_text e_conflict sample_conflict)]\<rparr>"
  have "wf_log sample_merge_env (elog ?V)" by (simp add: sample_dir_def wf_log_empty)
  moreover have "uuid_parse sample_merge_env (nat_to_string 7) = Some 7" by (simp add: parse_digits_nat_to_string)
  moreover have "map_of (conflict_files ?V) (uuid_to_string sample_merge_env 7) = Some (conflict_to_toml sample_merge_env sample_conflict)"
    by simp (simp add: sample_merge_env_def)
  ultimately show ?thesis using resolve_reported_conflict [of sample_merge_env ?V "nat_to_string 7" 7 sample_conflict 9] sample_merge_ok(6) by blast
qed

end
