(* ===== verification/Issue.thy ===== *)
theory Issue
  imports Workspace Graph
begin

text \<open>
  The issue store (\<open>src/issue/mod.rs\<close>): the tables of \<open>issues.db\<close>, the operations of \<open>IssueStore\<close>
  with the events they append, the per-agent rate limit and the duplicate detection.

  An operation returns its result with the database and the log, since a failing step leaves the
  effects of the steps before it. The codecs of time stamps, UUIDs and JSON columns and the
  Unicode tables behind \<open>is_alphanumeric\<close> and \<open>to_lowercase\<close> are fields of the environment;
  \<open>Utc::now()\<close> and \<open>Uuid::new_v4()\<close> are arguments.
\<close>

section \<open>Data\<close>

datatype IssueError =
    IsSqlite | IsEventLog EventLogError | IsNotFound uuid | IsInvalidTransition string string
  | IsNotInitialized string | IsRateLimitExceeded string nat nat

datatype IssuePriority = PCritical | PHigh | PMedium | PLow

fun priority_as_str :: "IssuePriority \<Rightarrow> string" where
  "priority_as_str PCritical = ''critical''"
| "priority_as_str PHigh = ''high''"
| "priority_as_str PMedium = ''medium''"
| "priority_as_str PLow = ''low''"

definition priority_from_db_str :: "string \<Rightarrow> IssuePriority option" where
  "priority_from_db_str s =
     (if s = ''critical'' then Some PCritical else if s = ''high'' then Some PHigh
      else if s = ''medium'' then Some PMedium else if s = ''low'' then Some PLow else None)"

datatype IssueStatus = IOpen | IInProgress | IResolved | IClosed

fun issue_status_str :: "IssueStatus \<Rightarrow> string" where
  "issue_status_str IOpen = ''open''"
| "issue_status_str IInProgress = ''in_progress''"
| "issue_status_str IResolved = ''resolved''"
| "issue_status_str IClosed = ''closed''"

definition issue_status_from_db_str :: "string \<Rightarrow> IssueStatus option" where
  "issue_status_from_db_str s =
     (if s = ''open'' then Some IOpen else if s = ''in_progress'' then Some IInProgress
      else if s = ''resolved'' then Some IResolved else if s = ''closed'' then Some IClosed else None)"

datatype IssueResolution = RResolved | RWontFix | RDuplicate

fun resolution_as_str :: "IssueResolution \<Rightarrow> string" where
  "resolution_as_str RResolved = ''resolved''"
| "resolution_as_str RWontFix = ''wontfix''"
| "resolution_as_str RDuplicate = ''duplicate''"

definition resolution_from_db_str :: "string \<Rightarrow> IssueResolution option" where
  "resolution_from_db_str s =
     (if s = ''resolved'' then Some RResolved else if s = ''wontfix'' then Some RWontFix
      else if s = ''duplicate'' then Some RDuplicate else None)"

record IssueComment =
  ic_id :: uuid
  ic_issue_id :: uuid
  ic_author :: string
  ic_body :: "string option"
  ic_author_type :: string
  ic_author_id :: "string option"
  ic_created_at :: time
  ic_parent_id :: "uuid option"
  ic_edited_at :: "time option"
  ic_deleted_at :: "time option"

text \<open>The details are a JSON value, kept as its text.\<close>

record AgentSource =
  as_source_type :: string
  as_details :: string

record Issue =
  is_id :: uuid
  is_title :: string
  is_description :: string
  is_status :: IssueStatus
  is_priority :: IssuePriority
  is_labels :: "string list"
  is_creator :: string
  is_resolution :: "string option"
  is_agent_source :: "AgentSource option"
  is_acceptance_criteria :: "string list"
  is_created_at :: time
  is_updated_at :: time

record IssueFilter =
  if_status :: "IssueStatus list option"
  if_priority :: "IssuePriority option"
  if_label :: "string option"
  if_creator :: "string option"
  if_blocked_by :: "uuid option"

section \<open>The database\<close>

record issue_row =
  ir_id :: string
  ir_title :: string
  ir_description :: string
  ir_status :: string
  ir_priority :: string
  ir_labels :: string
  ir_creator :: string
  ir_resolution :: "string option"
  ir_agent_source :: "string option"
  ir_created_at :: string
  ir_updated_at :: string
  ir_acceptance_criteria :: string

record comment_row =
  cm_id :: string
  cm_issue_id :: string
  cm_author :: string
  cm_body :: string
  cm_created_at :: string
  cm_author_type :: string
  cm_author_id :: "string option"
  cm_parent_id :: "string option"
  cm_edited_at :: "string option"
  cm_deleted_at :: "string option"

record issue_db =
  issues_tbl :: "issue_row list"
  links_tbl :: "(string \<times> string \<times> string) list"
  rate_tbl :: "((string \<times> string) \<times> nat) list"
  deps_tbl :: "(string \<times> string) list"
  comments_tbl :: "comment_row list"

definition issue_db_empty :: issue_db where
  "issue_db_empty = \<lparr>issues_tbl = [], links_tbl = [], rate_tbl = [], deps_tbl = [], comments_tbl = []\<rparr>"

record issue_env = ws_env +
  uuid_from_str :: "string \<Rightarrow> uuid option"
  from_rfc3339 :: "string \<Rightarrow> time option"
  source_to_json :: "AgentSource \<Rightarrow> string"
  source_from_json :: "string \<Rightarrow> AgentSource option"
  criteria_to_json :: "string list \<Rightarrow> string"
  criteria_from_json :: "string \<Rightarrow> string list option"
  hour_bucket :: "time \<Rightarrow> string"
  is_alphanumeric :: "string \<Rightarrow> bool"
  str_lowercase :: "string \<Rightarrow> string"

type_synonym 'x issue_out = "(IssueError, 'x) result \<times> issue_db \<times> event_log"

text \<open>\<open>event_log.append(kind)?\<close>: the rest runs with the extended log.\<close>

definition log_then ::
  "('a) elog_env_scheme \<Rightarrow> issue_db \<Rightarrow> event_log \<Rightarrow> time \<Rightarrow> EventKind \<Rightarrow> (event_log \<Rightarrow> 'x issue_out) \<Rightarrow> 'x issue_out" where
  "log_then env db log now kind k =
     (case elog_append env log now kind of Inl e \<Rightarrow> (Inl (IsEventLog e), db, log) | Inr (_, log') \<Rightarrow> k log')"

section \<open>Rows\<close>

definition labels_of :: "string \<Rightarrow> string list" where
  "labels_of s = (if s = [] then [] else split_char (CHR '','') s)"

text \<open>\<open>now\<close> stands in for a time stamp that does not parse, the nil UUID for an identifier that does not.\<close>

definition row_to_issue :: "('a) issue_env_scheme \<Rightarrow> time \<Rightarrow> issue_row \<Rightarrow> Issue" where
  "row_to_issue env now r =
     \<lparr>is_id = (case uuid_from_str env (ir_id r) of Some i \<Rightarrow> i | None \<Rightarrow> 0),
      is_title = ir_title r, is_description = ir_description r,
      is_status = (case issue_status_from_db_str (ir_status r) of Some s \<Rightarrow> s | None \<Rightarrow> IOpen),
      is_priority = (case priority_from_db_str (ir_priority r) of Some p \<Rightarrow> p | None \<Rightarrow> PMedium),
      is_labels = labels_of (ir_labels r), is_creator = ir_creator r, is_resolution = ir_resolution r,
      is_agent_source = Option.bind (ir_agent_source r) (source_from_json env),
      is_acceptance_criteria = (case criteria_from_json env (ir_acceptance_criteria r) of Some c \<Rightarrow> c | None \<Rightarrow> []),
      is_created_at = (case from_rfc3339 env (ir_created_at r) of Some t \<Rightarrow> t | None \<Rightarrow> now),
      is_updated_at = (case from_rfc3339 env (ir_updated_at r) of Some t \<Rightarrow> t | None \<Rightarrow> now)\<rparr>"

text \<open>\<open>UPDATE issues SET .. WHERE id = ?\<close>.\<close>

definition update_issue_row :: "string \<Rightarrow> (issue_row \<Rightarrow> issue_row) \<Rightarrow> issue_db \<Rightarrow> issue_db" where
  "update_issue_row i f db = db\<lparr>issues_tbl := map (\<lambda>r. if ir_id r = i then f r else r) (issues_tbl db)\<rparr>"

text \<open>\<open>INSERT INTO issues\<close>: the primary key is checked.\<close>

definition insert_issue_row :: "issue_row \<Rightarrow> issue_db \<Rightarrow> issue_db option" where
  "insert_issue_row r db =
     (if list_ex (\<lambda>r'. ir_id r' = ir_id r) (issues_tbl db) then None else Some (db\<lparr>issues_tbl := issues_tbl db @ [r]\<rparr>))"

section \<open>Reading\<close>

definition issue_get :: "('a) issue_env_scheme \<Rightarrow> issue_db \<Rightarrow> time \<Rightarrow> uuid \<Rightarrow> (IssueError, Issue) result" where
  "issue_get env db now i =
     (case filter (\<lambda>r. ir_id r = uuid_to_string env i) (issues_tbl db) of
        [] \<Rightarrow> Inl (IsNotFound i) | r # _ \<Rightarrow> Inr (row_to_issue env now r))"

definition status_matches :: "IssueStatus list option \<Rightarrow> issue_row \<Rightarrow> bool" where
  "status_matches f r =
     (case f of None \<Rightarrow> True | Some ss \<Rightarrow> ss = [] \<or> ir_status r \<in> issue_status_str ` set ss)"

definition label_matches :: "string option \<Rightarrow> issue_row \<Rightarrow> bool" where
  "label_matches f r =
     (case f of None \<Rightarrow> True
      | Some l \<Rightarrow> ir_labels r = l \<or> sql_like (l @ '',%'') (ir_labels r) \<or> sql_like (''%,'' @ l) (ir_labels r) \<or>
                  sql_like (''%,'' @ l @ '',%'') (ir_labels r))"

definition filter_matches :: "('a) issue_env_scheme \<Rightarrow> issue_db \<Rightarrow> IssueFilter \<Rightarrow> issue_row \<Rightarrow> bool" where
  "filter_matches env db f r \<longleftrightarrow>
     status_matches (if_status f) r \<and>
     (case if_priority f of None \<Rightarrow> True | Some p \<Rightarrow> ir_priority r = priority_as_str p) \<and>
     label_matches (if_label f) r \<and>
     (case if_creator f of None \<Rightarrow> True | Some c \<Rightarrow> ir_creator r = c) \<and>
     (case if_blocked_by f of None \<Rightarrow> True
      | Some b \<Rightarrow> list_ex (\<lambda>(i, d). i = ir_id r \<and> d = uuid_to_string env b) (deps_tbl db))"

text \<open>\<open>ORDER BY created_at DESC\<close>.\<close>

definition order_desc :: "issue_row list \<Rightarrow> issue_row list" where
  "order_desc rs = rev (sort_key ir_created_at (rev rs))"

definition issue_list :: "('a) issue_env_scheme \<Rightarrow> issue_db \<Rightarrow> time \<Rightarrow> IssueFilter \<Rightarrow> Issue list" where
  "issue_list env db now f = map (row_to_issue env now) (order_desc (filter (filter_matches env db f) (issues_tbl db)))"

definition count_open :: "issue_db \<Rightarrow> nat" where
  "count_open db = length (filter (\<lambda>r. ir_status r = ''open'') (issues_tbl db))"

section \<open>Creating\<close>

text \<open>The row both kinds of creation insert, with the column default for the acceptance criteria.\<close>

definition new_issue_row ::
  "('a) issue_env_scheme \<Rightarrow> uuid \<Rightarrow> time \<Rightarrow> string \<Rightarrow> string \<Rightarrow> IssuePriority \<Rightarrow> string list \<Rightarrow> string \<Rightarrow> string option \<Rightarrow> issue_row" where
  "new_issue_row env i now title description priority labels creator source =
     \<lparr>ir_id = uuid_to_string env i, ir_title = title, ir_description = description, ir_status = ''open'',
      ir_priority = priority_as_str priority, ir_labels = join_with '','' labels, ir_creator = creator, ir_resolution = None,
      ir_agent_source = source, ir_created_at = to_rfc3339 env now, ir_updated_at = to_rfc3339 env now,
      ir_acceptance_criteria = ''[]''\<rparr>"

definition issue_create ::
  "('a) issue_env_scheme \<Rightarrow> issue_db \<Rightarrow> event_log \<Rightarrow> uuid \<Rightarrow> time \<Rightarrow> string \<Rightarrow> string \<Rightarrow> IssuePriority \<Rightarrow> string list \<Rightarrow> string \<Rightarrow> Issue issue_out" where
  "issue_create env db log i now title description priority labels creator =
     (case insert_issue_row (new_issue_row env i now title description priority labels creator None) db of
        None \<Rightarrow> (Inl IsSqlite, db, log)
      | Some db1 \<Rightarrow>
          log_then env db1 log now (IssueCreated i title creator (priority_as_str priority)) (\<lambda>log1.
            (Inr \<lparr>is_id = i, is_title = title, is_description = description, is_status = IOpen, is_priority = priority,
                  is_labels = labels, is_creator = creator, is_resolution = None, is_agent_source = None,
                  is_acceptance_criteria = [], is_created_at = now, is_updated_at = now\<rparr>, db1, log1)))"

section \<open>Similar titles\<close>

text \<open>The characters of a UTF-8 string, each as its bytes.\<close>

definition continuation_byte :: "char \<Rightarrow> bool" where
  "continuation_byte c = (let n = of_char c :: nat in 128 \<le> n \<and> n < 192)"

function utf8_chars :: "string \<Rightarrow> string list" where
  "utf8_chars [] = []"
| "utf8_chars (c # cs) = (c # takeWhile continuation_byte cs) # utf8_chars (dropWhile continuation_byte cs)"
  by pat_completeness auto
termination
  by (relation "measure length") (simp_all add: length_dropWhile_le le_imp_less_Suc)

text \<open>\<open>str::split\<close> with a predicate on characters: the pieces, each joined again.\<close>

fun split_pred :: "('c \<Rightarrow> bool) \<Rightarrow> 'c list \<Rightarrow> 'c list list" where
  "split_pred p [] = [[]]"
| "split_pred p (x # xs) =
     (if p x then [] # split_pred p xs else (case split_pred p xs of [] \<Rightarrow> [[x]] | w # ws \<Rightarrow> (x # w) # ws))"

definition split_words :: "(string \<Rightarrow> bool) \<Rightarrow> string \<Rightarrow> string list" where
  "split_words sep s = map concat (split_pred sep (utf8_chars s))"

definition title_stop_words :: "string list" where
  "title_stop_words = [''a'', ''an'', ''and'', ''are'', ''as'', ''at'', ''be'', ''but'', ''by'', ''for'', ''from'',
     ''has'', ''have'', ''in'', ''is'', ''it'', ''its'', ''of'', ''on'', ''or'', ''that'', ''the'',
     ''this'', ''to'', ''was'', ''will'', ''with'']"

definition tokenize_title :: "('a) issue_env_scheme \<Rightarrow> string \<Rightarrow> string set" where
  "tokenize_title env title =
     set (filter (\<lambda>w. w \<notin> set title_stop_words) (map (str_lowercase env)
       (filter (\<lambda>w. w \<noteq> []) (split_words (\<lambda>c. \<not> is_alphanumeric env c) title))))"

text \<open>The similarity as a fraction; \<open>>= 0.5\<close> is the comparison of twice the numerator.\<close>

definition jaccard_similarity :: "string set \<Rightarrow> string set \<Rightarrow> nat \<times> nat" where
  "jaccard_similarity a b =
     (if a = {} \<and> b = {} then (1, 1)
      else (let union = card (a \<union> b) in if union = 0 then (0, 1) else (card (a \<inter> b), union)))"

definition at_least_half :: "nat \<times> nat \<Rightarrow> bool" where
  "at_least_half q \<longleftrightarrow> snd q \<le> 2 * fst q"

fun first_similar :: "('a) issue_env_scheme \<Rightarrow> string set \<Rightarrow> (uuid \<times> string) list \<Rightarrow> uuid option" where
  "first_similar env q [] = None"
| "first_similar env q ((i, t) # cs) =
     (if at_least_half (jaccard_similarity q (tokenize_title env t)) then Some i else first_similar env q cs)"

text \<open>The method of the store, over the rows in progress, and the function over issues the server fetched.\<close>

definition store_find_similar :: "('a) issue_env_scheme \<Rightarrow> issue_db \<Rightarrow> string \<Rightarrow> uuid option" where
  "store_find_similar env db title =
     (let candidates = List.map_filter (\<lambda>r. map_option (\<lambda>i. (i, ir_title r)) (uuid_from_str env (ir_id r)))
            (filter (\<lambda>r. ir_status r \<in> {''open'', ''in_progress''}) (issues_tbl db));
          q = tokenize_title env title
      in if q = {} then None else first_similar env q candidates)"

definition find_similar_open_issue :: "('a) issue_env_scheme \<Rightarrow> Issue list \<Rightarrow> string \<Rightarrow> uuid option" where
  "find_similar_open_issue env issues title =
     (let q = tokenize_title env title
      in if q = {} then None
         else first_similar env q (map (\<lambda>x. (is_id x, is_title x)) (filter (\<lambda>x. is_status x = IOpen \<or> is_status x = IInProgress) issues)))"

section \<open>Issues created by agents\<close>

definition increment_agent_rate_limit ::
  "('a) issue_env_scheme \<Rightarrow> issue_db \<Rightarrow> time \<Rightarrow> string \<Rightarrow> (IssueError, nat) result \<times> issue_db" where
  "increment_agent_rate_limit env db now agent =
     (let k = (agent, hour_bucket env now);
          n = (case map_of (rate_tbl db) k of None \<Rightarrow> 1 | Some c \<Rightarrow> c + 1);
          db1 = db\<lparr>rate_tbl := AList.update k n (rate_tbl db)\<rparr>
      in (if n < 2 ^ 32 then Inr n else Inl IsSqlite, db1))"

definition agent_issue_count_this_hour :: "('a) issue_env_scheme \<Rightarrow> issue_db \<Rightarrow> time \<Rightarrow> string \<Rightarrow> nat" where
  "agent_issue_count_this_hour env db now agent =
     (case map_of (rate_tbl db) (agent, hour_bucket env now) of
        None \<Rightarrow> 0 | Some c \<Rightarrow> if c < 2 ^ 32 then c else 0)"

definition create_by_agent ::
  "('a) issue_env_scheme \<Rightarrow> issue_db \<Rightarrow> event_log \<Rightarrow> uuid \<Rightarrow> time \<Rightarrow> string \<Rightarrow> string \<Rightarrow> IssuePriority \<Rightarrow> string list \<Rightarrow> string \<Rightarrow>
   AgentSource \<Rightarrow> nat \<Rightarrow> (Issue \<times> uuid option) issue_out" where
  "create_by_agent env db log i now title description priority labels agent source max_per_hour =
     (case increment_agent_rate_limit env db now agent of
        (Inl e, db1) \<Rightarrow> (Inl e, db1, log)
      | (Inr cnt, db1) \<Rightarrow>
          if cnt > max_per_hour
          then (Inl (IsRateLimitExceeded agent cnt max_per_hour),
                db1\<lparr>rate_tbl := AList.update (agent, hour_bucket env now) (cnt - 1) (rate_tbl db1)\<rparr>, log)
          else
            (let dup = store_find_similar env db1 title
             in case insert_issue_row (new_issue_row env i now title description priority labels agent (Some (source_to_json env source))) db1 of
                  None \<Rightarrow> (Inl IsSqlite, db1, log)
                | Some db2 \<Rightarrow>
                    log_then env db2 log now (IssueCreated i title agent (priority_as_str priority)) (\<lambda>log1.
                      (Inr (\<lparr>is_id = i, is_title = title, is_description = description, is_status = IOpen, is_priority = priority,
                             is_labels = labels, is_creator = agent, is_resolution = None, is_agent_source = Some source,
                             is_acceptance_criteria = [], is_created_at = now, is_updated_at = now\<rparr>, dup), db2, log1))))"

definition set_agent_source :: "('a) issue_env_scheme \<Rightarrow> issue_db \<Rightarrow> uuid \<Rightarrow> string \<Rightarrow> issue_db" where
  "set_agent_source env db i json = update_issue_row (uuid_to_string env i) (\<lambda>r. r\<lparr>ir_agent_source := Some json\<rparr>) db"

definition set_acceptance_criteria :: "('a) issue_env_scheme \<Rightarrow> issue_db \<Rightarrow> uuid \<Rightarrow> string list \<Rightarrow> issue_db" where
  "set_acceptance_criteria env db i criteria =
     update_issue_row (uuid_to_string env i) (\<lambda>r. r\<lparr>ir_acceptance_criteria := criteria_to_json env criteria\<rparr>) db"

section \<open>Updating\<close>

definition changed_fields :: "Issue \<Rightarrow> string \<Rightarrow> string \<Rightarrow> IssuePriority \<Rightarrow> string list \<Rightarrow> string list" where
  "changed_fields x title description priority labels =
     (if title \<noteq> is_title x then [''title''] else []) @ (if description \<noteq> is_description x then [''description''] else []) @
     (if priority \<noteq> is_priority x then [''priority''] else []) @ (if labels \<noteq> is_labels x then [''labels''] else [])"

definition issue_update ::
  "('a) issue_env_scheme \<Rightarrow> issue_db \<Rightarrow> event_log \<Rightarrow> time \<Rightarrow> uuid \<Rightarrow> string option \<Rightarrow> string option \<Rightarrow> IssuePriority option \<Rightarrow>
   string list option \<Rightarrow> Issue issue_out" where
  "issue_update env db log now i title description priority labels =
     (case issue_get env db now i of
        Inl e \<Rightarrow> (Inl e, db, log)
      | Inr x \<Rightarrow>
          (let t = (case title of Some v \<Rightarrow> v | None \<Rightarrow> is_title x);
               d = (case description of Some v \<Rightarrow> v | None \<Rightarrow> is_description x);
               p = (case priority of Some v \<Rightarrow> v | None \<Rightarrow> is_priority x);
               l = (case labels of Some v \<Rightarrow> v | None \<Rightarrow> is_labels x);
               changed = changed_fields x t d p l;
               db1 = update_issue_row (uuid_to_string env i) (\<lambda>r. r\<lparr>ir_title := t, ir_description := d, ir_priority := priority_as_str p,
                       ir_labels := join_with '','' l, ir_updated_at := to_rfc3339 env now\<rparr>) db
           in if changed = [] then (issue_get env db1 now i, db1, log)
              else log_then env db1 log now (IssueUpdated i changed) (\<lambda>log1. (issue_get env db1 now i, db1, log1))))"

section \<open>State transitions\<close>

definition set_in_progress ::
  "('a) issue_env_scheme \<Rightarrow> issue_db \<Rightarrow> event_log \<Rightarrow> time \<Rightarrow> uuid \<Rightarrow> uuid \<Rightarrow> Issue issue_out" where
  "set_in_progress env db log now i w =
     (case issue_get env db now i of
        Inl e \<Rightarrow> (Inl e, db, log)
      | Inr x \<Rightarrow>
          if is_status x \<noteq> IOpen \<and> is_status x \<noteq> IInProgress
          then (Inl (IsInvalidTransition (issue_status_str (is_status x)) ''in_progress''), db, log)
          else
            (let k = uuid_to_string env i; wk = uuid_to_string env w;
                 db1 = update_issue_row k (\<lambda>r. r\<lparr>ir_status := ''in_progress'', ir_updated_at := to_rfc3339 env now\<rparr>) db;
                 db2 = (if list_ex (\<lambda>(a, b, _). a = k \<and> b = wk) (links_tbl db1) then db1
                        else db1\<lparr>links_tbl := links_tbl db1 @ [(k, wk, to_rfc3339 env now)]\<rparr>)
             in log_then env db2 log now (IssueLinkedToWorkspace i w) (\<lambda>log1. (issue_get env db2 now i, db2, log1))))"

definition issue_reopen :: "('a) issue_env_scheme \<Rightarrow> issue_db \<Rightarrow> event_log \<Rightarrow> time \<Rightarrow> uuid \<Rightarrow> Issue issue_out" where
  "issue_reopen env db log now i =
     (case issue_get env db now i of
        Inl e \<Rightarrow> (Inl e, db, log)
      | Inr x \<Rightarrow>
          if is_status x \<noteq> IInProgress then (Inl (IsInvalidTransition (issue_status_str (is_status x)) ''open''), db, log)
          else
            (let db1 = update_issue_row (uuid_to_string env i) (\<lambda>r. r\<lparr>ir_status := ''open'', ir_updated_at := to_rfc3339 env now\<rparr>) db
             in log_then env db1 log now (IssueUpdated i [''status'']) (\<lambda>log1. (issue_get env db1 now i, db1, log1))))"

definition issue_resolve ::
  "('a) issue_env_scheme \<Rightarrow> issue_db \<Rightarrow> event_log \<Rightarrow> time \<Rightarrow> uuid \<Rightarrow> string option \<Rightarrow> Issue issue_out" where
  "issue_resolve env db log now i version_id =
     (case issue_get env db now i of
        Inl e \<Rightarrow> (Inl e, db, log)
      | Inr x \<Rightarrow>
          if is_status x \<noteq> IInProgress \<and> is_status x \<noteq> IOpen
          then (Inl (IsInvalidTransition (issue_status_str (is_status x)) ''resolved''), db, log)
          else
            (let db1 = update_issue_row (uuid_to_string env i) (\<lambda>r. r\<lparr>ir_status := ''resolved'', ir_resolution := Some ''resolved'',
                   ir_updated_at := to_rfc3339 env now\<rparr>) db
             in log_then env db1 log now (IssueResolved i ''resolved'' version_id) (\<lambda>log1. (issue_get env db1 now i, db1, log1))))"

definition issue_close :: "('a) issue_env_scheme \<Rightarrow> issue_db \<Rightarrow> event_log \<Rightarrow> time \<Rightarrow> uuid \<Rightarrow> string \<Rightarrow> Issue issue_out" where
  "issue_close env db log now i resolution =
     (case issue_get env db now i of
        Inl e \<Rightarrow> (Inl e, db, log)
      | Inr x \<Rightarrow>
          (let db1 = update_issue_row (uuid_to_string env i) (\<lambda>r. r\<lparr>ir_status := ''closed'', ir_resolution := Some resolution,
                 ir_updated_at := to_rfc3339 env now\<rparr>) db
           in log_then env db1 log now (IssueClosed i resolution) (\<lambda>log1. (issue_get env db1 now i, db1, log1))))"

section \<open>Comments, dependencies and links\<close>

definition create_comment ::
  "('a) issue_env_scheme \<Rightarrow> issue_db \<Rightarrow> uuid \<Rightarrow> time \<Rightarrow> uuid \<Rightarrow> string \<Rightarrow> string \<Rightarrow> string \<Rightarrow> string option \<Rightarrow> uuid option \<Rightarrow>
   (IssueError, IssueComment) result \<times> issue_db" where
  "create_comment env db i now issue author body author_type author_id parent =
     (if list_ex (\<lambda>r. cm_id r = uuid_to_string env i) (comments_tbl db) then (Inl IsSqlite, db)
      else (Inr \<lparr>ic_id = i, ic_issue_id = issue, ic_author = author, ic_body = Some body, ic_author_type = author_type,
                 ic_author_id = author_id, ic_created_at = now, ic_parent_id = parent, ic_edited_at = None, ic_deleted_at = None\<rparr>,
            db\<lparr>comments_tbl := comments_tbl db @ [\<lparr>cm_id = uuid_to_string env i, cm_issue_id = uuid_to_string env issue,
                cm_author = author, cm_body = body, cm_created_at = to_rfc3339 env now, cm_author_type = author_type,
                cm_author_id = author_id, cm_parent_id = map_option (uuid_to_string env) parent, cm_edited_at = None,
                cm_deleted_at = None\<rparr>]\<rparr>))"

definition row_to_comment :: "('a) issue_env_scheme \<Rightarrow> comment_row \<Rightarrow> (IssueError, IssueComment) result" where
  "row_to_comment env r =
     (case (uuid_from_str env (cm_id r), uuid_from_str env (cm_issue_id r), from_rfc3339 env (cm_created_at r)) of
        (Some i, Some issue, Some t) \<Rightarrow>
          Inr \<lparr>ic_id = i, ic_issue_id = issue, ic_author = cm_author r, ic_body = Some (cm_body r), ic_author_type = cm_author_type r,
               ic_author_id = cm_author_id r, ic_created_at = t, ic_parent_id = Option.bind (cm_parent_id r) (uuid_from_str env),
               ic_edited_at = Option.bind (cm_edited_at r) (from_rfc3339 env),
               ic_deleted_at = Option.bind (cm_deleted_at r) (from_rfc3339 env)\<rparr>
      | _ \<Rightarrow> Inl IsSqlite)"

fun collect_results :: "('e, 'x) result list \<Rightarrow> ('e, 'x list) result" where
  "collect_results [] = Inr []"
| "collect_results (r # rs) = bind_result r (\<lambda>x. bind_result (collect_results rs) (\<lambda>xs. Inr (x # xs)))"

definition list_comments :: "('a) issue_env_scheme \<Rightarrow> issue_db \<Rightarrow> uuid \<Rightarrow> (IssueError, IssueComment list) result" where
  "list_comments env db issue =
     collect_results (map (row_to_comment env) (sort_key cm_created_at
       (filter (\<lambda>r. cm_issue_id r = uuid_to_string env issue) (comments_tbl db))))"

text \<open>\<open>UPDATE issue_comments .. WHERE id = ?\<close>, the number of rows, and the row read back.\<close>

definition change_comment ::
  "('a) issue_env_scheme \<Rightarrow> issue_db \<Rightarrow> uuid \<Rightarrow> (comment_row \<Rightarrow> comment_row) \<Rightarrow> (IssueError, IssueComment) result \<times> issue_db" where
  "change_comment env db i f =
     (let k = uuid_to_string env i
      in if \<not> list_ex (\<lambda>r. cm_id r = k) (comments_tbl db) then (Inl (IsNotFound i), db)
         else (let db1 = db\<lparr>comments_tbl := map (\<lambda>r. if cm_id r = k then f r else r) (comments_tbl db)\<rparr>
               in (case filter (\<lambda>r. cm_id r = k) (comments_tbl db1) of
                     [] \<Rightarrow> Inl IsSqlite | r # _ \<Rightarrow> row_to_comment env r, db1)))"

definition update_comment ::
  "('a) issue_env_scheme \<Rightarrow> issue_db \<Rightarrow> time \<Rightarrow> uuid \<Rightarrow> string \<Rightarrow> (IssueError, IssueComment) result \<times> issue_db" where
  "update_comment env db now i body =
     change_comment env db i (\<lambda>r. r\<lparr>cm_body := body, cm_edited_at := Some (to_rfc3339 env now)\<rparr>)"

definition soft_delete_comment ::
  "('a) issue_env_scheme \<Rightarrow> issue_db \<Rightarrow> time \<Rightarrow> uuid \<Rightarrow> (IssueError, IssueComment) result \<times> issue_db" where
  "soft_delete_comment env db now i = change_comment env db i (\<lambda>r. r\<lparr>cm_deleted_at := Some (to_rfc3339 env now)\<rparr>)"

definition add_dependency :: "('a) issue_env_scheme \<Rightarrow> issue_db \<Rightarrow> uuid \<Rightarrow> uuid \<Rightarrow> issue_db" where
  "add_dependency env db issue blocker =
     (let d = (uuid_to_string env issue, uuid_to_string env blocker)
      in if d \<in> set (deps_tbl db) then db else db\<lparr>deps_tbl := deps_tbl db @ [d]\<rparr>)"

definition list_blockers :: "('a) issue_env_scheme \<Rightarrow> issue_db \<Rightarrow> uuid \<Rightarrow> uuid list" where
  "list_blockers env db issue =
     List.map_filter (\<lambda>(_, d). uuid_from_str env d) (filter (\<lambda>(i, _). i = uuid_to_string env issue) (deps_tbl db))"

definition linked_workspaces :: "('a) issue_env_scheme \<Rightarrow> issue_db \<Rightarrow> uuid \<Rightarrow> uuid list" where
  "linked_workspaces env db issue =
     List.map_filter (\<lambda>(_, w, _). uuid_from_str env w)
       (sort_key (\<lambda>(_, _, t). t) (filter (\<lambda>(i, _, _). i = uuid_to_string env issue) (links_tbl db)))"

end
