(* ===== verification/Issue_Laws.thy ===== *)
theory Issue_Laws
  imports Issue
begin

text \<open>
  Properties of the issue store: what each operation makes of the rows, the life cycle of an
  issue along any sequence of operations, the rate limit of agents and the label filter.
\<close>

section \<open>Rows by identifier\<close>

definition issue_rows :: "issue_db \<Rightarrow> string \<Rightarrow> issue_row option" where
  "issue_rows db = map_of (map (\<lambda>r. (ir_id r, r)) (issues_tbl db))"

lemma issue_get_rows:
  "issue_get env db now i = (case issue_rows db (uuid_to_string env i) of None \<Rightarrow> Inl (IsNotFound i) | Some r \<Rightarrow> Inr (row_to_issue env now r))"
proof -
  have "(case filter (\<lambda>r. ir_id r = k) rs of [] \<Rightarrow> Inl e | r # _ \<Rightarrow> Inr (g r)) =
      (case map_of (map (\<lambda>r. (ir_id r, r)) rs) k of None \<Rightarrow> Inl e | Some r \<Rightarrow> Inr (g r))" for k rs e and g :: "issue_row \<Rightarrow> Issue"
    by (induction rs) auto
  then show ?thesis by (simp add: issue_get_def issue_rows_def)
qed

lemma issue_rows_id: "issue_rows db k = Some r \<Longrightarrow> ir_id r = k \<and> r \<in> set (issues_tbl db)"
  by (auto simp: issue_rows_def dest!: map_of_SomeD)

lemma issue_rows_update:
  assumes "\<And>r. ir_id (f r) = ir_id r"
  shows "issue_rows (update_issue_row k f db) = (issue_rows db)(k := map_option f (issue_rows db k))"
proof -
  have "map_of (map (\<lambda>r. (ir_id r, r)) (map (\<lambda>r. if ir_id r = k then f r else r) rs)) =
      (map_of (map (\<lambda>r. (ir_id r, r)) rs))(k := map_option f (map_of (map (\<lambda>r. (ir_id r, r)) rs) k))" for rs
    by (induction rs) (auto simp: assms fun_eq_iff)
  then show ?thesis by (simp add: issue_rows_def update_issue_row_def)
qed

lemma issue_rows_insert:
  "insert_issue_row r db = (if issue_rows db (ir_id r) = None then Some (db\<lparr>issues_tbl := issues_tbl db @ [r]\<rparr>) else None)"
proof -
  have "list_ex (\<lambda>r'. ir_id r' = k) (issues_tbl db) \<longleftrightarrow> issue_rows db k \<noteq> None" for k
    by (auto simp: issue_rows_def map_of_eq_None_iff list_ex_iff image_iff)
  then show ?thesis by (simp add: insert_issue_row_def)
qed

lemma issue_rows_append:
  "issue_rows db (ir_id r) = None \<Longrightarrow> issue_rows (db\<lparr>issues_tbl := issues_tbl db @ [r]\<rparr>) = (issue_rows db)(ir_id r \<mapsto> r)"
  by (auto simp: issue_rows_def fun_eq_iff map_add_def split: option.splits)

lemma issue_rows_cong: "issues_tbl db = issues_tbl db' \<Longrightarrow> issue_rows db = issue_rows db'"
  by (simp add: issue_rows_def)

section \<open>Well-formed databases\<close>

text \<open>What the store relies on: the codecs of its columns.\<close>

definition issue_codecs :: "('a) issue_env_scheme \<Rightarrow> bool" where
  "issue_codecs env \<longleftrightarrow>
     (\<forall>i. uuid_from_str env (uuid_to_string env i) = Some i) \<and> (\<forall>t. from_rfc3339 env (to_rfc3339 env t) = Some t) \<and>
     (\<forall>a. source_from_json env (source_to_json env a) = Some a) \<and>
     (\<forall>c. criteria_from_json env (criteria_to_json env c) = Some c) \<and> criteria_from_json env ''[]'' = Some []"

lemma uuid_to_string_inj: "issue_codecs env \<Longrightarrow> uuid_to_string env i = uuid_to_string env j \<longleftrightarrow> i = j"
  by (metis issue_codecs_def option.inject)

lemma status_roundtrip [simp]: "issue_status_from_db_str (issue_status_str s) = Some s"
  by (cases s) (simp_all add: issue_status_from_db_str_def)

lemma priority_roundtrip [simp]: "priority_from_db_str (priority_as_str p) = Some p"
  by (cases p) (simp_all add: priority_from_db_str_def)

lemma status_literals [simp]:
  "issue_status_from_db_str ''open'' = Some IOpen" "issue_status_from_db_str ''in_progress'' = Some IInProgress"
  "issue_status_from_db_str ''resolved'' = Some IResolved" "issue_status_from_db_str ''closed'' = Some IClosed"
  by (simp_all add: issue_status_from_db_str_def)

definition wf_issue_row :: "('a) issue_env_scheme \<Rightarrow> issue_row \<Rightarrow> bool" where
  "wf_issue_row env r \<longleftrightarrow> (\<exists>i. ir_id r = uuid_to_string env i) \<and> (\<exists>s. ir_status r = issue_status_str s) \<and>
     (\<exists>p. ir_priority r = priority_as_str p) \<and> (\<exists>t. ir_created_at r = to_rfc3339 env t) \<and> (\<exists>t. ir_updated_at r = to_rfc3339 env t)"

definition wf_issues :: "('a) issue_env_scheme \<Rightarrow> issue_db \<Rightarrow> bool" where
  "wf_issues env db \<longleftrightarrow> issue_codecs env \<and> distinct (map ir_id (issues_tbl db)) \<and> (\<forall>r\<in>set (issues_tbl db). wf_issue_row env r)"

text \<open>The issues the database holds, by identifier; time stamps that parse make the reading time irrelevant.\<close>

definition issue_view :: "('a) issue_env_scheme \<Rightarrow> issue_db \<Rightarrow> uuid \<Rightarrow> Issue option" where
  "issue_view env db i = map_option (row_to_issue env 0) (issue_rows db (uuid_to_string env i))"

lemma row_to_issue_now: "issue_codecs env \<Longrightarrow> wf_issue_row env r \<Longrightarrow> row_to_issue env now r = row_to_issue env 0 r"
  by (auto simp: row_to_issue_def wf_issue_row_def issue_codecs_def)

lemma issue_get_view:
  assumes "wf_issues env db"
  shows "issue_get env db now i = (case issue_view env db i of None \<Rightarrow> Inl (IsNotFound i) | Some x \<Rightarrow> Inr x)"
proof (cases "issue_rows db (uuid_to_string env i)")
  case (Some r)
  with issue_rows_id [OF Some] assms have "row_to_issue env now r = row_to_issue env 0 r"
    by (auto simp: wf_issues_def intro: row_to_issue_now)
  with Some show ?thesis by (simp add: issue_get_rows issue_view_def)
qed (simp add: issue_get_rows issue_view_def)

lemma row_to_issue_id: "issue_codecs env \<Longrightarrow> ir_id r = uuid_to_string env i \<Longrightarrow> is_id (row_to_issue env now r) = i"
  by (simp add: row_to_issue_def issue_codecs_def)

lemma wf_update_issue_row:
  assumes "wf_issues env db" "\<And>r. ir_id (f r) = ir_id r" "\<And>r. wf_issue_row env r \<Longrightarrow> wf_issue_row env (f r)"
  shows "wf_issues env (update_issue_row k f db)"
proof -
  have eq: "map (ir_id \<circ> (\<lambda>r. if ir_id r = k then f r else r)) (issues_tbl db) = map ir_id (issues_tbl db)"
    by (rule map_cong) (auto simp: assms(2))
  have "distinct (map (ir_id \<circ> (\<lambda>r. if ir_id r = k then f r else r)) (issues_tbl db))"
    unfolding eq using assms(1) by (simp add: wf_issues_def)
  with assms show ?thesis by (auto simp: wf_issues_def update_issue_row_def)
qed

lemma view_update_issue_row:
  assumes "issue_codecs env" "\<And>r. ir_id (f r) = ir_id r"
  shows "issue_view env (update_issue_row (uuid_to_string env i) f db) =
    (issue_view env db)(i := map_option (row_to_issue env 0) (map_option f (issue_rows db (uuid_to_string env i))))"
  by (rule ext) (simp add: issue_view_def issue_rows_update assms(2) uuid_to_string_inj [OF assms(1)])

lemma wf_insert_issue_row:
  assumes "wf_issues env db" "wf_issue_row env r" "insert_issue_row r db = Some db'"
  shows "wf_issues env db'" "issue_rows db' = (issue_rows db)(ir_id r \<mapsto> r)" "issue_rows db (ir_id r) = None"
proof -
  from assms(3) have n: "issue_rows db (ir_id r) = None" and db': "db' = db\<lparr>issues_tbl := issues_tbl db @ [r]\<rparr>"
    by (simp_all add: issue_rows_insert split: if_splits)
  have "ir_id r \<notin> set (map ir_id (issues_tbl db))" using n by (simp add: issue_rows_def map_of_eq_None_iff image_image)
  with assms(1,2) show "wf_issues env db'" by (auto simp: wf_issues_def db')
  show "issue_rows db' = (issue_rows db)(ir_id r \<mapsto> r)" unfolding db' by (rule issue_rows_append [OF n])
  show "issue_rows db (ir_id r) = None" by (rule n)
qed

section \<open>The life cycle\<close>

inductive lifecycle :: "IssueStatus \<Rightarrow> IssueStatus \<Rightarrow> bool" where
  lc_start: "s \<in> {IOpen, IInProgress} \<Longrightarrow> lifecycle s IInProgress"
| lc_back: "lifecycle IInProgress IOpen"
| lc_resolve: "s \<in> {IOpen, IInProgress} \<Longrightarrow> lifecycle s IResolved"
| lc_close: "lifecycle s IClosed"

inductive_simps lifecycle_simps: "lifecycle s s'"

inductive issue_step :: "('a) issue_env_scheme \<Rightarrow> issue_db \<times> event_log \<Rightarrow> issue_db \<times> event_log \<Rightarrow> bool" for env where
  st_create: "issue_step env (db, log) (snd (issue_create env db log i now title descr priority labels creator))"
| st_agent: "issue_step env (db, log) (snd (create_by_agent env db log i now title descr priority labels agent source m))"
| st_source: "issue_step env (db, log) (set_agent_source env db i json, log)"
| st_criteria: "issue_step env (db, log) (set_acceptance_criteria env db i criteria, log)"
| st_update: "issue_step env (db, log) (snd (issue_update env db log now i title' descr' priority' labels'))"
| st_progress: "issue_step env (db, log) (snd (set_in_progress env db log now i w))"
| st_reopen: "issue_step env (db, log) (snd (issue_reopen env db log now i))"
| st_resolve: "issue_step env (db, log) (snd (issue_resolve env db log now i v))"
| st_close: "issue_step env (db, log) (snd (issue_close env db log now i resolution))"
| st_comment: "issue_step env (db, log) (snd (create_comment env db i now issue author body atype aid parent), log)"
| st_edit: "issue_step env (db, log) (snd (update_comment env db now i body), log)"
| st_delete: "issue_step env (db, log) (snd (soft_delete_comment env db now i), log)"
| st_depend: "issue_step env (db, log) (add_dependency env db i j, log)"

text \<open>No issue is lost, and each status is kept or changed along the life cycle.\<close>

definition evolves :: "('a) issue_env_scheme \<Rightarrow> issue_db \<Rightarrow> issue_db \<Rightarrow> bool" where
  "evolves env db db' \<longleftrightarrow> wf_issues env db' \<and>
     (\<forall>i x. issue_view env db i = Some x \<longrightarrow>
        (\<exists>x'. issue_view env db' i = Some x' \<and> is_creator x' = is_creator x \<and> is_created_at x' = is_created_at x \<and>
           (is_status x' = is_status x \<or> lifecycle (is_status x) (is_status x'))))"

text \<open>A row change that leaves the identity of the issue alone.\<close>

definition keeps_identity :: "(issue_row \<Rightarrow> issue_row) \<Rightarrow> bool" where
  "keeps_identity f \<longleftrightarrow> (\<forall>r. ir_id (f r) = ir_id r \<and> ir_creator (f r) = ir_creator r \<and> ir_created_at (f r) = ir_created_at r)"

lemma evolves_same: "wf_issues env db \<Longrightarrow> issues_tbl db' = issues_tbl db \<Longrightarrow> evolves env db db'"
  using issue_rows_cong [of db' db] by (auto simp: evolves_def wf_issues_def issue_view_def)

lemma evolves_row:
  assumes "wf_issues env db" "keeps_identity f" "\<And>r. wf_issue_row env r \<Longrightarrow> wf_issue_row env (f r)"
    "\<And>r. issue_rows db (uuid_to_string env i) = Some r \<Longrightarrow>
       is_status (row_to_issue env 0 (f r)) = is_status (row_to_issue env 0 r) \<or>
       lifecycle (is_status (row_to_issue env 0 r)) (is_status (row_to_issue env 0 (f r)))"
  shows "evolves env db (update_issue_row (uuid_to_string env i) f db)"
proof -
  have c: "issue_codecs env" using assms(1) by (simp add: wf_issues_def)
  have i: "ir_id (f r) = ir_id r" for r using assms(2) by (simp add: keeps_identity_def)
  have "is_creator (row_to_issue env 0 (f r)) = is_creator (row_to_issue env 0 r)"
    "is_created_at (row_to_issue env 0 (f r)) = is_created_at (row_to_issue env 0 r)" for r
    using assms(2) by (simp_all add: keeps_identity_def row_to_issue_def)
  then show ?thesis
    unfolding evolves_def view_update_issue_row [OF c i]
    using wf_update_issue_row [OF assms(1) i assms(3)] assms(4) by (auto simp: issue_view_def)
qed

lemma evolves_insert:
  assumes "wf_issues env db" "wf_issue_row env r" "insert_issue_row r db = Some db'"
  shows "evolves env db db'"
  using wf_insert_issue_row [OF assms] by (auto simp: evolves_def issue_view_def)

lemma log_then_state: "(\<And>l. fst (snd (k l)) = db) \<Longrightarrow> fst (snd (log_then env db log now kind k)) = db"
  by (simp add: log_then_def split: sum.split prod.split)

lemma wf_row_status: "wf_issue_row env r \<Longrightarrow> wf_issue_row env (r\<lparr>ir_status := issue_status_str s, ir_updated_at := to_rfc3339 env t\<rparr>)"
  "wf_issue_row env r \<Longrightarrow> wf_issue_row env (r\<lparr>ir_status := issue_status_str s, ir_resolution := v, ir_updated_at := to_rfc3339 env t\<rparr>)"
  by (auto simp: wf_issue_row_def)

lemmas wf_row_statuses =
  wf_row_status [where s = IOpen, simplified] wf_row_status [where s = IInProgress, simplified]
  wf_row_status [where s = IResolved, simplified] wf_row_status [where s = IClosed, simplified]

lemma issue_get_status:
  "issue_get env db now i = Inr x \<Longrightarrow> issue_rows db (uuid_to_string env i) = Some r \<Longrightarrow> is_status (row_to_issue env 0 r) = is_status x"
  by (auto simp: issue_get_rows row_to_issue_def)

lemma status_of_row: "is_status (row_to_issue env t r) = (case issue_status_from_db_str (ir_status r) of Some s \<Rightarrow> s | None \<Rightarrow> IOpen)"
  by (simp add: row_to_issue_def)

lemma wf_new_issue_row [simp]: "wf_issue_row env (new_issue_row env i now title descr priority labels creator source)"
proof -
  have "new_issue_row env i now title descr priority labels creator source =
      (new_issue_row env i now title descr priority labels creator source)\<lparr>ir_status := issue_status_str IOpen\<rparr>"
    by (simp add: new_issue_row_def)
  then show ?thesis by (metis (no_types, lifting) issue_status_str.simps(1) new_issue_row_def issue_row.select_convs wf_issue_row_def)
qed

lemma evolves_create:
  assumes "wf_issues env db"
  shows "evolves env db (fst (snd (issue_create env db log i now title descr priority labels creator)))"
proof (cases "insert_issue_row (new_issue_row env i now title descr priority labels creator None) db")
  case (Some db')
  from evolves_insert [OF assms wf_new_issue_row Some] Some show ?thesis by (simp add: issue_create_def log_then_state)
qed (simp add: issue_create_def evolves_same assms)

lemma evolves_trans_same: "issues_tbl db1 = issues_tbl db \<Longrightarrow> evolves env db1 db2 \<Longrightarrow> evolves env db db2"
  using issue_rows_cong [of db1 db] by (simp add: evolves_def issue_view_def)

lemma increment_keeps: "increment_agent_rate_limit env db now agent = (r, db1) \<Longrightarrow> issues_tbl db1 = issues_tbl db"
  by (auto simp: increment_agent_rate_limit_def Let_def)

lemma evolves_agent:
  assumes "wf_issues env db"
  shows "evolves env db (fst (snd (create_by_agent env db log i now title descr priority labels agent source m)))"
proof -
  obtain r db1 where inc: "increment_agent_rate_limit env db now agent = (r, db1)" by fastforce
  have tb: "issues_tbl db1 = issues_tbl db" by (rule increment_keeps [OF inc])
  have wf1: "wf_issues env db1" using assms tb by (simp add: wf_issues_def)
  show ?thesis
  proof (cases r)
    case (Inl e)
    with inc tb show ?thesis by (simp add: create_by_agent_def evolves_same assms)
  next
    case (Inr n)
    let ?row = "new_issue_row env i now title descr priority labels agent (Some (source_to_json env source))"
    show ?thesis
    proof (cases "n > m")
      case True
      with inc Inr tb show ?thesis by (simp add: create_by_agent_def evolves_same assms)
    next
      case False
      show ?thesis
      proof (cases "insert_issue_row ?row db1")
        case None
        with inc Inr False tb show ?thesis by (simp add: create_by_agent_def evolves_same assms)
      next
        case (Some db2)
        have "evolves env db db2" by (rule evolves_trans_same [OF tb evolves_insert [OF wf1 wf_new_issue_row Some]])
        with inc Inr False Some show ?thesis by (simp add: create_by_agent_def log_then_state)
      qed
    qed
  qed
qed

text \<open>A status change guarded by the status that was read.\<close>

lemma evolves_status:
  assumes "wf_issues env db" "issue_get env db now i = Inr x" "lifecycle (is_status x) s"
    "keeps_identity f" "\<And>r. wf_issue_row env r \<Longrightarrow> wf_issue_row env (f r)" "\<And>r. ir_status (f r) = issue_status_str s"
  shows "evolves env db (update_issue_row (uuid_to_string env i) f db)"
proof (rule evolves_row [OF assms(1,4,5)])
  fix r assume "issue_rows db (uuid_to_string env i) = Some r"
  from issue_get_status [OF assms(2) this] assms(3,6)
  show "is_status (row_to_issue env 0 (f r)) = is_status (row_to_issue env 0 r) \<or>
      lifecycle (is_status (row_to_issue env 0 r)) (is_status (row_to_issue env 0 (f r)))" by (simp add: status_of_row)
qed

lemma evolves_update:
  assumes "wf_issues env db"
  shows "evolves env db (fst (snd (issue_update env db log now i t d p l)))"
proof (cases "issue_get env db now i")
  case (Inr x)
  have "evolves env db (update_issue_row (uuid_to_string env i) (\<lambda>r. r\<lparr>ir_title := t', ir_description := d', ir_priority := priority_as_str p',
      ir_labels := l', ir_updated_at := to_rfc3339 env now\<rparr>) db)" for t' d' p' l'
    by (rule evolves_row [OF assms]) (auto simp: wf_issue_row_def status_of_row keeps_identity_def)
  with Inr show ?thesis by (simp add: issue_update_def Let_def log_then_state)
qed (simp add: issue_update_def evolves_same assms)

lemma evolves_links: "evolves env db db1 \<Longrightarrow> evolves env db (db1\<lparr>links_tbl := x\<rparr>)"
  by (simp add: evolves_def wf_issues_def issue_view_def issue_rows_def)

lemma evolves_transitions:
  assumes "wf_issues env db"
  shows "evolves env db (fst (snd (set_in_progress env db log now i w)))" "evolves env db (fst (snd (issue_reopen env db log now i)))"
    "evolves env db (fst (snd (issue_resolve env db log now i v)))" "evolves env db (fst (snd (issue_close env db log now i resolution)))"
proof -
  note st = evolves_status [OF assms]
  show "evolves env db (fst (snd (set_in_progress env db log now i w)))"
  proof (cases "issue_get env db now i")
    case (Inr x)
    show ?thesis
    proof (cases "is_status x \<noteq> IOpen \<and> is_status x \<noteq> IInProgress")
      case False
      then have "lifecycle (is_status x) IInProgress" by (auto simp: lifecycle_simps)
      from st [OF Inr this, of "\<lambda>r. r\<lparr>ir_status := ''in_progress'', ir_updated_at := to_rfc3339 env now\<rparr>"] Inr False
      show ?thesis by (auto simp: set_in_progress_def Let_def log_then_state keeps_identity_def wf_row_statuses evolves_links)
    qed (simp add: set_in_progress_def Inr evolves_same assms)
  qed (simp add: set_in_progress_def evolves_same assms)
  show "evolves env db (fst (snd (issue_reopen env db log now i)))"
  proof (cases "issue_get env db now i")
    case (Inr x)
    have "lifecycle IInProgress IOpen" by (rule lc_back)
    with st [OF Inr, of IOpen "\<lambda>r. r\<lparr>ir_status := ''open'', ir_updated_at := to_rfc3339 env now\<rparr>"] Inr
    show ?thesis by (auto simp: issue_reopen_def Let_def log_then_state keeps_identity_def wf_row_statuses evolves_same assms)
  qed (simp add: issue_reopen_def evolves_same assms)
  show "evolves env db (fst (snd (issue_resolve env db log now i v)))"
  proof (cases "issue_get env db now i")
    case (Inr x)
    show ?thesis
    proof (cases "is_status x \<noteq> IInProgress \<and> is_status x \<noteq> IOpen")
      case False
      then have "lifecycle (is_status x) IResolved" by (auto simp: lifecycle_simps)
      from st [OF Inr this, of "\<lambda>r. r\<lparr>ir_status := ''resolved'', ir_resolution := Some ''resolved'', ir_updated_at := to_rfc3339 env now\<rparr>"] Inr False
      show ?thesis by (auto simp: issue_resolve_def Let_def log_then_state keeps_identity_def wf_row_statuses)
    qed (simp add: issue_resolve_def Inr evolves_same assms)
  qed (simp add: issue_resolve_def evolves_same assms)
  show "evolves env db (fst (snd (issue_close env db log now i resolution)))"
  proof (cases "issue_get env db now i")
    case (Inr x)
    from st [OF Inr lc_close, of "\<lambda>r. r\<lparr>ir_status := ''closed'', ir_resolution := Some resolution, ir_updated_at := to_rfc3339 env now\<rparr>"] Inr
    show ?thesis by (simp add: issue_close_def Let_def log_then_state keeps_identity_def wf_row_statuses)
  qed (simp add: issue_close_def evolves_same assms)
qed

lemma comment_keeps:
  "issues_tbl (snd (create_comment env db i now issue author body atype aid parent)) = issues_tbl db"
  "issues_tbl (snd (change_comment env db i f)) = issues_tbl db" "issues_tbl (add_dependency env db i j) = issues_tbl db"
  by (simp_all add: create_comment_def change_comment_def add_dependency_def Let_def)

lemma issue_step_evolves:
  assumes "wf_issues env (fst st)" "issue_step env st st'"
  shows "evolves env (fst st) (fst st')"
  using assms(2,1)
proof cases
  case (st_source db log i json)
  have "evolves env db (set_agent_source env db i json)"
    unfolding set_agent_source_def using assms(1) st_source by (intro evolves_row) (auto simp: wf_issue_row_def status_of_row keeps_identity_def)
  with st_source show ?thesis by simp
next
  case (st_criteria db log i criteria)
  have "evolves env db (set_acceptance_criteria env db i criteria)"
    unfolding set_acceptance_criteria_def using assms(1) st_criteria by (intro evolves_row) (auto simp: wf_issue_row_def status_of_row keeps_identity_def)
  with st_criteria show ?thesis by simp
qed (simp_all add: evolves_create evolves_agent evolves_update evolves_transitions evolves_same comment_keeps
    update_comment_def soft_delete_comment_def)

section \<open>Creating an issue\<close>

text \<open>Labels that the column can represent: without commas, and not a single empty label.\<close>

definition plain_labels :: "string list \<Rightarrow> bool" where
  "plain_labels ls \<longleftrightarrow> ls \<noteq> [[]] \<and> (\<forall>l\<in>set ls. CHR '','' \<notin> set l)"

lemma join_eq_Nil: "join_with '','' ls = [] \<Longrightarrow> ls = [] \<or> ls = [[]]"
  by (induction ls rule: induct_list012) simp_all

lemma labels_roundtrip: "plain_labels ls \<Longrightarrow> labels_of (join_with '','' ls) = ls"
  using split_join [of ls "CHR '',''"] join_eq_Nil [of ls]
  by (cases "ls = []") (auto simp: plain_labels_def labels_of_def)

lemma log_then_ok:
  assumes "wf_log env log"
  obtains log' where "log_then env db log now kind k = k log'" "wf_log env log'"
    "map ev_kind (log_events env log') = map ev_kind (log_events env log) @ [kind]"
proof -
  obtain e log' where "elog_append env log now kind = Inr (e, log')" "wf_log env log'"
    "log_events env log' = log_events env log @ [e]" "ev_kind e = kind" by (rule elog.appendE [OF assms])
  with that show ?thesis by (simp add: log_then_def)
qed

section \<open>The rate limit\<close>

record agent_request =
  rq_id :: uuid
  rq_now :: time
  rq_title :: string
  rq_description :: string
  rq_priority :: IssuePriority
  rq_labels :: "string list"
  rq_agent :: string
  rq_source :: AgentSource

definition run_request :: "('a) issue_env_scheme \<Rightarrow> nat \<Rightarrow> issue_db \<Rightarrow> event_log \<Rightarrow> agent_request \<Rightarrow> (Issue \<times> uuid option) issue_out" where
  "run_request env m db log q =
     create_by_agent env db log (rq_id q) (rq_now q) (rq_title q) (rq_description q) (rq_priority q) (rq_labels q) (rq_agent q) (rq_source q) m"

text \<open>The results of a sequence of requests, one after the other.\<close>

fun agent_run :: "('a) issue_env_scheme \<Rightarrow> nat \<Rightarrow> issue_db \<Rightarrow> event_log \<Rightarrow> agent_request list \<Rightarrow> (IssueError, Issue \<times> uuid option) result list" where
  "agent_run env m db log [] = []"
| "agent_run env m db log (q # qs) = (let (r, db1, log1) = run_request env m db log q in r # agent_run env m db1 log1 qs)"

definition rq_key :: "('a) issue_env_scheme \<Rightarrow> agent_request \<Rightarrow> string \<times> string" where
  "rq_key env q = (rq_agent q, hour_bucket env (rq_now q))"

definition rate_of :: "issue_db \<Rightarrow> string \<times> string \<Rightarrow> nat" where
  "rate_of db k = (case map_of (rate_tbl db) k of None \<Rightarrow> 0 | Some n \<Rightarrow> n)"

lemma increment_ok:
  assumes "rate_of db k < 2 ^ 32 - 1" "k = (agent, hour_bucket env now)"
  obtains db1 where "increment_agent_rate_limit env db now agent = (Inr (rate_of db k + 1), db1)"
    "rate_of db1 = (rate_of db)(k := rate_of db k + 1)" "issues_tbl db1 = issues_tbl db" "map_of (rate_tbl db1) k = Some (rate_of db k + 1)"
proof (rule that)
  let ?db1 = "db\<lparr>rate_tbl := AList.update k (rate_of db k + 1) (rate_tbl db)\<rparr>"
  show "increment_agent_rate_limit env db now agent = (Inr (rate_of db k + 1), ?db1)"
    using assms(1) unfolding increment_agent_rate_limit_def assms(2) [symmetric]
    by (simp add: Let_def rate_of_def split: option.splits)
  show "rate_of ?db1 = (rate_of db)(k := rate_of db k + 1)" by (rule ext) (simp add: rate_of_def update_conv')
  show "map_of (rate_tbl ?db1) k = Some (rate_of db k + 1)" by (simp add: update_conv')
qed simp

lemma run_request_refused:
  assumes "rate_of db (rq_key env q) = m" "m < 2 ^ 32 - 1"
  shows "\<exists>db'. run_request env m db log q = (Inl (IsRateLimitExceeded (rq_agent q) (m + 1) m), db', log) \<and>
    rate_of db' = rate_of db \<and> issues_tbl db' = issues_tbl db"
proof -
  let ?k = "rq_key env q"
  have "rate_of db ?k < 2 ^ 32 - 1" using assms by simp
  then obtain db1 where inc: "increment_agent_rate_limit env db (rq_now q) (rq_agent q) = (Inr (m + 1), db1)"
    "rate_of db1 = (rate_of db)(?k := m + 1)" "issues_tbl db1 = issues_tbl db"
    by (rule increment_ok [OF _ rq_key_def]) (simp add: assms(1))
  let ?db2 = "db1\<lparr>rate_tbl := AList.update ?k m (rate_tbl db1)\<rparr>"
  have "run_request env m db log q = (Inl (IsRateLimitExceeded (rq_agent q) (m + 1) m), ?db2, log)"
    using inc(1) by (simp add: run_request_def create_by_agent_def rq_key_def)
  moreover have "rate_of ?db2 = rate_of db"
  proof (rule ext)
    fix k' show "rate_of ?db2 k' = rate_of db k'"
      using fun_cong [OF inc(2), of k'] assms(1) by (cases "k' = ?k") (auto simp: rate_of_def update_conv' split: option.splits)
  qed
  ultimately show ?thesis using inc(3) by simp
qed

lemma run_request_accepted:
  assumes "rate_of db (rq_key env q) < m" "m < 2 ^ 32 - 1" "wf_log env log" "issue_rows db (uuid_to_string env (rq_id q)) = None"
  shows "\<exists>x db' log'. run_request env m db log q = (Inr x, db', log') \<and> wf_log env log' \<and>
    rate_of db' = (rate_of db)(rq_key env q := rate_of db (rq_key env q) + 1) \<and>
    (\<forall>k. k \<noteq> uuid_to_string env (rq_id q) \<longrightarrow> issue_rows db' k = issue_rows db k)"
proof -
  let ?k = "rq_key env q"
  have "rate_of db ?k < 2 ^ 32 - 1" using assms(1,2) by simp
  then obtain db1 where inc: "increment_agent_rate_limit env db (rq_now q) (rq_agent q) = (Inr (rate_of db ?k + 1), db1)"
    "rate_of db1 = (rate_of db)(?k := rate_of db ?k + 1)" "issues_tbl db1 = issues_tbl db"
    by (rule increment_ok [OF _ rq_key_def])
  let ?row = "new_issue_row env (rq_id q) (rq_now q) (rq_title q) (rq_description q) (rq_priority q) (rq_labels q) (rq_agent q) (Some (source_to_json env (rq_source q)))"
  let ?db2 = "db1\<lparr>issues_tbl := issues_tbl db1 @ [?row]\<rparr>"
  have rows: "issue_rows db1 = issue_rows db" by (rule issue_rows_cong [OF inc(3)])
  have id: "ir_id ?row = uuid_to_string env (rq_id q)" by (simp add: new_issue_row_def)
  have ins: "insert_issue_row ?row db1 = Some ?db2" by (simp add: issue_rows_insert id rows assms(4))
  have rows2: "issue_rows ?db2 = (issue_rows db)(uuid_to_string env (rq_id q) \<mapsto> ?row)"
    using issue_rows_append [of db1 ?row] by (simp add: id rows assms(4))
  have le: "\<not> rate_of db ?k + 1 > m" using assms(1) by simp
  obtain e log' where app: "elog_append env log (rq_now q) (IssueCreated (rq_id q) (rq_title q) (rq_agent q) (priority_as_str (rq_priority q))) = Inr (e, log')"
    "wf_log env log'" by (rule elog.appendE [OF assms(3)])
  have "\<exists>x. run_request env m db log q = (Inr x, ?db2, log')"
    using inc(1) ins app(1) le by (simp add: run_request_def create_by_agent_def Let_def log_then_def)
  moreover have "rate_of ?db2 = rate_of db1" by (simp add: rate_of_def fun_eq_iff)
  ultimately show ?thesis using inc(2) rows2 app(2) by auto
qed

lemma agent_run_successes:
  assumes "m < 2 ^ 32 - 1" "inj (uuid_to_string env)"
  shows "wf_log env log \<Longrightarrow> \<forall>k. rate_of db k \<le> m \<Longrightarrow> distinct (map rq_id qs) \<Longrightarrow>
    \<forall>q\<in>set qs. issue_rows db (uuid_to_string env (rq_id q)) = None \<Longrightarrow>
    length (filter (\<lambda>(q, r). rq_key env q = k \<and> \<not> isl r) (zip qs (agent_run env m db log qs))) =
      min (m - rate_of db k) (length (filter (\<lambda>q. rq_key env q = k) qs)) \<and>
    (\<forall>(q, r)\<in>set (zip qs (agent_run env m db log qs)). isl r \<longrightarrow> r = Inl (IsRateLimitExceeded (rq_agent q) (m + 1) m))"
proof (induction qs arbitrary: db log)
  case (Cons q qs)
  let ?k = "rq_key env q"
  show ?case
  proof (cases "rate_of db ?k = m")
    case True
    obtain db' where r: "run_request env m db log q = (Inl (IsRateLimitExceeded (rq_agent q) (m + 1) m), db', log)"
      "rate_of db' = rate_of db" "issues_tbl db' = issues_tbl db" using run_request_refused [OF True assms(1)] by blast
    have "issue_rows db' = issue_rows db" by (rule issue_rows_cong [OF r(3)])
    with Cons.IH [of log db'] Cons.prems r True show ?thesis by auto
  next
    case False
    with Cons.prems(2) have lt: "rate_of db ?k < m" by (metis le_neq_implies_less)
    obtain x db' log' where r: "run_request env m db log q = (Inr x, db', log')" "wf_log env log'"
      "rate_of db' = (rate_of db)(?k := rate_of db ?k + 1)"
      "\<forall>k. k \<noteq> uuid_to_string env (rq_id q) \<longrightarrow> issue_rows db' k = issue_rows db k"
      using run_request_accepted [OF lt assms(1) Cons.prems(1)] Cons.prems(4) by auto
    have "\<forall>p\<in>set qs. issue_rows db' (uuid_to_string env (rq_id p)) = None"
      using r(4) Cons.prems(3,4) injD [OF assms(2)] by (metis distinct.simps(2) image_eqI list.set_intros(2) list.simps(9) set_map)
    with Cons.IH [OF r(2), of db'] Cons.prems(2,3) lt r(1,3) show ?thesis by (auto split: if_splits)
  qed
qed simp

section \<open>The label filter\<close>

lemma like_percent: "sql_like (CHR ''%'' # q) s \<longleftrightarrow> (\<exists>a b. s = a @ b \<and> sql_like q b)"
proof (induction s)
  case (Cons c s)
  have "(\<exists>a b. c # s = a @ b \<and> sql_like q b) \<longleftrightarrow> sql_like q (c # s) \<or> (\<exists>a b. s = a @ b \<and> sql_like q b)"
    by (auto simp: Cons_eq_append_conv)
  with Cons show ?case by simp
qed simp

definition no_wildcard :: "string \<Rightarrow> bool" where
  "no_wildcard p \<longleftrightarrow> CHR ''%'' \<notin> set p \<and> CHR ''_'' \<notin> set p"

lemma like_literal:
  "no_wildcard p \<Longrightarrow> sql_like (p @ q) s \<longleftrightarrow> (\<exists>a b. s = a @ b \<and> to_lowercase a = to_lowercase p \<and> sql_like q b)"
proof (induction p arbitrary: s)
  case Nil
  then show ?case by (simp add: to_lowercase_def)
next
  case (Cons c p)
  then have p: "no_wildcard p" "c \<noteq> CHR ''%''" "c \<noteq> CHR ''_''" by (auto simp: no_wildcard_def)
  show ?case
  proof (cases s)
    case Nil
    with p show ?thesis by (auto simp: to_lowercase_def)
  next
    case (Cons d ds)
    have "sql_like ((c # p) @ q) s \<longleftrightarrow> ascii_lower d = ascii_lower c \<and> (\<exists>a b. ds = a @ b \<and> to_lowercase a = to_lowercase p \<and> sql_like q b)"
      using Cons Cons.IH [OF p(1)] p by auto
    also have "\<dots> \<longleftrightarrow> (\<exists>a b. s = a @ b \<and> to_lowercase a = to_lowercase (c # p) \<and> sql_like q b)"
    proof
      assume "ascii_lower d = ascii_lower c \<and> (\<exists>a b. ds = a @ b \<and> to_lowercase a = to_lowercase p \<and> sql_like q b)"
      then obtain a b where "ascii_lower d = ascii_lower c" "ds = a @ b" "to_lowercase a = to_lowercase p" "sql_like q b" by blast
      with Cons show "\<exists>a b. s = a @ b \<and> to_lowercase a = to_lowercase (c # p) \<and> sql_like q b"
        by (intro exI [of _ "d # a"] exI [of _ b]) (simp add: to_lowercase_def)
    qed (use Cons in \<open>auto simp: to_lowercase_def Cons_eq_append_conv\<close>)
    finally show ?thesis .
  qed
qed

lemma split_char_at: "split_char c (a @ c # b) = split_char c a @ split_char c b"
  by (induction a) (auto split: list.splits simp: split_char_nonempty)

lemma join_append: "xs \<noteq> [] \<Longrightarrow> ys \<noteq> [] \<Longrightarrow> join_with [c] (xs @ ys) = join_with [c] xs @ c # join_with [c] ys"
proof (induction xs rule: induct_list012)
  case (2 x)
  then show ?case by (cases ys) simp_all
qed simp_all

lemma ascii_lower_comma: "ascii_lower c = CHR '','' \<longleftrightarrow> c = CHR '',''"
proof (cases "65 \<le> (of_char c :: nat) \<and> (of_char c :: nat) \<le> 90")
  case True
  then have "of_char (ascii_lower c) = (of_char c + 32 :: nat)" by (simp add: ascii_lower_def Let_def)
  with True have "of_char (ascii_lower c) \<noteq> (44 :: nat)" "of_char c \<noteq> (44 :: nat)" by simp_all
  then show ?thesis by auto
next
  case False
  then have "ascii_lower c = c" unfolding ascii_lower_def Let_def by (rule if_not_P)
  then show ?thesis by simp
qed

lemma ascii_lower_comma_eq: "ascii_lower (CHR '','') = ascii_lower c \<longleftrightarrow> c = CHR '',''"
  using ascii_lower_comma [of c] ascii_lower_comma [of "CHR '',''"] by metis

lemma lower_comma: "to_lowercase a = to_lowercase l \<Longrightarrow> CHR '','' \<notin> set l \<Longrightarrow> CHR '','' \<notin> set a"
proof -
  assume a: "to_lowercase a = to_lowercase l" "CHR '','' \<notin> set l"
  have "CHR '','' \<in> set x \<longleftrightarrow> CHR '','' \<in> set (to_lowercase x)" for x
    by (induction x) (simp_all add: to_lowercase_def ascii_lower_comma eq_commute [of "CHR '',''"])
  with a show ?thesis by metis
qed

text \<open>Where a comma-separated column holds a label, by the three patterns.\<close>

lemma label_patterns:
  assumes "plain_labels ls" "no_wildcard l" "CHR '','' \<notin> set l" "s = join_with '','' ls" "ls \<noteq> []"
  shows "sql_like (l @ '',%'') s \<longleftrightarrow> (\<exists>x ys. ls = x # ys \<and> ys \<noteq> [] \<and> to_lowercase x = to_lowercase l)"
    and "sql_like (''%,'' @ l) s \<longleftrightarrow> (\<exists>x ys. ls = ys @ [x] \<and> ys \<noteq> [] \<and> to_lowercase x = to_lowercase l)"
    and "sql_like (''%,'' @ l @ '',%'') s \<longleftrightarrow>
      (\<exists>x ys zs. ls = ys @ x # zs \<and> ys \<noteq> [] \<and> zs \<noteq> [] \<and> to_lowercase x = to_lowercase l)"
proof -
  let ?c = "CHR '',''"
  have sp: "split_char ?c s = ls" using assms(1,4,5) by (simp add: plain_labels_def split_join)
  have nc: "split_char ?c a = [a]" if "to_lowercase a = to_lowercase l" for a
    using lower_comma [OF that assms(3)] by (rule split_char_no_sep)
  have comma: "sql_like (?c # p) t \<longleftrightarrow> (\<exists>b. t = ?c # b \<and> sql_like p b)" for p t
    by (cases t) (auto simp: ascii_lower_comma_eq)
  have any: "sql_like ''%'' t" for t by (intro iffD2 [OF like_percent] exI [of _ t] exI [of _ "[]"]) simp
  have rest: "sql_like (l @ ?c # ''%'') t \<longleftrightarrow> (\<exists>a b. t = a @ ?c # b \<and> to_lowercase a = to_lowercase l)" for t
    unfolding like_literal [OF assms(2)] comma [of "''%''"] by (auto simp: any simp del: sql_like.simps)
  have last: "sql_like l t \<longleftrightarrow> to_lowercase t = to_lowercase l" for t
    using like_literal [OF assms(2), of "[]" t] by (cases t) (auto simp: to_lowercase_def)
  have e1: "sql_like (l @ '',%'') s \<longleftrightarrow> (\<exists>a b. s = a @ ?c # b \<and> to_lowercase a = to_lowercase l)"
    by (rule rest)
  have e2: "sql_like (''%,'' @ l) s \<longleftrightarrow> (\<exists>a b. s = b @ ?c # a \<and> to_lowercase a = to_lowercase l)"
    using like_percent [of "?c # l" s] comma [of l] last by auto
  have e3: "sql_like (''%,'' @ l @ '',%'') s \<longleftrightarrow> (\<exists>a b d. s = b @ ?c # a @ ?c # d \<and> to_lowercase a = to_lowercase l)"
  proof -
    have "sql_like (''%,'' @ l @ '',%'') s \<longleftrightarrow> (\<exists>b t. s = b @ t \<and> sql_like (?c # l @ ?c # ''%'') t)"
      using like_percent [of "?c # l @ ?c # ''%''" s] by simp
    also have "\<dots> \<longleftrightarrow> (\<exists>b t. s = b @ ?c # t \<and> sql_like (l @ ?c # ''%'') t)" unfolding comma by blast
    finally show ?thesis unfolding rest by blast
  qed
  show "sql_like (l @ '',%'') s \<longleftrightarrow> (\<exists>x ys. ls = x # ys \<and> ys \<noteq> [] \<and> to_lowercase x = to_lowercase l)"
    unfolding e1
  proof
    assume "\<exists>a b. s = a @ ?c # b \<and> to_lowercase a = to_lowercase l"
    then obtain a b where ab: "s = a @ ?c # b" "to_lowercase a = to_lowercase l" by blast
    then have "ls = a # split_char ?c b" using sp nc by (simp add: split_char_at)
    with ab(2) split_char_nonempty show "\<exists>x ys. ls = x # ys \<and> ys \<noteq> [] \<and> to_lowercase x = to_lowercase l" by blast
  next
    assume "\<exists>x ys. ls = x # ys \<and> ys \<noteq> [] \<and> to_lowercase x = to_lowercase l"
    then obtain x ys where "ls = [x] @ ys" "ys \<noteq> []" "to_lowercase x = to_lowercase l" by auto
    then show "\<exists>a b. s = a @ ?c # b \<and> to_lowercase a = to_lowercase l" using join_append [of "[x]" ys ?c] assms(4) by auto
  qed
  show "sql_like (''%,'' @ l) s \<longleftrightarrow> (\<exists>x ys. ls = ys @ [x] \<and> ys \<noteq> [] \<and> to_lowercase x = to_lowercase l)"
    unfolding e2
  proof
    assume "\<exists>a b. s = b @ ?c # a \<and> to_lowercase a = to_lowercase l"
    then obtain a b where ab: "s = b @ ?c # a" "to_lowercase a = to_lowercase l" by blast
    then have "ls = split_char ?c b @ [a]" using sp nc by (simp add: split_char_at)
    with ab(2) split_char_nonempty show "\<exists>x ys. ls = ys @ [x] \<and> ys \<noteq> [] \<and> to_lowercase x = to_lowercase l" by blast
  next
    assume "\<exists>x ys. ls = ys @ [x] \<and> ys \<noteq> [] \<and> to_lowercase x = to_lowercase l"
    then obtain x ys where "ls = ys @ [x]" "ys \<noteq> []" "to_lowercase x = to_lowercase l" by blast
    then show "\<exists>a b. s = b @ ?c # a \<and> to_lowercase a = to_lowercase l" using join_append [of ys "[x]" ?c] assms(4) by auto
  qed
  show "sql_like (''%,'' @ l @ '',%'') s \<longleftrightarrow>
      (\<exists>x ys zs. ls = ys @ x # zs \<and> ys \<noteq> [] \<and> zs \<noteq> [] \<and> to_lowercase x = to_lowercase l)"
    unfolding e3
  proof
    assume "\<exists>a b d. s = b @ ?c # a @ ?c # d \<and> to_lowercase a = to_lowercase l"
    then obtain a b d where ab: "s = b @ ?c # a @ ?c # d" "to_lowercase a = to_lowercase l" by blast
    then have "ls = split_char ?c b @ a # split_char ?c d" using sp nc by (simp add: split_char_at)
    with ab(2) split_char_nonempty show "\<exists>x ys zs. ls = ys @ x # zs \<and> ys \<noteq> [] \<and> zs \<noteq> [] \<and> to_lowercase x = to_lowercase l" by blast
  next
    assume "\<exists>x ys zs. ls = ys @ x # zs \<and> ys \<noteq> [] \<and> zs \<noteq> [] \<and> to_lowercase x = to_lowercase l"
    then obtain x ys zs where z: "ls = ys @ ([x] @ zs)" "ys \<noteq> []" "zs \<noteq> []" "to_lowercase x = to_lowercase l" by auto
    then have "s = join_with '','' ys @ ?c # x @ ?c # join_with '','' zs"
      using join_append [of ys "[x] @ zs" ?c] join_append [of "[x]" zs ?c] assms(4) by simp
    with z(4) show "\<exists>a b d. s = b @ ?c # a @ ?c # d \<and> to_lowercase a = to_lowercase l" by blast
  qed
qed

section \<open>Properties\<close>

text \<open>Creating an issue under an unused identifier stores it: it can be read back exactly as returned,
  with status open, every other issue is unchanged, the database stays well-formed and one
  creation event is logged. An identifier in use is refused and changes nothing.\<close>

theorem issue_create_spec:
  assumes "wf_issues env db" "wf_log env log" "plain_labels labels"
  shows "case issue_view env db i of
    None \<Rightarrow> (\<exists>x db' log'. issue_create env db log i now title descr priority labels creator = (Inr x, db', log') \<and>
      wf_issues env db' \<and> wf_log env log' \<and> is_status x = IOpen \<and> is_labels x = labels \<and> issue_get env db' later i = Inr x \<and>
      issue_view env db' = (issue_view env db)(i \<mapsto> x) \<and>
      map ev_kind (log_events env log') = map ev_kind (log_events env log) @ [IssueCreated i title creator (priority_as_str priority)])
  | Some _ \<Rightarrow> issue_create env db log i now title descr priority labels creator = (Inl IsSqlite, db, log)"
proof -
  let ?row = "new_issue_row env i now title descr priority labels creator None"
  have c: "issue_codecs env" using assms(1) by (simp add: wf_issues_def)
  have id: "ir_id ?row = uuid_to_string env i" by (simp add: new_issue_row_def)
  show ?thesis
  proof (cases "issue_view env db i")
    case None
    then have "insert_issue_row ?row db = Some (db\<lparr>issues_tbl := issues_tbl db @ [?row]\<rparr>)"
      by (simp add: issue_rows_insert id issue_view_def)
    then obtain db' where ins: "insert_issue_row ?row db = Some db'" by blast
    note wf = wf_insert_issue_row [OF assms(1) wf_new_issue_row ins]
    define x where "x = \<lparr>is_id = i, is_title = title, is_description = descr, is_status = IOpen, is_priority = priority, is_labels = labels,
      is_creator = creator, is_resolution = None, is_agent_source = None, is_acceptance_criteria = [], is_created_at = now, is_updated_at = now\<rparr>"
    have row: "row_to_issue env 0 ?row = x"
      using c labels_roundtrip [OF assms(3)] by (simp add: x_def row_to_issue_def new_issue_row_def issue_codecs_def)
    have view: "issue_view env db' = (issue_view env db)(i \<mapsto> x)"
      by (rule ext) (simp add: issue_view_def wf(2) id uuid_to_string_inj [OF c] row)
    obtain log' where l: "log_then env db' log now (IssueCreated i title creator (priority_as_str priority)) (\<lambda>log1. (Inr x, db', log1)) = (Inr x, db', log')"
      "wf_log env log'" "map ev_kind (log_events env log') = map ev_kind (log_events env log) @ [IssueCreated i title creator (priority_as_str priority)]"
      by (rule log_then_ok [OF assms(2)])
    have "issue_create env db log i now title descr priority labels creator = (Inr x, db', log')"
      using ins l(1) by (simp add: issue_create_def x_def)
    moreover have "issue_get env db' later i = Inr x" unfolding issue_get_view [OF wf(1)] view by simp
    moreover have "is_status x = IOpen" "is_labels x = labels" by (simp_all add: x_def)
    ultimately show ?thesis using None wf(1) l(2,3) view by auto
  next
    case (Some y)
    then have "insert_issue_row ?row db = None" by (auto simp: issue_rows_insert id issue_view_def)
    with Some show ?thesis by (simp add: issue_create_def)
  qed
qed

text \<open>C7: Along any sequence of operations of the store, successful or not, no issue is lost and its
  creator and creation time never change; its status only moves along the life cycle, so an
  issue that is resolved or closed is never open or in progress again.\<close>

theorem issue_lifecycle:
  assumes "wf_issues env (fst st)" "(issue_step env)\<^sup>*\<^sup>* st st'" "issue_get env (fst st) now i = Inr x"
  shows "\<exists>x'. issue_get env (fst st') later i = Inr x' \<and> is_creator x' = is_creator x \<and> is_created_at x' = is_created_at x \<and>
    lifecycle\<^sup>*\<^sup>* (is_status x) (is_status x') \<and> (is_status x \<in> {IResolved, IClosed} \<longrightarrow> is_status x' \<in> {IResolved, IClosed})"
proof -
  have x: "issue_view env (fst st) i = Some x" using assms(3) by (auto simp: issue_get_view [OF assms(1)] split: option.splits)
  from assms(2) have "wf_issues env (fst st') \<and> (\<exists>x'. issue_view env (fst st') i = Some x' \<and> is_creator x' = is_creator x \<and>
      is_created_at x' = is_created_at x \<and> lifecycle\<^sup>*\<^sup>* (is_status x) (is_status x'))"
  proof (induction rule: rtranclp_induct)
    case base
    with assms(1) x show ?case by auto
  next
    case (step y z)
    then obtain x1 where x1: "issue_view env (fst y) i = Some x1" "is_creator x1 = is_creator x" "is_created_at x1 = is_created_at x"
      "lifecycle\<^sup>*\<^sup>* (is_status x) (is_status x1)" by blast
    have ev: "evolves env (fst y) (fst z)" using step by (intro issue_step_evolves) auto
    then obtain x2 where x2: "issue_view env (fst z) i = Some x2" "is_creator x2 = is_creator x1" "is_created_at x2 = is_created_at x1"
      "is_status x2 = is_status x1 \<or> lifecycle (is_status x1) (is_status x2)" using x1(1) by (auto simp: evolves_def)
    have "lifecycle\<^sup>*\<^sup>* (is_status x) (is_status x2)" using x1(4) x2(4) by (metis rtranclp.rtrancl_into_rtrancl)
    with x1 x2 ev show ?case by (simp add: evolves_def)
  qed
  then obtain x' where x': "wf_issues env (fst st')" "issue_view env (fst st') i = Some x'" "is_creator x' = is_creator x"
    "is_created_at x' = is_created_at x" "lifecycle\<^sup>*\<^sup>* (is_status x) (is_status x')" by blast
  have "is_status x' \<in> {IResolved, IClosed}" if "is_status x \<in> {IResolved, IClosed}"
    using x'(5) that by (induction rule: rtranclp_induct) (auto simp: lifecycle_simps)
  with x' show ?thesis by (simp add: issue_get_view)
qed

text \<open>C11: The rate limit is exact: of the requests an agent makes within one clock hour, the first
  \<open>max_per_hour\<close> create an issue and every later one is refused with the limit error, whatever
  other agents and hours do in between; refused requests do not count.\<close>

theorem agent_rate_limit_exact:
  assumes "json_ok env" "inj (uuid_to_string env)" "m < 2 ^ 32 - 1" "distinct (map rq_id qs)"
  shows "length (filter (\<lambda>(q, r). rq_key env q = k \<and> \<not> isl r) (zip qs (agent_run env m issue_db_empty elog_empty qs))) =
      min m (length (filter (\<lambda>q. rq_key env q = k) qs)) \<and>
    (\<forall>(q, r)\<in>set (zip qs (agent_run env m issue_db_empty elog_empty qs)). isl r \<longrightarrow> r = Inl (IsRateLimitExceeded (rq_agent q) (m + 1) m))"
proof -
  have "rate_of issue_db_empty k = 0" for k by (simp add: rate_of_def issue_db_empty_def)
  moreover have "issue_rows issue_db_empty i = None" for i by (simp add: issue_rows_def issue_db_empty_def)
  ultimately show ?thesis
    using agent_run_successes [OF assms(3,2) wf_log_empty [OF assms(1)], of issue_db_empty qs k] assms(4) by simp
qed

text \<open>The label filter of \<open>list\<close> selects the issues carrying exactly that label, not a substring of
  it: an issue with a single label when the label is equal, an issue with several when one of them
  is equal up to ASCII case.\<close>

theorem label_filter_exact:
  assumes "plain_labels ls" "no_wildcard l" "CHR '','' \<notin> set l" "l \<noteq> []" "ir_labels r = join_with '','' ls"
  shows "label_matches (Some l) r \<longleftrightarrow> ls = [l] \<or> (2 \<le> length ls \<and> (\<exists>x\<in>set ls. to_lowercase x = to_lowercase l))"
proof (cases "ls = []")
  case True
  have "\<not> sql_like p []" if "p = l @ '',%'' \<or> p = ''%,'' @ l \<or> p = ''%,'' @ l @ '',%''" for p
    using that assms(2,4) by (cases l) (auto simp: no_wildcard_def)
  with True assms(4,5) show ?thesis by (simp add: label_matches_def del: sql_like.simps)
next
  case False
  note pats = label_patterns [OF assms(1,2,3,5) False]
  have eq: "ir_labels r = l \<longleftrightarrow> ls = [l]"
  proof
    assume "ir_labels r = l"
    then have "split_char (CHR '','') (join_with '','' ls) = [l]" using assms(5) split_char_no_sep [OF assms(3)] by simp
    then show "ls = [l]" using assms(1) False by (simp add: plain_labels_def split_join)
  qed (use assms(5) in simp)
  have pos: "(\<exists>x\<in>set ls. P x) \<and> 2 \<le> length ls \<longleftrightarrow>
      (\<exists>x ys. ls = x # ys \<and> ys \<noteq> [] \<and> P x) \<or> (\<exists>x ys. ls = ys @ [x] \<and> ys \<noteq> [] \<and> P x) \<or>
      (\<exists>x ys zs. ls = ys @ x # zs \<and> ys \<noteq> [] \<and> zs \<noteq> [] \<and> P x)" for P :: "string \<Rightarrow> bool"
  proof
    assume "(\<exists>x\<in>set ls. P x) \<and> 2 \<le> length ls"
    then obtain x ys zs where "ls = ys @ x # zs" "P x" "2 \<le> length ls" by (meson split_list)
    then show "(\<exists>x ys. ls = x # ys \<and> ys \<noteq> [] \<and> P x) \<or> (\<exists>x ys. ls = ys @ [x] \<and> ys \<noteq> [] \<and> P x) \<or>
        (\<exists>x ys zs. ls = ys @ x # zs \<and> ys \<noteq> [] \<and> zs \<noteq> [] \<and> P x)" by (cases "ys = []"; cases "zs = []") (fastforce | blast)+
  qed (auto simp: Suc_le_eq)
  show ?thesis
    unfolding label_matches_def option.case eq pats using pos [of "\<lambda>x. to_lowercase x = to_lowercase l"] by blast
qed

section \<open>The properties at concrete inputs\<close>

definition e_source :: "AgentSource enc" where "e_source a = e_str (as_source_type a) @ e_str (as_details a)"
definition d_source :: "AgentSource dec" where "d_source = d2 AgentSource.make d_str d_str"

lemma wires_source [simp]: "wires e_source d_source"
  unfolding wires_def by (simp add: e_source_def d_source_def d_chain AgentSource.defs)

definition ascii_word_char :: "string \<Rightarrow> bool" where
  "ascii_word_char c = list_all (\<lambda>b. let n = of_char b :: nat in 48 \<le> n \<and> n \<le> 57 \<or> 65 \<le> n \<and> n \<le> 90 \<or> 97 \<le> n \<and> n \<le> 122) c"

definition sample_issue_env :: issue_env where
  "sample_issue_env = \<lparr>ev_to_json = to_text e_event, ev_from_json = from_text d_event,
     to_rfc3339 = nat_to_string, uuid_to_string = nat_to_string,
     meta_to_toml = to_text e_meta, meta_from_toml = from_text d_meta,
     uuid_from_str = parse_digits 0, from_rfc3339 = parse_digits 0,
     source_to_json = to_text e_source, source_from_json = from_text d_source,
     criteria_to_json = to_text (e_list e_str),
     criteria_from_json = (\<lambda>s. if s = ''[]'' then Some [] else from_text (d_list d_str) s),
     hour_bucket = (\<lambda>t. nat_to_string (t div 3600)), is_alphanumeric = ascii_word_char, str_lowercase = to_lowercase\<rparr>"

lemma to_text_list_not_brackets: "to_text (e_list e_str) c \<noteq> ''[]''"
proof
  assume "to_text (e_list e_str) c = ''[]''"
  then have "from_text (d_list d_str) ''[]'' = Some c" using from_to_text [of "e_list e_str" "d_list d_str" c] by simp
  then show False by (simp add: from_text_def text_to_nats_def)
qed

lemma sample_issue_ok [simp]:
  "json_ok sample_issue_env" "issue_codecs sample_issue_env" "inj (uuid_to_string sample_issue_env)"
proof -
  show "json_ok sample_issue_env" by (rule json_ok_text) (simp_all add: sample_issue_env_def)
  show c: "issue_codecs sample_issue_env"
    using to_text_list_not_brackets
    by (simp add: issue_codecs_def sample_issue_env_def from_to_text parse_digits_nat_to_string del: e_list.simps)
  show "inj (uuid_to_string sample_issue_env)" using uuid_to_string_inj [OF c] by (auto simp: inj_def)
qed

lemma sample_issues_wf: "wf_issues sample_issue_env issue_db_empty"
  by (simp add: wf_issues_def issue_db_empty_def)

theorem issue_create_spec_witness:
  "\<exists>x db' log'. issue_create sample_issue_env issue_db_empty elog_empty 4 9 ''Fix'' ''d'' PHigh [''bug'', ''ui''] ''ann'' = (Inr x, db', log') \<and>
     wf_issues sample_issue_env db' \<and> is_labels x = [''bug'', ''ui''] \<and> issue_get sample_issue_env db' 30 4 = Inr x \<and>
     map ev_kind (log_events sample_issue_env log') = [IssueCreated 4 ''Fix'' ''ann'' ''high'']"
proof -
  have pl: "plain_labels [''bug'', ''ui'']" by (simp add: plain_labels_def)
  have none: "issue_view sample_issue_env issue_db_empty 4 = None" by (simp add: issue_view_def issue_rows_def issue_db_empty_def)
  from issue_create_spec [OF sample_issues_wf wf_log_empty [OF sample_issue_ok(1)] pl, of 4 9 "''Fix''" "''d''" PHigh "''ann''" 30]
  show ?thesis unfolding none option.case by (elim exE conjE) (intro exI conjI, assumption, simp_all add: log_events_empty)
qed

definition closed_db :: issue_db where
  "closed_db = issue_db_empty\<lparr>issues_tbl := [(new_issue_row sample_issue_env 4 9 ''Fix'' ''d'' PHigh [] ''ann'' None)\<lparr>ir_status := ''closed''\<rparr>]\<rparr>"

text \<open>A closed issue cannot be reopened: the step is refused and the issue is still closed.\<close>

theorem issue_lifecycle_witness:
  "\<exists>x'. issue_get sample_issue_env (fst (snd (issue_reopen sample_issue_env closed_db elog_empty 11 4))) 30 4 = Inr x' \<and>
     is_creator x' = ''ann'' \<and> is_status x' \<in> {IResolved, IClosed}"
proof -
  let ?r = "(new_issue_row sample_issue_env 4 9 ''Fix'' ''d'' PHigh [] ''ann'' None)\<lparr>ir_status := ''closed''\<rparr>"
  have "wf_issue_row sample_issue_env ?r"
    using wf_row_statuses(7) [OF wf_new_issue_row [of sample_issue_env 4 9 "''Fix''" "''d''" PHigh "[]" "''ann''" None], of 9]
    by (simp add: new_issue_row_def)
  then have wf: "wf_issues sample_issue_env (fst (closed_db, elog_empty))" by (simp add: wf_issues_def closed_db_def)
  have get: "issue_get sample_issue_env (fst (closed_db, elog_empty)) 10 4 = Inr (row_to_issue sample_issue_env 10 ?r)"
    by (simp add: issue_get_def closed_db_def) (simp add: new_issue_row_def)
  have sel: "is_creator (row_to_issue sample_issue_env 10 ?r) = ''ann''" "is_status (row_to_issue sample_issue_env 10 ?r) = IClosed"
    by (simp_all add: row_to_issue_def new_issue_row_def)
  have "(issue_step sample_issue_env)\<^sup>*\<^sup>* (closed_db, elog_empty) (snd (issue_reopen sample_issue_env closed_db elog_empty 11 4))"
    by (intro r_into_rtranclp st_reopen)
  from issue_lifecycle [OF wf this get, of 30] show ?thesis unfolding sel by auto
qed

definition sample_request :: "uuid \<Rightarrow> time \<Rightarrow> agent_request" where
  "sample_request i t = \<lparr>rq_id = i, rq_now = t, rq_title = ''T'', rq_description = [], rq_priority = PLow, rq_labels = [],
     rq_agent = ''bot'', rq_source = \<lparr>as_source_type = ''scan'', as_details = ''{}''\<rparr>\<rparr>"

lemma sample_hours: "nat_to_string 0 = ''0''" "nat_to_string (Suc 0) = ''1''"
  by code_simp+

text \<open>Three requests, two of them in the first hour, with a limit of one.\<close>

theorem agent_rate_limit_exact_witness:
  "length (filter (\<lambda>(q, r). rq_key sample_issue_env q = (''bot'', ''0'') \<and> \<not> isl r)
     (zip [sample_request 1 10, sample_request 2 20, sample_request 3 3700]
       (agent_run sample_issue_env 1 issue_db_empty elog_empty [sample_request 1 10, sample_request 2 20, sample_request 3 3700]))) = 1"
proof -
  let ?qs = "[sample_request 1 10, sample_request 2 20, sample_request 3 3700]"
  have d: "distinct (map rq_id ?qs)" by (simp add: sample_request_def)
  have "rq_key sample_issue_env (sample_request i t) = (''bot'', nat_to_string (t div 3600))" for i t
    by (simp add: rq_key_def sample_request_def sample_issue_env_def)
  then have "length (filter (\<lambda>q. rq_key sample_issue_env q = (''bot'', ''0'')) ?qs) = 2" by (simp add: sample_hours)
  with agent_rate_limit_exact [OF sample_issue_ok(1,3) _ d, of 1 "(''bot'', ''0'')"] show ?thesis by simp
qed

theorem label_filter_exact_witness:
  "\<not> label_matches (Some ''Bug'') (new_issue_row sample_issue_env 4 9 ''Fix'' ''d'' PHigh [''bug''] ''ann'' None) \<and>
   label_matches (Some ''Bug'') (new_issue_row sample_issue_env 4 9 ''Fix'' ''d'' PHigh [''bug'', ''ui''] ''ann'' None)"
proof -
  have a: "no_wildcard ''Bug''" "CHR '','' \<notin> set ''Bug''" "''Bug'' \<noteq> []" by (simp_all add: no_wildcard_def)
  have p: "plain_labels [''bug'']" "plain_labels [''bug'', ''ui'']" by (simp_all add: plain_labels_def)
  have r: "ir_labels (new_issue_row sample_issue_env 4 9 ''Fix'' ''d'' PHigh ls ''ann'' None) = join_with '','' ls" for ls
    by (simp add: new_issue_row_def)
  have low: "to_lowercase ''bug'' = to_lowercase ''Bug''" by code_simp
  show ?thesis
    using label_filter_exact [OF p(1) a r] label_filter_exact [OF p(2) a r] low by simp
qed

end
