(* ===== verification/Conflict.thy ===== *)
theory Conflict
  imports Vai_Prelude
begin

text \<open>
  The conflict engine (\<open>src/conflict/mod.rs\<close>): the scopes of the active workspaces, the
  classification of the overlap of two scopes, and the updates that report overlaps. A hash set
  is a set, the hash map of scopes an association list whose order is the iteration order.
\<close>

section \<open>Scopes and levels\<close>

record WorkspaceScope =
  sc_workspace_id :: uuid
  sc_intent :: string
  sc_write_files :: "string set"
  sc_write_entities :: "string set"
  sc_blast_radius :: "string set"

datatype OverlapLevel = LvNone | LvLow | LvMedium | LvHigh | LvCritical

fun level_rank :: "OverlapLevel \<Rightarrow> nat" where
  "level_rank LvNone = 0"
| "level_rank LvLow = 1"
| "level_rank LvMedium = 2"
| "level_rank LvHigh = 3"
| "level_rank LvCritical = 4"

text \<open>The derived order of the levels follows their declaration.\<close>

instantiation OverlapLevel :: linorder
begin

definition less_eq_OverlapLevel :: "OverlapLevel \<Rightarrow> OverlapLevel \<Rightarrow> bool" where
  "less_eq_OverlapLevel a b \<longleftrightarrow> level_rank a \<le> level_rank b"

definition less_OverlapLevel :: "OverlapLevel \<Rightarrow> OverlapLevel \<Rightarrow> bool" where
  "less_OverlapLevel a b \<longleftrightarrow> level_rank a < level_rank b"

instance
proof
  fix x y :: OverlapLevel
  assume "x \<le> y" "y \<le> x"
  then show "x = y" unfolding less_eq_OverlapLevel_def by (cases x; cases y) simp_all
qed (auto simp: less_eq_OverlapLevel_def less_OverlapLevel_def)

end

fun level_as_str :: "OverlapLevel \<Rightarrow> string" where
  "level_as_str LvNone = ''none''"
| "level_as_str LvLow = ''low''"
| "level_as_str LvMedium = ''medium''"
| "level_as_str LvHigh = ''high''"
| "level_as_str LvCritical = ''critical''"

record OverlapResult =
  ov_level :: OverlapLevel
  ov_your_workspace :: uuid
  ov_other_workspace :: uuid
  ov_other_intent :: string
  ov_overlapping_files :: "string list"
  ov_overlapping_entities :: "string list"
  ov_recommendation :: string

type_synonym ConflictEngine = "(uuid \<times> WorkspaceScope) list"

definition engine_new :: ConflictEngine where
  "engine_new = []"

section \<open>Classification\<close>

text \<open>The entities one scope writes that only the blast radius of the other holds.\<close>

definition in_blast :: "WorkspaceScope \<Rightarrow> WorkspaceScope \<Rightarrow> string set" where
  "in_blast a b = {i \<in> sc_write_entities a. i \<in> sc_blast_radius b \<and> i \<notin> sc_write_entities b}"

definition overlap_result ::
  "OverlapLevel \<Rightarrow> WorkspaceScope \<Rightarrow> WorkspaceScope \<Rightarrow> string list \<Rightarrow> string list \<Rightarrow> string \<Rightarrow> OverlapResult" where
  "overlap_result level a b files ents recommendation =
     \<lparr>ov_level = level, ov_your_workspace = sc_workspace_id a, ov_other_workspace = sc_workspace_id b,
      ov_other_intent = sc_intent b, ov_overlapping_files = files, ov_overlapping_entities = ents,
      ov_recommendation = recommendation\<rparr>"

definition recommend_critical :: "string \<Rightarrow> string \<Rightarrow> string" where
  "recommend_critical w intent = ''Multiple entities are modified in both your workspace and workspace '' @ [CHR 0x27] @ w @ [CHR 0x27] @
     '' (intent: '' @ intent @ ''). Coordinate before submitting to avoid severe conflicts.''"

definition recommend_medium :: "string \<Rightarrow> string \<Rightarrow> string" where
  "recommend_medium w intent = ''You and workspace '' @ [CHR 0x27] @ w @ [CHR 0x27] @ '' (intent: '' @ intent @
     '') are modifying the same entity. Consider submitting in sequence to avoid merge conflicts.''"

definition recommend_high :: "string \<Rightarrow> string \<Rightarrow> string" where
  "recommend_high w intent = ''Your changes affect entities that workspace '' @ [CHR 0x27] @ w @ [CHR 0x27] @ '' (intent: '' @ intent @
     '') depends on. Review the dependency chain before submitting.''"

definition recommend_low :: "string \<Rightarrow> string \<Rightarrow> string" where
  "recommend_low w intent = ''Both you and workspace '' @ [CHR 0x27] @ w @ [CHR 0x27] @ '' (intent: '' @ intent @
     '') have modified the same file(s) but different entities. Verify there are no unintended overwrites.''"

text \<open>\<open>uuid_str\<close> is the display form of a workspace identifier.\<close>

definition classify_overlap :: "(uuid \<Rightarrow> string) \<Rightarrow> WorkspaceScope \<Rightarrow> WorkspaceScope \<Rightarrow> OverlapResult" where
  "classify_overlap uuid_str a b =
     (let files = sorted_list_of_set (sc_write_files a \<inter> sc_write_files b);
          shared = sorted_list_of_set (sc_write_entities a \<inter> sc_write_entities b);
          referential = remdups_adj (sort (sorted_list_of_set (in_blast a b) @ sorted_list_of_set (in_blast b a)));
          w = uuid_str (sc_workspace_id b); intent = sc_intent b
      in if length shared > 1 then overlap_result LvCritical a b files shared (recommend_critical w intent)
         else if shared \<noteq> [] then overlap_result LvMedium a b files shared (recommend_medium w intent)
         else if referential \<noteq> [] then overlap_result LvHigh a b files referential (recommend_high w intent)
         else if files \<noteq> [] then overlap_result LvLow a b files [] (recommend_low w intent)
         else overlap_result LvNone a b [] [] [])"

section \<open>The engine\<close>

definition update_scope ::
  "(uuid \<Rightarrow> string) \<Rightarrow> ConflictEngine \<Rightarrow> uuid \<Rightarrow> string \<Rightarrow> string list \<Rightarrow> OverlapResult list \<times> ConflictEngine" where
  "update_scope uuid_str e wid intent path_list =
     (let scope = (case map_of e wid of
             Some s \<Rightarrow> s
           | None \<Rightarrow> \<lparr>sc_workspace_id = wid, sc_intent = intent, sc_write_files = {}, sc_write_entities = {}, sc_blast_radius = {}\<rparr>);
          updated = scope\<lparr>sc_intent := intent, sc_write_files := set path_list\<rparr>;
          e' = AList.update wid updated e;
          results = filter (\<lambda>r. ov_level r \<noteq> LvNone)
            (map (classify_overlap uuid_str updated) (filter (\<lambda>s. sc_workspace_id s \<noteq> wid) (map snd e')))
      in (sort_key (\<lambda>r. - int (level_rank (ov_level r))) results, e'))"

definition remove_workspace :: "ConflictEngine \<Rightarrow> uuid \<Rightarrow> ConflictEngine" where
  "remove_workspace e wid = AList.delete wid e"

definition get_scope :: "ConflictEngine \<Rightarrow> uuid \<Rightarrow> WorkspaceScope option" where
  "get_scope e wid = map_of e wid"

definition all_scopes :: "ConflictEngine \<Rightarrow> WorkspaceScope list" where
  "all_scopes e = map snd e"

definition tracked_count :: "ConflictEngine \<Rightarrow> nat" where
  "tracked_count e = length e"

section \<open>Facts about the classification\<close>

definition finite_scope :: "WorkspaceScope \<Rightarrow> bool" where
  "finite_scope s \<longleftrightarrow> finite (sc_write_files s) \<and> finite (sc_write_entities s) \<and> finite (sc_blast_radius s)"

lemma overlap_result_sel [simp]:
  "ov_level (overlap_result l a b fs es r) = l" "ov_overlapping_files (overlap_result l a b fs es r) = fs"
  "ov_overlapping_entities (overlap_result l a b fs es r) = es" "ov_other_workspace (overlap_result l a b fs es r) = sc_workspace_id b"
  "ov_your_workspace (overlap_result l a b fs es r) = sc_workspace_id a"
  by (simp_all add: overlap_result_def)

lemma finite_in_blast [simp]: "finite_scope a \<Longrightarrow> finite (in_blast a b)"
  by (simp add: in_blast_def finite_scope_def)

text \<open>The level, from the three kinds of overlap.\<close>

lemma classify_level:
  assumes "finite_scope a" "finite_scope b"
  shows "ov_level (classify_overlap uuid_str a b) =
    (let shared = sc_write_entities a \<inter> sc_write_entities b
     in if card shared > 1 then LvCritical else if shared \<noteq> {} then LvMedium
        else if in_blast a b \<union> in_blast b a \<noteq> {} then LvHigh
        else if sc_write_files a \<inter> sc_write_files b \<noteq> {} then LvLow else LvNone)"
proof -
  have "finite (sc_write_files a)" "finite (sc_write_entities a)" "finite (in_blast a b)" "finite (in_blast b a)"
    using assms by (simp_all add: finite_scope_def)
  then show ?thesis by (simp add: classify_overlap_def Let_def flip: set_empty)
qed

lemma classify_sel [simp]:
  "ov_other_workspace (classify_overlap uuid_str a b) = sc_workspace_id b"
  "ov_your_workspace (classify_overlap uuid_str a b) = sc_workspace_id a"
  by (simp_all add: classify_overlap_def Let_def)

lemma distinct_remdups_adj_sorted: "sorted xs \<Longrightarrow> distinct (remdups_adj xs)"
  by (induction xs rule: remdups_adj.induct) auto

lemma set_map_sort_filter:
  "(\<And>x. g (f x) = h x) \<Longrightarrow> set (map g (sort_key k (filter P (map f xs)))) = h ` {x \<in> set xs. P (f x)}"
  by (simp add: filter_map comp_def image_image)

lemma distinct_map_sort_key: "distinct (map f (sort_key g xs)) \<longleftrightarrow> distinct (map f xs)"
  by (rule mset_eq_imp_distinct_iff) simp

section \<open>Engines in use\<close>

inductive engine_step :: "ConflictEngine \<Rightarrow> ConflictEngine \<Rightarrow> bool" where
  step_update: "engine_step e (snd (update_scope uuid_str e wid intent paths))"
| step_remove: "engine_step e (remove_workspace e wid)"

definition engine_reachable :: "ConflictEngine \<Rightarrow> bool" where
  "engine_reachable e \<longleftrightarrow> engine_step\<^sup>*\<^sup>* engine_new e"

text \<open>Each scope is filed under its workspace, has finitely many files, and no entities.\<close>

definition wf_engine :: "ConflictEngine \<Rightarrow> bool" where
  "wf_engine e \<longleftrightarrow> distinct (map fst e) \<and>
     (\<forall>w s. map_of e w = Some s \<longrightarrow>
        sc_workspace_id s = w \<and> finite (sc_write_files s) \<and> sc_write_entities s = {} \<and> sc_blast_radius s = {})"

lemma wf_engineD:
  assumes "wf_engine e" "map_of e w = Some s"
  shows "sc_workspace_id s = w" "finite (sc_write_files s)" "sc_write_entities s = {}" "sc_blast_radius s = {}" "finite_scope s"
  using assms by (auto simp: wf_engine_def finite_scope_def)

text \<open>The scope an update stores.\<close>

definition updated_scope :: "ConflictEngine \<Rightarrow> uuid \<Rightarrow> string \<Rightarrow> string list \<Rightarrow> WorkspaceScope" where
  "updated_scope e wid intent paths =
     (case map_of e wid of
        Some s \<Rightarrow> s
      | None \<Rightarrow> \<lparr>sc_workspace_id = wid, sc_intent = intent, sc_write_files = {}, sc_write_entities = {}, sc_blast_radius = {}\<rparr>)
     \<lparr>sc_intent := intent, sc_write_files := set paths\<rparr>"

lemma update_scope_eq:
  "update_scope uuid_str e wid intent paths =
     (let e' = AList.update wid (updated_scope e wid intent paths) e
      in (sort_key (\<lambda>r. - int (level_rank (ov_level r))) (filter (\<lambda>r. ov_level r \<noteq> LvNone)
            (map (classify_overlap uuid_str (updated_scope e wid intent paths)) (filter (\<lambda>s. sc_workspace_id s \<noteq> wid) (map snd e')))), e'))"
  by (simp add: update_scope_def updated_scope_def Let_def)

lemma updated_scope_wf:
  assumes "wf_engine e"
  shows "updated_scope e wid intent paths = \<lparr>sc_workspace_id = wid, sc_intent = intent, sc_write_files = set paths,
    sc_write_entities = {}, sc_blast_radius = {}\<rparr>"
proof (cases "map_of e wid")
  case (Some s)
  from wf_engineD [OF assms this] Some show ?thesis by (cases s) (simp add: updated_scope_def)
qed (simp add: updated_scope_def)

lemma wf_engine_update: "wf_engine e \<Longrightarrow> wf_engine (snd (update_scope uuid_str e wid intent paths))"
  using updated_scope_wf [of e wid intent paths]
  by (auto simp: update_scope_eq Let_def wf_engine_def distinct_update update_conv')

lemma wf_engine_remove: "wf_engine e \<Longrightarrow> wf_engine (remove_workspace e wid)"
  by (auto simp: wf_engine_def remove_workspace_def delete_conv' distinct_delete split: if_splits)

lemma engine_reachable_wf: "engine_reachable e \<Longrightarrow> wf_engine e"
  unfolding engine_reachable_def
proof (induction rule: rtranclp_induct)
  case base
  then show ?case by (simp add: wf_engine_def engine_new_def)
next
  case (step e e')
  from step.hyps(2) step.IH show ?case by cases (simp_all add: wf_engine_update wf_engine_remove)
qed

section \<open>Properties\<close>

text \<open>The classification of two scopes is symmetric in its level; it is none exactly when the scopes
  share no file, write no common entity and neither writes into the other's blast radius, and
  otherwise it reports exactly the shared files and, in order, the shared entities or, if there
  are none, the entities written into a blast radius.\<close>

theorem classify_overlap_exact:
  assumes "finite_scope a" "finite_scope b"
  shows "ov_level (classify_overlap uuid_str a b) = ov_level (classify_overlap uuid_str b a) \<and>
    (ov_level (classify_overlap uuid_str a b) = LvNone \<longleftrightarrow>
       sc_write_files a \<inter> sc_write_files b = {} \<and> sc_write_entities a \<inter> sc_write_entities b = {} \<and> in_blast a b = {} \<and> in_blast b a = {}) \<and>
    set (ov_overlapping_files (classify_overlap uuid_str a b)) = sc_write_files a \<inter> sc_write_files b \<and>
    set (ov_overlapping_entities (classify_overlap uuid_str a b)) =
      (if sc_write_entities a \<inter> sc_write_entities b \<noteq> {} then sc_write_entities a \<inter> sc_write_entities b else in_blast a b \<union> in_blast b a) \<and>
    sorted (ov_overlapping_entities (classify_overlap uuid_str a b)) \<and> distinct (ov_overlapping_entities (classify_overlap uuid_str a b))"
proof -
  have fin: "finite (sc_write_files a)" "finite (sc_write_entities a)" "finite (in_blast a b)" "finite (in_blast b a)"
    using assms by (simp_all add: finite_scope_def)
  let ?S = "sc_write_entities a \<inter> sc_write_entities b" and ?R = "in_blast a b \<union> in_blast b a"
  let ?F = "sc_write_files a \<inter> sc_write_files b" and ?c = "classify_overlap uuid_str a b"
  have "ov_level ?c = ov_level (classify_overlap uuid_str b a)"
    unfolding classify_level [OF assms] classify_level [OF assms(2,1)]
      Int_commute [of "sc_write_entities b"] Int_commute [of "sc_write_files b"] Un_commute [of "in_blast b a"] by (rule refl)
  moreover have "ov_level ?c = LvNone \<longleftrightarrow> ?F = {} \<and> ?S = {} \<and> in_blast a b = {} \<and> in_blast b a = {}"
    unfolding classify_level [OF assms] by (auto simp: Let_def)
  moreover have "set (ov_overlapping_files ?c) = ?F"
    using fin by (auto simp: classify_overlap_def Let_def simp flip: set_empty)
  moreover have "set (ov_overlapping_entities ?c) = (if ?S \<noteq> {} then ?S else ?R)"
    using fin by (simp add: classify_overlap_def Let_def flip: set_empty)
  moreover have "sorted (ov_overlapping_entities ?c) \<and> distinct (ov_overlapping_entities ?c)"
    by (simp add: classify_overlap_def Let_def distinct_remdups_adj_sorted)
  ultimately show ?thesis by blast
qed

theorem classify_overlap_exact_witness:
  "ov_level (classify_overlap nat_to_string \<lparr>sc_workspace_id = 1, sc_intent = ''a'', sc_write_files = {''x''}, sc_write_entities = {''e''}, sc_blast_radius = {''e''}\<rparr>
     \<lparr>sc_workspace_id = 2, sc_intent = ''b'', sc_write_files = {''y''}, sc_write_entities = {''f''}, sc_blast_radius = {''e'', ''f''}\<rparr>) \<noteq> LvNone"
proof -
  let ?a = "\<lparr>sc_workspace_id = 1, sc_intent = ''a'', sc_write_files = {''x''}, sc_write_entities = {''e''}, sc_blast_radius = {''e''}\<rparr>"
    and ?b = "\<lparr>sc_workspace_id = 2, sc_intent = ''b'', sc_write_files = {''y''}, sc_write_entities = {''f''}, sc_blast_radius = {''e'', ''f''}\<rparr>"
  have "finite_scope ?a" "finite_scope ?b" "in_blast ?a ?b \<noteq> {}" by (auto simp: finite_scope_def in_blast_def)
  with classify_overlap_exact [of ?a ?b nat_to_string] show ?thesis by blast
qed

text \<open>C13: In every engine that updates and removals produce, an update stores exactly the given files for
  its workspace and leaves the other scopes alone, and reports exactly the other tracked
  workspaces that share a file with it, each once and at level low: no higher level can occur,
  since nothing fills the entity sets.\<close>

theorem update_scope_reports:
  assumes "engine_reachable e"
  shows "let (rs, e') = update_scope uuid_str e wid intent paths in
    engine_reachable e' \<and>
    get_scope e' = (get_scope e)(wid \<mapsto> \<lparr>sc_workspace_id = wid, sc_intent = intent, sc_write_files = set paths,
      sc_write_entities = {}, sc_blast_radius = {}\<rparr>) \<and>
    distinct (map ov_other_workspace rs) \<and>
    set (map ov_other_workspace rs) = {w. w \<noteq> wid \<and> (\<exists>s. get_scope e w = Some s \<and> sc_write_files s \<inter> set paths \<noteq> {})} \<and>
    (\<forall>r\<in>set rs. ov_level r = LvLow)"
proof -
  have wf: "wf_engine e" by (rule engine_reachable_wf [OF assms])
  obtain rs e' where r: "update_scope uuid_str e wid intent paths = (rs, e')" by fastforce
  let ?u = "\<lparr>sc_workspace_id = wid, sc_intent = intent, sc_write_files = set paths, sc_write_entities = {}, sc_blast_radius = {}\<rparr>"
  have e': "e' = AList.update wid ?u e" and rs: "rs = sort_key (\<lambda>r. - int (level_rank (ov_level r))) (filter (\<lambda>r. ov_level r \<noteq> LvNone)
      (map (classify_overlap uuid_str ?u) (filter (\<lambda>s. sc_workspace_id s \<noteq> wid) (map snd e'))))"
    using r by (auto simp: update_scope_eq updated_scope_wf [OF wf] Let_def)
  have wf': "wf_engine e'" using wf_engine_update [OF wf, of uuid_str wid intent paths] r by simp
  have d: "distinct (map fst e')" using wf' by (simp add: wf_engine_def)
  have ids: "map (sc_workspace_id \<circ> snd) e' = map fst e'"
    using wf' d by (auto simp: wf_engine_def map_of_eq_Some_iff)
  have lev: "ov_level (classify_overlap uuid_str ?u s) = (if sc_write_files s \<inter> set paths \<noteq> {} then LvLow else LvNone)"
    if "(w, s) \<in> set e'" for w s
    using wf_engineD(3-5) [OF wf'] that d classify_level [of ?u s uuid_str]
    by (auto simp: finite_scope_def in_blast_def Int_commute map_of_eq_Some_iff)
  have mem: "set e' = {(w, s). map_of e' w = Some s}" using d by (auto simp: map_of_eq_Some_iff)
  let ?os = "filter (\<lambda>s. sc_workspace_id s \<noteq> wid) (map snd e')"
  have "distinct (map sc_workspace_id (map snd e'))" using d ids by (simp only: map_map)
  then have "distinct (map sc_workspace_id ?os)" by (rule distinct_map_filter)
  then have "distinct (map ov_other_workspace (map (classify_overlap uuid_str ?u) ?os))" by (simp add: comp_def)
  then have "distinct (map ov_other_workspace rs)" unfolding rs distinct_map_sort_key by (rule distinct_map_filter)
  moreover have "set (map ov_other_workspace rs) = {w. w \<noteq> wid \<and> (\<exists>s. get_scope e w = Some s \<and> sc_write_files s \<inter> set paths \<noteq> {})}"
  proof -
    have id: "(w, s) \<in> set e' \<Longrightarrow> sc_workspace_id s = w" for w s using wf_engineD(1) [OF wf'] by (simp add: mem)
    have "set (map ov_other_workspace rs) = sc_workspace_id ` {s \<in> set ?os. ov_level (classify_overlap uuid_str ?u s) \<noteq> LvNone}"
      unfolding rs by (rule set_map_sort_filter) simp
    also have "\<dots> = {w. \<exists>s. (w, s) \<in> set e' \<and> w \<noteq> wid \<and> ov_level (classify_overlap uuid_str ?u s) \<noteq> LvNone}"
    proof (intro equalityI subsetI)
      fix w assume "w \<in> {w. \<exists>s. (w, s) \<in> set e' \<and> w \<noteq> wid \<and> ov_level (classify_overlap uuid_str ?u s) \<noteq> LvNone}"
      then obtain s where "(w, s) \<in> set e'" "w \<noteq> wid" "ov_level (classify_overlap uuid_str ?u s) \<noteq> LvNone" by blast
      with id [of w s] show "w \<in> sc_workspace_id ` {s \<in> set ?os. ov_level (classify_overlap uuid_str ?u s) \<noteq> LvNone}"
        by (intro image_eqI [of _ _ s]) (auto intro: rev_image_eqI)
    qed (use id in auto)
    also have "\<dots> = {w. w \<noteq> wid \<and> (\<exists>s. map_of e' w = Some s \<and> sc_write_files s \<inter> set paths \<noteq> {})}"
    proof -
      have "(w, s) \<in> set e' \<and> w \<noteq> wid \<and> ov_level (classify_overlap uuid_str ?u s) \<noteq> LvNone \<longleftrightarrow>
          w \<noteq> wid \<and> map_of e' w = Some s \<and> sc_write_files s \<inter> set paths \<noteq> {}" for w s
        unfolding map_of_eq_Some_iff [OF d] using lev [of w s] by (cases "(w, s) \<in> set e'") simp_all
      then show ?thesis by blast
    qed
    also have "\<dots> = {w. w \<noteq> wid \<and> (\<exists>s. get_scope e w = Some s \<and> sc_write_files s \<inter> set paths \<noteq> {})}"
      by (auto simp: get_scope_def e' update_conv')
    finally show ?thesis .
  qed
  moreover have "\<forall>r\<in>set rs. ov_level r = LvLow" unfolding rs using lev by (auto split: if_splits)
  moreover have "get_scope e' = (get_scope e)(wid \<mapsto> ?u)" by (rule ext) (simp add: get_scope_def e' update_conv')
  moreover have "engine_reachable e'"
    using assms step_update [of e uuid_str wid intent paths] r unfolding engine_reachable_def by (simp add: rtranclp.rtrancl_into_rtrancl)
  ultimately show ?thesis using r by simp
qed

theorem update_scope_reports_witness:
  "set (map ov_other_workspace (fst (update_scope nat_to_string (snd (update_scope nat_to_string engine_new 1 ''a'' [''x''])) 2 ''b'' [''x'', ''y'']))) = {1}"
proof -
  define e u where "e = snd (update_scope nat_to_string engine_new 1 ''a'' [''x''])" and "u = updated_scope engine_new 1 ''a'' [''x'']"
  have r: "engine_reachable e" unfolding engine_reachable_def e_def by (intro r_into_rtranclp step_update)
  have g: "get_scope e w = (if w = 1 then Some u else None)" for w
    by (simp add: get_scope_def update_scope_eq Let_def engine_new_def e_def u_def)
  have "sc_write_files u = {''x''}" by (simp add: updated_scope_def engine_new_def u_def)
  then have "sc_write_files u \<inter> set [''x'', ''y''] \<noteq> {}" by simp
  then have "{w. w \<noteq> 2 \<and> (\<exists>s. get_scope e w = Some s \<and> sc_write_files s \<inter> set [''x'', ''y''] \<noteq> {})} = {1}"
    unfolding g by (auto split: if_splits)
  with update_scope_reports [OF r, of nat_to_string 2 "''b''" "[''x'', ''y'']"] show ?thesis
    unfolding Let_def case_prod_beta e_def by (elim conjE) (rule trans)
qed

end
