(* ===== verification/WorkQueue.thy ===== *)
theory WorkQueue
  imports Issue_Laws Conflict
begin

text \<open>
  The work queue (\<open>src/work_queue/mod.rs\<close>): keyword extraction, the scope an issue is predicted to
  touch, the partition of the open issues into available and blocked work, and the claim of an
  issue, which combines the issue store, the workspaces, the event log and the conflict engine.

  The graph snapshot is an option, \<open>None\<close> when its database does not exist. \<open>claim\<close> opens an event
  log at \<open>.vai\<close> itself while the workspace operations use \<open>.vai/event_log\<close>; the two logs are
  separate arguments.
\<close>

datatype WorkQueueError =
    WqIssue IssueError | WqWorkspace WorkspaceError | WqIo | WqIssueNotOpen uuid | WqIssueConflicting uuid

section \<open>Keywords\<close>

definition stop_words :: "string list" where
  "stop_words = [''a'', ''an'', ''and'', ''are'', ''as'', ''at'', ''be'', ''by'', ''do'', ''for'', ''from'',
     ''has'', ''he'', ''in'', ''is'', ''it'', ''its'', ''not'', ''of'', ''on'', ''or'', ''so'',
     ''that'', ''the'', ''to'', ''up'', ''use'', ''was'', ''were'', ''will'', ''with'']"

definition extract_keywords :: "('a) issue_env_scheme \<Rightarrow> string \<Rightarrow> string list" where
  "extract_keywords env text =
     dedup_by id {} (filter (\<lambda>t. 3 \<le> length t \<and> t \<notin> set stop_words)
       (map (str_lowercase env) (split_words (\<lambda>c. \<not> is_alphanumeric env c \<and> c \<noteq> ''_'') text)))"

section \<open>Scope prediction\<close>

datatype PredictionConfidence = CHigh | CMedium | CLow

record PredictedEntity =
  pe_id :: string
  pe_name :: string
  pe_file_path :: string
  pe_confidence :: PredictionConfidence

record ScopePrediction =
  sp_entities :: "PredictedEntity list"
  sp_files :: "string list"
  sp_blast_radius :: nat

definition entity_ids :: "ScopePrediction \<Rightarrow> string set" where
  "entity_ids p = set (map pe_id (sp_entities p))"

definition file_set :: "ScopePrediction \<Rightarrow> string set" where
  "file_set p = set (sp_files p)"

definition empty_prediction :: ScopePrediction where
  "empty_prediction = \<lparr>sp_entities = [], sp_files = [], sp_blast_radius = 0\<rparr>"

definition predicted :: "PredictionConfidence \<Rightarrow> Entity \<Rightarrow> PredictedEntity" where
  "predicted c e = \<lparr>pe_id = en_id e, pe_name = en_name e, pe_file_path = en_file_path e, pe_confidence = c\<rparr>"

definition predict_scope :: "('a) issue_env_scheme \<Rightarrow> graph_db option \<Rightarrow> string \<Rightarrow> ScopePrediction" where
  "predict_scope env graph text =
     (case graph of
        None \<Rightarrow> empty_prediction
      | Some g \<Rightarrow>
          (let keywords = extract_keywords env text
           in if keywords = [] then empty_prediction
              else
                (let direct = dedup_by en_id {} (concat (map (search_entities_by_name g) keywords));
                     direct_ids = map en_id direct;
                     medium = (if direct_ids = [] then []
                               else dedup_by en_id {} (filter (\<lambda>e. en_id e \<notin> set direct_ids) (fst (reachable_entities g direct_ids 1))));
                     medium_ids = map en_id medium;
                     low = (if direct_ids = [] \<and> medium_ids = [] then []
                            else filter (\<lambda>e. en_id e \<notin> set direct_ids \<and> en_id e \<notin> set medium_ids)
                                   (fst (reachable_entities g (direct_ids @ medium_ids) 2)));
                     entities = map (predicted CHigh) direct @ map (predicted CMedium) medium @ map (predicted CLow) low
                 in \<lparr>sp_entities = entities, sp_files = dedup_by id {} (map pe_file_path entities), sp_blast_radius = length entities\<rparr>)))"

section \<open>The queue\<close>

record AvailableWork =
  aw_issue_id :: string
  aw_title :: string
  aw_priority :: string
  aw_predicted_scope :: ScopePrediction

record BlockedWork =
  bw_issue_id :: string
  bw_title :: string
  bw_priority :: string
  bw_blocked_by :: "string list"
  bw_reason :: string

record WorkQueue =
  wq_available_work :: "AvailableWork list"
  wq_blocked_work :: "BlockedWork list"

definition priority_rank :: "string \<Rightarrow> nat" where
  "priority_rank p =
     (if p = ''critical'' then 0 else if p = ''high'' then 1 else if p = ''medium'' then 2 else if p = ''low'' then 3 else 4)"

definition scope_conflict :: "ScopePrediction \<Rightarrow> WorkspaceScope \<Rightarrow> bool" where
  "scope_conflict p s \<longleftrightarrow> (\<exists>f\<in>file_set p. f \<in> sc_write_files s) \<or> (\<exists>i\<in>entity_ids p. i \<in> sc_blast_radius s)"

definition issue_text :: "Issue \<Rightarrow> string" where
  "issue_text x = is_title x @ '' '' @ is_description x"

definition block_reason :: "('a) issue_env_scheme \<Rightarrow> WorkspaceScope \<Rightarrow> string" where
  "block_reason env s = ''workspace '' @ uuid_to_string env (sc_workspace_id s) @ '' is modifying related code (intent: '' @
     [CHR 0x22] @ sc_intent s @ [CHR 0x22] @ '')''"

text \<open>One round of the loop over the open issues: the issue joins one of the two lists.\<close>

definition queue_issue ::
  "('a) issue_env_scheme \<Rightarrow> graph_db option \<Rightarrow> WorkspaceScope list \<Rightarrow> Issue \<Rightarrow> AvailableWork + BlockedWork" where
  "queue_issue env graph scopes x =
     (let prediction = predict_scope env graph (issue_text x);
          conflicting = filter (scope_conflict prediction) scopes
      in if conflicting = []
         then Inl \<lparr>aw_issue_id = uuid_to_string env (is_id x), aw_title = is_title x, aw_priority = priority_as_str (is_priority x),
                   aw_predicted_scope = prediction\<rparr>
         else Inr \<lparr>bw_issue_id = uuid_to_string env (is_id x), bw_title = is_title x, bw_priority = priority_as_str (is_priority x),
                   bw_blocked_by = map (\<lambda>s. uuid_to_string env (sc_workspace_id s)) conflicting,
                   bw_reason = join_with ''; '' (map (block_reason env) conflicting)\<rparr>)"

fun queue_loop ::
  "('a) issue_env_scheme \<Rightarrow> graph_db option \<Rightarrow> WorkspaceScope list \<Rightarrow> Issue list \<Rightarrow> AvailableWork list \<Rightarrow> BlockedWork list \<Rightarrow>
   AvailableWork list \<times> BlockedWork list" where
  "queue_loop env graph scopes [] available blocked = (available, blocked)"
| "queue_loop env graph scopes (x # xs) available blocked =
     (case queue_issue env graph scopes x of
        Inl a \<Rightarrow> queue_loop env graph scopes xs (available @ [a]) blocked
      | Inr b \<Rightarrow> queue_loop env graph scopes xs available (blocked @ [b]))"

definition compute :: "('a) issue_env_scheme \<Rightarrow> graph_db option \<Rightarrow> issue_db \<Rightarrow> ConflictEngine \<Rightarrow> time \<Rightarrow> WorkQueue" where
  "compute env graph db engine now =
     (let open_issues = issue_list env db now \<lparr>if_status = Some [IOpen], if_priority = None, if_label = None, if_creator = None, if_blocked_by = None\<rparr>;
          (available, blocked) = queue_loop env graph (all_scopes engine) open_issues [] []
      in \<lparr>wq_available_work = sort_key (\<lambda>w. priority_rank (aw_priority w)) available,
          wq_blocked_work = sort_key (\<lambda>w. priority_rank (bw_priority w)) blocked\<rparr>)"

section \<open>Claiming\<close>

record ClaimResult =
  cl_issue_id :: string
  cl_workspace_id :: string
  cl_intent :: string
  cl_predicted_scope :: ScopePrediction

text \<open>\<open>vai\<close> holds the log at \<open>.vai/event_log\<close>, \<open>rlog\<close> is the log at \<open>.vai\<close>; \<open>fresh\<close> is the UUID of the workspace.\<close>

definition claim ::
  "('a) issue_env_scheme \<Rightarrow> graph_db option \<Rightarrow> ('b) vai_dir_scheme \<Rightarrow> issue_db \<Rightarrow> event_log \<Rightarrow> uuid \<Rightarrow> ConflictEngine \<Rightarrow> uuid \<Rightarrow> time \<Rightarrow>
   (WorkQueueError, ClaimResult) result \<times> ('b) vai_dir_scheme \<times> issue_db \<times> event_log" where
  "claim env graph vai db rlog issue_id engine fresh now =
     (case issue_get env db now issue_id of
        Inl e \<Rightarrow> (Inl (WqIssue e), vai, db, rlog)
      | Inr x \<Rightarrow>
          if is_status x \<noteq> IOpen then (Inl (WqIssueNotOpen issue_id), vai, db, rlog)
          else
            (let prediction = predict_scope env graph (issue_text x)
             in if list_ex (scope_conflict prediction) (all_scopes engine) then (Inl (WqIssueConflicting issue_id), vai, db, rlog)
                else
                  (case head_file vai of
                     None \<Rightarrow> (Inl WqIo, vai, db, rlog)
                   | Some h \<Rightarrow>
                       (case ws_create env vai (is_title x) (trim h) fresh now of
                          Inl e \<Rightarrow> (Inl (WqWorkspace e), vai, db, rlog)
                        | Inr (ws, vai1) \<Rightarrow>
                            (case set_in_progress env db rlog now issue_id (wm_id (cr_workspace ws)) of
                               (Inl e, db1, rlog1) \<Rightarrow> (Inl (WqIssue e), vai1, db1, rlog1)
                             | (Inr _, db1, rlog1) \<Rightarrow>
                                 (Inr \<lparr>cl_issue_id = uuid_to_string env issue_id, cl_workspace_id = uuid_to_string env (wm_id (cr_workspace ws)),
                                       cl_intent = is_title x, cl_predicted_scope = prediction\<rparr>, vai1, db1, rlog1))))))"

end
