(* ===== verification/WorkQueue_Laws.thy ===== *)
theory WorkQueue_Laws
  imports WorkQueue
begin

text \<open>
  Properties of the work queue: the predicted scope in terms of distances in the semantic graph,
  the exact partition and order of the queue, and every outcome of a claim.
\<close>

section \<open>Predicted scopes\<close>

lemma within_mono_step: "within g A n \<subseteq> within g A (n + k)"
  by (induction k) auto

lemma within_within: "within g (within g A m) n = within g A (m + n)"
  by (induction n) auto

text \<open>Every relationship connects two stored entities.\<close>

definition closed_graph :: "graph_db \<Rightarrow> bool" where
  "closed_graph g \<longleftrightarrow> (\<forall>r\<in>set (rels_tbl g). rr_from r \<in> er_id ` set (entities_tbl g) \<and> rr_to r \<in> er_id ` set (entities_tbl g))"

lemma within_stored: "closed_graph g \<Longrightarrow> A \<subseteq> er_id ` set (entities_tbl g) \<Longrightarrow> within g A n \<subseteq> er_id ` set (entities_tbl g)"
  by (induction n) (auto simp: closed_graph_def nbs_def)

lemma row_to_entity_sel [simp]: "en_id (row_to_entity r) = er_id r" "en_name (row_to_entity r) = er_name r" "en_file_path (row_to_entity r) = er_file_path r"
  by (simp_all add: row_to_entity_def)

text \<open>A list of entities that holds, each once, the stored ones with an identifier in a set.\<close>

definition lists_ids :: "graph_db \<Rightarrow> string set \<Rightarrow> Entity list \<Rightarrow> bool" where
  "lists_ids g A es \<longleftrightarrow> distinct (map en_id es) \<and> set es = row_to_entity ` {r \<in> set (entities_tbl g). er_id r \<in> A}"

lemma entity_unique:
  "wf_graph g \<Longrightarrow> r \<in> set (entities_tbl g) \<Longrightarrow> r' \<in> set (entities_tbl g) \<Longrightarrow> er_id r = er_id r' \<Longrightarrow> r = r'"
  by (auto simp: wf_graph_def dest: inj_onD [OF distinct_map [THEN iffD1, THEN conjunct2]])

lemma inj_on_slice: "inj_on f T \<Longrightarrow> S \<subseteq> T \<Longrightarrow> S = {e \<in> T. f e \<in> f ` S}"
  by (auto dest: inj_onD)

lemma lists_ids_dedup:
  assumes "wf_graph g" "set es \<subseteq> row_to_entity ` set (entities_tbl g)" "A = en_id ` set es"
  shows "lists_ids g A (dedup_by en_id {} es)"
proof -
  let ?T = "row_to_entity ` set (entities_tbl g)"
  have inj: "inj_on en_id ?T" using entity_unique [OF assms(1)] by (auto simp: inj_on_def)
  have "set (dedup_by en_id {} es) \<subseteq> ?T" using dedup_by_subset assms(2) by (rule subset_trans)
  moreover have "en_id ` set (dedup_by en_id {} es) = A" by (simp add: dedup_by_keys assms(3))
  moreover have "row_to_entity ` {r \<in> set (entities_tbl g). er_id r \<in> A} = {e \<in> ?T. en_id e \<in> A}" by auto
  ultimately have "set (dedup_by en_id {} es) = row_to_entity ` {r \<in> set (entities_tbl g). er_id r \<in> A}"
    using inj_on_slice [OF inj, of "set (dedup_by en_id {} es)"] by simp
  then show ?thesis by (simp add: lists_ids_def dedup_by_distinct)
qed

lemma lists_ids_filter:
  "lists_ids g A es \<Longrightarrow> lists_ids g (A - B) (filter (\<lambda>e. en_id e \<notin> B) es)"
  by (auto simp: lists_ids_def distinct_map_filter)

lemma lists_ids_ids: "lists_ids g A es \<Longrightarrow> A \<subseteq> er_id ` set (entities_tbl g) \<Longrightarrow> en_id ` set es = A"
  by (fastforce simp: lists_ids_def image_iff)

lemma lists_ids_reachable:
  assumes "wf_graph g"
  shows "lists_ids g (within g (set seeds) n) (fst (reachable_entities g seeds n))"
proof -
  let ?ids = "bfs g n (seed_ids [] seeds) (map (\<lambda>i. (i, 0)) (seed_ids [] seeds))"
  have ids: "set ?ids = within g (set seeds) n" by (rule bfs_reaches)
  have "distinct (map er_id (order_by_line (filter P (entities_tbl g))))" for P
    using assms by (simp add: wf_graph_def order_by_line_def distinct_map inj_on_def)
  then show ?thesis
    using ids by (auto simp: lists_ids_def reachable_entities_def Let_def get_entities_by_ids_def order_by_line_def comp_def)
qed

lemma lists_ids_length: "lists_ids g A es \<Longrightarrow> A \<subseteq> er_id ` set (entities_tbl g) \<Longrightarrow> length es = card A"
  using lists_ids_ids [of g A es] by (metis distinct_card length_map lists_ids_def set_map)

definition keyword_ids :: "graph_db \<Rightarrow> string list \<Rightarrow> string set" where
  "keyword_ids g ks = {er_id r |r. r \<in> set (entities_tbl g) \<and> (\<exists>k\<in>set ks. sql_like (contains_pattern k) (er_name r))}"

lemma direct_lists:
  assumes "wf_graph g"
  shows "lists_ids g (keyword_ids g ks) (dedup_by en_id {} (concat (map (search_entities_by_name g) ks)))"
  by (rule lists_ids_dedup [OF assms]) (force simp: search_entities_by_name_def order_by_line_def keyword_ids_def)+

text \<open>The three groups of a prediction.\<close>

lemma predict_groups:
  assumes "wf_graph g" "closed_graph g" "D = keyword_ids g (extract_keywords env text)"
  obtains direct medium low where
    "sp_entities (predict_scope env (Some g) text) = map (predicted CHigh) direct @ map (predicted CMedium) medium @ map (predicted CLow) low"
    "lists_ids g D direct" "lists_ids g (within g D 1 - D) medium" "lists_ids g (within g D 3 - within g D 1) low"
proof (cases "extract_keywords env text = []")
  case True
  then have D: "D = {}" by (simp add: assms(3) keyword_ids_def)
  have e: "within g {} n = {}" for n by (induction n) (auto simp: nbs_def)
  have "nbs g {} = {}" by (simp add: nbs_def)
  with True show ?thesis by (intro that [of "[]" "[]" "[]"]) (auto simp: D e lists_ids_def predict_scope_def empty_prediction_def)
next
  case False
  define direct where "direct = dedup_by en_id {} (concat (map (search_entities_by_name g) (extract_keywords env text)))"
  define medium where "medium = dedup_by en_id {} (filter (\<lambda>e. en_id e \<notin> set (map en_id direct)) (fst (reachable_entities g (map en_id direct) 1)))"
  define low where "low = filter (\<lambda>e. en_id e \<notin> set (map en_id direct @ map en_id medium)) (fst (reachable_entities g (map en_id direct @ map en_id medium) 2))"
  have stored: "D \<subseteq> er_id ` set (entities_tbl g)" by (auto simp: assms(3) keyword_ids_def)
  note st = within_stored [OF assms(2) stored]
  have d: "lists_ids g D direct" unfolding assms(3) direct_def by (rule direct_lists [OF assms(1)])
  have di: "set (map en_id direct) = D" using lists_ids_ids [OF d stored] by simp
  have "lists_ids g (within g D 1 - D) (filter (\<lambda>e. en_id e \<notin> set (map en_id direct)) (fst (reachable_entities g (map en_id direct) 1)))"
    using lists_ids_filter [OF lists_ids_reachable [OF assms(1), of "map en_id direct" 1], of D] unfolding di .
  then have m: "lists_ids g (within g D 1 - D) medium"
    unfolding medium_def
    by (intro lists_ids_dedup [OF assms(1)] lists_ids_ids [symmetric]) (use st [of 1] in \<open>auto simp: lists_ids_def\<close>)
  have mi: "set (map en_id direct @ map en_id medium) = within g D 1"
  proof -
    have "within g D 1 - D \<subseteq> er_id ` set (entities_tbl g)" using st [of 1] by blast
    then have "set (map en_id medium) = within g D 1 - D" using lists_ids_ids [OF m] by simp
    moreover have "D \<subseteq> within g D 1" using within_mono_step [of g D 0 1] by simp
    ultimately show ?thesis unfolding set_append di by blast
  qed
  have "within g (within g D 1) 2 = within g D 3" using within_within [of g D 1 2] by (simp add: numeral_3_eq_3 del: within.simps)
  then have l: "lists_ids g (within g D 3 - within g D 1) low"
    using lists_ids_filter [OF lists_ids_reachable [OF assms(1), of "map en_id direct @ map en_id medium" 2], of "within g D 1"]
    unfolding low_def mi by simp
  have nil: "fst (reachable_entities g [] n) = []" for n by (simp add: reachable_entities_def get_entities_by_ids_def order_by_line_def)
  have "sp_entities (predict_scope env (Some g) text) = map (predicted CHigh) direct @ map (predicted CMedium) medium @ map (predicted CLow) low"
    using False by (auto simp: predict_scope_def Let_def direct_def [symmetric] medium_def low_def nil)
  from that [OF this d m l] show ?thesis .
qed

section \<open>The queue\<close>

lemma queue_loop_eq:
  "queue_loop env graph scopes xs as bs =
     (as @ concat (map (\<lambda>x. case queue_issue env graph scopes x of Inl a \<Rightarrow> [a] | Inr _ \<Rightarrow> []) xs),
      bs @ concat (map (\<lambda>x. case queue_issue env graph scopes x of Inr b \<Rightarrow> [b] | Inl _ \<Rightarrow> []) xs))"
  by (induction xs arbitrary: as bs) (auto split: sum.split)

text \<open>The open issues of the database.\<close>

definition open_issues :: "('a) issue_env_scheme \<Rightarrow> issue_db \<Rightarrow> Issue set" where
  "open_issues env db = {x. \<exists>i. issue_view env db i = Some x \<and> is_status x = IOpen}"

lemma row_status_open:
  assumes "wf_issue_row env r"
  shows "is_status (row_to_issue env now r) = IOpen \<longleftrightarrow> ir_status r = ''open''"
proof -
  obtain s where "ir_status r = issue_status_str s" using assms by (auto simp: wf_issue_row_def)
  then show ?thesis by (cases s) (simp_all add: status_of_row)
qed

lemma row_in_view:
  assumes "wf_issues env db" "r \<in> set (issues_tbl db)"
  shows "issue_view env db (is_id (row_to_issue env now r)) = Some (row_to_issue env now r)" "uuid_to_string env (is_id (row_to_issue env now r)) = ir_id r"
proof -
  have c: "issue_codecs env" "wf_issue_row env r" using assms by (simp_all add: wf_issues_def)
  then obtain i where i: "ir_id r = uuid_to_string env i" by (auto simp: wf_issue_row_def)
  have id: "is_id (row_to_issue env now r) = i" by (rule row_to_issue_id [OF c(1) i])
  then show "uuid_to_string env (is_id (row_to_issue env now r)) = ir_id r" by (simp add: i)
  have "distinct (map fst (map (\<lambda>r. (ir_id r, r)) (issues_tbl db)))" using assms(1) by (simp add: wf_issues_def comp_def)
  then have "issue_rows db (ir_id r) = Some r" using assms(2) by (auto simp: issue_rows_def intro: map_of_is_SomeI)
  then show "issue_view env db (is_id (row_to_issue env now r)) = Some (row_to_issue env now r)"
    unfolding issue_view_def id i [symmetric] by (simp add: row_to_issue_now [OF c, of now])
qed

abbreviation "open_filter \<equiv> \<lparr>if_status = Some [IOpen], if_priority = None, if_label = None, if_creator = None, if_blocked_by = None\<rparr>"

lemma issue_list_open:
  assumes "wf_issues env db"
  shows "set (issue_list env db now open_filter) = open_issues env db"
    and "distinct (map (\<lambda>x. uuid_to_string env (is_id x)) (issue_list env db now open_filter))"
proof -
  let ?rs = "filter (\<lambda>r. ir_status r = ''open'') (issues_tbl db)"
  have f: "filter (filter_matches env db open_filter) (issues_tbl db) = ?rs"
    by (rule filter_cong) (simp_all add: filter_matches_def status_matches_def label_matches_def)
  have wf: "wf_issue_row env r" if "r \<in> set (issues_tbl db)" for r using assms that by (simp add: wf_issues_def)
  show "set (issue_list env db now open_filter) = open_issues env db"
  proof (intro equalityI subsetI)
    fix x assume "x \<in> set (issue_list env db now open_filter)"
    then obtain r where r: "r \<in> set (issues_tbl db)" "ir_status r = ''open''" "x = row_to_issue env now r"
      by (auto simp: issue_list_def f order_desc_def)
    have "is_status x = IOpen" using row_status_open [OF wf [OF r(1)], of now] r(2,3) by simp
    moreover have "issue_view env db (is_id x) = Some x" unfolding r(3) by (rule row_in_view(1) [OF assms r(1)])
    ultimately show "x \<in> open_issues env db" unfolding open_issues_def by blast
  next
    fix x assume "x \<in> open_issues env db"
    then obtain i r where r: "issue_rows db (uuid_to_string env i) = Some r" "x = row_to_issue env 0 r" "is_status x = IOpen"
      by (auto simp: open_issues_def issue_view_def)
    have r': "r \<in> set (issues_tbl db)" using issue_rows_id [OF r(1)] by simp
    then have "x = row_to_issue env now r" "ir_status r = ''open''"
      using row_to_issue_now [of env r now] row_status_open [OF wf] r(2,3) wf assms by (auto simp: wf_issues_def)
    with r' show "x \<in> set (issue_list env db now open_filter)" by (auto simp: issue_list_def f order_desc_def)
  qed
  have "map (\<lambda>x. uuid_to_string env (is_id x)) (issue_list env db now open_filter) = map ir_id (order_desc ?rs)"
    using row_in_view(2) [OF assms, of _ now] by (simp add: issue_list_def f order_desc_def)
  moreover have "distinct (map ir_id (order_desc ?rs))"
    using assms by (simp add: wf_issues_def order_desc_def distinct_map inj_on_def)
  ultimately show "distinct (map (\<lambda>x. uuid_to_string env (is_id x)) (issue_list env db now open_filter))" by simp
qed

text \<open>The workspaces whose scope stands in the way of an issue.\<close>

definition blockers :: "('a) issue_env_scheme \<Rightarrow> graph_db option \<Rightarrow> ConflictEngine \<Rightarrow> Issue \<Rightarrow> WorkspaceScope list" where
  "blockers env graph engine x = filter (scope_conflict (predict_scope env graph (issue_text x))) (all_scopes engine)"

lemma queue_issue_cases:
  "case queue_issue env graph (all_scopes engine) x of
     Inl a \<Rightarrow> blockers env graph engine x = [] \<and> aw_issue_id a = uuid_to_string env (is_id x) \<and>
       aw_priority a = priority_as_str (is_priority x) \<and> aw_predicted_scope a = predict_scope env graph (issue_text x)
   | Inr b \<Rightarrow> blockers env graph engine x \<noteq> [] \<and> bw_issue_id b = uuid_to_string env (is_id x) \<and>
       bw_priority b = priority_as_str (is_priority x) \<and>
       bw_blocked_by b = map (\<lambda>s. uuid_to_string env (sc_workspace_id s)) (blockers env graph engine x)"
  by (simp add: queue_issue_def Let_def blockers_def)

lemma map_concat_left:
  assumes "\<And>x. case q x of Inl a \<Rightarrow> f a = k x \<and> P x | Inr b \<Rightarrow> \<not> P x"
  shows "map f (concat (map (\<lambda>x. case q x of Inl a \<Rightarrow> [a] | Inr _ \<Rightarrow> []) xs)) = map k (filter P xs)"
proof (induction xs)
  case (Cons x xs)
  with assms [of x] show ?case by (cases "q x") simp_all
qed simp

lemma map_concat_right:
  assumes "\<And>x. case q x of Inl a \<Rightarrow> \<not> P x | Inr b \<Rightarrow> f b = k x \<and> P x"
  shows "map f (concat (map (\<lambda>x. case q x of Inr b \<Rightarrow> [b] | Inl _ \<Rightarrow> []) xs)) = map k (filter P xs)"
proof (induction xs)
  case (Cons x xs)
  with assms [of x] show ?case by (cases "q x") simp_all
qed simp

section \<open>Claiming\<close>

lemma set_in_progress_open:
  assumes "wf_issues env db" "wf_log env rlog" "issue_view env db i = Some x" "is_status x = IOpen"
  obtains db' rlog' where "set_in_progress env db rlog now i w = (Inr (x\<lparr>is_status := IInProgress, is_updated_at := now\<rparr>), db', rlog')"
    "wf_issues env db'" "issue_view env db' = (issue_view env db)(i \<mapsto> x\<lparr>is_status := IInProgress, is_updated_at := now\<rparr>)"
    "w \<in> set (linked_workspaces env db' i)" "wf_log env rlog'"
    "map ev_kind (log_events env rlog') = map ev_kind (log_events env rlog) @ [IssueLinkedToWorkspace i w]"
proof -
  let ?k = "uuid_to_string env i" and ?wk = "uuid_to_string env w"
  let ?f = "\<lambda>r. r\<lparr>ir_status := ''in_progress'', ir_updated_at := to_rfc3339 env now\<rparr>"
  let ?db1 = "update_issue_row ?k ?f db"
  define db2 where "db2 = (if list_ex (\<lambda>(a, b, _). a = ?k \<and> b = ?wk) (links_tbl ?db1) then ?db1
    else ?db1\<lparr>links_tbl := links_tbl ?db1 @ [(?k, ?wk, to_rfc3339 env now)]\<rparr>)"
  have c: "issue_codecs env" using assms(1) by (simp add: wf_issues_def)
  obtain r where r: "issue_rows db ?k = Some r" "x = row_to_issue env 0 r" using assms(3) by (auto simp: issue_view_def)
  have tb: "issues_tbl db2 = issues_tbl ?db1" by (simp add: db2_def)
  have "row_to_issue env 0 (?f r) = x\<lparr>is_status := IInProgress, is_updated_at := now\<rparr>"
    using c by (simp add: r(2) row_to_issue_def issue_codecs_def)
  then have v: "issue_view env db2 = (issue_view env db)(i \<mapsto> x\<lparr>is_status := IInProgress, is_updated_at := now\<rparr>)"
    using view_update_issue_row [OF c, of ?f i db] r(1) issue_rows_cong [OF tb] by (simp add: issue_view_def fun_eq_iff)
  have "wf_issues env ?db1" by (rule wf_update_issue_row [OF assms(1)]) (simp_all add: wf_row_statuses)
  then have wf: "wf_issues env db2" using tb by (simp add: wf_issues_def)
  obtain rlog' where l: "log_then env db2 rlog now (IssueLinkedToWorkspace i w) (\<lambda>log1. (issue_get env db2 now i, db2, log1)) = (issue_get env db2 now i, db2, rlog')"
    "wf_log env rlog'" "map ev_kind (log_events env rlog') = map ev_kind (log_events env rlog) @ [IssueLinkedToWorkspace i w]"
    by (rule log_then_ok [OF assms(2)])
  have "\<exists>t. (?k, ?wk, t) \<in> set (links_tbl db2)" by (auto simp: db2_def list_ex_iff)
  then have linked: "w \<in> set (linked_workspaces env db2 i)"
    using c by (force simp: linked_workspaces_def List.map_filter_def issue_codecs_def)
  have "set_in_progress env db rlog now i w = (Inr (x\<lparr>is_status := IInProgress, is_updated_at := now\<rparr>), db2, rlog')"
  proof -
    have "set_in_progress env db rlog now i w =
        log_then env db2 rlog now (IssueLinkedToWorkspace i w) (\<lambda>log1. (issue_get env db2 now i, db2, log1))"
      using assms(3,4) by (simp add: set_in_progress_def issue_get_view [OF assms(1)] Let_def db2_def)
    also have "\<dots> = (issue_get env db2 now i, db2, rlog')" by (rule l(1))
    finally show ?thesis using issue_get_view [OF wf, of now i] v by simp
  qed
  from that [OF this wf v linked l(2,3)] show ?thesis .
qed

section \<open>Properties\<close>

lemma predicted_sel [simp]: "pe_id (predicted c e) = en_id e" "pe_confidence (predicted c e) = c"
  "pe_file_path (predicted c e) = en_file_path e"
  by (simp_all add: predicted_def)

lemma predict_scope_derived:
  "sp_files (predict_scope env graph text) = dedup_by id {} (map pe_file_path (sp_entities (predict_scope env graph text)))"
  "sp_blast_radius (predict_scope env graph text) = length (sp_entities (predict_scope env graph text))"
  by (simp_all add: predict_scope_def Let_def empty_prediction_def split: option.split)

lemma lists_ids_mem:
  assumes "wf_graph g" "lists_ids g A es" "r \<in> set (entities_tbl g)"
  shows "row_to_entity r \<in> set es \<longleftrightarrow> er_id r \<in> A"
proof
  assume "row_to_entity r \<in> set es"
  then obtain r' where "row_to_entity r = row_to_entity r'" "er_id r' \<in> A" using assms(2) by (auto simp: lists_ids_def)
  then show "er_id r \<in> A" by (metis row_to_entity_sel(1))
qed (use assms(2,3) in \<open>simp add: lists_ids_def\<close>)

lemma lists_ids_append3:
  assumes "lists_ids g D xs" "lists_ids g (M - D) ys" "lists_ids g (L - M) zs" "D \<subseteq> M" "M \<subseteq> L"
  shows "lists_ids g L (xs @ ys @ zs)"
proof -
  have ids: "en_id ` set xs \<subseteq> D" "en_id ` set ys \<subseteq> M - D" "en_id ` set zs \<subseteq> L - M" using assms(1-3) by (auto simp: lists_ids_def)
  then have "distinct (map en_id (xs @ ys @ zs))" using assms by (auto simp: lists_ids_def)
  moreover have "{r \<in> set (entities_tbl g). er_id r \<in> L} = {r \<in> set (entities_tbl g). er_id r \<in> D} \<union>
      {r \<in> set (entities_tbl g). er_id r \<in> M - D} \<union> {r \<in> set (entities_tbl g). er_id r \<in> L - M}" using assms(4,5) by blast
  ultimately show ?thesis using assms(1-3) by (simp add: lists_ids_def image_Un Un_assoc)
qed

lemma predicted_mem:
  assumes "wf_graph g" "r \<in> set (entities_tbl g)" "lists_ids g D direct" "lists_ids g M medium" "lists_ids g L low"
  shows "predicted c (row_to_entity r) \<in> set (map (predicted CHigh) direct @ map (predicted CMedium) medium @ map (predicted CLow) low) \<longleftrightarrow>
    er_id r \<in> (case c of CHigh \<Rightarrow> D | CMedium \<Rightarrow> M | CLow \<Rightarrow> L)"
proof -
  have one: "predicted c (row_to_entity r) \<in> predicted c' ` set es \<longleftrightarrow> c = c' \<and> er_id r \<in> A" if "lists_ids g A es" for c' A es
  proof
    assume "predicted c (row_to_entity r) \<in> predicted c' ` set es"
    then obtain e where e: "e \<in> set es" "predicted c (row_to_entity r) = predicted c' e" by blast
    then have "en_id e = er_id r" "c = c'" by (simp_all add: predicted_def)
    with e(1) that show "c = c' \<and> er_id r \<in> A" by (auto simp: lists_ids_def)
  qed (use lists_ids_mem [OF assms(1) that assms(2)] in auto)
  show ?thesis unfolding set_append set_map Un_iff one [OF assms(3)] one [OF assms(4)] one [OF assms(5)] by (cases c) simp_all
qed

text \<open>The predicted scope is graded by distance in the semantic graph: the entities whose name contains
  a keyword are predicted with high confidence, those one relationship step away with medium and
  those two or three steps away with low confidence; nothing else is predicted, no entity twice,
  and the blast radius is the number of entities within three steps.\<close>

theorem predict_scope_exact:
  assumes "wf_graph g" "closed_graph g"
  shows "let p = predict_scope env (Some g) text; D = keyword_ids g (extract_keywords env text) in
    (\<forall>r\<in>set (entities_tbl g). \<forall>c. predicted c (row_to_entity r) \<in> set (sp_entities p) \<longleftrightarrow>
       er_id r \<in> (case c of CHigh \<Rightarrow> D | CMedium \<Rightarrow> within g D 1 - D | CLow \<Rightarrow> within g D 3 - within g D 1)) \<and>
    entity_ids p = within g D 3 \<and> distinct (map pe_id (sp_entities p)) \<and> sp_blast_radius p = card (within g D 3) \<and>
    file_set p = {er_file_path r |r. r \<in> set (entities_tbl g) \<and> er_id r \<in> within g D 3}"
proof -
  define D where "D = keyword_ids g (extract_keywords env text)"
  obtain direct medium low where p:
    "sp_entities (predict_scope env (Some g) text) = map (predicted CHigh) direct @ map (predicted CMedium) medium @ map (predicted CLow) low"
    "lists_ids g D direct" "lists_ids g (within g D 1 - D) medium" "lists_ids g (within g D 3 - within g D 1) low"
    by (rule predict_groups [OF assms D_def])
  have sub: "D \<subseteq> within g D 1" using within_mono_step [of g D 0 1] by simp
  have sub3: "within g D 1 \<subseteq> within g D 3" using within_mono_step [of g D 1 2] by (simp add: numeral_3_eq_3 del: within.simps)
  have st: "within g D n \<subseteq> er_id ` set (entities_tbl g)" for n
    by (rule within_stored [OF assms(2)]) (auto simp: D_def keyword_ids_def)
  let ?es = "direct @ medium @ low"
  have "lists_ids g (within g D 3) ?es"
    using p(2,3,4) sub sub3 by (intro lists_ids_append3)
  note es = this lists_ids_ids [OF this st] lists_ids_length [OF this st]
  have ids: "map pe_id (sp_entities (predict_scope env (Some g) text)) = map en_id ?es" by (simp add: p(1) comp_def)
  have fi: "file_set (predict_scope env (Some g) text) = en_file_path ` set ?es"
    "sp_blast_radius (predict_scope env (Some g) text) = length ?es"
    using dedup_by_keys [of id "{}" "map en_file_path ?es"]
    by (simp_all add: file_set_def predict_scope_derived p(1) comp_def image_Un)
  show ?thesis
    unfolding Let_def D_def [symmetric]
  proof (intro conjI ballI allI)
    fix r c assume "r \<in> set (entities_tbl g)"
    from predicted_mem [OF assms(1) this p(2,3,4), of c]
    show "predicted c (row_to_entity r) \<in> set (sp_entities (predict_scope env (Some g) text)) \<longleftrightarrow>
       er_id r \<in> (case c of CHigh \<Rightarrow> D | CMedium \<Rightarrow> within g D 1 - D | CLow \<Rightarrow> within g D 3 - within g D 1)" unfolding p(1) .
  next
    show "entity_ids (predict_scope env (Some g) text) = within g D 3" unfolding entity_ids_def ids using es(2) by (simp add: image_Un)
    show "distinct (map pe_id (sp_entities (predict_scope env (Some g) text)))" unfolding ids using es(1) by (simp add: lists_ids_def)
    show "sp_blast_radius (predict_scope env (Some g) text) = card (within g D 3)" unfolding fi(2) by (rule es(3))
    show "file_set (predict_scope env (Some g) text) = {er_file_path r |r. r \<in> set (entities_tbl g) \<and> er_id r \<in> within g D 3}"
      unfolding fi(1) using es(1) by (auto simp: lists_ids_def image_image)
  qed
qed

text \<open>C12: The work queue partitions the open issues: an issue is available exactly when its predicted scope
  meets no active scope, it is blocked otherwise with exactly the workspaces in its way, no issue
  is listed twice, issues that are not open are not listed, and both lists are ordered by priority.\<close>

theorem compute_partition:
  assumes "wf_issues env db"
  shows "let q = compute env graph db engine now; A = wq_available_work q; B = wq_blocked_work q in
    aw_issue_id ` set A = {uuid_to_string env (is_id x) |x. x \<in> open_issues env db \<and> blockers env graph engine x = []} \<and>
    (\<lambda>b. (bw_issue_id b, bw_blocked_by b)) ` set B =
      {(uuid_to_string env (is_id x), map (\<lambda>s. uuid_to_string env (sc_workspace_id s)) (blockers env graph engine x)) |x.
         x \<in> open_issues env db \<and> blockers env graph engine x \<noteq> []} \<and>
    distinct (map aw_issue_id A @ map bw_issue_id B) \<and>
    sorted (map (\<lambda>a. priority_rank (aw_priority a)) A) \<and> sorted (map (\<lambda>b. priority_rank (bw_priority b)) B)"
proof -
  let ?k = "\<lambda>x. uuid_to_string env (is_id x)" and ?P = "\<lambda>x. blockers env graph engine x = []"
  define xs where "xs = issue_list env db now open_filter"
  define as where "as = concat (map (\<lambda>x. case queue_issue env graph (all_scopes engine) x of Inl a \<Rightarrow> [a] | Inr _ \<Rightarrow> []) xs)"
  define bs where "bs = concat (map (\<lambda>x. case queue_issue env graph (all_scopes engine) x of Inr b \<Rightarrow> [b] | Inl _ \<Rightarrow> []) xs)"
  have xs: "set xs = open_issues env db" "distinct (map ?k xs)" unfolding xs_def by (rule issue_list_open [OF assms])+
  have q: "compute env graph db engine now = \<lparr>wq_available_work = sort_key (\<lambda>w. priority_rank (aw_priority w)) as,
      wq_blocked_work = sort_key (\<lambda>w. priority_rank (bw_priority w)) bs\<rparr>"
    by (simp add: compute_def queue_loop_eq as_def bs_def xs_def Let_def)
  have a: "map aw_issue_id as = map ?k (filter ?P xs)" unfolding as_def
    by (rule map_concat_left) (use queue_issue_cases in \<open>fastforce split: sum.splits\<close>)
  have b: "map (\<lambda>b. (bw_issue_id b, bw_blocked_by b)) bs =
      map (\<lambda>x. (?k x, map (\<lambda>s. uuid_to_string env (sc_workspace_id s)) (blockers env graph engine x))) (filter (\<lambda>x. \<not> ?P x) xs)"
    unfolding bs_def by (rule map_concat_right) (use queue_issue_cases in \<open>fastforce split: sum.splits\<close>)
  have b1: "map bw_issue_id bs = map ?k (filter (\<lambda>x. \<not> ?P x) xs)" using arg_cong [OF b, of "map fst"] by (simp add: comp_def)
  have "distinct (map ?k (filter ?P xs) @ map ?k (filter (\<lambda>x. \<not> ?P x) xs))"
    using xs(2) by (auto simp: distinct_map inj_on_def)
  then have d: "distinct (map aw_issue_id (sort_key f as) @ map bw_issue_id (sort_key h bs))" for f h
    unfolding a [symmetric] b1 [symmetric] by (simp add: distinct_map)
  show ?thesis
    unfolding Let_def q using d arg_cong [OF a, of set] arg_cong [OF b, of set] xs(1) by auto
qed

text \<open>C5: Every outcome of a claim: an unknown issue, an issue that is not open, one whose predicted scope meets
  an active scope and a repository without HEAD are refused with nothing changed; otherwise the
  claim succeeds, a workspace with the title as intent and HEAD as base becomes the active one, the
  issue is in progress and linked to it, and a second claim is refused. The link event goes to the
  log at \<open>.vai\<close>, the event log of the repository records the workspace only.\<close>

theorem claim_outcomes:
  assumes "wf_issues env db" "wf_vai env vai" "wf_log env rlog"
  shows "case issue_view env db i of
      None \<Rightarrow> claim env graph vai db rlog i engine fresh now = (Inl (WqIssue (IsNotFound i)), vai, db, rlog)
    | Some x \<Rightarrow>
        if is_status x \<noteq> IOpen then claim env graph vai db rlog i engine fresh now = (Inl (WqIssueNotOpen i), vai, db, rlog)
        else if blockers env graph engine x \<noteq> [] then claim env graph vai db rlog i engine fresh now = (Inl (WqIssueConflicting i), vai, db, rlog)
        else (case head_file vai of
            None \<Rightarrow> claim env graph vai db rlog i engine fresh now = (Inl WqIo, vai, db, rlog)
          | Some h \<Rightarrow> \<exists>res vai' db' rlog' m. claim env graph vai db rlog i engine fresh now = (Inr res, vai', db', rlog') \<and>
              wf_issues env db' \<and> wf_vai env vai' \<and> wf_log env rlog' \<and>
              ws_active env vai' = Inr m \<and> wm_id m = fresh \<and> wm_intent m = is_title x \<and> wm_base_version m = trim h \<and>
              ws_view env vai' = (ws_view env vai)(uuid_to_string env fresh \<mapsto> m) \<and>
              issue_view env db' = (issue_view env db)(i \<mapsto> x\<lparr>is_status := IInProgress, is_updated_at := now\<rparr>) \<and>
              fresh \<in> set (linked_workspaces env db' i) \<and>
              vai_kinds env vai' = vai_kinds env vai @ [WorkspaceCreated fresh (is_title x) (trim h)] \<and>
              map ev_kind (log_events env rlog') = map ev_kind (log_events env rlog) @ [IssueLinkedToWorkspace i fresh] \<and>
              fst (claim env graph vai' db' rlog' i engine fresh2 later) = Inl (WqIssueNotOpen i))"
proof (cases "issue_view env db i")
  case None
  then show ?thesis by (simp add: claim_def issue_get_view [OF assms(1)])
next
  case (Some x)
  have bl: "list_ex (scope_conflict (predict_scope env graph (issue_text x))) (all_scopes engine) \<longleftrightarrow> blockers env graph engine x \<noteq> []"
    by (auto simp: blockers_def list_ex_iff filter_empty_conv)
  note c = claim_def issue_get_view [OF assms(1)] Some option.case sum.case bl Let_def
  show ?thesis
  proof (cases "is_status x = IOpen \<and> blockers env graph engine x = [] \<and> head_file vai \<noteq> None")
    case False
    then show ?thesis unfolding c by (auto split: option.split)
  next
    case True
    then obtain h where h: "head_file vai = Some h" and op: "is_status x = IOpen" and nb: "blockers env graph engine x = []" by auto
    obtain r vai' where w: "create_with_id env vai (is_title x) (trim h) fresh now = Inr (r, vai')" "wf_vai env vai'"
      "cr_workspace r = \<lparr>wm_id = fresh, wm_intent = is_title x, wm_base_version = trim h, wm_status = WCreated,
         wm_created_at = now, wm_updated_at = now, wm_issue_id = None, wm_deleted_paths = []\<rparr>"
      "ws_view env vai' = (ws_view env vai)(uuid_to_string env fresh \<mapsto> cr_workspace r)"
      "active_file vai' = Some (uuid_to_string env fresh)"
      "vai_kinds env vai' = vai_kinds env vai @ [WorkspaceCreated fresh (is_title x) (trim h)]"
      by (rule create_with_id_ok [OF assms(2)])
    have act: "ws_active env vai' = Inr (cr_workspace r)"
      using w(4,5) by (simp add: ws_active_def read_active_wf [OF w(2)] ws_get_view [OF wf_vai_dirs [OF w(2)]])
    obtain db' rlog' where p: "set_in_progress env db rlog now i fresh = (Inr (x\<lparr>is_status := IInProgress, is_updated_at := now\<rparr>), db', rlog')"
      "wf_issues env db'" "issue_view env db' = (issue_view env db)(i \<mapsto> x\<lparr>is_status := IInProgress, is_updated_at := now\<rparr>)"
      "fresh \<in> set (linked_workspaces env db' i)" "wf_log env rlog'"
      "map ev_kind (log_events env rlog') = map ev_kind (log_events env rlog) @ [IssueLinkedToWorkspace i fresh]"
      by (rule set_in_progress_open [OF assms(1,3) Some op])
    have m: "wm_id (cr_workspace r) = fresh" "wm_intent (cr_workspace r) = is_title x" "wm_base_version (cr_workspace r) = trim h"
      using w(3) by simp_all
    have "\<exists>res. claim env graph vai db rlog i engine fresh now = (Inr res, vai', db', rlog')"
      unfolding c using op nb h w(1) p(1) m(1) by (simp add: ws_create_def)
    moreover have "fst (claim env graph vai' db' rlog' i engine fresh2 later) = Inl (WqIssueNotOpen i)"
      unfolding claim_def issue_get_view [OF p(2)] p(3) by simp
    ultimately show ?thesis unfolding Some option.case h using op nb w(2,4,6) act p m by auto
  qed
qed

section \<open>The properties at concrete inputs\<close>

text \<open>A chain of four entities; the text names the first.\<close>

definition chain_graph :: graph_db where
  "chain_graph = \<lparr>entities_tbl = map entity_to_row [sample_entity ''parse'' ''p.rs'', sample_entity ''b'' ''b.rs'', sample_entity ''c'' ''c.rs'', sample_entity ''d'' ''d.rs''],
     rels_tbl = [\<lparr>rr_id = ''1'', rr_kind = ''calls'', rr_from = ''parse'', rr_to = ''b''\<rparr>, \<lparr>rr_id = ''2'', rr_kind = ''calls'', rr_from = ''b'', rr_to = ''c''\<rparr>,
                 \<lparr>rr_id = ''3'', rr_kind = ''calls'', rr_from = ''c'', rr_to = ''d''\<rparr>]\<rparr>"

lemma chain_graph_ok: "wf_graph chain_graph" "closed_graph chain_graph"
  by (simp_all add: wf_graph_def closed_graph_def chain_graph_def sample_entity_def)

lemma chain_keywords: "extract_keywords sample_issue_env ''Fix the Parse'' = [''fix'', ''parse'']"
  by code_simp

lemma chain_direct: "keyword_ids chain_graph [''fix'', ''parse''] = {''parse''}"
proof -
  have "sql_like (contains_pattern ''parse'') ''parse''" "\<not> sql_like (contains_pattern ''fix'') ''b''" "\<not> sql_like (contains_pattern ''fix'') ''c''"
    "\<not> sql_like (contains_pattern ''fix'') ''d''" "\<not> sql_like (contains_pattern ''parse'') ''b''" "\<not> sql_like (contains_pattern ''parse'') ''c''"
    "\<not> sql_like (contains_pattern ''parse'') ''d''" by code_simp+
  then have "{r \<in> set (entities_tbl chain_graph). \<exists>k\<in>set [''fix'', ''parse'']. sql_like (contains_pattern k) (er_name r)} =
      {entity_to_row (sample_entity ''parse'' ''p.rs'')}"
    by (auto simp: chain_graph_def sample_entity_def entity_to_row_def simp del: sql_like.simps)
  moreover have "keyword_ids g ks = er_id ` {r \<in> set (entities_tbl g). \<exists>k\<in>set ks. sql_like (contains_pattern k) (er_name r)}" for g ks
    by (auto simp: keyword_ids_def)
  ultimately show ?thesis by (simp add: sample_entity_def)
qed

lemma chain_within:
  "within chain_graph {''parse''} 1 = {''parse'', ''b''}" "within chain_graph {''parse''} 3 = {''parse'', ''b'', ''c'', ''d''}"
  by (auto simp: numeral_3_eq_3 nbs_def chain_graph_def)

text \<open>The last entity of the chain is three steps away and still predicted.\<close>

theorem predict_scope_exact_witness:
  "predicted CLow (sample_entity ''d'' ''d.rs'') \<in> set (sp_entities (predict_scope sample_issue_env (Some chain_graph) ''Fix the Parse'')) \<and>
   sp_blast_radius (predict_scope sample_issue_env (Some chain_graph) ''Fix the Parse'') = 4"
proof -
  note p = predict_scope_exact [OF chain_graph_ok, of sample_issue_env "''Fix the Parse''", unfolded Let_def chain_keywords chain_direct chain_within]
  have r: "entity_to_row (sample_entity ''d'' ''d.rs'') \<in> set (entities_tbl chain_graph)" by (simp add: chain_graph_def)
  from p have "predicted CLow (row_to_entity (entity_to_row (sample_entity ''d'' ''d.rs''))) \<in>
      set (sp_entities (predict_scope sample_issue_env (Some chain_graph) ''Fix the Parse'')) \<longleftrightarrow>
      er_id (entity_to_row (sample_entity ''d'' ''d.rs'')) \<in> {''parse'', ''b'', ''c'', ''d''} - {''parse'', ''b''}"
    using r by (metis (no_types, lifting) PredictionConfidence.simps(9))
  moreover have "er_id (entity_to_row (sample_entity ''d'' ''d.rs'')) = ''d''" by (simp add: sample_entity_def)
  ultimately show ?thesis using p by simp
qed

definition one_issue_db :: issue_db where
  "one_issue_db = issue_db_empty\<lparr>issues_tbl := [new_issue_row sample_issue_env 4 9 ''Fix'' ''d'' PHigh [] ''ann'' None]\<rparr>"

definition one_issue :: Issue where
  "one_issue = row_to_issue sample_issue_env 0 (new_issue_row sample_issue_env 4 9 ''Fix'' ''d'' PHigh [] ''ann'' None)"

lemma one_issue_wf: "wf_issues sample_issue_env one_issue_db"
  by (simp add: wf_issues_def one_issue_db_def)

lemma one_issue_sel [simp]: "is_id one_issue = 4" "is_title one_issue = ''Fix''" "is_status one_issue = IOpen"
  using sample_issue_ok(2) by (simp_all add: one_issue_def row_to_issue_def new_issue_row_def issue_codecs_def)

lemma one_issue_view: "issue_view sample_issue_env one_issue_db i = (if i = 4 then Some one_issue else None)"
  by (simp add: issue_view_def issue_rows_def one_issue_db_def new_issue_row_def uuid_to_string_inj [OF sample_issue_ok(2)] one_issue_def)

lemma one_issue_open: "open_issues sample_issue_env one_issue_db = {one_issue}"
  by (auto simp: open_issues_def one_issue_view)

theorem compute_partition_witness:
  "aw_issue_id ` set (wq_available_work (compute sample_issue_env None one_issue_db [] 10)) = {uuid_to_string sample_issue_env 4}"
proof -
  have "blockers sample_issue_env None [] x = []" for x by (simp add: blockers_def all_scopes_def)
  with compute_partition [OF one_issue_wf, of None "[]" 10] show ?thesis by (simp add: Let_def one_issue_open)
qed

lemma sample_issue_vai: "wf_vai sample_issue_env (vai_empty\<lparr>head_file := Some ''v1''\<rparr>)"
proof -
  have "meta_ok sample_issue_env" "uuid_ok sample_issue_env"
    by (auto intro: meta_ok_text uuid_ok_decimal simp: sample_issue_env_def)
  from wf_vai_empty [OF sample_issue_ok(1) this] show ?thesis by (simp add: wf_vai_def)
qed

theorem claim_outcomes_witness:
  "\<exists>res vai' db' rlog'. claim sample_issue_env None (vai_empty\<lparr>head_file := Some ''v1''\<rparr>) one_issue_db elog_empty 4 [] 5 10 = (Inr res, vai', db', rlog') \<and>
     fst (claim sample_issue_env None vai' db' rlog' 4 [] 6 11) = Inl (WqIssueNotOpen 4)"
proof -
  have b: "blockers sample_issue_env None [] x = []" for x by (simp add: blockers_def all_scopes_def)
  from claim_outcomes [OF one_issue_wf sample_issue_vai wf_log_empty [OF sample_issue_ok(1)], of None 4 "[]" 5 10 6 11]
  show ?thesis by (simp add: one_issue_view b) blast
qed

end
