(* ===== verification/Watcher.thy ===== *)
theory Watcher
  imports Issue_Laws "HOL-Library.Word"
begin

text \<open>
  Watcher agents (\<open>src/watcher/mod.rs\<close>): registration, the policy for automatic issues, the
  pipeline of a discovery event (validation, rate limit, duplicate suppression, automatic issue,
  record) and its two-phase variant, over the tables of \<open>watchers.db\<close> and the issue store.

  A floating point number is its 64-bit pattern; the IEEE operations the code uses and the JSON
  codecs are fields of the environment. The bundled SQLite enforces primary and foreign keys.
\<close>

section \<open>Data\<close>

datatype WatcherError =
    WtSqlite | WtIssue IssueError | WtNotFound string | WtAlreadyExists string | WtRateLimitExceeded string nat nat

datatype WatchType = TestSuite | Security | CodeQuality | Performance | DependencyUpdates | WtCustom string

fun watch_type_as_str :: "WatchType \<Rightarrow> string" where
  "watch_type_as_str TestSuite = ''test_suite''"
| "watch_type_as_str Security = ''security''"
| "watch_type_as_str CodeQuality = ''code_quality''"
| "watch_type_as_str Performance = ''performance''"
| "watch_type_as_str DependencyUpdates = ''dependency_updates''"
| "watch_type_as_str (WtCustom s) = s"

definition watch_type_from_db_str :: "string \<Rightarrow> WatchType" where
  "watch_type_from_db_str s =
     (if s = ''test_suite'' then TestSuite else if s = ''security'' then Security
      else if s = ''code_quality'' then CodeQuality else if s = ''performance'' then Performance
      else if s = ''dependency_updates'' then DependencyUpdates else WtCustom s)"

record IssueCreationPolicy =
  ip_auto_create :: bool
  ip_max_per_hour :: nat
  ip_require_approval_above :: "string option"

definition policy_default :: IssueCreationPolicy where
  "policy_default = \<lparr>ip_auto_create = False, ip_max_per_hour = 5, ip_require_approval_above = Some ''medium''\<rparr>"

definition watcher_priority_rank :: "string \<Rightarrow> nat" where
  "watcher_priority_rank s =
     (if s = ''low'' then 0 else if s = ''medium'' then 1 else if s = ''high'' then 2 else if s = ''critical'' then 3 else 1)"

definition should_auto_create :: "IssueCreationPolicy \<Rightarrow> IssuePriority \<Rightarrow> bool" where
  "should_auto_create p priority =
     (if \<not> ip_auto_create p then False
      else (case ip_require_approval_above p of
              None \<Rightarrow> True
            | Some threshold \<Rightarrow> watcher_priority_rank (priority_as_str priority) \<le> watcher_priority_rank threshold))"

datatype WatcherStatus = WtActive | WtPaused

fun watcher_status_str :: "WatcherStatus \<Rightarrow> string" where
  "watcher_status_str WtActive = ''active''"
| "watcher_status_str WtPaused = ''paused''"

definition watcher_status_from_db_str :: "string \<Rightarrow> WatcherStatus" where
  "watcher_status_from_db_str s = (if s = ''paused'' then WtPaused else WtActive)"

record Watcher =
  wt_agent_id :: string
  wt_watch_type :: WatchType
  wt_description :: string
  wt_policy :: IssueCreationPolicy
  wt_status :: WatcherStatus
  wt_registered_at :: time
  wt_last_discovery_at :: "time option"
  wt_discovery_count :: nat

type_synonym f64 = "64 word"

datatype DiscoveryEventKind =
    TestFailureDiscovered (ds_suite: string) (ds_test_name: string) (ds_failure_output: string) (ds_version: "string option")
  | SecurityVulnerabilityDiscovered (ds_source: string) (ds_severity: string) (ds_affected: "string list")
  | CodeQualityIssueDiscovered (ds_rule: string) (ds_entity: string) (ds_description: string)
  | PerformanceRegressionDiscovered (ds_metric: string) (ds_baseline: f64) (ds_current: f64) (ds_perf_version: "string option")
  | DependencyUpdateAvailable (ds_package: string) (ds_current_version: string) (ds_available_version: string)

record watcher_env = issue_env +
  event_to_json :: "DiscoveryEventKind \<Rightarrow> string"
  event_to_json_pretty :: "DiscoveryEventKind \<Rightarrow> string"
  event_from_json :: "string \<Rightarrow> DiscoveryEventKind option"
  policy_to_json :: "IssueCreationPolicy \<Rightarrow> string"
  policy_from_json :: "string \<Rightarrow> IssueCreationPolicy option"
  watcher_hour_bucket :: "time \<Rightarrow> string"
  f64_sub :: "f64 \<Rightarrow> f64 \<Rightarrow> f64"
  f64_abs :: "f64 \<Rightarrow> f64"
  f64_div :: "f64 \<Rightarrow> f64 \<Rightarrow> f64"
  f64_gt :: "f64 \<Rightarrow> f64 \<Rightarrow> bool"
  f64_fixed2 :: "f64 \<Rightarrow> string"

fun discovery_type :: "DiscoveryEventKind \<Rightarrow> string" where
  "discovery_type (TestFailureDiscovered _ _ _ _) = ''test_failure''"
| "discovery_type (SecurityVulnerabilityDiscovered _ _ _) = ''security_vulnerability''"
| "discovery_type (CodeQualityIssueDiscovered _ _ _) = ''code_quality''"
| "discovery_type (PerformanceRegressionDiscovered _ _ _ _) = ''performance_regression''"
| "discovery_type (DependencyUpdateAvailable _ _ _) = ''dependency_update''"

text \<open>The arrow and the dash of the messages, in UTF-8.\<close>

definition arrow :: string where
  "arrow = [CHR 0xE2, CHR 0x86, CHR 0x92]"

definition em_dash :: string where
  "em_dash = [CHR 0xE2, CHR 0x80, CHR 0x94]"

fun default_title :: "('a) watcher_env_scheme \<Rightarrow> DiscoveryEventKind \<Rightarrow> string" where
  "default_title env (TestFailureDiscovered suite test_name _ _) = ''Test failure: '' @ suite @ ''/'' @ test_name"
| "default_title env (SecurityVulnerabilityDiscovered source severity _) = ''Security vulnerability ('' @ severity @ '') from '' @ source"
| "default_title env (CodeQualityIssueDiscovered rule entity _) = ''Code quality: '' @ rule @ '' in '' @ entity"
| "default_title env (PerformanceRegressionDiscovered metric baseline current _) =
     ''Performance regression: '' @ metric @ '' ('' @ f64_fixed2 env baseline @ '' '' @ arrow @ '' '' @ f64_fixed2 env current @ '')''"
| "default_title env (DependencyUpdateAvailable package _ available_version) =
     ''Dependency update available: '' @ package @ '' '' @ arrow @ '' '' @ available_version"

text \<open>The constants 0.0, 0.5 and 0.2 as bit patterns.\<close>

fun default_priority :: "('a) watcher_env_scheme \<Rightarrow> DiscoveryEventKind \<Rightarrow> IssuePriority" where
  "default_priority env (SecurityVulnerabilityDiscovered _ severity _) =
     (let s = str_lowercase env severity
      in if s = ''critical'' then PCritical else if s = ''high'' then PHigh else if s = ''low'' then PLow else PMedium)"
| "default_priority env (PerformanceRegressionDiscovered _ baseline current _) =
     (if f64_gt env baseline 0 then
        (let pct = f64_div env (f64_abs env (f64_sub env current baseline)) baseline
         in if f64_gt env pct 0x3FE0000000000000 then PHigh
            else if f64_gt env pct 0x3FC999999999999A then PMedium else PLow)
      else PMedium)"
| "default_priority env (TestFailureDiscovered _ _ _ _) = PMedium"
| "default_priority env (CodeQualityIssueDiscovered _ _ _) = PLow"
| "default_priority env (DependencyUpdateAvailable _ _ _) = PLow"

fun dedup_key :: "DiscoveryEventKind \<Rightarrow> string" where
  "dedup_key (TestFailureDiscovered suite test_name _ _) = ''test_failure::'' @ suite @ ''::'' @ test_name"
| "dedup_key (SecurityVulnerabilityDiscovered source _ _) = ''security::'' @ source"
| "dedup_key (CodeQualityIssueDiscovered rule entity _) = ''quality::'' @ rule @ ''::'' @ entity"
| "dedup_key (PerformanceRegressionDiscovered metric _ _ _) = ''perf::'' @ metric"
| "dedup_key (DependencyUpdateAvailable package _ _) = ''dep::'' @ package"

record DiscoveryRecord =
  dc_id :: uuid
  dc_agent_id :: string
  dc_event :: DiscoveryEventKind
  dc_received_at :: time
  dc_created_issue_id :: "uuid option"
  dc_suppressed :: bool

record DiscoveryOutcome =
  do_record :: DiscoveryRecord
  do_issue_id :: "uuid option"
  do_suppressed :: bool
  do_message :: string

record DiscoveryPreparation =
  dp_record_id :: uuid
  dp_dedup_key :: string
  dp_received_at :: time
  dp_suppressed_with_issue_id :: "uuid option"
  dp_should_create_issue :: bool
  dp_priority :: IssuePriority

section \<open>The database\<close>

record watcher_row =
  wr_agent_id :: string
  wr_watch_type :: string
  wr_description :: string
  wr_policy_json :: string
  wr_status :: string
  wr_registered_at :: string
  wr_last_discovery_at :: "string option"
  wr_discovery_count :: nat

record discovery_row =
  dr_id :: string
  dr_agent_id :: string
  dr_event_type :: string
  dr_event_json :: string
  dr_dedup_key :: string
  dr_received_at :: string
  dr_created_issue_id :: "string option"
  dr_suppressed :: bool

record watcher_db =
  watchers_tbl :: "watcher_row list"
  discoveries_tbl :: "discovery_row list"
  wrate_tbl :: "((string \<times> string) \<times> nat) list"

definition watcher_db_empty :: watcher_db where
  "watcher_db_empty = \<lparr>watchers_tbl = [], discoveries_tbl = [], wrate_tbl = []\<rparr>"

section \<open>Watcher management\<close>

definition watcher_to_row :: "('a) watcher_env_scheme \<Rightarrow> Watcher \<Rightarrow> watcher_row" where
  "watcher_to_row env w =
     \<lparr>wr_agent_id = wt_agent_id w, wr_watch_type = watch_type_as_str (wt_watch_type w), wr_description = wt_description w,
      wr_policy_json = policy_to_json env (wt_policy w), wr_status = watcher_status_str (wt_status w),
      wr_registered_at = to_rfc3339 env (wt_registered_at w),
      wr_last_discovery_at = map_option (to_rfc3339 env) (wt_last_discovery_at w), wr_discovery_count = wt_discovery_count w\<rparr>"

definition watcher_register ::
  "('a) watcher_env_scheme \<Rightarrow> watcher_db \<Rightarrow> Watcher \<Rightarrow> (WatcherError, unit) result \<times> watcher_db" where
  "watcher_register env db w =
     (if list_ex (\<lambda>r. wr_agent_id r = wt_agent_id w) (watchers_tbl db) then (Inl (WtAlreadyExists (wt_agent_id w)), db)
      else (Inr (), db\<lparr>watchers_tbl := watchers_tbl db @ [watcher_to_row env w]\<rparr>))"

text \<open>A count that does not fit \<open>u32\<close> is a column error.\<close>

definition row_to_watcher :: "('a) watcher_env_scheme \<Rightarrow> time \<Rightarrow> watcher_row \<Rightarrow> (WatcherError, Watcher) result" where
  "row_to_watcher env now r =
     (if wr_discovery_count r \<ge> 2 ^ 32 then Inl WtSqlite
      else Inr \<lparr>wt_agent_id = wr_agent_id r, wt_watch_type = watch_type_from_db_str (wr_watch_type r), wt_description = wr_description r,
                wt_policy = (case policy_from_json env (wr_policy_json r) of Some p \<Rightarrow> p | None \<Rightarrow> policy_default),
                wt_status = watcher_status_from_db_str (wr_status r),
                wt_registered_at = (case from_rfc3339 env (wr_registered_at r) of Some t \<Rightarrow> t | None \<Rightarrow> now),
                wt_last_discovery_at = Option.bind (wr_last_discovery_at r) (from_rfc3339 env),
                wt_discovery_count = wr_discovery_count r\<rparr>)"

definition watcher_list :: "('a) watcher_env_scheme \<Rightarrow> watcher_db \<Rightarrow> time \<Rightarrow> (WatcherError, Watcher list) result" where
  "watcher_list env db now =
     collect_results (map (row_to_watcher env now) (rev (sort_key wr_registered_at (rev (watchers_tbl db)))))"

definition watcher_get :: "('a) watcher_env_scheme \<Rightarrow> watcher_db \<Rightarrow> time \<Rightarrow> string \<Rightarrow> (WatcherError, Watcher) result" where
  "watcher_get env db now agent =
     (case filter (\<lambda>r. wr_agent_id r = agent) (watchers_tbl db) of
        [] \<Rightarrow> Inl (WtNotFound agent) | r # _ \<Rightarrow> row_to_watcher env now r)"

definition update_watcher_row :: "string \<Rightarrow> (watcher_row \<Rightarrow> watcher_row) \<Rightarrow> watcher_db \<Rightarrow> watcher_db" where
  "update_watcher_row agent f db = db\<lparr>watchers_tbl := map (\<lambda>r. if wr_agent_id r = agent then f r else r) (watchers_tbl db)\<rparr>"

definition watcher_set_status :: "watcher_db \<Rightarrow> string \<Rightarrow> WatcherStatus \<Rightarrow> (WatcherError, unit) result \<times> watcher_db" where
  "watcher_set_status db agent status =
     (if \<not> list_ex (\<lambda>r. wr_agent_id r = agent) (watchers_tbl db) then (Inl (WtNotFound agent), db)
      else (Inr (), update_watcher_row agent (\<lambda>r. r\<lparr>wr_status := watcher_status_str status\<rparr>) db))"

definition watcher_pause where "watcher_pause db agent = watcher_set_status db agent WtPaused"
definition watcher_resume where "watcher_resume db agent = watcher_set_status db agent WtActive"

section \<open>Helpers of the pipeline\<close>

definition find_active_discovery :: "('a) watcher_env_scheme \<Rightarrow> watcher_db \<Rightarrow> string \<Rightarrow> string \<Rightarrow> uuid option" where
  "find_active_discovery env db key agent =
     (case rev (sort_key dr_received_at (rev (filter (\<lambda>r. dr_agent_id r = agent \<and> dr_dedup_key r = key \<and> \<not> dr_suppressed r \<and>
             dr_created_issue_id r \<noteq> None) (discoveries_tbl db)))) of
        [] \<Rightarrow> None
      | r # _ \<Rightarrow> Option.bind (dr_created_issue_id r) (uuid_from_str env))"

definition increment_rate_limit ::
  "('a) watcher_env_scheme \<Rightarrow> watcher_db \<Rightarrow> time \<Rightarrow> string \<Rightarrow> (WatcherError, nat) result \<times> watcher_db" where
  "increment_rate_limit env db now agent =
     (let k = (agent, watcher_hour_bucket env now);
          n = (case map_of (wrate_tbl db) k of None \<Rightarrow> 1 | Some c \<Rightarrow> c + 1);
          db1 = db\<lparr>wrate_tbl := AList.update k n (wrate_tbl db)\<rparr>
      in (if n < 2 ^ 32 then Inr n else Inl WtSqlite, db1))"

definition decrement_rate_limit :: "('a) watcher_env_scheme \<Rightarrow> watcher_db \<Rightarrow> time \<Rightarrow> string \<Rightarrow> watcher_db" where
  "decrement_rate_limit env db now agent =
     (let k = (agent, watcher_hour_bucket env now)
      in case map_of (wrate_tbl db) k of None \<Rightarrow> db | Some c \<Rightarrow> db\<lparr>wrate_tbl := AList.update k (c - 1) (wrate_tbl db)\<rparr>)"

definition update_watcher_stats :: "('a) watcher_env_scheme \<Rightarrow> watcher_db \<Rightarrow> string \<Rightarrow> time \<Rightarrow> watcher_db" where
  "update_watcher_stats env db agent ts =
     update_watcher_row agent (\<lambda>r. r\<lparr>wr_last_discovery_at := Some (to_rfc3339 env ts), wr_discovery_count := wr_discovery_count r + 1\<rparr>) db"

text \<open>\<open>INSERT INTO discovery_records\<close>: primary key and the reference to the watcher are checked.\<close>

definition insert_discovery ::
  "('a) watcher_env_scheme \<Rightarrow> watcher_db \<Rightarrow> uuid \<Rightarrow> string \<Rightarrow> DiscoveryEventKind \<Rightarrow> string \<Rightarrow> time \<Rightarrow> uuid option \<Rightarrow> bool \<Rightarrow> watcher_db option" where
  "insert_discovery env db i agent event key ts issue suppressed =
     (if list_ex (\<lambda>r. dr_id r = uuid_to_string env i) (discoveries_tbl db) \<or> \<not> list_ex (\<lambda>r. wr_agent_id r = agent) (watchers_tbl db) then None
      else Some (db\<lparr>discoveries_tbl := discoveries_tbl db @ [\<lparr>dr_id = uuid_to_string env i, dr_agent_id = agent,
             dr_event_type = discovery_type event, dr_event_json = event_to_json env event, dr_dedup_key = key,
             dr_received_at = to_rfc3339 env ts, dr_created_issue_id = map_option (uuid_to_string env) issue, dr_suppressed = suppressed\<rparr>]\<rparr>))"

section \<open>Discoveries\<close>

definition paused_message :: "string \<Rightarrow> string" where
  "paused_message agent = agent @ '' is paused '' @ em_dash @ '' resume before submitting discoveries''"

text \<open>Steps 1 and 2, shared by the two entry points: the watcher is active and below its rate limit.\<close>

definition admit_discovery ::
  "('a) watcher_env_scheme \<Rightarrow> watcher_db \<Rightarrow> time \<Rightarrow> string \<Rightarrow> (WatcherError, Watcher) result \<times> watcher_db" where
  "admit_discovery env db now agent =
     (case watcher_get env db now agent of
        Inl e \<Rightarrow> (Inl e, db)
      | Inr w \<Rightarrow>
          if wt_status w = WtPaused then (Inl (WtNotFound (paused_message agent)), db)
          else (case increment_rate_limit env db now agent of
                  (Inl e, db1) \<Rightarrow> (Inl e, db1)
                | (Inr cnt, db1) \<Rightarrow>
                    if cnt > ip_max_per_hour (wt_policy w)
                    then (Inl (WtRateLimitExceeded agent cnt (ip_max_per_hour (wt_policy w))), decrement_rate_limit env db1 now agent)
                    else (Inr w, db1)))"

definition discovery_description :: "('a) watcher_env_scheme \<Rightarrow> string \<Rightarrow> DiscoveryEventKind \<Rightarrow> string" where
  "discovery_description env agent event =
     ''Automatically created by watcher `'' @ agent @ ''`.'' @ [CHR 0x0A, CHR 0x0A] @ ''**Event type:** '' @ discovery_type event @
     [CHR 0x0A, CHR 0x0A] @ ''**Details:**'' @ [CHR 0x0A] @ ''```json'' @ [CHR 0x0A] @ event_to_json_pretty env event @ [CHR 0x0A] @ ''```''"

text \<open>Step 4, the automatic issue: the issue store's own rate limit is not an error.\<close>

definition auto_issue ::
  "('a) watcher_env_scheme \<Rightarrow> issue_db \<Rightarrow> event_log \<Rightarrow> uuid \<Rightarrow> time \<Rightarrow> string \<Rightarrow> DiscoveryEventKind \<Rightarrow> nat \<Rightarrow>
   (IssueError, uuid option) result \<times> issue_db \<times> event_log" where
  "auto_issue env idb log fresh now agent event max_per_hour =
     (case create_by_agent env idb log fresh now (default_title env event) (discovery_description env agent event)
             (default_priority env event) [discovery_type event, ''watcher''] agent
             \<lparr>as_source_type = discovery_type event, as_details = event_to_json env event\<rparr> max_per_hour of
        (Inr (x, _), idb1, log1) \<Rightarrow> (Inr (Some (is_id x)), idb1, log1)
      | (Inl (IsRateLimitExceeded _ _ _), idb1, log1) \<Rightarrow> (Inr None, idb1, log1)
      | (Inl e, idb1, log1) \<Rightarrow> (Inl e, idb1, log1))"

definition outcome_message :: "('a) watcher_env_scheme \<Rightarrow> uuid option \<Rightarrow> bool \<Rightarrow> string" where
  "outcome_message env issue should_create =
     (case issue of
        Some i \<Rightarrow> ''Discovery recorded; issue '' @ uuid_to_string env i @ '' created''
      | None \<Rightarrow> if should_create then ''Discovery recorded; issue creation rate-limited''
                else ''Discovery recorded; auto-create disabled by policy'')"

type_synonym 'x watcher_out = "(WatcherError, 'x) result \<times> watcher_db \<times> issue_db \<times> event_log"

definition submit_discovery ::
  "('a) watcher_env_scheme \<Rightarrow> watcher_db \<Rightarrow> issue_db \<Rightarrow> event_log \<Rightarrow> uuid \<Rightarrow> uuid \<Rightarrow> time \<Rightarrow> string \<Rightarrow> DiscoveryEventKind \<Rightarrow> DiscoveryOutcome watcher_out" where
  "submit_discovery env db idb log record_id fresh now agent event =
     (case admit_discovery env db now agent of
        (Inl e, db1) \<Rightarrow> (Inl e, db1, idb, log)
      | (Inr w, db1) \<Rightarrow>
          (case find_active_discovery env db1 (dedup_key event) agent of
             Some i \<Rightarrow>
               (case insert_discovery env db1 record_id agent event (dedup_key event) now (Some i) True of
                  None \<Rightarrow> (Inl WtSqlite, db1, idb, log)
                | Some db2 \<Rightarrow>
                    (Inr \<lparr>do_record = \<lparr>dc_id = record_id, dc_agent_id = agent, dc_event = event, dc_received_at = now,
                            dc_created_issue_id = Some i, dc_suppressed = True\<rparr>,
                          do_issue_id = None, do_suppressed = True,
                          do_message = ''Suppressed duplicate: issue '' @ uuid_to_string env i @ '' already tracks this problem''\<rparr>,
                     update_watcher_stats env db2 agent now, idb, log))
           | None \<Rightarrow>
               (let should_create = should_auto_create (wt_policy w) (default_priority env event)
                in case (if should_create then auto_issue env idb log fresh now agent event (ip_max_per_hour (wt_policy w)) else (Inr None, idb, log)) of
                     (Inl e, idb1, log1) \<Rightarrow> (Inl (WtIssue e), db1, idb1, log1)
                   | (Inr created, idb1, log1) \<Rightarrow>
                       (case insert_discovery env db1 record_id agent event (dedup_key event) now created False of
                          None \<Rightarrow> (Inl WtSqlite, db1, idb1, log1)
                        | Some db2 \<Rightarrow>
                            (Inr \<lparr>do_record = \<lparr>dc_id = record_id, dc_agent_id = agent, dc_event = event, dc_received_at = now,
                                    dc_created_issue_id = created, dc_suppressed = False\<rparr>,
                                  do_issue_id = created, do_suppressed = False, do_message = outcome_message env created should_create\<rparr>,
                             update_watcher_stats env db2 agent now, idb1, log1)))))"

definition prepare_discovery ::
  "('a) watcher_env_scheme \<Rightarrow> watcher_db \<Rightarrow> uuid \<Rightarrow> time \<Rightarrow> string \<Rightarrow> DiscoveryEventKind \<Rightarrow> (WatcherError, DiscoveryPreparation) result \<times> watcher_db" where
  "prepare_discovery env db record_id now agent event =
     (case admit_discovery env db now agent of
        (Inl e, db1) \<Rightarrow> (Inl e, db1)
      | (Inr w, db1) \<Rightarrow>
          (Inr \<lparr>dp_record_id = record_id, dp_dedup_key = dedup_key event, dp_received_at = now,
                dp_suppressed_with_issue_id = find_active_discovery env db1 (dedup_key event) agent,
                dp_should_create_issue = should_auto_create (wt_policy w) (default_priority env event),
                dp_priority = default_priority env event\<rparr>, db1))"

definition record_discovery ::
  "('a) watcher_env_scheme \<Rightarrow> watcher_db \<Rightarrow> string \<Rightarrow> DiscoveryEventKind \<Rightarrow> uuid \<Rightarrow> string \<Rightarrow> time \<Rightarrow> uuid option \<Rightarrow> bool \<Rightarrow>
   (WatcherError, DiscoveryRecord) result \<times> watcher_db" where
  "record_discovery env db agent event record_id key ts issue suppressed =
     (case insert_discovery env db record_id agent event key ts issue suppressed of
        None \<Rightarrow> (Inl WtSqlite, db)
      | Some db1 \<Rightarrow> (Inr \<lparr>dc_id = record_id, dc_agent_id = agent, dc_event = event, dc_received_at = ts,
                          dc_created_issue_id = issue, dc_suppressed = suppressed\<rparr>, update_watcher_stats env db1 agent ts))"

definition row_to_discovery :: "('a) watcher_env_scheme \<Rightarrow> time \<Rightarrow> discovery_row \<Rightarrow> DiscoveryRecord" where
  "row_to_discovery env now r =
     \<lparr>dc_id = (case uuid_from_str env (dr_id r) of Some i \<Rightarrow> i | None \<Rightarrow> 0), dc_agent_id = dr_agent_id r,
      dc_event = (case event_from_json env (dr_event_json r) of Some e \<Rightarrow> e
                  | None \<Rightarrow> TestFailureDiscovered ''unknown'' ''unknown'' [] None),
      dc_received_at = (case from_rfc3339 env (dr_received_at r) of Some t \<Rightarrow> t | None \<Rightarrow> now),
      dc_created_issue_id = Option.bind (dr_created_issue_id r) (uuid_from_str env), dc_suppressed = dr_suppressed r\<rparr>"

definition list_discoveries :: "('a) watcher_env_scheme \<Rightarrow> watcher_db \<Rightarrow> time \<Rightarrow> string option \<Rightarrow> nat \<Rightarrow> DiscoveryRecord list" where
  "list_discoveries env db now agent limit =
     map (row_to_discovery env now) (take (min limit 1000) (rev (sort_key dr_received_at (rev
       (filter (\<lambda>r. case agent of None \<Rightarrow> True | Some a \<Rightarrow> dr_agent_id r = a) (discoveries_tbl db))))))"

end
