(* ===== verification/Watcher_Laws.thy ===== *)
theory Watcher_Laws
  imports Watcher
begin

text \<open>
  Properties of the discovery pipeline: every outcome of a submission, and what duplicate
  suppression guarantees along any interleaving of watcher and issue operations.
\<close>

section \<open>Tracked problems\<close>

definition tracks :: "discovery_row \<Rightarrow> bool" where
  "tracks r \<longleftrightarrow> \<not> dr_suppressed r \<and> dr_created_issue_id r \<noteq> None"

definition problem :: "discovery_row \<Rightarrow> string \<times> string" where
  "problem r = (dr_agent_id r, dr_dedup_key r)"

text \<open>At most one issue per problem, and issue identifiers that parse.\<close>

definition one_issue_each :: "('a) watcher_env_scheme \<Rightarrow> discovery_row list \<Rightarrow> bool" where
  "one_issue_each env rs \<longleftrightarrow> distinct (map problem (filter tracks rs)) \<and>
     (\<forall>r\<in>set rs. \<forall>s. dr_created_issue_id r = Some s \<longrightarrow> (\<exists>i. s = uuid_to_string env i))"

lemma filter_key: "distinct (map f xs) \<Longrightarrow> x \<in> set xs \<Longrightarrow> filter (\<lambda>y. f y = f x) xs = [x]"
proof (induction xs)
  case (Cons y ys)
  show ?case
  proof (cases "x = y")
    case True
    with Cons.prems have "filter (\<lambda>z. f z = f x) ys = []" by (auto simp: filter_empty_conv image_iff)
    with True show ?thesis by simp
  qed (use Cons in auto)
qed simp

lemma find_active_rows:
  "find_active_discovery env db key agent =
     (case rev (sort_key dr_received_at (rev (filter (\<lambda>r. problem r = (agent, key)) (filter tracks (discoveries_tbl db))))) of
        [] \<Rightarrow> None | r # _ \<Rightarrow> Option.bind (dr_created_issue_id r) (uuid_from_str env))"
proof -
  have "filter (\<lambda>r. dr_agent_id r = agent \<and> dr_dedup_key r = key \<and> \<not> dr_suppressed r \<and> dr_created_issue_id r \<noteq> None) (discoveries_tbl db) =
      filter (\<lambda>r. problem r = (agent, key)) (filter tracks (discoveries_tbl db))"
    unfolding filter_filter by (rule filter_cong) (auto simp: problem_def tracks_def)
  then show ?thesis by (simp add: find_active_discovery_def)
qed

lemma find_active_None:
  assumes "issue_codecs env" "one_issue_each env (discoveries_tbl db)"
  shows "find_active_discovery env db key agent = None \<longleftrightarrow> (agent, key) \<notin> problem ` set (filter tracks (discoveries_tbl db))"
proof (cases "(agent, key) \<in> problem ` set (filter tracks (discoveries_tbl db))")
  case False
  then have "filter (\<lambda>r. problem r = (agent, key)) (filter tracks (discoveries_tbl db)) = []" by (force simp: filter_empty_conv)
  with False show ?thesis unfolding find_active_rows by simp
next
  case True
  then obtain r where r: "r \<in> set (filter tracks (discoveries_tbl db))" "problem r = (agent, key)" by force
  have f: "filter (\<lambda>q. problem q = (agent, key)) (filter tracks (discoveries_tbl db)) = [r]"
    using filter_key [of problem "filter tracks (discoveries_tbl db)" r] r assms(2) by (simp add: one_issue_each_def)
  obtain i where "dr_created_issue_id r = Some (uuid_to_string env i)" using r(1) assms(2) by (force simp: one_issue_each_def tracks_def)
  with True f assms(1) show ?thesis unfolding find_active_rows by (simp add: issue_codecs_def)
qed

lemma find_active_Some:
  assumes "issue_codecs env" "one_issue_each env (discoveries_tbl db)"
  shows "find_active_discovery env db key agent = Some i \<longleftrightarrow>
    (\<exists>r\<in>set (filter tracks (discoveries_tbl db)). problem r = (agent, key) \<and> dr_created_issue_id r = Some (uuid_to_string env i))"
proof (cases "(agent, key) \<in> problem ` set (filter tracks (discoveries_tbl db))")
  case False
  then show ?thesis using find_active_None [OF assms, of key agent] by force
next
  case True
  then obtain r where r: "r \<in> set (filter tracks (discoveries_tbl db))" "problem r = (agent, key)" by force
  have f: "filter (\<lambda>q. problem q = (agent, key)) (filter tracks (discoveries_tbl db)) = [r]"
    using filter_key [of problem "filter tracks (discoveries_tbl db)" r] r assms(2) by (simp add: one_issue_each_def)
  have "{q \<in> set (filter tracks (discoveries_tbl db)). problem q = (agent, key)} = {r}" using arg_cong [OF f, of set] by simp
  then have u: "q \<in> set (filter tracks (discoveries_tbl db)) \<Longrightarrow> problem q = (agent, key) \<Longrightarrow> q = r" for q by blast
  obtain j where j: "dr_created_issue_id r = Some (uuid_to_string env j)" using r(1) assms(2) by (force simp: one_issue_each_def tracks_def)
  have "find_active_discovery env db key agent = Some j"
    unfolding find_active_rows f using j assms(1) by (simp add: issue_codecs_def)
  moreover have "(\<exists>r\<in>set (filter tracks (discoveries_tbl db)). problem r = (agent, key) \<and> dr_created_issue_id r = Some (uuid_to_string env i)) \<longleftrightarrow> i = j"
    using u r j uuid_to_string_inj [OF assms(1)] by (metis option.inject)
  ultimately show ?thesis by auto
qed

section \<open>The steps of a submission\<close>

lemma update_watcher_row_keeps [simp]: "discoveries_tbl (update_watcher_row a f db) = discoveries_tbl db" "wrate_tbl (update_watcher_row a f db) = wrate_tbl db"
  by (simp_all add: update_watcher_row_def)

lemma update_watcher_stats_keeps [simp]:
  "discoveries_tbl (update_watcher_stats env db a ts) = discoveries_tbl db" "wrate_tbl (update_watcher_stats env db a ts) = wrate_tbl db"
  by (simp_all add: update_watcher_stats_def)

lemma increment_rate_keeps:
  "increment_rate_limit env db now a = (r, db1) \<Longrightarrow> discoveries_tbl db1 = discoveries_tbl db \<and> watchers_tbl db1 = watchers_tbl db"
  by (auto simp: increment_rate_limit_def Let_def)

lemma decrement_rate_keeps [simp]:
  "discoveries_tbl (decrement_rate_limit env db now a) = discoveries_tbl db" "watchers_tbl (decrement_rate_limit env db now a) = watchers_tbl db"
  by (simp_all add: decrement_rate_limit_def Let_def split: option.split)

lemma admit_keeps:
  "admit_discovery env db now a = (r, db1) \<Longrightarrow> discoveries_tbl db1 = discoveries_tbl db \<and> watchers_tbl db1 = watchers_tbl db"
  by (auto simp: admit_discovery_def split: sum.splits prod.splits if_splits dest: increment_rate_keeps)

lemma find_active_cong: "discoveries_tbl db = discoveries_tbl db' \<Longrightarrow> find_active_discovery env db = find_active_discovery env db'"
  by (simp add: find_active_discovery_def fun_eq_iff)

lemma insert_discovery_rows:
  assumes "insert_discovery env db i agent event key ts issue s = Some db'"
  shows "\<exists>r. discoveries_tbl db' = discoveries_tbl db @ [r] \<and> problem r = (agent, key) \<and> dr_suppressed r = s \<and>
    dr_created_issue_id r = map_option (uuid_to_string env) issue" "watchers_tbl db' = watchers_tbl db" "wrate_tbl db' = wrate_tbl db"
  using assms by (auto simp: insert_discovery_def problem_def split: if_splits)

lemma submit_rows:
  assumes "submit_discovery env db idb log rid fresh now agent event = (r, db', idb', log')"
  shows "discoveries_tbl db' = discoveries_tbl db \<or>
    (\<exists>q created. discoveries_tbl db' = discoveries_tbl db @ [q] \<and> problem q = (agent, dedup_key event) \<and>
       dr_created_issue_id q = map_option (uuid_to_string env) created \<and>
       (dr_suppressed q \<or> find_active_discovery env db (dedup_key event) agent = None))"
proof -
  obtain r1 db1 where a: "admit_discovery env db now agent = (r1, db1)" by fastforce
  have k: "discoveries_tbl db1 = discoveries_tbl db" using admit_keeps [OF a] by simp
  note fa = find_active_cong [OF k]
  show ?thesis
  proof (cases r1)
    case (Inl e)
    with assms a k show ?thesis by (simp add: submit_discovery_def)
  next
    case (Inr w)
    show ?thesis
    proof (cases "find_active_discovery env db (dedup_key event) agent")
      case (Some i)
      show ?thesis
      proof (cases "insert_discovery env db1 rid agent event (dedup_key event) now (Some i) True")
        case None
        with assms a Inr Some k show ?thesis by (simp add: submit_discovery_def fa)
      next
        case (Some db2)
        then have db': "db' = update_watcher_stats env db2 agent now"
          using assms a Inr \<open>find_active_discovery env db (dedup_key event) agent = Some i\<close> by (simp add: submit_discovery_def fa)
        obtain q where "discoveries_tbl db2 = discoveries_tbl db1 @ [q]" "problem q = (agent, dedup_key event)" "dr_suppressed q"
          "dr_created_issue_id q = map_option (uuid_to_string env) (Some i)" using insert_discovery_rows(1) [OF Some] by blast
        then show ?thesis unfolding db' by (intro disjI2 exI [of _ q] exI [of _ "Some i"]) (simp add: k)
      qed
    next
      case None
      define s where "s = should_auto_create (wt_policy w) (default_priority env event)"
      obtain c idb1 log1 where c: "(if s then auto_issue env idb log fresh now agent event (ip_max_per_hour (wt_policy w)) else (Inr None, idb, log)) = (c, idb1, log1)"
        by (cases "if s then auto_issue env idb log fresh now agent event (ip_max_per_hour (wt_policy w)) else (Inr None, idb, log)") auto
      have eq: "submit_discovery env db idb log rid fresh now agent event =
          (case c of Inl e \<Rightarrow> (Inl (WtIssue e), db1, idb1, log1)
           | Inr created \<Rightarrow> (case insert_discovery env db1 rid agent event (dedup_key event) now created False of
               None \<Rightarrow> (Inl WtSqlite, db1, idb1, log1)
             | Some db2 \<Rightarrow> (Inr \<lparr>do_record = \<lparr>dc_id = rid, dc_agent_id = agent, dc_event = event, dc_received_at = now,
                 dc_created_issue_id = created, dc_suppressed = False\<rparr>, do_issue_id = created, do_suppressed = False,
                 do_message = outcome_message env created s\<rparr>, update_watcher_stats env db2 agent now, idb1, log1)))"
        using a Inr None c by (simp add: submit_discovery_def fa Let_def s_def [symmetric] split: sum.split)
      show ?thesis
      proof (cases c)
        case (Inr created)
        show ?thesis
        proof (cases "insert_discovery env db1 rid agent event (dedup_key event) now created False")
          case (Some db2)
          from insert_discovery_rows(1) [OF Some] Some assms eq Inr None k show ?thesis by auto
        qed (use assms eq Inr k in auto)
      qed (use assms eq k in auto)
    qed
  qed
qed

section \<open>Interleavings\<close>

inductive watch_step :: "('a) watcher_env_scheme \<Rightarrow> watcher_db \<times> issue_db \<times> event_log \<Rightarrow> watcher_db \<times> issue_db \<times> event_log \<Rightarrow> bool" for env where
  wstep_register: "watch_step env (db, idb, log) (snd (watcher_register env db w), idb, log)"
| wstep_status: "watch_step env (db, idb, log) (snd (watcher_set_status db agent status), idb, log)"
| wstep_submit: "watch_step env (db, idb, log) (snd (submit_discovery env db idb log rid fresh now agent event))"
| wstep_issue: "issue_step env (idb, log) (idb', log') \<Longrightarrow> watch_step env (db, idb, log) (db, idb', log')"

lemma one_issue_append:
  assumes "issue_codecs env" "one_issue_each env (discoveries_tbl db)" "problem q = (agent, key)"
    "dr_created_issue_id q = map_option (uuid_to_string env) created" "dr_suppressed q \<or> find_active_discovery env db key agent = None"
  shows "one_issue_each env (discoveries_tbl db @ [q])"
proof -
  have "tracks q \<Longrightarrow> problem q \<notin> problem ` set (filter tracks (discoveries_tbl db))"
    using find_active_None [OF assms(1,2), of key agent] assms(3,5) by (auto simp: tracks_def)
  with assms(2,4) show ?thesis by (auto simp: one_issue_each_def)
qed

lemma watch_step_keeps:
  assumes "watch_step env st st'" "issue_codecs env" "one_issue_each env (discoveries_tbl (fst st))"
  shows "one_issue_each env (discoveries_tbl (fst st')) \<and> set (discoveries_tbl (fst st)) \<subseteq> set (discoveries_tbl (fst st'))"
  using assms(1)
proof (cases rule: watch_step.cases)
  case (wstep_submit db idb log rid fresh now agent event)
  obtain r db' idb' log' where s: "submit_discovery env db idb log rid fresh now agent event = (r, db', idb', log')"
    by (cases "submit_discovery env db idb log rid fresh now agent event") auto
  from submit_rows [OF s] consider "discoveries_tbl db' = discoveries_tbl db"
    | (row) q created where "discoveries_tbl db' = discoveries_tbl db @ [q]" "problem q = (agent, dedup_key event)"
      "dr_created_issue_id q = map_option (uuid_to_string env) created" "dr_suppressed q \<or> find_active_discovery env db (dedup_key event) agent = None"
    by blast
  then show ?thesis
  proof cases
    case q: (row q created)
    have "one_issue_each env (discoveries_tbl db @ [q])"
      by (rule one_issue_append [OF assms(2) _ q(2,3,4)]) (use assms(3) wstep_submit in simp)
    with wstep_submit s q(1) show ?thesis by auto
  qed (use wstep_submit s assms(3) in auto)
qed (use assms(3) in \<open>simp_all add: watcher_register_def watcher_set_status_def\<close>)

lemma watch_steps_keep:
  assumes "(watch_step env)\<^sup>*\<^sup>* st st'" "issue_codecs env" "one_issue_each env (discoveries_tbl (fst st))"
  shows "one_issue_each env (discoveries_tbl (fst st')) \<and> set (discoveries_tbl (fst st)) \<subseteq> set (discoveries_tbl (fst st'))"
  using assms(1)
proof (induction rule: rtranclp_induct)
  case (step y z)
  with watch_step_keeps [OF step.hyps(2) assms(2)] show ?case by blast
qed (use assms(3) in simp)

section \<open>Admission and the automatic issue\<close>

definition wrate_of :: "watcher_db \<Rightarrow> string \<times> string \<Rightarrow> nat" where
  "wrate_of db k = (case map_of (wrate_tbl db) k of None \<Rightarrow> 0 | Some n \<Rightarrow> n)"

lemma increment_rate_ok:
  assumes "k = (agent, watcher_hour_bucket env now)" "wrate_of db k + 1 < 2 ^ 32"
  obtains db1 where "increment_rate_limit env db now agent = (Inr (wrate_of db k + 1), db1)"
    "wrate_of db1 = (wrate_of db)(k := wrate_of db k + 1)" "map_of (wrate_tbl db1) k = Some (wrate_of db k + 1)"
proof (rule that)
  let ?db1 = "db\<lparr>wrate_tbl := AList.update k (wrate_of db k + 1) (wrate_tbl db)\<rparr>"
  show "increment_rate_limit env db now agent = (Inr (wrate_of db k + 1), ?db1)"
    using assms(2) unfolding increment_rate_limit_def assms(1) [symmetric] by (simp add: Let_def wrate_of_def split: option.splits)
  show "wrate_of ?db1 = (wrate_of db)(k := wrate_of db k + 1)" by (rule ext) (simp add: wrate_of_def update_conv')
  show "map_of (wrate_tbl ?db1) k = Some (wrate_of db k + 1)" by (simp add: update_conv')
qed

lemma admit_accepted:
  assumes "watcher_get env db now agent = Inr w" "wt_status w \<noteq> WtPaused" "k = (agent, watcher_hour_bucket env now)"
    "wrate_of db k < ip_max_per_hour (wt_policy w)" "ip_max_per_hour (wt_policy w) < 2 ^ 32"
  obtains db1 where "admit_discovery env db now agent = (Inr w, db1)" "wrate_of db1 = (wrate_of db)(k := wrate_of db k + 1)"
proof -
  have "wrate_of db k + 1 < 2 ^ 32" using assms(4,5) by simp
  then obtain db1 where "increment_rate_limit env db now agent = (Inr (wrate_of db k + 1), db1)" "wrate_of db1 = (wrate_of db)(k := wrate_of db k + 1)"
    by (rule increment_rate_ok [OF assms(3)])
  with assms that show ?thesis by (simp add: admit_discovery_def)
qed

lemma admit_refused:
  assumes "watcher_get env db now agent = Inr w" "wt_status w \<noteq> WtPaused" "k = (agent, watcher_hour_bucket env now)"
    "ip_max_per_hour (wt_policy w) \<le> wrate_of db k" "wrate_of db k + 1 < 2 ^ 32"
  obtains db1 where "admit_discovery env db now agent = (Inl (WtRateLimitExceeded agent (wrate_of db k + 1) (ip_max_per_hour (wt_policy w))), db1)"
    "wrate_of db1 = wrate_of db"
proof -
  obtain db0 where i: "increment_rate_limit env db now agent = (Inr (wrate_of db k + 1), db0)" "wrate_of db0 = (wrate_of db)(k := wrate_of db k + 1)"
    "map_of (wrate_tbl db0) k = Some (wrate_of db k + 1)" by (rule increment_rate_ok [OF assms(3,5)])
  have "decrement_rate_limit env db0 now agent = db0\<lparr>wrate_tbl := AList.update k (wrate_of db k) (wrate_tbl db0)\<rparr>"
    using i(3) by (simp add: decrement_rate_limit_def assms(3) Let_def)
  then have "wrate_of (decrement_rate_limit env db0 now agent) = wrate_of db"
    using i(2) by (auto simp: wrate_of_def update_conv' fun_eq_iff)
  with assms i(1) that show ?thesis by (simp add: admit_discovery_def)
qed

lemma create_by_agent_ok:
  assumes "wf_issues env idb" "wf_log env log" "issue_view env idb i = None" "k = (agent, hour_bucket env now)"
    "rate_of idb k < m" "m < 2 ^ 32"
  obtains x dup y idb' log' where "create_by_agent env idb log i now title descr priority labels agent source m = (Inr (x, dup), idb', log')"
    "is_id x = i" "issue_view env idb' = (issue_view env idb)(i \<mapsto> y)" "is_status y = IOpen" "is_title y = title" "is_creator y = agent" "is_priority y = priority"
    "map ev_kind (log_events env log') = map ev_kind (log_events env log) @ [IssueCreated i title agent (priority_as_str priority)]"
proof -
  let ?row = "new_issue_row env i now title descr priority labels agent (Some (source_to_json env source))"
  have "rate_of idb k < 2 ^ 32 - 1" using assms(5,6) by simp
  then obtain db1 where inc: "increment_agent_rate_limit env idb now agent = (Inr (rate_of idb k + 1), db1)" "issues_tbl db1 = issues_tbl idb"
    by (rule increment_ok [OF _ assms(4)])
  have wf1: "wf_issues env db1" using assms(1) inc(2) by (simp add: wf_issues_def)
  have rows: "issue_rows db1 = issue_rows idb" by (rule issue_rows_cong [OF inc(2)])
  have id: "ir_id ?row = uuid_to_string env i" by (simp add: new_issue_row_def)
  have none: "issue_rows db1 (ir_id ?row) = None" using assms(3) by (simp add: rows id issue_view_def)
  then obtain db2 where ins: "insert_issue_row ?row db1 = Some db2" by (simp add: issue_rows_insert)
  note wf2 = wf_insert_issue_row [OF wf1 wf_new_issue_row ins]
  have c: "issue_codecs env" using assms(1) by (simp add: wf_issues_def)
  define y where "y = row_to_issue env 0 ?row"
  have view: "issue_view env db2 = (issue_view env idb)(i \<mapsto> y)"
    by (rule ext) (simp add: issue_view_def wf2(2) id uuid_to_string_inj [OF c] y_def rows)
  have sel: "is_status y = IOpen" "is_title y = title" "is_creator y = agent" "is_priority y = priority"
    by (simp_all add: y_def row_to_issue_def new_issue_row_def)
  obtain e log' where l: "elog_append env log now (IssueCreated i title agent (priority_as_str priority)) = Inr (e, log')"
    "log_events env log' = log_events env log @ [e]" "ev_kind e = IssueCreated i title agent (priority_as_str priority)" by (rule elog.appendE [OF assms(2)])
  have "\<exists>x dup. create_by_agent env idb log i now title descr priority labels agent source m = (Inr (x, dup), db2, log') \<and> is_id x = i"
    using inc(1) assms(5) ins l(1) by (simp add: create_by_agent_def Let_def log_then_def)
  then obtain x dup where "create_by_agent env idb log i now title descr priority labels agent source m = (Inr (x, dup), db2, log')" "is_id x = i" by blast
  from that [OF this view sel] l(2,3) show ?thesis by simp
qed

lemma create_by_agent_limited:
  assumes "k = (agent, hour_bucket env now)" "m \<le> rate_of idb k" "rate_of idb k + 1 < 2 ^ 32"
  obtains n idb' where "create_by_agent env idb log i now title descr priority labels agent source m = (Inl (IsRateLimitExceeded agent n m), idb', log)"
    "issue_view env idb' = issue_view env idb"
proof -
  have "rate_of idb k < 2 ^ 32 - 1" using assms(3) by simp
  then obtain db1 where inc: "increment_agent_rate_limit env idb now agent = (Inr (rate_of idb k + 1), db1)" "issues_tbl db1 = issues_tbl idb"
    by (rule increment_ok [OF _ assms(1)])
  let ?db2 = "db1\<lparr>rate_tbl := AList.update k (rate_of idb k) (rate_tbl db1)\<rparr>"
  have "create_by_agent env idb log i now title descr priority labels agent source m = (Inl (IsRateLimitExceeded agent (rate_of idb k + 1) m), ?db2, log)"
    using inc(1) assms(1,2) by (simp add: create_by_agent_def)
  moreover have "issue_rows ?db2 = issue_rows idb" by (rule issue_rows_cong) (simp add: inc(2))
  then have "issue_view env ?db2 = issue_view env idb" by (simp add: issue_view_def fun_eq_iff)
  ultimately show ?thesis by (rule that)
qed

lemma insert_discovery_ok:
  assumes "watcher_get env db now agent = Inr w" "watchers_tbl db1 = watchers_tbl db" "discoveries_tbl db1 = discoveries_tbl db"
    "\<forall>r\<in>set (discoveries_tbl db). dr_id r \<noteq> uuid_to_string env rid"
  obtains db2 q where "insert_discovery env db1 rid agent event key now issue s = Some db2" "discoveries_tbl db2 = discoveries_tbl db @ [q]"
    "problem q = (agent, key)" "dr_suppressed q = s" "dr_created_issue_id q = map_option (uuid_to_string env) issue" "wrate_tbl db2 = wrate_tbl db1"
proof -
  have "list_ex (\<lambda>r. wr_agent_id r = agent) (watchers_tbl db)"
  proof (rule ccontr)
    assume "\<not> list_ex (\<lambda>r. wr_agent_id r = agent) (watchers_tbl db)"
    then have "filter (\<lambda>r. wr_agent_id r = agent) (watchers_tbl db) = []" by (simp add: list_ex_iff filter_empty_conv)
    with assms(1) show False by (simp add: watcher_get_def)
  qed
  with assms(2-4) have "insert_discovery env db1 rid agent event key now issue s \<noteq> None" by (auto simp: insert_discovery_def list_ex_iff)
  then obtain db2 where i: "insert_discovery env db1 rid agent event key now issue s = Some db2" by blast
  with insert_discovery_rows [OF i] that [OF i] assms(3) show ?thesis by auto
qed

text \<open>An admitted discovery: what it records and what it does to the issues.\<close>

definition discovery_effect ::
  "('a) watcher_env_scheme \<Rightarrow> watcher_db \<Rightarrow> issue_db \<Rightarrow> event_log \<Rightarrow> uuid \<Rightarrow> time \<Rightarrow> string \<Rightarrow> DiscoveryEventKind \<Rightarrow> IssueCreationPolicy \<Rightarrow>
   DiscoveryOutcome \<Rightarrow> issue_db \<Rightarrow> event_log \<Rightarrow> bool" where
  "discovery_effect env db idb log fresh now agent event policy out idb' log' \<longleftrightarrow>
     (case find_active_discovery env db (dedup_key event) agent of
        Some i \<Rightarrow> do_suppressed out \<and> do_issue_id out = None \<and> idb' = idb \<and> log' = log
      | None \<Rightarrow> \<not> do_suppressed out \<and>
          (if \<not> should_auto_create policy (default_priority env event) then do_issue_id out = None \<and> idb' = idb \<and> log' = log
           else if rate_of idb (agent, hour_bucket env now) < ip_max_per_hour policy then
             do_issue_id out = Some fresh \<and>
             (\<exists>x. issue_view env idb' = (issue_view env idb)(fresh \<mapsto> x) \<and> is_status x = IOpen \<and> is_title x = default_title env event \<and>
                is_creator x = agent \<and> is_priority x = default_priority env event) \<and>
             map ev_kind (log_events env log') = map ev_kind (log_events env log) @
               [IssueCreated fresh (default_title env event) agent (priority_as_str (default_priority env event))]
           else do_issue_id out = None \<and> issue_view env idb' = issue_view env idb \<and> log' = log))"

lemma auto_issue_effect:
  assumes "wf_issues env idb" "wf_log env log" "issue_view env idb fresh = None"
    "rate_of idb (agent, hour_bucket env now) + 1 < 2 ^ 32" "ip_max_per_hour policy < 2 ^ 32"
    "find_active_discovery env db (dedup_key event) agent = None"
  obtains created idb' log' where
    "(if should_auto_create policy (default_priority env event) then auto_issue env idb log fresh now agent event (ip_max_per_hour policy)
      else (Inr None, idb, log)) = (Inr created, idb', log')"
    "\<forall>out. \<not> do_suppressed out \<and> do_issue_id out = created \<longrightarrow> discovery_effect env db idb log fresh now agent event policy out idb' log'"
proof -
  consider (off) "\<not> should_auto_create policy (default_priority env event)"
    | (ok) "should_auto_create policy (default_priority env event)" "rate_of idb (agent, hour_bucket env now) < ip_max_per_hour policy"
    | (limited) "should_auto_create policy (default_priority env event)" "ip_max_per_hour policy \<le> rate_of idb (agent, hour_bucket env now)" by linarith
  then show ?thesis
  proof cases
    case off
    then show ?thesis using assms(6) by (intro that [of None idb log]) (simp_all add: discovery_effect_def)
  next
    case ok
    obtain x dup y idb' log' where c: "create_by_agent env idb log fresh now (default_title env event) (discovery_description env agent event)
        (default_priority env event) [discovery_type event, ''watcher''] agent
        \<lparr>as_source_type = discovery_type event, as_details = event_to_json env event\<rparr> (ip_max_per_hour policy) = (Inr (x, dup), idb', log')"
      "is_id x = fresh" "issue_view env idb' = (issue_view env idb)(fresh \<mapsto> y)" "is_status y = IOpen" "is_title y = default_title env event"
      "is_creator y = agent" "is_priority y = default_priority env event"
      "map ev_kind (log_events env log') = map ev_kind (log_events env log) @
         [IssueCreated fresh (default_title env event) agent (priority_as_str (default_priority env event))]"
      by (rule create_by_agent_ok [OF assms(1,2,3) refl ok(2) assms(5)])
    show ?thesis
      by (rule that [of "Some fresh" idb' log']) (use ok c assms(6) in \<open>auto simp: auto_issue_def discovery_effect_def\<close>)
  next
    case limited
    obtain n idb' where c: "create_by_agent env idb log fresh now (default_title env event) (discovery_description env agent event)
        (default_priority env event) [discovery_type event, ''watcher''] agent
        \<lparr>as_source_type = discovery_type event, as_details = event_to_json env event\<rparr> (ip_max_per_hour policy) =
          (Inl (IsRateLimitExceeded agent n (ip_max_per_hour policy)), idb', log)"
      "issue_view env idb' = issue_view env idb" by (rule create_by_agent_limited [OF refl limited(2) assms(4)])
    show ?thesis
      by (rule that [of None idb' log]) (use limited c assms(6) in \<open>auto simp: auto_issue_def discovery_effect_def\<close>)
  qed
qed

lemma submit_admitted:
  assumes "admit_discovery env db now agent = (Inr w, db1)" "watcher_get env db now agent = Inr w"
    "wf_issues env idb" "wf_log env log" "issue_view env idb fresh = None"
    "rate_of idb (agent, hour_bucket env now) + 1 < 2 ^ 32" "ip_max_per_hour (wt_policy w) < 2 ^ 32"
    "\<forall>r\<in>set (discoveries_tbl db). dr_id r \<noteq> uuid_to_string env rid"
  shows "\<exists>out db' idb' log' q. submit_discovery env db idb log rid fresh now agent event = (Inr out, db', idb', log') \<and>
    discoveries_tbl db' = discoveries_tbl db @ [q] \<and> problem q = (agent, dedup_key event) \<and> wrate_tbl db' = wrate_tbl db1 \<and>
    discovery_effect env db idb log fresh now agent event (wt_policy w) out idb' log'"
proof -
  have k: "discoveries_tbl db1 = discoveries_tbl db" "watchers_tbl db1 = watchers_tbl db" using admit_keeps [OF assms(1)] by simp_all
  note ins = insert_discovery_ok [OF assms(2) k(2,1) assms(8), where event = event and key = "dedup_key event"]
  note fa = find_active_cong [OF k(1)]
  show ?thesis
  proof (cases "find_active_discovery env db (dedup_key event) agent")
    case (Some i)
    obtain db2 q where d: "insert_discovery env db1 rid agent event (dedup_key event) now (Some i) True = Some db2"
      "discoveries_tbl db2 = discoveries_tbl db @ [q]" "problem q = (agent, dedup_key event)" "wrate_tbl db2 = wrate_tbl db1" by (rule ins)
    let ?out = "\<lparr>do_record = \<lparr>dc_id = rid, dc_agent_id = agent, dc_event = event, dc_received_at = now,
      dc_created_issue_id = Some i, dc_suppressed = True\<rparr>, do_issue_id = None, do_suppressed = True,
      do_message = ''Suppressed duplicate: issue '' @ uuid_to_string env i @ '' already tracks this problem''\<rparr>"
    have "submit_discovery env db idb log rid fresh now agent event = (Inr ?out, update_watcher_stats env db2 agent now, idb, log)"
      using assms(1) Some d(1) by (simp add: submit_discovery_def fa)
    moreover have "discovery_effect env db idb log fresh now agent event (wt_policy w) ?out idb log" using Some by (simp add: discovery_effect_def)
    ultimately show ?thesis using d(2,3,4) by (metis update_watcher_stats_keeps)
  next
    case None
    obtain created idb' log' where c: "(if should_auto_create (wt_policy w) (default_priority env event)
        then auto_issue env idb log fresh now agent event (ip_max_per_hour (wt_policy w)) else (Inr None, idb, log)) = (Inr created, idb', log')"
      "\<forall>out. \<not> do_suppressed out \<and> do_issue_id out = created \<longrightarrow> discovery_effect env db idb log fresh now agent event (wt_policy w) out idb' log'"
      by (rule auto_issue_effect [OF assms(3-7) None])
    obtain db2 q where d: "insert_discovery env db1 rid agent event (dedup_key event) now created False = Some db2"
      "discoveries_tbl db2 = discoveries_tbl db @ [q]" "problem q = (agent, dedup_key event)" "wrate_tbl db2 = wrate_tbl db1" by (rule ins)
    have "\<exists>out. submit_discovery env db idb log rid fresh now agent event = (Inr out, update_watcher_stats env db2 agent now, idb', log') \<and>
        \<not> do_suppressed out \<and> do_issue_id out = created"
      using assms(1) None c(1) d(1) by (simp add: submit_discovery_def fa Let_def)
    then show ?thesis using c(2) d(2,3,4) by (metis update_watcher_stats_keeps)
  qed
qed

section \<open>Properties\<close>

text \<open>Every outcome of submitting a discovery for a registered watcher: a paused watcher is refused with
  nothing changed, a watcher at its hourly limit is refused and the refusal does not count;
  otherwise exactly one record is added and counted, and it is suppressed exactly when an earlier
  unsuppressed discovery of the same problem produced an issue. If not suppressed, an open issue with the derived
  title and priority is created and logged when the policy allows that priority and the issue
  rate limit is not reached, and the issues are unchanged otherwise.\<close>

theorem submit_discovery_outcomes:
  assumes "watcher_get env db now agent = Inr w" "wf_issues env idb" "wf_log env log" "issue_view env idb fresh = None"
    "\<forall>r\<in>set (discoveries_tbl db). dr_id r \<noteq> uuid_to_string env rid"
    "wrate_of db (agent, watcher_hour_bucket env now) + 1 < 2 ^ 32" "rate_of idb (agent, hour_bucket env now) + 1 < 2 ^ 32"
    "ip_max_per_hour (wt_policy w) < 2 ^ 32"
  shows "let k = (agent, watcher_hour_bucket env now); m = ip_max_per_hour (wt_policy w) in
    if wt_status w = WtPaused
    then submit_discovery env db idb log rid fresh now agent event = (Inl (WtNotFound (paused_message agent)), db, idb, log)
    else if m \<le> wrate_of db k
    then (\<exists>db'. submit_discovery env db idb log rid fresh now agent event = (Inl (WtRateLimitExceeded agent (wrate_of db k + 1) m), db', idb, log) \<and>
            discoveries_tbl db' = discoveries_tbl db \<and> wrate_of db' = wrate_of db)
    else (\<exists>out db' idb' log' q. submit_discovery env db idb log rid fresh now agent event = (Inr out, db', idb', log') \<and>
            discoveries_tbl db' = discoveries_tbl db @ [q] \<and> problem q = (agent, dedup_key event) \<and>
            wrate_of db' = (wrate_of db)(k := wrate_of db k + 1) \<and>
            discovery_effect env db idb log fresh now agent event (wt_policy w) out idb' log')"
proof -
  define k where "k = (agent, watcher_hour_bucket env now)"
  let ?m = "ip_max_per_hour (wt_policy w)"
  consider (paused) "wt_status w = WtPaused" | (over) "wt_status w \<noteq> WtPaused" "?m \<le> wrate_of db k"
    | (ok) "wt_status w \<noteq> WtPaused" "wrate_of db k < ?m" by linarith
  then show ?thesis
  proof cases
    case paused
    with assms(1) show ?thesis by (simp add: submit_discovery_def admit_discovery_def)
  next
    case over
    obtain db1 where a: "admit_discovery env db now agent = (Inl (WtRateLimitExceeded agent (wrate_of db k + 1) ?m), db1)" "wrate_of db1 = wrate_of db"
      by (rule admit_refused [OF assms(1) over(1) k_def over(2)]) (use assms(6) in \<open>simp add: k_def\<close>)
    with over admit_keeps [OF a(1)] show ?thesis by (simp add: submit_discovery_def k_def [symmetric])
  next
    case ok
    obtain db1 where a: "admit_discovery env db now agent = (Inr w, db1)" "wrate_of db1 = (wrate_of db)(k := wrate_of db k + 1)"
      by (rule admit_accepted [OF assms(1) ok(1) k_def ok(2) assms(8)])
    have cong: "wrate_tbl d = wrate_tbl db1 \<Longrightarrow> wrate_of d = wrate_of db1" for d by (simp add: wrate_of_def fun_eq_iff)
    obtain out db' idb' log' q where s: "submit_discovery env db idb log rid fresh now agent event = (Inr out, db', idb', log')"
      "discoveries_tbl db' = discoveries_tbl db @ [q]" "problem q = (agent, dedup_key event)" "wrate_tbl db' = wrate_tbl db1"
      "discovery_effect env db idb log fresh now agent event (wt_policy w) out idb' log'"
      using submit_admitted [OF a(1) assms(1-4,7,8,5), of event] by blast
    have "wrate_of db' = (wrate_of db)(k := wrate_of db k + 1)" using cong [OF s(4)] a(2) by simp
    with s(1,2,3,5) ok show ?thesis unfolding Let_def k_def [symmetric] by auto
  qed
qed


text \<open>Suppression is permanent: once a discovery has produced an issue, every later successful discovery of
  the same problem is suppressed and touches no issue, whatever happened in between, also when the issue
  has been resolved or closed.\<close>

theorem suppression_permanent:
  assumes "issue_codecs env" "(watch_step env)\<^sup>*\<^sup>* (watcher_db_empty, idb, log) st"
    "find_active_discovery env (fst st) key agent = Some i" "(watch_step env)\<^sup>*\<^sup>* st (db', idb', log')" "dedup_key event = key"
    "submit_discovery env db' idb' log' rid fresh now agent event = (Inr out, db'', idb'', log'')"
  shows "do_suppressed out \<and> dc_created_issue_id (do_record out) = Some i \<and> do_issue_id out = None \<and> idb'' = idb' \<and> log'' = log'"
proof -
  have one: "one_issue_each env (discoveries_tbl (fst st))"
    using watch_steps_keep [OF assms(2,1)] by (simp add: watcher_db_empty_def one_issue_each_def)
  have keep: "one_issue_each env (discoveries_tbl db')" "set (discoveries_tbl (fst st)) \<subseteq> set (discoveries_tbl db')"
    using watch_steps_keep [OF assms(4,1) one] by simp_all
  have act: "find_active_discovery env db' key agent = Some i"
    using assms(3) keep(2) unfolding find_active_Some [OF assms(1) one] find_active_Some [OF assms(1) keep(1)] by auto
  obtain r1 db1 where a: "admit_discovery env db' now agent = (r1, db1)" by fastforce
  have fa: "find_active_discovery env db1 = find_active_discovery env db'" by (rule find_active_cong) (simp add: admit_keeps [OF a])
  from assms(6) a act assms(5) show ?thesis
    by (auto simp: submit_discovery_def fa split: sum.splits option.splits)
qed

section \<open>The properties at concrete inputs\<close>

definition e_policy :: "IssueCreationPolicy enc" where
  "e_policy p = e_bool (ip_auto_create p) @ e_nat (ip_max_per_hour p) @ e_opt e_str (ip_require_approval_above p)"
definition d_policy :: "IssueCreationPolicy dec" where
  "d_policy = d3 IssueCreationPolicy.make d_bool d_nat (d_opt d_str)"

lemma wires_policy [simp]: "wires e_policy d_policy"
  unfolding wires_def by (simp add: e_policy_def d_policy_def d_chain IssueCreationPolicy.defs)

definition sample_watcher_env :: watcher_env where
  "sample_watcher_env = \<lparr>ev_to_json = to_text e_event, ev_from_json = from_text d_event,
     to_rfc3339 = nat_to_string, uuid_to_string = nat_to_string,
     meta_to_toml = to_text e_meta, meta_from_toml = from_text d_meta,
     uuid_from_str = parse_digits 0, from_rfc3339 = parse_digits 0,
     source_to_json = to_text e_source, source_from_json = from_text d_source,
     criteria_to_json = to_text (e_list e_str),
     criteria_from_json = (\<lambda>s. if s = ''[]'' then Some [] else from_text (d_list d_str) s),
     hour_bucket = (\<lambda>t. nat_to_string (t div 3600)), is_alphanumeric = ascii_word_char, str_lowercase = to_lowercase,
     event_to_json = discovery_type, event_to_json_pretty = discovery_type, event_from_json = (\<lambda>_. None),
     policy_to_json = to_text e_policy, policy_from_json = from_text d_policy,
     watcher_hour_bucket = (\<lambda>t. nat_to_string (t div 3600)), f64_sub = (-), f64_abs = id, f64_div = (div),
     f64_gt = (\<lambda>a b. b < a), f64_fixed2 = (\<lambda>w. nat_to_string (unat w))\<rparr>"

lemma sample_watcher_env_sel [simp]:
  "uuid_to_string sample_watcher_env = nat_to_string" "to_rfc3339 sample_watcher_env = nat_to_string"
  "uuid_from_str sample_watcher_env = parse_digits 0" "from_rfc3339 sample_watcher_env = parse_digits 0"
  "hour_bucket sample_watcher_env = (\<lambda>t. nat_to_string (t div 3600))" "watcher_hour_bucket sample_watcher_env = (\<lambda>t. nat_to_string (t div 3600))"
  "policy_to_json sample_watcher_env = to_text e_policy" "policy_from_json sample_watcher_env = from_text d_policy"
  by (simp_all add: sample_watcher_env_def)

lemma sample_watcher_ok: "json_ok sample_watcher_env" "issue_codecs sample_watcher_env"
proof -
  show "json_ok sample_watcher_env" by (rule json_ok_text) (simp_all add: sample_watcher_env_def)
  show "issue_codecs sample_watcher_env"
    using to_text_list_not_brackets
    by (simp add: issue_codecs_def sample_watcher_env_def from_to_text parse_digits_nat_to_string del: e_list.simps)
qed

definition sample_watcher :: Watcher where
  "sample_watcher = \<lparr>wt_agent_id = ''ci'', wt_watch_type = TestSuite, wt_description = [],
     wt_policy = \<lparr>ip_auto_create = True, ip_max_per_hour = 2, ip_require_approval_above = None\<rparr>, wt_status = WtActive,
     wt_registered_at = 1, wt_last_discovery_at = None, wt_discovery_count = 0\<rparr>"

definition sample_failure :: DiscoveryEventKind where
  "sample_failure = TestFailureDiscovered ''s'' ''t'' [] None"

definition registered :: watcher_db where
  "registered = snd (watcher_register sample_watcher_env watcher_db_empty sample_watcher)"

lemma registered_eq: "registered = \<lparr>watchers_tbl = [watcher_to_row sample_watcher_env sample_watcher], discoveries_tbl = [], wrate_tbl = []\<rparr>"
  by (simp add: registered_def watcher_register_def watcher_db_empty_def)

lemma sample_get:
  "watcher_get sample_watcher_env (registered\<lparr>discoveries_tbl := ds, wrate_tbl := rs\<rparr>) now ''ci'' = Inr sample_watcher"
  "watcher_get sample_watcher_env registered now ''ci'' = Inr sample_watcher"
  by (simp_all add: registered_eq watcher_get_def watcher_to_row_def row_to_watcher_def from_to_text parse_digits_nat_to_string sample_watcher_def
      watch_type_from_db_str_def watcher_status_from_db_str_def)

theorem submit_discovery_outcomes_witness:
  "\<exists>out db' idb' log'. submit_discovery sample_watcher_env registered issue_db_empty elog_empty 1 7 5 ''ci'' sample_failure = (Inr out, db', idb', log') \<and>
     do_issue_id out = Some 7 \<and> length (discoveries_tbl db') = 1"
proof -
  let ?env = sample_watcher_env
  have wf: "wf_issues ?env issue_db_empty" using sample_watcher_ok(2) by (simp add: wf_issues_def issue_db_empty_def)
  have v: "issue_view ?env issue_db_empty 7 = None" by (simp add: issue_view_def issue_rows_def issue_db_empty_def)
  have r: "rate_of issue_db_empty k = 0" "wrate_of registered k = 0" for k
    by (simp_all add: rate_of_def wrate_of_def issue_db_empty_def registered_eq)
  have d: "discoveries_tbl registered = []" by (simp add: registered_eq)
  have f: "find_active_discovery ?env registered key agent = None" for key agent by (simp add: find_active_discovery_def d)
  have p: "wt_status sample_watcher = WtActive" "ip_max_per_hour (wt_policy sample_watcher) = 2"
    "should_auto_create (wt_policy sample_watcher) pr" for pr by (simp_all add: sample_watcher_def should_auto_create_def)
  from submit_discovery_outcomes [OF sample_get(2) wf wf_log_empty [OF sample_watcher_ok(1)] v, of 1 5 sample_failure]
  have "\<exists>out db' idb' log' q. submit_discovery ?env registered issue_db_empty elog_empty 1 7 5 ''ci'' sample_failure = (Inr out, db', idb', log') \<and>
      do_issue_id out = Some 7 \<and> discoveries_tbl db' = [q]" by (simp add: Let_def r d p discovery_effect_def f) blast
  then show ?thesis by (elim exE conjE) (intro exI conjI, assumption, simp_all)
qed

text \<open>The same failure reported twice.\<close>

definition reported :: "watcher_db \<times> issue_db \<times> event_log" where
  "reported = snd (submit_discovery sample_watcher_env registered issue_db_empty elog_empty 1 7 5 ''ci'' sample_failure)"

lemma reported_reachable:
  "(watch_step sample_watcher_env)\<^sup>*\<^sup>* (watcher_db_empty, issue_db_empty, elog_empty) reported"
proof -
  have "watch_step sample_watcher_env (watcher_db_empty, issue_db_empty, elog_empty) (registered, issue_db_empty, elog_empty)"
    unfolding registered_def by (rule wstep_register)
  moreover have "watch_step sample_watcher_env (registered, issue_db_empty, elog_empty) reported" unfolding reported_def by (rule wstep_submit)
  ultimately show ?thesis by (meson rtranclp.simps)
qed


definition failure_row :: discovery_row where
  "failure_row = \<lparr>dr_id = nat_to_string 1, dr_agent_id = ''ci'', dr_event_type = ''test_failure'', dr_event_json = event_to_json sample_watcher_env sample_failure,
     dr_dedup_key = dedup_key sample_failure, dr_received_at = nat_to_string 5, dr_created_issue_id = Some (nat_to_string 7), dr_suppressed = False\<rparr>"

definition reported_db :: watcher_db where
  "reported_db = update_watcher_stats sample_watcher_env
     (registered\<lparr>discoveries_tbl := [failure_row], wrate_tbl := [((''ci'', nat_to_string 0), 1)]\<rparr>) ''ci'' 5"

definition reported_issue :: issue_row where
  "reported_issue = new_issue_row sample_watcher_env 7 5 (default_title sample_watcher_env sample_failure) (discovery_description sample_watcher_env ''ci'' sample_failure)
     PMedium [''test_failure'', ''watcher''] ''ci''
     (Some (source_to_json sample_watcher_env \<lparr>as_source_type = ''test_failure'', as_details = event_to_json sample_watcher_env sample_failure\<rparr>))"

definition reported_idb :: issue_db where
  "reported_idb = issue_db_empty\<lparr>issues_tbl := [reported_issue], rate_tbl := [((''ci'', nat_to_string 0), 1)]\<rparr>"

lemma reported_eq:
  obtains log1 where "reported = (reported_db, reported_idb, log1)" "wf_log sample_watcher_env log1"
proof -
  have ty: "discovery_type sample_failure = ''test_failure''" "default_priority env sample_failure = PMedium" for env :: watcher_env
    by (simp_all add: sample_failure_def)
  obtain e log1 where l: "elog_append sample_watcher_env elog_empty 5 (IssueCreated 7 (default_title sample_watcher_env sample_failure) ''ci'' ''medium'') = Inr (e, log1)"
    "wf_log sample_watcher_env log1" by (rule elog.appendE [OF wf_log_empty [OF sample_watcher_ok(1)]])
  have adm: "admit_discovery sample_watcher_env registered 5 ''ci'' = (Inr sample_watcher, registered\<lparr>wrate_tbl := [((''ci'', nat_to_string 0), 1)]\<rparr>)"
    by (simp add: admit_discovery_def sample_get increment_rate_limit_def Let_def) (simp add: registered_eq sample_watcher_def)
  have sim: "store_find_similar sample_watcher_env (issue_db_empty\<lparr>rate_tbl := x\<rparr>) t = None" for x t
    by (simp add: store_find_similar_def issue_db_empty_def List.map_filter_def Let_def)
  have cr: "\<exists>x. create_by_agent sample_watcher_env issue_db_empty elog_empty 7 5 (default_title sample_watcher_env sample_failure)
      (discovery_description sample_watcher_env ''ci'' sample_failure) PMedium [''test_failure'', ''watcher''] ''ci''
      \<lparr>as_source_type = ''test_failure'', as_details = event_to_json sample_watcher_env sample_failure\<rparr> 2 = (Inr (x, None), reported_idb, log1) \<and> is_id x = 7"
    using l(1) by (simp add: create_by_agent_def increment_agent_rate_limit_def Let_def insert_issue_row_def log_then_def sim reported_idb_def reported_issue_def)
      (simp add: issue_db_empty_def)
  then have ai: "auto_issue sample_watcher_env issue_db_empty elog_empty 7 5 ''ci'' sample_failure 2 = (Inr (Some 7), reported_idb, log1)"
    by (auto simp: auto_issue_def ty)
  have pol: "should_auto_create (wt_policy sample_watcher) PMedium" "ip_max_per_hour (wt_policy sample_watcher) = 2"
    by (simp_all add: sample_watcher_def should_auto_create_def)
  have ins: "insert_discovery sample_watcher_env (registered\<lparr>wrate_tbl := [((''ci'', nat_to_string 0), 1)]\<rparr>) 1 ''ci'' sample_failure (dedup_key sample_failure) 5 (Some 7) False =
      Some (registered\<lparr>discoveries_tbl := [failure_row], wrate_tbl := [((''ci'', nat_to_string 0), 1)]\<rparr>)"
    by (simp add: insert_discovery_def registered_eq failure_row_def ty watcher_to_row_def sample_watcher_def)
  have fa: "find_active_discovery sample_watcher_env (registered\<lparr>wrate_tbl := x\<rparr>) key a = None" for x key a
    by (simp add: find_active_discovery_def registered_eq)
  have "reported = (reported_db, reported_idb, log1)"
    using adm ai ins fa pol ty by (simp add: reported_def submit_discovery_def Let_def reported_db_def)
  with that l(2) show ?thesis by blast
qed

text \<open>The issue of the first report is closed, the failure is reported again: still suppressed.\<close>

theorem suppression_permanent_witness:
  "\<exists>db idb log out rest. (watch_step sample_watcher_env)\<^sup>*\<^sup>* (watcher_db_empty, issue_db_empty, elog_empty) (db, idb, log) \<and>
     (\<exists>x. issue_view sample_watcher_env idb 7 = Some x \<and> is_status x = IClosed) \<and>
     submit_discovery sample_watcher_env db idb log 2 8 30 ''ci'' sample_failure = (Inr out, rest) \<and> do_suppressed out \<and> do_issue_id out = None"
proof -
  let ?env = sample_watcher_env
  obtain log1 where r: "reported = (reported_db, reported_idb, log1)" "wf_log ?env log1" by (rule reported_eq)
  define idb2 where "idb2 = update_issue_row (nat_to_string 7) (\<lambda>r. r\<lparr>ir_status := ''closed'', ir_resolution := Some ''wontfix'', ir_updated_at := nat_to_string 6\<rparr>) reported_idb"
  have get: "issue_get ?env reported_idb 6 7 = Inr (row_to_issue ?env 6 reported_issue)"
    by (simp add: issue_get_def reported_idb_def reported_issue_def new_issue_row_def)
  obtain log2 where l: "log_then ?env idb2 log1 6 (IssueClosed 7 ''wontfix'') (\<lambda>log1. (issue_get ?env idb2 6 7, idb2, log1)) = (issue_get ?env idb2 6 7, idb2, log2)"
    by (rule log_then_ok [OF r(2)])
  have "snd (issue_close ?env reported_idb log1 6 7 ''wontfix'') = (idb2, log2)"
    using l by (simp add: issue_close_def get Let_def idb2_def)
  then have step: "watch_step ?env reported (reported_db, idb2, log2)"
    unfolding r(1) using st_close [of ?env reported_idb log1 6 7 "''wontfix''"] by (intro wstep_issue) simp
  have closed: "issue_view ?env idb2 7 = Some (row_to_issue ?env 0 (reported_issue\<lparr>ir_status := ''closed'', ir_resolution := Some ''wontfix'', ir_updated_at := nat_to_string 6\<rparr>))"
    by (simp add: issue_view_def issue_rows_def idb2_def update_issue_row_def reported_idb_def) (simp add: reported_issue_def new_issue_row_def)
  have act: "find_active_discovery ?env (fst reported) (dedup_key sample_failure) ''ci'' = Some 7"
    by (simp add: r(1) find_active_discovery_def reported_db_def failure_row_def parse_digits_nat_to_string)
  then have act': "find_active_discovery ?env reported_db (dedup_key sample_failure) ''ci'' = Some 7" by (simp add: r(1))
  have g: "\<exists>w. watcher_get ?env reported_db 30 ''ci'' = Inr w \<and> wt_status w \<noteq> WtPaused \<and> ip_max_per_hour (wt_policy w) = 2"
    by (simp add: reported_db_def update_watcher_stats_def update_watcher_row_def registered_eq watcher_get_def watcher_to_row_def row_to_watcher_def
        from_to_text watcher_status_from_db_str_def) (simp add: sample_watcher_def)
  then obtain w where w: "watcher_get ?env reported_db 30 ''ci'' = Inr w" "wt_status w \<noteq> WtPaused" "ip_max_per_hour (wt_policy w) = 2" by blast
  have wr: "wrate_of reported_db (''ci'', watcher_hour_bucket ?env 30) < ip_max_per_hour (wt_policy w)"
    unfolding w(3) by (simp add: wrate_of_def reported_db_def)
  obtain db1 where a: "admit_discovery ?env reported_db 30 ''ci'' = (Inr w, db1)"
    by (rule admit_accepted [OF w(1,2) refl wr]) (simp add: w(3))
  have k: "discoveries_tbl db1 = discoveries_tbl reported_db" "watchers_tbl db1 = watchers_tbl reported_db" using admit_keeps [OF a] by simp_all
  have "\<forall>r\<in>set (discoveries_tbl reported_db). dr_id r \<noteq> uuid_to_string ?env 2"
    using injD [OF inj_nat_to_string, of 1 2] by (auto simp: reported_db_def failure_row_def)
  then obtain db2 q where i: "insert_discovery ?env db1 2 ''ci'' sample_failure (dedup_key sample_failure) 30 (Some 7) True = Some db2"
    by (rule insert_discovery_ok [OF w(1) k(2,1)])
  have "find_active_discovery ?env db1 = find_active_discovery ?env reported_db" by (rule find_active_cong [OF k(1)])
  then have "\<exists>out db'' idb'' log''. submit_discovery ?env reported_db idb2 log2 2 8 30 ''ci'' sample_failure = (Inr out, db'', idb'', log'')"
    using a i act' by (simp add: submit_discovery_def)
  then obtain out db'' idb'' log'' where s: "submit_discovery ?env reported_db idb2 log2 2 8 30 ''ci'' sample_failure = (Inr out, db'', idb'', log'')" by blast
  from suppression_permanent [OF sample_watcher_ok(2) reported_reachable act r_into_rtranclp [of "watch_step ?env", OF step] refl s]
  have "do_suppressed out" "do_issue_id out = None" by simp_all
  moreover have "(watch_step ?env)\<^sup>*\<^sup>* (watcher_db_empty, issue_db_empty, elog_empty) (reported_db, idb2, log2)"
    using reported_reachable step by (rule rtranclp.rtrancl_into_rtrancl)
  ultimately show ?thesis using s closed status_of_row [of ?env 0] by (intro exI conjI) (assumption | simp)+
qed

end
