(* ===== verification/Extract.thy ===== *)
theory Extract
  imports Graph
begin

text \<open>
  The language front ends of the semantic graph (\<open>src/graph/mod.rs\<close>): the walks over a
  tree-sitter syntax tree that extract entities and relationships from Rust and TypeScript
  sources. The tree is a rose tree with the attributes the code reads; the tree-sitter library
  itself (grammars and parser) is the parameter \<open>ts\<close>, SHA-256 is \<open>sha\<close>, and the Unicode table
  behind \<open>char::is_uppercase\<close> is \<open>upper\<close>, consulted for characters outside ASCII only.
  The walks append to the two output vectors, which are passed along as a pair; the parent stack
  is a list with its top first.
\<close>

section \<open>Syntax trees\<close>

datatype node = Node
  (nd_kind: string) (nd_named: bool) (nd_field: "string option")
  (nd_bytes: "nat \<times> nat") (nd_rows: "nat \<times> nat") (nd_children: "node list")

definition start_byte :: "node \<Rightarrow> nat" where "start_byte n = fst (nd_bytes n)"
definition end_byte :: "node \<Rightarrow> nat" where "end_byte n = snd (nd_bytes n)"

definition named_children :: "node \<Rightarrow> node list" where
  "named_children n = filter nd_named (nd_children n)"

definition child_by_field_name :: "node \<Rightarrow> string \<Rightarrow> node option" where
  "child_by_field_name n f = find (\<lambda>c. nd_field c = Some f) (nd_children n)"

datatype Language = LangRust | LangTypescript | LangTsx

type_synonym tree_sitter = "Language \<Rightarrow> bytes \<Rightarrow> (string, node option) result"
type_synonym parents = "(string \<times> string) list"
type_synonym extraction = "Entity list \<times> Relationship list"

lemma size_child: "c \<in> set (nd_children n) \<Longrightarrow> size c < size n"
proof (cases n)
  case (Node k nm fld b r cs)
  assume "c \<in> set (nd_children n)"
  then have "size c < Suc (size_list size cs)" by (simp add: Node less_Suc_eq_le size_list_estimation')
  then show ?thesis by (simp add: Node)
qed

lemma size_named_child: "c \<in> set (named_children n) \<Longrightarrow> size c < size n"
  by (simp add: named_children_def size_child)

lemma child_by_field_nameD:
  "child_by_field_name n f = Some c \<Longrightarrow> c \<in> set (nd_children n) \<and> nd_field c = Some f"
  unfolding child_by_field_name_def by (metis (mono_tags, lifting) find_Some_iff nth_mem)

lemma size_field: "child_by_field_name n f = Some c \<Longrightarrow> size c < size n"
  by (simp add: child_by_field_nameD size_child)

lemma size_field_child: "child_by_field_name n f = Some b \<Longrightarrow> c \<in> set (named_children b) \<Longrightarrow> size c < size n"
  using size_field size_named_child less_trans by blast

section \<open>Text of a node\<close>

text \<open>\<open>utf8_text\<close>: the bytes between the node's offsets, when they are valid UTF-8.\<close>

definition node_text :: "node \<Rightarrow> bytes \<Rightarrow> string option" where
  "node_text n source =
     (let t = take (end_byte n - start_byte n) (drop (start_byte n) source)
      in if from_utf8_lossy t = t then Some t else None)"

definition qualify :: "string \<Rightarrow> parents \<Rightarrow> string" where
  "qualify name stack =
     (case stack of
        [] \<Rightarrow> name
      | (_, pre) # _ \<Rightarrow> takeWhile (\<lambda>c. c \<noteq> CHR ''@'') pre @ ''::'' @ name)"

function trim_start_str :: "string \<Rightarrow> string \<Rightarrow> string" where
  "trim_start_str p s = (if p \<noteq> [] \<and> starts_with s p then trim_start_str p (drop (length p) s) else s)"
  by pat_completeness auto
termination
  by (relation "measure (\<lambda>(p, s). length s)") (auto simp: starts_with_iff)

declare trim_start_str.simps [simp del]

definition stack_parent :: "parents \<Rightarrow> string option" where
  "stack_parent stack = (case stack of [] \<Rightarrow> None | (i, _) # _ \<Rightarrow> Some i)"

text \<open>The literal every extractor ends with.\<close>

definition make_entity ::
  "(bytes \<Rightarrow> string) \<Rightarrow> string \<Rightarrow> parents \<Rightarrow> node \<Rightarrow> EntityKind \<Rightarrow> string \<Rightarrow> string \<Rightarrow> Entity" where
  "make_entity sha file_path stack n k name qualified_name =
     \<lparr>en_id = compute_id sha file_path qualified_name, en_kind = k, en_name = name,
      en_qualified_name = qualified_name, en_file_path = file_path,
      en_byte_range = (start_byte n, end_byte n),
      en_line_range = (fst (nd_rows n) + 1, snd (nd_rows n) + 1),
      en_parent_entity = stack_parent stack\<rparr>"

definition add_contains_rel :: "(bytes \<Rightarrow> string) \<Rightarrow> parents \<Rightarrow> string \<Rightarrow> Relationship list \<Rightarrow> Relationship list" where
  "add_contains_rel sha stack child_id rels =
     (case stack of [] \<Rightarrow> rels | (parent_id, _) # _ \<Rightarrow> rels @ [rel_new sha RContains parent_id child_id])"

definition push_entity :: "(bytes \<Rightarrow> string) \<Rightarrow> parents \<Rightarrow> Entity \<Rightarrow> extraction \<Rightarrow> extraction" where
  "push_entity sha stack e acc = (fst acc @ [e], add_contains_rel sha stack (en_id e) (snd acc))"

definition push_opt :: "(bytes \<Rightarrow> string) \<Rightarrow> parents \<Rightarrow> Entity option \<Rightarrow> extraction \<Rightarrow> extraction" where
  "push_opt sha stack oe acc = (case oe of None \<Rightarrow> acc | Some e \<Rightarrow> push_entity sha stack e acc)"

section \<open>Rust\<close>

definition extract_function ::
  "(bytes \<Rightarrow> string) \<Rightarrow> node \<Rightarrow> bytes \<Rightarrow> string \<Rightarrow> parents \<Rightarrow> bool \<Rightarrow> Entity option" where
  "extract_function sha n source file_path stack inside_impl =
     (case child_by_field_name n ''name'' of
        None \<Rightarrow> None
      | Some name_node \<Rightarrow> (case node_text name_node source of
          None \<Rightarrow> None
        | Some name \<Rightarrow> Some (make_entity sha file_path stack n (if inside_impl then KMethod else KFunction)
                         name (qualify name stack))))"

definition extract_named_item ::
  "(bytes \<Rightarrow> string) \<Rightarrow> node \<Rightarrow> bytes \<Rightarrow> string \<Rightarrow> parents \<Rightarrow> EntityKind \<Rightarrow> string list \<Rightarrow> Entity option" where
  "extract_named_item sha n source file_path stack k name_kinds =
     (case child_by_field_name n ''name'' of
        None \<Rightarrow> None
      | Some name_node \<Rightarrow>
          if nd_kind name_node \<notin> set name_kinds then None
          else (case node_text name_node source of
                  None \<Rightarrow> None
                | Some name \<Rightarrow> Some (make_entity sha file_path stack n k name (qualify name stack))))"

definition extract_impl_item ::
  "(bytes \<Rightarrow> string) \<Rightarrow> node \<Rightarrow> bytes \<Rightarrow> string \<Rightarrow> parents \<Rightarrow> Entity option" where
  "extract_impl_item sha n source file_path stack =
     (case child_by_field_name n ''type'' of
        None \<Rightarrow> None
      | Some type_node \<Rightarrow> (case node_text type_node source of
          None \<Rightarrow> None
        | Some type_name \<Rightarrow>
            let name = (case child_by_field_name n ''trait'' of
                          Some trait_node \<Rightarrow>
                            (case node_text trait_node source of None \<Rightarrow> '''' | Some t \<Rightarrow> t) @ '' for '' @ type_name
                        | None \<Rightarrow> type_name);
                qualified_name = qualify name stack @ ''@'' @ nat_to_string (start_byte n)
            in Some (make_entity sha file_path stack n KImpl name qualified_name)))"

definition extract_use_declaration ::
  "(bytes \<Rightarrow> string) \<Rightarrow> node \<Rightarrow> bytes \<Rightarrow> string \<Rightarrow> parents \<Rightarrow> Entity option" where
  "extract_use_declaration sha n source file_path stack =
     (case node_text n source of
        None \<Rightarrow> None
      | Some text \<Rightarrow>
          let name = trim (trim_end_matches (CHR '';'') (trim_start_str ''use '' text));
              qualified_name = ''use::'' @ name @ ''@'' @ nat_to_string (start_byte n)
          in Some (make_entity sha file_path stack n KUseStatement name qualified_name))"

function extract_entities ::
  "(bytes \<Rightarrow> string) \<Rightarrow> bytes \<Rightarrow> string \<Rightarrow> parents \<Rightarrow> bool \<Rightarrow> node \<Rightarrow> extraction \<Rightarrow> extraction" where
  "extract_entities sha source file_path stack inside_impl n acc =
     (let container = (\<lambda>oe inside. case oe of
            None \<Rightarrow> acc
          | Some e \<Rightarrow>
              (case child_by_field_name n ''body'' of
                 None \<Rightarrow> push_entity sha stack e acc
               | Some body \<Rightarrow>
                   fold (extract_entities sha source file_path ((en_id e, en_qualified_name e) # stack) inside)
                     (named_children body) (push_entity sha stack e acc)))
      in if nd_kind n = ''function_item'' then
           push_opt sha stack (extract_function sha n source file_path stack inside_impl) acc
         else if nd_kind n = ''struct_item'' then
           push_opt sha stack (extract_named_item sha n source file_path stack KStruct [''type_identifier'']) acc
         else if nd_kind n = ''enum_item'' then
           push_opt sha stack (extract_named_item sha n source file_path stack KEnum [''type_identifier'']) acc
         else if nd_kind n = ''trait_item'' then
           container (extract_named_item sha n source file_path stack KTrait [''type_identifier'']) False
         else if nd_kind n = ''impl_item'' then
           container (extract_impl_item sha n source file_path stack) True
         else if nd_kind n = ''mod_item'' then
           container (extract_named_item sha n source file_path stack KModule [''identifier'']) False
         else if nd_kind n = ''use_declaration'' then
           push_opt sha stack (extract_use_declaration sha n source file_path stack) acc
         else if nd_kind n = ''source_file'' then
           fold (extract_entities sha source file_path stack False) (named_children n) acc
         else acc)"
  by pat_completeness auto
termination
  by (relation "measure (\<lambda>(sha, src, f, st, i, n, acc). size n)") (auto simp: size_named_child size_field_child)

declare extract_entities.simps [simp del]

section \<open>Calls\<close>

text \<open>The map from names to identifiers: the identifiers of the entities with a name, in order;
  \<open>get\<close> is \<open>None\<close> for a name no entity has.\<close>

definition names_insert :: "Entity \<Rightarrow> (string \<rightharpoonup> string list) \<Rightarrow> (string \<rightharpoonup> string list)" where
  "names_insert e m = m(en_name e \<mapsto> (case m (en_name e) of None \<Rightarrow> [] | Some is \<Rightarrow> is) @ [en_id e])"

definition name_to_ids :: "Entity list \<Rightarrow> (string \<rightharpoonup> string list)" where
  "name_to_ids es = fold names_insert es (\<lambda>_. None)"

function extract_final_identifier :: "node \<Rightarrow> bytes \<Rightarrow> string option" where
  "extract_final_identifier n source =
     (if nd_kind n = ''identifier'' then node_text n source
      else if nd_kind n = ''scoped_identifier'' then
        (case child_by_field_name n ''name'' of None \<Rightarrow> None | Some c \<Rightarrow> node_text c source)
      else if nd_kind n = ''field_expression'' then
        (case child_by_field_name n ''field'' of None \<Rightarrow> None | Some c \<Rightarrow> node_text c source)
      else if nd_kind n = ''generic_function'' then
        (case child_by_field_name n ''function'' of None \<Rightarrow> None | Some c \<Rightarrow> extract_final_identifier c source)
      else None)"
  by pat_completeness auto
termination
  by (relation "measure (\<lambda>(n, s). size n)") (auto simp: size_field)

declare extract_final_identifier.simps [simp del]

definition push_call :: "(bytes \<Rightarrow> string) \<Rightarrow> string \<Rightarrow> string \<Rightarrow> Relationship list \<Rightarrow> Relationship list" where
  "push_call sha caller_id target_id rels =
     (if target_id \<noteq> caller_id then
        let rel = rel_new sha RCalls caller_id target_id
        in if list_ex (\<lambda>r. rl_id r = rl_id rel) rels then rels else rels @ [rel]
      else rels)"

text \<open>The name a call expression refers to.\<close>

definition callee_name :: "node \<Rightarrow> bytes \<Rightarrow> string option" where
  "callee_name n source =
     (if nd_kind n = ''call_expression'' then
        (case child_by_field_name n ''function'' of
           None \<Rightarrow> None | Some func_node \<Rightarrow> extract_final_identifier func_node source)
      else None)"

function collect_calls ::
  "(bytes \<Rightarrow> string) \<Rightarrow> bytes \<Rightarrow> string \<Rightarrow> (string \<rightharpoonup> string list) \<Rightarrow> node \<Rightarrow> Relationship list \<Rightarrow> Relationship list" where
  "collect_calls sha source caller_id names n rels =
     fold (collect_calls sha source caller_id names) (named_children n)
       (case callee_name n source of
          None \<Rightarrow> rels
        | Some name \<Rightarrow> (case names name of
            None \<Rightarrow> rels
          | Some ids \<Rightarrow> fold (push_call sha caller_id) ids rels))"
  by pat_completeness auto
termination
  by (relation "measure (\<lambda>(sha, src, c, m, n, rels). size n)") (auto simp: size_named_child)

declare collect_calls.simps [simp del]

text \<open>The loop over the children returns the first success.\<close>

fun first_some :: "('a \<Rightarrow> 'b option) \<Rightarrow> 'a list \<Rightarrow> 'b option" where
  "first_some f [] = None"
| "first_some f (x # xs) = (case f x of None \<Rightarrow> first_some f xs | Some y \<Rightarrow> Some y)"

lemma first_some_cong [fundef_cong]:
  "xs = ys \<Longrightarrow> (\<And>x. x \<in> set ys \<Longrightarrow> f x = g x) \<Longrightarrow> first_some f xs = first_some g ys"
  by (induction ys arbitrary: xs) (auto split: option.split)

function find_node_at_range :: "nat \<Rightarrow> nat \<Rightarrow> node \<Rightarrow> node option" where
  "find_node_at_range s e n =
     (if start_byte n = s \<and> end_byte n = e then Some n
      else first_some (\<lambda>c. if start_byte c \<le> s \<and> e \<le> end_byte c then find_node_at_range s e c else None)
             (named_children n))"
  by pat_completeness auto
termination
  by (relation "measure (\<lambda>(s, e, n). size n)") (auto simp: size_named_child)

declare find_node_at_range.simps [simp del]

definition build_calls_relationships ::
  "(bytes \<Rightarrow> string) \<Rightarrow> node \<Rightarrow> bytes \<Rightarrow> Entity list \<Rightarrow> Relationship list \<Rightarrow> Relationship list" where
  "build_calls_relationships sha root source es rels =
     fold (\<lambda>e rels.
        if en_kind e \<notin> {KFunction, KMethod} then rels
        else (case find_node_at_range (fst (en_byte_range e)) (snd (en_byte_range e)) root of
                None \<Rightarrow> rels
              | Some func_node \<Rightarrow>
                  (case child_by_field_name func_node ''body'' of
                     None \<Rightarrow> rels
                   | Some body \<Rightarrow> collect_calls sha source (en_id e) (name_to_ids es) body rels)))
       es rels"

text \<open>What both parsers start with: choose the grammar, parse, and walk the root.\<close>

definition parse_with ::
  "tree_sitter \<Rightarrow> Language \<Rightarrow> string \<Rightarrow> bytes \<Rightarrow> (node \<Rightarrow> extraction) \<Rightarrow> (GraphError, extraction) result" where
  "parse_with ts lang file_path source k =
     (case ts lang source of
        Inl msg \<Rightarrow> Inl (GLanguage msg)
      | Inr None \<Rightarrow> Inl (GParse (''failed to parse '' @ file_path))
      | Inr (Some root) \<Rightarrow> Inr (k root))"

definition parse_rust_source ::
  "(bytes \<Rightarrow> string) \<Rightarrow> tree_sitter \<Rightarrow> string \<Rightarrow> bytes \<Rightarrow> (GraphError, extraction) result" where
  "parse_rust_source sha ts file_path source =
     parse_with ts LangRust file_path source (\<lambda>root.
       let (es, rels) = extract_entities sha source file_path [] False root ([], [])
       in (es, build_calls_relationships sha root source es rels))"

section \<open>TypeScript\<close>

function subtree_has_jsx :: "node \<Rightarrow> bool" where
  "subtree_has_jsx n =
     (nd_kind n \<in> {''jsx_element'', ''jsx_self_closing_element'', ''jsx_fragment''} \<or>
      list_ex subtree_has_jsx (named_children n))"
  by pat_completeness auto
termination
  by (relation "measure size") (auto simp: size_named_child)

declare subtree_has_jsx.simps [simp del]

text \<open>\<open>is_uppercase\<close> of the character a text starts with.\<close>

definition starts_uppercase :: "(bytes \<Rightarrow> bool) \<Rightarrow> string \<Rightarrow> bool" where
  "starts_uppercase upper s =
     (case s of
        [] \<Rightarrow> False
      | c # _ \<Rightarrow> if (of_char c :: nat) < 128 then 65 \<le> (of_char c :: nat) \<and> (of_char c :: nat) \<le> 90
                 else upper (take (snd (utf8_step s)) s))"

definition ts_function_kind :: "(bytes \<Rightarrow> bool) \<Rightarrow> string \<Rightarrow> node \<Rightarrow> EntityKind" where
  "ts_function_kind upper name n =
     (if starts_with name ''use'' \<and> 3 < length name \<and> starts_uppercase upper (drop 3 name) then KHook
      else if starts_uppercase upper name \<and> subtree_has_jsx n then KComponent
      else KFunction)"

definition extract_ts_function ::
  "(bytes \<Rightarrow> string) \<Rightarrow> (bytes \<Rightarrow> bool) \<Rightarrow> node \<Rightarrow> bytes \<Rightarrow> string \<Rightarrow> parents \<Rightarrow> Entity option" where
  "extract_ts_function sha upper n source file_path stack =
     (case child_by_field_name n ''name'' of
        None \<Rightarrow> None
      | Some name_node \<Rightarrow> (case node_text name_node source of
          None \<Rightarrow> None
        | Some name \<Rightarrow> Some (make_entity sha file_path stack n (ts_function_kind upper name n) name (qualify name stack))))"

definition extract_ts_variable_declarator ::
  "(bytes \<Rightarrow> string) \<Rightarrow> (bytes \<Rightarrow> bool) \<Rightarrow> node \<Rightarrow> bytes \<Rightarrow> string \<Rightarrow> parents \<Rightarrow> Entity option" where
  "extract_ts_variable_declarator sha upper n source file_path stack =
     (case child_by_field_name n ''name'' of
        None \<Rightarrow> None
      | Some name_node \<Rightarrow> (case node_text name_node source of
          None \<Rightarrow> None
        | Some name \<Rightarrow> (case child_by_field_name n ''value'' of
            None \<Rightarrow> None
          | Some value_node \<Rightarrow>
              if nd_kind value_node \<notin> {''arrow_function'', ''function_expression''} then None
              else Some (make_entity sha file_path stack n (ts_function_kind upper name value_node) name (qualify name stack)))))"

definition extract_ts_named ::
  "(bytes \<Rightarrow> string) \<Rightarrow> node \<Rightarrow> bytes \<Rightarrow> string \<Rightarrow> parents \<Rightarrow> EntityKind \<Rightarrow> Entity option" where
  "extract_ts_named sha n source file_path stack k =
     (case child_by_field_name n ''name'' of
        None \<Rightarrow> None
      | Some name_node \<Rightarrow> (case node_text name_node source of
          None \<Rightarrow> None
        | Some name \<Rightarrow> Some (make_entity sha file_path stack n k name (qualify name stack))))"

definition extract_ts_method ::
  "(bytes \<Rightarrow> string) \<Rightarrow> node \<Rightarrow> bytes \<Rightarrow> string \<Rightarrow> parents \<Rightarrow> Entity option" where
  "extract_ts_method sha n source file_path stack =
     (case child_by_field_name n ''name'' of
        None \<Rightarrow> None
      | Some name_node \<Rightarrow> (case node_text name_node source of
          None \<Rightarrow> None
        | Some name \<Rightarrow> Some (make_entity sha file_path stack n KMethod name (qualify name stack))))"

definition heritage_rel ::
  "(bytes \<Rightarrow> string) \<Rightarrow> bytes \<Rightarrow> string \<Rightarrow> string \<Rightarrow> RelationshipKind \<Rightarrow> node \<Rightarrow> Relationship list" where
  "heritage_rel sha source file_path class_id k n =
     (case node_text n source of
        None \<Rightarrow> []
      | Some target_name \<Rightarrow> [rel_new sha k class_id (compute_id sha file_path target_name)])"

definition extract_ts_heritage ::
  "(bytes \<Rightarrow> string) \<Rightarrow> node \<Rightarrow> bytes \<Rightarrow> string \<Rightarrow> string \<Rightarrow> Relationship list" where
  "extract_ts_heritage sha n source class_id file_path =
     concat (map (\<lambda>child.
        if nd_kind child = ''extends_clause'' then
          (case child_by_field_name child ''value'' of
             None \<Rightarrow> []
           | Some value_node \<Rightarrow> heritage_rel sha source file_path class_id RExtends value_node)
        else if nd_kind child = ''implements_clause'' then
          concat (map (heritage_rel sha source file_path class_id RImplements) (named_children child))
        else []) (named_children n))"

text \<open>The class entity and the relationships its heritage clauses add.\<close>

definition extract_ts_class ::
  "(bytes \<Rightarrow> string) \<Rightarrow> node \<Rightarrow> bytes \<Rightarrow> string \<Rightarrow> parents \<Rightarrow> (Entity \<times> Relationship list) option" where
  "extract_ts_class sha n source file_path stack =
     (case child_by_field_name n ''name'' of
        None \<Rightarrow> None
      | Some name_node \<Rightarrow> (case node_text name_node source of
          None \<Rightarrow> None
        | Some name \<Rightarrow>
            let e = make_entity sha file_path stack n KClass name (qualify name stack)
            in Some (e, concat (map (\<lambda>child. if nd_kind child = ''class_heritage''
                 then extract_ts_heritage sha child source (en_id e) file_path else []) (named_children n)))))"

definition extract_ts_import ::
  "(bytes \<Rightarrow> string) \<Rightarrow> node \<Rightarrow> bytes \<Rightarrow> string \<Rightarrow> parents \<Rightarrow> Entity option" where
  "extract_ts_import sha n source file_path stack =
     (case node_text n source of
        None \<Rightarrow> None
      | Some text \<Rightarrow> Some (make_entity sha file_path stack n KUseStatement (trim text)
                       (''import@'' @ nat_to_string (start_byte n))))"

definition extract_ts_export ::
  "(bytes \<Rightarrow> string) \<Rightarrow> node \<Rightarrow> bytes \<Rightarrow> string \<Rightarrow> parents \<Rightarrow> Entity option" where
  "extract_ts_export sha n source file_path stack =
     (case node_text n source of
        None \<Rightarrow> None
      | Some text \<Rightarrow> Some (make_entity sha file_path stack n KExportStatement
                       (trim (case str_lines text of [] \<Rightarrow> ''export'' | l # _ \<Rightarrow> l))
                       (''export@'' @ nat_to_string (start_byte n))))"

definition exported_kinds :: "string list" where
  "exported_kinds = [''function_declaration'', ''class_declaration'', ''interface_declaration'',
     ''type_alias_declaration'', ''enum_declaration'', ''lexical_declaration'', ''variable_declaration'']"

function extract_ts_entities ::
  "(bytes \<Rightarrow> string) \<Rightarrow> (bytes \<Rightarrow> bool) \<Rightarrow> bytes \<Rightarrow> string \<Rightarrow> parents \<Rightarrow> node \<Rightarrow> extraction \<Rightarrow> extraction" where
  "extract_ts_entities sha upper source file_path stack n acc =
     (let within_body = (\<lambda>e acc.
            case child_by_field_name n ''body'' of
              None \<Rightarrow> acc
            | Some body \<Rightarrow>
                fold (extract_ts_entities sha upper source file_path ((en_id e, en_qualified_name e) # stack))
                  (named_children body) acc)
      in if nd_kind n = ''program'' then
           fold (extract_ts_entities sha upper source file_path stack) (named_children n) acc
         else if nd_kind n = ''function_declaration'' then
           (case extract_ts_function sha upper n source file_path stack of
              None \<Rightarrow> acc
            | Some e \<Rightarrow> within_body e (push_entity sha stack e acc))
         else if nd_kind n = ''lexical_declaration'' \<or> nd_kind n = ''variable_declaration'' then
           fold (\<lambda>child acc. if nd_kind child = ''variable_declarator''
                   then push_opt sha stack (extract_ts_variable_declarator sha upper child source file_path stack) acc
                   else acc) (named_children n) acc
         else if nd_kind n = ''class_declaration'' then
           (case extract_ts_class sha n source file_path stack of
              None \<Rightarrow> acc
            | Some (e, heritage) \<Rightarrow> within_body e (push_entity sha stack e (fst acc, snd acc @ heritage)))
         else if nd_kind n = ''method_definition'' then
           push_opt sha stack (extract_ts_method sha n source file_path stack) acc
         else if nd_kind n = ''interface_declaration'' then
           push_opt sha stack (extract_ts_named sha n source file_path stack KInterface) acc
         else if nd_kind n = ''type_alias_declaration'' then
           push_opt sha stack (extract_ts_named sha n source file_path stack KTypeAlias) acc
         else if nd_kind n = ''enum_declaration'' then
           push_opt sha stack (extract_ts_named sha n source file_path stack KEnum) acc
         else if nd_kind n = ''import_statement'' then
           push_opt sha stack (extract_ts_import sha n source file_path stack) acc
         else if nd_kind n = ''export_statement'' then
           push_opt sha stack (extract_ts_export sha n source file_path stack)
             (fold (\<lambda>child acc. if nd_kind child \<in> set exported_kinds
                      then extract_ts_entities sha upper source file_path stack child acc else acc) (named_children n) acc)
         else fold (extract_ts_entities sha upper source file_path stack) (named_children n) acc)"
  by pat_completeness auto
termination
  by (relation "measure (\<lambda>(sha, u, src, f, st, n, acc). size n)") (auto simp: size_named_child size_field_child)

declare extract_ts_entities.simps [simp del]

definition ts_callable :: "Entity \<Rightarrow> bool" where
  "ts_callable e \<longleftrightarrow> en_kind e \<in> {KFunction, KMethod, KComponent, KHook}"

definition build_ts_calls_relationships ::
  "(bytes \<Rightarrow> string) \<Rightarrow> node \<Rightarrow> bytes \<Rightarrow> Entity list \<Rightarrow> Relationship list \<Rightarrow> Relationship list" where
  "build_ts_calls_relationships sha root source es rels =
     fold (\<lambda>e rels.
        if \<not> ts_callable e then rels
        else (case find_node_at_range (fst (en_byte_range e)) (snd (en_byte_range e)) root of
                None \<Rightarrow> rels
              | Some func_node \<Rightarrow>
                  collect_calls sha source (en_id e) (name_to_ids (filter ts_callable es)) func_node rels))
       es rels"

definition parse_typescript_source ::
  "(bytes \<Rightarrow> string) \<Rightarrow> (bytes \<Rightarrow> bool) \<Rightarrow> tree_sitter \<Rightarrow> string \<Rightarrow> bytes \<Rightarrow> bool \<Rightarrow> (GraphError, extraction) result" where
  "parse_typescript_source sha upper ts file_path source tsx =
     parse_with ts (if tsx then LangTsx else LangTypescript) file_path source (\<lambda>root.
       let (es, rels) = extract_ts_entities sha upper source file_path [] root ([], [])
       in (es, build_ts_calls_relationships sha root source es rels))"

section \<open>Dispatch on the extension\<close>

text \<open>\<open>Path::file_name\<close> and \<open>Path::extension\<close>: the last normal component, and what follows its last
  dot unless that dot starts the name.\<close>

definition path_file_name :: "string \<Rightarrow> string option" where
  "path_file_name p =
     (let cs = filter (\<lambda>c. c \<noteq> [] \<and> c \<noteq> ''.'') (split_char (CHR ''/'') p)
      in if cs = [] \<or> last cs = ''..'' then None else Some (last cs))"

definition path_extension :: "string \<Rightarrow> string option" where
  "path_extension p =
     (case path_file_name p of
        None \<Rightarrow> None
      | Some name \<Rightarrow>
          (let after = rev (takeWhile (\<lambda>c. c \<noteq> CHR ''.'') (rev name))
           in if after = name \<or> CHR ''.'' # after = name then None else Some after))"

definition parse_source_file ::
  "(bytes \<Rightarrow> string) \<Rightarrow> (bytes \<Rightarrow> bool) \<Rightarrow> tree_sitter \<Rightarrow> string \<Rightarrow> bytes \<Rightarrow> (GraphError, extraction) result" where
  "parse_source_file sha upper ts file_path source =
     (let ext = (case path_extension file_path of None \<Rightarrow> [] | Some e \<Rightarrow> e)
      in if ext = ''rs'' then parse_rust_source sha ts file_path source
         else if ext = ''ts'' \<or> ext = ''js'' then parse_typescript_source sha upper ts file_path source False
         else if ext = ''tsx'' \<or> ext = ''jsx'' then parse_typescript_source sha upper ts file_path source True
         else Inr ([], []))"

end
