(* ===== verification/Extract_Laws.thy ===== *)
theory Extract_Laws
  imports Extract
begin

text \<open>
  What the entity extractors guarantee. A single abstract description, the relation \<open>emits\<close>,
  says which pairs of entity and relationship sequences a walk may append below a given parent;
  both language walks are shown to follow it, and the structural facts (identifiers, parents
  before children, nesting of ranges, \<open>Contains\<close> edges) are proved once, by rule induction on it.
  The calls pass is compared with the set of call expressions of the tree, and the graph
  database stays free of dangling edges under every sequence of file updates.
\<close>

section \<open>Well-nested trees\<close>

definition inside :: "nat \<times> nat \<Rightarrow> nat \<times> nat \<Rightarrow> bool" where
  "inside r s \<longleftrightarrow> fst s \<le> fst r \<and> snd r \<le> snd s"

lemma inside_refl [simp]: "inside r r"
  by (simp add: inside_def)

lemma inside_trans: "inside a b \<Longrightarrow> inside b c \<Longrightarrow> inside a c"
  by (auto simp: inside_def)

function wf_node :: "node \<Rightarrow> bool" where
  "wf_node n \<longleftrightarrow> list_all (\<lambda>c. inside (nd_bytes c) (nd_bytes n) \<and> wf_node c) (nd_children n)"
  by pat_completeness auto
termination
  by (relation "measure size") (auto simp: size_child)

declare wf_node.simps [simp del]

lemma wf_node_child: "wf_node n \<Longrightarrow> c \<in> set (nd_children n) \<Longrightarrow> wf_node c \<and> inside (nd_bytes c) (nd_bytes n)"
  by (subst (asm) wf_node.simps) (auto simp: list_all_iff)

lemma wf_named_child: "wf_node n \<Longrightarrow> c \<in> set (named_children n) \<Longrightarrow> wf_node c \<and> inside (nd_bytes c) (nd_bytes n)"
  by (simp add: named_children_def wf_node_child)

lemma wf_field_child:
  assumes "wf_node n" "child_by_field_name n f = Some b" "c \<in> set (named_children b)"
  shows "wf_node c \<and> inside (nd_bytes c) (nd_bytes n)"
  using assms wf_node_child [OF assms(1)] wf_named_child child_by_field_nameD inside_trans by blast

section \<open>What a walk may append\<close>

definition entity_ok :: "bool \<Rightarrow> (bytes \<Rightarrow> string) \<Rightarrow> string \<Rightarrow> Entity option \<Rightarrow> Entity \<Rightarrow> bool" where
  "entity_ok W sha f par e \<longleftrightarrow>
     en_file_path e = f \<and> en_id e = compute_id sha f (en_qualified_name e) \<and>
     en_parent_entity e = map_option en_id par \<and>
     (case par of None \<Rightarrow> True | Some p \<Rightarrow> W \<longrightarrow> inside (en_byte_range e) (en_byte_range p))"

definition contains_for :: "(bytes \<Rightarrow> string) \<Rightarrow> Entity \<Rightarrow> Relationship list" where
  "contains_for sha e =
     (case en_parent_entity e of None \<Rightarrow> [] | Some p \<Rightarrow> [rel_new sha RContains p (en_id e)])"

definition heritage_of :: "Entity \<Rightarrow> Relationship list \<Rightarrow> bool" where
  "heritage_of e hs \<longleftrightarrow> (\<forall>r\<in>set hs. rl_kind r \<in> {RExtends, RImplements} \<and> rl_from_entity r = en_id e)"

inductive emits ::
  "bool \<Rightarrow> (bytes \<Rightarrow> string) \<Rightarrow> string \<Rightarrow> Entity option \<Rightarrow> Entity list \<Rightarrow> Relationship list \<Rightarrow> bool"
  for W sha f where
  emits_nil: "emits W sha f par [] []"
| emits_append: "emits W sha f par es rs \<Longrightarrow> emits W sha f par es' rs' \<Longrightarrow> emits W sha f par (es @ es') (rs @ rs')"
| emits_entity: "entity_ok W sha f par e \<Longrightarrow> heritage_of e hs \<Longrightarrow> emits W sha f (Some e) es rs \<Longrightarrow>
    emits W sha f par (e # es) (hs @ contains_for sha e @ rs)"

definition grows :: "bool \<Rightarrow> (bytes \<Rightarrow> string) \<Rightarrow> string \<Rightarrow> Entity option \<Rightarrow> extraction \<Rightarrow> extraction \<Rightarrow> bool" where
  "grows W sha f par acc acc' \<longleftrightarrow>
     (\<exists>es rs. emits W sha f par es rs \<and> acc' = (fst acc @ es, snd acc @ rs))"

lemma grows_refl [simp]: "grows W sha f par acc acc"
  unfolding grows_def by (intro exI [of _ "[]"]) (simp add: emits_nil)

lemma grows_trans: "grows W sha f par a b \<Longrightarrow> grows W sha f par b c \<Longrightarrow> grows W sha f par a c"
  unfolding grows_def by (metis append.assoc emits_append fst_conv snd_conv)

lemma grows_fold:
  "(\<And>x acc. x \<in> set xs \<Longrightarrow> grows W sha f par acc (g x acc)) \<Longrightarrow> grows W sha f par acc (fold g xs acc)"
proof (induction xs arbitrary: acc)
  case (Cons x xs)
  then have "grows W sha f par acc (g x acc)" "grows W sha f par (g x acc) (fold g xs (g x acc))" by simp_all
  then show ?case by (simp add: grows_trans)
qed simp

definition stack_ok :: "Entity option \<Rightarrow> parents \<Rightarrow> bool" where
  "stack_ok par stack \<longleftrightarrow>
     (case par of None \<Rightarrow> stack = [] | Some p \<Rightarrow> stack \<noteq> [] \<and> hd stack = (en_id p, en_qualified_name p))"

definition node_in :: "bool \<Rightarrow> Entity option \<Rightarrow> node \<Rightarrow> bool" where
  "node_in W par n \<longleftrightarrow>
     (W \<longrightarrow> wf_node n \<and> (case par of None \<Rightarrow> True | Some p \<Rightarrow> inside (nd_bytes n) (en_byte_range p)))"

lemma stack_parent_ok: "stack_ok par stack \<Longrightarrow> stack_parent stack = map_option en_id par"
  by (auto simp: stack_ok_def stack_parent_def neq_Nil_conv split: option.splits)

lemma stack_ok_push [simp]: "stack_ok (Some e) ((en_id e, en_qualified_name e) # stack)"
  by (simp add: stack_ok_def)

lemma contains_for_push:
  "stack_ok par stack \<Longrightarrow> entity_ok W sha f par e \<Longrightarrow>
   add_contains_rel sha stack (en_id e) rs = rs @ contains_for sha e"
  by (auto simp: stack_ok_def entity_ok_def add_contains_rel_def contains_for_def neq_Nil_conv split: option.splits)

lemma make_entity_ok:
  "stack_ok par stack \<Longrightarrow> node_in W par n \<Longrightarrow> entity_ok W sha f par (make_entity sha f stack n k nm qn)"
  by (auto simp: make_entity_def entity_ok_def stack_parent_ok node_in_def start_byte_def end_byte_def
      split: option.splits)

lemma make_entity_range [simp]: "en_byte_range (make_entity sha f stack n k nm qn) = nd_bytes n"
  by (simp add: make_entity_def start_byte_def end_byte_def)

lemma node_in_named: "node_in W par n \<Longrightarrow> c \<in> set (named_children n) \<Longrightarrow> node_in W par c"
  unfolding node_in_def using wf_named_child [of n c] inside_trans [of "nd_bytes c" "nd_bytes n"]
  by (cases par) auto

lemma node_in_body:
  "node_in W par n \<Longrightarrow> en_byte_range e = nd_bytes n \<Longrightarrow> child_by_field_name n fld = Some b \<Longrightarrow>
   c \<in> set (named_children b) \<Longrightarrow> node_in W (Some e) c"
  using wf_field_child [of n fld b c] by (simp add: node_in_def)

text \<open>An entity followed by what the walk of its body appends.\<close>

lemma grows_entity:
  assumes "stack_ok par stack" "entity_ok W sha f par e" "heritage_of e hs"
    "grows W sha f (Some e) (push_entity sha stack e (fst acc, snd acc @ hs)) acc'"
  shows "grows W sha f par acc acc'"
proof -
  obtain es rs where "emits W sha f (Some e) es rs"
    "acc' = (fst acc @ [e] @ es, snd acc @ hs @ contains_for sha e @ rs)"
    using assms(4) contains_for_push [OF assms(1,2)] by (auto simp: grows_def push_entity_def)
  with emits_entity [OF assms(2,3)] show ?thesis unfolding grows_def by force
qed

lemma heritage_of_Nil [simp]: "heritage_of e []"
  by (simp add: heritage_of_def)

lemma grows_push:
  "stack_ok par stack \<Longrightarrow> entity_ok W sha f par e \<Longrightarrow> grows W sha f par acc (push_entity sha stack e acc)"
  by (rule grows_entity [where hs = "[]"]) auto

lemma grows_push_opt:
  "stack_ok par stack \<Longrightarrow> (\<And>e. oe = Some e \<Longrightarrow> entity_ok W sha f par e) \<Longrightarrow>
   grows W sha f par acc (push_opt sha stack oe acc)"
  by (auto simp: push_opt_def grows_push split: option.split)

section \<open>Both walks follow the description\<close>

definition made :: "(bytes \<Rightarrow> string) \<Rightarrow> string \<Rightarrow> parents \<Rightarrow> node \<Rightarrow> Entity \<Rightarrow> bool" where
  "made sha f stack n e \<longleftrightarrow> (\<exists>k nm qn. e = make_entity sha f stack n k nm qn)"

lemma made_ok: "made sha f stack n e \<Longrightarrow> stack_ok par stack \<Longrightarrow> node_in W par n \<Longrightarrow> entity_ok W sha f par e"
  by (auto simp: made_def make_entity_ok)

lemma made_range: "made sha f stack n e \<Longrightarrow> en_byte_range e = nd_bytes n"
  by (auto simp: made_def)

lemma made_extractors:
  "extract_function sha n src f stack i = Some e \<Longrightarrow> made sha f stack n e"
  "extract_named_item sha n src f stack k ks = Some e \<Longrightarrow> made sha f stack n e"
  "extract_impl_item sha n src f stack = Some e \<Longrightarrow> made sha f stack n e"
  "extract_use_declaration sha n src f stack = Some e \<Longrightarrow> made sha f stack n e"
  "extract_ts_function sha upper n src f stack = Some e \<Longrightarrow> made sha f stack n e"
  "extract_ts_variable_declarator sha upper n src f stack = Some e \<Longrightarrow> made sha f stack n e"
  "extract_ts_named sha n src f stack k = Some e \<Longrightarrow> made sha f stack n e"
  "extract_ts_method sha n src f stack = Some e \<Longrightarrow> made sha f stack n e"
  "extract_ts_class sha n src f stack = Some (e, hs) \<Longrightarrow> made sha f stack n e"
  "extract_ts_import sha n src f stack = Some e \<Longrightarrow> made sha f stack n e"
  "extract_ts_export sha n src f stack = Some e \<Longrightarrow> made sha f stack n e"
  unfolding made_def extract_function_def extract_named_item_def extract_impl_item_def extract_use_declaration_def
    extract_ts_function_def extract_ts_variable_declarator_def extract_ts_named_def extract_ts_method_def
    extract_ts_class_def extract_ts_import_def extract_ts_export_def Let_def
  by (auto split: option.splits if_splits)

lemma grows_body:
  assumes "made sha f stack n e" "stack_ok par stack" "node_in W par n" "heritage_of e hs"
    "\<And>c acc. child_by_field_name n ''body'' \<noteq> None \<Longrightarrow> c \<in> set (named_children (the (child_by_field_name n ''body''))) \<Longrightarrow>
       node_in W (Some e) c \<Longrightarrow> grows W sha f (Some e) acc (g c acc)"
  shows "grows W sha f par acc
    (case child_by_field_name n ''body'' of
       None \<Rightarrow> push_entity sha stack e (fst acc, snd acc @ hs)
     | Some body \<Rightarrow> fold g (named_children body) (push_entity sha stack e (fst acc, snd acc @ hs)))"
proof (rule grows_entity [OF assms(2) made_ok [OF assms(1-3)] assms(4)], cases "child_by_field_name n ''body''")
  case (Some b)
  then show "grows W sha f (Some e) (push_entity sha stack e (fst acc, snd acc @ hs))
    (case child_by_field_name n ''body'' of
       None \<Rightarrow> push_entity sha stack e (fst acc, snd acc @ hs)
     | Some body \<Rightarrow> fold g (named_children body) (push_entity sha stack e (fst acc, snd acc @ hs)))"
    using assms(5) node_in_body [OF assms(3) made_range [OF assms(1)] Some] by (auto intro: grows_fold)
qed simp

lemma extract_entities_grows:
  "stack_ok par stack \<Longrightarrow> node_in W par n \<Longrightarrow> grows W sha f par acc (extract_entities sha src f stack i n acc)"
proof (induction n arbitrary: par stack i acc rule: measure_induct_rule [of size])
  case (less n)
  have leaf: "grows W sha f par acc (push_opt sha stack oe acc)" if "\<And>e. oe = Some e \<Longrightarrow> made sha f stack n e" for oe
    using that by (intro grows_push_opt less.prems(1) made_ok [OF _ less.prems])
  have body: "grows W sha f par acc (case oe of None \<Rightarrow> acc | Some e \<Rightarrow>
      (case child_by_field_name n ''body'' of
         None \<Rightarrow> push_entity sha stack e acc
       | Some body \<Rightarrow> fold (extract_entities sha src f ((en_id e, en_qualified_name e) # stack) j) (named_children body)
             (push_entity sha stack e acc)))" if "\<And>e. oe = Some e \<Longrightarrow> made sha f stack n e" for oe j
  proof (cases oe)
    case (Some e)
    have "grows W sha f par acc (case child_by_field_name n ''body'' of
         None \<Rightarrow> push_entity sha stack e (fst acc, snd acc @ [])
       | Some body \<Rightarrow> fold (extract_entities sha src f ((en_id e, en_qualified_name e) # stack) j) (named_children body)
             (push_entity sha stack e (fst acc, snd acc @ [])))"
      by (rule grows_body [OF that [OF Some] less.prems heritage_of_Nil]) (auto intro!: less.IH simp: size_field_child)
    with Some show ?thesis unfolding append_Nil2 prod.collapse by simp
  qed simp
  have kids: "grows W sha f par acc (fold (extract_entities sha src f stack False) (named_children n) acc)"
    using less by (intro grows_fold) (auto simp: size_named_child node_in_named)
  show ?case
    by (subst extract_entities.simps) (auto simp: Let_def made_extractors intro!: leaf body kids)
qed

lemma heritage_of_class: "extract_ts_class sha n src f stack = Some (e, hs) \<Longrightarrow> heritage_of e hs"
  by (auto simp: extract_ts_class_def extract_ts_heritage_def heritage_rel_def heritage_of_def rel_new_def Let_def
      split: option.splits if_splits)

lemma extract_ts_entities_grows:
  "stack_ok par stack \<Longrightarrow> node_in W par n \<Longrightarrow> grows W sha f par acc (extract_ts_entities sha upper src f stack n acc)"
proof (induction n arbitrary: par stack acc rule: measure_induct_rule [of size])
  case (less n)
  have leaf: "grows W sha f par a (push_opt sha stack oe a)" if "\<And>e. oe = Some e \<Longrightarrow> made sha f stack n e" for oe a
    using that by (intro grows_push_opt less.prems(1) made_ok [OF _ less.prems])
  have body: "grows W sha f par acc
      (case child_by_field_name n ''body'' of
         None \<Rightarrow> push_entity sha stack e (fst acc, snd acc @ hs)
       | Some body \<Rightarrow> fold (extract_ts_entities sha upper src f ((en_id e, en_qualified_name e) # stack)) (named_children body)
             (push_entity sha stack e (fst acc, snd acc @ hs)))" if "made sha f stack n e" "heritage_of e hs" for e hs
    by (rule grows_body [OF that(1) less.prems that(2)]) (auto intro!: less.IH simp: size_field_child)
  have kids: "grows W sha f par acc (fold (extract_ts_entities sha upper src f stack) (named_children n) acc)"
    using less by (intro grows_fold) (auto simp: size_named_child node_in_named)
  have decls: "grows W sha f par acc (fold (\<lambda>child acc. if nd_kind child = ''variable_declarator''
       then push_opt sha stack (extract_ts_variable_declarator sha upper child src f stack) acc else acc) (named_children n) acc)"
    using less.prems
    by (intro grows_fold) (auto intro!: grows_push_opt intro: made_ok made_extractors node_in_named)
  have exported: "grows W sha f par acc (fold (\<lambda>child acc. if nd_kind child \<in> set exported_kinds
       then extract_ts_entities sha upper src f stack child acc else acc) (named_children n) acc)"
    using less by (intro grows_fold) (auto simp: size_named_child node_in_named)
  have "grows W sha f par acc (case extract_ts_function sha upper n src f stack of
       None \<Rightarrow> acc
     | Some e \<Rightarrow> (case child_by_field_name n ''body'' of
         None \<Rightarrow> push_entity sha stack e acc
       | Some body \<Rightarrow> fold (extract_ts_entities sha upper src f ((en_id e, en_qualified_name e) # stack)) (named_children body)
             (push_entity sha stack e acc)))"
    using body [where hs = "[]"] by (auto dest: made_extractors split: option.split)
  moreover have "grows W sha f par acc (case extract_ts_class sha n src f stack of
       None \<Rightarrow> acc
     | Some (e, hs) \<Rightarrow> (case child_by_field_name n ''body'' of
         None \<Rightarrow> push_entity sha stack e (fst acc, snd acc @ hs)
       | Some body \<Rightarrow> fold (extract_ts_entities sha upper src f ((en_id e, en_qualified_name e) # stack)) (named_children body)
             (push_entity sha stack e (fst acc, snd acc @ hs))))"
  proof (cases "extract_ts_class sha n src f stack")
    case (Some x)
    then obtain e hs where "extract_ts_class sha n src f stack = Some (e, hs)" by (cases x) simp
    then show ?thesis using body [OF made_extractors(9) heritage_of_class] by simp
  qed simp
  moreover have "grows W sha f par acc (push_opt sha stack (extract_ts_export sha n src f stack)
     (fold (\<lambda>child acc. if nd_kind child \<in> set exported_kinds
       then extract_ts_entities sha upper src f stack child acc else acc) (named_children n) acc))"
    using exported by (rule grows_trans) (simp add: leaf made_extractors)
  ultimately show ?case
    using leaf kids decls by (subst extract_ts_entities.simps) (simp add: Let_def made_extractors)
qed

section \<open>Consequences of the description\<close>

lemma emits_identity:
  "emits W sha f par es rs \<Longrightarrow> \<forall>e\<in>set es. en_file_path e = f \<and> en_id e = compute_id sha f (en_qualified_name e)"
  by (induction rule: emits.induct) (auto simp: entity_ok_def)

lemma contains_for_kinds [simp]: "filter (\<lambda>r. rl_kind r = RContains) (contains_for sha e) = contains_for sha e"
  by (simp add: contains_for_def rel_new_def split: option.split)

lemma heritage_no_contains: "heritage_of e hs \<Longrightarrow> filter (\<lambda>r. rl_kind r = RContains) hs = []"
  by (auto simp: heritage_of_def filter_empty_conv)

lemma emits_contains:
  "emits W sha f par es rs \<Longrightarrow> filter (\<lambda>r. rl_kind r = RContains) rs = concat (map (contains_for sha) es)"
  by (induction rule: emits.induct) (simp_all add: heritage_no_contains)

definition parent_before :: "bool \<Rightarrow> Entity option \<Rightarrow> Entity list \<Rightarrow> Entity \<Rightarrow> bool" where
  "parent_before W par xs e \<longleftrightarrow>
     (case par of
        None \<Rightarrow> en_parent_entity e = None
      | Some p \<Rightarrow> en_parent_entity e = Some (en_id p) \<and> (W \<longrightarrow> inside (en_byte_range e) (en_byte_range p))) \<or>
     (\<exists>q\<in>set xs. en_parent_entity e = Some (en_id q) \<and> (W \<longrightarrow> inside (en_byte_range e) (en_byte_range q)))"

lemma parent_before_mono: "parent_before W par xs e \<Longrightarrow> set xs \<subseteq> set ys \<Longrightarrow> parent_before W par ys e"
  by (auto simp: parent_before_def)

lemma emits_parent_before:
  "emits W sha f par es rs \<Longrightarrow> i < length es \<Longrightarrow> parent_before W par (take i es) (es ! i)"
proof (induction arbitrary: i rule: emits.induct)
  case (emits_append par es rs es' rs')
  show ?case
  proof (cases "i < length es")
    case True
    with emits_append show ?thesis by (simp add: nth_append)
  next
    case False
    with emits_append have "parent_before W par (take (i - length es) es') (es' ! (i - length es))" by simp
    from parent_before_mono [OF this] False show ?thesis by (simp add: nth_append)
  qed
next
  case (emits_entity par e hs es rs)
  show ?case
  proof (cases i)
    case 0
    with emits_entity(1) show ?thesis by (auto simp: parent_before_def entity_ok_def split: option.splits)
  next
    case (Suc j)
    with emits_entity have "parent_before W (Some e) (take j es) (es ! j)" by simp
    with Suc show ?thesis by (auto simp: parent_before_def)
  qed
qed simp

lemma emits_rels:
  "emits W sha f par es rs \<Longrightarrow> r \<in> set rs \<Longrightarrow>
   rl_kind r \<noteq> RCalls \<and> (rl_kind r = RContains \<longrightarrow> rl_to_entity r \<in> en_id ` set es \<and>
     rl_from_entity r \<in> (case par of None \<Rightarrow> {} | Some p \<Rightarrow> {en_id p}) \<union> en_id ` set es)"
proof (induction rule: emits.induct)
  case (emits_entity par e hs es rs)
  then show ?case
    by (auto simp: heritage_of_def contains_for_def entity_ok_def rel_new_def split: option.splits)
qed auto

section \<open>The calls pass\<close>

text \<open>Reference definitions: the nodes below a node, and what a node's call expressions refer to.\<close>

function subnodes :: "node \<Rightarrow> node list" where
  "subnodes n = n # concat (map subnodes (named_children n))"
  by pat_completeness auto
termination
  by (relation "measure size") (auto simp: size_named_child)

declare subnodes.simps [simp del]

definition called_names :: "bytes \<Rightarrow> node \<Rightarrow> string set" where
  "called_names src n = {nm. \<exists>m\<in>set (subnodes n). callee_name m src = Some nm}"

lemma called_names_unfold:
  "called_names src n = {nm. callee_name n src = Some nm} \<union> (\<Union>c\<in>set (named_children n). called_names src c)"
  unfolding called_names_def by (subst subnodes.simps) auto

lemma name_to_ids_set:
  "(case name_to_ids es nm of None \<Rightarrow> {} | Some ids \<Rightarrow> set ids) = en_id ` {e \<in> set es. en_name e = nm}"
proof -
  have "(case fold names_insert es m nm of None \<Rightarrow> {} | Some ids \<Rightarrow> set ids) =
      (case m nm of None \<Rightarrow> {} | Some ids \<Rightarrow> set ids) \<union> en_id ` {e \<in> set es. en_name e = nm}" for m
  proof (induction es arbitrary: m)
    case (Cons e es)
    show ?case unfolding fold_Cons comp_apply Cons.IH by (auto simp: names_insert_def split: option.splits)
  qed simp
  then show ?thesis by (simp add: name_to_ids_def)
qed

definition calls_to :: "(bytes \<Rightarrow> string) \<Rightarrow> string \<Rightarrow> string set \<Rightarrow> Relationship set" where
  "calls_to sha caller T = rel_new sha RCalls caller ` (T - {caller})"

lemma calls_to_Un: "calls_to sha c (A \<union> B) = calls_to sha c A \<union> calls_to sha c B"
  by (auto simp: calls_to_def)

text \<open>Appending candidates unless their identifier is already there: nothing is lost, only
  candidates are added, and every candidate's identifier is present afterwards.\<close>

definition adds :: "Relationship list \<Rightarrow> Relationship set \<Rightarrow> Relationship list \<Rightarrow> bool" where
  "adds rs R rs' \<longleftrightarrow> set rs \<subseteq> set rs' \<and> set rs' \<subseteq> set rs \<union> R \<and> rl_id ` R \<subseteq> rl_id ` set rs'"

lemma adds_refl [simp]: "adds rs {} rs"
  by (simp add: adds_def)

lemma adds_trans:
  assumes "adds a R b" "adds b S c"
  shows "adds a (R \<union> S) c"
proof -
  have bc: "set b \<subseteq> set c" using assms(2) by (simp add: adds_def)
  have "rl_id ` R \<subseteq> rl_id ` set c"
    using assms(1) image_mono [OF bc, of rl_id] unfolding adds_def by (blast intro: subset_trans)
  moreover have "set a \<subseteq> set c" using assms(1) bc unfolding adds_def by blast
  moreover have "set c \<subseteq> set a \<union> (R \<union> S)" using assms unfolding adds_def by blast
  ultimately show ?thesis using assms(2) by (simp add: adds_def image_Un)
qed

lemma adds_fold:
  "(\<And>x rs. x \<in> set xs \<Longrightarrow> adds rs (R x) (g x rs)) \<Longrightarrow> adds rs (\<Union>x\<in>set xs. R x) (fold g xs rs)"
proof (induction xs arbitrary: rs)
  case (Cons x xs)
  then have "adds rs (R x \<union> (\<Union>x\<in>set xs. R x)) (fold g xs (g x rs))" by (intro adds_trans [of rs "R x" "g x rs"]) simp_all
  then show ?case by simp
qed simp

lemma adds_push_call: "adds rs (calls_to sha caller {t}) (push_call sha caller t rs)"
proof (cases "t = caller")
  case False
  let ?r = "rel_new sha RCalls caller t"
  have "rl_id ?r \<in> rl_id ` set rs" if "list_ex (\<lambda>r. rl_id r = rl_id ?r) rs"
  proof -
    from that obtain r where r: "r \<in> set rs" "rl_id r = rl_id ?r" by (auto simp: list_ex_iff)
    show ?thesis by (rule image_eqI [where f = rl_id, OF r(2) [symmetric] r(1)])
  qed
  with False show ?thesis by (auto simp: adds_def calls_to_def push_call_def Let_def)
qed (simp add: calls_to_def push_call_def)

lemma calls_to_UN: "calls_to sha c (\<Union>x\<in>A. T x) = (\<Union>x\<in>A. calls_to sha c (T x))"
  by (auto simp: calls_to_def)

lemma calls_to_insert: "calls_to sha c (set ids) = (\<Union>t\<in>set ids. calls_to sha c {t})"
  using calls_to_UN [of sha c "\<lambda>t. {t}" "set ids"] by simp

lemma adds_collect_calls:
  "adds rs (calls_to sha caller (\<Union>nm\<in>called_names src n. case names nm of None \<Rightarrow> {} | Some ids \<Rightarrow> set ids))
     (collect_calls sha src caller names n rs)"
proof (induction n arbitrary: rs rule: measure_induct_rule [of size])
  case (less n)
  let ?T = "\<lambda>nm. case names nm of None \<Rightarrow> {} | Some ids \<Rightarrow> set ids"
  define rs1 where "rs1 = (case callee_name n src of
          None \<Rightarrow> rs
        | Some name \<Rightarrow> (case names name of None \<Rightarrow> rs | Some ids \<Rightarrow> fold (push_call sha caller) ids rs))"
  have "adds rs (calls_to sha caller (\<Union>nm\<in>{nm. callee_name n src = Some nm}. ?T nm)) rs1"
    using adds_fold [of _ "\<lambda>t. calls_to sha caller {t}" "push_call sha caller", OF adds_push_call]
    by (auto simp: rs1_def calls_to_insert calls_to_def [of _ _ "{}"] split: option.split)
  moreover have "adds rs1 (\<Union>c\<in>set (named_children n). calls_to sha caller (\<Union>nm\<in>called_names src c. ?T nm))
      (fold (collect_calls sha src caller names) (named_children n) rs1)"
    by (intro adds_fold less) (simp add: size_named_child)
  ultimately have "adds rs (calls_to sha caller (\<Union>nm\<in>{nm. callee_name n src = Some nm}. ?T nm) \<union>
      (\<Union>c\<in>set (named_children n). calls_to sha caller (\<Union>nm\<in>called_names src c. ?T nm)))
      (collect_calls sha src caller names n rs)"
    by (subst collect_calls.simps) (simp add: adds_trans rs1_def)
  moreover have "calls_to sha caller (\<Union>nm\<in>{nm. callee_name n src = Some nm}. ?T nm) \<union>
      (\<Union>c\<in>set (named_children n). calls_to sha caller (\<Union>nm\<in>called_names src c. ?T nm)) =
      calls_to sha caller (\<Union>nm\<in>called_names src n. ?T nm)"
    by (subst (2) called_names_unfold) (simp only: UN_Un calls_to_Un calls_to_UN UN_UN_flatten)
  ultimately show ?case by simp
qed

text \<open>The region of the tree whose calls are attributed to an entity, for the two front ends.\<close>

definition rust_scope :: "node \<Rightarrow> Entity \<Rightarrow> node option" where
  "rust_scope root e =
     (if en_kind e \<notin> {KFunction, KMethod} then None
      else (case find_node_at_range (fst (en_byte_range e)) (snd (en_byte_range e)) root of
              None \<Rightarrow> None | Some n \<Rightarrow> child_by_field_name n ''body''))"

definition ts_scope :: "node \<Rightarrow> Entity \<Rightarrow> node option" where
  "ts_scope root e =
     (if \<not> ts_callable e then None
      else find_node_at_range (fst (en_byte_range e)) (snd (en_byte_range e)) root)"

definition call_rels ::
  "(bytes \<Rightarrow> string) \<Rightarrow> bytes \<Rightarrow> (Entity \<Rightarrow> node option) \<Rightarrow> Entity list \<Rightarrow> Entity list \<Rightarrow> Relationship set" where
  "call_rels sha src scope callers targets =
     {rel_new sha RCalls (en_id e) (en_id t) | e t n. e \<in> set callers \<and> t \<in> set targets \<and> scope e = Some n \<and>
        en_name t \<in> called_names src n \<and> en_id t \<noteq> en_id e}"

lemma adds_calls_of:
  assumes "scope e = Some n"
  shows "adds rs (call_rels sha src scope [e] ts) (collect_calls sha src (en_id e) (name_to_ids ts) n rs)"
proof -
  have "call_rels sha src scope [e] ts = calls_to sha (en_id e) (\<Union>nm\<in>called_names src n. en_id ` {t \<in> set ts. en_name t = nm})"
    using assms by (auto simp: call_rels_def calls_to_def)
  then show ?thesis
    using adds_collect_calls [where names = "name_to_ids ts" and caller = "en_id e"] by (simp only: name_to_ids_set)
qed

lemma call_rels_Union: "(\<Union>e\<in>set es. call_rels sha src scope [e] ts) = call_rels sha src scope es ts"
  by (auto simp: call_rels_def)

lemma call_rels_None: "scope e = None \<Longrightarrow> call_rels sha src scope [e] ts = {}"
  by (simp add: call_rels_def)

lemma adds_build_calls:
  "adds rs (call_rels sha src (rust_scope root) es es) (build_calls_relationships sha root src es rs)"
  unfolding build_calls_relationships_def
proof (rule adds_fold [where R = "\<lambda>e. call_rels sha src (rust_scope root) [e] es", unfolded call_rels_Union])
  fix e rs
  show "adds rs (call_rels sha src (rust_scope root) [e] es)
      (if en_kind e \<notin> {KFunction, KMethod} then rs
        else (case find_node_at_range (fst (en_byte_range e)) (snd (en_byte_range e)) root of
                None \<Rightarrow> rs
              | Some func_node \<Rightarrow>
                  (case child_by_field_name func_node ''body'' of
                     None \<Rightarrow> rs
                   | Some body \<Rightarrow> collect_calls sha src (en_id e) (name_to_ids es) body rs)))"
    using adds_calls_of [of "rust_scope root" e] call_rels_None [of "rust_scope root" e]
    by (auto simp: rust_scope_def split: option.split)
qed

lemma adds_build_ts_calls:
  "adds rs (call_rels sha src (ts_scope root) es (filter ts_callable es)) (build_ts_calls_relationships sha root src es rs)"
  unfolding build_ts_calls_relationships_def
proof (rule adds_fold [where R = "\<lambda>e. call_rels sha src (ts_scope root) [e] (filter ts_callable es)", unfolded call_rels_Union])
  fix e rs
  show "adds rs (call_rels sha src (ts_scope root) [e] (filter ts_callable es))
      (if \<not> ts_callable e then rs
        else (case find_node_at_range (fst (en_byte_range e)) (snd (en_byte_range e)) root of
                None \<Rightarrow> rs
              | Some func_node \<Rightarrow>
                  collect_calls sha src (en_id e) (name_to_ids (filter ts_callable es)) func_node rs))"
    using adds_calls_of [of "ts_scope root" e] call_rels_None [of "ts_scope root" e]
    by (auto simp: ts_scope_def split: option.split)
qed

section \<open>The parsers\<close>

definition call_scope :: "string \<Rightarrow> node \<Rightarrow> Entity \<Rightarrow> node option" where
  "call_scope f = (if path_extension f = Some ''rs'' then rust_scope else ts_scope)"

definition call_targets :: "string \<Rightarrow> Entity list \<Rightarrow> Entity list" where
  "call_targets f es = (if path_extension f = Some ''rs'' then es else filter ts_callable es)"

definition lang_of :: "string \<Rightarrow> Language option" where
  "lang_of f =
     (case path_extension f of
        None \<Rightarrow> None
      | Some x \<Rightarrow> if x = ''rs'' then Some LangRust
                  else if x = ''ts'' \<or> x = ''js'' then Some LangTypescript
                  else if x = ''tsx'' \<or> x = ''jsx'' then Some LangTsx else None)"

lemma top_emits:
  assumes "grows W sha f None ([], []) acc"
  shows "emits W sha f None (fst acc) (snd acc)"
  using assms by (auto simp: grows_def)

lemma walk_top:
  "emits (wf_node root) sha f None (fst (extract_entities sha src f [] i root ([], [])))
     (snd (extract_entities sha src f [] i root ([], [])))"
  "emits (wf_node root) sha f None (fst (extract_ts_entities sha upper src f [] root ([], [])))
     (snd (extract_ts_entities sha upper src f [] root ([], [])))"
  by (intro top_emits extract_entities_grows extract_ts_entities_grows; simp add: stack_ok_def node_in_def)+

lemma parse_with_Inr:
  "parse_with ts lang f src k = Inr x \<longleftrightarrow> (\<exists>root. ts lang src = Inr (Some root) \<and> x = k root)"
  by (auto simp: parse_with_def split: sum.split option.split)

text \<open>A successful parse of a supported file is a walk followed by a calls pass.\<close>

lemma parse_source_fileE:
  assumes "parse_source_file sha upper ts f src = Inr (es, rels)" "lang_of f = Some lang"
  obtains root rs where "ts lang src = Inr (Some root)" "emits (wf_node root) sha f None es rs"
    "adds rs (call_rels sha src (call_scope f root) es (call_targets f es)) rels"
proof -
  obtain x where x: "path_extension f = Some x" using assms(2) by (cases "path_extension f") (auto simp: lang_of_def)
  show thesis
  proof (cases "x = ''rs''")
    case True
    with assms x obtain root where "ts lang src = Inr (Some root)"
      "es = fst (extract_entities sha src f [] False root ([], []))"
      "rels = build_calls_relationships sha root src es (snd (extract_entities sha src f [] False root ([], [])))"
      by (auto simp: parse_source_file_def lang_of_def parse_rust_source_def parse_with_Inr case_prod_unfold Let_def)
    with True x show ?thesis
      by (intro that [of root "snd (extract_entities sha src f [] False root ([], []))"])
        (simp_all add: call_scope_def call_targets_def adds_build_calls walk_top)
  next
    case False
    with assms x obtain root where "ts lang src = Inr (Some root)"
      "es = fst (extract_ts_entities sha upper src f [] root ([], []))"
      "rels = build_ts_calls_relationships sha root src es (snd (extract_ts_entities sha upper src f [] root ([], [])))"
      by (auto simp: parse_source_file_def lang_of_def parse_typescript_source_def parse_with_Inr case_prod_unfold Let_def
          split: if_splits)
    with False x show ?thesis
      by (intro that [of root "snd (extract_ts_entities sha upper src f [] root ([], []))"])
        (simp_all add: call_scope_def call_targets_def adds_build_ts_calls walk_top)
  qed
qed

lemma parse_source_file_other:
  "lang_of f = None \<Longrightarrow> parse_source_file sha upper ts f src = Inr ([], [])"
  by (auto simp: parse_source_file_def lang_of_def split: option.splits if_splits)

lemma adds_contains:
  assumes "adds rs (call_rels sha src sc es ts) rels"
  shows "{r \<in> set rels. rl_kind r = RContains} = {r \<in> set rs. rl_kind r = RContains}"
  using assms unfolding adds_def call_rels_def rel_new_def by auto

section \<open>The graph under file updates\<close>

text \<open>Every stored \<open>Contains\<close> and \<open>Calls\<close> edge joins two stored entities; \<open>Extends\<close> and \<open>Implements\<close>
  edges start at one.\<close>

definition edge_closed :: "string set \<Rightarrow> rel_row \<Rightarrow> bool" where
  "edge_closed ids r \<longleftrightarrow> rr_kind r \<in> {''contains'', ''calls''} \<longrightarrow> rr_from r \<in> ids \<and> rr_to r \<in> ids"

definition graph_ok :: "(bytes \<Rightarrow> string) \<Rightarrow> graph_db \<Rightarrow> bool" where
  "graph_ok sha g \<longleftrightarrow>
     wf_graph g \<and> (\<forall>r\<in>set (rels_tbl g). edge_closed (er_id ` set (entities_tbl g)) r) \<and>
     (\<forall>r\<in>set (entities_tbl g). er_id r = compute_id sha (er_file_path r) (er_qualified_name r))"

definition parsed_ok :: "(bytes \<Rightarrow> string) \<Rightarrow> string \<Rightarrow> extraction \<Rightarrow> bool" where
  "parsed_ok sha f x \<longleftrightarrow>
     (\<forall>e\<in>set (fst x). en_file_path e = f \<and> en_id e = compute_id sha f (en_qualified_name e)) \<and>
     (\<forall>r\<in>set (snd x). edge_closed (en_id ` set (fst x)) (rel_to_row r))"

lemma edge_closed_mono: "edge_closed A r \<Longrightarrow> A \<subseteq> B \<Longrightarrow> edge_closed B r"
  by (auto simp: edge_closed_def)

lemma rel_row_kind [simp]: "rr_kind (rel_to_row r) = rel_as_str (rl_kind r)"
  by (simp add: rel_to_row_def)

lemma closed_kind: "rel_as_str k \<in> {''contains'', ''calls''} \<longleftrightarrow> k \<in> {RContains, RCalls}"
  by (cases k) simp_all

lemma parse_source_file_ok:
  assumes "parse_source_file sha upper ts f src = Inr x"
  shows "parsed_ok sha f x"
proof (cases "lang_of f")
  case None
  with assms have "x = ([], [])" by (simp add: parse_source_file_other)
  then show ?thesis by (simp add: parsed_ok_def)
next
  case (Some lang)
  obtain es rels where x: "x = (es, rels)" by (cases x)
  from parse_source_fileE [OF assms [unfolded x] Some] obtain root rs where
    em: "emits (wf_node root) sha f None es rs" and
    ad: "adds rs (call_rels sha src (call_scope f root) es (call_targets f es)) rels" by blast
  have targets: "set (call_targets f es) \<subseteq> set es" by (auto simp: call_targets_def)
  have "edge_closed (en_id ` set es) (rel_to_row r)" if r: "r \<in> set rels" for r
  proof -
    have "r \<in> set rs \<or> r \<in> call_rels sha src (call_scope f root) es (call_targets f es)" using ad r by (auto simp: adds_def)
    then show ?thesis
    proof
      assume "r \<in> set rs"
      from emits_rels [OF em this] show ?thesis unfolding edge_closed_def rel_row_kind closed_kind by auto
    next
      assume "r \<in> call_rels sha src (call_scope f root) es (call_targets f es)"
      with targets show ?thesis by (auto simp: call_rels_def edge_closed_def rel_new_def)
    qed
  qed
  with emits_identity [OF em] show ?thesis by (simp add: parsed_ok_def x)
qed

lemma fold_upsert_ids:
  "er_id ` set (entities_tbl (fold (\<lambda>e g. upsert_entity g e) es g)) = er_id ` set (entities_tbl g) \<union> en_id ` set es"
proof (induction es arbitrary: g)
  case (Cons e es)
  have "er_id ` set (entities_tbl (upsert_entity g e)) = insert (en_id e) (er_id ` set (entities_tbl g))"
    by (auto simp: upsert_entity_def)
  with Cons show ?case by auto
qed simp

lemma fold_upsert_rows:
  "set (entities_tbl (fold (\<lambda>e g. upsert_entity g e) es g)) \<subseteq> set (entities_tbl g) \<union> entity_to_row ` set es"
  "rels_tbl (fold (\<lambda>e g. upsert_entity g e) es g) = rels_tbl g"
proof (induction es arbitrary: g)
  case (Cons e es)
  { case 1 show ?case using Cons(1) [of "upsert_entity g e"] by (auto simp: upsert_entity_def) }
  { case 2 show ?case using Cons(2) [of "upsert_entity g e"] by (simp add: upsert_entity_def) }
qed simp_all

lemma fold_upsert_rels:
  "set (rels_tbl (fold (\<lambda>r g. upsert_relationship g r) rs g)) \<subseteq> set (rels_tbl g) \<union> rel_to_row ` set rs"
proof (induction rs arbitrary: g)
  case (Cons r rs)
  show ?case using Cons [of "upsert_relationship g r"] by (auto simp: upsert_relationship_def)
qed simp

lemma graph_ok_remove:
  assumes "graph_ok sha g"
  shows "graph_ok sha (remove_file g f)"
proof -
  have "edge_closed (er_id ` set (entities_tbl (remove_file g f))) r" if r: "r \<in> set (rels_tbl (remove_file g f))" for r
  proof -
    have "edge_closed (er_id ` set (entities_tbl g)) r" using assms r by (auto simp: graph_ok_def remove_file_eq)
    moreover have "i \<in> er_id ` set (entities_tbl (remove_file g f))"
      if "i \<in> er_id ` set (entities_tbl g)" "i \<notin> set (get_entity_ids_for_file g f)" for i
      using that by (auto simp: remove_file_eq get_entity_ids_for_file_def)
    ultimately show ?thesis using r by (auto simp: edge_closed_def remove_file_eq)
  qed
  moreover have "wf_graph (remove_file g f)" using assms by (simp add: graph_ok_def wf_remove_file)
  moreover have "set (entities_tbl (remove_file g f)) \<subseteq> set (entities_tbl g)" by (auto simp: remove_file_eq)
  ultimately show ?thesis using assms by (auto simp: graph_ok_def)
qed

lemma graph_ok_store:
  assumes "graph_ok sha g" "parsed_ok sha f (es, rs)"
  shows "graph_ok sha (fold (\<lambda>r g. upsert_relationship g r) rs (fold (\<lambda>e g. upsert_entity g e) es g))"
proof -
  let ?g1 = "fold (\<lambda>e g. upsert_entity g e) es g"
  let ?g2 = "fold (\<lambda>r g. upsert_relationship g r) rs ?g1"
  have ids: "er_id ` set (entities_tbl ?g2) = er_id ` set (entities_tbl g) \<union> en_id ` set es" by (simp add: fold_upsert_ids)
  have "edge_closed (er_id ` set (entities_tbl ?g2)) r" if r: "r \<in> set (rels_tbl ?g2)" for r
  proof -
    have "r \<in> set (rels_tbl g) \<union> rel_to_row ` set rs" using r fold_upsert_rels [of rs ?g1] by (auto simp: fold_upsert_rows(2))
    then have "edge_closed (er_id ` set (entities_tbl g)) r \<or> edge_closed (en_id ` set es) r"
      using assms by (auto simp: graph_ok_def parsed_ok_def)
    then show ?thesis unfolding ids by (auto elim: edge_closed_mono)
  qed
  moreover have "er_id r = compute_id sha (er_file_path r) (er_qualified_name r)" if "r \<in> set (entities_tbl ?g2)" for r
  proof -
    have "r \<in> set (entities_tbl g) \<union> entity_to_row ` set es" using that fold_upsert_rows(1) [of es g] by auto
    with assms show ?thesis by (auto simp: graph_ok_def parsed_ok_def entity_to_row_def)
  qed
  ultimately show ?thesis using assms(1) by (simp add: graph_ok_def wf_fold_rels wf_fold_entities)
qed

text \<open>The graphs reached from the empty one by updating and removing files.\<close>

inductive graph_reach ::
  "(bytes \<Rightarrow> string) \<Rightarrow> (bytes \<Rightarrow> bool) \<Rightarrow> tree_sitter \<Rightarrow> graph_db \<Rightarrow> bool" for sha upper ts where
  reach_empty: "graph_reach sha upper ts graph_empty"
| reach_update: "graph_reach sha upper ts g \<Longrightarrow>
    graph_reach sha upper ts (snd (update_file (parse_source_file sha upper ts) g f src))"
| reach_remove: "graph_reach sha upper ts g \<Longrightarrow> graph_reach sha upper ts (remove_file g f)"

lemma graph_reach_ok: "graph_reach sha upper ts g \<Longrightarrow> graph_ok sha g"
proof (induction rule: graph_reach.induct)
  case reach_empty
  show ?case by (simp add: graph_ok_def graph_empty_def wf_graph_def)
next
  case (reach_update g f src)
  then have rm: "graph_ok sha (remove_file g f)" by (simp add: graph_ok_remove)
  show ?case
  proof (cases "parse_source_file sha upper ts f src")
    case (Inl e)
    with rm show ?thesis by (simp add: update_file_def)
  next
    case (Inr x)
    then have "parsed_ok sha f (fst x, snd x)" by (simp add: parse_source_file_ok)
    from graph_ok_store [OF rm this] Inr show ?thesis by (simp add: update_file_def case_prod_unfold)
  qed
next
  case (reach_remove g f)
  then show ?case by (simp add: graph_ok_remove)
qed

section \<open>Finding a node by its range\<close>

lemma find_append: "find P (xs @ ys) = (case find P xs of None \<Rightarrow> find P ys | Some x \<Rightarrow> Some x)"
  by (induction xs) simp_all

lemma find_concat: "find P (concat (map h xs)) = first_some (\<lambda>x. find P (h x)) xs"
  by (induction xs) (simp_all add: find_append split: option.split)

lemma subnodes_inside: "wf_node n \<Longrightarrow> m \<in> set (subnodes n) \<Longrightarrow> inside (nd_bytes m) (nd_bytes n)"
proof (induction n rule: measure_induct_rule [of size])
  case (less n)
  have "m = n \<or> (\<exists>c\<in>set (named_children n). m \<in> set (subnodes c))"
    using less.prems(2) by (subst (asm) subnodes.simps) auto
  then show ?case
    using less.IH wf_named_child [OF less.prems(1)] size_named_child inside_trans by (metis inside_refl)
qed

lemma find_node_eq:
  "wf_node n \<Longrightarrow> find_node_at_range s e n = find (\<lambda>m. nd_bytes m = (s, e)) (subnodes n)"
proof (induction n rule: measure_induct_rule [of size])
  case (less n)
  have eq: "(if start_byte c \<le> s \<and> e \<le> end_byte c then find_node_at_range s e c else None) =
      find (\<lambda>m. nd_bytes m = (s, e)) (subnodes c)" if c: "c \<in> set (named_children n)" for c
  proof (cases "start_byte c \<le> s \<and> e \<le> end_byte c")
    case True
    with less c show ?thesis by (simp add: size_named_child wf_named_child)
  next
    case False
    then have "\<not> inside (s, e) (nd_bytes c)" by (auto simp: inside_def start_byte_def end_byte_def)
    moreover have "inside (nd_bytes m) (nd_bytes c)" if "m \<in> set (subnodes c)" for m
      using subnodes_inside [of c m] wf_named_child [OF less.prems c] that by simp
    ultimately have "nd_bytes m \<noteq> (s, e)" if "m \<in> set (subnodes c)" for m using that by metis
    then have "find (\<lambda>m. nd_bytes m = (s, e)) (subnodes c) = None" unfolding find_None_iff by blast
    with False show ?thesis by (simp only: if_False)
  qed
  have "first_some (\<lambda>c. if start_byte c \<le> s \<and> e \<le> end_byte c then find_node_at_range s e c else None) (named_children n) =
      first_some (\<lambda>c. find (\<lambda>m. nd_bytes m = (s, e)) (subnodes c)) (named_children n)"
    by (rule first_some_cong [OF refl eq])
  then have "find_node_at_range s e n = (if nd_bytes n = (s, e) then Some n
      else first_some (\<lambda>c. find (\<lambda>m. nd_bytes m = (s, e)) (subnodes c)) (named_children n))"
    unfolding find_node_at_range.simps [of s e n] by (auto simp: start_byte_def end_byte_def)
  then show ?case by (subst subnodes.simps) (simp add: find_concat)
qed

definition leaf_node :: "string \<Rightarrow> string option \<Rightarrow> nat \<Rightarrow> nat \<Rightarrow> node" where
  "leaf_node k fld s e = Node k True fld (s, e) (0, 0) []"

definition sample_tree :: node where
  "sample_tree = Node ''source_file'' True None (0, 19) (0, 0)
     [Node ''function_item'' True None (0, 8) (0, 0)
        [leaf_node ''identifier'' (Some ''name'') 3 4, leaf_node ''block'' (Some ''body'') 6 8],
      Node ''function_item'' True None (8, 19) (0, 0)
        [leaf_node ''identifier'' (Some ''name'') 11 12,
         Node ''block'' True (Some ''body'') (14, 19) (0, 0)
           [Node ''call_expression'' True None (15, 18) (0, 0)
              [leaf_node ''identifier'' (Some ''function'') 15 16]]]]"

definition sample_text :: bytes where
  "sample_text = ''fn g(){}fn f(){g()}''"

definition sample_ts :: tree_sitter where
  "sample_ts = (\<lambda>lang src. Inr (if src = sample_text then Some sample_tree else None))"

definition sample_fn :: "string \<Rightarrow> nat \<Rightarrow> nat \<Rightarrow> Entity" where
  "sample_fn nm s e = \<lparr>en_id = ''a.rs::'' @ nm, en_kind = KFunction, en_name = nm, en_qualified_name = nm,
     en_file_path = ''a.rs'', en_byte_range = (s, e), en_line_range = (1, 1), en_parent_entity = None\<rparr>"

lemma sample_tree_wf: "wf_node sample_tree"
  by (simp add: sample_tree_def leaf_node_def wf_node.simps [of "Node k nm fd b r cs" for k nm fd b r cs] inside_def)

lemmas node_evals =
  find_node_at_range.simps [of _ _ "Node k nm fd b r cs" for k nm fd b r cs]
  collect_calls.simps [of _ _ _ _ "Node k nm fd b r cs" for k nm fd b r cs]
  extract_final_identifier.simps [of "Node k nm fd b r cs" for k nm fd b r cs]
  named_children_def child_by_field_name_def start_byte_def end_byte_def leaf_node_def callee_name_def

lemma sample_texts:
  "node_text (Node k nm fd (3, 4) r cs) sample_text = Some ''g''"
  "node_text (Node k nm fd (11, 12) r cs) sample_text = Some ''f''"
  "node_text (Node k nm fd (15, 16) r cs) sample_text = Some ''g''"
  by (simp_all add: node_text_def sample_text_def from_utf8_lossy_ascii ascii_def start_byte_def end_byte_def)

lemma sample_names:
  "name_to_ids [sample_fn ''g'' 0 8, sample_fn ''f'' 8 19] = [''g'' \<mapsto> [''a.rs::g''], ''f'' \<mapsto> [''a.rs::f'']]"
  by (simp add: name_to_ids_def names_insert_def sample_fn_def)

lemma sample_parse:
  "parse_source_file id upper sample_ts ''a.rs'' sample_text =
     Inr ([sample_fn ''g'' 0 8, sample_fn ''f'' 8 19], [rel_new id RCalls ''a.rs::f'' ''a.rs::g''])"
proof -
  have ext: "path_extension ''a.rs'' = Some ''rs''" by (simp add: path_extension_def path_file_name_def)
  have es: "extract_entities id sample_text ''a.rs'' [] False sample_tree ([], []) =
      ([sample_fn ''g'' 0 8, sample_fn ''f'' 8 19], [])"
    by (simp add: extract_entities.simps sample_tree_def node_evals extract_function_def sample_texts push_opt_def
      push_entity_def add_contains_rel_def make_entity_def sample_fn_def compute_id_def qualify_def stack_parent_def)
  have "build_calls_relationships id sample_tree sample_text [sample_fn ''g'' 0 8, sample_fn ''f'' 8 19] [] =
      [rel_new id RCalls ''a.rs::f'' ''a.rs::g'']"
    unfolding build_calls_relationships_def sample_names
    by (simp add: sample_tree_def node_evals sample_texts push_call_def sample_fn_def)
  then show ?thesis
    by (simp add: parse_source_file_def ext parse_rust_source_def parse_with_def sample_ts_def es)
qed

section \<open>Properties\<close>

text \<open>C16: On well-nested syntax trees the entities a supported source file yields form a forest laid out in
  the order of the output: every entity carries the file's path and the identifier computed from its
  qualified name, the parent of an entity is an entity listed before it whose byte range encloses its
  own, and the \<open>Contains\<close> relationships are exactly the parent links.\<close>

theorem extraction_forest:
  assumes "parse_source_file sha upper ts f src = Inr (es, rels)"
    "\<forall>lang root. ts lang src = Inr (Some root) \<longrightarrow> wf_node root"
  shows "(\<forall>e\<in>set es. en_file_path e = f \<and> en_id e = compute_id sha f (en_qualified_name e)) \<and>
    (\<forall>i<length es. \<forall>p. en_parent_entity (es ! i) = Some p \<longrightarrow>
       (\<exists>j<i. en_id (es ! j) = p \<and> inside (en_byte_range (es ! i)) (en_byte_range (es ! j)))) \<and>
    {r \<in> set rels. rl_kind r = RContains} =
      {rel_new sha RContains p (en_id e) | p e. e \<in> set es \<and> en_parent_entity e = Some p}"
proof (cases "lang_of f")
  case None
  with assms(1) show ?thesis by (simp add: parse_source_file_other)
next
  case (Some lang)
  from parse_source_fileE [OF assms(1) Some] obtain root rs where
    root: "ts lang src = Inr (Some root)" and em: "emits (wf_node root) sha f None es rs" and
    ad: "adds rs (call_rels sha src (call_scope f root) es (call_targets f es)) rels" by blast
  have "\<exists>j<i. en_id (es ! j) = p \<and> inside (en_byte_range (es ! i)) (en_byte_range (es ! j))"
    if "i < length es" "en_parent_entity (es ! i) = Some p" for i p
    using emits_parent_before [OF em that(1)] that assms(2) root by (fastforce simp: parent_before_def in_set_conv_nth)
  moreover have "{r \<in> set rs. rl_kind r = RContains} =
      {rel_new sha RContains p (en_id e) | p e. e \<in> set es \<and> en_parent_entity e = Some p}"
    using arg_cong [OF emits_contains [OF em], of set] by (force simp: contains_for_def split: option.splits)
  ultimately show ?thesis using emits_identity [OF em] adds_contains [OF ad] by blast
qed

theorem extraction_forest_witness:
  "parse_source_file id (\<lambda>_. False) sample_ts ''a.rs'' sample_text =
     Inr ([sample_fn ''g'' 0 8, sample_fn ''f'' 8 19], [rel_new id RCalls ''a.rs::f'' ''a.rs::g'']) \<and>
   en_id (sample_fn ''f'' 8 19) = compute_id id ''a.rs'' (en_qualified_name (sample_fn ''f'' 8 19))"
proof -
  have "\<forall>lang root. sample_ts lang sample_text = Inr (Some root) \<longrightarrow> wf_node root"
    by (simp add: sample_ts_def sample_tree_wf)
  from conjunct1 [OF extraction_forest [OF sample_parse this]] show ?thesis by (simp add: sample_parse)
qed

text \<open>The calls pass is exact: every \<open>Calls\<close> relationship of a parsed file goes from a callable entity
  to another entity whose name a call expression in the caller's scope refers to, and every such pair of
  entities has a relationship with its identifier in the result.\<close>

theorem calls_exact:
  assumes "parse_source_file sha upper ts f src = Inr (es, rels)" "lang_of f = Some lang" "ts lang src = Inr (Some root)"
  shows "{r \<in> set rels. rl_kind r = RCalls} \<subseteq> call_rels sha src (call_scope f root) es (call_targets f es) \<and>
    rl_id ` call_rels sha src (call_scope f root) es (call_targets f es) \<subseteq> rl_id ` set rels"
proof -
  from parse_source_fileE [OF assms(1,2)] assms(3) obtain rs where
    em: "emits (wf_node root) sha f None es rs" and
    ad: "adds rs (call_rels sha src (call_scope f root) es (call_targets f es)) rels" by auto
  with emits_rels [OF em] show ?thesis unfolding adds_def by blast
qed

theorem calls_exact_witness:
  "call_rels id sample_text (call_scope ''a.rs'' sample_tree) [sample_fn ''g'' 0 8, sample_fn ''f'' 8 19]
     (call_targets ''a.rs'' [sample_fn ''g'' 0 8, sample_fn ''f'' 8 19]) \<noteq> {}"
proof -
  have "lang_of ''a.rs'' = Some LangRust" "sample_ts LangRust sample_text = Inr (Some sample_tree)"
    by (simp_all add: lang_of_def path_extension_def path_file_name_def sample_ts_def)
  from calls_exact [OF sample_parse this] show ?thesis by (auto simp: rel_new_def)
qed

text \<open>On a well-nested tree, looking a node up by its byte range returns the first node of the named
  tree in document order that has exactly this range, hence the outermost one, and fails only if
  no node has it.\<close>

theorem find_node_at_range_first:
  assumes "wf_node root"
  shows "find_node_at_range s e root = find (\<lambda>m. nd_bytes m = (s, e)) (subnodes root)"
  using assms by (rule find_node_eq)

theorem find_node_at_range_first_witness:
  "find_node_at_range 8 19 sample_tree = find (\<lambda>m. nd_bytes m = (8, 19)) (subnodes sample_tree)"
  by (rule find_node_at_range_first [OF sample_tree_wf])

text \<open>C17: Whatever sequence of file updates (with the parser succeeding or failing) and removals led to a
  graph, its primary keys are unique, every stored entity has the identifier of its file and qualified
  name, and no \<open>Contains\<close> or \<open>Calls\<close> relationship points to an entity that is not stored.\<close>

theorem graph_never_dangles:
  assumes "graph_reach sha upper ts g"
  shows "distinct (map er_id (entities_tbl g)) \<and> distinct (map rr_id (rels_tbl g)) \<and>
    (\<forall>r\<in>set (entities_tbl g). er_id r = compute_id sha (er_file_path r) (er_qualified_name r)) \<and>
    (\<forall>r\<in>set (rels_tbl g). rr_kind r \<in> {''contains'', ''calls''} \<longrightarrow>
       get_entity_by_id g (rr_from r) \<noteq> None \<and> get_entity_by_id g (rr_to r) \<noteq> None)"
proof -
  have found: "get_entity_by_id g i \<noteq> None" if "i \<in> er_id ` set (entities_tbl g)" for i
    using that by (auto simp: get_entity_by_id_def filter_empty_conv split: list.splits)
  have ok: "graph_ok sha g" using assms by (rule graph_reach_ok)
  then have "get_entity_by_id g (rr_from r) \<noteq> None \<and> get_entity_by_id g (rr_to r) \<noteq> None"
    if "r \<in> set (rels_tbl g)" "rr_kind r \<in> {''contains'', ''calls''}" for r
    using that by (intro conjI found) (auto simp: graph_ok_def edge_closed_def)
  with ok show ?thesis by (simp add: graph_ok_def wf_graph_def)
qed

theorem graph_never_dangles_witness:
  "distinct (map rr_id (rels_tbl (snd (update_file (parse_source_file id (\<lambda>_. False) sample_ts) graph_empty ''a.rs'' sample_text)))) \<and>
   rels_tbl (snd (update_file (parse_source_file id (\<lambda>_. False) sample_ts) graph_empty ''a.rs'' sample_text)) \<noteq> []"
proof (intro conjI)
  show "distinct (map rr_id (rels_tbl (snd (update_file (parse_source_file id (\<lambda>_. False) sample_ts) graph_empty ''a.rs'' sample_text))))"
    using graph_never_dangles [OF reach_update [OF reach_empty]] by blast
qed (simp add: update_file_def sample_parse upsert_relationship_def Let_def)

end
