(* ===== verification/MergePatterns.thy ===== *)
theory MergePatterns
  imports MergeEngine
begin

text \<open>
  The merge pattern library (\<open>src/merge_patterns/mod.rs\<close>) and the two places where the merge engine
  notifies it. The tables \<open>merge_patterns\<close> and \<open>resolution_instances\<close> are lists of rows with
  their auto-increment counters; SHA-256, Unicode lower-casing and the time-stamp codec are fields
  of the environment. The comparison of the floating-point success rate with 0.90 is written as
  \<open>9 * instances <= 10 * successes\<close>: both operands of the division are exactly representable
  and the quotient of two counts below \<open>2 ^ 49\<close> never rounds across the constant.
\<close>

section \<open>Data\<close>

datatype MergePatternError = MpSqlite | MpNotFound nat | MpNotInitialized string

datatype PatternType =
    TwoAgentsAddImports | RenameWithStaleReference | TwoAgentsModifySameBody | TwoAgentsModifySameStruct
  | TwoAgentsAddMethods | ConcurrentTextualModification | Generic

fun pattern_as_str :: "PatternType \<Rightarrow> string" where
  "pattern_as_str TwoAgentsAddImports = ''two_agents_add_imports''"
| "pattern_as_str RenameWithStaleReference = ''rename_with_stale_reference''"
| "pattern_as_str TwoAgentsModifySameBody = ''two_agents_modify_same_body''"
| "pattern_as_str TwoAgentsModifySameStruct = ''two_agents_modify_same_struct''"
| "pattern_as_str TwoAgentsAddMethods = ''two_agents_add_methods''"
| "pattern_as_str ConcurrentTextualModification = ''concurrent_textual_modification''"
| "pattern_as_str Generic = ''generic''"

definition pattern_from_str :: "string \<Rightarrow> PatternType" where
  "pattern_from_str s =
     (if s = ''two_agents_add_imports'' then TwoAgentsAddImports
      else if s = ''rename_with_stale_reference'' then RenameWithStaleReference
      else if s = ''two_agents_modify_same_body'' then TwoAgentsModifySameBody
      else if s = ''two_agents_modify_same_struct'' then TwoAgentsModifySameStruct
      else if s = ''two_agents_add_methods'' then TwoAgentsAddMethods
      else if s = ''concurrent_textual_modification'' then ConcurrentTextualModification
      else Generic)"

fun pattern_description :: "PatternType \<Rightarrow> string" where
  "pattern_description TwoAgentsAddImports = ''Two agents add imports to the same file''"
| "pattern_description RenameWithStaleReference = ''One agent renames an identifier, another adds usage of old name''"
| "pattern_description TwoAgentsModifySameBody = ''Two agents modify the same function body differently''"
| "pattern_description TwoAgentsModifySameStruct = ''Two agents modify the same struct definition''"
| "pattern_description TwoAgentsAddMethods = ''Two agents add methods to the same impl block''"
| "pattern_description ConcurrentTextualModification = ''Concurrent line-level modifications to the same file region''"
| "pattern_description Generic = ''Generic unclassified merge conflict''"

record MergePattern =
  mp_id :: nat
  mp_pattern_type :: PatternType
  mp_pattern_hash :: string
  mp_description :: string
  mp_instance_count :: nat
  mp_success_count :: nat
  mp_auto_resolution_enabled :: bool
  mp_disabled_by_human :: bool
  mp_created_at :: time
  mp_updated_at :: time

text \<open>\<open>success_rate() >= 0.90\<close>, and 1.0 without instances.\<close>

definition rate_at_least_90 :: "MergePattern \<Rightarrow> bool" where
  "rate_at_least_90 p = (if mp_instance_count p = 0 then True else 9 * mp_instance_count p \<le> 10 * mp_success_count p)"

definition meets_promotion_criteria :: "MergePattern \<Rightarrow> bool" where
  "meets_promotion_criteria p \<longleftrightarrow> \<not> mp_disabled_by_human p \<and> 10 < mp_instance_count p \<and> rate_at_least_90 p"

section \<open>Tables\<close>

record pattern_row =
  pr_id :: nat
  pr_type :: string
  pr_hash :: string
  pr_description :: string
  pr_instance_count :: nat
  pr_success_count :: nat
  pr_auto :: bool
  pr_disabled :: bool
  pr_created_at :: string
  pr_updated_at :: string

record ResolutionInstance =
  ri_id :: nat
  ri_pattern_id :: nat
  ri_conflict_id :: string
  ri_workspace_id :: string
  ri_strategy :: string
  ri_was_auto :: bool
  ri_rolled_back :: bool
  ri_resolved_at :: string

record MergePatternStore =
  merge_patterns :: "pattern_row list"
  resolution_instances :: "ResolutionInstance list"
  pattern_seq :: nat
  instance_seq :: nat

record pattern_env =
  pe_sha256 :: "bytes \<Rightarrow> string"
  pe_lowercase :: "string \<Rightarrow> string"
  pe_uuid :: "uuid \<Rightarrow> string"
  pe_rfc3339 :: "time \<Rightarrow> string"
  pe_parse_time :: "string \<Rightarrow> time option"

definition patterns_empty :: MergePatternStore where
  "patterns_empty = \<lparr>merge_patterns = [], resolution_instances = [], pattern_seq = 0, instance_seq = 0\<rparr>"

definition row_to_pattern :: "pattern_env \<Rightarrow> time \<Rightarrow> pattern_row \<Rightarrow> MergePattern" where
  "row_to_pattern env now r =
     \<lparr>mp_id = pr_id r, mp_pattern_type = pattern_from_str (pr_type r), mp_pattern_hash = pr_hash r,
      mp_description = pr_description r, mp_instance_count = pr_instance_count r, mp_success_count = pr_success_count r,
      mp_auto_resolution_enabled = pr_auto r, mp_disabled_by_human = pr_disabled r,
      mp_created_at = (case pe_parse_time env (pr_created_at r) of Some t \<Rightarrow> t | None \<Rightarrow> now),
      mp_updated_at = (case pe_parse_time env (pr_updated_at r) of Some t \<Rightarrow> t | None \<Rightarrow> now)\<rparr>"

definition update_pattern :: "nat \<Rightarrow> (pattern_row \<Rightarrow> pattern_row) \<Rightarrow> MergePatternStore \<Rightarrow> MergePatternStore" where
  "update_pattern i f st = st\<lparr>merge_patterns := map (\<lambda>r. if pr_id r = i then f r else r) (merge_patterns st)\<rparr>"

section \<open>Classification\<close>

definition classify :: "pattern_env \<Rightarrow> ConflictRecord \<Rightarrow> PatternType" where
  "classify env record =
     (let desc = pe_lowercase env (cf_description record)
      in if cf_merge_level record = 1 then ConcurrentTextualModification
         else if contains_str desc ''rename'' \<or> contains_str desc ''stale'' \<or> contains_str desc ''old name''
           then RenameWithStaleReference
         else if contains_str desc ''import'' \<or> contains_str desc ''use statement'' \<or> contains_str desc ''use decl''
           then TwoAgentsAddImports
         else if contains_str desc ''struct'' \<or> contains_str desc ''field'' then TwoAgentsModifySameStruct
         else if contains_str desc ''method'' \<or> contains_str desc ''impl'' \<or> contains_str desc ''associated''
           then TwoAgentsAddMethods
         else if cf_merge_level record = 3 \<or> contains_str desc ''function'' \<or> contains_str desc ''body'' \<or> contains_str desc ''fn ''
           then TwoAgentsModifySameBody
         else Generic)"

definition compute_hash :: "pattern_env \<Rightarrow> PatternType \<Rightarrow> nat \<Rightarrow> string" where
  "compute_hash env pattern_type merge_level = pe_sha256 env (pattern_as_str pattern_type @ [char_of merge_level])"

section \<open>Operations\<close>

definition find_by_hash :: "MergePatternStore \<Rightarrow> string \<Rightarrow> pattern_row option" where
  "find_by_hash st h = find (\<lambda>r. pr_hash r = h) (merge_patterns st)"

definition get_pattern :: "pattern_env \<Rightarrow> MergePatternStore \<Rightarrow> time \<Rightarrow> nat \<Rightarrow> (MergePatternError, MergePattern) result" where
  "get_pattern env st now i =
     (case find (\<lambda>r. pr_id r = i) (merge_patterns st) of
        None \<Rightarrow> Inl (MpNotFound i) | Some r \<Rightarrow> Inr (row_to_pattern env now r))"

definition update_promotion ::
  "pattern_env \<Rightarrow> MergePatternStore \<Rightarrow> time \<Rightarrow> nat \<Rightarrow> (MergePatternError, MergePatternStore) result" where
  "update_promotion env st now i =
     bind_result (get_pattern env st now i) (\<lambda>p.
       if mp_disabled_by_human p then Inr st
       else Inr (update_pattern i (\<lambda>r. r\<lparr>pr_auto := meets_promotion_criteria p\<rparr>) st))"

text \<open>An operation that re-evaluates a pattern and returns it, after its own writes.\<close>

definition promote_and_get ::
  "pattern_env \<Rightarrow> MergePatternStore \<Rightarrow> time \<Rightarrow> nat \<Rightarrow> (MergePatternError, MergePattern) result \<times> MergePatternStore" where
  "promote_and_get env st now i =
     (case update_promotion env st now i of
        Inl e \<Rightarrow> (Inl e, st)
      | Inr st' \<Rightarrow> (get_pattern env st' now i, st'))"

definition record_resolution ::
  "pattern_env \<Rightarrow> MergePatternStore \<Rightarrow> time \<Rightarrow> ConflictRecord \<Rightarrow> string \<Rightarrow> bool \<Rightarrow>
   (MergePatternError, MergePattern) result \<times> MergePatternStore" where
  "record_resolution env st now record strategy was_auto =
     (let pattern_type = classify env record;
          hash = compute_hash env pattern_type (cf_merge_level record);
          (pattern_id, st1) =
            (case find_by_hash st hash of
               Some p \<Rightarrow>
                 (pr_id p, update_pattern (pr_id p) (\<lambda>r. r\<lparr>pr_instance_count := pr_instance_count r + 1,
                    pr_success_count := pr_success_count r + 1, pr_updated_at := pe_rfc3339 env now\<rparr>) st)
             | None \<Rightarrow>
                 (pattern_seq st + 1,
                  st\<lparr>merge_patterns := merge_patterns st @
                       [\<lparr>pr_id = pattern_seq st + 1, pr_type = pattern_as_str pattern_type, pr_hash = hash,
                         pr_description = pattern_description pattern_type, pr_instance_count = 1, pr_success_count = 1,
                         pr_auto = False, pr_disabled = False, pr_created_at = pe_rfc3339 env now, pr_updated_at = pe_rfc3339 env now\<rparr>],
                     pattern_seq := pattern_seq st + 1\<rparr>));
          st2 = st1\<lparr>resolution_instances := resolution_instances st1 @
                  [\<lparr>ri_id = instance_seq st1 + 1, ri_pattern_id = pattern_id,
                    ri_conflict_id = pe_uuid env (cf_conflict_id record), ri_workspace_id = pe_uuid env (cf_workspace_id record),
                    ri_strategy = strategy, ri_was_auto = was_auto, ri_rolled_back = False, ri_resolved_at = pe_rfc3339 env now\<rparr>],
                instance_seq := instance_seq st1 + 1\<rparr>
      in promote_and_get env st2 now pattern_id)"

definition record_rollback ::
  "pattern_env \<Rightarrow> MergePatternStore \<Rightarrow> time \<Rightarrow> uuid \<Rightarrow>
   (MergePatternError, MergePattern option) result \<times> MergePatternStore" where
  "record_rollback env st now conflict_id =
     (case find (\<lambda>i. ri_conflict_id i = pe_uuid env conflict_id \<and> \<not> ri_rolled_back i) (resolution_instances st) of
        None \<Rightarrow> (Inr None, st)
      | Some inst \<Rightarrow>
          let st1 = st\<lparr>resolution_instances :=
                map (\<lambda>i. if ri_id i = ri_id inst then i\<lparr>ri_rolled_back := True\<rparr> else i) (resolution_instances st)\<rparr>;
              st2 = update_pattern (ri_pattern_id inst) (\<lambda>r. r\<lparr>pr_success_count := pr_success_count r - 1,
                pr_updated_at := pe_rfc3339 env now\<rparr>) st1;
              (res, st3) = promote_and_get env st2 now (ri_pattern_id inst)
          in (map_sum id Some res, st3))"

definition disable_pattern ::
  "pattern_env \<Rightarrow> MergePatternStore \<Rightarrow> time \<Rightarrow> nat \<Rightarrow> (MergePatternError, MergePattern) result \<times> MergePatternStore" where
  "disable_pattern env st now i =
     (let st1 = update_pattern i (\<lambda>r. r\<lparr>pr_disabled := True, pr_auto := False, pr_updated_at := pe_rfc3339 env now\<rparr>) st
      in if filter (\<lambda>r. pr_id r = i) (merge_patterns st) = [] then (Inl (MpNotFound i), st1)
         else (get_pattern env st1 now i, st1))"

definition enable_pattern ::
  "pattern_env \<Rightarrow> MergePatternStore \<Rightarrow> time \<Rightarrow> nat \<Rightarrow> (MergePatternError, MergePattern) result \<times> MergePatternStore" where
  "enable_pattern env st now i =
     (let st1 = update_pattern i (\<lambda>r. r\<lparr>pr_disabled := False, pr_updated_at := pe_rfc3339 env now\<rparr>) st
      in if filter (\<lambda>r. pr_id r = i) (merge_patterns st) = [] then (Inl (MpNotFound i), st1)
         else promote_and_get env st1 now i)"

text \<open>\<open>ORDER BY instance_count DESC\<close>.\<close>

definition list_patterns :: "pattern_env \<Rightarrow> MergePatternStore \<Rightarrow> time \<Rightarrow> MergePattern list" where
  "list_patterns env st now = map (row_to_pattern env now) (rev (sort_key pr_instance_count (rev (merge_patterns st))))"

definition check_auto_resolution :: "pattern_env \<Rightarrow> MergePatternStore \<Rightarrow> time \<Rightarrow> ConflictRecord \<Rightarrow> MergePattern option" where
  "check_auto_resolution env st now record =
     (case find_by_hash st (compute_hash env (classify env record) (cf_merge_level record)) of
        None \<Rightarrow> None
      | Some r \<Rightarrow> if pr_auto r then Some (row_to_pattern env now r) else None)"

section \<open>The merge engine's notifications\<close>

text \<open>\<open>resolve_conflict\<close> with its last step: the result of the pattern library is ignored.\<close>

definition resolve_conflict_recorded ::
  "('a) merge_env_scheme \<Rightarrow> pattern_env \<Rightarrow> ('b) merge_dir_scheme \<Rightarrow> MergePatternStore \<Rightarrow> string \<Rightarrow> time \<Rightarrow>
   (MergeError, ConflictRecord \<times> ('b) merge_dir_scheme) result \<times> MergePatternStore" where
  "resolve_conflict_recorded env penv vai st cid now =
     (case resolve_conflict env vai cid now of
        Inl e \<Rightarrow> (Inl e, st)
      | Inr (record, vai') \<Rightarrow> (Inr (record, vai'), snd (record_resolution penv st now record ''manual'' False)))"

definition record_pattern_rollback ::
  "pattern_env \<Rightarrow> MergePatternStore \<Rightarrow> time \<Rightarrow> uuid \<Rightarrow> (MergeError, unit) result \<times> MergePatternStore" where
  "record_pattern_rollback env st now conflict_id =
     (case record_rollback env st now conflict_id of
        (Inl _, st') \<Rightarrow> (Inl MeMergePattern, st')
      | (Inr _, st') \<Rightarrow> (Inr (), st'))"

section \<open>The invariant of the tables\<close>

definition insts_of :: "MergePatternStore \<Rightarrow> nat \<Rightarrow> ResolutionInstance list" where
  "insts_of st i = filter (\<lambda>x. ri_pattern_id x = i) (resolution_instances st)"

definition kept :: "ResolutionInstance list \<Rightarrow> ResolutionInstance list" where
  "kept is = filter (\<lambda>x. \<not> ri_rolled_back x) is"

definition promotable :: "pattern_row \<Rightarrow> bool" where
  "promotable r \<longleftrightarrow> \<not> pr_disabled r \<and> 10 < pr_instance_count r \<and> 9 * pr_instance_count r \<le> 10 * pr_success_count r"

definition keys_ok :: "MergePatternStore \<Rightarrow> bool" where
  "keys_ok st \<longleftrightarrow>
     distinct (map pr_id (merge_patterns st)) \<and> distinct (map pr_hash (merge_patterns st)) \<and>
     distinct (map ri_id (resolution_instances st)) \<and>
     (\<forall>r\<in>set (merge_patterns st). pr_id r \<le> pattern_seq st) \<and>
     (\<forall>x\<in>set (resolution_instances st). ri_id x \<le> instance_seq st \<and> ri_pattern_id x \<in> pr_id ` set (merge_patterns st))"

definition counts_ok :: "MergePatternStore \<Rightarrow> pattern_row \<Rightarrow> bool" where
  "counts_ok st r \<longleftrightarrow>
     pr_instance_count r = length (insts_of st (pr_id r)) \<and> pr_success_count r = length (kept (insts_of st (pr_id r)))"

definition patterns_ok :: "MergePatternStore \<Rightarrow> bool" where
  "patterns_ok st \<longleftrightarrow> keys_ok st \<and> (\<forall>r\<in>set (merge_patterns st). counts_ok st r \<and> pr_auto r = promotable r)"

lemma meets_promotion_row: "meets_promotion_criteria (row_to_pattern env now r) = promotable r"
  by (auto simp: meets_promotion_criteria_def rate_at_least_90_def row_to_pattern_def promotable_def)

text \<open>Writes that keep the keys of a row.\<close>

definition key_preserving :: "(pattern_row \<Rightarrow> pattern_row) \<Rightarrow> bool" where
  "key_preserving f \<longleftrightarrow> (\<forall>r. pr_id (f r) = pr_id r \<and> pr_hash (f r) = pr_hash r)"

lemma update_pattern_sel [simp]:
  "resolution_instances (update_pattern i f st) = resolution_instances st"
  "pattern_seq (update_pattern i f st) = pattern_seq st" "instance_seq (update_pattern i f st) = instance_seq st"
  "insts_of (update_pattern i f st) j = insts_of st j" "counts_ok (update_pattern i f st) r = counts_ok st r"
  by (simp_all add: update_pattern_def insts_of_def counts_ok_def)

lemma update_pattern_rows:
  "set (merge_patterns (update_pattern i f st)) = (\<lambda>r. if pr_id r = i then f r else r) ` set (merge_patterns st)"
  by (simp add: update_pattern_def)

lemma update_pattern_keys:
  assumes "key_preserving f"
  shows "map pr_id (merge_patterns (update_pattern i f st)) = map pr_id (merge_patterns st)"
    "map pr_hash (merge_patterns (update_pattern i f st)) = map pr_hash (merge_patterns st)"
    "pr_id ` set (merge_patterns (update_pattern i f st)) = pr_id ` set (merge_patterns st)"
proof -
  show ids: "map pr_id (merge_patterns (update_pattern i f st)) = map pr_id (merge_patterns st)"
    "map pr_hash (merge_patterns (update_pattern i f st)) = map pr_hash (merge_patterns st)"
    using assms by (auto simp: update_pattern_def key_preserving_def)
  show "pr_id ` set (merge_patterns (update_pattern i f st)) = pr_id ` set (merge_patterns st)"
    using arg_cong [OF ids(1), of set] by (simp only: set_map)
qed

lemma keys_ok_update:
  assumes "keys_ok st" "key_preserving f"
  shows "keys_ok (update_pattern i f st)"
proof -
  have "pr_id r \<le> pattern_seq st" if "r \<in> set (merge_patterns (update_pattern i f st))" for r
    using that assms by (auto simp: update_pattern_rows keys_ok_def key_preserving_def)
  with assms(1) show ?thesis by (simp add: keys_ok_def update_pattern_keys [OF assms(2)])
qed

lemma find_row:
  "keys_ok st \<Longrightarrow> r \<in> set (merge_patterns st) \<Longrightarrow> find (\<lambda>x. pr_id x = pr_id r) (merge_patterns st) = Some r"
proof -
  have "distinct (map pr_id rows) \<Longrightarrow> r \<in> set rows \<Longrightarrow> find (\<lambda>x. pr_id x = pr_id r) rows = Some r" for rows
    by (induction rows) (auto simp: image_iff)
  then show "keys_ok st \<Longrightarrow> r \<in> set (merge_patterns st) \<Longrightarrow> find (\<lambda>x. pr_id x = pr_id r) (merge_patterns st) = Some r"
    by (simp add: keys_ok_def)
qed

lemma find_hashD: "find_by_hash st h = Some r \<Longrightarrow> r \<in> set (merge_patterns st) \<and> pr_hash r = h"
  unfolding find_by_hash_def by (metis (mono_tags, lifting) find_Some_iff nth_mem)

lemma find_hash_None: "find_by_hash st h = None \<longleftrightarrow> h \<notin> pr_hash ` set (merge_patterns st)"
  by (auto simp: find_by_hash_def find_None_iff)

text \<open>What the writes of an operation leave behind before the promotion of pattern \<open>i\<close> is re-evaluated.\<close>

definition pending_ok :: "MergePatternStore \<Rightarrow> nat \<Rightarrow> bool" where
  "pending_ok st i \<longleftrightarrow>
     keys_ok st \<and> (\<forall>r\<in>set (merge_patterns st). counts_ok st r \<and>
       (if pr_id r = i then pr_disabled r \<longrightarrow> \<not> pr_auto r else pr_auto r = promotable r))"

lemma promote_ok:
  assumes "pending_ok st i"
  shows "patterns_ok (snd (promote_and_get env st now i))"
proof (cases "find (\<lambda>r. pr_id r = i) (merge_patterns st)")
  case None
  then have "pr_id r \<noteq> i" if "r \<in> set (merge_patterns st)" for r using that by (auto simp: find_None_iff)
  with assms None show ?thesis
    by (simp add: promote_and_get_def update_promotion_def get_pattern_def pending_ok_def patterns_ok_def)
next
  case (Some r)
  then have r: "r \<in> set (merge_patterns st)" "pr_id r = i" by (metis (mono_tags, lifting) find_Some_iff nth_mem)+
  have same: "x = r" if "x \<in> set (merge_patterns st)" "pr_id x = i" for x
    using that Some assms find_row [of st x] by (simp add: pending_ok_def)
  define f where "f = (\<lambda>x::pattern_row. x\<lparr>pr_auto := promotable r\<rparr>)"
  have snd: "snd (promote_and_get env st now i) = (if pr_disabled r then st else update_pattern i f st)"
    by (simp add: promote_and_get_def update_promotion_def get_pattern_def Some f_def meets_promotion_row)
      (simp add: row_to_pattern_def)
  show ?thesis
  proof (cases "pr_disabled r")
    case True
    then have "pr_auto x = promotable x" if "x \<in> set (merge_patterns st)" for x
      using that assms same [OF that] by (cases "pr_id x = i") (auto simp: pending_ok_def promotable_def)
    with assms True snd show ?thesis by (simp add: patterns_ok_def pending_ok_def)
  next
    case False
    have f: "counts_ok st (f x) = counts_ok st x" "promotable (f x) = promotable x" for x
      by (simp_all add: f_def counts_ok_def promotable_def)
    have "counts_ok st y \<and> pr_auto y = promotable y" if "y \<in> set (merge_patterns (update_pattern i f st))" for y
    proof -
      from that obtain x where x: "x \<in> set (merge_patterns st)" "y = (if pr_id x = i then f x else x)"
        by (auto simp: update_pattern_rows)
      have "counts_ok st x" using assms x(1) by (simp add: pending_ok_def)
      moreover have "pr_auto x = promotable x" if "pr_id x \<noteq> i" using assms x(1) that by (simp add: pending_ok_def)
      moreover have "pr_auto (f x) = promotable (f x)" if "pr_id x = i"
        using same [OF x(1) that] by (simp add: f) (simp add: f_def)
      ultimately show ?thesis using x(2) by (simp add: f)
    qed
    moreover have "keys_ok (update_pattern i f st)"
      using assms by (intro keys_ok_update) (simp_all add: pending_ok_def key_preserving_def f_def)
    ultimately show ?thesis using False snd by (simp add: patterns_ok_def)
  qed
qed

lemma insts_snoc:
  "insts_of (st\<lparr>resolution_instances := resolution_instances st @ [x], instance_seq := n\<rparr>) i =
     insts_of st i @ (if ri_pattern_id x = i then [x] else [])"
  by (simp add: insts_of_def)

lemma patterns_okD:
  "patterns_ok st \<Longrightarrow> r \<in> set (merge_patterns st) \<Longrightarrow> counts_ok st r \<and> pr_auto r = promotable r"
  by (simp add: patterns_ok_def)

lemma auto_not_disabled: "pr_auto r = promotable r \<Longrightarrow> pr_disabled r \<longrightarrow> \<not> pr_auto r"
  by (simp add: promotable_def)

lemma ok_record_resolution:
  assumes "patterns_ok st"
  shows "patterns_ok (snd (record_resolution env st now c strategy was_auto))"
proof -
  define h where "h = compute_hash env (classify env c) (cf_merge_level c)"
  define inst where "inst = (\<lambda>n pid. \<lparr>ri_id = n, ri_pattern_id = pid,
     ri_conflict_id = pe_uuid env (cf_conflict_id c), ri_workspace_id = pe_uuid env (cf_workspace_id c),
     ri_strategy = strategy, ri_was_auto = was_auto, ri_rolled_back = False, ri_resolved_at = pe_rfc3339 env now\<rparr>)"
  have inst [simp]: "ri_id (inst n p) = n" "ri_pattern_id (inst n p) = p" "\<not> ri_rolled_back (inst n p)" for n p
    by (simp_all add: inst_def)
  have k: "keys_ok st" using assms by (simp add: patterns_ok_def)
  show ?thesis
  proof (cases "find_by_hash st h")
    case (Some p)
    define f where "f = (\<lambda>r::pattern_row. r\<lparr>pr_instance_count := pr_instance_count r + 1,
      pr_success_count := pr_success_count r + 1, pr_updated_at := pe_rfc3339 env now\<rparr>)"
    let ?st1 = "update_pattern (pr_id p) f st"
    let ?st2 = "?st1\<lparr>resolution_instances := resolution_instances ?st1 @ [inst (instance_seq ?st1 + 1) (pr_id p)],
      instance_seq := instance_seq ?st1 + 1\<rparr>"
    have p: "p \<in> set (merge_patterns st)" using find_hashD [OF Some] by simp
    have kf: "key_preserving f" by (simp add: key_preserving_def f_def)
    have "keys_ok ?st2"
      using keys_ok_update [OF k kf] p by (fastforce simp: keys_ok_def update_pattern_keys(3) [OF kf])
    moreover have "counts_ok ?st2 y \<and> (if pr_id y = pr_id p then pr_disabled y \<longrightarrow> \<not> pr_auto y else pr_auto y = promotable y)"
      if "y \<in> set (merge_patterns ?st2)" for y
    proof -
      from that obtain x where x: "x \<in> set (merge_patterns st)" "y = (if pr_id x = pr_id p then f x else x)"
        by (auto simp: update_pattern_rows)
      have "insts_of ?st2 j = insts_of st j @ (if pr_id p = j then [inst (instance_seq st + 1) (pr_id p)] else [])" for j
        by (simp add: insts_of_def)
      with patterns_okD [OF assms x(1)] auto_not_disabled [of x] show ?thesis
        unfolding x(2) counts_ok_def by (simp add: f_def kept_def)
    qed
    ultimately have "pending_ok ?st2 (pr_id p)" by (simp add: pending_ok_def)
    from promote_ok [OF this] show ?thesis
      using Some by (simp add: record_resolution_def h_def [symmetric] inst_def f_def Let_def)
  next
    case None
    define row where "row = \<lparr>pr_id = pattern_seq st + 1, pr_type = pattern_as_str (classify env c), pr_hash = h,
       pr_description = pattern_description (classify env c), pr_instance_count = 1, pr_success_count = 1,
       pr_auto = False, pr_disabled = False, pr_created_at = pe_rfc3339 env now, pr_updated_at = pe_rfc3339 env now\<rparr>"
    let ?i = "pattern_seq st + 1"
    let ?st1 = "st\<lparr>merge_patterns := merge_patterns st @ [row], pattern_seq := ?i\<rparr>"
    let ?st2 = "?st1\<lparr>resolution_instances := resolution_instances ?st1 @ [inst (instance_seq ?st1 + 1) ?i],
      instance_seq := instance_seq ?st1 + 1\<rparr>"
    have row: "pr_id row = ?i" "pr_hash row = h" by (simp_all add: row_def)
    have fresh: "pr_id r \<noteq> ?i" if "r \<in> set (merge_patterns st)" for r using k that by (fastforce simp: keys_ok_def)
    have "insts_of st ?i = []"
      using k fresh by (force simp: insts_of_def filter_empty_conv keys_ok_def)
    moreover have i1: "insts_of ?st1 j = insts_of st j" for j by (simp add: insts_of_def)
    ultimately have "counts_ok ?st2 row" unfolding counts_ok_def insts_snoc row(1) i1 by (simp add: row_def kept_def)
    moreover have "counts_ok ?st2 r \<and> pr_auto r = promotable r" if r: "r \<in> set (merge_patterns st)" for r
      using patterns_okD [OF assms r] fresh [OF r] unfolding counts_ok_def insts_snoc i1 by simp
    moreover have "keys_ok ?st2"
      using k fresh None by (fastforce simp: keys_ok_def row find_hash_None)
    ultimately have "pending_ok ?st2 ?i" using fresh by (auto simp: pending_ok_def row) (simp_all add: row_def)
    from promote_ok [OF this] show ?thesis
      using None by (simp add: record_resolution_def h_def [symmetric] inst_def row_def Let_def)
  qed
qed

text \<open>Marking one live instance as rolled back takes it out of the kept instances of its pattern.\<close>

definition mark :: "nat \<Rightarrow> ResolutionInstance \<Rightarrow> ResolutionInstance" where
  "mark n x = (if ri_id x = n then x\<lparr>ri_rolled_back := True\<rparr> else x)"

lemma mark_sel [simp]: "ri_id (mark n x) = ri_id x" "ri_pattern_id (mark n x) = ri_pattern_id x"
  "ri_rolled_back (mark n x) \<longleftrightarrow> ri_id x = n \<or> ri_rolled_back x"
  by (simp_all add: mark_def)

lemma mark_other: "n \<notin> ri_id ` set xs \<Longrightarrow> map (mark n) xs = xs"
  by (induction xs) (auto simp: mark_def)

lemma kept_mark:
  "distinct (map ri_id xs) \<Longrightarrow> x \<in> set xs \<Longrightarrow> \<not> ri_rolled_back x \<Longrightarrow>
   length (kept (filter (\<lambda>y. ri_pattern_id y = i) (map (mark (ri_id x)) xs))) =
     length (kept (filter (\<lambda>y. ri_pattern_id y = i) xs)) - (if ri_pattern_id x = i then 1 else 0)"
proof (induction xs)
  case (Cons y xs)
  show ?case
  proof (cases "x = y")
    case True
    with Cons.prems have "map (mark (ri_id x)) xs = xs" by (intro mark_other) auto
    with True Cons.prems show ?thesis by (simp add: kept_def)
  next
    case False
    with Cons.prems have x: "x \<in> set xs" "ri_id y \<noteq> ri_id x" by auto
    then have "0 < length (kept (filter (\<lambda>y. ri_pattern_id y = ri_pattern_id x) xs))"
      using Cons.prems(3) by (auto simp: kept_def filter_empty_conv)
    with Cons x show ?thesis by (auto simp: kept_def mark_def)
  qed
qed simp

lemma ok_record_rollback:
  assumes "patterns_ok st"
  shows "patterns_ok (snd (record_rollback env st now c))"
proof (cases "find (\<lambda>i. ri_conflict_id i = pe_uuid env c \<and> \<not> ri_rolled_back i) (resolution_instances st)")
  case None
  with assms show ?thesis by (simp add: record_rollback_def)
next
  case (Some x)
  then have x: "x \<in> set (resolution_instances st)" "\<not> ri_rolled_back x" by (metis (mono_tags, lifting) find_Some_iff nth_mem)+
  have k: "keys_ok st" using assms by (simp add: patterns_ok_def)
  let ?i = "ri_pattern_id x"
  define f where "f = (\<lambda>r::pattern_row. r\<lparr>pr_success_count := pr_success_count r - 1, pr_updated_at := pe_rfc3339 env now\<rparr>)"
  let ?st1 = "st\<lparr>resolution_instances := map (mark (ri_id x)) (resolution_instances st)\<rparr>"
  let ?st2 = "update_pattern ?i f ?st1"
  have kf: "key_preserving f" by (simp add: key_preserving_def f_def)
  have "keys_ok ?st1" using k by (auto simp: keys_ok_def comp_def)
  then have "keys_ok ?st2" using kf by (rule keys_ok_update)
  moreover have "counts_ok ?st2 y \<and> (if pr_id y = ?i then pr_disabled y \<longrightarrow> \<not> pr_auto y else pr_auto y = promotable y)"
    if "y \<in> set (merge_patterns ?st2)" for y
  proof -
    from that obtain r where r: "r \<in> set (merge_patterns st)" "y = (if pr_id r = ?i then f r else r)"
      by (auto simp: update_pattern_rows)
    have len: "length (insts_of ?st1 j) = length (insts_of st j)" for j by (simp add: insts_of_def filter_map comp_def)
    have kept: "length (kept (insts_of ?st1 j)) = length (kept (insts_of st j)) - (if ?i = j then 1 else 0)" for j
      using kept_mark [OF _ x] k by (simp add: insts_of_def keys_ok_def)
    from patterns_okD [OF assms r(1)] auto_not_disabled [of r] show ?thesis
      unfolding r(2) counts_ok_def update_pattern_sel len kept by (simp add: f_def)
  qed
  ultimately have "pending_ok ?st2 ?i" by (simp add: pending_ok_def)
  from promote_ok [OF this, of env now] show ?thesis
    using Some by (simp add: record_rollback_def f_def mark_def [abs_def] Let_def case_prod_unfold)
qed

lemma ok_disable:
  assumes "patterns_ok st"
  shows "patterns_ok (snd (disable_pattern env st now i))"
proof -
  define f where "f = (\<lambda>r::pattern_row. r\<lparr>pr_disabled := True, pr_auto := False, pr_updated_at := pe_rfc3339 env now\<rparr>)"
  have "keys_ok (update_pattern i f st)"
    using assms by (intro keys_ok_update) (simp_all add: patterns_ok_def key_preserving_def f_def)
  moreover have "counts_ok st (f r)" "pr_auto (f r) = promotable (f r)" if "counts_ok st r" for r
    using that by (simp_all add: f_def counts_ok_def promotable_def)
  ultimately have "patterns_ok (update_pattern i f st)"
    using assms by (auto simp: patterns_ok_def update_pattern_rows)
  then show ?thesis by (simp add: disable_pattern_def f_def Let_def)
qed

lemma ok_enable:
  assumes "patterns_ok st"
  shows "patterns_ok (snd (enable_pattern env st now i))"
proof -
  define f where "f = (\<lambda>r::pattern_row. r\<lparr>pr_disabled := False, pr_updated_at := pe_rfc3339 env now\<rparr>)"
  have k: "keys_ok (update_pattern i f st)"
    using assms by (intro keys_ok_update) (simp_all add: patterns_ok_def key_preserving_def f_def)
  have f: "counts_ok st (f r) = counts_ok st r" "pr_id (f r) = pr_id r" "\<not> pr_disabled (f r)" for r
    by (simp_all add: f_def counts_ok_def)
  have "pending_ok (update_pattern i f st) i"
    using assms k f by (auto simp: pending_ok_def patterns_ok_def update_pattern_rows)
  from promote_ok [OF this] have "patterns_ok (snd (promote_and_get env (update_pattern i f st) now i))" .
  moreover have "patterns_ok (update_pattern i f st)" if "filter (\<lambda>r. pr_id r = i) (merge_patterns st) = []"
  proof -
    have "update_pattern i f st = st" using that by (simp add: update_pattern_def filter_empty_conv map_idI)
    with assms show ?thesis by simp
  qed
  ultimately show ?thesis by (simp add: enable_pattern_def f_def Let_def)
qed

section \<open>Histories\<close>

text \<open>The operations on the library, as the command line and the merge engine call them.\<close>

datatype pattern_op =
    OpResolve ConflictRecord string bool | OpRollback uuid | OpDisable nat | OpEnable nat

fun run_op :: "pattern_env \<Rightarrow> MergePatternStore \<Rightarrow> time \<Rightarrow> pattern_op \<Rightarrow> MergePatternStore" where
  "run_op env st now (OpResolve c strategy was_auto) = snd (record_resolution env st now c strategy was_auto)"
| "run_op env st now (OpRollback c) = snd (record_rollback env st now c)"
| "run_op env st now (OpDisable i) = snd (disable_pattern env st now i)"
| "run_op env st now (OpEnable i) = snd (enable_pattern env st now i)"

fun run_ops :: "pattern_env \<Rightarrow> MergePatternStore \<Rightarrow> (time \<times> pattern_op) list \<Rightarrow> MergePatternStore" where
  "run_ops env st [] = st"
| "run_ops env st ((now, op) # ops) = run_ops env (run_op env st now op) ops"

lemma ok_run_op: "patterns_ok st \<Longrightarrow> patterns_ok (run_op env st now op)"
  by (cases op) (simp_all add: ok_record_resolution ok_record_rollback ok_disable ok_enable)

lemma ok_run_ops: "patterns_ok st \<Longrightarrow> patterns_ok (run_ops env st ops)"
  by (induction env st ops rule: run_ops.induct) (simp_all add: ok_run_op)

lemma patterns_ok_empty [simp]: "patterns_ok patterns_empty"
  by (simp add: patterns_ok_def keys_ok_def patterns_empty_def)

definition disabled_ids :: "MergePatternStore \<Rightarrow> nat set" where
  "disabled_ids st = pr_id ` {r \<in> set (merge_patterns st). pr_disabled r}"

lemma disabled_update:
  assumes "i \<in> disabled_ids st" "\<And>r. pr_id (f r) = pr_id r" "j = i \<Longrightarrow> \<forall>r. pr_disabled (f r) \<longleftrightarrow> pr_disabled r"
  shows "i \<in> disabled_ids (update_pattern j f st)"
proof -
  from assms(1) obtain r where r: "r \<in> set (merge_patterns st)" "pr_disabled r" "i = pr_id r" by (auto simp: disabled_ids_def)
  let ?g = "\<lambda>r. if pr_id r = j then f r else r"
  have "?g r \<in> set (merge_patterns (update_pattern j f st))" using r(1) by (auto simp: update_pattern_rows)
  moreover have "pr_id (?g r) = i" "pr_disabled (?g r)" using assms(2,3) r by auto
  ultimately show ?thesis unfolding disabled_ids_def by blast
qed

lemma disabled_update_own:
  assumes "i \<in> pr_id ` set (merge_patterns st)" "\<And>r. pr_id (f r) = pr_id r \<and> pr_disabled (f r)"
  shows "i \<in> disabled_ids (update_pattern i f st)"
proof -
  from assms(1) obtain r where r: "r \<in> set (merge_patterns st)" "pr_id r = i" by blast
  then have "f r \<in> set (merge_patterns (update_pattern i f st))" by (auto simp: update_pattern_rows)
  then have "f r \<in> {x \<in> set (merge_patterns (update_pattern i f st)). pr_disabled x}" using assms(2) by simp
  moreover have "i = pr_id (f r)" using assms(2) r(2) by simp
  ultimately show ?thesis unfolding disabled_ids_def by (rule rev_image_eqI)
qed

lemma disabled_in: "i \<in> disabled_ids st \<Longrightarrow> i \<in> pr_id ` set (merge_patterns st)"
  by (auto simp: disabled_ids_def)

lemma disabled_instances [simp]:
  "disabled_ids (st\<lparr>resolution_instances := xs\<rparr>) = disabled_ids st" "disabled_ids (st\<lparr>instance_seq := n\<rparr>) = disabled_ids st"
  by (simp_all add: disabled_ids_def)

lemma disabled_promote: "i \<in> disabled_ids st \<Longrightarrow> i \<in> disabled_ids (snd (promote_and_get env st now j))"
  by (auto simp: promote_and_get_def update_promotion_def bind_result_def intro!: disabled_update split: sum.split)

lemma disabled_run_op:
  assumes "i \<in> disabled_ids st" "op \<noteq> OpEnable i"
  shows "i \<in> disabled_ids (run_op env st now op)"
proof (cases op)
  case (OpResolve c strategy was_auto)
  have "i \<in> disabled_ids (st\<lparr>merge_patterns := merge_patterns st @ [row], pattern_seq := n\<rparr>)" for row n
    using assms(1) by (auto simp: disabled_ids_def)
  with OpResolve assms(1) show ?thesis
    by (auto simp: record_resolution_def Let_def intro!: disabled_promote disabled_update split: option.split)
next
  case (OpRollback c)
  with assms(1) show ?thesis
    by (auto simp: record_rollback_def Let_def case_prod_unfold intro!: disabled_promote disabled_update split: option.split)
next
  case (OpDisable j)
  have "i \<in> disabled_ids (update_pattern j (\<lambda>r. r\<lparr>pr_disabled := True, pr_auto := False, pr_updated_at := t\<rparr>) st)" for t
  proof (cases "i = j")
    case True
    show ?thesis unfolding True [symmetric] by (rule disabled_update_own [OF disabled_in [OF assms(1)]]) simp
  qed (intro disabled_update assms(1); simp)
  with OpDisable show ?thesis by (simp add: disable_pattern_def Let_def)
next
  case (OpEnable j)
  then have "i \<in> disabled_ids (update_pattern j (\<lambda>r. r\<lparr>pr_disabled := False, pr_updated_at := t\<rparr>) st)" for t
    using assms by (intro disabled_update) auto
  with OpEnable show ?thesis by (simp add: enable_pattern_def Let_def disabled_promote)
qed

lemma disabled_run_ops:
  "i \<in> disabled_ids st \<Longrightarrow> \<forall>(t, op)\<in>set ops. op \<noteq> OpEnable i \<Longrightarrow> i \<in> disabled_ids (run_ops env st ops)"
  by (induction env st ops rule: run_ops.induct) (simp_all add: disabled_run_op)

lemma disabled_after_disable:
  assumes "i \<in> pr_id ` set (merge_patterns st)"
  shows "i \<in> disabled_ids (snd (disable_pattern env st now i))"
proof -
  have "i \<in> disabled_ids (update_pattern i (\<lambda>r. r\<lparr>pr_disabled := True, pr_auto := False, pr_updated_at := pe_rfc3339 env now\<rparr>) st)"
    by (rule disabled_update_own [OF assms]) simp
  then show ?thesis by (simp add: disable_pattern_def Let_def)
qed

lemma run_ops_append: "run_ops env st (xs @ ys) = run_ops env (run_ops env st xs) ys"
  by (induction env st xs rule: run_ops.induct) simp_all

lemma check_auto_Some:
  assumes "patterns_ok st" "check_auto_resolution env st now c = Some p"
  shows "mp_id p \<notin> disabled_ids st"
proof
  assume "mp_id p \<in> disabled_ids st"
  moreover from assms(2) obtain r where r: "find_by_hash st (compute_hash env (classify env c) (cf_merge_level c)) = Some r"
    "pr_auto r" "mp_id p = pr_id r" by (auto simp: check_auto_resolution_def row_to_pattern_def split: option.splits if_splits)
  ultimately obtain x where x: "x \<in> set (merge_patterns st)" "pr_disabled x" "pr_id x = pr_id r" by (auto simp: disabled_ids_def)
  have k: "keys_ok st" using assms(1) by (simp add: patterns_ok_def)
  have "r \<in> set (merge_patterns st)" using find_hashD [OF r(1)] by simp
  from find_row [OF k x(1)] find_row [OF k this] have "x = r" unfolding x(3) by simp
  with x patterns_okD [OF assms(1) x(1)] r(2) show False by (simp add: promotable_def)
qed

section \<open>Properties\<close>

text \<open>C18: After any history of resolutions, rollbacks and human overrides the counters of every pattern are
  the number of its recorded resolutions and of those not rolled back, and a conflict is auto-resolved
  exactly when its pattern is not disabled, has more than ten recorded resolutions, and at least nine
  tenths of them were kept.\<close>

theorem auto_resolution_exact:
  "let st = run_ops env patterns_empty ops in
     list_all (\<lambda>r. pr_instance_count r = length (insts_of st (pr_id r)) \<and>
       pr_success_count r = length (kept (insts_of st (pr_id r)))) (merge_patterns st) \<and>
     (check_auto_resolution env st now c \<noteq> None \<longleftrightarrow>
       list_ex (\<lambda>r. pr_hash r = compute_hash env (classify env c) (cf_merge_level c) \<and> \<not> pr_disabled r \<and>
         10 < length (insts_of st (pr_id r)) \<and>
         9 * length (insts_of st (pr_id r)) \<le> 10 * length (kept (insts_of st (pr_id r)))) (merge_patterns st))"
proof -
  define st where "st = run_ops env patterns_empty ops"
  have ok: "patterns_ok st" by (simp add: st_def ok_run_ops)
  let ?h = "compute_hash env (classify env c) (cf_merge_level c)"
  have hash: "find_by_hash st ?h = Some r \<longleftrightarrow> r \<in> set (merge_patterns st) \<and> pr_hash r = ?h" for r
  proof
    assume r: "r \<in> set (merge_patterns st) \<and> pr_hash r = ?h"
    then have "?h \<in> pr_hash ` set (merge_patterns st)" by (metis imageI)
    then obtain x where x: "find_by_hash st ?h = Some x" using find_hash_None [of st ?h] by (cases "find_by_hash st ?h") simp_all
    have "inj_on pr_hash (set (merge_patterns st))" using ok by (simp add: patterns_ok_def keys_ok_def distinct_map)
    with r find_hashD [OF x] have "x = r" by (intro inj_onD [of pr_hash _ x r]) auto
    with x show "find_by_hash st ?h = Some r" by simp
  qed (simp add: find_hashD)
  have "check_auto_resolution env st now c \<noteq> None \<longleftrightarrow> (\<exists>r\<in>set (merge_patterns st). pr_hash r = ?h \<and> promotable r)"
  proof (cases "find_by_hash st ?h")
    case None
    then have "pr_hash r \<noteq> ?h" if "r \<in> set (merge_patterns st)" for r using hash [of r] that by auto
    with None show ?thesis by (auto simp: check_auto_resolution_def)
  next
    case (Some x)
    then have "(\<exists>r\<in>set (merge_patterns st). pr_hash r = ?h \<and> promotable r) \<longleftrightarrow> promotable x"
      using hash by (metis option.inject)
    with Some patterns_okD [OF ok, of x] find_hashD [OF Some] show ?thesis by (simp add: check_auto_resolution_def)
  qed
  then show ?thesis
    unfolding st_def [symmetric] Let_def list_all_iff list_ex_iff
    using patterns_okD [OF ok] by (auto simp: counts_ok_def promotable_def)
qed

text \<open>A pattern a human has disabled is never used to resolve a conflict until the same pattern is
  enabled again, whatever resolutions, rollbacks and overrides of other patterns happen in between.\<close>

theorem disabled_stays_manual:
  assumes "i \<in> pr_id ` set (merge_patterns (run_ops env patterns_empty ops))" "\<forall>(t, op)\<in>set later. op \<noteq> OpEnable i"
  shows "case check_auto_resolution env (run_ops env patterns_empty (ops @ (t, OpDisable i) # later)) now c of
    None \<Rightarrow> True | Some p \<Rightarrow> mp_id p \<noteq> i"
proof -
  have "i \<in> disabled_ids (run_ops env patterns_empty (ops @ (t, OpDisable i) # later))"
    using disabled_run_ops [OF disabled_after_disable [OF assms(1)] assms(2)] by (simp add: run_ops_append)
  with check_auto_Some [OF ok_run_ops [OF patterns_ok_empty]] show ?thesis by (auto split: option.split)
qed

definition sample_pattern_env :: pattern_env where
  "sample_pattern_env = \<lparr>pe_sha256 = id, pe_lowercase = to_lowercase, pe_uuid = nat_to_string,
     pe_rfc3339 = nat_to_string, pe_parse_time = parse_digits 0\<rparr>"

definition sample_import_conflict :: ConflictRecord where
  "sample_import_conflict = \<lparr>cf_conflict_id = 7, cf_workspace_id = 1, cf_file_path = ''a.rs'', cf_entity_ids = [],
     cf_description = ''Both add an import'', cf_severity = SevMedium, cf_merge_level = 2, cf_resolved = False\<rparr>"

lemma sample_first_pattern:
  "1 \<in> pr_id ` set (merge_patterns (run_ops env patterns_empty [(0, OpResolve sample_import_conflict ''manual'' False)]))"
  by (simp add: record_resolution_def patterns_empty_def find_by_hash_def Let_def promote_and_get_def update_promotion_def
      get_pattern_def update_pattern_def)

theorem disabled_stays_manual_witness:
  "case check_auto_resolution sample_pattern_env (run_ops sample_pattern_env patterns_empty
      ([(0, OpResolve sample_import_conflict ''manual'' False)] @ (1, OpDisable 1) #
       replicate 20 (2, OpResolve sample_import_conflict ''manual'' False))) 3 sample_import_conflict of
    None \<Rightarrow> True | Some p \<Rightarrow> mp_id p \<noteq> 1"
proof -
  have "\<forall>(t, op)\<in>set (replicate 20 (2, OpResolve sample_import_conflict ''manual'' False)). op \<noteq> OpEnable 1"
    by (simp add: set_replicate_conv_if)
  then show ?thesis by (rule disabled_stays_manual [OF sample_first_pattern])
qed

end
