(* ===== verification/Pagination.thy ===== *)
theory Pagination
  imports Graph
begin

text \<open>
  Pagination of list queries (\<open>src/storage/pagination.rs\<close>) and the response envelope of the server
  (\<open>src/server/pagination.rs\<close>). Page numbers and sizes are \<open>u32\<close>, limits and offsets \<open>i64\<close>: the
  arithmetic of \<open>sql_limit_offset\<close> is written with its bounds, \<open>None\<close> standing for an arithmetic
  overflow.
\<close>

section \<open>Queries\<close>

datatype PaginationError =
    InvalidPage nat | InvalidPerPage nat | UnknownSortColumn string | InvalidSortFormat string

fun pagination_error_text :: "PaginationError \<Rightarrow> string" where
  "pagination_error_text (InvalidPage p) = ''invalid page '' @ nat_to_string p @ '': must be '' @ [CHR 0xE2, CHR 0x89, CHR 0xA5] @ '' 1''"
| "pagination_error_text (InvalidPerPage n) = ''invalid per_page '' @ nat_to_string n @ '': must be 1'' @ [CHR 0xE2, CHR 0x80, CHR 0x93] @ ''100''"
| "pagination_error_text (UnknownSortColumn c) = ''unknown sort column '' @ [CHR 0x27] @ c @ [CHR 0x27]"
| "pagination_error_text (InvalidSortFormat s) = ''invalid sort format '' @ [CHR 0x27] @ s @ [CHR 0x27] @ '': expected '' @ [CHR 0x27] @
     ''column'' @ [CHR 0x27] @ '' or '' @ [CHR 0x27] @ ''column:asc|desc'' @ [CHR 0x27]"

datatype SortDirection = Asc | Desc

fun direction_sql :: "SortDirection \<Rightarrow> string" where
  "direction_sql Asc = ''ASC''"
| "direction_sql Desc = ''DESC''"

record SortField =
  sf_column :: string
  sf_direction :: SortDirection

record ListQuery =
  lq_page :: nat
  lq_per_page :: nat
  lq_sort :: "SortField list"

definition u32_max :: nat where "u32_max = 2 ^ 32 - 1"
definition i64_max :: nat where "i64_max = 2 ^ 63 - 1"

definition query_default :: ListQuery where
  "query_default = \<lparr>lq_page = 1, lq_per_page = u32_max, lq_sort = []\<rparr>"

definition parse_sort_part :: "string list \<Rightarrow> string \<Rightarrow> (PaginationError, SortField) result" where
  "parse_sort_part allowed part =
     bind_result
       (case split_once (CHR '':'') part of
          Some (c, d) \<Rightarrow>
            (if to_lowercase d = ''asc'' then Inr (trim c, Asc)
             else if to_lowercase d = ''desc'' then Inr (trim c, Desc)
             else Inl (InvalidSortFormat part))
        | None \<Rightarrow> Inr (part, Asc))
       (\<lambda>(col, dir).
          if col \<notin> set allowed then Inl (UnknownSortColumn col)
          else Inr \<lparr>sf_column = col, sf_direction = dir\<rparr>)"

fun parse_sort_parts :: "string list \<Rightarrow> string list \<Rightarrow> (PaginationError, SortField list) result" where
  "parse_sort_parts allowed [] = Inr []"
| "parse_sort_parts allowed (p # ps) =
     (let part = trim p
      in if part = [] then parse_sort_parts allowed ps
         else bind_result (parse_sort_part allowed part) (\<lambda>f.
              bind_result (parse_sort_parts allowed ps) (\<lambda>fs. Inr (f # fs))))"

definition parse_sort :: "string \<Rightarrow> string list \<Rightarrow> (PaginationError, SortField list) result" where
  "parse_sort sort_str allowed = (if sort_str = [] then Inr [] else parse_sort_parts allowed (split_char (CHR '','') sort_str))"

definition from_params ::
  "nat option \<Rightarrow> nat option \<Rightarrow> string option \<Rightarrow> string list \<Rightarrow> (PaginationError, ListQuery) result" where
  "from_params page per_page sort_str allowed =
     (let page = (case page of Some p \<Rightarrow> p | None \<Rightarrow> 1)
      in if page = 0 then Inl (InvalidPage page)
         else let per_page = (case per_page of Some n \<Rightarrow> n | None \<Rightarrow> 25)
              in if per_page = 0 \<or> 100 < per_page then Inl (InvalidPerPage per_page)
                 else bind_result (parse_sort (case sort_str of Some s \<Rightarrow> s | None \<Rightarrow> []) allowed) (\<lambda>sort.
                      Inr \<lparr>lq_page = page, lq_per_page = per_page, lq_sort = sort\<rparr>))"

definition sql_order_by :: "ListQuery \<Rightarrow> (string \<rightharpoonup> string) \<Rightarrow> string" where
  "sql_order_by q column_map =
     (if lq_sort q = [] then []
      else let parts = List.map_filter (\<lambda>sf. map_option (\<lambda>c. c @ '' '' @ direction_sql (sf_direction sf)) (column_map (sf_column sf)))
                 (lq_sort q)
           in if parts = [] then [] else ''ORDER BY '' @ join_with '', '' parts)"

text \<open>The subtraction is on \<open>u32\<close>, the product on \<open>i64\<close>.\<close>

definition sql_limit_offset :: "ListQuery \<Rightarrow> (nat \<times> nat) option" where
  "sql_limit_offset q =
     (let limit = (if lq_per_page q = u32_max then i64_max else lq_per_page q)
      in if lq_page q = 0 then None
         else let offset = (lq_page q - 1) * min (lq_per_page q) (i64_max div 2)
              in if i64_max < offset then None else Some (limit, offset))"

section \<open>Results\<close>

record 'a ListResult =
  lr_items :: "'a list"
  lr_total :: nat

text \<open>What \<open>LIMIT l OFFSET k\<close> and the separate count select from the ordered rows.\<close>

definition paginate :: "nat \<times> nat \<Rightarrow> 'a list \<Rightarrow> 'a ListResult" where
  "paginate lo rows = \<lparr>lr_items = take (fst lo) (drop (snd lo) rows), lr_total = length rows\<rparr>"

record PaginationMeta =
  pm_page :: nat
  pm_per_page :: nat
  pm_total :: nat
  pm_total_pages :: nat

definition div_ceil :: "nat \<Rightarrow> nat \<Rightarrow> nat" where
  "div_ceil a b = (if a mod b = 0 then a div b else a div b + 1)"

definition pagination_meta :: "nat \<Rightarrow> ListQuery \<Rightarrow> PaginationMeta" where
  "pagination_meta n q =
     \<lparr>pm_page = lq_page q, pm_per_page = lq_per_page q, pm_total = n,
      pm_total_pages = (if lq_per_page q = 0 \<or> lq_per_page q = u32_max then 1
                        else div_ceil n (lq_per_page q) mod 2 ^ 32)\<rparr>"

section \<open>Facts\<close>

lemma from_params_Inr:
  assumes "from_params page per_page sort_str allowed = Inr q"
  shows "1 \<le> lq_page q" "1 \<le> lq_per_page q" "lq_per_page q \<le> 100"
    "lq_page q = (case page of Some p \<Rightarrow> p | None \<Rightarrow> 1)" "lq_per_page q = (case per_page of Some n \<Rightarrow> n | None \<Rightarrow> 25)"
  using assms by (auto simp: from_params_def Let_def bind_result_Inr_iff split: if_splits)

lemma parse_sort_part_allowed:
  "parse_sort_part allowed p = Inr f \<Longrightarrow> sf_column f \<in> set allowed"
  by (auto simp: parse_sort_part_def bind_result_Inr_iff split: if_splits)

lemma parse_sort_parts_allowed:
  "parse_sort_parts allowed ps = Inr fs \<Longrightarrow> f \<in> set fs \<Longrightarrow> sf_column f \<in> set allowed"
  by (induction allowed ps arbitrary: fs rule: parse_sort_parts.induct)
    (auto simp: Let_def bind_result_Inr_iff parse_sort_part_allowed split: if_splits)

lemma from_params_sort:
  "from_params page per_page sort_str allowed = Inr q \<Longrightarrow> list_all (\<lambda>f. sf_column f \<in> set allowed) (lq_sort q)"
  by (auto simp: from_params_def Let_def bind_result_Inr_iff parse_sort_def list_all_iff parse_sort_parts_allowed split: if_splits)

lemma limit_offset_valid:
  assumes "from_params page per_page sort_str allowed = Inr q" "lq_page q \<le> u32_max"
  shows "sql_limit_offset q = Some (lq_per_page q, (lq_page q - 1) * lq_per_page q)"
proof -
  note b = from_params_Inr [OF assms(1)]
  have "(lq_page q - 1) * lq_per_page q \<le> u32_max * 100" using assms(2) b(3) by (intro mult_le_mono) simp_all
  moreover have "u32_max * 100 \<le> i64_max" by (simp add: u32_max_def i64_max_def)
  moreover have "min (lq_per_page q) (i64_max div 2) = lq_per_page q" using b(3) by (simp add: i64_max_def)
  moreover have "lq_per_page q \<noteq> u32_max" using b(3) by (simp add: u32_max_def)
  ultimately show ?thesis using b(1) by (simp add: sql_limit_offset_def Let_def)
qed

lemma div_ceil_bound: "0 < b \<Longrightarrow> a \<le> div_ceil a b * b"
  by (auto simp: div_ceil_def) (metis add.commute div_mult_mod_eq less_imp_le_nat mod_less_divisor nat_add_left_cancel_le mult.commute)

text \<open>The pages, one after the other, are the rows.\<close>

lemma pages_concat: "concat (map (\<lambda>k. take n (drop (k * n) xs)) [0..<m]) = take (m * n) xs"
proof (induction m)
  case (Suc m)
  have "take (Suc m * n) xs = take (m * n) xs @ take n (drop (m * n) xs)" using take_add [of "m * n" n xs] by (simp add: add.commute)
  with Suc show ?case by simp
qed simp

definition page_items :: "nat option \<Rightarrow> string option \<Rightarrow> string list \<Rightarrow> 'a list \<Rightarrow> nat \<Rightarrow> (PaginationError, 'a list option) result" where
  "page_items per_page sort_str allowed rows p =
     bind_result (from_params (Some p) per_page sort_str allowed) (\<lambda>q.
       Inr (map_option (\<lambda>lo. lr_items (paginate lo rows)) (sql_limit_offset q)))"

lemma from_params_page:
  assumes "from_params (Some 1) per_page sort_str allowed = Inr q" "1 \<le> p"
  shows "from_params (Some p) per_page sort_str allowed = Inr (q\<lparr>lq_page := p\<rparr>)"
  using assms by (auto simp: from_params_def Let_def bind_result_Inr_iff split: if_splits)

lemma page_items_eq:
  assumes "from_params (Some 1) per_page sort_str allowed = Inr q" "1 \<le> p" "p \<le> u32_max"
  shows "page_items per_page sort_str allowed rows p = Inr (Some (take (lq_per_page q) (drop ((p - 1) * lq_per_page q) rows)))"
proof -
  have "sql_limit_offset (q\<lparr>lq_page := p\<rparr>) = Some (lq_per_page q, (p - 1) * lq_per_page q)"
    using limit_offset_valid [OF from_params_page [OF assms(1,2)]] assms(3) by simp
  then show ?thesis by (simp add: page_items_def from_params_page [OF assms(1,2)] paginate_def)
qed

section \<open>Properties\<close>

text \<open>C29: Following the pages announced by the response envelope returns every row exactly once, in order:
  for a valid page size the pages \<open>1\<close> to \<open>total_pages\<close> succeed without arithmetic overflow, none is longer
  than 100 rows, their concatenation is the whole ordered result, and every later page is empty.\<close>

theorem pages_partition:
  assumes "from_params (Some 1) per_page sort_str allowed = Inr q" "length rows \<le> u32_max"
  shows "(\<exists>pages. map (\<lambda>k. page_items per_page sort_str allowed rows (Suc k)) [0..<pm_total_pages (pagination_meta (length rows) q)] =
        map (\<lambda>xs. Inr (Some xs)) pages \<and> concat pages = rows \<and> list_all (\<lambda>xs. length xs \<le> 100) pages) \<and>
    (\<forall>p. pm_total_pages (pagination_meta (length rows) q) < p \<and> p \<le> u32_max \<longrightarrow>
       page_items per_page sort_str allowed rows p = Inr (Some []))"
proof -
  let ?n = "lq_per_page q"
  define m where "m = div_ceil (length rows) ?n"
  note b = from_params_Inr [OF assms(1)]
  have "m \<le> length rows"
  proof (cases "?n = 1")
    case False
    then have "2 \<le> ?n" using b(2) by simp
    then have "length rows div ?n \<le> length rows div 2" by (intro div_le_mono2) simp_all
    moreover have "Suc (length rows div 2) \<le> length rows" if "rows \<noteq> []"
    proof -
      have "0 < length rows" using that by simp
      then show ?thesis by presburger
    qed
    ultimately have "Suc (length rows div ?n) \<le> length rows" if "rows \<noteq> []" using that by fastforce
    then show ?thesis by (cases "rows = []") (auto simp: m_def div_ceil_def)
  qed (simp add: m_def div_ceil_def)
  then have m: "m \<le> u32_max" using assms(2) by simp
  then have pages: "pm_total_pages (pagination_meta (length rows) q) = m"
    using b(2,3) by (simp add: pagination_meta_def m_def u32_max_def)
  have cover: "length rows \<le> m * ?n" using div_ceil_bound [of ?n "length rows"] b(2) by (simp add: m_def)
  let ?pages = "map (\<lambda>k. take ?n (drop (k * ?n) rows)) [0..<m]"
  have "map (\<lambda>k. page_items per_page sort_str allowed rows (Suc k)) [0..<m] = map (\<lambda>xs. Inr (Some xs)) ?pages"
    using m by (auto simp: page_items_eq [OF assms(1)])
  moreover have "concat ?pages = rows" using cover by (simp add: pages_concat)
  moreover have "list_all (\<lambda>xs. length xs \<le> 100) ?pages" using b(3) by (auto simp: list_all_iff)
  moreover have "page_items per_page sort_str allowed rows p = Inr (Some [])" if "m < p" "p \<le> u32_max" for p
  proof -
    have "m * ?n \<le> (p - 1) * ?n" using that(1) by (intro mult_le_mono1) simp
    with cover have "drop ((p - 1) * ?n) rows = []" unfolding drop_eq_Nil by (rule le_trans)
    then show ?thesis using that page_items_eq [OF assms(1), of p rows] by simp
  qed
  ultimately show ?thesis unfolding pages by blast
qed

theorem pages_partition_witness:
  "\<exists>pages. map (\<lambda>k. page_items (Some 2) None [] [10 :: nat, 11, 12] (Suc k)) [0..<2] = map (\<lambda>xs. Inr (Some xs)) pages \<and>
     concat pages = [10, 11, 12]"
proof -
  have q: "from_params (Some 1) (Some 2) None [] = Inr \<lparr>lq_page = 1, lq_per_page = 2, lq_sort = []\<rparr>"
    by (simp add: from_params_def parse_sort_def)
  have "pm_total_pages (pagination_meta 3 \<lparr>lq_page = 1, lq_per_page = 2, lq_sort = []\<rparr>) = 2"
    by (simp add: pagination_meta_def div_ceil_def u32_max_def)
  with pages_partition [OF q, of "[10 :: nat, 11, 12]"] show ?thesis by (auto simp: u32_max_def numeral_3_eq_3)
qed

end
