(* ===== verification/HostedStore.thy ===== *)
theory HostedStore
  imports MergeFs Issue Pagination
begin

text \<open>
  The tables of the hosted server that the agent workers touch, and the operations of the Postgres
  back end on them: workers and their logs (\<open>src/storage/postgres/worker.rs\<close>), workspaces
  (\<open>src/storage/postgres/workspace.rs\<close>) and issues (\<open>src/storage/postgres/issue.rs\<close>). A table is the
  list of its rows.

  Every call may fail, since it crosses the network: \<open>se_down\<close> says for the name of a query and its
  key whether it does, and the failed call has no effect. What \<open>ORDER BY\<close> makes of the selected rows
  is the database's, a function of the clause. \<open>NOW()\<close> and \<open>Uuid::new_v4()\<close> are arguments; time is
  counted in seconds.
\<close>

section \<open>Tables\<close>

record AgentWorker =
  wk_id :: uuid
  wk_repo_id :: uuid
  wk_provider :: string
  wk_machine_id :: "string option"
  wk_state :: string
  wk_workspace_id :: "uuid option"
  wk_last_heartbeat_at :: "time option"
  wk_started_at :: time
  wk_ended_at :: "time option"

datatype LogStream = Stdout | Stderr

datatype WorkerDoneReason = DoneCompleted | DoneFailed | DoneTerminated

record NewWorker =
  nw_repo_id :: uuid
  nw_provider :: string
  nw_machine_id :: "string option"

record WorkerLog =
  wl_id :: nat
  wl_worker_id :: uuid
  wl_ts :: time
  wl_stream :: LogStream
  wl_chunk :: string

record repo_row =
  rp_id :: uuid
  rp_name :: string
  rp_cloud_agent_enabled :: bool

record event_row =
  evr_id :: nat
  evr_repo_id :: uuid
  evr_event_type :: string
  evr_workspace_id :: "uuid option"
  evr_payload :: string
  evr_created_at :: time

record link_row =
  lk_repo_id :: uuid
  lk_source_id :: uuid
  lk_target_id :: uuid
  lk_relationship :: string

record hosted =
  ho_repos :: "repo_row list"
  ho_workers :: "AgentWorker list"
  ho_logs :: "WorkerLog list"
  ho_log_seq :: nat
  ho_workspaces :: "(uuid \<times> WorkspaceMeta) list"
  ho_issues :: "(uuid \<times> Issue) list"
  ho_links :: "link_row list"
  ho_events :: "event_row list"
  ho_event_seq :: nat

record hosted_env =
  se_uuid :: "uuid \<Rightarrow> string"
  se_down :: "string \<Rightarrow> uuid \<Rightarrow> bool"
  se_lower :: "string \<Rightarrow> string"
  se_order_issues :: "string \<Rightarrow> Issue list \<Rightarrow> Issue list"
  se_order_workspaces :: "string \<Rightarrow> WorkspaceMeta list \<Rightarrow> WorkspaceMeta list"
  se_order_workers :: "string \<Rightarrow> AgentWorker list \<Rightarrow> AgentWorker list"

text \<open>\<open>map_err(|e| StorageError::Database(..))\<close> on a read and on a write.\<close>

definition db_read :: "('e) hosted_env_scheme \<Rightarrow> string \<Rightarrow> uuid \<Rightarrow> (StorageError, 'x) result \<Rightarrow> (StorageError, 'x) result" where
  "db_read env op key r = (if se_down env op key then Inl (StDatabase op) else r)"

definition db_write ::
  "('e) hosted_env_scheme \<Rightarrow> string \<Rightarrow> uuid \<Rightarrow> 'h \<Rightarrow> ((StorageError, 'x) result \<times> 'h) \<Rightarrow> ((StorageError, 'x) result \<times> 'h)" where
  "db_write env op key h r = (if se_down env op key then (Inl (StDatabase op), h) else r)"

section \<open>Workers\<close>

definition live_states :: "string list" where
  "live_states = [''spawning'', ''running'']"

definition worker_live :: "AgentWorker \<Rightarrow> bool" where
  "worker_live w \<longleftrightarrow> wk_state w \<in> set live_states"

definition worker_not_found :: "('e) hosted_env_scheme \<Rightarrow> uuid \<Rightarrow> StorageError" where
  "worker_not_found env i = StNotFound (''agent worker '' @ se_uuid env i)"

definition update_worker :: "uuid \<Rightarrow> (AgentWorker \<Rightarrow> AgentWorker) \<Rightarrow> hosted \<Rightarrow> hosted" where
  "update_worker i f h = h\<lparr>ho_workers := map (\<lambda>w. if wk_id w = i then f w else w) (ho_workers h)\<rparr>"

definition worker_exists :: "hosted \<Rightarrow> uuid \<Rightarrow> bool" where
  "worker_exists h i \<longleftrightarrow> list_ex (\<lambda>w. wk_id w = i) (ho_workers h)"

text \<open>An \<open>UPDATE\<close> of one worker that reports \<open>NotFound\<close> when it touched no row.\<close>

definition update_worker_checked ::
  "('e) hosted_env_scheme \<Rightarrow> string \<Rightarrow> uuid \<Rightarrow> (AgentWorker \<Rightarrow> AgentWorker) \<Rightarrow> hosted \<Rightarrow> (StorageError, unit) result \<times> hosted" where
  "update_worker_checked env op i f h =
     db_write env op i h
       (if worker_exists h i then (Inr (), update_worker i f h) else (Inl (worker_not_found env i), h))"

definition create_worker ::
  "('e) hosted_env_scheme \<Rightarrow> hosted \<Rightarrow> uuid \<Rightarrow> time \<Rightarrow> NewWorker \<Rightarrow> (StorageError, AgentWorker) result \<times> hosted" where
  "create_worker env h i now nw =
     (let w = \<lparr>wk_id = i, wk_repo_id = nw_repo_id nw, wk_provider = nw_provider nw, wk_machine_id = nw_machine_id nw,
               wk_state = ''spawning'', wk_workspace_id = None, wk_last_heartbeat_at = None, wk_started_at = now, wk_ended_at = None\<rparr>
      in db_write env ''create_worker'' (nw_repo_id nw) h
           (if worker_exists h i then (Inl (StDatabase ''create_worker''), h)
            else (Inr w, h\<lparr>ho_workers := ho_workers h @ [w]\<rparr>)))"

definition get_worker :: "('e) hosted_env_scheme \<Rightarrow> hosted \<Rightarrow> uuid \<Rightarrow> (StorageError, AgentWorker) result" where
  "get_worker env h i =
     db_read env ''get_worker'' i
       (case find (\<lambda>w. wk_id w = i) (ho_workers h) of None \<Rightarrow> Inl (worker_not_found env i) | Some w \<Rightarrow> Inr w)"

definition running_workers :: "hosted \<Rightarrow> uuid \<Rightarrow> nat" where
  "running_workers h r = length (filter (\<lambda>w. wk_repo_id w = r \<and> worker_live w) (ho_workers h))"

definition count_running_workers :: "('e) hosted_env_scheme \<Rightarrow> hosted \<Rightarrow> uuid \<Rightarrow> (StorageError, nat) result" where
  "count_running_workers env h r = db_read env ''count_running_workers'' r (Inr (running_workers h r))"

definition is_cloud_agent_enabled :: "('e) hosted_env_scheme \<Rightarrow> hosted \<Rightarrow> uuid \<Rightarrow> (StorageError, bool) result" where
  "is_cloud_agent_enabled env h r =
     db_read env ''is_cloud_agent_enabled'' r
       (Inr (case find (\<lambda>x. rp_id x = r) (ho_repos h) of None \<Rightarrow> False | Some x \<Rightarrow> rp_cloud_agent_enabled x))"

definition list_logs :: "('e) hosted_env_scheme \<Rightarrow> hosted \<Rightarrow> uuid \<Rightarrow> nat option \<Rightarrow> (StorageError, WorkerLog list) result" where
  "list_logs env h i since =
     db_read env ''list_logs'' i (Inr (take 1000 (sort_key wl_id
       (filter (\<lambda>l. wl_worker_id l = i \<and> (case since of None \<Rightarrow> True | Some n \<Rightarrow> n < wl_id l)) (ho_logs h)))))"

definition set_machine_id ::
  "('e) hosted_env_scheme \<Rightarrow> hosted \<Rightarrow> uuid \<Rightarrow> string \<Rightarrow> (StorageError, unit) result \<times> hosted" where
  "set_machine_id env h i m = db_write env ''set_machine_id'' i h (Inr (), update_worker i (\<lambda>w. w\<lparr>wk_machine_id := Some m\<rparr>) h)"

definition update_heartbeat ::
  "('e) hosted_env_scheme \<Rightarrow> hosted \<Rightarrow> time \<Rightarrow> uuid \<Rightarrow> (StorageError, unit) result \<times> hosted" where
  "update_heartbeat env h now i = update_worker_checked env ''update_heartbeat'' i (\<lambda>w. w\<lparr>wk_last_heartbeat_at := Some now\<rparr>) h"

definition numbered_logs :: "uuid \<Rightarrow> time \<Rightarrow> LogStream \<Rightarrow> nat \<Rightarrow> string list \<Rightarrow> WorkerLog list" where
  "numbered_logs i now stream seq chunks =
     map (\<lambda>(n, c). \<lparr>wl_id = n, wl_worker_id = i, wl_ts = now, wl_stream = stream, wl_chunk = c\<rparr>)
       (zip [Suc seq..<Suc seq + length chunks] chunks)"

definition append_logs ::
  "('e) hosted_env_scheme \<Rightarrow> hosted \<Rightarrow> time \<Rightarrow> uuid \<Rightarrow> LogStream \<Rightarrow> string list \<Rightarrow> (StorageError, unit) result \<times> hosted" where
  "append_logs env h now i stream chunks =
     (if chunks = [] then (Inr (), h)
      else if se_down env ''worker_exists'' i then (Inl (StDatabase ''worker_exists''), h)
      else if \<not> worker_exists h i then (Inl (worker_not_found env i), h)
      else db_write env ''append_logs'' i h
             (Inr (), h\<lparr>ho_logs := ho_logs h @ numbered_logs i now stream (ho_log_seq h) chunks,
                        ho_log_seq := ho_log_seq h + length chunks\<rparr>))"

fun done_state :: "WorkerDoneReason \<Rightarrow> string" where
  "done_state DoneCompleted = ''completed''"
| "done_state DoneFailed = ''failed''"
| "done_state DoneTerminated = ''dead''"

definition mark_done ::
  "('e) hosted_env_scheme \<Rightarrow> hosted \<Rightarrow> time \<Rightarrow> uuid \<Rightarrow> WorkerDoneReason \<Rightarrow> (StorageError, unit) result \<times> hosted" where
  "mark_done env h now i reason =
     update_worker_checked env ''mark_done'' i (\<lambda>w. w\<lparr>wk_state := done_state reason, wk_ended_at := Some now\<rparr>) h"

definition get_worker_by_workspace ::
  "('e) hosted_env_scheme \<Rightarrow> hosted \<Rightarrow> uuid \<Rightarrow> (StorageError, AgentWorker option) result" where
  "get_worker_by_workspace env h ws =
     db_read env ''get_worker_by_workspace'' ws (Inr (find (\<lambda>w. wk_workspace_id w = Some ws \<and> worker_live w) (ho_workers h)))"

text \<open>\<open>COALESCE(last_heartbeat_at, started_at) < NOW() - stale_secs\<close>.\<close>

definition last_sign :: "AgentWorker \<Rightarrow> time" where
  "last_sign w = (case wk_last_heartbeat_at w of Some t \<Rightarrow> t | None \<Rightarrow> wk_started_at w)"

definition worker_stale :: "time \<Rightarrow> nat \<Rightarrow> AgentWorker \<Rightarrow> bool" where
  "worker_stale now stale_secs w \<longleftrightarrow> worker_live w \<and> last_sign w + stale_secs < now"

definition list_stale_workers :: "('e) hosted_env_scheme \<Rightarrow> hosted \<Rightarrow> time \<Rightarrow> nat \<Rightarrow> (StorageError, AgentWorker list) result" where
  "list_stale_workers env h now stale_secs =
     db_read env ''list_stale_workers'' 0 (Inr (filter (worker_stale now stale_secs) (ho_workers h)))"

definition set_workspace_id ::
  "('e) hosted_env_scheme \<Rightarrow> hosted \<Rightarrow> uuid \<Rightarrow> uuid \<Rightarrow> (StorageError, unit) result \<times> hosted" where
  "set_workspace_id env h i ws = update_worker_checked env ''set_workspace_id'' i (\<lambda>w. w\<lparr>wk_workspace_id := Some ws\<rparr>) h"

definition orphaned :: "hosted \<Rightarrow> time \<Rightarrow> nat \<Rightarrow> uuid \<times> WorkspaceMeta \<Rightarrow> bool" where
  "orphaned h now stale_secs row \<longleftrightarrow>
     wm_status (snd row) \<in> {WCreated, WActive} \<and> wm_issue_id (snd row) \<noteq> None \<and>
     \<not> list_ex (\<lambda>w. wk_workspace_id w = Some (wm_id (snd row)) \<and> worker_live w) (ho_workers h) \<and>
     wm_created_at (snd row) + stale_secs < now"

definition list_orphaned_issue_workspaces ::
  "('e) hosted_env_scheme \<Rightarrow> hosted \<Rightarrow> time \<Rightarrow> nat \<Rightarrow> (StorageError, (uuid \<times> uuid \<times> uuid) list) result" where
  "list_orphaned_issue_workspaces env h now stale_secs =
     db_read env ''list_orphaned_issue_workspaces'' 0
       (Inr (map (\<lambda>(r, m). (wm_id m, r, the (wm_issue_id m))) (filter (orphaned h now stale_secs) (ho_workspaces h))))"

definition set_cloud_agent_enabled ::
  "('e) hosted_env_scheme \<Rightarrow> hosted \<Rightarrow> uuid \<Rightarrow> bool \<Rightarrow> (StorageError, unit) result \<times> hosted" where
  "set_cloud_agent_enabled env h r enabled =
     db_write env ''set_cloud_agent_enabled'' r h
       (if list_ex (\<lambda>x. rp_id x = r) (ho_repos h)
        then (Inr (), h\<lparr>ho_repos := map (\<lambda>x. if rp_id x = r then x\<lparr>rp_cloud_agent_enabled := enabled\<rparr> else x) (ho_repos h)\<rparr>)
        else (Inl (StNotFound (''repo '' @ se_uuid env r)), h))"

definition list_cloud_enabled_repos :: "('e) hosted_env_scheme \<Rightarrow> hosted \<Rightarrow> (StorageError, (uuid \<times> string) list) result" where
  "list_cloud_enabled_repos env h =
     db_read env ''list_cloud_enabled_repos'' 0
       (Inr (map (\<lambda>x. (rp_id x, rp_name x)) (filter rp_cloud_agent_enabled (ho_repos h))))"

text \<open>\<open>None\<close> is the arithmetic overflow of \<open>sql_limit_offset\<close>.\<close>

definition list_workers_by_repo ::
  "('e) hosted_env_scheme \<Rightarrow> hosted \<Rightarrow> uuid \<Rightarrow> string option \<Rightarrow> ListQuery \<Rightarrow> (StorageError, AgentWorker ListResult) result option" where
  "list_workers_by_repo env h r state_filter q =
     map_option (\<lambda>lo. db_read env ''list_workers_by_repo'' r (Inr (paginate lo (se_order_workers env ''ORDER BY started_at DESC''
       (filter (\<lambda>w. wk_repo_id w = r \<and> (case state_filter of None \<Rightarrow> True | Some s \<Rightarrow> wk_state w = s)) (ho_workers h))))))
       (sql_limit_offset q)"

text \<open>Without a limit the clause is left out, and the offset with it.\<close>

definition limit_clause :: "nat \<times> nat \<Rightarrow> 'a list \<Rightarrow> 'a ListResult" where
  "limit_clause lo rows = (if fst lo = i64_max then \<lparr>lr_items = rows, lr_total = length rows\<rparr> else paginate lo rows)"

section \<open>Workspaces\<close>

record NewWorkspace =
  nws_id :: "uuid option"
  nws_intent :: string
  nws_base_version :: string
  nws_issue_id :: "uuid option"

record WorkspaceUpdate =
  wu_status :: "WorkspaceStatus option"
  wu_issue_id :: "uuid option"
  wu_deleted_paths :: "string list option"

definition find_workspace :: "hosted \<Rightarrow> uuid \<Rightarrow> uuid \<Rightarrow> WorkspaceMeta option" where
  "find_workspace h r i = map_option snd (find (\<lambda>(r', m). r' = r \<and> wm_id m = i) (ho_workspaces h))"

definition get_workspace :: "('e) hosted_env_scheme \<Rightarrow> hosted \<Rightarrow> uuid \<Rightarrow> uuid \<Rightarrow> (StorageError, WorkspaceMeta) result" where
  "get_workspace env h r i =
     db_read env ''get_workspace'' i
       (case find_workspace h r i of None \<Rightarrow> Inl (StNotFound (''workspace '' @ se_uuid env i)) | Some m \<Rightarrow> Inr m)"

definition update_workspace_row :: "uuid \<Rightarrow> uuid \<Rightarrow> (WorkspaceMeta \<Rightarrow> WorkspaceMeta) \<Rightarrow> hosted \<Rightarrow> hosted" where
  "update_workspace_row r i f h =
     h\<lparr>ho_workspaces := map (\<lambda>(r', m). if r' = r \<and> wm_id m = i then (r', f m) else (r', m)) (ho_workspaces h)\<rparr>"

definition create_workspace ::
  "('e) hosted_env_scheme \<Rightarrow> hosted \<Rightarrow> time \<Rightarrow> uuid \<Rightarrow> uuid \<Rightarrow> NewWorkspace \<Rightarrow> (StorageError, WorkspaceMeta) result \<times> hosted" where
  "create_workspace env h now fresh r ws =
     (let i = (case nws_id ws of Some i \<Rightarrow> i | None \<Rightarrow> fresh);
          m = \<lparr>wm_id = i, wm_intent = nws_intent ws, wm_base_version = nws_base_version ws, wm_status = WCreated,
               wm_created_at = now, wm_updated_at = now, wm_issue_id = nws_issue_id ws, wm_deleted_paths = []\<rparr>
      in db_write env ''create_workspace'' r h
           (if list_ex (\<lambda>(r', m). wm_id m = i) (ho_workspaces h) then (Inl (StDatabase ''create_workspace''), h)
            else let h' = h\<lparr>ho_workspaces := ho_workspaces h @ [(r, m)]\<rparr> in (get_workspace env h' r i, h')))"

definition list_workspaces ::
  "('e) hosted_env_scheme \<Rightarrow> hosted \<Rightarrow> uuid \<Rightarrow> bool \<Rightarrow> ListQuery \<Rightarrow> (StorageError, WorkspaceMeta ListResult) result option" where
  "list_workspaces env h r include_inactive q =
     (let rows = map snd (filter (\<lambda>(r', m). r' = r \<and> (include_inactive \<or> wm_status m \<notin> {WDiscarded, WMerged})) (ho_workspaces h));
          cols = map_of (map (\<lambda>c. (c, c)) [''created_at'', ''updated_at'', ''status'', ''intent'', ''id'']);
          clause = (if sql_order_by q cols = [] then ''ORDER BY created_at DESC'' else sql_order_by q cols)
      in map_option (\<lambda>lo. db_read env ''list_workspaces'' r (Inr (limit_clause lo (se_order_workspaces env clause rows))))
           (sql_limit_offset q))"

definition update_workspace ::
  "('e) hosted_env_scheme \<Rightarrow> hosted \<Rightarrow> time \<Rightarrow> uuid \<Rightarrow> uuid \<Rightarrow> WorkspaceUpdate \<Rightarrow> (StorageError, WorkspaceMeta) result \<times> hosted" where
  "update_workspace env h now r i u =
     (case get_workspace env h r i of
        Inl e \<Rightarrow> (Inl e, h)
      | Inr current \<Rightarrow>
          let f = (\<lambda>m. m\<lparr>wm_status := (case wu_status u of Some s \<Rightarrow> s | None \<Rightarrow> wm_status current),
                wm_issue_id := (case wu_issue_id u of Some j \<Rightarrow> Some j | None \<Rightarrow> wm_issue_id current),
                wm_deleted_paths := (case wu_deleted_paths u of Some d \<Rightarrow> d | None \<Rightarrow> wm_deleted_paths current),
                wm_updated_at := now\<rparr>)
          in db_write env ''update_workspace'' i h
               (let h' = update_workspace_row r i f h in (get_workspace env h' r i, h')))"

definition discard_workspace ::
  "('e) hosted_env_scheme \<Rightarrow> hosted \<Rightarrow> time \<Rightarrow> uuid \<Rightarrow> uuid \<Rightarrow> (StorageError, unit) result \<times> hosted" where
  "discard_workspace env h now r i =
     db_write env ''discard_workspace'' i h
       (Inr (), update_workspace_row r i (\<lambda>m. m\<lparr>wm_status := WDiscarded, wm_updated_at := now\<rparr>) h)"

section \<open>Issues\<close>

record IssueUpdate =
  iu_title :: "string option"
  iu_description :: "string option"
  iu_priority :: "IssuePriority option"
  iu_labels :: "string list option"
  iu_status :: "IssueStatus option"
  iu_resolution :: "string option"
  iu_workspace_id :: "uuid option"
  iu_acceptance_criteria :: "string list option"

definition issue_update_default :: IssueUpdate where
  "issue_update_default = \<lparr>iu_title = None, iu_description = None, iu_priority = None, iu_labels = None, iu_status = None,
     iu_resolution = None, iu_workspace_id = None, iu_acceptance_criteria = None\<rparr>"

record NewIssue =
  ni_title :: string
  ni_description :: string
  ni_priority :: IssuePriority
  ni_labels :: "string list"
  ni_creator :: string
  ni_agent_source :: "AgentSource option"
  ni_acceptance_criteria :: "string list"

definition find_issue :: "hosted \<Rightarrow> uuid \<Rightarrow> uuid \<Rightarrow> Issue option" where
  "find_issue h r i = map_option snd (find (\<lambda>(r', x). r' = r \<and> is_id x = i) (ho_issues h))"

definition get_issue :: "('e) hosted_env_scheme \<Rightarrow> hosted \<Rightarrow> uuid \<Rightarrow> uuid \<Rightarrow> (StorageError, Issue) result" where
  "get_issue env h r i =
     db_read env ''get_issue'' i
       (case find_issue h r i of None \<Rightarrow> Inl (StNotFound (''issue '' @ se_uuid env i)) | Some x \<Rightarrow> Inr x)"

definition update_issue_rows :: "uuid \<Rightarrow> uuid \<Rightarrow> (Issue \<Rightarrow> Issue) \<Rightarrow> hosted \<Rightarrow> hosted" where
  "update_issue_rows r i f h = h\<lparr>ho_issues := map (\<lambda>(r', x). if r' = r \<and> is_id x = i then (r', f x) else (r', x)) (ho_issues h)\<rparr>"

definition create_issue ::
  "('e) hosted_env_scheme \<Rightarrow> hosted \<Rightarrow> time \<Rightarrow> uuid \<Rightarrow> uuid \<Rightarrow> NewIssue \<Rightarrow> (StorageError, Issue) result \<times> hosted" where
  "create_issue env h now i r n =
     (let x = \<lparr>is_id = i, is_title = ni_title n, is_description = ni_description n, is_status = IOpen, is_priority = ni_priority n,
               is_labels = ni_labels n, is_creator = ni_creator n, is_resolution = None, is_agent_source = ni_agent_source n,
               is_acceptance_criteria = ni_acceptance_criteria n, is_created_at = now, is_updated_at = now\<rparr>
      in db_write env ''create_issue'' r h
           (if list_ex (\<lambda>(r', y). is_id y = i) (ho_issues h) then (Inl (StDatabase ''create_issue''), h)
            else let h' = h\<lparr>ho_issues := ho_issues h @ [(r, x)]\<rparr> in (get_issue env h' r i, h')))"

definition issue_matches :: "('e) hosted_env_scheme \<Rightarrow> hosted \<Rightarrow> IssueFilter \<Rightarrow> Issue \<Rightarrow> bool" where
  "issue_matches env h f x \<longleftrightarrow>
     (case if_status f of None \<Rightarrow> True | Some ss \<Rightarrow> ss = [] \<or> is_status x \<in> set ss) \<and>
     (case if_priority f of None \<Rightarrow> True | Some p \<Rightarrow> is_priority x = p) \<and>
     (case if_label f of None \<Rightarrow> True | Some l \<Rightarrow> list_ex (\<lambda>m. se_lower env m = se_lower env l) (is_labels x)) \<and>
     (case if_creator f of None \<Rightarrow> True | Some c \<Rightarrow> is_creator x = c) \<and>
     (case if_blocked_by f of None \<Rightarrow> True | Some b \<Rightarrow> list_ex (\<lambda>l. lk_source_id l = b \<and> lk_relationship l = ''blocks'' \<and> lk_target_id l = is_id x) (ho_links h))"

definition list_issues ::
  "('e) hosted_env_scheme \<Rightarrow> hosted \<Rightarrow> uuid \<Rightarrow> IssueFilter \<Rightarrow> ListQuery \<Rightarrow> (StorageError, Issue ListResult) result option" where
  "list_issues env h r f q =
     (let rows = filter (issue_matches env h f) (map snd (filter (\<lambda>(r', x). r' = r) (ho_issues h)));
          cols = map_of (map (\<lambda>c. (c, c)) [''created_at'', ''updated_at'', ''priority'', ''status'', ''title'', ''creator'', ''id'']);
          clause = (if sql_order_by q cols = [] then ''ORDER BY created_at DESC'' else sql_order_by q cols)
      in map_option (\<lambda>lo. db_read env ''list_issues'' r (Inr (limit_clause lo (se_order_issues env clause rows)))) (sql_limit_offset q))"

definition update_issue ::
  "('e) hosted_env_scheme \<Rightarrow> hosted \<Rightarrow> time \<Rightarrow> uuid \<Rightarrow> uuid \<Rightarrow> IssueUpdate \<Rightarrow> (StorageError, Issue) result \<times> hosted" where
  "update_issue env h now r i u =
     (case get_issue env h r i of
        Inl e \<Rightarrow> (Inl e, h)
      | Inr current \<Rightarrow>
          let f = (\<lambda>x. x\<lparr>is_title := (case iu_title u of Some t \<Rightarrow> t | None \<Rightarrow> is_title current),
                is_description := (case iu_description u of Some d \<Rightarrow> d | None \<Rightarrow> is_description current),
                is_priority := (case iu_priority u of Some p \<Rightarrow> p | None \<Rightarrow> is_priority current),
                is_labels := (case iu_labels u of Some l \<Rightarrow> l | None \<Rightarrow> is_labels current),
                is_status := (case iu_status u of Some s \<Rightarrow> s | None \<Rightarrow> is_status current),
                is_resolution := (case iu_resolution u of Some s \<Rightarrow> Some s | None \<Rightarrow> is_resolution current),
                is_acceptance_criteria := (case iu_acceptance_criteria u of Some c \<Rightarrow> c | None \<Rightarrow> is_acceptance_criteria current),
                is_updated_at := now\<rparr>)
          in db_write env ''update_issue'' i h (let h' = update_issue_rows r i f h in (get_issue env h' r i, h')))"

definition close_issue ::
  "('e) hosted_env_scheme \<Rightarrow> hosted \<Rightarrow> time \<Rightarrow> uuid \<Rightarrow> uuid \<Rightarrow> string \<Rightarrow> (StorageError, Issue) result \<times> hosted" where
  "close_issue env h now r i resolution =
     db_write env ''close_issue'' i h
       (let h' = update_issue_rows r i (\<lambda>x. x\<lparr>is_status := IClosed, is_resolution := Some resolution, is_updated_at := now\<rparr>) h
        in (get_issue env h' r i, h'))"

end
