(* ===== verification/OrgStore.thy ===== *)
theory OrgStore
  imports HostedStore
begin

text \<open>
  Organizations, users, memberships, collaborators and the roles they give
  (\<open>src/storage/postgres/org.rs\<close>, the types in \<open>src/storage/mod.rs\<close>). The tables are lists of rows with the
  keys of the schema: ids, slugs and emails are unique, a membership is keyed by organization and user, a
  collaborator by repository and user, and both refer to existing rows. Roles are stored as text.

  An \<open>INSERT\<close> that breaks any constraint is reported as \<open>Conflict\<close>. What \<open>ORDER BY name\<close> makes of the
  rows is the database's collation, a field of the environment, as is the case folding of \<open>ILIKE\<close>.
\<close>

section \<open>Roles\<close>

datatype OrgRole = OrOwner | OrAdmin | OrMember

definition org_role_from_db :: "string \<Rightarrow> OrgRole" where
  "org_role_from_db s = (if s = ''owner'' then OrOwner else if s = ''admin'' then OrAdmin else OrMember)"

fun org_role_as_str :: "OrgRole \<Rightarrow> string" where
  "org_role_as_str OrOwner = ''owner''"
| "org_role_as_str OrAdmin = ''admin''"
| "org_role_as_str OrMember = ''member''"

datatype RepoRole = RoOwner | RoAdmin | RoWrite | RoRead

definition repo_role_from_db :: "string \<Rightarrow> RepoRole" where
  "repo_role_from_db s =
     (if s = ''owner'' then RoOwner else if s = ''admin'' then RoAdmin else if s = ''write'' then RoWrite else RoRead)"

fun repo_role_as_str :: "RepoRole \<Rightarrow> string" where
  "repo_role_as_str RoOwner = ''owner''"
| "repo_role_as_str RoAdmin = ''admin''"
| "repo_role_as_str RoWrite = ''write''"
| "repo_role_as_str RoRead = ''read''"

fun rank :: "RepoRole \<Rightarrow> nat" where
  "rank RoOwner = 4"
| "rank RoAdmin = 3"
| "rank RoWrite = 2"
| "rank RoRead = 1"

definition role_max :: "RepoRole \<Rightarrow> RepoRole \<Rightarrow> RepoRole" where
  "role_max a b = (if rank b \<le> rank a then a else b)"

section \<open>Tables\<close>

record Organization =
  og_id :: uuid
  og_name :: string
  og_slug :: string
  og_created_at :: time

record User =
  us_id :: uuid
  us_email :: string
  us_name :: string
  us_created_at :: time

record OrgMember =
  om_org_id :: uuid
  om_user_id :: uuid
  om_role :: OrgRole
  om_created_at :: time

record RepoCollaborator =
  rc_repo_id :: uuid
  rc_user_id :: uuid
  rc_role :: RepoRole
  rc_created_at :: time

record RepoMember =
  rm_id :: string
  rm_name :: string
  rm_member_type :: string

record NewOrg =
  no_name :: string
  no_slug :: string

record NewUser =
  nu_email :: string
  nu_name :: string

text \<open>The rows of a membership table: the two keys, the role as stored, the creation time.\<close>

record grant_row =
  gr_owner :: uuid
  gr_user :: uuid
  gr_role :: string
  gr_at :: time

record org_repo =
  or_id :: uuid
  or_name :: string
  or_org_id :: "uuid option"
  or_created_at :: time

text \<open>The columns of \<open>api_keys\<close> that the member search reads.\<close>

record agent_key =
  gk_id :: string
  gk_name :: string
  gk_repo_id :: "uuid option"
  gk_revoked :: bool

record org_db =
  od_orgs :: "Organization list"
  od_users :: "User list"
  od_members :: "grant_row list"
  od_collaborators :: "grant_row list"
  od_repos :: "org_repo list"

record org_env = hosted_env +
  oe_sort_names :: "string list \<Rightarrow> string list"
  oe_quote :: "string \<Rightarrow> string"

definition member_of_row :: "grant_row \<Rightarrow> OrgMember" where
  "member_of_row g = \<lparr>om_org_id = gr_owner g, om_user_id = gr_user g, om_role = org_role_from_db (gr_role g), om_created_at = gr_at g\<rparr>"

definition collaborator_of_row :: "grant_row \<Rightarrow> RepoCollaborator" where
  "collaborator_of_row g = \<lparr>rc_repo_id = gr_owner g, rc_user_id = gr_user g, rc_role = repo_role_from_db (gr_role g), rc_created_at = gr_at g\<rparr>"

text \<open>The row of a membership table under its key, and the \<open>UPDATE\<close> and \<open>DELETE\<close> of that row.\<close>

definition grant_at :: "uuid \<Rightarrow> uuid \<Rightarrow> grant_row \<Rightarrow> bool" where
  "grant_at k u g \<longleftrightarrow> gr_owner g = k \<and> gr_user g = u"

definition find_grant :: "grant_row list \<Rightarrow> uuid \<Rightarrow> uuid \<Rightarrow> grant_row option" where
  "find_grant gs k u = find (grant_at k u) gs"

definition set_grant :: "grant_row list \<Rightarrow> uuid \<Rightarrow> uuid \<Rightarrow> string \<Rightarrow> grant_row list" where
  "set_grant gs k u role = map (\<lambda>g. if grant_at k u g then g\<lparr>gr_role := role\<rparr> else g) gs"

definition del_grant :: "grant_row list \<Rightarrow> uuid \<Rightarrow> uuid \<Rightarrow> grant_row list" where
  "del_grant gs k u = filter (\<lambda>g. \<not> grant_at k u g) gs"

section \<open>Organizations\<close>

definition create_org ::
  "('e) org_env_scheme \<Rightarrow> org_db \<Rightarrow> uuid \<Rightarrow> time \<Rightarrow> NewOrg \<Rightarrow> (StorageError, Organization) result \<times> org_db" where
  "create_org env d i now n =
     (let o' = \<lparr>og_id = i, og_name = no_name n, og_slug = no_slug n, og_created_at = now\<rparr>
      in db_write env ''create_org'' 0 d
           (if list_ex (\<lambda>x. og_slug x = no_slug n \<or> og_id x = i) (od_orgs d)
            then (Inl (StConflict (''slug '' @ oe_quote env (no_slug n) @ '' already exists'')), d)
            else (Inr o', d\<lparr>od_orgs := od_orgs d @ [o']\<rparr>)))"

definition get_org :: "('e) org_env_scheme \<Rightarrow> org_db \<Rightarrow> uuid \<Rightarrow> (StorageError, Organization) result" where
  "get_org env d i =
     db_read env ''get_org'' i
       (case find (\<lambda>x. og_id x = i) (od_orgs d) of None \<Rightarrow> Inl (StNotFound (''org '' @ se_uuid env i)) | Some x \<Rightarrow> Inr x)"

definition get_org_by_slug :: "('e) org_env_scheme \<Rightarrow> org_db \<Rightarrow> string \<Rightarrow> (StorageError, Organization) result" where
  "get_org_by_slug env d s =
     db_read env ''get_org_by_slug'' 0
       (case find (\<lambda>x. og_slug x = s) (od_orgs d) of
          None \<Rightarrow> Inl (StNotFound (''org with slug '' @ oe_quote env s)) | Some x \<Rightarrow> Inr x)"

text \<open>Rows whose sort keys come in the given order, equal keys in table order.\<close>

definition order_by :: "('a \<Rightarrow> string) \<Rightarrow> string list \<Rightarrow> 'a list \<Rightarrow> 'a list" where
  "order_by key names xs = concat (map (\<lambda>n. filter (\<lambda>x. key x = n) xs) (remdups names))"

definition list_orgs :: "('e) org_env_scheme \<Rightarrow> org_db \<Rightarrow> (StorageError, Organization list) result" where
  "list_orgs env d =
     db_read env ''list_orgs'' 0 (Inr (order_by og_name (oe_sort_names env (map og_name (od_orgs d))) (od_orgs d)))"

text \<open>The memberships go with the organization; \<open>repos.org_id\<close> refers to nothing, so the repositories stay.\<close>

definition delete_org :: "('e) org_env_scheme \<Rightarrow> org_db \<Rightarrow> uuid \<Rightarrow> (StorageError, unit) result \<times> org_db" where
  "delete_org env d i =
     db_write env ''delete_org'' i d
       (if list_ex (\<lambda>x. og_id x = i) (od_orgs d)
        then (Inr (), d\<lparr>od_orgs := filter (\<lambda>x. og_id x \<noteq> i) (od_orgs d), od_members := filter (\<lambda>g. gr_owner g \<noteq> i) (od_members d)\<rparr>)
        else (Inl (StNotFound (''org '' @ se_uuid env i)), d))"

section \<open>Users\<close>

definition create_user ::
  "('e) org_env_scheme \<Rightarrow> org_db \<Rightarrow> uuid \<Rightarrow> time \<Rightarrow> NewUser \<Rightarrow> (StorageError, User) result \<times> org_db" where
  "create_user env d i now n =
     (let u = \<lparr>us_id = i, us_email = nu_email n, us_name = nu_name n, us_created_at = now\<rparr>
      in db_write env ''create_user'' 0 d
           (if list_ex (\<lambda>x. us_email x = nu_email n \<or> us_id x = i) (od_users d)
            then (Inl (StConflict (''email '' @ oe_quote env (nu_email n) @ '' already exists'')), d)
            else (Inr u, d\<lparr>od_users := od_users d @ [u]\<rparr>)))"

definition get_user :: "('e) org_env_scheme \<Rightarrow> org_db \<Rightarrow> uuid \<Rightarrow> (StorageError, User) result" where
  "get_user env d i =
     db_read env ''get_user'' i
       (case find (\<lambda>x. us_id x = i) (od_users d) of None \<Rightarrow> Inl (StNotFound (''user '' @ se_uuid env i)) | Some x \<Rightarrow> Inr x)"

definition get_user_by_email :: "('e) org_env_scheme \<Rightarrow> org_db \<Rightarrow> string \<Rightarrow> (StorageError, User) result" where
  "get_user_by_email env d e =
     db_read env ''get_user_by_email'' 0
       (case find (\<lambda>x. us_email x = e) (od_users d) of
          None \<Rightarrow> Inl (StNotFound (''user with email '' @ oe_quote env e)) | Some x \<Rightarrow> Inr x)"

section \<open>Memberships\<close>

definition org_exists :: "org_db \<Rightarrow> uuid \<Rightarrow> bool" where
  "org_exists d i \<longleftrightarrow> list_ex (\<lambda>x. og_id x = i) (od_orgs d)"

definition user_exists :: "org_db \<Rightarrow> uuid \<Rightarrow> bool" where
  "user_exists d i \<longleftrightarrow> list_ex (\<lambda>x. us_id x = i) (od_users d)"

definition repo_exists :: "org_db \<Rightarrow> uuid \<Rightarrow> bool" where
  "repo_exists d i \<longleftrightarrow> list_ex (\<lambda>x. or_id x = i) (od_repos d)"

text \<open>
  The insertion breaks the primary key when the row is there, and a foreign key when the organization or
  the user is not: the error is the same.
\<close>

definition add_org_member ::
  "('e) org_env_scheme \<Rightarrow> org_db \<Rightarrow> time \<Rightarrow> uuid \<Rightarrow> uuid \<Rightarrow> OrgRole \<Rightarrow> (StorageError, OrgMember) result \<times> org_db" where
  "add_org_member env d now k u role =
     (let g = \<lparr>gr_owner = k, gr_user = u, gr_role = org_role_as_str role, gr_at = now\<rparr>
      in db_write env ''add_org_member'' k d
           (if find_grant (od_members d) k u \<noteq> None \<or> \<not> org_exists d k \<or> \<not> user_exists d u
            then (Inl (StConflict (''user '' @ se_uuid env u @ '' is already a member of org '' @ se_uuid env k)), d)
            else (Inr (member_of_row g), d\<lparr>od_members := od_members d @ [g]\<rparr>)))"

definition membership_not_found :: "('e) org_env_scheme \<Rightarrow> uuid \<Rightarrow> uuid \<Rightarrow> StorageError" where
  "membership_not_found env k u = StNotFound (''membership for user '' @ se_uuid env u @ '' in org '' @ se_uuid env k)"

definition update_org_member ::
  "('e) org_env_scheme \<Rightarrow> org_db \<Rightarrow> uuid \<Rightarrow> uuid \<Rightarrow> OrgRole \<Rightarrow> (StorageError, OrgMember) result \<times> org_db" where
  "update_org_member env d k u role =
     db_write env ''update_org_member'' k d
       (case find_grant (od_members d) k u of
          None \<Rightarrow> (Inl (membership_not_found env k u), d)
        | Some g \<Rightarrow> (Inr (member_of_row (g\<lparr>gr_role := org_role_as_str role\<rparr>)),
                     d\<lparr>od_members := set_grant (od_members d) k u (org_role_as_str role)\<rparr>))"

definition remove_org_member :: "('e) org_env_scheme \<Rightarrow> org_db \<Rightarrow> uuid \<Rightarrow> uuid \<Rightarrow> (StorageError, unit) result \<times> org_db" where
  "remove_org_member env d k u =
     db_write env ''remove_org_member'' k d
       (if find_grant (od_members d) k u = None then (Inl (membership_not_found env k u), d)
        else (Inr (), d\<lparr>od_members := del_grant (od_members d) k u\<rparr>))"

definition list_org_members :: "('e) org_env_scheme \<Rightarrow> org_db \<Rightarrow> uuid \<Rightarrow> (StorageError, OrgMember list) result" where
  "list_org_members env d k =
     db_read env ''list_org_members'' k (Inr (map member_of_row (sort_key gr_at (filter (\<lambda>g. gr_owner g = k) (od_members d)))))"

definition get_repo_id_in_org :: "('e) org_env_scheme \<Rightarrow> org_db \<Rightarrow> uuid \<Rightarrow> string \<Rightarrow> (StorageError, uuid) result" where
  "get_repo_id_in_org env d k name =
     db_read env ''get_repo_id_in_org'' k
       (case find (\<lambda>x. or_org_id x = Some k \<and> or_name x = name) (od_repos d) of
          Some x \<Rightarrow> Inr (or_id x)
        | None \<Rightarrow> Inl (StNotFound (''repo '' @ oe_quote env name @ '' not found in org'')))"

section \<open>Collaborators\<close>

definition add_collaborator ::
  "('e) org_env_scheme \<Rightarrow> org_db \<Rightarrow> time \<Rightarrow> uuid \<Rightarrow> uuid \<Rightarrow> RepoRole \<Rightarrow> (StorageError, RepoCollaborator) result \<times> org_db" where
  "add_collaborator env d now r u role =
     (let g = \<lparr>gr_owner = r, gr_user = u, gr_role = repo_role_as_str role, gr_at = now\<rparr>
      in db_write env ''add_collaborator'' r d
           (if find_grant (od_collaborators d) r u \<noteq> None \<or> \<not> repo_exists d r \<or> \<not> user_exists d u
            then (Inl (StConflict (''user '' @ se_uuid env u @ '' is already a collaborator on repo '' @ se_uuid env r)), d)
            else (Inr (collaborator_of_row g), d\<lparr>od_collaborators := od_collaborators d @ [g]\<rparr>)))"

definition collaborator_not_found :: "('e) org_env_scheme \<Rightarrow> uuid \<Rightarrow> uuid \<Rightarrow> StorageError" where
  "collaborator_not_found env r u = StNotFound (''collaborator '' @ se_uuid env u @ '' on repo '' @ se_uuid env r)"

definition update_collaborator ::
  "('e) org_env_scheme \<Rightarrow> org_db \<Rightarrow> uuid \<Rightarrow> uuid \<Rightarrow> RepoRole \<Rightarrow> (StorageError, RepoCollaborator) result \<times> org_db" where
  "update_collaborator env d r u role =
     db_write env ''update_collaborator'' r d
       (case find_grant (od_collaborators d) r u of
          None \<Rightarrow> (Inl (collaborator_not_found env r u), d)
        | Some g \<Rightarrow> (Inr (collaborator_of_row (g\<lparr>gr_role := repo_role_as_str role\<rparr>)),
                     d\<lparr>od_collaborators := set_grant (od_collaborators d) r u (repo_role_as_str role)\<rparr>))"

definition remove_collaborator :: "('e) org_env_scheme \<Rightarrow> org_db \<Rightarrow> uuid \<Rightarrow> uuid \<Rightarrow> (StorageError, unit) result \<times> org_db" where
  "remove_collaborator env d r u =
     db_write env ''remove_collaborator'' r d
       (if find_grant (od_collaborators d) r u = None then (Inl (collaborator_not_found env r u), d)
        else (Inr (), d\<lparr>od_collaborators := del_grant (od_collaborators d) r u\<rparr>))"

definition list_collaborators :: "('e) org_env_scheme \<Rightarrow> org_db \<Rightarrow> uuid \<Rightarrow> (StorageError, RepoCollaborator list) result" where
  "list_collaborators env d r =
     db_read env ''list_collaborators'' r
       (Inr (map collaborator_of_row (sort_key gr_at (filter (\<lambda>g. gr_owner g = r) (od_collaborators d)))))"

text \<open>\<open>LIKE\<close>: \<open>%\<close> matches any sequence, \<open>_\<close> any character, a backslash takes the next one literally.\<close>

fun like :: "string \<Rightarrow> string \<Rightarrow> bool" where
  "like [] s = (s = [])"
| "like (p # ps) s =
     (if p = CHR ''%'' then like ps s \<or> (case s of [] \<Rightarrow> False | c # cs \<Rightarrow> like (p # ps) cs)
      else if p = CHR ''_'' then (case s of [] \<Rightarrow> False | c # cs \<Rightarrow> like ps cs)
      else if p = CHR 0x5C then
        (case ps of [] \<Rightarrow> False | q # qs \<Rightarrow> (case s of [] \<Rightarrow> False | c # cs \<Rightarrow> q = c \<and> like qs cs))
      else (case s of [] \<Rightarrow> False | c # cs \<Rightarrow> p = c \<and> like ps cs))"

definition ilike :: "('e) org_env_scheme \<Rightarrow> string \<Rightarrow> string \<Rightarrow> bool" where
  "ilike env s pat = like (se_lower env pat) (se_lower env s)"

definition human :: "('e) org_env_scheme \<Rightarrow> User \<Rightarrow> RepoMember" where
  "human env u = \<lparr>rm_id = se_uuid env (us_id u), rm_name = us_name u, rm_member_type = ''human''\<rparr>"

definition search_repo_members ::
  "('e) org_env_scheme \<Rightarrow> org_db \<Rightarrow> agent_key list \<Rightarrow> uuid \<Rightarrow> string \<Rightarrow> nat \<Rightarrow> (StorageError, RepoMember list) result" where
  "search_repo_members env d keys r query limit =
     (let pat = query @ ''%'';
          hit = (\<lambda>u. ilike env (us_name u) pat \<or> ilike env (us_email u) pat);
          direct = map (human env) (filter (\<lambda>u. hit u \<and> find_grant (od_collaborators d) r (us_id u) \<noteq> None) (od_users d));
          orgs = List.map_filter or_org_id (filter (\<lambda>x. or_id x = r) (od_repos d));
          members = map (human env) (filter (\<lambda>u. hit u \<and> list_ex (\<lambda>k. find_grant (od_members d) k (us_id u) \<noteq> None) orgs) (od_users d));
          agents = map (\<lambda>k. \<lparr>rm_id = gk_id k, rm_name = gk_name k, rm_member_type = ''agent''\<rparr>)
            (filter (\<lambda>k. gk_repo_id k = Some r \<and> \<not> gk_revoked k \<and> ilike env (gk_name k) pat) keys);
          rows = remdups (direct @ members @ agents)
      in db_read env ''search_repo_members'' r (Inr (take limit (order_by rm_name (oe_sort_names env (map rm_name rows)) rows))))"

definition list_repo_ids_for_org :: "('e) org_env_scheme \<Rightarrow> org_db \<Rightarrow> uuid \<Rightarrow> (StorageError, uuid list) result" where
  "list_repo_ids_for_org env d k =
     db_read env ''list_repo_ids_for_org'' k (Inr (map or_id (sort_key or_created_at (filter (\<lambda>x. or_org_id x = Some k) (od_repos d)))))"

definition list_all_repo_ids :: "('e) org_env_scheme \<Rightarrow> org_db \<Rightarrow> (StorageError, uuid list) result" where
  "list_all_repo_ids env d = db_read env ''list_all_repo_ids'' 0 (Inr (map or_id (sort_key or_created_at (od_repos d))))"

definition count_collaborator_repos :: "('e) org_env_scheme \<Rightarrow> org_db \<Rightarrow> uuid \<Rightarrow> (StorageError, nat) result" where
  "count_collaborator_repos env d u =
     db_read env ''count_collaborator_repos'' u (Inr (length (filter (\<lambda>g. gr_user g = u) (od_collaborators d))))"

definition count_repos_owned_by_user :: "('e) org_env_scheme \<Rightarrow> org_db \<Rightarrow> uuid \<Rightarrow> (StorageError, nat) result" where
  "count_repos_owned_by_user env d u =
     db_read env ''count_repos_owned_by_user'' u
       (Inr (length (filter (\<lambda>g. gr_user g = u \<and> gr_role g = ''admin'') (od_collaborators d))))"

section \<open>The role of a user on a repository\<close>

definition org_derived_role :: "string option \<Rightarrow> RepoRole option" where
  "org_derived_role s = (if s = Some ''owner'' then Some RoOwner else if s = Some ''admin'' then Some RoAdmin else None)"

definition resolve_repo_role ::
  "('e) org_env_scheme \<Rightarrow> org_db \<Rightarrow> uuid \<Rightarrow> uuid \<Rightarrow> (StorageError, RepoRole option) result" where
  "resolve_repo_role env d u r =
     db_read env ''resolve_repo_role'' r
       (case find (\<lambda>x. or_id x = r) (od_repos d) of
          None \<Rightarrow> Inr None
        | Some x \<Rightarrow>
            let org_role = (case or_org_id x of None \<Rightarrow> None | Some k \<Rightarrow> map_option gr_role (find_grant (od_members d) k u));
                org_derived = org_derived_role org_role;
                direct = map_option (\<lambda>g. repo_role_from_db (gr_role g)) (find_grant (od_collaborators d) r u)
            in Inr (case (org_derived, direct) of
                      (Some a, Some b) \<Rightarrow> Some (role_max a b)
                    | (Some a, None) \<Rightarrow> Some a
                    | (None, x) \<Rightarrow> x))"

text \<open>
  The upsert gives back the organization of that slug or inserts it; the second statement makes the user its
  owner unless a membership is there.
\<close>

definition upsert_org :: "org_db \<Rightarrow> Organization \<Rightarrow> (Organization \<times> org_db) option" where
  "upsert_org d o' =
     (case find (\<lambda>x. og_slug x = og_slug o') (od_orgs d) of
        Some x \<Rightarrow> Some (x, d)
      | None \<Rightarrow> if org_exists d (og_id o') then None else Some (o', d\<lparr>od_orgs := od_orgs d @ [o']\<rparr>))"

definition get_or_create_personal_org ::
  "('e) org_env_scheme \<Rightarrow> org_db \<Rightarrow> uuid \<Rightarrow> time \<Rightarrow> uuid \<Rightarrow> string \<Rightarrow> (StorageError, Organization) result \<times> org_db" where
  "get_or_create_personal_org env d i now u user_name =
     (let o' = \<lparr>og_id = i, og_name = user_name, og_slug = ''user-'' @ se_uuid env u, og_created_at = now\<rparr>
      in case (if se_down env ''personal_org'' u then None else upsert_org d o') of
           None \<Rightarrow> (Inl (StDatabase ''personal_org''), d)
         | Some (x, d1) \<Rightarrow>
             if se_down env ''personal_org_member'' u \<or> \<not> user_exists d1 u then (Inl (StDatabase ''personal_org_member''), d1)
             else (Inr x, (if find_grant (od_members d1) (og_id x) u \<noteq> None then d1
                    else d1\<lparr>od_members := od_members d1 @ [\<lparr>gr_owner = og_id x, gr_user = u, gr_role = ''owner'', gr_at = now\<rparr>]\<rparr>)))"

section \<open>Keys and references\<close>

definition grant_keys :: "grant_row list \<Rightarrow> (uuid \<times> uuid) list" where
  "grant_keys gs = map (\<lambda>g. (gr_owner g, gr_user g)) gs"

definition org_keys :: "org_db \<Rightarrow> bool" where
  "org_keys d \<longleftrightarrow>
     distinct (map og_id (od_orgs d)) \<and> distinct (map og_slug (od_orgs d)) \<and>
     distinct (map us_id (od_users d)) \<and> distinct (map us_email (od_users d)) \<and>
     distinct (grant_keys (od_members d)) \<and> distinct (grant_keys (od_collaborators d)) \<and>
     set (grant_keys (od_members d)) \<subseteq> og_id ` set (od_orgs d) \<times> us_id ` set (od_users d) \<and>
     set (grant_keys (od_collaborators d)) \<subseteq> or_id ` set (od_repos d) \<times> us_id ` set (od_users d)"

lemma find_grant_None: "find_grant gs k u = None \<longleftrightarrow> (k, u) \<notin> set (grant_keys gs)"
  by (auto simp: find_grant_def find_None_iff grant_at_def grant_keys_def)

lemma find_grant_Some: "find_grant gs k u = Some g \<Longrightarrow> g \<in> set gs \<and> gr_owner g = k \<and> gr_user g = u"
  by (auto simp: find_grant_def find_Some_iff grant_at_def)

lemma grant_keys_append [simp]: "grant_keys (gs @ hs) = grant_keys gs @ grant_keys hs" by (simp add: grant_keys_def)

lemma grant_keys_set [simp]: "grant_keys (set_grant gs k u role) = grant_keys gs"
  by (auto simp: grant_keys_def set_grant_def)

lemma grant_keys_filter: "set (grant_keys (filter P gs)) \<subseteq> set (grant_keys gs)" by (auto simp: grant_keys_def)

lemma distinct_grant_filter: "distinct (grant_keys gs) \<Longrightarrow> distinct (grant_keys (filter P gs))"
  by (simp add: grant_keys_def distinct_map_filter)

lemma find_grant_set:
  "find_grant (set_grant gs k u role) k' u' =
     (if k' = k \<and> u' = u then map_option (\<lambda>g. g\<lparr>gr_role := role\<rparr>) (find_grant gs k u) else find_grant gs k' u')"
  by (induction gs) (auto simp: find_grant_def set_grant_def grant_at_def)

lemma find_grant_append:
  "find_grant (gs @ hs) k u = (case find_grant gs k u of None \<Rightarrow> find_grant hs k u | Some g \<Rightarrow> Some g)"
  by (induction gs) (auto simp: find_grant_def)

lemma find_grant_del: "find_grant (del_grant gs k u) k' u' = (if k' = k \<and> u' = u then None else find_grant gs k' u')"
  by (induction gs) (auto simp: find_grant_def del_grant_def grant_at_def)

lemma exists_iff [simp]:
  "org_exists d i \<longleftrightarrow> i \<in> og_id ` set (od_orgs d)" "user_exists d i \<longleftrightarrow> i \<in> us_id ` set (od_users d)"
  "repo_exists d i \<longleftrightarrow> i \<in> or_id ` set (od_repos d)"
  by (auto simp: org_exists_def user_exists_def repo_exists_def list_ex_iff)

text \<open>The operations that change the tables, as the requests of a client.\<close>

datatype org_op =
    OpCreateOrg uuid NewOrg | OpDeleteOrg uuid | OpCreateUser uuid NewUser
  | OpAddMember uuid uuid OrgRole | OpUpdateMember uuid uuid OrgRole | OpRemoveMember uuid uuid
  | OpAddCollaborator uuid uuid RepoRole | OpUpdateCollaborator uuid uuid RepoRole | OpRemoveCollaborator uuid uuid
  | OpPersonalOrg uuid uuid string

fun org_step :: "('e) org_env_scheme \<Rightarrow> org_db \<Rightarrow> time \<times> org_op \<Rightarrow> org_db" where
  "org_step env d (now, OpCreateOrg i n) = snd (create_org env d i now n)"
| "org_step env d (now, OpDeleteOrg i) = snd (delete_org env d i)"
| "org_step env d (now, OpCreateUser i n) = snd (create_user env d i now n)"
| "org_step env d (now, OpAddMember k u r) = snd (add_org_member env d now k u r)"
| "org_step env d (now, OpUpdateMember k u r) = snd (update_org_member env d k u r)"
| "org_step env d (now, OpRemoveMember k u) = snd (remove_org_member env d k u)"
| "org_step env d (now, OpAddCollaborator k u r) = snd (add_collaborator env d now k u r)"
| "org_step env d (now, OpUpdateCollaborator k u r) = snd (update_collaborator env d k u r)"
| "org_step env d (now, OpRemoveCollaborator k u) = snd (remove_collaborator env d k u)"
| "org_step env d (now, OpPersonalOrg i u nm) = snd (get_or_create_personal_org env d i now u nm)"

definition org_run :: "('e) org_env_scheme \<Rightarrow> org_db \<Rightarrow> (time \<times> org_op) list \<Rightarrow> org_db" where
  "org_run env d ops = foldl (org_step env) d ops"

lemma snd_db_write: "snd (db_write env op key h r) = (if se_down env op key then h else snd r)"
  by (simp add: db_write_def)

lemma grant_keys_single [simp]: "grant_keys [g] = [(gr_owner g, gr_user g)]" by (simp add: grant_keys_def)

lemma upsert_org_keys: "org_keys d \<Longrightarrow> upsert_org d o' = Some (x, d1) \<Longrightarrow> org_keys d1 \<and> og_id x \<in> og_id ` set (od_orgs d1)"
  by (auto simp: upsert_org_def org_keys_def find_Some_iff find_None_iff split: option.splits if_splits) blast

lemma org_step_keys: "org_keys d \<Longrightarrow> org_keys (org_step env d op)"
proof (induction env d op rule: org_step.induct)
  case (2 env d now i)
  then show ?case using grant_keys_filter [of "\<lambda>g. gr_owner g \<noteq> i" "od_members d"]
    by (auto simp: org_keys_def delete_org_def snd_db_write distinct_map_filter distinct_grant_filter grant_keys_def)
next
  case (6 env d now k u)
  then show ?case using grant_keys_filter [of "\<lambda>g. \<not> grant_at k u g" "od_members d"]
    by (auto simp: org_keys_def remove_org_member_def snd_db_write del_grant_def distinct_grant_filter)
next
  case (9 env d now k u)
  then show ?case using grant_keys_filter [of "\<lambda>g. \<not> grant_at k u g" "od_collaborators d"]
    by (auto simp: org_keys_def remove_collaborator_def snd_db_write del_grant_def distinct_grant_filter)
next
  case (10 env d now i u nm)
  then show ?case using upsert_org_keys [of d]
    by (fastforce simp: get_or_create_personal_org_def Let_def org_keys_def find_grant_None split: option.split)
qed (auto simp: org_keys_def create_org_def create_user_def add_org_member_def update_org_member_def add_collaborator_def
    update_collaborator_def snd_db_write Let_def list_ex_iff find_grant_None split: option.split)

lemma org_run_keys: "org_keys d \<Longrightarrow> org_keys (org_run env d ops)"
  unfolding org_run_def by (induction ops arbitrary: d) (simp_all add: org_step_keys)


definition sample_org_env :: org_env where
  "sample_org_env = \<lparr>se_uuid = nat_to_string, se_down = (\<lambda>op key. False), se_lower = to_lowercase, se_order_issues = (\<lambda>c xs. xs),
     se_order_workspaces = (\<lambda>c xs. xs), se_order_workers = (\<lambda>c xs. xs), oe_sort_names = (\<lambda>xs. xs), oe_quote = (\<lambda>s. s)\<rparr>"

definition empty_org_db :: org_db where
  "empty_org_db = \<lparr>od_orgs = [], od_users = [], od_members = [], od_collaborators = [], od_repos = [\<lparr>or_id = 5, or_name = ''demo'', or_org_id = Some 1, or_created_at = 0\<rparr>]\<rparr>"


end
