(* ===== verification/Auth.thy ===== *)
theory Auth
  imports OrgStore
begin

text \<open>
  Authentication and authorization of the hosted server: the errors of the HTTP layer, the JWT service
  (\<open>src/auth/jwt.rs\<close>), the keys, refresh tokens and device codes of the database
  (\<open>src/storage/postgres/auth.rs\<close>), the local key file (\<open>src/auth/mod.rs\<close>), the token and device-code
  handlers (\<open>src/server/auth.rs\<close>), the authentication middleware and the permission check of
  \<open>src/server/mod.rs\<close>, and the authentication of a WebSocket (\<open>src/server/ws.rs\<close>).

  The hash of a token (the \<open>sha2\<close> crate), the encoding and decoding of a signed token (the
  \<open>jsonwebtoken\<close> crate) and the parser of UUIDs are fields of the environment. Random tokens and fresh
  identifiers are arguments of the operations that draw them. A timestamp counts seconds.
\<close>

section \<open>Errors of the HTTP layer\<close>

datatype custom_json = CjWorkspaceEmpty | CjQuotaExceeded nat nat

record ApiError =
  ae_status :: nat
  ae_message :: string
  ae_custom_json :: "custom_json option"

definition api_error :: "nat \<Rightarrow> string \<Rightarrow> ApiError" where
  "api_error status msg = \<lparr>ae_status = status, ae_message = msg, ae_custom_json = None\<rparr>"

definition api_not_found :: "string \<Rightarrow> ApiError" where "api_not_found = api_error 404"
definition api_conflict :: "string \<Rightarrow> ApiError" where "api_conflict = api_error 409"
definition api_internal :: "string \<Rightarrow> ApiError" where "api_internal msg = api_error 500 ''Internal server error''"
definition api_unauthorized :: "string \<Rightarrow> ApiError" where "api_unauthorized = api_error 401"
definition api_bad_request :: "string \<Rightarrow> ApiError" where "api_bad_request = api_error 400"
definition api_rate_limited :: "string \<Rightarrow> ApiError" where "api_rate_limited = api_error 429"
definition api_forbidden :: "string \<Rightarrow> ApiError" where "api_forbidden = api_error 403"
definition api_payload_too_large :: "string \<Rightarrow> ApiError" where "api_payload_too_large = api_error 413"

definition api_workspace_empty :: ApiError where
  "api_workspace_empty =
     \<lparr>ae_status = 409, ae_message = ''workspace has no file changes to submit'', ae_custom_json = Some CjWorkspaceEmpty\<rparr>"

definition api_quota_exceeded :: "nat \<Rightarrow> nat \<Rightarrow> ApiError" where
  "api_quota_exceeded limit current =
     \<lparr>ae_status = 403, ae_message = ''repo quota exceeded'', ae_custom_json = Some (CjQuotaExceeded limit current)\<rparr>"

fun storage_error_text :: "StorageError \<Rightarrow> string" where
  "storage_error_text (StNotFound s) = ''not found: '' @ s"
| "storage_error_text (StConflict s) = ''conflict: '' @ s"
| "storage_error_text (StInvalidTransition s) = ''invalid state transition: '' @ s"
| "storage_error_text (StDatabase s) = ''database error: '' @ s"
| "storage_error_text (StIo s) = ''I/O error: '' @ s"
| "storage_error_text (StSerialization s) = ''serialization error: '' @ s"
| "storage_error_text (StRateLimitExceeded s) = ''rate limit exceeded: '' @ s"

fun api_from_storage :: "StorageError \<Rightarrow> ApiError" where
  "api_from_storage (StNotFound s) = api_not_found (storage_error_text (StNotFound s))"
| "api_from_storage (StConflict s) = api_conflict (storage_error_text (StConflict s))"
| "api_from_storage (StInvalidTransition s) = api_bad_request (storage_error_text (StInvalidTransition s))"
| "api_from_storage e = api_internal (storage_error_text e)"

text \<open>The \<open>map_err\<close> of a handler that turns \<open>NotFound\<close> into a status of its own.\<close>

definition not_found_as :: "ApiError \<Rightarrow> StorageError \<Rightarrow> ApiError" where
  "not_found_as a e = (case e of StNotFound s \<Rightarrow> a | _ \<Rightarrow> api_from_storage e)"

definition map_error :: "('a \<Rightarrow> 'b) \<Rightarrow> ('a, 'x) result \<Rightarrow> ('b, 'x) result" where
  "map_error f r = (case r of Inl e \<Rightarrow> Inl (f e) | Inr x \<Rightarrow> Inr x)"

section \<open>The JWT service\<close>

datatype JwtError = JwtEncode string | JwtInvalid string | JwtExpired

record TokenClaims =
  tc_sub :: string
  tc_name :: "string option"
  tc_repo_id :: "string option"
  tc_role :: "string option"
  tc_iat :: nat
  tc_exp :: nat

record JwtService =
  js_current_secret :: string
  js_previous_secret :: "string option"
  js_overlap_secs :: nat
  js_access_token_ttl :: nat
  js_leeway_secs :: nat

text \<open>The errors of the decoder: \<open>ErrorKind::ExpiredSignature\<close> and every other kind.\<close>

datatype decode_error = ExpiredSignature | OtherKind string

record auth_env = org_env +
  au_hash :: "string \<Rightarrow> string"
  au_encode :: "string \<Rightarrow> TokenClaims \<Rightarrow> (string, string) result"
  au_decode :: "string \<Rightarrow> nat \<Rightarrow> time \<Rightarrow> string \<Rightarrow> (decode_error, TokenClaims) result"
  au_uuid_parse :: "string \<Rightarrow> uuid option"

definition jwt_new :: "string \<Rightarrow> string option \<Rightarrow> nat \<Rightarrow> JwtService" where
  "jwt_new current previous overlap =
     \<lparr>js_current_secret = current, js_previous_secret = previous, js_overlap_secs = overlap, js_access_token_ttl = 86400, js_leeway_secs = 30\<rparr>"

definition jwt_sign ::
  "('e) auth_env_scheme \<Rightarrow> JwtService \<Rightarrow> time \<Rightarrow> string \<Rightarrow> string option \<Rightarrow> string option \<Rightarrow> string option \<Rightarrow> (JwtError, string) result" where
  "jwt_sign env js now sub name repo_id role =
     map_error JwtEncode (au_encode env (js_current_secret js)
       \<lparr>tc_sub = sub, tc_name = name, tc_repo_id = repo_id, tc_role = role, tc_iat = now, tc_exp = now + js_access_token_ttl js\<rparr>)"

definition try_decode :: "('e) auth_env_scheme \<Rightarrow> JwtService \<Rightarrow> time \<Rightarrow> string \<Rightarrow> string \<Rightarrow> (JwtError, TokenClaims) result" where
  "try_decode env js now token secret =
     map_error (\<lambda>e. case e of ExpiredSignature \<Rightarrow> JwtExpired | OtherKind s \<Rightarrow> JwtInvalid s)
       (au_decode env secret (js_leeway_secs js) now token)"

definition jwt_verify :: "('e) auth_env_scheme \<Rightarrow> JwtService \<Rightarrow> time \<Rightarrow> string \<Rightarrow> (JwtError, TokenClaims) result" where
  "jwt_verify env js now token =
     (case try_decode env js now token (js_current_secret js) of
        Inr claims \<Rightarrow> Inr claims
      | Inl (JwtInvalid s) \<Rightarrow>
          (case js_previous_secret js of
             Some prev \<Rightarrow> try_decode env js now token prev
           | None \<Rightarrow> Inl (JwtInvalid ''invalid signature''))
      | Inl e \<Rightarrow> Inl e)"

definition resolve_jwt_service :: "(string \<rightharpoonup> string) \<Rightarrow> string \<Rightarrow> nat \<Rightarrow> JwtService \<times> bool" where
  "resolve_jwt_service var generated overlap =
     (let current = (case var ''VAI_JWT_SECRET'' of Some s \<Rightarrow> s | None \<Rightarrow> []);
          prev = (case var ''VAI_JWT_SECRET_PREV'' of Some s \<Rightarrow> if s \<noteq> [] then Some s else None | None \<Rightarrow> None)
      in if current \<noteq> [] then (jwt_new current prev overlap, False) else (jwt_new generated None overlap, True))"

section \<open>Keys, refresh tokens and device codes\<close>

record ApiKey =
  ak_id :: string
  ak_name :: string
  ak_key_prefix :: string
  ak_created_at :: time
  ak_last_used_at :: "time option"
  ak_revoked :: bool
  ak_user_id :: "uuid option"
  ak_role_override :: "string option"
  ak_agent_type :: "string option"
  ak_expires_at :: "time option"

record key_row =
  kr_key :: ApiKey
  kr_repo_id :: "uuid option"
  kr_key_hash :: string

record refresh_row =
  rt_user_id :: uuid
  rt_token_hash :: string
  rt_expires_at :: time
  rt_revoked_at :: "time option"

record device_row =
  dc_code :: string
  dc_user_id :: "uuid option"
  dc_api_key :: "string option"
  dc_expires_at :: time

record session_row =
  ss_token :: string
  ss_user_id :: string
  ss_expires_at :: time

record auth_db =
  ad_org :: org_db
  ad_keys :: "key_row list"
  ad_refresh :: "refresh_row list"
  ad_devices :: "device_row list"
  ad_sessions :: "session_row list"
  ad_last_used_cache :: "(string \<times> time) list"

definition row_to_api_key :: "key_row \<Rightarrow> ApiKey" where
  "row_to_api_key k = kr_key k"

definition update_key :: "(key_row \<Rightarrow> bool) \<Rightarrow> (ApiKey \<Rightarrow> ApiKey) \<Rightarrow> auth_db \<Rightarrow> auth_db" where
  "update_key P f d = d\<lparr>ad_keys := map (\<lambda>k. if P k then k\<lparr>kr_key := f (kr_key k)\<rparr> else k) (ad_keys d)\<rparr>"

text \<open>The row the upsert runs into: \<open>(user_id, name) WHERE NOT revoked AND user_id IS NOT NULL\<close>.\<close>

definition same_active_key :: "uuid \<Rightarrow> string \<Rightarrow> key_row \<Rightarrow> bool" where
  "same_active_key u name k \<longleftrightarrow> ak_user_id (kr_key k) = Some u \<and> ak_name (kr_key k) = name \<and> \<not> ak_revoked (kr_key k)"

definition coalesce :: "'a option \<Rightarrow> 'a option \<Rightarrow> 'a option" where
  "coalesce a b = (case a of None \<Rightarrow> b | Some x \<Rightarrow> Some x)"

definition rotate_key :: "string \<Rightarrow> string \<Rightarrow> time \<Rightarrow> string option \<Rightarrow> key_row \<Rightarrow> key_row" where
  "rotate_key h pre now role k =
     k\<lparr>kr_key_hash := h,
       kr_key := (kr_key k)\<lparr>ak_key_prefix := pre, ak_created_at := now, ak_last_used_at := None,
                            ak_role_override := coalesce (ak_role_override (kr_key k)) role\<rparr>\<rparr>"

definition key_hash_free :: "auth_db \<Rightarrow> string \<Rightarrow> bool" where
  "key_hash_free d h \<longleftrightarrow> \<not> list_ex (\<lambda>k. kr_key_hash k = h) (ad_keys d)"

definition create_key ::
  "('e) auth_env_scheme \<Rightarrow> auth_db \<Rightarrow> time \<Rightarrow> string \<Rightarrow> string \<Rightarrow> uuid option \<Rightarrow> string \<Rightarrow> uuid option \<Rightarrow>
   string option \<Rightarrow> string option \<Rightarrow> time option \<Rightarrow> (StorageError, ApiKey \<times> string) result \<times> auth_db" where
  "create_key env d now i token repo_id name user_id role_override agent_type expires_at =
     (let h = au_hash env token;
          key = \<lparr>ak_id = i, ak_name = name, ak_key_prefix = take 8 token, ak_created_at = now, ak_last_used_at = None,
                 ak_revoked = False, ak_user_id = user_id, ak_role_override = role_override, ak_agent_type = agent_type,
                 ak_expires_at = expires_at\<rparr>;
          insert_row = (if list_ex (\<lambda>k. ak_id (kr_key k) = i) (ad_keys d) then (Inl (StDatabase ''create_key''), d)
            else (Inr (key, token), d\<lparr>ad_keys := ad_keys d @ [\<lparr>kr_key = key, kr_repo_id = repo_id, kr_key_hash = h\<rparr>]\<rparr>))
      in db_write env ''create_key'' 0 d
           (if \<not> key_hash_free d h then (Inl (StDatabase ''create_key''), d)
            else case user_id of
              None \<Rightarrow> insert_row
            | Some u \<Rightarrow>
                (case find (same_active_key u name) (ad_keys d) of
                   None \<Rightarrow> insert_row
                 | Some old \<Rightarrow>
                     let new = rotate_key h (take 8 token) now role_override old
                     in (Inr (row_to_api_key new, token),
                         d\<lparr>ad_keys := map (\<lambda>k. if same_active_key u name k then rotate_key h (take 8 token) now role_override k else k) (ad_keys d)\<rparr>))))"

definition key_live :: "time \<Rightarrow> ApiKey \<Rightarrow> bool" where
  "key_live now k \<longleftrightarrow> \<not> ak_revoked k \<and> (case ak_expires_at k of None \<Rightarrow> True | Some t \<Rightarrow> now < t)"

text \<open>
  The time of use is written by a task of its own whose failure nobody sees, at most once a minute; here it
  has run when the call returns.
\<close>

definition note_key_use :: "('e) auth_env_scheme \<Rightarrow> auth_db \<Rightarrow> time \<Rightarrow> string \<Rightarrow> auth_db" where
  "note_key_use env d now i =
     (let due = (case map_of (ad_last_used_cache d) i of Some t0 \<Rightarrow> \<not> now - t0 < 60 | None \<Rightarrow> True)
      in if \<not> due then d
         else let d1 = d\<lparr>ad_last_used_cache := AList.update i now (ad_last_used_cache d)\<rparr>
              in if se_down env ''last_used_at'' 0 then d1
                 else update_key (\<lambda>k. ak_id (kr_key k) = i) (\<lambda>k. k\<lparr>ak_last_used_at := Some now\<rparr>) d1)"

definition validate_key :: "('e) auth_env_scheme \<Rightarrow> auth_db \<Rightarrow> time \<Rightarrow> string \<Rightarrow> (StorageError, ApiKey) result \<times> auth_db" where
  "validate_key env d now token =
     db_write env ''validate_key'' 0 d
       (case find (\<lambda>k. kr_key_hash k = au_hash env token \<and> key_live now (kr_key k)) (ad_keys d) of
          None \<Rightarrow> (Inl (StNotFound ''invalid or revoked API key''), d)
        | Some k \<Rightarrow> (Inr (row_to_api_key k), note_key_use env d now (ak_id (kr_key k))))"

definition list_keys :: "('e) auth_env_scheme \<Rightarrow> auth_db \<Rightarrow> uuid option \<Rightarrow> (StorageError, ApiKey list) result" where
  "list_keys env d r =
     db_read env ''list_keys'' 0
       (Inr (map row_to_api_key (sort_key (\<lambda>k. ak_created_at (kr_key k))
         (filter (\<lambda>k. kr_repo_id k = r \<and> \<not> ak_revoked (kr_key k)) (ad_keys d)))))"

definition list_keys_by_user :: "('e) auth_env_scheme \<Rightarrow> auth_db \<Rightarrow> uuid \<Rightarrow> (StorageError, ApiKey list) result" where
  "list_keys_by_user env d u =
     db_read env ''list_keys_by_user'' u
       (Inr (map row_to_api_key (sort_key (\<lambda>k. ak_created_at (kr_key k))
         (filter (\<lambda>k. ak_user_id (kr_key k) = Some u \<and> \<not> ak_revoked (kr_key k)) (ad_keys d)))))"

definition revoke_rows :: "(key_row \<Rightarrow> bool) \<Rightarrow> auth_db \<Rightarrow> auth_db" where
  "revoke_rows P d = update_key P (\<lambda>k. k\<lparr>ak_revoked := True\<rparr>) d"

definition revoke_key :: "('e) auth_env_scheme \<Rightarrow> auth_db \<Rightarrow> string \<Rightarrow> (StorageError, unit) result \<times> auth_db" where
  "revoke_key env d i = db_write env ''revoke_key'' 0 d (Inr (), revoke_rows (\<lambda>k. ak_id (kr_key k) = i) d)"

definition revoke_keys_by_repo :: "('e) auth_env_scheme \<Rightarrow> auth_db \<Rightarrow> uuid \<Rightarrow> (StorageError, nat) result \<times> auth_db" where
  "revoke_keys_by_repo env d r =
     (let P = (\<lambda>k. kr_repo_id k = Some r \<and> \<not> ak_revoked (kr_key k))
      in db_write env ''revoke_keys_by_repo'' r d (Inr (length (filter P (ad_keys d))), revoke_rows P d))"

definition revoke_keys_by_user :: "('e) auth_env_scheme \<Rightarrow> auth_db \<Rightarrow> uuid \<Rightarrow> (StorageError, nat) result \<times> auth_db" where
  "revoke_keys_by_user env d u =
     (let P = (\<lambda>k. ak_user_id (kr_key k) = Some u \<and> \<not> ak_revoked (kr_key k))
      in db_write env ''revoke_keys_by_user'' u d (Inr (length (filter P (ad_keys d))), revoke_rows P d))"

definition validate_session :: "('e) auth_env_scheme \<Rightarrow> auth_db \<Rightarrow> time \<Rightarrow> string \<Rightarrow> (StorageError, string) result" where
  "validate_session env d now token =
     db_read env ''validate_session'' 0
       (case find (\<lambda>s. ss_token s = token \<and> now < ss_expires_at s) (ad_sessions d) of
          None \<Rightarrow> Inl (StNotFound ''invalid or expired session'')
        | Some s \<Rightarrow> Inr (ss_user_id s))"

text \<open>The hash that is stored is that of the token without its prefix.\<close>

definition create_refresh_token ::
  "('e) auth_env_scheme \<Rightarrow> auth_db \<Rightarrow> string \<Rightarrow> uuid \<Rightarrow> time \<Rightarrow> (StorageError, string) result \<times> auth_db" where
  "create_refresh_token env d token u expires_at =
     (let h = au_hash env token
      in db_write env ''create_refresh_token'' u d
           (if list_ex (\<lambda>r. rt_token_hash r = h) (ad_refresh d) \<or> \<not> user_exists (ad_org d) u
            then (Inl (StDatabase ''create_refresh_token''), d)
            else (Inr (''rt_'' @ token),
                  d\<lparr>ad_refresh := ad_refresh d @ [\<lparr>rt_user_id = u, rt_token_hash = h, rt_expires_at = expires_at, rt_revoked_at = None\<rparr>]\<rparr>)))"

definition validate_refresh_token :: "('e) auth_env_scheme \<Rightarrow> auth_db \<Rightarrow> time \<Rightarrow> string \<Rightarrow> (StorageError, uuid) result" where
  "validate_refresh_token env d now token =
     db_read env ''validate_refresh_token'' 0
       (case find (\<lambda>r. rt_token_hash r = au_hash env token \<and> now < rt_expires_at r \<and> rt_revoked_at r = None) (ad_refresh d) of
          None \<Rightarrow> Inl (StNotFound ''invalid, expired, or revoked refresh token'')
        | Some r \<Rightarrow> Inr (rt_user_id r))"

definition revoke_refresh_token :: "('e) auth_env_scheme \<Rightarrow> auth_db \<Rightarrow> time \<Rightarrow> string \<Rightarrow> (StorageError, unit) result \<times> auth_db" where
  "revoke_refresh_token env d now token =
     (let P = (\<lambda>r. rt_token_hash r = au_hash env token \<and> rt_revoked_at r = None)
      in db_write env ''revoke_refresh_token'' 0 d
           (if list_ex P (ad_refresh d)
            then (Inr (), d\<lparr>ad_refresh := map (\<lambda>r. if P r then r\<lparr>rt_revoked_at := Some now\<rparr> else r) (ad_refresh d)\<rparr>)
            else (Inl (StNotFound ''refresh token not found or already revoked''), d)))"

definition code_chars :: string where
  "code_chars = ''ABCDEFGHIJKLMNOPQRSTUVWXYZ0123456789''"

text \<open>The code is drawn from the bytes of a random UUID.\<close>

definition generate_device_code :: "nat list \<Rightarrow> string" where
  "generate_device_code bs =
     map (\<lambda>i. code_chars ! ((bs ! i) mod length code_chars)) [0..<4] @ ''-'' @
     map (\<lambda>i. code_chars ! ((bs ! i) mod length code_chars)) [4..<8]"

definition create_device_code :: "('e) auth_env_scheme \<Rightarrow> auth_db \<Rightarrow> time \<Rightarrow> nat list \<Rightarrow> (StorageError, string) result \<times> auth_db" where
  "create_device_code env d now bs =
     (let code = generate_device_code bs
      in db_write env ''create_device_code'' 0 d
           (if list_ex (\<lambda>x. dc_code x = code) (ad_devices d) then (Inl (StDatabase ''create_device_code''), d)
            else (Inr code, d\<lparr>ad_devices := ad_devices d @ [\<lparr>dc_code = code, dc_user_id = None, dc_api_key = None, dc_expires_at = now + 600\<rparr>]\<rparr>)))"

datatype DeviceCodeStatus = DcPending | DcAuthorized string uuid string | DcExpired

definition delete_device_code :: "('e) auth_env_scheme \<Rightarrow> auth_db \<Rightarrow> string \<Rightarrow> auth_db" where
  "delete_device_code env d code =
     (if se_down env ''delete_device_code'' 0 then d else d\<lparr>ad_devices := filter (\<lambda>x. dc_code x \<noteq> code) (ad_devices d)\<rparr>)"

definition poll_device_code ::
  "('e) auth_env_scheme \<Rightarrow> auth_db \<Rightarrow> time \<Rightarrow> string \<Rightarrow> (StorageError, DeviceCodeStatus) result \<times> auth_db" where
  "poll_device_code env d now code =
     db_write env ''poll_device_code'' 0 d
       (case find (\<lambda>x. dc_code x = code) (ad_devices d) of
          None \<Rightarrow> (Inl (StNotFound ''device code not found''), d)
        | Some row \<Rightarrow>
            if dc_expires_at row < now then (Inr DcExpired, delete_device_code env d code)
            else (case dc_api_key row of
                    None \<Rightarrow> (Inr DcPending, d)
                  | Some key \<Rightarrow>
                      (case dc_user_id row of
                         None \<Rightarrow> (Inl (StDatabase ''device code has no user_id''), d)
                       | Some u \<Rightarrow>
                           (case find (\<lambda>x. us_id x = u) (od_users (ad_org d)) of
                              None \<Rightarrow> (Inl (StDatabase ''authorized user not found''), d)
                            | Some x \<Rightarrow> (Inr (DcAuthorized key u (us_email x)), delete_device_code env d code)))))"

definition authorize_device_code ::
  "('e) auth_env_scheme \<Rightarrow> auth_db \<Rightarrow> time \<Rightarrow> string \<Rightarrow> uuid \<Rightarrow> string \<Rightarrow> (StorageError, unit) result \<times> auth_db" where
  "authorize_device_code env d now code u key =
     (let P = (\<lambda>x. dc_code x = code \<and> now \<le> dc_expires_at x \<and> dc_api_key x = None)
      in db_write env ''authorize_device_code'' 0 d
           (if list_ex P (ad_devices d)
            then (Inr (), d\<lparr>ad_devices := map (\<lambda>x. if P x then x\<lparr>dc_user_id := Some u, dc_api_key := Some key\<rparr> else x) (ad_devices d)\<rparr>)
            else (Inl (StNotFound ''device code not found, expired, or already authorized''), d)))"

section \<open>The local key file\<close>

datatype AuthError = AeSqlite | AeNotFound string | AeDuplicate string

definition local_create ::
  "('e) auth_env_scheme \<Rightarrow> key_row list \<Rightarrow> time \<Rightarrow> string \<Rightarrow> string \<Rightarrow> string \<Rightarrow> (AuthError, ApiKey \<times> string) result \<times> key_row list" where
  "local_create env ks now i raw name =
     (let plaintext = ''vai_'' @ raw;
          key = \<lparr>ak_id = i, ak_name = name, ak_key_prefix = take 12 plaintext, ak_created_at = now, ak_last_used_at = None,
                 ak_revoked = False, ak_user_id = None, ak_role_override = None, ak_agent_type = None, ak_expires_at = None\<rparr>
      in if list_ex (\<lambda>k. ak_name (kr_key k) = name \<or> ak_id (kr_key k) = i) ks then (Inl (AeDuplicate name), ks)
         else (Inr (key, plaintext), ks @ [\<lparr>kr_key = key, kr_repo_id = None, kr_key_hash = au_hash env plaintext\<rparr>]))"

definition local_list :: "key_row list \<Rightarrow> ApiKey list" where
  "local_list ks = map kr_key (sort_key (\<lambda>k. ak_created_at (kr_key k)) ks)"

definition local_revoke :: "key_row list \<Rightarrow> string \<Rightarrow> (AuthError, unit) result \<times> key_row list" where
  "local_revoke ks name =
     (let P = (\<lambda>k. ak_name (kr_key k) = name \<and> \<not> ak_revoked (kr_key k))
      in if list_ex P ks then (Inr (), map (\<lambda>k. if P k then k\<lparr>kr_key := (kr_key k)\<lparr>ak_revoked := True\<rparr>\<rparr> else k) ks)
         else (Inl (AeNotFound name), ks))"

definition local_validate :: "('e) auth_env_scheme \<Rightarrow> key_row list \<Rightarrow> time \<Rightarrow> string \<Rightarrow> ApiKey option \<times> key_row list" where
  "local_validate env ks now plaintext =
     (case find (\<lambda>k. kr_key_hash k = au_hash env plaintext) ks of
        None \<Rightarrow> (None, ks)
      | Some k \<Rightarrow>
          if ak_revoked (kr_key k) then (None, ks)
          else (Some (kr_key k),
                map (\<lambda>x. if ak_id (kr_key x) = ak_id (kr_key k) then x\<lparr>kr_key := (kr_key x)\<lparr>ak_last_used_at := Some now\<rparr>\<rparr> else x) ks))"

section \<open>Identities\<close>

datatype AuthSource = AsJwt | AsApiKey | AsAdminKey

record AgentIdentity =
  ai_key_id :: string
  ai_name :: string
  ai_is_admin :: bool
  ai_user_id :: "uuid option"
  ai_role_override :: "string option"
  ai_jwt_repo_scope :: "uuid option"
  ai_auth_source :: AuthSource

definition jwt_identity :: "('e) auth_env_scheme \<Rightarrow> TokenClaims \<Rightarrow> AgentIdentity" where
  "jwt_identity env c =
     \<lparr>ai_key_id = ''jwt:'' @ tc_sub c, ai_name = (case tc_name c of Some n \<Rightarrow> n | None \<Rightarrow> tc_sub c),
      ai_is_admin = (tc_role c = Some ''admin''), ai_user_id = au_uuid_parse env (tc_sub c), ai_role_override = tc_role c,
      ai_jwt_repo_scope = Option.bind (tc_repo_id c) (au_uuid_parse env), ai_auth_source = AsJwt\<rparr>"

definition key_identity :: "ApiKey \<Rightarrow> AgentIdentity" where
  "key_identity k =
     \<lparr>ai_key_id = ak_id k, ai_name = ak_name k, ai_is_admin = False, ai_user_id = ak_user_id k,
      ai_role_override = ak_role_override k, ai_jwt_repo_scope = None, ai_auth_source = AsApiKey\<rparr>"

definition admin_identity :: AgentIdentity where
  "admin_identity =
     \<lparr>ai_key_id = ''admin'', ai_name = ''admin'', ai_is_admin = True, ai_user_id = None, ai_role_override = None,
      ai_jwt_repo_scope = None, ai_auth_source = AsAdminKey\<rparr>"

text \<open>The two headers the middleware reads; \<open>None\<close> also for a value that is not visible ASCII.\<close>

record auth_request =
  ar_upgrade :: "string option"
  ar_authorization :: "string option"

text \<open>The request is answered, or handed on with the identity put into its extensions, if any was.\<close>

datatype middleware_outcome = Respond ApiError | Next "AgentIdentity option"

definition is_ws_upgrade :: "auth_request \<Rightarrow> bool" where
  "is_ws_upgrade req = (case ar_upgrade req of Some s \<Rightarrow> to_lowercase s = ''websocket'' | None \<Rightarrow> False)"

definition auth_middleware ::
  "('e) auth_env_scheme \<Rightarrow> JwtService \<Rightarrow> string \<Rightarrow> auth_db \<Rightarrow> time \<Rightarrow> auth_request \<Rightarrow> middleware_outcome \<times> auth_db" where
  "auth_middleware env js admin_key d now req =
     (if is_ws_upgrade req then (Next None, d)
      else case Option.bind (ar_authorization req) (strip_prefix ''Bearer '') of
        None \<Rightarrow> (Respond (api_unauthorized ''missing or invalid Authorization header; expected `Bearer <key>`''), d)
      | Some rest \<Rightarrow>
          let key_str = trim rest
          in if CHR ''.'' \<in> set key_str
             then (case jwt_verify env js now key_str of
                     Inr claims \<Rightarrow> (Next (Some (jwt_identity env claims)), d)
                   | Inl JwtExpired \<Rightarrow> (Respond (api_unauthorized ''JWT token has expired''), d)
                   | Inl e \<Rightarrow> (Respond (api_unauthorized ''invalid JWT token''), d))
             else (case validate_key env d now key_str of
                     (Inr k, d1) \<Rightarrow> (Next (Some (key_identity k)), d1)
                   | (Inl (StNotFound s), d1) \<Rightarrow>
                       (if key_str = admin_key then (Next (Some admin_identity), d1)
                        else (Respond (api_unauthorized ''invalid or revoked API key''), d1))
                   | (Inl e, d1) \<Rightarrow> (Respond (api_internal (''auth error: '' @ storage_error_text e)), d1)))"

text \<open>The authentication of a WebSocket by its query parameter.\<close>

definition session_identity :: "User \<Rightarrow> string \<Rightarrow> AgentIdentity" where
  "session_identity u s =
     \<lparr>ai_key_id = ''session:'' @ s, ai_name = us_name u, ai_is_admin = False, ai_user_id = Some (us_id u),
      ai_role_override = None, ai_jwt_repo_scope = None, ai_auth_source = AsJwt\<rparr>"

definition ws_authenticate ::
  "('e) auth_env_scheme \<Rightarrow> JwtService \<Rightarrow> string \<Rightarrow> auth_db \<Rightarrow> time \<Rightarrow> string \<Rightarrow> (ApiError, AgentIdentity) result \<times> auth_db" where
  "ws_authenticate env js admin_key d now key_str =
     (if CHR ''.'' \<in> set key_str
      then (case jwt_verify env js now key_str of
              Inr claims \<Rightarrow> (Inr (jwt_identity env claims), d)
            | Inl JwtExpired \<Rightarrow> (Inl (api_unauthorized ''JWT token has expired''), d)
            | Inl e \<Rightarrow>
                (case validate_session env d now key_str of
                   Inl e \<Rightarrow> (Inl (api_unauthorized ''invalid JWT token''), d)
                 | Inr s \<Rightarrow>
                     (case au_uuid_parse env s of
                        None \<Rightarrow> (Inl (api_unauthorized ''invalid JWT token''), d)
                      | Some u \<Rightarrow>
                          (case get_user env (ad_org d) u of
                             Inr x \<Rightarrow> (Inr (session_identity x s), d)
                           | Inl e \<Rightarrow> (Inl (api_unauthorized ''invalid JWT token''), d)))))
      else if key_str = admin_key then (Inr admin_identity, d)
      else (case validate_key env d now key_str of
              (Inr k, d1) \<Rightarrow> (Inr (key_identity k), d1)
            | (Inl (StNotFound s), d1) \<Rightarrow> (Inl (api_unauthorized ''invalid or revoked API key''), d1)
            | (Inl e, d1) \<Rightarrow> (Inl (api_internal (''auth error: '' @ storage_error_text e)), d1)))"

section \<open>Permissions\<close>

definition require_repo_permission ::
  "('e) auth_env_scheme \<Rightarrow> org_db \<Rightarrow> bool \<Rightarrow> AgentIdentity \<Rightarrow> uuid \<Rightarrow> RepoRole \<Rightarrow> (ApiError, RepoRole) result" where
  "require_repo_permission env d is_local identity repo_id required =
     (if ai_is_admin identity then Inr RoOwner
      else if is_local then Inr RoOwner
      else if ai_role_override identity = Some ''worker''
      then (if ai_jwt_repo_scope identity = Some repo_id
            then (if required = RoAdmin \<or> required = RoOwner
                  then Inl (api_forbidden ''worker role cannot perform this action'') else Inr RoWrite)
            else Inl (api_forbidden ''worker token is not scoped to this repo''))
      else case ai_user_id identity of
        None \<Rightarrow> Inl (api_forbidden ''this key is not associated with a user; cannot check repo permissions'')
      | Some u \<Rightarrow>
          bind_result (map_error (\<lambda>e. api_internal (''permission check failed: '' @ storage_error_text e)) (resolve_repo_role env d u repo_id))
            (\<lambda>resolved. case resolved of
               None \<Rightarrow> Inl (api_forbidden ''access denied'')
             | Some r \<Rightarrow>
                 let effective = (case ai_role_override identity of
                       Some cap_str \<Rightarrow> (let cap = repo_role_from_db cap_str in if rank cap < rank r then cap else r)
                     | None \<Rightarrow> r)
                 in if rank effective < rank required then Inl (api_forbidden ''insufficient permissions'') else Inr effective))"

definition require_server_admin :: "AgentIdentity \<Rightarrow> (ApiError, unit) result" where
  "require_server_admin identity =
     (if ai_is_admin identity then Inr () else Inl (api_forbidden ''this endpoint requires the bootstrap admin key''))"

section \<open>The token and device-code endpoints\<close>

record TokenRequest =
  tq_grant_type :: string
  tq_session_token :: "string option"
  tq_api_key :: "string option"
  tq_repo_id :: "uuid option"

record TokenResponse =
  tp_access_token :: string
  tp_token_type :: string
  tp_expires_in :: nat
  tp_refresh_token :: "string option"

definition require_param :: "'a option \<Rightarrow> string \<Rightarrow> (ApiError, 'a) result" where
  "require_param p msg = (case p of None \<Rightarrow> Inl (api_bad_request msg) | Some x \<Rightarrow> Inr x)"

definition jwt_error_text :: "JwtError \<Rightarrow> string" where
  "jwt_error_text e = (case e of JwtEncode s \<Rightarrow> ''JWT encoding error: '' @ s | JwtInvalid s \<Rightarrow> ''JWT validation error: '' @ s | JwtExpired \<Rightarrow> ''JWT expired'')"

definition sign_token ::
  "('e) auth_env_scheme \<Rightarrow> JwtService \<Rightarrow> time \<Rightarrow> string \<Rightarrow> string option \<Rightarrow> uuid option \<Rightarrow> string option \<Rightarrow> (ApiError, string) result" where
  "sign_token env js now sub name repo_id role =
     map_error (\<lambda>e. api_internal (jwt_error_text e)) (jwt_sign env js now sub name (map_option (se_uuid env) repo_id) role)"

text \<open>The user behind a session, with its personal organization made sure of.\<close>

definition session_user ::
  "('e) auth_env_scheme \<Rightarrow> auth_db \<Rightarrow> time \<Rightarrow> uuid \<Rightarrow> string \<Rightarrow> (ApiError, User) result \<times> auth_db" where
  "session_user env d now org_i token =
     (let bad = api_unauthorized ''invalid or expired session token'';
          found = bind_result (map_error (not_found_as bad) (validate_session env d now token)) (\<lambda>s.
            case au_uuid_parse env s of
              None \<Rightarrow> Inl bad
            | Some u \<Rightarrow> map_error (not_found_as (api_unauthorized ''session does not correspond to a known user'')) (get_user env (ad_org d) u))
      in case found of
           Inl e \<Rightarrow> (Inl e, d)
         | Inr u \<Rightarrow> (Inr u, d\<lparr>ad_org := snd (get_or_create_personal_org env (ad_org d) org_i now (us_id u) (us_name u))\<rparr>))"

definition session_role :: "('e) auth_env_scheme \<Rightarrow> org_db \<Rightarrow> uuid \<Rightarrow> uuid option \<Rightarrow> (ApiError, string option) result" where
  "session_role env d u repo_id =
     (case repo_id of
        None \<Rightarrow> Inr None
      | Some r \<Rightarrow> bind_result (map_error api_from_storage (resolve_repo_role env d u r)) (\<lambda>role. Inr (map_option repo_role_as_str role)))"

definition session_exchange ::
  "('e) auth_env_scheme \<Rightarrow> JwtService \<Rightarrow> auth_db \<Rightarrow> time \<Rightarrow> uuid \<Rightarrow> string \<Rightarrow> string \<Rightarrow> uuid option \<Rightarrow>
   (ApiError, TokenResponse) result \<times> auth_db" where
  "session_exchange env js d now org_i rnd session_token repo_id =
     (case session_user env d now org_i session_token of
        (Inl e, d1) \<Rightarrow> (Inl e, d1)
      | (Inr user, d1) \<Rightarrow>
          (case bind_result (session_role env (ad_org d1) (us_id user) repo_id)
                  (sign_token env js now (se_uuid env (us_id user)) (Some (us_name user)) repo_id) of
             Inl e \<Rightarrow> (Inl e, d1)
           | Inr access_token \<Rightarrow>
               (case create_refresh_token env d1 rnd (us_id user) (now + 7 * 86400) of
                  (Inl e, db2) \<Rightarrow> (Inl (api_from_storage e), db2)
                | (Inr rt, db2) \<Rightarrow>
                    (Inr \<lparr>tp_access_token = access_token, tp_token_type = ''Bearer'', tp_expires_in = js_access_token_ttl js,
                          tp_refresh_token = Some rt\<rparr>, db2))))"

text \<open>The subject, the name and the role of the token that an API key buys.\<close>

definition key_grant ::
  "('e) auth_env_scheme \<Rightarrow> string \<Rightarrow> auth_db \<Rightarrow> time \<Rightarrow> string \<Rightarrow> (ApiError, string \<times> string \<times> string option) result \<times> auth_db" where
  "key_grant env admin_key d now key_str =
     (if key_str = admin_key then (Inr (''admin'', ''admin'', Some ''admin''), d)
      else case validate_key env d now key_str of
        (Inl e, d1) \<Rightarrow> (Inl (not_found_as (api_unauthorized ''invalid or revoked API key'') e), d1)
      | (Inr k, d1) \<Rightarrow> (Inr ((case ak_user_id k of Some u \<Rightarrow> se_uuid env u | None \<Rightarrow> ak_id k), ak_name k, ak_role_override k), d1))"

definition key_exchange ::
  "('e) auth_env_scheme \<Rightarrow> JwtService \<Rightarrow> string \<Rightarrow> auth_db \<Rightarrow> time \<Rightarrow> string \<Rightarrow> uuid option \<Rightarrow> (ApiError, TokenResponse) result \<times> auth_db" where
  "key_exchange env js admin_key d now key_str repo_id =
     (case key_grant env admin_key d now key_str of
        (Inl e, d1) \<Rightarrow> (Inl e, d1)
      | (Inr (sub, name, role), d1) \<Rightarrow>
          (bind_result (sign_token env js now sub (Some name) repo_id role) (\<lambda>t.
             Inr \<lparr>tp_access_token = t, tp_token_type = ''Bearer'', tp_expires_in = js_access_token_ttl js, tp_refresh_token = None\<rparr>), d1))"

definition token_exchange_handler ::
  "('e) auth_env_scheme \<Rightarrow> JwtService \<Rightarrow> string \<Rightarrow> auth_db \<Rightarrow> time \<Rightarrow> uuid \<Rightarrow> string \<Rightarrow> TokenRequest \<Rightarrow>
   (ApiError, TokenResponse) result \<times> auth_db" where
  "token_exchange_handler env js admin_key d now org_i rnd body =
     (if tq_grant_type body = ''session_exchange''
      then (case require_param (tq_session_token body) ''session_token is required for session_exchange grant'' of
              Inl e \<Rightarrow> (Inl e, d)
            | Inr s \<Rightarrow> session_exchange env js d now org_i rnd s (tq_repo_id body))
      else if tq_grant_type body = ''api_key''
      then (case require_param (tq_api_key body) ''api_key is required for api_key grant'' of
              Inl e \<Rightarrow> (Inl e, d)
            | Inr s \<Rightarrow> key_exchange env js admin_key d now s (tq_repo_id body))
      else (Inl (api_bad_request (''unsupported grant_type '' @ oe_quote env (tq_grant_type body) @
              ''; accepted: '' @ oe_quote env ''session_exchange'' @ '', '' @ oe_quote env ''api_key'')), d))"

record RefreshResponse =
  rr_access_token :: string
  rr_token_type :: string
  rr_expires_in :: nat

definition refresh_token_handler ::
  "('e) auth_env_scheme \<Rightarrow> JwtService \<Rightarrow> auth_db \<Rightarrow> time \<Rightarrow> string \<Rightarrow> (ApiError, RefreshResponse) result" where
  "refresh_token_handler env js d now refresh_token =
     bind_result (map_error (not_found_as (api_unauthorized ''invalid, expired, or revoked refresh token''))
       (validate_refresh_token env d now refresh_token)) (\<lambda>u.
     bind_result (sign_token env js now (se_uuid env u)
       (case get_user env (ad_org d) u of Inr x \<Rightarrow> Some (us_name x) | Inl e \<Rightarrow> None) None None) (\<lambda>t.
     Inr \<lparr>rr_access_token = t, rr_token_type = ''Bearer'', rr_expires_in = js_access_token_ttl js\<rparr>))"

definition revoke_token_handler :: "('e) auth_env_scheme \<Rightarrow> auth_db \<Rightarrow> time \<Rightarrow> string \<Rightarrow> (ApiError, nat) result \<times> auth_db" where
  "revoke_token_handler env d now refresh_token =
     (case revoke_refresh_token env d now refresh_token of
        (Inl e, d1) \<Rightarrow> (Inl (not_found_as (api_unauthorized ''refresh token not found or already revoked'') e), d1)
      | (Inr u, d1) \<Rightarrow> (Inr 200, d1))"

record DeviceCodeResponse =
  dr_code :: string
  dr_verification_url :: string
  dr_poll_interval :: nat

definition create_device_code_handler ::
  "('e) auth_env_scheme \<Rightarrow> (string \<rightharpoonup> string) \<Rightarrow> string \<Rightarrow> auth_db \<Rightarrow> time \<Rightarrow> nat list \<Rightarrow> (ApiError, DeviceCodeResponse) result \<times> auth_db" where
  "create_device_code_handler env var default_url d now bs =
     (case create_device_code env d now bs of
        (Inl e, d1) \<Rightarrow> (Inl (api_from_storage e), d1)
      | (Inr code, d1) \<Rightarrow>
          (let url = (case var ''VAI_DASHBOARD_URL'' of Some u \<Rightarrow> u
                      | None \<Rightarrow> (case var ''VAI_PUBLIC_URL'' of Some u \<Rightarrow> u | None \<Rightarrow> default_url))
           in (Inr \<lparr>dr_code = code, dr_verification_url = url @ ''/cli'', dr_poll_interval = 3\<rparr>, d1)))"

record DeviceCodeStatusResponse =
  ds_status :: string
  ds_api_key :: "string option"
  ds_user_id :: "string option"
  ds_user_email :: "string option"

definition poll_device_code_handler ::
  "('e) auth_env_scheme \<Rightarrow> auth_db \<Rightarrow> time \<Rightarrow> string \<Rightarrow> (ApiError, DeviceCodeStatusResponse) result \<times> auth_db" where
  "poll_device_code_handler env d now code =
     (case poll_device_code env d now code of
        (Inl e, d1) \<Rightarrow> (Inl (not_found_as (api_not_found ''device code not found'') e), d1)
      | (Inr DcPending, d1) \<Rightarrow> (Inr \<lparr>ds_status = ''pending'', ds_api_key = None, ds_user_id = None, ds_user_email = None\<rparr>, d1)
      | (Inr DcExpired, d1) \<Rightarrow> (Inr \<lparr>ds_status = ''expired'', ds_api_key = None, ds_user_id = None, ds_user_email = None\<rparr>, d1)
      | (Inr (DcAuthorized key u email), d1) \<Rightarrow>
          (Inr \<lparr>ds_status = ''authorized'', ds_api_key = Some key, ds_user_id = Some (se_uuid env u), ds_user_email = Some email\<rparr>, d1))"

definition authorize_device_code_handler ::
  "('e) auth_env_scheme \<Rightarrow> auth_db \<Rightarrow> time \<Rightarrow> string \<Rightarrow> string \<Rightarrow> AgentIdentity \<Rightarrow> string \<Rightarrow> (ApiError, nat) result \<times> auth_db" where
  "authorize_device_code_handler env d now key_i token identity code =
     (case ai_user_id identity of
        None \<Rightarrow> (Inl (api_unauthorized ''this request must be authenticated as a specific user''), d)
      | Some u \<Rightarrow>
          (case create_key env d now key_i token None ''CLI (device code)'' (Some u) (Some ''write'') (Some ''cli'') None of
             (Inl e, d1) \<Rightarrow> (Inl (api_from_storage e), d1)
           | (Inr (meta, plaintext), d1) \<Rightarrow>
               (case authorize_device_code env d1 now code u plaintext of
                  (Inl e, db2) \<Rightarrow> (Inl (not_found_as (api_not_found ''device code not found, expired, or already authorized'') e), db2)
                | (Inr x, db2) \<Rightarrow> (Inr 200, db2))))"

end
