(* ===== verification/Escalation.thy ===== *)
theory Escalation
  imports Issue_Laws
begin

text \<open>
  Escalations (\<open>src/escalation/mod.rs\<close>): conflicts handed to a human, stored in
  \<open>escalations.db\<close> and mirrored in the event log. The JSON codecs of the list columns are fields
  of the environment, next to those of identifiers and time stamps. The results of the two
  event appends are ignored, as in the code.
\<close>

section \<open>Data\<close>

record EscalationConflict =
  ec_file :: string
  ec_merge_level :: nat
  ec_entity_ids :: "string list"
  ec_description :: string
  ec_ours_content :: "string option"
  ec_theirs_content :: "string option"
  ec_base_content :: "string option"

datatype EscalationError =
    EsSqlite | EsEventLog EventLogError | EsNotFound uuid | EsAlreadyResolved uuid | EsNotInitialized string

datatype EscalationType = MergeConflict | IntentConflict | ReviewRequest | ValidationFailure

fun esc_type_str :: "EscalationType \<Rightarrow> string" where
  "esc_type_str MergeConflict = ''merge_conflict''"
| "esc_type_str IntentConflict = ''intent_conflict''"
| "esc_type_str ReviewRequest = ''review_request''"
| "esc_type_str ValidationFailure = ''validation_failure''"

definition esc_type_from_db_str :: "string \<Rightarrow> EscalationType option" where
  "esc_type_from_db_str s =
     (if s = ''merge_conflict'' then Some MergeConflict
      else if s = ''intent_conflict'' then Some IntentConflict
      else if s = ''review_request'' then Some ReviewRequest
      else if s = ''validation_failure'' then Some ValidationFailure
      else None)"

datatype EscalationSeverity = EsHigh | EsCritical

fun esc_severity_str :: "EscalationSeverity \<Rightarrow> string" where
  "esc_severity_str EsHigh = ''high''"
| "esc_severity_str EsCritical = ''critical''"

definition esc_severity_from_db_str :: "string \<Rightarrow> EscalationSeverity option" where
  "esc_severity_from_db_str s = (if s = ''high'' then Some EsHigh else if s = ''critical'' then Some EsCritical else None)"

datatype ResolutionOption = KeepAgentA | KeepAgentB | SendBackToAgentA | SendBackToAgentB | PauseBoth

fun option_str :: "ResolutionOption \<Rightarrow> string" where
  "option_str KeepAgentA = ''keep_agent_a''"
| "option_str KeepAgentB = ''keep_agent_b''"
| "option_str SendBackToAgentA = ''send_back_to_agent_a''"
| "option_str SendBackToAgentB = ''send_back_to_agent_b''"
| "option_str PauseBoth = ''pause_both''"

definition option_from_db_str :: "string \<Rightarrow> ResolutionOption option" where
  "option_from_db_str s =
     (if s = ''keep_agent_a'' then Some KeepAgentA
      else if s = ''keep_agent_b'' then Some KeepAgentB
      else if s = ''send_back_to_agent_a'' then Some SendBackToAgentA
      else if s = ''send_back_to_agent_b'' then Some SendBackToAgentB
      else if s = ''pause_both'' then Some PauseBoth
      else None)"

fun option_label :: "ResolutionOption \<Rightarrow> string" where
  "option_label KeepAgentA = ''Keep agent A'' @ [CHR 0x27] @ ''s changes''"
| "option_label KeepAgentB = ''Keep agent B'' @ [CHR 0x27] @ ''s changes''"
| "option_label SendBackToAgentA = ''Send back to agent A with context''"
| "option_label SendBackToAgentB = ''Send back to agent B with context''"
| "option_label PauseBoth = ''Pause both workspaces''"

datatype EscalationStatus = EsPending | EsResolved

fun esc_status_str :: "EscalationStatus \<Rightarrow> string" where
  "esc_status_str EsPending = ''pending''"
| "esc_status_str EsResolved = ''resolved''"

definition esc_status_from_db_str :: "string \<Rightarrow> EscalationStatus option" where
  "esc_status_from_db_str s = (if s = ''pending'' then Some EsPending else if s = ''resolved'' then Some EsResolved else None)"

record Escalation =
  es_id :: uuid
  es_escalation_type :: EscalationType
  es_severity :: EscalationSeverity
  es_status :: EscalationStatus
  es_summary :: string
  es_intents :: "string list"
  es_agents :: "string list"
  es_workspace_ids :: "uuid list"
  es_affected_entities :: "string list"
  es_conflicts :: "EscalationConflict list"
  es_resolution_options :: "ResolutionOption list"
  es_resolution :: "ResolutionOption option"
  es_resolved_by :: "string option"
  es_created_at :: time
  es_resolved_at :: "time option"

definition is_pending :: "Escalation \<Rightarrow> bool" where
  "is_pending e \<longleftrightarrow> es_status e = EsPending"

record esc_row =
  xr_id :: string
  xr_type :: string
  xr_severity :: string
  xr_status :: string
  xr_summary :: string
  xr_intents :: string
  xr_agents :: string
  xr_workspace_ids :: string
  xr_affected_entities :: string
  xr_conflicts :: string
  xr_resolution_options :: string
  xr_resolution :: "string option"
  xr_resolved_by :: "string option"
  xr_created_at :: string
  xr_resolved_at :: "string option"

type_synonym esc_db = "esc_row list"

record esc_env = issue_env +
  strings_to_json :: "string list \<Rightarrow> string"
  strings_from_json :: "string \<Rightarrow> string list option"
  conflicts_to_json :: "EscalationConflict list \<Rightarrow> string"
  conflicts_from_json :: "string \<Rightarrow> EscalationConflict list option"
  options_to_json :: "ResolutionOption list \<Rightarrow> string"
  options_from_json :: "string \<Rightarrow> ResolutionOption list option"

definition default_resolution_options :: "EscalationType \<Rightarrow> uuid list \<Rightarrow> ResolutionOption list" where
  "default_resolution_options ty ws =
     (case ty of
        MergeConflict \<Rightarrow> if 2 \<le> length ws then [KeepAgentA, KeepAgentB, SendBackToAgentA, SendBackToAgentB, PauseBoth]
                         else [SendBackToAgentA, PauseBoth]
      | IntentConflict \<Rightarrow> if 2 \<le> length ws then [KeepAgentA, KeepAgentB, SendBackToAgentA, SendBackToAgentB, PauseBoth]
                         else [SendBackToAgentA, PauseBoth]
      | ReviewRequest \<Rightarrow> [KeepAgentA, SendBackToAgentA, PauseBoth]
      | ValidationFailure \<Rightarrow> [SendBackToAgentA, PauseBoth])"

definition or_default :: "'x \<Rightarrow> 'x option \<Rightarrow> 'x" where
  "or_default d x = (case x of Some v \<Rightarrow> v | None \<Rightarrow> d)"

text \<open>Columns that do not parse read as the default value.\<close>

definition row_to_escalation :: "('a) esc_env_scheme \<Rightarrow> esc_row \<Rightarrow> Escalation" where
  "row_to_escalation env r =
     \<lparr>es_id = or_default 0 (uuid_from_str env (xr_id r)),
      es_escalation_type = or_default MergeConflict (esc_type_from_db_str (xr_type r)),
      es_severity = or_default EsHigh (esc_severity_from_db_str (xr_severity r)),
      es_status = or_default EsPending (esc_status_from_db_str (xr_status r)),
      es_summary = xr_summary r,
      es_intents = or_default [] (strings_from_json env (xr_intents r)),
      es_agents = or_default [] (strings_from_json env (xr_agents r)),
      es_workspace_ids = List.map_filter (uuid_from_str env) (or_default [] (strings_from_json env (xr_workspace_ids r))),
      es_affected_entities = or_default [] (strings_from_json env (xr_affected_entities r)),
      es_conflicts = or_default [] (conflicts_from_json env (xr_conflicts r)),
      es_resolution_options = or_default [] (options_from_json env (xr_resolution_options r)),
      es_resolution = Option.bind (xr_resolution r) option_from_db_str,
      es_resolved_by = xr_resolved_by r,
      es_created_at = or_default 0 (from_rfc3339 env (xr_created_at r)),
      es_resolved_at = Option.bind (xr_resolved_at r) (from_rfc3339 env)\<rparr>"

definition escalation_to_row :: "('a) esc_env_scheme \<Rightarrow> Escalation \<Rightarrow> esc_row" where
  "escalation_to_row env e =
     \<lparr>xr_id = uuid_to_string env (es_id e), xr_type = esc_type_str (es_escalation_type e),
      xr_severity = esc_severity_str (es_severity e), xr_status = ''pending'', xr_summary = es_summary e,
      xr_intents = strings_to_json env (es_intents e), xr_agents = strings_to_json env (es_agents e),
      xr_workspace_ids = strings_to_json env (map (uuid_to_string env) (es_workspace_ids e)),
      xr_affected_entities = strings_to_json env (es_affected_entities e),
      xr_conflicts = conflicts_to_json env (es_conflicts e),
      xr_resolution_options = options_to_json env (es_resolution_options e),
      xr_resolution = None, xr_resolved_by = None, xr_created_at = to_rfc3339 env (es_created_at e), xr_resolved_at = None\<rparr>"

section \<open>Operations\<close>

text \<open>\<open>let _ = event_log.append(kind)\<close>: a failed append leaves the log as it is.\<close>

definition append_ignored :: "('a) elog_env_scheme \<Rightarrow> event_log \<Rightarrow> time \<Rightarrow> EventKind \<Rightarrow> event_log" where
  "append_ignored env log now kind = (case elog_append env log now kind of Inl _ \<Rightarrow> log | Inr (_, log') \<Rightarrow> log')"

definition new_escalation ::
  "uuid \<Rightarrow> time \<Rightarrow> EscalationType \<Rightarrow> EscalationSeverity \<Rightarrow> string \<Rightarrow> string list \<Rightarrow> string list \<Rightarrow> uuid list \<Rightarrow>
   string list \<Rightarrow> EscalationConflict list \<Rightarrow> Escalation" where
  "new_escalation i now ty sev summary intents agents ws entities conflicts =
     \<lparr>es_id = i, es_escalation_type = ty, es_severity = sev, es_status = EsPending, es_summary = summary,
      es_intents = intents, es_agents = agents, es_workspace_ids = ws, es_affected_entities = entities,
      es_conflicts = conflicts, es_resolution_options = default_resolution_options ty ws, es_resolution = None,
      es_resolved_by = None, es_created_at = now, es_resolved_at = None\<rparr>"

definition escalation_create ::
  "('a) esc_env_scheme \<Rightarrow> esc_db \<Rightarrow> event_log \<Rightarrow> uuid \<Rightarrow> time \<Rightarrow> EscalationType \<Rightarrow> EscalationSeverity \<Rightarrow> string \<Rightarrow>
   string list \<Rightarrow> string list \<Rightarrow> uuid list \<Rightarrow> string list \<Rightarrow> EscalationConflict list \<Rightarrow>
   (EscalationError, Escalation) result \<times> esc_db \<times> event_log" where
  "escalation_create env db log i now ty sev summary intents agents ws entities conflicts =
     (let e = new_escalation i now ty sev summary intents agents ws entities conflicts
      in if list_ex (\<lambda>r. xr_id r = uuid_to_string env i) db then (Inl EsSqlite, db, log)
         else (Inr e, db @ [escalation_to_row env e],
               append_ignored env log now (EscalationCreated i (esc_type_str ty) (esc_severity_str sev)
                 (map (uuid_to_string env) ws) summary)))"

definition escalation_get :: "('a) esc_env_scheme \<Rightarrow> esc_db \<Rightarrow> uuid \<Rightarrow> (EscalationError, Escalation) result" where
  "escalation_get env db i =
     (case find (\<lambda>r. xr_id r = uuid_to_string env i) db of
        None \<Rightarrow> Inl (EsNotFound i) | Some r \<Rightarrow> Inr (row_to_escalation env r))"

text \<open>\<open>ORDER BY created_at DESC\<close> compares the stored text.\<close>

definition escalation_list :: "('a) esc_env_scheme \<Rightarrow> esc_db \<Rightarrow> EscalationStatus option \<Rightarrow> Escalation list" where
  "escalation_list env db status =
     (let rows = (case status of Some s \<Rightarrow> filter (\<lambda>r. xr_status r = esc_status_str s) db | None \<Rightarrow> db)
      in map (row_to_escalation env) (rev (sort_key xr_created_at (rev rows))))"

definition escalation_resolve ::
  "('a) esc_env_scheme \<Rightarrow> esc_db \<Rightarrow> event_log \<Rightarrow> time \<Rightarrow> uuid \<Rightarrow> ResolutionOption \<Rightarrow> string \<Rightarrow>
   (EscalationError, Escalation) result \<times> esc_db \<times> event_log" where
  "escalation_resolve env db log now i opt resolved_by =
     (case escalation_get env db i of
        Inl e \<Rightarrow> (Inl e, db, log)
      | Inr e \<Rightarrow>
          if es_status e = EsResolved then (Inl (EsAlreadyResolved i), db, log)
          else (Inr (e\<lparr>es_status := EsResolved, es_resolution := Some opt, es_resolved_by := Some resolved_by,
                       es_resolved_at := Some now\<rparr>),
                map (\<lambda>r. if xr_id r = uuid_to_string env i
                  then r\<lparr>xr_status := ''resolved'', xr_resolution := Some (option_str opt),
                         xr_resolved_by := Some resolved_by, xr_resolved_at := Some (to_rfc3339 env now)\<rparr> else r) db,
                append_ignored env log now (EscalationResolved i (option_str opt) resolved_by)))"

definition count_pending :: "esc_db \<Rightarrow> nat" where
  "count_pending db = length (filter (\<lambda>r. xr_status r = ''pending'') db)"

section \<open>Reading rows back\<close>

definition esc_codecs :: "('a) esc_env_scheme \<Rightarrow> bool" where
  "esc_codecs env \<longleftrightarrow> issue_codecs env \<and>
     (\<forall>x. strings_from_json env (strings_to_json env x) = Some x) \<and>
     (\<forall>x. conflicts_from_json env (conflicts_to_json env x) = Some x) \<and>
     (\<forall>x. options_from_json env (options_to_json env x) = Some x)"

lemma esc_type_roundtrip [simp]: "esc_type_from_db_str (esc_type_str t) = Some t"
  by (cases t) (simp_all add: esc_type_from_db_str_def)

lemma esc_severity_roundtrip [simp]: "esc_severity_from_db_str (esc_severity_str s) = Some s"
  by (cases s) (simp_all add: esc_severity_from_db_str_def)

lemma option_roundtrip [simp]: "option_from_db_str (option_str opt) = Some opt"
  by (cases opt) (simp_all add: option_from_db_str_def)

lemma esc_status_literals [simp]:
  "esc_status_from_db_str ''pending'' = Some EsPending" "esc_status_from_db_str ''resolved'' = Some EsResolved"
  by (simp_all add: esc_status_from_db_str_def)

lemma or_default_Some [simp]: "or_default d (Some x) = x"
  by (simp add: or_default_def)

lemma map_filter_inverse: "(\<And>x. g (h x) = Some x) \<Longrightarrow> List.map_filter g (map h xs) = xs"
  by (induction xs) (simp_all add: List.map_filter_simps)

lemma esc_codecsD:
  assumes "esc_codecs env"
  shows "uuid_from_str env (uuid_to_string env i) = Some i" "from_rfc3339 env (to_rfc3339 env t) = Some t"
    "strings_from_json env (strings_to_json env x) = Some x" "conflicts_from_json env (conflicts_to_json env y) = Some y"
    "options_from_json env (options_to_json env z) = Some z"
  using assms by (simp_all add: esc_codecs_def issue_codecs_def)

lemma row_to_escalation_inverse:
  assumes "esc_codecs env" "es_status e = EsPending" "es_resolution e = None" "es_resolved_by e = None" "es_resolved_at e = None"
  shows "row_to_escalation env (escalation_to_row env e) = e"
  using assms(2-5) by (simp add: row_to_escalation_def escalation_to_row_def esc_codecsD [OF assms(1)]
      map_filter_inverse [of "uuid_from_str env" "uuid_to_string env"])

section \<open>The store and the event log\<close>

fun about :: "uuid \<Rightarrow> EventKind \<Rightarrow> bool" where
  "about i (EscalationCreated j _ _ _ _) \<longleftrightarrow> j = i"
| "about i (EscalationResolved j _ _) \<longleftrightarrow> j = i"
| "about i _ \<longleftrightarrow> False"

definition esc_events :: "('a) elog_env_scheme \<Rightarrow> event_log \<Rightarrow> uuid \<Rightarrow> EventKind list" where
  "esc_events env log i = filter (about i) (map ev_kind (log_events env log))"

definition resolve_row :: "('a) esc_env_scheme \<Rightarrow> ResolutionOption \<Rightarrow> string \<Rightarrow> time \<Rightarrow> esc_row \<Rightarrow> esc_row" where
  "resolve_row env opt who now r = r\<lparr>xr_status := ''resolved'', xr_resolution := Some (option_str opt),
     xr_resolved_by := Some who, xr_resolved_at := Some (to_rfc3339 env now)\<rparr>"

definition unresolved :: "Escalation \<Rightarrow> bool" where
  "unresolved e \<longleftrightarrow> es_status e = EsPending \<and> es_resolution e = None \<and> es_resolved_by e = None \<and> es_resolved_at e = None"

text \<open>A row is the image of a new escalation, possibly resolved once.\<close>

definition row_ok :: "('a) esc_env_scheme \<Rightarrow> esc_row \<Rightarrow> bool" where
  "row_ok env r \<longleftrightarrow>
     (\<exists>e. unresolved e \<and> (r = escalation_to_row env e \<or>
        (\<exists>opt who t. r = resolve_row env opt who t (escalation_to_row env e))))"

lemma row_ok_status: "row_ok env r \<Longrightarrow> xr_status r \<in> {''pending'', ''resolved''}"
  by (auto simp: row_ok_def escalation_to_row_def resolve_row_def)

lemma row_ok_new: "row_ok env (escalation_to_row env (new_escalation i now ty sev summary intents agents ws entities conflicts))"
proof -
  have "unresolved (new_escalation i now ty sev summary intents agents ws entities conflicts)"
    by (simp add: unresolved_def new_escalation_def)
  then show ?thesis unfolding row_ok_def by blast
qed

lemma row_ok_resolve:
  assumes "row_ok env r" "xr_status r \<noteq> ''resolved''"
  shows "row_ok env (resolve_row env opt who now r)"
proof -
  from assms obtain e where "unresolved e" "r = escalation_to_row env e"
    by (auto simp: row_ok_def resolve_row_def)
  then show ?thesis unfolding row_ok_def by blast
qed

text \<open>The events a row stands for.\<close>

definition row_events :: "('a) esc_env_scheme \<Rightarrow> uuid \<Rightarrow> esc_row \<Rightarrow> EventKind list" where
  "row_events env i r =
     EscalationCreated i (xr_type r) (xr_severity r) (or_default [] (strings_from_json env (xr_workspace_ids r))) (xr_summary r) #
     (if xr_status r = ''resolved''
      then [EscalationResolved i (or_default [] (xr_resolution r)) (or_default [] (xr_resolved_by r))] else [])"

definition esc_find :: "('a) esc_env_scheme \<Rightarrow> esc_db \<Rightarrow> uuid \<Rightarrow> esc_row option" where
  "esc_find env db i = find (\<lambda>r. xr_id r = uuid_to_string env i) db"

definition esc_mirror :: "('a) esc_env_scheme \<Rightarrow> esc_db \<Rightarrow> event_log \<Rightarrow> bool" where
  "esc_mirror env db log \<longleftrightarrow>
     wf_log env log \<and> distinct (map xr_id db) \<and> (\<forall>r\<in>set db. row_ok env r) \<and>
     (\<forall>i. esc_events env log i = (case esc_find env db i of None \<Rightarrow> [] | Some r \<Rightarrow> row_events env i r))"

lemma append_ignored_kinds:
  assumes "wf_log env log"
  shows "wf_log env (append_ignored env log now k)"
    "map ev_kind (log_events env (append_ignored env log now k)) = map ev_kind (log_events env log) @ [k]"
proof -
  obtain e log' where "elog_append env log now k = Inr (e, log')" "wf_log env log'"
    "log_events env log' = log_events env log @ [e]" "ev_kind e = k" by (rule elog.appendE [OF assms])
  then show "wf_log env (append_ignored env log now k)"
    "map ev_kind (log_events env (append_ignored env log now k)) = map ev_kind (log_events env log) @ [k]"
    by (simp_all add: append_ignored_def)
qed

lemma esc_events_append:
  "wf_log env log \<Longrightarrow> esc_events env (append_ignored env log now k) i = esc_events env log i @ (if about i k then [k] else [])"
  by (simp add: esc_events_def append_ignored_kinds)

lemma esc_find_append:
  "esc_find env (db @ [r]) i = (case esc_find env db i of None \<Rightarrow> if xr_id r = uuid_to_string env i then Some r else None | Some x \<Rightarrow> Some x)"
  unfolding esc_find_def by (induction db) auto

lemma esc_find_update:
  "(\<And>r. xr_id (f r) = xr_id r) \<Longrightarrow>
   esc_find env (map (\<lambda>r. if xr_id r = k then f r else r) db) i =
     (if uuid_to_string env i = k then map_option f (esc_find env db i) else esc_find env db i)"
  unfolding esc_find_def by (induction db) auto

lemma esc_findD: "esc_find env db i = Some r \<Longrightarrow> r \<in> set db \<and> xr_id r = uuid_to_string env i"
  unfolding esc_find_def by (metis (mono_tags, lifting) find_Some_iff nth_mem)

lemma esc_find_None: "esc_find env db i = None \<longleftrightarrow> uuid_to_string env i \<notin> xr_id ` set db"
  unfolding esc_find_def find_None_iff image_iff by metis

lemma mirror_create:
  assumes "esc_codecs env" "esc_mirror env db log"
    "escalation_create env db log i now ty sev summary intents agents ws entities conflicts = (res, db', log')"
  shows "esc_mirror env db' log'"
proof (cases "esc_find env db i")
  case (Some r)
  then have "list_ex (\<lambda>r. xr_id r = uuid_to_string env i) db" by (auto simp: list_ex_iff dest: esc_findD)
  with assms(2,3) show ?thesis by (simp add: escalation_create_def Let_def)
next
  case None
  let ?e = "new_escalation i now ty sev summary intents agents ws entities conflicts"
  let ?r = "escalation_to_row env ?e"
  let ?k = "EscalationCreated i (esc_type_str ty) (esc_severity_str sev) (map (uuid_to_string env) ws) summary"
  have new: "\<not> list_ex (\<lambda>r. xr_id r = uuid_to_string env i) db" using None unfolding esc_find_None list_ex_iff by (metis imageI)
  then have eq: "db' = db @ [?r]" "log' = append_ignored env log now ?k" using assms(3) by (simp_all add: escalation_create_def Let_def)
  have ids: "xr_id ?r = uuid_to_string env j \<longleftrightarrow> j = i" for j
    using assms(1) uuid_to_string_inj [of env i j] by (auto simp: escalation_to_row_def new_escalation_def esc_codecs_def)
  have "row_events env i ?r = [?k]"
    by (simp add: row_events_def escalation_to_row_def new_escalation_def esc_codecsD [OF assms(1)])
  then have "esc_events env log' j = (case esc_find env db' j of None \<Rightarrow> [] | Some r \<Rightarrow> row_events env j r)" for j
    using assms(2) None unfolding eq esc_mirror_def
    by (auto simp: esc_events_append esc_find_append ids split: option.split)
  moreover have "distinct (map xr_id db')" using assms(2) None ids [of i] by (auto simp: eq esc_mirror_def esc_find_None)
  ultimately show ?thesis using assms(2) row_ok_new by (auto simp: esc_mirror_def eq append_ignored_kinds)
qed

lemma escalation_resolve_cases:
  assumes "esc_mirror env db log"
  shows "escalation_resolve env db log now i opt who =
    (case esc_find env db i of
       None \<Rightarrow> (Inl (EsNotFound i), db, log)
     | Some r \<Rightarrow>
         if xr_status r = ''resolved'' then (Inl (EsAlreadyResolved i), db, log)
         else (Inr ((row_to_escalation env r)\<lparr>es_status := EsResolved, es_resolution := Some opt, es_resolved_by := Some who,
                     es_resolved_at := Some now\<rparr>),
               map (\<lambda>r. if xr_id r = uuid_to_string env i then resolve_row env opt who now r else r) db,
               append_ignored env log now (EscalationResolved i (option_str opt) who)))"
proof (cases "esc_find env db i")
  case (Some r)
  then have "row_ok env r" using assms by (auto simp: esc_mirror_def dest: esc_findD)
  from row_ok_status [OF this] have "xr_status r \<in> {''pending'', ''resolved''}" .
  then have "es_status (row_to_escalation env r) = EsResolved \<longleftrightarrow> xr_status r = ''resolved''"
    by (auto simp: row_to_escalation_def)
  with Some show ?thesis
    by (simp add: escalation_resolve_def escalation_get_def esc_find_def [symmetric] resolve_row_def)
qed (simp add: escalation_resolve_def escalation_get_def esc_find_def)

lemma mirror_resolve:
  assumes "esc_codecs env" "esc_mirror env db log" "escalation_resolve env db log now i opt who = (res, db', log')"
  shows "esc_mirror env db' log'"
proof (cases "esc_find env db i")
  case (Some r)
  show ?thesis
  proof (cases "xr_status r = ''resolved''")
    case False
    let ?k = "EscalationResolved i (option_str opt) who"
    have eq: "db' = map (\<lambda>r. if xr_id r = uuid_to_string env i then resolve_row env opt who now r else r) db"
      "log' = append_ignored env log now ?k"
      using assms(2,3) Some False by (simp_all add: escalation_resolve_cases)
    have keep: "xr_id (resolve_row env opt who now x) = xr_id x" for x by (simp add: resolve_row_def)
    have inj: "uuid_to_string env j = uuid_to_string env i \<longleftrightarrow> j = i" for j
      using assms(1) uuid_to_string_inj [of env j i] by (simp add: esc_codecs_def)
    have ev: "row_events env i (resolve_row env opt who now r) = row_events env i r @ [?k]"
      using False by (simp add: row_events_def resolve_row_def)
    have "esc_events env log' j = (case esc_find env db' j of None \<Rightarrow> [] | Some r \<Rightarrow> row_events env j r)" for j
      using assms(2) Some unfolding eq esc_mirror_def esc_find_update [OF keep] inj
      by (auto simp: esc_events_append ev split: option.split)
    moreover have "map xr_id db' = map xr_id db" by (simp add: eq keep)
    moreover have "row_ok env x" if x: "x \<in> set db'" for x
    proof -
      from x obtain y where y: "y \<in> set db" "x = (if xr_id y = uuid_to_string env i then resolve_row env opt who now y else y)"
        by (auto simp: eq)
      have "y = r" if "xr_id y = uuid_to_string env i"
        using y(1) that assms(2) esc_findD [OF Some] by (intro inj_onD [of xr_id "set db" y r]) (simp_all add: esc_mirror_def distinct_map)
      with y False assms(2) row_ok_resolve [of env r] show ?thesis by (auto simp: esc_mirror_def)
    qed
    ultimately show ?thesis using assms(2) by (simp add: esc_mirror_def eq(2) append_ignored_kinds)
  qed (use assms Some in \<open>simp add: escalation_resolve_cases\<close>)
qed (use assms in \<open>simp add: escalation_resolve_cases\<close>)

section \<open>Histories\<close>

inductive esc_reach :: "('a) esc_env_scheme \<Rightarrow> esc_db \<Rightarrow> event_log \<Rightarrow> bool" for env where
  reach_start: "esc_reach env [] elog_empty"
| reach_create: "esc_reach env db log \<Longrightarrow>
    escalation_create env db log i now ty sev summary intents agents ws entities conflicts = (res, db', log') \<Longrightarrow>
    esc_reach env db' log'"
| reach_resolve: "esc_reach env db log \<Longrightarrow> escalation_resolve env db log now i opt who = (res, db', log') \<Longrightarrow>
    esc_reach env db' log'"

lemma esc_reach_mirror:
  assumes "esc_codecs env" "json_ok env" "esc_reach env db log"
  shows "esc_mirror env db log"
  using assms(3)
proof (induction rule: esc_reach.induct)
  case reach_start
  show ?case
    using assms(2) by (simp add: esc_mirror_def wf_log_empty esc_events_def log_events_empty esc_find_def)
next
  case (reach_create db log i now ty sev summary intents agents ws entities conflicts res db' log')
  show ?case by (rule mirror_create [OF assms(1) reach_create.IH reach_create.hyps(2)])
next
  case (reach_resolve db log now i opt who res db' log')
  show ?case by (rule mirror_resolve [OF assms(1) reach_resolve.IH reach_resolve.hyps(2)])
qed

lemma escalation_get_find:
  "escalation_get env db i = (case esc_find env db i of None \<Rightarrow> Inl (EsNotFound i) | Some r \<Rightarrow> Inr (row_to_escalation env r))"
  by (simp add: escalation_get_def esc_find_def)

text \<open>The events an escalation stands for.\<close>

definition escalation_events :: "('a) esc_env_scheme \<Rightarrow> Escalation \<Rightarrow> EventKind list" where
  "escalation_events env e =
     EscalationCreated (es_id e) (esc_type_str (es_escalation_type e)) (esc_severity_str (es_severity e))
       (map (uuid_to_string env) (es_workspace_ids e)) (es_summary e) #
     (case es_status e of
        EsPending \<Rightarrow> []
      | EsResolved \<Rightarrow> [EscalationResolved (es_id e) (option_str (the (es_resolution e))) (the (es_resolved_by e))])"

lemma row_resolve_value:
  assumes "esc_codecs env"
  shows "row_to_escalation env (resolve_row env opt who t r) = (row_to_escalation env r)\<lparr>es_status := EsResolved,
    es_resolution := Some opt, es_resolved_by := Some who, es_resolved_at := Some t\<rparr>"
  by (simp add: row_to_escalation_def resolve_row_def esc_codecsD [OF assms])

lemma row_events_value:
  assumes "esc_codecs env" "row_ok env r" "xr_id r = uuid_to_string env i"
  shows "row_events env i r = escalation_events env (row_to_escalation env r) \<and> es_id (row_to_escalation env r) = i"
proof -
  from assms(2) obtain e where e: "unresolved e" "r = escalation_to_row env e \<or> (\<exists>opt who t. r = resolve_row env opt who t (escalation_to_row env e))"
    by (auto simp: row_ok_def)
  have inv: "row_to_escalation env (escalation_to_row env e) = e"
    using e(1) by (intro row_to_escalation_inverse assms(1)) (simp_all add: unresolved_def)
  have "uuid_to_string env (es_id e) = uuid_to_string env i"
    using assms(3) e(2) by (auto simp: resolve_row_def escalation_to_row_def)
  then have id: "es_id e = i" using assms(1) by (simp add: esc_codecs_def uuid_to_string_inj)
  from e(2) show ?thesis
  proof
    assume r: "r = escalation_to_row env e"
    show ?thesis using e(1) id unfolding r inv
      by (simp add: row_events_def escalation_events_def escalation_to_row_def unresolved_def esc_codecsD [OF assms(1)])
  next
    assume "\<exists>opt who t. r = resolve_row env opt who t (escalation_to_row env e)"
    then obtain opt who t where r: "r = resolve_row env opt who t (escalation_to_row env e)" by blast
    show ?thesis using id unfolding r row_resolve_value [OF assms(1)] inv
      by (simp add: row_events_def escalation_events_def escalation_to_row_def resolve_row_def esc_codecsD [OF assms(1)])
  qed
qed

section \<open>Properties\<close>

text \<open>C19: Along every history of creating and resolving escalations the event log mirrors the store: an
  identifier that is not stored has no escalation event, and a stored escalation has exactly one
  creation event with its data, followed by exactly one resolution event with the stored option and
  person when it is resolved, and none when it is pending.\<close>

theorem escalation_log_mirrors:
  assumes "esc_codecs env" "json_ok env" "esc_reach env db log"
  shows "esc_events env log i = (case escalation_get env db i of Inl _ \<Rightarrow> [] | Inr e \<Rightarrow> escalation_events env e)"
proof -
  have m: "esc_mirror env db log" by (rule esc_reach_mirror [OF assms])
  show ?thesis
  proof (cases "esc_find env db i")
    case (Some r)
    with m esc_findD [OF Some] have "row_ok env r" "xr_id r = uuid_to_string env i" by (simp_all add: esc_mirror_def)
    from row_events_value [OF assms(1) this] m Some show ?thesis by (simp add: esc_mirror_def escalation_get_find)
  qed (use m in \<open>simp add: esc_mirror_def escalation_get_find\<close>)
qed

text \<open>Resolving an escalation: an unknown identifier and an escalation that is already resolved are
  refused with the store and the log unchanged; a pending escalation becomes resolved with the given
  option, person and time, reads back as the returned value, leaves every other escalation as it was and
  lowers the number of pending escalations by one.\<close>

theorem escalation_resolve_once:
  assumes "esc_codecs env" "json_ok env" "esc_reach env db log"
  shows "case escalation_get env db i of
      Inl e \<Rightarrow> escalation_resolve env db log now i opt who = (Inl (EsNotFound i), db, log)
    | Inr e \<Rightarrow>
        if es_status e = EsResolved then escalation_resolve env db log now i opt who = (Inl (EsAlreadyResolved i), db, log)
        else \<exists>e' db' log'. escalation_resolve env db log now i opt who = (Inr e', db', log') \<and>
          e' = e\<lparr>es_status := EsResolved, es_resolution := Some opt, es_resolved_by := Some who, es_resolved_at := Some now\<rparr> \<and>
          escalation_get env db' = (escalation_get env db)(i := Inr e') \<and> count_pending db = Suc (count_pending db')"
proof -
  have m: "esc_mirror env db log" by (rule esc_reach_mirror [OF assms])
  show ?thesis
  proof (cases "esc_find env db i")
    case (Some r)
    have r: "r \<in> set db" "row_ok env r" "xr_id r = uuid_to_string env i"
      using m esc_findD [OF Some] by (simp_all add: esc_mirror_def)
    have st: "es_status (row_to_escalation env r) = EsResolved \<longleftrightarrow> xr_status r = ''resolved''"
      using row_ok_status [OF r(2)] by (auto simp: row_to_escalation_def)
    let ?f = "\<lambda>x. if xr_id x = uuid_to_string env i then resolve_row env opt who now x else x"
    have keep: "xr_id (resolve_row env opt who now x) = xr_id x" for x by (simp add: resolve_row_def)
    have inj: "uuid_to_string env j = uuid_to_string env i \<longleftrightarrow> j = i" for j
      using assms(1) uuid_to_string_inj [of env j i] by (simp add: esc_codecs_def)
    have get: "escalation_get env (map ?f db) = (escalation_get env db)(i := Inr (row_to_escalation env (resolve_row env opt who now r)))"
      using Some by (auto simp: fun_eq_iff escalation_get_find esc_find_update [OF keep] inj)
    have "count_pending db = Suc (count_pending (map ?f db))" if "xr_status r \<noteq> ''resolved''"
    proof -
      from split_list [OF r(1)] obtain xs ys where db: "db = xs @ r # ys" by blast
      have other: "map ?f zs = zs" if "uuid_to_string env i \<notin> xr_id ` set zs" for zs
        using that by (intro map_idI) (metis imageI)
      have "map ?f xs = xs" "map ?f ys = ys"
        using m r(3) by (auto simp: db esc_mirror_def intro!: other)
      moreover have "xr_status r = ''pending''" using that row_ok_status [OF r(2)] by simp
      ultimately show ?thesis using r(3) by (simp add: db count_pending_def resolve_row_def)
    qed
    with Some st get show ?thesis
      by (simp add: escalation_get_find escalation_resolve_cases [OF m] row_resolve_value [OF assms(1)])
  qed (use m in \<open>simp add: escalation_get_find escalation_resolve_cases\<close>)
qed

section \<open>The properties at concrete inputs\<close>

definition e_conflict_detail :: "EscalationConflict enc" where
  "e_conflict_detail c = e_str (ec_file c) @ e_nat (ec_merge_level c) @ e_list e_str (ec_entity_ids c) @ e_str (ec_description c) @
     e_opt e_str (ec_ours_content c) @ e_opt e_str (ec_theirs_content c) @ e_opt e_str (ec_base_content c)"

definition d_conflict_detail :: "EscalationConflict dec" where
  "d_conflict_detail = d_app (d6 EscalationConflict.make d_str d_nat (d_list d_str) d_str (d_opt d_str) (d_opt d_str)) (d_opt d_str)"

lemma wires_conflict_detail [simp]: "wires e_conflict_detail d_conflict_detail"
  unfolding wires_def
  by (simp add: e_conflict_detail_def d_conflict_detail_def d_chain EscalationConflict.defs del: e_list.simps)

definition sample_esc_env :: esc_env where
  "sample_esc_env = issue_env.extend sample_issue_env
     \<lparr>strings_to_json = to_text (e_list e_str), strings_from_json = from_text (d_list d_str),
      conflicts_to_json = to_text (e_list e_conflict_detail), conflicts_from_json = from_text (d_list d_conflict_detail),
      options_to_json = (\<lambda>xs. to_text (e_list e_str) (map option_str xs)),
      options_from_json = (\<lambda>s. map_option (List.map_filter option_from_db_str) (from_text (d_list d_str) s))\<rparr>"

lemma sample_esc_ok: "json_ok sample_esc_env" "esc_codecs sample_esc_env"
proof -
  show "json_ok sample_esc_env"
    by (rule json_ok_text) (simp_all add: sample_esc_env_def issue_env.defs sample_issue_env_def)
  have "issue_codecs sample_esc_env"
    using sample_issue_ok(2) by (simp add: issue_codecs_def sample_esc_env_def issue_env.defs)
  then show "esc_codecs sample_esc_env"
    by (simp add: esc_codecs_def sample_esc_env_def issue_env.defs from_to_text map_filter_inverse del: e_list.simps)
qed

definition sample_escalation :: Escalation where
  "sample_escalation = new_escalation 4 9 MergeConflict EsHigh ''clash'' [] [] [1, 2] [] []"

lemma sample_created:
  "escalation_create sample_esc_env [] elog_empty 4 9 MergeConflict EsHigh ''clash'' [] [] [1, 2] [] [] =
     (Inr sample_escalation, [escalation_to_row sample_esc_env sample_escalation],
      append_ignored sample_esc_env elog_empty 9 (EscalationCreated 4 ''merge_conflict'' ''high''
        (map (uuid_to_string sample_esc_env) [1, 2]) ''clash''))"
  by (simp add: escalation_create_def sample_escalation_def Let_def)

lemma sample_escalation_get:
  "escalation_get sample_esc_env [escalation_to_row sample_esc_env sample_escalation] 4 = Inr sample_escalation"
proof -
  have "row_to_escalation sample_esc_env (escalation_to_row sample_esc_env sample_escalation) = sample_escalation"
    by (rule row_to_escalation_inverse [OF sample_esc_ok(2)]) (simp_all add: sample_escalation_def new_escalation_def)
  moreover have "xr_id (escalation_to_row sample_esc_env sample_escalation) = uuid_to_string sample_esc_env 4"
    by (simp add: escalation_to_row_def sample_escalation_def new_escalation_def)
  ultimately show ?thesis by (simp add: escalation_get_def)
qed

theorem escalation_log_mirrors_witness:
  "esc_events sample_esc_env (append_ignored sample_esc_env elog_empty 9 (EscalationCreated 4 ''merge_conflict'' ''high''
     (map (uuid_to_string sample_esc_env) [1, 2]) ''clash'')) 4 = escalation_events sample_esc_env sample_escalation"
  using escalation_log_mirrors [OF sample_esc_ok(2,1) reach_create [OF reach_start sample_created], of 4]
  by (simp add: sample_escalation_get del: list.map)

theorem escalation_resolve_once_witness:
  "\<exists>e' db' log'. escalation_resolve sample_esc_env [escalation_to_row sample_esc_env sample_escalation]
     (append_ignored sample_esc_env elog_empty 9 (EscalationCreated 4 ''merge_conflict'' ''high''
        (map (uuid_to_string sample_esc_env) [1, 2]) ''clash'')) 11 4 KeepAgentB ''ann'' = (Inr e', db', log') \<and>
     e' = sample_escalation\<lparr>es_status := EsResolved, es_resolution := Some KeepAgentB, es_resolved_by := Some ''ann'',
       es_resolved_at := Some 11\<rparr>"
proof -
  have new: "es_status sample_escalation \<noteq> EsResolved" by (simp add: sample_escalation_def new_escalation_def)
  from escalation_resolve_once [OF sample_esc_ok(2,1) reach_create [OF reach_start sample_created], where i = 4 and now = 11
      and opt = KeepAgentB and who = "''ann''"]
  show ?thesis unfolding sample_escalation_get sum.case if_not_P [OF new] by blast
qed

end
