(* ===== verification/HostedRecords.thy ===== *)
theory HostedRecords
  imports Auth Escalation Version "HOL-Library.Sublist"
begin

text \<open>
  The other tables of the hosted server and the operations of the Postgres back end on them: events
  (\<open>src/storage/postgres/event.rs\<close>) with the event filter of \<open>src/storage/mod.rs\<close>, versions and the head
  pointer (\<open>src/storage/postgres/version.rs\<close>), escalations (\<open>src/storage/postgres/escalation.rs\<close>), and
  comments with their mentions, links and attachments of issues (\<open>src/storage/postgres/issue.rs\<close>).

  Conventions are those of HostedStore: a table is the list of its rows, each call may fail and then has
  no effect, and identifiers the database draws are arguments. JSON columns hold the document; \<open>serde_json\<close>
  and the text Postgres prints for a document are fields of the environment.
\<close>

section \<open>Tables\<close>

record version_row =
  pv_id :: uuid
  pv_repo_id :: uuid
  pv_version_id :: string
  pv_parent_version_id :: "string option"
  pv_intent :: string
  pv_created_by :: string
  pv_merge_event_id :: "int option"
  pv_created_at :: time

record NewVersion =
  nv_version_id :: string
  nv_parent_version_id :: "string option"
  nv_intent :: string
  nv_created_by :: string
  nv_merge_event_id :: "nat option"

record esc_pg_row =
  ep_id :: uuid
  ep_repo_id :: uuid
  ep_escalation_type :: string
  ep_severity :: string
  ep_summary :: string
  ep_intents :: "string list"
  ep_agents :: "string list"
  ep_workspace_ids :: "uuid list"
  ep_affected_entities :: "string list"
  ep_conflicts :: string
  ep_resolution_options :: string
  ep_resolved :: bool
  ep_resolution :: "string option"
  ep_resolved_by :: "string option"
  ep_resolved_at :: "time option"
  ep_created_at :: time

record CommentMention =
  mn_id :: uuid
  mn_comment_id :: uuid
  mn_mentioned_user_id :: "uuid option"
  mn_mentioned_key_id :: "uuid option"
  mn_mentioned_name :: string
  mn_mention_type :: string

record IssueAttachment =
  at_id :: uuid
  at_issue_id :: uuid
  at_filename :: string
  at_content_type :: string
  at_size_bytes :: int
  at_s3_key :: string
  at_uploaded_by :: string
  at_created_at :: time

record records_db =
  rd_versions :: "version_row list"
  rd_heads :: "(uuid \<times> string) list"
  rd_escalations :: "esc_pg_row list"
  rd_comments :: "(uuid \<times> IssueComment) list"
  rd_mentions :: "(uuid \<times> time \<times> CommentMention) list"
  rd_attachments :: "(uuid \<times> IssueAttachment) list"

record records_env = auth_env +
  re_kind_to_value :: "EventKind \<Rightarrow> string"
  re_kind_from_value :: "string \<Rightarrow> EventKind option"
  re_kind_to_string :: "EventKind \<Rightarrow> string"
  re_jsonb_text :: "string \<Rightarrow> string"
  re_conflicts_to_value :: "EscalationConflict list \<Rightarrow> string"
  re_conflicts_from_value :: "string \<Rightarrow> EscalationConflict list option"
  re_options_to_value :: "ResolutionOption list \<Rightarrow> string"
  re_options_from_value :: "string \<Rightarrow> ResolutionOption list option"
  re_bigint :: "string \<Rightarrow> int option"
  re_order_versions :: "string \<Rightarrow> VersionMeta list \<Rightarrow> VersionMeta list"
  re_order_escalations :: "string \<Rightarrow> esc_pg_row list \<Rightarrow> esc_pg_row list"

text \<open>The casts between \<open>u64\<close> and \<open>i64\<close>.\<close>

definition as_i64 :: "nat \<Rightarrow> int" where
  "as_i64 n = (if n < 2 ^ 63 then int n else int n - 2 ^ 64)"

definition as_u64 :: "int \<Rightarrow> nat" where
  "as_u64 z = nat (z mod 2 ^ 64)"

lemma as_u64_as_i64 [simp]: "n < 2 ^ 64 \<Longrightarrow> as_u64 (as_i64 n) = n"
  by (auto simp: as_u64_def as_i64_def nat_mod_distrib)

section \<open>Events\<close>

record EventFilter =
  ef_event_types :: "string list"
  ef_workspace_ids :: "uuid list"
  ef_entity_ids :: "string list"
  ef_paths :: "string list"

definition event_filter_is_empty :: "EventFilter \<Rightarrow> bool" where
  "event_filter_is_empty f \<longleftrightarrow> ef_event_types f = [] \<and> ef_workspace_ids f = [] \<and> ef_entity_ids f = [] \<and> ef_paths f = []"

definition event_filter_matches :: "('e) records_env_scheme \<Rightarrow> EventFilter \<Rightarrow> Event \<Rightarrow> bool" where
  "event_filter_matches env f e \<longleftrightarrow>
     (ef_event_types f = [] \<or> list_ex (\<lambda>t. t = event_type (ev_kind e)) (ef_event_types f)) \<and>
     (ef_workspace_ids f = [] \<or> (case kind_workspace_id (ev_kind e) of Some ws \<Rightarrow> ws \<in> set (ef_workspace_ids f) | None \<Rightarrow> False)) \<and>
     (ef_entity_ids f = [] \<or> list_ex (\<lambda>i. sublist i (re_kind_to_string env (ev_kind e))) (ef_entity_ids f)) \<and>
     (ef_paths f = [] \<or> list_ex (\<lambda>p. sublist p (re_kind_to_string env (ev_kind e))) (ef_paths f))"

text \<open>The insert and the notification are one transaction; the identity column counts up.\<close>

definition pg_append ::
  "('e) records_env_scheme \<Rightarrow> hosted \<Rightarrow> time \<Rightarrow> uuid \<Rightarrow> EventKind \<Rightarrow> (StorageError, Event) result \<times> hosted" where
  "pg_append env h now r k =
     (let i = Suc (ho_event_seq h);
          row = \<lparr>evr_id = i, evr_repo_id = r, evr_event_type = event_type k, evr_workspace_id = kind_workspace_id k,
                 evr_payload = re_kind_to_value env k, evr_created_at = now\<rparr>
      in db_write env ''append'' r h
           (Inr \<lparr>ev_id = i, ev_timestamp = now, ev_kind = k\<rparr>, h\<lparr>ho_events := ho_events h @ [row], ho_event_seq := i\<rparr>))"

fun rows_to_events :: "('e) records_env_scheme \<Rightarrow> event_row list \<Rightarrow> (StorageError, Event list) result" where
  "rows_to_events env [] = Inr []"
| "rows_to_events env (x # xs) =
     (case re_kind_from_value env (evr_payload x) of
        None \<Rightarrow> Inl (StSerialization (evr_payload x))
      | Some k \<Rightarrow> bind_result (rows_to_events env xs)
          (\<lambda>es. Inr (\<lparr>ev_id = evr_id x, ev_timestamp = evr_created_at x, ev_kind = k\<rparr> # es)))"

definition select_events ::
  "('e) records_env_scheme \<Rightarrow> string \<Rightarrow> hosted \<Rightarrow> uuid \<Rightarrow> (event_row \<Rightarrow> bool) \<Rightarrow> (StorageError, Event list) result" where
  "select_events env op h r P =
     bind_result (db_read env op r (Inr (sort_key evr_id (filter (\<lambda>x. evr_repo_id x = r \<and> P x) (ho_events h))))) (rows_to_events env)"

definition pg_query_by_type :: "('e) records_env_scheme \<Rightarrow> hosted \<Rightarrow> uuid \<Rightarrow> string \<Rightarrow> (StorageError, Event list) result" where
  "pg_query_by_type env h r t = select_events env ''query_by_type'' h r (\<lambda>x. evr_event_type x = t)"

definition pg_query_by_workspace :: "('e) records_env_scheme \<Rightarrow> hosted \<Rightarrow> uuid \<Rightarrow> uuid \<Rightarrow> (StorageError, Event list) result" where
  "pg_query_by_workspace env h r ws = select_events env ''query_by_workspace'' h r (\<lambda>x. evr_workspace_id x = Some ws)"

definition pg_query_by_time_range ::
  "('e) records_env_scheme \<Rightarrow> hosted \<Rightarrow> uuid \<Rightarrow> time \<Rightarrow> time \<Rightarrow> (StorageError, Event list) result" where
  "pg_query_by_time_range env h r from_t to_t =
     select_events env ''query_by_time_range'' h r (\<lambda>x. from_t \<le> evr_created_at x \<and> evr_created_at x \<le> to_t)"

definition pg_query_since_id :: "('e) records_env_scheme \<Rightarrow> hosted \<Rightarrow> uuid \<Rightarrow> int \<Rightarrow> (StorageError, Event list) result" where
  "pg_query_since_id env h r last_id = select_events env ''query_since_id'' h r (\<lambda>x. last_id < int (evr_id x))"

definition payload_like :: "('e) records_env_scheme \<Rightarrow> string list \<Rightarrow> event_row \<Rightarrow> bool" where
  "payload_like env ps x \<longleftrightarrow> list_ex (\<lambda>p. like (''%'' @ p @ ''%'') (re_jsonb_text env (evr_payload x))) ps"

definition filter_clause :: "('e) records_env_scheme \<Rightarrow> EventFilter \<Rightarrow> event_row \<Rightarrow> bool" where
  "filter_clause env f x \<longleftrightarrow>
     (ef_event_types f = [] \<or> evr_event_type x \<in> set (ef_event_types f)) \<and>
     (ef_workspace_ids f = [] \<or> (case evr_workspace_id x of Some ws \<Rightarrow> ws \<in> set (ef_workspace_ids f) | None \<Rightarrow> False)) \<and>
     (ef_entity_ids f = [] \<or> payload_like env (ef_entity_ids f) x) \<and>
     (ef_paths f = [] \<or> payload_like env (ef_paths f) x)"

definition pg_query_since_id_filtered ::
  "('e) records_env_scheme \<Rightarrow> hosted \<Rightarrow> uuid \<Rightarrow> int \<Rightarrow> EventFilter \<Rightarrow> (StorageError, Event list) result" where
  "pg_query_since_id_filtered env h r last_id f =
     (if event_filter_is_empty f then pg_query_since_id env h r last_id
      else select_events env ''query_since_id_filtered'' h r (\<lambda>x. last_id < int (evr_id x) \<and> filter_clause env f x))"

text \<open>The default implementation of the trait, on the store's own \<open>query_since_id\<close>.\<close>

definition default_query_since_id_filtered ::
  "('e) records_env_scheme \<Rightarrow> (uuid \<Rightarrow> int \<Rightarrow> (StorageError, Event list) result) \<Rightarrow> uuid \<Rightarrow> int \<Rightarrow> EventFilter \<Rightarrow> (StorageError, Event list) result" where
  "default_query_since_id_filtered env query_since_id r last_id f =
     (if event_filter_is_empty f then query_since_id r last_id
      else bind_result (query_since_id r last_id) (\<lambda>es. Inr (filter (event_filter_matches env f) es)))"

definition pg_count :: "('e) records_env_scheme \<Rightarrow> hosted \<Rightarrow> uuid \<Rightarrow> (StorageError, nat) result" where
  "pg_count env h r = db_read env ''count'' r (Inr (length (filter (\<lambda>x. evr_repo_id x = r) (ho_events h))))"

section \<open>Versions\<close>

definition row_to_version :: "version_row \<Rightarrow> VersionMeta" where
  "row_to_version x =
     \<lparr>vm_id = Some (pv_id x), vm_version_id = pv_version_id x, vm_parent_version_id = pv_parent_version_id x,
      vm_intent = pv_intent x, vm_created_by = pv_created_by x, vm_created_at = pv_created_at x,
      vm_merge_event_id = map_option as_u64 (pv_merge_event_id x)\<rparr>"

text \<open>An identifier that parses as a UUID is looked up by the primary key first.\<close>

definition pg_get_version :: "('e) records_env_scheme \<Rightarrow> records_db \<Rightarrow> uuid \<Rightarrow> string \<Rightarrow> (StorageError, VersionMeta) result" where
  "pg_get_version env d r v =
     db_read env ''get_version'' r
       (case Option.bind (au_uuid_parse env v) (\<lambda>i. find (\<lambda>x. pv_repo_id x = r \<and> pv_id x = i) (rd_versions d)) of
          Some x \<Rightarrow> Inr (row_to_version x)
        | None \<Rightarrow> (case find (\<lambda>x. pv_repo_id x = r \<and> pv_version_id x = v) (rd_versions d) of
                     Some x \<Rightarrow> Inr (row_to_version x) | None \<Rightarrow> Inl (StNotFound (''version '' @ v))))"

definition pg_create_version ::
  "('e) records_env_scheme \<Rightarrow> records_db \<Rightarrow> time \<Rightarrow> uuid \<Rightarrow> uuid \<Rightarrow> NewVersion \<Rightarrow> (StorageError, VersionMeta) result \<times> records_db" where
  "pg_create_version env d now i r n =
     (let row = \<lparr>pv_id = i, pv_repo_id = r, pv_version_id = nv_version_id n, pv_parent_version_id = nv_parent_version_id n,
                 pv_intent = nv_intent n, pv_created_by = nv_created_by n,
                 pv_merge_event_id = map_option as_i64 (nv_merge_event_id n), pv_created_at = now\<rparr>
      in db_write env ''create_version'' r d
           (if list_ex (\<lambda>x. pv_id x = i \<or> pv_repo_id x = r \<and> pv_version_id x = nv_version_id n) (rd_versions d)
            then (Inl (StDatabase ''create_version''), d)
            else let d' = d\<lparr>rd_versions := rd_versions d @ [row]\<rparr> in (pg_get_version env d' r (nv_version_id n), d')))"

definition pg_list_versions ::
  "('e) records_env_scheme \<Rightarrow> records_db \<Rightarrow> uuid \<Rightarrow> ListQuery \<Rightarrow> (StorageError, VersionMeta ListResult) result option" where
  "pg_list_versions env d r q =
     (let rows = map row_to_version (filter (\<lambda>x. pv_repo_id x = r) (rd_versions d));
          cols = map_of (map (\<lambda>c. (c, c)) [''created_at'', ''version_id'', ''created_by'']);
          clause = (if sql_order_by q cols = [] then ''ORDER BY created_at DESC'' else sql_order_by q cols)
      in map_option (\<lambda>lo. db_read env ''list_versions'' r (Inr (limit_clause lo (re_order_versions env clause rows))))
           (sql_limit_offset q))"

text \<open>The cast of a suffix that is no number fails the whole query.\<close>

definition pg_list_versions_since ::
  "('e) records_env_scheme \<Rightarrow> records_db \<Rightarrow> uuid \<Rightarrow> nat \<Rightarrow> nat \<Rightarrow> (StorageError, VersionMeta list) result" where
  "pg_list_versions_since env d r since_num head_num =
     (let rows = filter (\<lambda>x. pv_repo_id x = r) (rd_versions d); num = (\<lambda>x. the (re_bigint env (tl (pv_version_id x))))
      in db_read env ''list_versions_since'' r
           (if list_ex (\<lambda>x. re_bigint env (tl (pv_version_id x)) = None) rows then Inl (StDatabase ''list_versions_since'')
            else Inr (map row_to_version (sort_key num (filter (\<lambda>x. as_i64 since_num < num x \<and> num x \<le> as_i64 head_num) rows)))))"

definition pg_read_head :: "('e) records_env_scheme \<Rightarrow> records_db \<Rightarrow> uuid \<Rightarrow> (StorageError, string option) result" where
  "pg_read_head env d r = db_read env ''read_head'' r (Inr (map_of (rd_heads d) r))"

definition pg_advance_head ::
  "('e) records_env_scheme \<Rightarrow> records_db \<Rightarrow> uuid \<Rightarrow> string \<Rightarrow> (StorageError, unit) result \<times> records_db" where
  "pg_advance_head env d r v = db_write env ''advance_head'' r d (Inr (), d\<lparr>rd_heads := AList.update r v (rd_heads d)\<rparr>)"

section \<open>Escalations\<close>

record NewEscalation =
  ne_escalation_type :: EscalationType
  ne_severity :: EscalationSeverity
  ne_summary :: string
  ne_intents :: "string list"
  ne_agents :: "string list"
  ne_workspace_ids :: "uuid list"
  ne_affected_entities :: "string list"
  ne_conflicts :: "EscalationConflict list"
  ne_resolution_options :: "ResolutionOption list"

definition pg_row_to_escalation :: "('e) records_env_scheme \<Rightarrow> esc_pg_row \<Rightarrow> (StorageError, Escalation) result" where
  "pg_row_to_escalation env x =
     (case re_options_from_value env (ep_resolution_options x) of
        None \<Rightarrow> Inl (StSerialization (ep_resolution_options x))
      | Some options \<Rightarrow>
          Inr \<lparr>es_id = ep_id x,
               es_escalation_type = or_default MergeConflict (esc_type_from_db_str (ep_escalation_type x)),
               es_severity = or_default EsHigh (esc_severity_from_db_str (ep_severity x)),
               es_status = (if ep_resolved x then EsResolved else EsPending),
               es_summary = ep_summary x, es_intents = ep_intents x, es_agents = ep_agents x,
               es_workspace_ids = ep_workspace_ids x, es_affected_entities = ep_affected_entities x,
               es_conflicts = or_default [] (re_conflicts_from_value env (ep_conflicts x)),
               es_resolution_options = options,
               es_resolution = Option.bind (ep_resolution x) option_from_db_str,
               es_resolved_by = ep_resolved_by x, es_created_at = ep_created_at x, es_resolved_at = ep_resolved_at x\<rparr>)"

definition pg_get_escalation :: "('e) records_env_scheme \<Rightarrow> records_db \<Rightarrow> uuid \<Rightarrow> uuid \<Rightarrow> (StorageError, Escalation) result" where
  "pg_get_escalation env d r i =
     bind_result (db_read env ''get_escalation'' i
       (case find (\<lambda>x. ep_repo_id x = r \<and> ep_id x = i) (rd_escalations d) of
          None \<Rightarrow> Inl (StNotFound (''escalation '' @ se_uuid env i)) | Some x \<Rightarrow> Inr x)) (pg_row_to_escalation env)"

definition pg_create_escalation ::
  "('e) records_env_scheme \<Rightarrow> records_db \<Rightarrow> time \<Rightarrow> uuid \<Rightarrow> uuid \<Rightarrow> NewEscalation \<Rightarrow> (StorageError, Escalation) result \<times> records_db" where
  "pg_create_escalation env d now i r e =
     (let row = \<lparr>ep_id = i, ep_repo_id = r, ep_escalation_type = esc_type_str (ne_escalation_type e),
                 ep_severity = esc_severity_str (ne_severity e), ep_summary = ne_summary e, ep_intents = ne_intents e,
                 ep_agents = ne_agents e, ep_workspace_ids = ne_workspace_ids e, ep_affected_entities = ne_affected_entities e,
                 ep_conflicts = re_conflicts_to_value env (ne_conflicts e),
                 ep_resolution_options = re_options_to_value env (ne_resolution_options e),
                 ep_resolved = False, ep_resolution = None, ep_resolved_by = None, ep_resolved_at = None, ep_created_at = now\<rparr>
      in db_write env ''create_escalation'' r d
           (if list_ex (\<lambda>x. ep_id x = i) (rd_escalations d) then (Inl (StDatabase ''create_escalation''), d)
            else let d' = d\<lparr>rd_escalations := rd_escalations d @ [row]\<rparr> in (pg_get_escalation env d' r i, d')))"

fun pg_escalations :: "('e) records_env_scheme \<Rightarrow> esc_pg_row list \<Rightarrow> (StorageError, Escalation list) result" where
  "pg_escalations env [] = Inr []"
| "pg_escalations env (x # xs) =
     bind_result (pg_row_to_escalation env x) (\<lambda>e. bind_result (pg_escalations env xs) (\<lambda>es. Inr (e # es)))"

definition pg_list_escalations ::
  "('e) records_env_scheme \<Rightarrow> records_db \<Rightarrow> uuid \<Rightarrow> bool \<Rightarrow> ListQuery \<Rightarrow> (StorageError, Escalation ListResult) result option" where
  "pg_list_escalations env d r pending_only q =
     (let rows = filter (\<lambda>x. ep_repo_id x = r \<and> (pending_only \<longrightarrow> \<not> ep_resolved x)) (rd_escalations d);
          cols = map_of [(''created_at'', ''created_at''), (''status'', ''resolved''), (''id'', ''id''), (''severity'', ''severity'')];
          clause = (if sql_order_by q cols = [] then ''ORDER BY created_at DESC'' else sql_order_by q cols)
      in map_option (\<lambda>lo. bind_result (db_read env ''list_escalations'' r (Inr (limit_clause lo (re_order_escalations env clause rows))))
             (\<lambda>page. bind_result (pg_escalations env (lr_items page)) (\<lambda>es. Inr \<lparr>lr_items = es, lr_total = lr_total page\<rparr>)))
           (sql_limit_offset q))"

definition pg_resolve_escalation ::
  "('e) records_env_scheme \<Rightarrow> records_db \<Rightarrow> time \<Rightarrow> uuid \<Rightarrow> uuid \<Rightarrow> ResolutionOption \<Rightarrow> string \<Rightarrow> (StorageError, Escalation) result \<times> records_db" where
  "pg_resolve_escalation env d now r i resolution resolved_by =
     db_write env ''resolve_escalation'' i d
       (let d' = d\<lparr>rd_escalations := map (\<lambda>x. if ep_repo_id x = r \<and> ep_id x = i
                     then x\<lparr>ep_resolved := True, ep_resolution := Some (option_str resolution), ep_resolved_by := Some resolved_by,
                            ep_resolved_at := Some now\<rparr> else x) (rd_escalations d)\<rparr>
        in (pg_get_escalation env d' r i, d'))"

section \<open>Comments\<close>

record NewIssueComment =
  nc_author :: string
  nc_body :: string
  nc_author_type :: string
  nc_author_id :: "string option"
  nc_parent_id :: "uuid option"

record NewCommentMention =
  nm_mentioned_user_id :: "uuid option"
  nm_mentioned_key_id :: "uuid option"
  nm_mentioned_name :: string
  nm_mention_type :: string

definition mention_entity_id :: "CommentMention \<Rightarrow> uuid option" where
  "mention_entity_id m = (case mn_mentioned_user_id m of Some u \<Rightarrow> Some u | None \<Rightarrow> mn_mentioned_key_id m)"

definition issue_row_exists :: "hosted \<Rightarrow> uuid \<Rightarrow> bool" where
  "issue_row_exists h i \<longleftrightarrow> list_ex (\<lambda>(r, x). is_id x = i) (ho_issues h)"

definition repo_row_exists :: "hosted \<Rightarrow> uuid \<Rightarrow> bool" where
  "repo_row_exists h r \<longleftrightarrow> list_ex (\<lambda>x. rp_id x = r) (ho_repos h)"

definition comment_exists :: "records_db \<Rightarrow> uuid \<Rightarrow> bool" where
  "comment_exists d i \<longleftrightarrow> list_ex (\<lambda>(r, c). ic_id c = i) (rd_comments d)"

text \<open>The foreign keys to the repository, the issue and the parent comment are checked by the insert.\<close>

definition pg_create_comment ::
  "('e) records_env_scheme \<Rightarrow> hosted \<Rightarrow> records_db \<Rightarrow> time \<Rightarrow> uuid \<Rightarrow> uuid \<Rightarrow> uuid \<Rightarrow> NewIssueComment \<Rightarrow>
   (StorageError, IssueComment) result \<times> records_db" where
  "pg_create_comment env h d now i r issue_id n =
     (let c = \<lparr>ic_id = i, ic_issue_id = issue_id, ic_author = nc_author n, ic_body = Some (nc_body n), ic_author_type = nc_author_type n,
               ic_author_id = nc_author_id n, ic_created_at = now, ic_parent_id = nc_parent_id n, ic_edited_at = None, ic_deleted_at = None\<rparr>
      in db_write env ''create_comment'' issue_id d
           (if comment_exists d i \<or> \<not> repo_row_exists h r \<or> \<not> issue_row_exists h issue_id \<or>
               (case nc_parent_id n of Some p \<Rightarrow> \<not> comment_exists d p | None \<Rightarrow> False)
            then (Inl (StDatabase ''create_comment''), d)
            else (Inr c, d\<lparr>rd_comments := rd_comments d @ [(r, c)]\<rparr>)))"

definition pg_list_comments :: "('e) records_env_scheme \<Rightarrow> records_db \<Rightarrow> uuid \<Rightarrow> uuid \<Rightarrow> (StorageError, IssueComment list) result" where
  "pg_list_comments env d r issue_id =
     db_read env ''list_comments'' issue_id
       (Inr (sort_key ic_created_at (map snd (filter (\<lambda>(r', c). r' = r \<and> ic_issue_id c = issue_id) (rd_comments d)))))"

definition update_comment_row ::
  "('e) records_env_scheme \<Rightarrow> string \<Rightarrow> records_db \<Rightarrow> uuid \<Rightarrow> uuid \<Rightarrow> (IssueComment \<Rightarrow> IssueComment) \<Rightarrow>
   (StorageError, IssueComment) result \<times> records_db" where
  "update_comment_row env op d r i f =
     db_write env op i d
       (case find (\<lambda>(r', c). r' = r \<and> ic_id c = i) (rd_comments d) of
          None \<Rightarrow> (Inl (StNotFound (se_uuid env i)), d)
        | Some (r', c) \<Rightarrow>
            (Inr (f c), d\<lparr>rd_comments := map (\<lambda>(r', c). if r' = r \<and> ic_id c = i then (r', f c) else (r', c)) (rd_comments d)\<rparr>))"

definition pg_update_comment ::
  "('e) records_env_scheme \<Rightarrow> records_db \<Rightarrow> time \<Rightarrow> uuid \<Rightarrow> uuid \<Rightarrow> string \<Rightarrow> (StorageError, IssueComment) result \<times> records_db" where
  "pg_update_comment env d now r i new_body =
     update_comment_row env ''update_comment'' d r i (\<lambda>c. c\<lparr>ic_body := Some new_body, ic_edited_at := Some now\<rparr>)"

definition pg_soft_delete_comment ::
  "('e) records_env_scheme \<Rightarrow> records_db \<Rightarrow> time \<Rightarrow> uuid \<Rightarrow> uuid \<Rightarrow> (StorageError, IssueComment) result \<times> records_db" where
  "pg_soft_delete_comment env d now r i =
     update_comment_row env ''soft_delete_comment'' d r i (\<lambda>c. c\<lparr>ic_deleted_at := Some now\<rparr>)"

text \<open>
  The old mentions go and the new ones come in one transaction; \<open>ids\<close> are the identifiers the database
  draws, one for each.
\<close>

definition new_mention :: "uuid \<Rightarrow> uuid \<times> NewCommentMention \<Rightarrow> CommentMention" where
  "new_mention comment_id p =
     \<lparr>mn_id = fst p, mn_comment_id = comment_id, mn_mentioned_user_id = nm_mentioned_user_id (snd p),
      mn_mentioned_key_id = nm_mentioned_key_id (snd p), mn_mentioned_name = nm_mentioned_name (snd p),
      mn_mention_type = nm_mention_type (snd p)\<rparr>"

definition pg_replace_mentions ::
  "('e) records_env_scheme \<Rightarrow> records_db \<Rightarrow> time \<Rightarrow> uuid list \<Rightarrow> uuid \<Rightarrow> uuid \<Rightarrow> NewCommentMention list \<Rightarrow>
   (StorageError, CommentMention list) result \<times> records_db" where
  "pg_replace_mentions env d now ids r i mentions =
     (let kept = filter (\<lambda>(r', t, m). \<not> (mn_comment_id m = i \<and> r' = r)) (rd_mentions d);
          added = map (new_mention i) (zip ids mentions)
      in db_write env ''replace_mentions'' i d
           (if mentions \<noteq> [] \<and> \<not> comment_exists d i then (Inl (StDatabase ''replace_mentions''), d)
            else (Inr added, d\<lparr>rd_mentions := kept @ map (\<lambda>m. (r, now, m)) added\<rparr>)))"

definition mentions_by_age :: "records_db \<Rightarrow> (uuid \<Rightarrow> CommentMention \<Rightarrow> bool) \<Rightarrow> CommentMention list" where
  "mentions_by_age d P = map (snd \<circ> snd) (sort_key (fst \<circ> snd) (filter (\<lambda>(r', t, m). P r' m) (rd_mentions d)))"

definition pg_list_mentions :: "('e) records_env_scheme \<Rightarrow> records_db \<Rightarrow> uuid \<Rightarrow> uuid \<Rightarrow> (StorageError, CommentMention list) result" where
  "pg_list_mentions env d r i =
     db_read env ''list_mentions'' i (Inr (mentions_by_age d (\<lambda>r' m. r' = r \<and> mn_comment_id m = i)))"

definition pg_list_issue_mentions ::
  "('e) records_env_scheme \<Rightarrow> records_db \<Rightarrow> uuid \<Rightarrow> uuid \<Rightarrow> (StorageError, (uuid \<times> CommentMention list) list) result" where
  "pg_list_issue_mentions env d r issue_id =
     (let rows = mentions_by_age d (\<lambda>r' m. r' = r \<and> list_ex (\<lambda>(q, c). ic_id c = mn_comment_id m \<and> ic_issue_id c = issue_id) (rd_comments d))
      in db_read env ''list_issue_mentions'' issue_id
           (Inr (map (\<lambda>i. (i, filter (\<lambda>m. mn_comment_id m = i) rows)) (remdups (map mn_comment_id rows)))))"

section \<open>Links\<close>

datatype IssueLinkRelationship = LkBlocks | LkRelatesTo | LkDuplicates

definition link_rel_from_db_str :: "string \<Rightarrow> IssueLinkRelationship option" where
  "link_rel_from_db_str s =
     (if s = ''blocks'' then Some LkBlocks else if s = ''relates-to'' then Some LkRelatesTo
      else if s = ''duplicates'' then Some LkDuplicates else None)"

fun link_rel_as_str :: "IssueLinkRelationship \<Rightarrow> string" where
  "link_rel_as_str LkBlocks = ''blocks''"
| "link_rel_as_str LkRelatesTo = ''relates-to''"
| "link_rel_as_str LkDuplicates = ''duplicates''"

fun link_rel_inverse_str :: "IssueLinkRelationship \<Rightarrow> string" where
  "link_rel_inverse_str LkBlocks = ''is-blocked-by''"
| "link_rel_inverse_str LkRelatesTo = ''relates-to''"
| "link_rel_inverse_str LkDuplicates = ''is-duplicated-by''"

record IssueLink =
  li_source_id :: uuid
  li_target_id :: uuid
  li_relationship :: IssueLinkRelationship

text \<open>The primary key is the pair of source and target: a second link of a pair replaces the relationship of the first.\<close>

definition pg_create_link ::
  "('e) records_env_scheme \<Rightarrow> hosted \<Rightarrow> uuid \<Rightarrow> uuid \<Rightarrow> uuid \<Rightarrow> IssueLinkRelationship \<Rightarrow> (StorageError, IssueLink) result \<times> hosted" where
  "pg_create_link env h r source_id target_id rel =
     (let same = (\<lambda>l. lk_source_id l = source_id \<and> lk_target_id l = target_id);
          row = \<lparr>lk_repo_id = r, lk_source_id = source_id, lk_target_id = target_id, lk_relationship = link_rel_as_str rel\<rparr>
      in db_write env ''create_link'' source_id h
           (if \<not> repo_row_exists h r \<or> \<not> issue_row_exists h source_id \<or> \<not> issue_row_exists h target_id
            then (Inl (StDatabase ''create_link''), h)
            else (Inr \<lparr>li_source_id = source_id, li_target_id = target_id, li_relationship = rel\<rparr>,
                  h\<lparr>ho_links := (if list_ex same (ho_links h)
                      then map (\<lambda>l. if same l then l\<lparr>lk_relationship := link_rel_as_str rel\<rparr> else l) (ho_links h)
                      else ho_links h @ [row])\<rparr>)))"

definition pg_list_links :: "('e) records_env_scheme \<Rightarrow> hosted \<Rightarrow> uuid \<Rightarrow> uuid \<Rightarrow> (StorageError, IssueLink list) result" where
  "pg_list_links env h r i =
     db_read env ''list_links'' i
       (Inr (map (\<lambda>l. \<lparr>li_source_id = lk_source_id l, li_target_id = lk_target_id l,
                       li_relationship = or_default LkRelatesTo (link_rel_from_db_str (lk_relationship l))\<rparr>)
          (filter (\<lambda>l. lk_repo_id l = r \<and> (lk_source_id l = i \<or> lk_target_id l = i)) (ho_links h))))"

definition pg_delete_link ::
  "('e) records_env_scheme \<Rightarrow> hosted \<Rightarrow> uuid \<Rightarrow> uuid \<Rightarrow> uuid \<Rightarrow> (StorageError, unit) result \<times> hosted" where
  "pg_delete_link env h r source_id target_id =
     db_write env ''delete_link'' source_id h
       (Inr (), h\<lparr>ho_links := filter (\<lambda>l. \<not> (lk_repo_id l = r \<and> lk_source_id l = source_id \<and> lk_target_id l = target_id)) (ho_links h)\<rparr>)"

section \<open>Attachments\<close>

record NewIssueAttachment =
  na_filename :: string
  na_content_type :: string
  na_size_bytes :: int
  na_s3_key :: string
  na_uploaded_by :: string

text \<open>The message of a violated \<open>UNIQUE\<close> contains the word, so it is reported as a conflict; the foreign keys are not.\<close>

definition pg_create_attachment ::
  "('e) records_env_scheme \<Rightarrow> hosted \<Rightarrow> records_db \<Rightarrow> time \<Rightarrow> uuid \<Rightarrow> uuid \<Rightarrow> uuid \<Rightarrow> NewIssueAttachment \<Rightarrow>
   (StorageError, IssueAttachment) result \<times> records_db" where
  "pg_create_attachment env h d now i r issue_id n =
     (let a = \<lparr>at_id = i, at_issue_id = issue_id, at_filename = na_filename n, at_content_type = na_content_type n,
               at_size_bytes = na_size_bytes n, at_s3_key = na_s3_key n, at_uploaded_by = na_uploaded_by n, at_created_at = now\<rparr>
      in db_write env ''create_attachment'' issue_id d
           (if list_ex (\<lambda>(r', b). at_id b = i \<or> at_issue_id b = issue_id \<and> at_filename b = na_filename n) (rd_attachments d)
            then (Inl (StConflict (''attachment '' @ [CHR 0x27] @ na_filename n @ [CHR 0x27] @ '' already exists on this issue'')), d)
            else if \<not> repo_row_exists h r \<or> \<not> issue_row_exists h issue_id then (Inl (StDatabase ''create_attachment''), d)
            else (Inr a, d\<lparr>rd_attachments := rd_attachments d @ [(r, a)]\<rparr>)))"

definition pg_list_attachments :: "('e) records_env_scheme \<Rightarrow> records_db \<Rightarrow> uuid \<Rightarrow> uuid \<Rightarrow> (StorageError, IssueAttachment list) result" where
  "pg_list_attachments env d r issue_id =
     db_read env ''list_attachments'' issue_id
       (Inr (sort_key at_created_at (map snd (filter (\<lambda>(r', a). r' = r \<and> at_issue_id a = issue_id) (rd_attachments d)))))"

definition pg_get_attachment ::
  "('e) records_env_scheme \<Rightarrow> records_db \<Rightarrow> uuid \<Rightarrow> uuid \<Rightarrow> string \<Rightarrow> (StorageError, IssueAttachment) result" where
  "pg_get_attachment env d r issue_id filename =
     db_read env ''get_attachment'' issue_id
       (case find (\<lambda>(r', a). r' = r \<and> at_issue_id a = issue_id \<and> at_filename a = filename) (rd_attachments d) of
          None \<Rightarrow> Inl (StNotFound (''attachment '' @ [CHR 0x27] @ filename @ [CHR 0x27] @ '' not found''))
        | Some (r', a) \<Rightarrow> Inr a)"

definition pg_delete_attachment ::
  "('e) records_env_scheme \<Rightarrow> records_db \<Rightarrow> uuid \<Rightarrow> uuid \<Rightarrow> string \<Rightarrow> (StorageError, unit) result \<times> records_db" where
  "pg_delete_attachment env d r issue_id filename =
     db_write env ''delete_attachment'' issue_id d
       (Inr (), d\<lparr>rd_attachments := filter (\<lambda>(r', a). \<not> (r' = r \<and> at_issue_id a = issue_id \<and> at_filename a = filename)) (rd_attachments d)\<rparr>)"

section \<open>Filtering in the database\<close>

text \<open>A pattern without wildcards between two \<open>%\<close> is a search for a substring.\<close>

definition plain_pattern :: "string \<Rightarrow> bool" where
  "plain_pattern p \<longleftrightarrow> list_all (\<lambda>c. c \<noteq> CHR ''%'' \<and> c \<noteq> CHR ''_'' \<and> c \<noteq> CHR 0x5C) p"

lemma like_any: "like ''%'' s"
  by (induction s) simp_all

lemma like_prefix: "plain_pattern p \<Longrightarrow> like (p @ ''%'') s \<longleftrightarrow> prefix p s"
proof (induction p arbitrary: s)
  case Nil
  then show ?case using like_any by simp
next
  case (Cons c p)
  then show ?case by (cases s) (simp_all add: plain_pattern_def)
qed

lemma like_sublist: "plain_pattern p \<Longrightarrow> like (''%'' @ p @ ''%'') s \<longleftrightarrow> sublist p s"
proof (induction s)
  case Nil
  then show ?case using like_prefix [of p "[]"] by (simp add: sublist_Nil_right)
next
  case (Cons c s)
  then show ?case using like_prefix [of p "c # s"] by (simp add: sublist_Cons_right)
qed

text \<open>The table as \<open>append\<close> writes it: the columns are those of the event in the payload.\<close>

definition event_row_ok :: "('e) records_env_scheme \<Rightarrow> event_row \<Rightarrow> bool" where
  "event_row_ok env x \<longleftrightarrow>
     (case re_kind_from_value env (evr_payload x) of
        Some k \<Rightarrow> evr_event_type x = event_type k \<and> evr_workspace_id x = kind_workspace_id k
      | None \<Rightarrow> False)"

definition event_table_ok :: "('e) records_env_scheme \<Rightarrow> hosted \<Rightarrow> bool" where
  "event_table_ok env h \<longleftrightarrow> list_all (event_row_ok env) (ho_events h) \<and> sorted_wrt (<) (map evr_id (ho_events h)) \<and>
     list_all (\<lambda>x. evr_id x \<le> ho_event_seq h) (ho_events h)"

lemma pg_append_ok:
  assumes "event_table_ok env h" "\<And>k. re_kind_from_value env (re_kind_to_value env k) = Some k"
  shows "event_table_ok env (snd (pg_append env h now r k))"
  using assms
  by (auto simp: event_table_ok_def pg_append_def Let_def db_write_def list_all_iff event_row_ok_def sorted_wrt_append less_Suc_eq_le)

definition event_of_row :: "('e) records_env_scheme \<Rightarrow> event_row \<Rightarrow> Event" where
  "event_of_row env x = \<lparr>ev_id = evr_id x, ev_timestamp = evr_created_at x, ev_kind = the (re_kind_from_value env (evr_payload x))\<rparr>"

lemma rows_to_events_ok: "list_all (event_row_ok env) xs \<Longrightarrow> rows_to_events env xs = Inr (map (event_of_row env) xs)"
  by (induction xs) (auto simp: event_row_ok_def event_of_row_def split: option.splits)

lemma select_events_ok:
  assumes "event_table_ok env h" "\<not> se_down env op r"
  shows "select_events env op h r P =
    Inr (map (event_of_row env) (sort_key evr_id (filter (\<lambda>x. evr_repo_id x = r \<and> P x) (ho_events h))))"
  using assms by (subst select_events_def) (simp add: db_read_def rows_to_events_ok event_table_ok_def list_all_iff)

definition same_text :: "('e) records_env_scheme \<Rightarrow> hosted \<Rightarrow> string \<Rightarrow> bool" where
  "same_text env h p \<longleftrightarrow> list_all (\<lambda>x. sublist p (re_jsonb_text env (evr_payload x)) \<longleftrightarrow>
     sublist p (re_kind_to_string env (ev_kind (event_of_row env x)))) (ho_events h)"

lemma payload_like_iff:
  assumes "list_all plain_pattern ps" "list_all (same_text env h) ps" "x \<in> set (ho_events h)"
  shows "payload_like env ps x \<longleftrightarrow> list_ex (\<lambda>p. sublist p (re_kind_to_string env (ev_kind (event_of_row env x)))) ps"
proof -
  have "like (''%'' @ p @ ''%'') (re_jsonb_text env (evr_payload x)) \<longleftrightarrow> sublist p (re_kind_to_string env (ev_kind (event_of_row env x)))"
    if "p \<in> set ps" for p
    using that assms like_sublist [of p] by (auto simp: list_all_iff same_text_def)
  then show ?thesis by (auto simp: payload_like_def list_ex_iff simp del: append.simps)
qed

lemma filter_clause_iff:
  assumes "event_table_ok env h" "list_all plain_pattern (ef_entity_ids f @ ef_paths f)"
    "list_all (same_text env h) (ef_entity_ids f @ ef_paths f)" "x \<in> set (ho_events h)"
  shows "filter_clause env f x \<longleftrightarrow> event_filter_matches env f (event_of_row env x)"
proof -
  obtain k where k: "re_kind_from_value env (evr_payload x) = Some k" "evr_event_type x = event_type k" "evr_workspace_id x = kind_workspace_id k"
    using assms(1,4) by (auto simp: event_table_ok_def list_all_iff event_row_ok_def split: option.splits)
  have "ev_kind (event_of_row env x) = k" by (simp add: event_of_row_def k)
  moreover have "payload_like env (ef_entity_ids f) x \<longleftrightarrow> list_ex (\<lambda>p. sublist p (re_kind_to_string env (ev_kind (event_of_row env x)))) (ef_entity_ids f)"
    "payload_like env (ef_paths f) x \<longleftrightarrow> list_ex (\<lambda>p. sublist p (re_kind_to_string env (ev_kind (event_of_row env x)))) (ef_paths f)"
    using assms(2-4) by (auto simp: payload_like_iff [OF _ _ assms(4)])
  ultimately show ?thesis
    by (simp add: filter_clause_def event_filter_matches_def k(2,3) list_ex_iff)
qed

lemma map_sort_filter:
  assumes "\<And>x. x \<in> set xs \<Longrightarrow> P x \<longleftrightarrow> Q (g x)"
  shows "map g (sort_key key (filter P xs)) = filter Q (map g (sort_key key xs))"
proof -
  have "filter P xs = filter (Q \<circ> g) xs" using assms by (auto intro: filter_cong)
  then show ?thesis by (simp add: filter_sort filter_map)
qed


text \<open>An underscore in a path is a wildcard of \<open>LIKE\<close>: the pushed-down filter accepts a path that does not contain the string.\<close>

lemma underscore_matches_any: "like (''%'' @ ''a_b.rs'' @ ''%'') ''axb.rs''" "\<not> sublist ''a_b.rs'' ''axb.rs''"
  by (simp_all add: sublist_code)

definition sample_kind :: EventKind where
  "sample_kind = FileAdded 7 ''src/main.rs'' ''h''"

definition sample_records_env :: records_env where
  "sample_records_env =
     \<lparr>se_uuid = nat_to_string, se_down = (\<lambda>op key. False), se_lower = to_lowercase, se_order_issues = (\<lambda>c xs. xs),
      se_order_workspaces = (\<lambda>c xs. xs), se_order_workers = (\<lambda>c xs. xs), oe_sort_names = (\<lambda>xs. xs), oe_quote = (\<lambda>s. s),
      au_hash = rev, au_encode = (\<lambda>k c. Inr ''h.p.s''), au_decode = (\<lambda>k l t s. Inl ExpiredSignature), au_uuid_parse = parse_digits 0,
      re_kind_to_value = (\<lambda>k. ''{src/main.rs}''), re_kind_from_value = (\<lambda>s. Some sample_kind), re_kind_to_string = (\<lambda>k. ''{src/main.rs}''),
      re_jsonb_text = (\<lambda>s. s), re_conflicts_to_value = (\<lambda>c. []), re_conflicts_from_value = (\<lambda>s. Some []),
      re_options_to_value = (\<lambda>c. []), re_options_from_value = (\<lambda>s. Some []),
      re_bigint = (\<lambda>s. map_option int (parse_digits 0 s)), re_order_versions = (\<lambda>c xs. xs), re_order_escalations = (\<lambda>c xs. xs)\<rparr>"

definition empty_hosted :: hosted where
  "empty_hosted = \<lparr>ho_repos = [], ho_workers = [], ho_logs = [], ho_log_seq = 0, ho_workspaces = [], ho_issues = [], ho_links = [],
     ho_events = [], ho_event_seq = 0\<rparr>"


end
