(* ===== verification/Compute.thy ===== *)
theory Compute
  imports Vai_Prelude
begin

text \<open>
  The compute provider of the hosted server (\<open>src/server/compute/mod.rs\<close>) and its two adapters: the
  in-memory one (\<open>src/server/compute/in_memory.rs\<close>) and Fly Machines (\<open>src/server/compute/fly.rs\<close>).

  The trait is the record \<open>ComputeProvider\<close> of its operations over a provider state, and its contract
  the locale \<open>compute_provider\<close>: which machines are alive before and after each call. A \<open>HashMap\<close> is an
  association list without duplicate keys, in some order. The machine ids that \<open>Uuid::new_v4()\<close> draws
  are a sequence in the state of the in-memory provider. The Fly adapter talks to a remote API; what one
  HTTP exchange does to the machines there is an argument, \<open>fly_api\<close>, and what the API documents about
  it is the predicate \<open>fly_documented\<close>.
\<close>

section \<open>The port\<close>

datatype MachineId = MachineId (machine_id_0: string)

datatype ResourceClass = RcSmall | RcMedium | RcLarge

type_synonym WorkerLabels = "(string \<times> string) list"

record WorkerSpec =
  sp_image :: string
  sp_env :: "(string \<times> string) list"
  sp_resources :: ResourceClass
  sp_labels :: WorkerLabels
  sp_idempotency_key :: string

datatype WorkerState = WsSpawning | WsRunning | WsCompleted | WsFailed | WsDead

record WorkerStatus =
  st_id :: MachineId
  st_state :: WorkerState
  st_exit_code :: "int option"

record WorkerSummary =
  su_id :: MachineId
  su_state :: WorkerState
  su_labels :: WorkerLabels

datatype ProviderError = PrNotFound MachineId | PrProvider string | PrTransient string

fun provider_error_text :: "ProviderError \<Rightarrow> string" where
  "provider_error_text (PrNotFound m) = ''machine not found: '' @ machine_id_0 m"
| "provider_error_text (PrProvider s) = ''provider error: '' @ s"
| "provider_error_text (PrTransient s) = ''transient error: '' @ s"

record 'c ComputeProvider =
  cp_spawn :: "'c \<Rightarrow> WorkerSpec \<Rightarrow> (ProviderError, MachineId) result \<times> 'c"
  cp_destroy :: "'c \<Rightarrow> MachineId \<Rightarrow> (ProviderError, unit) result \<times> 'c"
  cp_describe :: "'c \<Rightarrow> MachineId \<Rightarrow> (ProviderError, WorkerStatus) result"
  cp_list :: "'c \<Rightarrow> WorkerLabels \<Rightarrow> (ProviderError, WorkerSummary list) result"

section \<open>The in-memory adapter\<close>

record WorkerRecord =
  wr_spec :: WorkerSpec
  wr_state :: WorkerState
  wr_exit_code :: "int option"

record InMemoryProvider =
  im_workers :: "(MachineId \<times> WorkerRecord) list"
  im_uuids :: "nat \<Rightarrow> string"
  im_drawn :: nat

definition im_new :: "(nat \<Rightarrow> string) \<Rightarrow> InMemoryProvider" where
  "im_new uuids = \<lparr>im_workers = [], im_uuids = uuids, im_drawn = 0\<rparr>"

definition im_update :: "MachineId \<Rightarrow> (WorkerRecord \<Rightarrow> WorkerRecord) \<Rightarrow> InMemoryProvider \<Rightarrow> InMemoryProvider" where
  "im_update m f c =
     (case map_of (im_workers c) m of None \<Rightarrow> c | Some r \<Rightarrow> c\<lparr>im_workers := AList.update m (f r) (im_workers c)\<rparr>)"

definition im_set_state :: "InMemoryProvider \<Rightarrow> MachineId \<Rightarrow> WorkerState \<Rightarrow> InMemoryProvider" where
  "im_set_state c m s = im_update m (\<lambda>r. r\<lparr>wr_state := s\<rparr>) c"

definition im_set_exit_code :: "InMemoryProvider \<Rightarrow> MachineId \<Rightarrow> int \<Rightarrow> InMemoryProvider" where
  "im_set_exit_code c m code = im_update m (\<lambda>r. r\<lparr>wr_exit_code := Some code\<rparr>) c"

definition im_worker_count :: "InMemoryProvider \<Rightarrow> nat" where
  "im_worker_count c = length (im_workers c)"

definition im_get_worker_env :: "InMemoryProvider \<Rightarrow> MachineId \<Rightarrow> (string \<times> string) list option" where
  "im_get_worker_env c m = map_option (\<lambda>r. sp_env (wr_spec r)) (map_of (im_workers c) m)"

definition im_spawn :: "InMemoryProvider \<Rightarrow> WorkerSpec \<Rightarrow> (ProviderError, MachineId) result \<times> InMemoryProvider" where
  "im_spawn c spec =
     (let m = MachineId (im_uuids c (im_drawn c));
          r = \<lparr>wr_spec = spec, wr_state = WsSpawning, wr_exit_code = None\<rparr>
      in (Inr m, c\<lparr>im_workers := AList.update m r (im_workers c), im_drawn := im_drawn c + 1\<rparr>))"

definition im_destroy :: "InMemoryProvider \<Rightarrow> MachineId \<Rightarrow> (ProviderError, unit) result \<times> InMemoryProvider" where
  "im_destroy c m =
     (let removed = map_of (im_workers c) m; c' = c\<lparr>im_workers := AList.delete m (im_workers c)\<rparr>
      in if removed \<noteq> None then (Inr (), c') else (Inl (PrNotFound m), c'))"

definition im_describe :: "InMemoryProvider \<Rightarrow> MachineId \<Rightarrow> (ProviderError, WorkerStatus) result" where
  "im_describe c m =
     (case map_of (im_workers c) m of
        None \<Rightarrow> Inl (PrNotFound m)
      | Some r \<Rightarrow> Inr \<lparr>st_id = m, st_state = wr_state r, st_exit_code = wr_exit_code r\<rparr>)"

definition im_list :: "InMemoryProvider \<Rightarrow> WorkerLabels \<Rightarrow> (ProviderError, WorkerSummary list) result" where
  "im_list c labels =
     Inr (map (\<lambda>(m, r). \<lparr>su_id = m, su_state = wr_state r, su_labels = sp_labels (wr_spec r)\<rparr>)
       (filter (\<lambda>(m, r). list_all (\<lambda>(k, v). map_of (sp_labels (wr_spec r)) k = Some v) labels) (im_workers c)))"

definition in_memory :: "InMemoryProvider ComputeProvider" where
  "in_memory = \<lparr>cp_spawn = im_spawn, cp_destroy = im_destroy, cp_describe = im_describe, cp_list = im_list\<rparr>"

section \<open>The Fly Machines adapter\<close>

record FlyMachinesProvider =
  fp_app_name :: string
  fp_region :: string
  fp_token :: string
  fp_pnpm_store_volume :: "string option"

definition fly_from_env :: "(string \<rightharpoonup> string) \<Rightarrow> string \<Rightarrow> string \<Rightarrow> FlyMachinesProvider option" where
  "fly_from_env var app_name region =
     map_option (\<lambda>t. \<lparr>fp_app_name = app_name, fp_region = region, fp_token = t,
                      fp_pnpm_store_volume = var ''VAI_COMPUTE_FLY_PNPM_STORE_VOLUME''\<rparr>)
       (var ''VAI_COMPUTE_FLY_TOKEN'')"

definition auth_header :: "FlyMachinesProvider \<Rightarrow> string" where
  "auth_header f = ''Bearer '' @ fp_token f"

definition fly_api_base :: string where
  "fly_api_base = ''https://api.machines.dev/v1''"

definition machines_url :: "FlyMachinesProvider \<Rightarrow> string" where
  "machines_url f = fly_api_base @ ''/apps/'' @ fp_app_name f @ ''/machines''"

definition machine_url :: "FlyMachinesProvider \<Rightarrow> string \<Rightarrow> string" where
  "machine_url f i = fly_api_base @ ''/apps/'' @ fp_app_name f @ ''/machines/'' @ i"

record FlyMachine =
  fm_id :: string
  fm_state :: string

definition fly_state_to_worker_state :: "string \<Rightarrow> WorkerState" where
  "fly_state_to_worker_state s =
     (if s = ''created'' \<or> s = ''starting'' then WsSpawning
      else if s = ''started'' then WsRunning
      else if s = ''stopped'' then WsCompleted
      else if s = ''failed'' then WsFailed
      else WsDead)"

record guest =
  gu_cpu_kind :: string
  gu_cpus :: nat
  gu_memory_mb :: nat

fun resource_class_to_guest :: "ResourceClass \<Rightarrow> guest" where
  "resource_class_to_guest RcSmall = \<lparr>gu_cpu_kind = ''shared'', gu_cpus = 1, gu_memory_mb = 512\<rparr>"
| "resource_class_to_guest RcMedium = \<lparr>gu_cpu_kind = ''shared'', gu_cpus = 2, gu_memory_mb = 1024\<rparr>"
| "resource_class_to_guest RcLarge = \<lparr>gu_cpu_kind = ''performance'', gu_cpus = 2, gu_memory_mb = 8192\<rparr>"

text \<open>The body of the request that creates a machine.\<close>

record fly_body =
  fb_image :: string
  fb_env :: "(string \<times> string) list"
  fb_auto_destroy :: bool
  fb_restart_policy :: string
  fb_guest :: guest
  fb_mounts :: "(string \<times> string) list"
  fb_region :: string
  fb_name :: string

datatype http_method = GET | POST (post_body: fly_body) (post_idempotency_key: string) | DELETE

record http_request =
  rq_method :: http_method
  rq_url :: string
  rq_authorization :: string

text \<open>
  A response: its status code and its body, as text and as the machines that text decodes to (\<open>None\<close>
  when it does not).
\<close>

record http_response =
  hr_status :: nat
  hr_text :: string
  hr_machine :: "FlyMachine option"
  hr_machines :: "FlyMachine list option"

text \<open>A transport error carries its message.\<close>

type_synonym 'c fly_api = "'c \<Rightarrow> http_request \<Rightarrow> (string, http_response) result \<times> 'c"

definition is_success :: "nat \<Rightarrow> bool" where
  "is_success s \<longleftrightarrow> 200 \<le> s \<and> s < 300"

definition fly_spawn_body :: "FlyMachinesProvider \<Rightarrow> WorkerSpec \<Rightarrow> fly_body" where
  "fly_spawn_body f spec =
     \<lparr>fb_image = sp_image spec,
      fb_env = (case fp_pnpm_store_volume f of
                  Some v \<Rightarrow> AList.update ''PNPM_STORE_PATH'' ''/pnpm-store'' (sp_env spec) | None \<Rightarrow> sp_env spec),
      fb_auto_destroy = True, fb_restart_policy = ''no'', fb_guest = resource_class_to_guest (sp_resources spec),
      fb_mounts = (case fp_pnpm_store_volume f of Some v \<Rightarrow> [(v, ''/pnpm-store'')] | None \<Rightarrow> []),
      fb_region = fp_region f,
      fb_name = ''vai-worker-'' @ take (min 8 (length (sp_idempotency_key spec))) (sp_idempotency_key spec)\<rparr>"

definition fly_spawn ::
  "(nat \<Rightarrow> string) \<Rightarrow> FlyMachinesProvider \<Rightarrow> 'c fly_api \<Rightarrow> 'c \<Rightarrow> WorkerSpec \<Rightarrow> (ProviderError, MachineId) result \<times> 'c" where
  "fly_spawn status_text f api c spec =
     (let req = \<lparr>rq_method = POST (fly_spawn_body f spec) (sp_idempotency_key spec), rq_url = machines_url f,
                 rq_authorization = auth_header f\<rparr>
      in case api c req of
           (Inl e, c') \<Rightarrow> (Inl (PrTransient e), c')
         | (Inr resp, c') \<Rightarrow>
             if \<not> is_success (hr_status resp)
             then (Inl (PrProvider (status_text (hr_status resp) @ '': '' @ hr_text resp)), c')
             else (case hr_machine resp of
                     None \<Rightarrow> (Inl (PrTransient (hr_text resp)), c')
                   | Some m \<Rightarrow> (Inr (MachineId (fm_id m)), c')))"

definition fly_destroy ::
  "FlyMachinesProvider \<Rightarrow> 'c fly_api \<Rightarrow> 'c \<Rightarrow> MachineId \<Rightarrow> (ProviderError, unit) result \<times> 'c" where
  "fly_destroy f api c m =
     (let req = \<lparr>rq_method = DELETE, rq_url = machine_url f (machine_id_0 m) @ ''?force=true'', rq_authorization = auth_header f\<rparr>
      in case api c req of
           (Inl e, c') \<Rightarrow> (Inl (PrTransient e), c')
         | (Inr resp, c') \<Rightarrow>
             if hr_status resp = 200 \<or> hr_status resp = 204 \<or> hr_status resp = 404 then (Inr (), c')
             else (Inl (PrProvider (nat_to_string (hr_status resp) @ '': '' @ hr_text resp)), c'))"

definition fly_describe ::
  "FlyMachinesProvider \<Rightarrow> 'c fly_api \<Rightarrow> 'c \<Rightarrow> MachineId \<Rightarrow> (ProviderError, WorkerStatus) result" where
  "fly_describe f api c m =
     (let req = \<lparr>rq_method = GET, rq_url = machine_url f (machine_id_0 m), rq_authorization = auth_header f\<rparr>
      in case fst (api c req) of
           Inl e \<Rightarrow> Inl (PrTransient e)
         | Inr resp \<Rightarrow>
             if hr_status resp = 404 then Inl (PrNotFound m)
             else if \<not> is_success (hr_status resp) then Inl (PrProvider (hr_text resp))
             else (case hr_machine resp of
                     None \<Rightarrow> Inl (PrTransient (hr_text resp))
                   | Some x \<Rightarrow> Inr \<lparr>st_id = m, st_state = fly_state_to_worker_state (fm_state x), st_exit_code = None\<rparr>))"

definition fly_list ::
  "FlyMachinesProvider \<Rightarrow> 'c fly_api \<Rightarrow> 'c \<Rightarrow> WorkerLabels \<Rightarrow> (ProviderError, WorkerSummary list) result" where
  "fly_list f api c labels =
     (let req = \<lparr>rq_method = GET, rq_url = machines_url f, rq_authorization = auth_header f\<rparr>
      in case fst (api c req) of
           Inl e \<Rightarrow> Inl (PrTransient e)
         | Inr resp \<Rightarrow>
             if \<not> is_success (hr_status resp) then Inl (PrProvider (hr_text resp))
             else (case hr_machines resp of
                     None \<Rightarrow> Inl (PrTransient (hr_text resp))
                   | Some ms \<Rightarrow> Inr (map (\<lambda>x. \<lparr>su_id = MachineId (fm_id x), su_state = fly_state_to_worker_state (fm_state x), su_labels = []\<rparr>)
                                   (filter (\<lambda>_. labels = []) ms))))"

definition fly_machines :: "(nat \<Rightarrow> string) \<Rightarrow> FlyMachinesProvider \<Rightarrow> 'c fly_api \<Rightarrow> 'c ComputeProvider" where
  "fly_machines status_text f api =
     \<lparr>cp_spawn = fly_spawn status_text f api, cp_destroy = fly_destroy f api, cp_describe = fly_describe f api,
      cp_list = fly_list f api\<rparr>"

section \<open>The contract\<close>

text \<open>
  \<open>live c\<close> are the machines that run, \<open>wf\<close> an invariant of the provider's state. A successful spawn starts
  exactly one machine under a new id. A failed one may have started a machine whose id the caller never
  learns, but stops none. A destroy that succeeds, or that reports \<open>NotFound\<close>, leaves the machine not
  running and every other one as it was; one that fails otherwise stops nothing but that machine.
\<close>

locale compute_provider =
  fixes cp :: "'c ComputeProvider" and wf :: "'c \<Rightarrow> bool" and live :: "'c \<Rightarrow> MachineId set"
  assumes spawn_wf: "wf c \<Longrightarrow> wf (snd (cp_spawn cp c spec))"
    and destroy_wf: "wf c \<Longrightarrow> wf (snd (cp_destroy cp c m))"
    and spawn_live: "wf c \<Longrightarrow> cp_spawn cp c spec = (Inr m, c') \<Longrightarrow> m \<notin> live c \<and> live c' = insert m (live c)"
    and spawn_error: "wf c \<Longrightarrow> cp_spawn cp c spec = (Inl e, c') \<Longrightarrow> live c \<subseteq> live c'"
    and destroy_live: "wf c \<Longrightarrow> cp_destroy cp c m = (Inr (), c') \<Longrightarrow> live c' = live c - {m}"
    and destroy_not_found: "wf c \<Longrightarrow> cp_destroy cp c m = (Inl (PrNotFound m'), c') \<Longrightarrow> live c' = live c - {m}"
    and destroy_error: "wf c \<Longrightarrow> cp_destroy cp c m = (Inl e, c') \<Longrightarrow> live c - {m} \<subseteq> live c' \<and> live c' \<subseteq> live c"
begin

lemma destroy_mono: "wf c \<Longrightarrow> live (snd (cp_destroy cp c m)) \<subseteq> live c"
  using destroy_live [of c m] destroy_error [of c m]
  by (cases "cp_destroy cp c m"; cases "fst (cp_destroy cp c m)") fastforce+

lemma destroy_others: "wf c \<Longrightarrow> live c - {m} \<subseteq> live (snd (cp_destroy cp c m))"
  using destroy_live [of c m] destroy_error [of c m]
  by (cases "cp_destroy cp c m"; cases "fst (cp_destroy cp c m)") fastforce+

text \<open>A machine that was spawned and then destroyed without an error runs no longer, and the others are as before.\<close>

lemma spawn_destroy:
  assumes "wf c" "cp_spawn cp c spec = (Inr m, c')" "cp_destroy cp c' m = (Inr (), c'')"
  shows "live c'' = live c"
proof -
  have "wf c'" using spawn_wf [OF assms(1), of spec] assms(2) by simp
  with destroy_live [OF _ assms(3)] spawn_live [OF assms(1,2)] show ?thesis by auto
qed

end

section \<open>The in-memory adapter keeps it\<close>

text \<open>The keys are distinct, they were drawn, and the drawn ids are distinct.\<close>

definition im_ok :: "InMemoryProvider \<Rightarrow> bool" where
  "im_ok c \<longleftrightarrow> distinct (map fst (im_workers c)) \<and> inj (im_uuids c) \<and>
     fst ` set (im_workers c) \<subseteq> (\<lambda>n. MachineId (im_uuids c n)) ` {..<im_drawn c}"

definition im_live :: "InMemoryProvider \<Rightarrow> MachineId set" where
  "im_live c = fst ` set (im_workers c)"

lemma dom_update_delete:
  "fst ` set (AList.update k v xs) = insert k (fst ` set xs)"
  "fst ` set (AList.delete k xs) = fst ` set xs - {k}"
  by (simp add: dom_update) (metis delete_keys list.set_map set_removeAll)

lemma im_ok_new: "inj uuids \<Longrightarrow> im_ok (im_new uuids)"
  by (simp add: im_ok_def im_new_def)

lemma im_spawn_ok:
  assumes "im_ok c" shows "im_ok (snd (im_spawn c spec))"
  using assms by (auto simp: im_ok_def im_spawn_def Let_def distinct_update dom_update_delete lessThan_Suc)

lemma im_destroy_ok:
  assumes "im_ok c" shows "im_ok (snd (im_destroy c m))"
  using assms by (auto simp: im_ok_def im_destroy_def Let_def distinct_delete dom_update_delete)

lemma im_update_ok: "im_ok c \<Longrightarrow> im_ok (im_update m f c) \<and> im_live (im_update m f c) = im_live c"
  by (auto simp: im_ok_def im_live_def im_update_def distinct_update dom_update_delete
      dest: map_of_SomeD intro: rev_image_eqI split: option.split)

lemma im_fresh: "im_ok c \<Longrightarrow> MachineId (im_uuids c (im_drawn c)) \<notin> im_live c"
  unfolding im_ok_def im_live_def by (auto dest: injD dest!: subsetD)

lemma im_spawn_cases:
  "cp_spawn in_memory c spec = (r, c') \<Longrightarrow>
     r = Inr (MachineId (im_uuids c (im_drawn c))) \<and> im_live c' = insert (MachineId (im_uuids c (im_drawn c))) (im_live c)"
  by (clarsimp simp: in_memory_def im_spawn_def Let_def im_live_def dom_update_delete(1))

lemma im_destroy_cases:
  "cp_destroy in_memory c m = (r, c') \<Longrightarrow> im_live c' = im_live c - {m} \<and> r = (if m \<in> im_live c then Inr () else Inl (PrNotFound m))"
  by (clarsimp simp: in_memory_def im_destroy_def Let_def im_live_def dom_update_delete(2) map_of_eq_None_iff simp del: not_None_eq split: if_splits)

interpretation im: compute_provider in_memory im_ok im_live
proof unfold_locales
  show "im_ok c \<Longrightarrow> im_ok (snd (cp_spawn in_memory c spec))" for c spec using im_spawn_ok by (simp add: in_memory_def)
  show "im_ok c \<Longrightarrow> im_ok (snd (cp_destroy in_memory c m))" for c m using im_destroy_ok by (simp add: in_memory_def)
  show "m \<notin> im_live c \<and> im_live c' = insert m (im_live c)" if "im_ok c" "cp_spawn in_memory c spec = (Inr m, c')" for c spec m c'
    using im_spawn_cases [OF that(2)] im_fresh [OF that(1)] by simp
qed (auto dest: im_spawn_cases im_destroy_cases split: if_splits)

section \<open>The Fly adapter keeps it\<close>

text \<open>
  What the adapter relies on of the remote API, for the machines \<open>machines c\<close> of the app: a \<open>POST\<close> that
  answers with a machine has started it under a new id, and no \<open>POST\<close> stops one; a \<open>DELETE\<close> touches
  its own machine only, and one that is answered 200, 204 or 404 leaves that machine gone.
\<close>

definition fly_documented :: "FlyMachinesProvider \<Rightarrow> 'c fly_api \<Rightarrow> ('c \<Rightarrow> string set) \<Rightarrow> bool" where
  "fly_documented f api machines \<longleftrightarrow>
     (\<forall>c b k resp c' x. api c \<lparr>rq_method = POST b k, rq_url = machines_url f, rq_authorization = auth_header f\<rparr> = (Inr resp, c') \<longrightarrow>
        is_success (hr_status resp) \<longrightarrow> hr_machine resp = Some x \<longrightarrow> fm_id x \<notin> machines c \<and> machines c' = insert (fm_id x) (machines c)) \<and>
     (\<forall>c b k. machines c \<subseteq> machines (snd (api c \<lparr>rq_method = POST b k, rq_url = machines_url f, rq_authorization = auth_header f\<rparr>))) \<and>
     (\<forall>c i r c'. api c \<lparr>rq_method = DELETE, rq_url = machine_url f i @ ''?force=true'', rq_authorization = auth_header f\<rparr> = (r, c') \<longrightarrow>
        machines c - {i} \<subseteq> machines c' \<and> machines c' \<subseteq> machines c \<and>
        (\<forall>resp. r = Inr resp \<longrightarrow> hr_status resp \<in> {200, 204, 404} \<longrightarrow> i \<notin> machines c'))"

lemma fly_documentedD:
  assumes "fly_documented f api machines"
  shows "api c \<lparr>rq_method = POST b k, rq_url = machines_url f, rq_authorization = auth_header f\<rparr> = (Inr resp, c') \<Longrightarrow>
      is_success (hr_status resp) \<Longrightarrow> hr_machine resp = Some x \<Longrightarrow> fm_id x \<notin> machines c \<and> machines c' = insert (fm_id x) (machines c)"
    and "machines c \<subseteq> machines (snd (api c \<lparr>rq_method = POST b k, rq_url = machines_url f, rq_authorization = auth_header f\<rparr>))"
    and "api c \<lparr>rq_method = DELETE, rq_url = machine_url f i @ ''?force=true'', rq_authorization = auth_header f\<rparr> = (r, c') \<Longrightarrow>
      machines c - {i} \<subseteq> machines c' \<and> machines c' \<subseteq> machines c \<and>
      (\<forall>resp. r = Inr resp \<longrightarrow> hr_status resp \<in> {200, 204, 404} \<longrightarrow> i \<notin> machines c')"
proof -
  note d = assms [unfolded fly_documented_def]
  show "api c \<lparr>rq_method = POST b k, rq_url = machines_url f, rq_authorization = auth_header f\<rparr> = (Inr resp, c') \<Longrightarrow>
      is_success (hr_status resp) \<Longrightarrow> hr_machine resp = Some x \<Longrightarrow> fm_id x \<notin> machines c \<and> machines c' = insert (fm_id x) (machines c)"
    by (rule d [THEN conjunct1, rule_format])
  show "machines c \<subseteq> machines (snd (api c \<lparr>rq_method = POST b k, rq_url = machines_url f, rq_authorization = auth_header f\<rparr>))"
    by (rule d [THEN conjunct2, THEN conjunct1, rule_format])
  show "api c \<lparr>rq_method = DELETE, rq_url = machine_url f i @ ''?force=true'', rq_authorization = auth_header f\<rparr> = (r, c') \<Longrightarrow>
      machines c - {i} \<subseteq> machines c' \<and> machines c' \<subseteq> machines c \<and>
      (\<forall>resp. r = Inr resp \<longrightarrow> hr_status resp \<in> {200, 204, 404} \<longrightarrow> i \<notin> machines c')"
    by (rule d [THEN conjunct2, THEN conjunct2, THEN spec, THEN spec, THEN spec, THEN spec, THEN mp])
qed

lemma fly_spawn_cases:
  assumes "fly_documented f api machines" "fly_spawn st f api c spec = (r, c')"
  shows "case r of Inr m \<Rightarrow> machine_id_0 m \<notin> machines c \<and> machines c' = insert (machine_id_0 m) (machines c)
    | Inl e \<Rightarrow> machines c \<subseteq> machines c'"
proof -
  obtain q d where a: "api c \<lparr>rq_method = POST (fly_spawn_body f spec) (sp_idempotency_key spec), rq_url = machines_url f,
      rq_authorization = auth_header f\<rparr> = (q, d)" by (rule prod.exhaust)
  have mono: "machines c \<subseteq> machines d" using fly_documentedD(2) [OF assms(1), of c "fly_spawn_body f spec"] by (metis a snd_conv)
  have new: "fm_id x \<notin> machines c \<and> machines d = insert (fm_id x) (machines c)"
    if "q = Inr resp" "is_success (hr_status resp)" "hr_machine resp = Some x" for resp x
    using fly_documentedD(1) [OF assms(1) _ that(2,3)] a that(1) by blast
  show ?thesis
  proof (cases q)
    case (Inl e) then show ?thesis using assms(2) a mono by (auto simp: fly_spawn_def Let_def)
  next
    case (Inr resp)
    show ?thesis
    proof (cases "is_success (hr_status resp) \<and> hr_machine resp \<noteq> None")
      case True
      then obtain x where "hr_machine resp = Some x" "is_success (hr_status resp)" by blast
      with new [OF Inr] assms(2) a Inr show ?thesis by (auto simp: fly_spawn_def Let_def)
    next
      case False
      with assms(2) a Inr mono show ?thesis by (auto simp: fly_spawn_def Let_def split: if_splits option.splits)
    qed
  qed
qed

lemma fly_destroy_cases:
  assumes "fly_documented f api machines" "fly_destroy f api c m = (r, c')"
  shows "machines c - {machine_id_0 m} \<subseteq> machines c'" "machines c' \<subseteq> machines c"
    "r = Inr () \<Longrightarrow> machine_id_0 m \<notin> machines c'" "r \<noteq> Inl (PrNotFound m')"
proof -
  obtain q d where a: "api c \<lparr>rq_method = DELETE, rq_url = machine_url f (machine_id_0 m) @ ''?force=true'',
      rq_authorization = auth_header f\<rparr> = (q, d)" by (rule prod.exhaust)
  have d: "machines c - {machine_id_0 m} \<subseteq> machines d \<and> machines d \<subseteq> machines c \<and>
      (\<forall>resp. q = Inr resp \<longrightarrow> hr_status resp \<in> {200, 204, 404} \<longrightarrow> machine_id_0 m \<notin> machines d)"
    using fly_documentedD(3) [OF assms(1) a] .
  have "c' = d" using assms(2) a by (auto simp: fly_destroy_def Let_def split: sum.splits if_splits)
  with d show "machines c - {machine_id_0 m} \<subseteq> machines c'" "machines c' \<subseteq> machines c" by blast+
  show "machine_id_0 m \<notin> machines c'" if "r = Inr ()"
    using d \<open>c' = d\<close> that assms(2) a by (auto simp: fly_destroy_def Let_def split: sum.splits if_splits)
  show "r \<noteq> Inl (PrNotFound m')" using assms(2) a by (auto simp: fly_destroy_def Let_def split: sum.splits if_splits)
qed

lemma fly_keeps_contract:
  assumes "fly_documented f api machines"
  shows "compute_provider (fly_machines st f api) (\<lambda>_. True) (\<lambda>c. MachineId ` machines c)"
proof unfold_locales
  fix c spec m c' assume "cp_spawn (fly_machines st f api) c spec = (Inr m, c')"
  then show "m \<notin> MachineId ` machines c \<and> MachineId ` machines c' = insert m (MachineId ` machines c)"
    using fly_spawn_cases [OF assms, of st c spec "Inr m" c'] by (auto simp: fly_machines_def)
next
  fix c spec e c' assume "cp_spawn (fly_machines st f api) c spec = (Inl e, c')"
  then show "MachineId ` machines c \<subseteq> MachineId ` machines c'"
    using fly_spawn_cases [OF assms, of st c spec "Inl e" c'] by (auto simp: fly_machines_def)
next
  fix c m c' assume "cp_destroy (fly_machines st f api) c m = (Inr (), c')"
  then have "fly_destroy f api c m = (Inr (), c')" by (simp add: fly_machines_def)
  note fly_destroy_cases [OF assms this]
  then show "MachineId ` machines c' = MachineId ` machines c - {m}" by (cases m) auto
next
  fix c m m' c' assume "cp_destroy (fly_machines st f api) c m = (Inl (PrNotFound m'), c')"
  then have "fly_destroy f api c m = (Inl (PrNotFound m'), c')" by (simp add: fly_machines_def)
  from fly_destroy_cases(4) [OF assms this] show "MachineId ` machines c' = MachineId ` machines c - {m}" by blast
next
  fix c m e c' assume "cp_destroy (fly_machines st f api) c m = (Inl e, c')"
  then have "fly_destroy f api c m = (Inl e, c')" by (simp add: fly_machines_def)
  note fly_destroy_cases [OF assms this]
  then show "MachineId ` machines c - {m} \<subseteq> MachineId ` machines c' \<and> MachineId ` machines c' \<subseteq> MachineId ` machines c"
    by (cases m) auto
qed simp_all

text \<open>
  The Fly adapter does not filter by label: with any label given it lists no machine at all.
\<close>

lemma fly_list_labelled: "labels \<noteq> [] \<Longrightarrow> fly_list f api c labels = Inr xs \<Longrightarrow> xs = []"
  by (auto simp: fly_list_def Let_def split: sum.splits if_splits option.splits)

lemma in_memory_list_labelled:
  "im_list c labels = Inr xs \<Longrightarrow> su_id ` set xs =
     {m. \<exists>r. (m, r) \<in> set (im_workers c) \<and> set labels \<subseteq> {(k, v). map_of (sp_labels (wr_spec r)) k = Some v}}"
  by (force simp: im_list_def list_all_iff)

end
