(* ===== verification/Limits.thy ===== *)
theory Limits
  imports Auth
begin

text \<open>
  What the server does to every request and to every client path (\<open>src/server/mod.rs\<close>): the sliding-window rate limiter and
  its middleware, the replay buffer of broadcast events, the check of client-supplied paths and lengths.

  An \<open>Instant\<close> is an integer number of nanoseconds; the least one the platform can represent is an argument, since
  \<open>checked_sub\<close> fails below it. The parser of RFC 3339 timestamps is an argument too. Wall-clock time counts
  seconds.
\<close>

section \<open>The rate limiter\<close>

datatype RateLimitResult = Allowed | Denied nat

type_synonym RateLimiter = "string \<Rightarrow> int list"

definition limiter_new :: RateLimiter where
  "limiter_new = (\<lambda>key. [])"

definition checked_sub :: "int \<Rightarrow> int \<Rightarrow> int \<Rightarrow> int option" where
  "checked_sub inst_min t w = (if inst_min \<le> t - w then Some (t - w) else None)"

text \<open>\<open>None\<close> is the panic of \<open>expect\<close> when nothing at all is allowed.\<close>

definition limiter_check :: "int \<Rightarrow> RateLimiter \<Rightarrow> int \<Rightarrow> string \<Rightarrow> nat \<Rightarrow> int \<Rightarrow> (RateLimitResult \<times> RateLimiter) option" where
  "limiter_check inst_min w now key lim window =
     (let cutoff = (case checked_sub inst_min now window of Some t \<Rightarrow> t | None \<Rightarrow> now);
          entry = dropWhile (\<lambda>ts. ts \<le> cutoff) (w key)
      in if lim \<le> length entry
         then (case entry of
                 [] \<Rightarrow> None
               | oldest # rest \<Rightarrow>
                   let elapsed = max 0 (now - oldest); retry_after = max 0 (window - elapsed)
                   in Some (Denied (max (nat (retry_after div 1000000000)) 1), w(key := entry)))
         else Some (Allowed, w(key := entry @ [now])))"

datatype RateLimitCategory = AuthIp | IssueCreate | WorkspaceCreate | FileUpload | NoLimit

definition normalise_path :: "string \<Rightarrow> string" where
  "normalise_path path =
     (case strip_prefix ''/api/repos/'' path of
        Some rest \<Rightarrow> (case split_once (CHR ''/'') rest of Some (a, b) \<Rightarrow> ''/'' @ b | None \<Rightarrow> [])
      | None \<Rightarrow> path)"

definition classify_rate_limit :: "string \<Rightarrow> string \<Rightarrow> RateLimitCategory" where
  "classify_rate_limit verb path =
     (let p = normalise_path path
      in if verb = ''POST'' then
           (if p = ''/api/keys'' then AuthIp
            else if p = ''/issues'' then IssueCreate
            else if p = ''/workspaces'' then WorkspaceCreate
            else if list_ex (ends_with p) [''/files'', ''/upload-snapshot'', ''/attachments''] then FileUpload
            else NoLimit)
         else NoLimit)"

record client_headers =
  ch_forwarded_for :: "string option"
  ch_real_ip :: "string option"
  ch_connect_ip :: "string option"

definition first_nonempty :: "string option \<Rightarrow> string option" where
  "first_nonempty s = (case s of Some ip \<Rightarrow> if ip = [] then None else Some ip | None \<Rightarrow> None)"

definition extract_client_ip :: "client_headers \<Rightarrow> string" where
  "extract_client_ip h =
     (case first_nonempty (map_option (\<lambda>v. trim (hd (split_char (CHR '','') v))) (ch_forwarded_for h)) of
        Some ip \<Rightarrow> ip
      | None \<Rightarrow>
          (case first_nonempty (map_option trim (ch_real_ip h)) of
             Some ip \<Rightarrow> ip
           | None \<Rightarrow> (case ch_connect_ip h of Some ip \<Rightarrow> ip | None \<Rightarrow> ''unknown'')))"

text \<open>The bucket of a request and its limit: at most so many requests in so many seconds.\<close>

definition rate_bucket :: "string \<Rightarrow> string \<Rightarrow> client_headers \<Rightarrow> AgentIdentity option \<Rightarrow> (string \<times> nat \<times> int) option" where
  "rate_bucket verb path h identity =
     (case classify_rate_limit verb path of
        NoLimit \<Rightarrow> None
      | AuthIp \<Rightarrow> Some (''ip_auth:'' @ extract_client_ip h, 10, 60)
      | IssueCreate \<Rightarrow> map_option (\<lambda>i. (''issue_create:'' @ ai_key_id i, 100, 3600)) identity
      | WorkspaceCreate \<Rightarrow> map_option (\<lambda>i. (''workspace_create:'' @ ai_key_id i, 50, 3600)) identity
      | FileUpload \<Rightarrow> map_option (\<lambda>i. (''file_upload:'' @ ai_key_id i, 200, 3600)) identity)"

text \<open>The answer 429 carries the seconds to wait; otherwise the request goes on.\<close>

datatype limit_outcome = Limited ApiError nat | Proceed

definition rate_limit_middleware ::
  "int \<Rightarrow> RateLimiter \<Rightarrow> int \<Rightarrow> string \<Rightarrow> string \<Rightarrow> client_headers \<Rightarrow> AgentIdentity option \<Rightarrow> (limit_outcome \<times> RateLimiter) option" where
  "rate_limit_middleware inst_min w now verb path h identity =
     (case rate_bucket verb path h identity of
        None \<Rightarrow> Some (Proceed, w)
      | Some (key, m, secs) \<Rightarrow>
          (case limiter_check inst_min w now key m (secs * 1000000000) of
             None \<Rightarrow> None
           | Some (Denied n, w') \<Rightarrow> Some (Limited (api_rate_limited ''rate limit exceeded; try again later'') n, w')
           | Some (Allowed, w') \<Rightarrow> Some (Proceed, w')))"

section \<open>Input validation\<close>

definition validate_str_len :: "string \<Rightarrow> nat \<Rightarrow> string \<Rightarrow> (ApiError, unit) result" where
  "validate_str_len v lim field =
     (if lim < length v
      then Inl (api_bad_request (''`'' @ field @ ''` exceeds maximum length of '' @ nat_to_string lim @ '' bytes (got '' @
                 nat_to_string (length v) @ '' bytes)''))
      else Inr ())"

text \<open>\<open>Path::components\<close> of a relative path: empty and \<open>.\<close> segments are dropped.\<close>

definition path_components :: "string \<Rightarrow> string list" where
  "path_components p = filter (\<lambda>c. c \<noteq> [] \<and> c \<noteq> ''.'') (split_char (CHR ''/'') p)"

definition sanitize_path :: "string \<Rightarrow> string option" where
  "sanitize_path raw =
     (if CHR 0x00 \<in> set raw then None
      else let trimmed = dropWhile (\<lambda>c. c = CHR ''/'') raw
           in if starts_with trimmed ''/'' then None
              else if ''..'' \<in> set (path_components trimmed) then None
              else Some trimmed)"

section \<open>The replay buffer\<close>

record BroadcastEvent =
  be_event_type :: string
  be_event_id :: nat
  be_workspace_id :: "string option"
  be_timestamp :: string
  be_data :: string

definition buffer_max_events :: nat where "buffer_max_events = 10000"
definition buffer_max_age_secs :: nat where "buffer_max_age_secs = 3600"

definition too_old :: "(string \<Rightarrow> time option) \<Rightarrow> time \<Rightarrow> BroadcastEvent \<Rightarrow> bool" where
  "too_old parse_ts now e = (case parse_ts (be_timestamp e) of Some t \<Rightarrow> t + buffer_max_age_secs < now | None \<Rightarrow> False)"

definition buffer_push :: "(string \<Rightarrow> time option) \<Rightarrow> time \<Rightarrow> BroadcastEvent list \<Rightarrow> BroadcastEvent \<Rightarrow> BroadcastEvent list" where
  "buffer_push parse_ts now events e =
     (let appended = events @ [e]; counted = drop (length appended - buffer_max_events) appended
      in dropWhile (too_old parse_ts now) counted)"

text \<open>The sum is on \<open>u64\<close>.\<close>

definition events_since :: "BroadcastEvent list \<Rightarrow> nat \<Rightarrow> bool \<times> BroadcastEvent list" where
  "events_since events last_id =
     (let missed = filter (\<lambda>e. last_id < be_event_id e) events;
          exceeded = (case events of [] \<Rightarrow> 0 < last_id | oldest # rest \<Rightarrow> (last_id + 1) mod 2 ^ 64 < be_event_id oldest)
      in (exceeded, missed))"

text \<open>
  A broadcast draws a number and then, under another lock, appends to the buffer: the two steps of one caller can be
  separated by steps of others. \<open>bs_drawn\<close> are the numbered events not yet appended, \<open>bs_sent\<close> those appended, oldest first.
\<close>

record broadcast_state =
  bs_seq :: nat
  bs_drawn :: "BroadcastEvent list"
  bs_buffer :: "BroadcastEvent list"
  bs_sent :: "BroadcastEvent list"

definition broadcast_new :: broadcast_state where
  "broadcast_new = \<lparr>bs_seq = 0, bs_drawn = [], bs_buffer = [], bs_sent = []\<rparr>"

definition broadcast_draw :: "broadcast_state \<Rightarrow> BroadcastEvent \<Rightarrow> BroadcastEvent \<times> broadcast_state" where
  "broadcast_draw s e =
     (let e' = e\<lparr>be_event_id := bs_seq s + 1\<rparr> in (e', s\<lparr>bs_seq := bs_seq s + 1, bs_drawn := bs_drawn s @ [e']\<rparr>))"

definition broadcast_append :: "(string \<Rightarrow> time option) \<Rightarrow> time \<Rightarrow> broadcast_state \<Rightarrow> BroadcastEvent \<Rightarrow> broadcast_state" where
  "broadcast_append parse_ts now s e =
     s\<lparr>bs_drawn := remove1 e (bs_drawn s), bs_buffer := buffer_push parse_ts now (bs_buffer s) e, bs_sent := bs_sent s @ [e]\<rparr>"

definition broadcast :: "(string \<Rightarrow> time option) \<Rightarrow> broadcast_state \<Rightarrow> time \<times> BroadcastEvent \<Rightarrow> broadcast_state" where
  "broadcast parse_ts s te = (let (e', s1) = broadcast_draw s (snd te) in broadcast_append parse_ts (fst te) s1 e')"

inductive broadcast_step :: "(string \<Rightarrow> time option) \<Rightarrow> broadcast_state \<Rightarrow> broadcast_state \<Rightarrow> bool" for parse_ts where
  draw: "broadcast_step parse_ts s (snd (broadcast_draw s e))"
| append: "e \<in> set (bs_drawn s) \<Longrightarrow> broadcast_step parse_ts s (broadcast_append parse_ts now s e)"

end
