(* ===== verification/WorkerRegistry.thy ===== *)
theory WorkerRegistry
  imports HostedRecords Compute WorkQueue Limits
begin

text \<open>
  Cloud workers of the hosted server: the capacity check and the spawn of a worker, the pass that reaps
  dead workers and orphaned workspaces, the pass that tops up workers
  (\<open>src/server/worker_registry.rs\<close>), the worker endpoints (\<open>src/server/worker.rs\<close>), the work-queue
  endpoints (\<open>src/server/work_queue.rs\<close>) and the teardown of a workspace (\<open>src/server/mod.rs\<close>).

  The provider is any \<open>ComputeProvider\<close>. A pass runs at one instant \<open>now\<close>. The identifier of a new worker
  and its idempotency key are functions of the state; as each spawn adds a row and none is ever
  deleted, this covers every sequence of draws. A \<open>HashMap\<close> is an association list without duplicate keys.
\<close>

record registry_env = records_env +
  rg_new_id :: "hosted \<Rightarrow> uuid"
  rg_idempotency_key :: "hosted \<Rightarrow> string"
  rg_secrets :: "uuid \<Rightarrow> (string, (string \<times> string) list) result"
  rg_var :: "string \<rightharpoonup> string"
  rg_json :: "(string \<times> string) list \<Rightarrow> string"
  rg_rfc3339 :: "time \<Rightarrow> string"
  rg_parse_ts :: "string \<Rightarrow> time option"

record SpawnConfig =
  sg_worker_image :: string
  sg_server_url :: string
  sg_repo_name :: string
  sg_vai_api_key :: string

datatype RegistryError = RgStorage StorageError | RgProvider string | RgMissingRepoSecret string

definition default_max_concurrent :: nat where "default_max_concurrent = 3"

definition default_stale_secs :: nat where "default_stale_secs = 900"

definition configured_max_concurrent :: "('e) registry_env_scheme \<Rightarrow> nat" where
  "configured_max_concurrent env =
     (case Option.bind (rg_var env ''VAI_WORKER_MAX_CONCURRENT'') parse_u64 of Some n \<Rightarrow> n | None \<Rightarrow> default_max_concurrent)"

definition configured_stale_secs :: "('e) registry_env_scheme \<Rightarrow> nat" where
  "configured_stale_secs env =
     (case Option.bind (rg_var env ''VAI_WORKER_STALE_SECS'') parse_u32 of Some n \<Rightarrow> n | None \<Rightarrow> default_stale_secs)"

section \<open>Spawning\<close>

text \<open>The first half of \<open>spawn_if_capacity\<close>: the two checks.\<close>

definition spawn_allowed :: "('e) registry_env_scheme \<Rightarrow> hosted \<Rightarrow> uuid \<Rightarrow> (RegistryError, bool) result" where
  "spawn_allowed env h r =
     bind_result (map_error RgStorage (is_cloud_agent_enabled env h r))
       (\<lambda>enabled. if \<not> enabled then Inr False
          else bind_result (map_error RgStorage (count_running_workers env h r))
                 (\<lambda>running. Inr (\<not> configured_max_concurrent env \<le> running)))"

text \<open>The secrets of the worker, with the server's key for a repository that has none of its own.\<close>

definition worker_secrets :: "('e) registry_env_scheme \<Rightarrow> uuid \<Rightarrow> string \<Rightarrow> (RegistryError, (string \<times> string) list) result" where
  "worker_secrets env r fallback_key =
     bind_result (map_error RgProvider (rg_secrets env r))
       (\<lambda>vault. if map_of vault ''ANTHROPIC_API_KEY'' \<noteq> None then Inr vault
          else if fallback_key \<noteq> [] then Inr (AList.update ''ANTHROPIC_API_KEY'' fallback_key vault)
          else Inl (RgMissingRepoSecret ''ANTHROPIC_API_KEY''))"

definition worker_env :: "('e) registry_env_scheme \<Rightarrow> uuid \<Rightarrow> uuid \<Rightarrow> SpawnConfig \<Rightarrow> (string \<times> string) list \<Rightarrow> (string \<times> string) list" where
  "worker_env env r w cfg vault =
     AList.update ''VAI_WORKER_ID'' (se_uuid env w) (AList.update ''VAI_REPO_ID'' (se_uuid env r)
       (AList.update ''VAI_API_KEY'' (sg_vai_api_key cfg) (AList.update ''VAI_REPO'' (sg_repo_name cfg)
         (AList.update ''VAI_SERVER_URL'' (sg_server_url cfg) vault))))"

definition worker_spec :: "('e) registry_env_scheme \<Rightarrow> hosted \<Rightarrow> uuid \<Rightarrow> uuid \<Rightarrow> SpawnConfig \<Rightarrow> (string \<times> string) list \<Rightarrow> WorkerSpec" where
  "worker_spec env h r w cfg vault =
     \<lparr>sp_image = sg_worker_image cfg, sp_env = worker_env env r w cfg vault, sp_resources = RcLarge,
      sp_labels = [(''vai_repo_id'', se_uuid env r)], sp_idempotency_key = rg_idempotency_key env h\<rparr>"

text \<open>The second half: the row is inserted before the machine boots, and stays when the boot fails.\<close>

definition spawn_commit ::
  "('e) registry_env_scheme \<Rightarrow> 'c ComputeProvider \<Rightarrow> time \<Rightarrow> hosted \<times> 'c \<Rightarrow> uuid \<Rightarrow> string \<Rightarrow> SpawnConfig \<Rightarrow>
   (RegistryError, uuid option) result \<times> hosted \<times> 'c" where
  "spawn_commit env cp now s r fallback_key cfg =
     (let (h, c) = s
      in case worker_secrets env r fallback_key of
           Inl e \<Rightarrow> (Inl e, h, c)
         | Inr vault \<Rightarrow>
             (case create_worker env h (rg_new_id env h) now \<lparr>nw_repo_id = r, nw_provider = ''fly'', nw_machine_id = None\<rparr> of
                (Inl e, h1) \<Rightarrow> (Inl (RgStorage e), h1, c)
              | (Inr w, h1) \<Rightarrow>
                  (case cp_spawn cp c (worker_spec env h1 r (wk_id w) cfg vault) of
                     (Inl e, c1) \<Rightarrow> (Inl (RgProvider (provider_error_text e)), h1, c1)
                   | (Inr m, c1) \<Rightarrow> (Inr (Some (wk_id w)), snd (set_machine_id env h1 (wk_id w) (machine_id_0 m)), c1))))"

definition spawn_if_capacity ::
  "('e) registry_env_scheme \<Rightarrow> 'c ComputeProvider \<Rightarrow> time \<Rightarrow> hosted \<times> 'c \<Rightarrow> uuid \<Rightarrow> string \<Rightarrow> SpawnConfig \<Rightarrow>
   (RegistryError, uuid option) result \<times> hosted \<times> 'c" where
  "spawn_if_capacity env cp now s r fallback_key cfg =
     (case spawn_allowed env (fst s) r of
        Inl e \<Rightarrow> (Inl e, s)
      | Inr False \<Rightarrow> (Inr None, s)
      | Inr True \<Rightarrow> spawn_commit env cp now s r fallback_key cfg)"

section \<open>The dead-worker pass\<close>

definition reopen :: IssueUpdate where
  "reopen = issue_update_default\<lparr>iu_status := Some IOpen\<rparr>"

definition release_workspace :: "('e) registry_env_scheme \<Rightarrow> time \<Rightarrow> AgentWorker \<Rightarrow> hosted \<Rightarrow> hosted" where
  "release_workspace env now w h =
     (case wk_workspace_id w of
        None \<Rightarrow> h
      | Some ws \<Rightarrow>
          (case get_workspace env h (wk_repo_id w) ws of
             Inl e \<Rightarrow> h
           | Inr meta \<Rightarrow>
               (case discard_workspace env h now (wk_repo_id w) ws of
                  (Inl e, h1) \<Rightarrow> h1
                | (Inr u, h1) \<Rightarrow>
                    (case wm_issue_id meta of
                       None \<Rightarrow> h1
                     | Some i \<Rightarrow> snd (update_issue env h1 now (wk_repo_id w) i reopen)))))"

definition destroy_machine :: "'c ComputeProvider \<Rightarrow> AgentWorker \<Rightarrow> 'c \<Rightarrow> 'c" where
  "destroy_machine cp w c = (case wk_machine_id w of None \<Rightarrow> c | Some m \<Rightarrow> snd (cp_destroy cp c (MachineId m)))"

definition reap_worker ::
  "('e) registry_env_scheme \<Rightarrow> 'c ComputeProvider \<Rightarrow> time \<Rightarrow> AgentWorker \<Rightarrow> nat \<times> hosted \<times> 'c \<Rightarrow> nat \<times> hosted \<times> 'c" where
  "reap_worker env cp now w s =
     (let (marked, h, c) = s
      in case mark_done env (release_workspace env now w h) now (wk_id w) DoneTerminated of
           (Inl e, h1) \<Rightarrow> (marked, h1, c)
         | (Inr u, h1) \<Rightarrow> (marked + 1, h1, destroy_machine cp w c))"

definition sweep_one :: "('e) registry_env_scheme \<Rightarrow> time \<Rightarrow> uuid \<times> uuid \<times> uuid \<Rightarrow> nat \<times> hosted \<Rightarrow> nat \<times> hosted" where
  "sweep_one env now x s =
     (let (ws, r, i) = x; (swept, h) = s
      in case discard_workspace env h now r ws of
           (Inl e, h1) \<Rightarrow> (swept, h1)
         | (Inr u, h1) \<Rightarrow> (swept + 1, snd (update_issue env h1 now r i reopen)))"

definition sweep_orphaned_workspaces :: "('e) registry_env_scheme \<Rightarrow> hosted \<Rightarrow> time \<Rightarrow> nat \<Rightarrow> nat \<times> hosted" where
  "sweep_orphaned_workspaces env h now stale_secs =
     (case list_orphaned_issue_workspaces env h now stale_secs of
        Inl e \<Rightarrow> (0, h)
      | Inr orphans \<Rightarrow> fold (sweep_one env now) orphans (0, h))"

definition reconcile_once ::
  "('e) registry_env_scheme \<Rightarrow> 'c ComputeProvider \<Rightarrow> time \<Rightarrow> nat \<Rightarrow> hosted \<times> 'c \<Rightarrow> nat \<times> hosted \<times> 'c" where
  "reconcile_once env cp now stale_secs s =
     (case list_stale_workers env (fst s) now stale_secs of
        Inl e \<Rightarrow> (0, s)
      | Inr stale \<Rightarrow>
          (let (marked, h, c) = fold (reap_worker env cp now) stale (0, s);
               (swept, h1) = sweep_orphaned_workspaces env h now stale_secs
           in (marked + swept, h1, c)))"

section \<open>The top-up pass\<close>

record SpawnReconcilerCtx =
  sc_jwt_service :: JwtService
  sc_server_url :: string
  sc_anthropic_key :: string
  sc_version :: string

definition open_issues_filter :: IssueFilter where
  "open_issues_filter = \<lparr>if_status = Some [IOpen], if_priority = None, if_label = None, if_creator = None, if_blocked_by = None\<rparr>"

definition worker_token :: "('e) registry_env_scheme \<Rightarrow> JwtService \<Rightarrow> time \<Rightarrow> uuid \<Rightarrow> string" where
  "worker_token env js now r =
     (case jwt_sign env js now ''cloud-worker'' None (Some (se_uuid env r)) (Some ''worker'') of Inr t \<Rightarrow> t | Inl e \<Rightarrow> [])"

definition spawn_config :: "('e) registry_env_scheme \<Rightarrow> SpawnReconcilerCtx \<Rightarrow> time \<Rightarrow> uuid \<times> string \<Rightarrow> SpawnConfig" where
  "spawn_config env ctx now repo =
     \<lparr>sg_worker_image = ''ghcr.io/jjordy/vai-worker:'' @ sc_version ctx, sg_server_url = sc_server_url ctx, sg_repo_name = snd repo,
      sg_vai_api_key = worker_token env (sc_jwt_service ctx) now (fst repo)\<rparr>"

text \<open>The loop over \<open>0..needed\<close>: it ends early when nothing was spawned.\<close>

fun spawn_loop ::
  "('e) registry_env_scheme \<Rightarrow> 'c ComputeProvider \<Rightarrow> SpawnReconcilerCtx \<Rightarrow> time \<Rightarrow> uuid \<times> string \<Rightarrow> nat \<Rightarrow> hosted \<times> 'c \<Rightarrow> hosted \<times> 'c" where
  "spawn_loop env cp ctx now repo 0 s = s"
| "spawn_loop env cp ctx now repo (Suc n) s =
     (case spawn_if_capacity env cp now s (fst repo) (sc_anthropic_key ctx) (spawn_config env ctx now repo) of
        (Inr (Some w), s1) \<Rightarrow> spawn_loop env cp ctx now repo n s1
      | (Inr None, s1) \<Rightarrow> s1
      | (Inl e, s1) \<Rightarrow> s1)"

text \<open>Page 1 of one issue: the query cannot overflow, only its total is used.\<close>

definition count_open_issues :: "('e) registry_env_scheme \<Rightarrow> hosted \<Rightarrow> uuid \<Rightarrow> nat option" where
  "count_open_issues env h r =
     (case list_issues env h r open_issues_filter \<lparr>lq_page = 1, lq_per_page = 1, lq_sort = []\<rparr> of
        Some (Inr res) \<Rightarrow> Some (lr_total res) | _ \<Rightarrow> None)"

definition top_up_repo ::
  "('e) registry_env_scheme \<Rightarrow> 'c ComputeProvider \<Rightarrow> SpawnReconcilerCtx \<Rightarrow> time \<Rightarrow> nat \<Rightarrow> uuid \<times> string \<Rightarrow> hosted \<times> 'c \<Rightarrow> hosted \<times> 'c" where
  "top_up_repo env cp ctx now max_concurrent repo s =
     (case count_running_workers env (fst s) (fst repo) of
        Inl e \<Rightarrow> s
      | Inr running \<Rightarrow>
          if max_concurrent \<le> running then s
          else (case count_open_issues env (fst s) (fst repo) of
                  None \<Rightarrow> s
                | Some open_count \<Rightarrow> spawn_loop env cp ctx now repo (min open_count max_concurrent - running) s))"

definition spawn_reconcile_once ::
  "('e) registry_env_scheme \<Rightarrow> 'c ComputeProvider \<Rightarrow> SpawnReconcilerCtx \<Rightarrow> time \<Rightarrow> hosted \<times> 'c \<Rightarrow> hosted \<times> 'c" where
  "spawn_reconcile_once env cp ctx now s =
     (case list_cloud_enabled_repos env (fst s) of
        Inl e \<Rightarrow> s
      | Inr repos \<Rightarrow> fold (top_up_repo env cp ctx now (configured_max_concurrent env)) repos s)"

section \<open>The worker endpoints\<close>

definition worker_api_error :: "StorageError \<Rightarrow> ApiError" where
  "worker_api_error e = (case e of StNotFound s \<Rightarrow> api_not_found (storage_error_text e) | _ \<Rightarrow> api_internal (storage_error_text e))"

definition get_worker_handler :: "('e) registry_env_scheme \<Rightarrow> hosted \<Rightarrow> uuid \<Rightarrow> (ApiError, AgentWorker) result" where
  "get_worker_handler env h i = map_error worker_api_error (get_worker env h i)"

record LogsResponse =
  lo_logs :: "WorkerLog list"
  lo_last_id :: "nat option"

text \<open>The numbers of the chunks start at 1, so a negative cursor is the cursor 0.\<close>

definition get_logs_handler :: "('e) registry_env_scheme \<Rightarrow> hosted \<Rightarrow> uuid \<Rightarrow> int option \<Rightarrow> (ApiError, LogsResponse) result" where
  "get_logs_handler env h i since_id =
     bind_result (map_error worker_api_error (get_worker env h i))
       (\<lambda>w. bind_result (map_error (\<lambda>e. api_internal (storage_error_text e)) (list_logs env h i (map_option nat since_id)))
          (\<lambda>logs. Inr \<lparr>lo_logs = logs, lo_last_id = (if logs = [] then None else Some (wl_id (List.last logs)))\<rparr>))"

definition acknowledge :: "(StorageError, unit) result \<times> hosted \<Rightarrow> (ApiError, nat) result \<times> hosted" where
  "acknowledge p = (bind_result (map_error worker_api_error (fst p)) (\<lambda>u. Inr 204), snd p)"

definition heartbeat_handler :: "('e) registry_env_scheme \<Rightarrow> hosted \<Rightarrow> time \<Rightarrow> uuid \<Rightarrow> (ApiError, nat) result \<times> hosted" where
  "heartbeat_handler env h now i = acknowledge (update_heartbeat env h now i)"

definition append_logs_handler ::
  "('e) registry_env_scheme \<Rightarrow> hosted \<Rightarrow> time \<Rightarrow> uuid \<Rightarrow> LogStream \<Rightarrow> string list \<Rightarrow> (ApiError, nat) result \<times> hosted" where
  "append_logs_handler env h now i stream chunks = acknowledge (append_logs env h now i stream chunks)"

definition mark_done_handler ::
  "('e) registry_env_scheme \<Rightarrow> hosted \<Rightarrow> time \<Rightarrow> uuid \<Rightarrow> WorkerDoneReason \<Rightarrow> (ApiError, nat) result \<times> hosted" where
  "mark_done_handler env h now i reason = acknowledge (mark_done env h now i reason)"

text \<open>Unlike the dead-worker pass, the handler reopens the issue whether or not the discard succeeded.\<close>

definition release_by_admin :: "('e) registry_env_scheme \<Rightarrow> time \<Rightarrow> AgentWorker \<Rightarrow> hosted \<Rightarrow> hosted" where
  "release_by_admin env now w h =
     (case wk_workspace_id w of
        None \<Rightarrow> h
      | Some ws \<Rightarrow>
          (case get_workspace env h (wk_repo_id w) ws of
             Inl e \<Rightarrow> h
           | Inr meta \<Rightarrow>
               (let h1 = snd (discard_workspace env h now (wk_repo_id w) ws)
                in case wm_issue_id meta of None \<Rightarrow> h1 | Some i \<Rightarrow> snd (update_issue env h1 now (wk_repo_id w) i reopen))))"

definition destroy_with :: "'c ComputeProvider option \<Rightarrow> AgentWorker \<Rightarrow> 'c \<Rightarrow> 'c" where
  "destroy_with cp w c = (case cp of Some p \<Rightarrow> destroy_machine p w c | None \<Rightarrow> c)"

definition destroy_worker_handler ::
  "('e) registry_env_scheme \<Rightarrow> 'c ComputeProvider option \<Rightarrow> time \<Rightarrow> hosted \<times> 'c \<Rightarrow> AgentIdentity \<Rightarrow> uuid \<Rightarrow>
   (ApiError, nat) result \<times> hosted \<times> 'c" where
  "destroy_worker_handler env cp now s identity i =
     (case require_server_admin identity of
        Inl e \<Rightarrow> (Inl e, s)
      | Inr u \<Rightarrow>
          (case get_worker env (fst s) i of
             Inl e \<Rightarrow> (Inl (worker_api_error e), s)
           | Inr w \<Rightarrow>
               (let c1 = destroy_with cp w (snd s);
                    (r, h1) = mark_done env (release_by_admin env now w (fst s)) now i DoneTerminated
                in (bind_result (map_error (\<lambda>e. api_internal (storage_error_text e)) r) (\<lambda>u. Inr 204), h1, c1))))"

definition list_workers_handler ::
  "('e) registry_env_scheme \<Rightarrow> hosted \<Rightarrow> org_db \<Rightarrow> bool \<Rightarrow> AgentIdentity \<Rightarrow> uuid \<Rightarrow> nat option \<Rightarrow> nat option \<Rightarrow> string option \<Rightarrow>
   (ApiError, AgentWorker list \<times> PaginationMeta) result option" where
  "list_workers_handler env h d is_local identity r page per_page state_filter =
     (case require_repo_permission env d is_local identity r RoRead of
        Inl e \<Rightarrow> Some (Inl e)
      | Inr role \<Rightarrow>
          (case from_params page per_page None [] of
             Inl e \<Rightarrow> Some (Inl (api_bad_request (pagination_error_text e)))
           | Inr q \<Rightarrow>
               map_option (\<lambda>res. bind_result (map_error api_from_storage res)
                   (\<lambda>x. Inr (lr_items x, pagination_meta (lr_total x) q)))
                 (list_workers_by_repo env h r state_filter q)))"

section \<open>The state of the server\<close>

record 'c app_state =
  ap_hosted :: hosted
  ap_records :: records_db
  ap_org :: org_db
  ap_engine :: ConflictEngine
  ap_broadcast :: broadcast_state
  ap_compute :: 'c

definition emit :: "('e) registry_env_scheme \<Rightarrow> time \<Rightarrow> uuid \<Rightarrow> EventKind \<Rightarrow> 'c app_state \<Rightarrow> 'c app_state" where
  "emit env now r k s = s\<lparr>ap_hosted := snd (pg_append env (ap_hosted s) now r k)\<rparr>"

definition broadcast_event ::
  "('e) registry_env_scheme \<Rightarrow> time \<Rightarrow> string \<Rightarrow> string option \<Rightarrow> (string \<times> string) list \<Rightarrow> 'c app_state \<Rightarrow> 'c app_state" where
  "broadcast_event env now ty ws payload s =
     s\<lparr>ap_broadcast := broadcast (rg_parse_ts env) (ap_broadcast s)
         (now, \<lparr>be_event_type = ty, be_event_id = 0, be_workspace_id = ws, be_timestamp = rg_rfc3339 env now, be_data = rg_json env payload\<rparr>)\<rparr>"

text \<open>A failure after the discard is logged and ends nothing but the step it happens in.\<close>

definition tear_down_worker ::
  "('e) registry_env_scheme \<Rightarrow> 'c ComputeProvider option \<Rightarrow> time \<Rightarrow> uuid \<Rightarrow> 'c app_state \<Rightarrow> 'c app_state" where
  "tear_down_worker env cp now ws s =
     (case get_worker_by_workspace env (ap_hosted s) ws of
        Inr (Some w) \<Rightarrow>
          s\<lparr>ap_hosted := snd (mark_done env (ap_hosted s) now (wk_id w) DoneTerminated), ap_compute := destroy_with cp w (ap_compute s)\<rparr>
      | _ \<Rightarrow> s)"

definition cascade_workspace_teardown ::
  "('e) registry_env_scheme \<Rightarrow> 'c ComputeProvider option \<Rightarrow> time \<Rightarrow> uuid \<Rightarrow> uuid \<Rightarrow> string \<Rightarrow> 'c app_state \<Rightarrow> 'c app_state" where
  "cascade_workspace_teardown env cp now r ws reason s =
     (case discard_workspace env (ap_hosted s) now r ws of
        (Inl e, h1) \<Rightarrow> s\<lparr>ap_hosted := h1\<rparr>
      | (Inr u, h1) \<Rightarrow>
          (let s1 = s\<lparr>ap_hosted := h1, ap_engine := remove_workspace (ap_engine s) ws\<rparr>;
               s2 = emit env now r (WorkspaceDiscarded ws reason) s1;
               s3 = broadcast_event env now ''WorkspaceDiscarded'' (Some (se_uuid env ws)) [(''workspace_id'', se_uuid env ws)] s2
           in tear_down_worker env cp now ws s3))"

section \<open>The work-queue endpoints\<close>

text \<open>An issue is blocked by the links from issues that are neither closed nor resolved.\<close>

definition open_blockers :: "('e) registry_env_scheme \<Rightarrow> hosted \<Rightarrow> uuid \<Rightarrow> (uuid \<rightharpoonup> IssueStatus) \<Rightarrow> Issue \<Rightarrow> uuid list" where
  "open_blockers env h r status x =
     (let links = (case pg_list_links env h r (is_id x) of Inr ls \<Rightarrow> ls | Inl e \<Rightarrow> [])
      in filter (\<lambda>b. case status b of Some st \<Rightarrow> st \<noteq> IClosed \<and> st \<noteq> IResolved | None \<Rightarrow> False)
           (map li_source_id (filter (\<lambda>l. li_relationship l = LkBlocks \<and> li_target_id l = is_id x) links)))"

definition hosted_queue_issue ::
  "('e) registry_env_scheme \<Rightarrow> ('a) issue_env_scheme \<Rightarrow> graph_db option \<Rightarrow> hosted \<Rightarrow> uuid \<Rightarrow> (uuid \<rightharpoonup> IssueStatus) \<Rightarrow> (uuid \<rightharpoonup> string) \<Rightarrow>
   WorkspaceScope list \<Rightarrow> Issue \<Rightarrow> AvailableWork + BlockedWork" where
  "hosted_queue_issue env ienv graph h r status titles scopes x =
     (let blockers = open_blockers env h r status x
      in if blockers \<noteq> []
         then Inr \<lparr>bw_issue_id = uuid_to_string ienv (is_id x), bw_title = is_title x, bw_priority = priority_as_str (is_priority x),
                   bw_blocked_by = map (uuid_to_string ienv) blockers,
                   bw_reason = ''Blocked by: '' @ join_with '', '' (List.map_filter titles blockers)\<rparr>
         else queue_issue ienv graph scopes x)"

text \<open>The key of the sort is the pair of the rank and a flag that is 0 or 1.\<close>

definition get_work_queue_handler ::
  "('e) registry_env_scheme \<Rightarrow> ('a) issue_env_scheme \<Rightarrow> graph_db option \<Rightarrow> hosted \<Rightarrow> org_db \<Rightarrow> bool \<Rightarrow> ConflictEngine \<Rightarrow> AgentIdentity \<Rightarrow> uuid \<Rightarrow>
   (ApiError, WorkQueue) result option" where
  "get_work_queue_handler env ienv graph h d is_local engine identity r =
     (case require_repo_permission env d is_local identity r RoRead of
        Inl e \<Rightarrow> Some (Inl e)
      | Inr role \<Rightarrow>
          (case (list_issues env h r open_issues_filter query_default,
                 list_issues env h r \<lparr>if_status = None, if_priority = None, if_label = None, if_creator = None, if_blocked_by = None\<rparr> query_default) of
             (Some (Inl e), y) \<Rightarrow> Some (Inl (api_internal (storage_error_text e)))
           | (Some (Inr x), Some (Inl e)) \<Rightarrow> Some (Inl (api_internal (storage_error_text e)))
           | (Some (Inr opened), Some (Inr every)) \<Rightarrow>
               (let status = map_of (rev (map (\<lambda>i. (is_id i, is_status i)) (lr_items every)));
                    titles = map_of (rev (map (\<lambda>i. (is_id i, is_title i)) (lr_items every)));
                    criteria = map_of (rev (map (\<lambda>i. (is_id i, is_acceptance_criteria i \<noteq> [])) (lr_items every)));
                    verdicts = map (hosted_queue_issue env ienv graph h r status titles (all_scopes engine)) (lr_items opened);
                    no_criteria = (\<lambda>w. if criteria (case uuid_from_str ienv (aw_issue_id w) of Some i \<Rightarrow> i | None \<Rightarrow> 0) = Some True then 0 else 1 :: nat)
                in Some (Inr \<lparr>wq_available_work = sort_key (\<lambda>w. 2 * priority_rank (aw_priority w) + no_criteria w)
                                (List.map_filter (\<lambda>v. case v of Inl a \<Rightarrow> Some a | Inr b \<Rightarrow> None) verdicts),
                              wq_blocked_work = sort_key (\<lambda>w. priority_rank (bw_priority w))
                                (List.map_filter (\<lambda>v. case v of Inr b \<Rightarrow> Some b | Inl a \<Rightarrow> None) verdicts)\<rparr>))
           | _ \<Rightarrow> None))"

text \<open>An em dash and the advice.\<close>

definition refresh_hint :: string where
  "refresh_hint = [CHR 0xE2, CHR 0x80, CHR 0x94] @ '' refresh the work queue and try again''"

record ClaimWorkRequest =
  cw_issue_id :: string
  cw_worker_id :: "string option"

definition link_worker :: "('e) registry_env_scheme \<Rightarrow> ('a) issue_env_scheme \<Rightarrow> string option \<Rightarrow> uuid \<Rightarrow> hosted \<Rightarrow> hosted" where
  "link_worker env ienv worker_id ws h =
     (case Option.bind worker_id (uuid_from_str ienv) of None \<Rightarrow> h | Some w \<Rightarrow> snd (set_workspace_id env h w ws))"

definition claim_effects ::
  "('e) registry_env_scheme \<Rightarrow> ('a) issue_env_scheme \<Rightarrow> time \<Rightarrow> uuid \<Rightarrow> ClaimWorkRequest \<Rightarrow> Issue \<Rightarrow> ScopePrediction \<Rightarrow> WorkspaceMeta \<Rightarrow> 'c app_state \<Rightarrow>
   (ApiError, ClaimResult) result \<times> 'c app_state" where
  "claim_effects env ienv now r body x prediction ws s =
     (case update_issue env (ap_hosted s) now r (is_id x) (issue_update_default\<lparr>iu_status := Some IInProgress, iu_workspace_id := Some (wm_id ws)\<rparr>) of
        (Inl e, h1) \<Rightarrow> (Inl (api_internal (storage_error_text e)), s\<lparr>ap_hosted := h1\<rparr>)
      | (Inr u, h1) \<Rightarrow>
          (let s1 = s\<lparr>ap_hosted := link_worker env ienv (cw_worker_id body) (wm_id ws) h1\<rparr>;
               res = \<lparr>cl_issue_id = uuid_to_string ienv (is_id x), cl_workspace_id = uuid_to_string ienv (wm_id ws),
                      cl_intent = is_title x, cl_predicted_scope = prediction\<rparr>;
               s2 = emit env now r (WorkspaceCreated (wm_id ws) (wm_intent ws) (wm_base_version ws)) s1;
               s3 = emit env now r (IssueLinkedToWorkspace (is_id x) (wm_id ws)) s2
           in (Inr res, broadcast_event env now ''WorkspaceCreated'' (Some (cl_workspace_id res))
                 [(''workspace_id'', cl_workspace_id res), (''intent'', cl_intent res), (''issue_id'', cl_issue_id res),
                  (''claimed_via'', ''work_queue'')] s3)))"

text \<open>\<open>fresh\<close> is the identifier of the workspace. The handler runs under the repository lock.\<close>

definition claim_work_handler ::
  "('e) registry_env_scheme \<Rightarrow> ('a) issue_env_scheme \<Rightarrow> graph_db option \<Rightarrow> bool \<Rightarrow> time \<Rightarrow> uuid \<Rightarrow> AgentIdentity \<Rightarrow> uuid \<Rightarrow> ClaimWorkRequest \<Rightarrow>
   'c app_state \<Rightarrow> (ApiError, ClaimResult) result \<times> 'c app_state" where
  "claim_work_handler env ienv graph is_local now fresh identity r body s =
     (case require_repo_permission env (ap_org s) is_local identity r RoWrite of
        Inl e \<Rightarrow> (Inl e, s)
      | Inr role \<Rightarrow>
          (case uuid_from_str ienv (cw_issue_id body) of
             None \<Rightarrow> (Inl (api_bad_request (''invalid issue_id: '' @ cw_issue_id body)), s)
           | Some issue_id \<Rightarrow>
               (case get_issue env (ap_hosted s) r issue_id of
                  Inl e \<Rightarrow> (Inl (worker_api_error e), s)
                | Inr x \<Rightarrow>
                    if is_status x \<noteq> IOpen
                    then (Inl (api_conflict (''Issue '' @ uuid_to_string ienv issue_id @ '' is no longer open '' @ refresh_hint)), s)
                    else
                      (let prediction = predict_scope ienv graph (issue_text x)
                       in if list_ex (scope_conflict prediction) (all_scopes (ap_engine s))
                          then (Inl (api_conflict (''Issue '' @ uuid_to_string ienv issue_id @ '' conflicts with active workspaces '' @ refresh_hint)), s)
                          else
                            (let head = (case pg_read_head env (ap_records s) r of Inr (Some v) \<Rightarrow> v | _ \<Rightarrow> ''unknown'')
                             in case create_workspace env (ap_hosted s) now fresh r
                                       \<lparr>nws_id = None, nws_intent = is_title x, nws_base_version = head, nws_issue_id = Some issue_id\<rparr> of
                                  (Inl e, h1) \<Rightarrow> (Inl (api_internal (storage_error_text e)), s\<lparr>ap_hosted := h1\<rparr>)
                                | (Inr ws, h1) \<Rightarrow> claim_effects env ienv now r body x prediction ws (s\<lparr>ap_hosted := h1\<rparr>))))))"

end
