(* ===== verification/Auth_Laws.thy ===== *)
theory Auth_Laws
  imports Auth
begin

text \<open>
  What authentication and authorization guarantee: which requests get an identity and which identity is
  an administrator's, that no role exceeds what the database, the key and the token allow, that a key is
  accepted exactly while its metadata says so, that a device code gives its key away once. Three theorems
  are about defects: a token for a repository administrator is one for the whole server, a refresh
  token is never accepted, and a wrong device code still replaces the user's key.
\<close>

section \<open>Permissions\<close>

lemma rank_simps: "rank RoRead \<le> rank r" "rank r \<le> rank RoOwner" by (cases r; simp)+

text \<open>The roles the tables give a user on a repository: from the organization that owns it, and as its collaborator.\<close>

definition granted_roles :: "org_db \<Rightarrow> uuid \<Rightarrow> uuid \<Rightarrow> RepoRole list" where
  "granted_roles d u r =
     (case find (\<lambda>x. or_id x = r) (od_repos d) of
        None \<Rightarrow> []
      | Some x \<Rightarrow>
          List.map_filter org_derived_role [case or_org_id x of None \<Rightarrow> None | Some k \<Rightarrow> map_option gr_role (find_grant (od_members d) k u)] @
          List.map_filter (map_option (\<lambda>g. repo_role_from_db (gr_role g))) [find_grant (od_collaborators d) r u])"

lemma rank_inject: "rank a = rank b \<Longrightarrow> a = b" by (cases a; cases b; simp)

lemma best_role:
  "(case (a, b) of (Some x, Some y) \<Rightarrow> Some (role_max x y) | (Some x, None) \<Rightarrow> Some x | (None, z) \<Rightarrow> z) = Some role \<longleftrightarrow>
     role \<in> set_option a \<union> set_option b \<and> (\<forall>g\<in>set_option a \<union> set_option b. rank g \<le> rank role)"
  using rank_inject [of role] by (cases a; cases b) (auto simp: role_max_def)

lemma set_map_filter_single: "set (List.map_filter f [x]) = set_option (f x)"
  by (cases "f x") (simp_all add: List.map_filter_def)

lemma resolve_repo_role_exact:
  "resolve_repo_role env d u r = Inr (Some role) \<longleftrightarrow>
     \<not> se_down env ''resolve_repo_role'' r \<and> role \<in> set (granted_roles d u r) \<and> (\<forall>g\<in>set (granted_roles d u r). rank g \<le> rank role)"
proof (cases "find (\<lambda>x. or_id x = r) (od_repos d)")
  case None then show ?thesis by (simp add: resolve_repo_role_def db_read_def granted_roles_def)
next
  case (Some x)
  then show ?thesis
    by (simp only: resolve_repo_role_def db_read_def granted_roles_def Let_def option.case set_append set_map_filter_single
        best_role sum.inject split: if_split) simp
qed

text \<open>C20: A granted role is at least the required one. It comes from the administrator's identity, from
  local mode, from a worker token scoped to that very repository, which gets no more than \<open>Write\<close>, or from the role the
  database holds for the user, as owner or administrator of the repository's organization or as its collaborator; and then it is not above that role,
  nor above the cap of the key or token, if it has one.
\<close>

theorem permission_least_privilege:
  assumes "require_repo_permission env d is_local identity r required = Inr granted"
  shows "rank required \<le> rank granted \<and>
    (ai_is_admin identity \<or> is_local \<or>
     (ai_role_override identity = Some ''worker'' \<and> ai_jwt_repo_scope identity = Some r \<and> granted = RoWrite) \<or>
     (\<exists>u role. ai_user_id identity = Some u \<and> role \<in> set (granted_roles d u r) \<and> rank granted \<le> rank role \<and>
        (case ai_role_override identity of None \<Rightarrow> granted = role | Some cap \<Rightarrow> rank granted \<le> rank (repo_role_from_db cap))))"
proof (cases "ai_is_admin identity \<or> is_local \<or> ai_role_override identity = Some ''worker''")
  case True
  with assms show ?thesis
    by (cases required) (auto simp: require_repo_permission_def split: if_splits)
next
  case False
  with assms obtain u role where "ai_user_id identity = Some u" and role: "resolve_repo_role env d u r = Inr (Some role)"
    by (auto simp: require_repo_permission_def bind_result_Inr_iff map_error_def split: if_splits option.splits sum.splits)
  moreover have "role \<in> set (granted_roles d u r)" using role by (simp add: resolve_repo_role_exact)
  ultimately show ?thesis using False assms role
    by (auto simp: require_repo_permission_def bind_result_Inr_iff map_error_def Let_def split: if_splits option.splits)
qed

section \<open>Authentication\<close>

definition bearer :: "string \<Rightarrow> auth_request" where
  "bearer token = \<lparr>ar_upgrade = None, ar_authorization = Some (''Bearer '' @ token)\<rparr>"

text \<open>The identity is the token's, the key's or the administrator's, in this order.\<close>

definition authenticates ::
  "('e) auth_env_scheme \<Rightarrow> JwtService \<Rightarrow> string \<Rightarrow> auth_db \<Rightarrow> time \<Rightarrow> string \<Rightarrow> AgentIdentity \<Rightarrow> bool" where
  "authenticates env js admin_key d now key_str identity \<longleftrightarrow>
     (if CHR ''.'' \<in> set key_str
      then (\<exists>c. jwt_verify env js now key_str = Inr c \<and> identity = jwt_identity env c)
      else (\<exists>k. fst (validate_key env d now key_str) = Inr k \<and> identity = key_identity k) \<or>
           ((\<exists>s. fst (validate_key env d now key_str) = Inl (StNotFound s)) \<and> key_str = admin_key \<and> identity = admin_identity))"

lemma bind_strip_prefix:
  "Option.bind a (strip_prefix p) = None \<longleftrightarrow> (\<forall>rest. a \<noteq> Some (p @ rest))"
  "Option.bind a (strip_prefix p) = Some rest \<longleftrightarrow> a = Some (p @ rest)"
  by (cases a; auto simp: strip_prefix_None_iff strip_prefix_Some_iff)+

lemma auth_middleware_fst:
  "fst (auth_middleware env js admin_key d now req) = Next x \<longleftrightarrow>
     (if is_ws_upgrade req then x = None
      else \<exists>h rest identity. ar_authorization req = Some h \<and> h = ''Bearer '' @ rest \<and>
             authenticates env js admin_key d now (trim rest) identity \<and> x = Some identity)"
proof (cases "is_ws_upgrade req")
  case True then show ?thesis by (auto simp: auth_middleware_def)
next
  case False
  show ?thesis
  proof (cases "Option.bind (ar_authorization req) (strip_prefix ''Bearer '')")
    case None
    then have "\<not> (\<exists>h rest. ar_authorization req = Some h \<and> h = ''Bearer '' @ rest)"
      by (simp only: bind_strip_prefix) blast
    with None False show ?thesis by (auto simp: auth_middleware_def)
  next
    case (Some rest)
    then have h: "ar_authorization req = Some h \<and> h = ''Bearer '' @ rest' \<longleftrightarrow> ar_authorization req = Some h \<and> h = ''Bearer '' @ rest \<and> rest' = rest" for h rest'
      by (simp only: bind_strip_prefix) auto
    have ex: "\<exists>h. ar_authorization req = Some h \<and> h = ''Bearer '' @ rest"
      using Some by (simp only: bind_strip_prefix) blast
    obtain r d1 where v: "validate_key env d now (trim rest) = (r, d1)" by (rule prod.exhaust)
    have "fst (auth_middleware env js admin_key d now req) = Next x \<longleftrightarrow>
        (\<exists>identity. authenticates env js admin_key d now (trim rest) identity \<and> x = Some identity)"
      using Some False v
      by (auto simp: auth_middleware_def Let_def authenticates_def
          split: sum.splits JwtError.splits StorageError.splits if_splits)
    with False h ex show ?thesis by (metis (no_types, lifting))
  qed
qed


section \<open>Tokens for a repository administrator\<close>

text \<open>What the \<open>jsonwebtoken\<close> crate documents: a token decodes to its claims under its key until it expires, and has dots.\<close>

definition jwt_documented :: "('e) auth_env_scheme \<Rightarrow> bool" where
  "jwt_documented env \<longleftrightarrow> (\<forall>k c t. au_encode env k c = Inr t \<longrightarrow> CHR ''.'' \<in> set t \<and> no_ws t \<and>
     (\<forall>leeway now. now \<le> tc_exp c + leeway \<longrightarrow> au_decode env k leeway now t = Inr c))"

lemma trim_id: "no_ws s \<Longrightarrow> trim s = s"
  by (simp add: trim_def trim_end_def no_ws_def no_ws_dropWhile list_all_iff)

lemma jwt_sign_verify:
  assumes "jwt_documented env" "jwt_sign env js now sub name repo role = Inr t" "later \<le> now + js_access_token_ttl js"
  shows "jwt_verify env js later t =
      Inr \<lparr>tc_sub = sub, tc_name = name, tc_repo_id = repo, tc_role = role, tc_iat = now, tc_exp = now + js_access_token_ttl js\<rparr>"
    "CHR ''.'' \<in> set t" "no_ws t"
proof -
  let ?c = "\<lparr>tc_sub = sub, tc_name = name, tc_repo_id = repo, tc_role = role, tc_iat = now, tc_exp = now + js_access_token_ttl js\<rparr>"
  have e: "au_encode env (js_current_secret js) ?c = Inr t"
    using assms(2) by (auto simp: jwt_sign_def map_error_def split: sum.splits)
  then show "CHR ''.'' \<in> set t" "no_ws t" using assms(1) by (auto simp: jwt_documented_def)
  have "au_decode env (js_current_secret js) (js_leeway_secs js) later t = Inr ?c"
    using e assms(1,3) unfolding jwt_documented_def by (metis (no_types, lifting) TokenClaims.select_convs(6) trans_le_add1)
  then show "jwt_verify env js later t = Inr ?c" by (simp add: jwt_verify_def try_decode_def map_error_def)
qed

lemma session_exchange_Inr:
  assumes "session_exchange env js d now org_i rnd s repo_id = (Inr resp, d')"
  obtains user d1 role where "session_user env d now org_i s = (Inr user, d1)" "session_role env (ad_org d1) (us_id user) repo_id = Inr role"
    "jwt_sign env js now (se_uuid env (us_id user)) (Some (us_name user)) (map_option (se_uuid env) repo_id) role = Inr (tp_access_token resp)"
proof -
  obtain u d1 where u: "session_user env d now org_i s = (u, d1)" by (rule prod.exhaust)
  with assms obtain user where user: "u = Inr user" by (cases u) (simp_all add: session_exchange_def)
  obtain t where t: "bind_result (session_role env (ad_org d1) (us_id user) repo_id)
      (sign_token env js now (se_uuid env (us_id user)) (Some (us_name user)) repo_id) = Inr t" and resp: "tp_access_token resp = t"
    using assms u user by (auto simp: session_exchange_def split: sum.splits prod.splits)
  then obtain role where "session_role env (ad_org d1) (us_id user) repo_id = Inr role"
      "sign_token env js now (se_uuid env (us_id user)) (Some (us_name user)) repo_id role = Inr t" by (auto simp: bind_result_Inr_iff)
  then show ?thesis using that [of user d1 role] u user resp by (auto simp: sign_token_def map_error_def split: sum.splits)
qed

text \<open>C21: The role of an access token that a session buys for a repository is the user's role there, spelled \<open>admin\<close> for
  an administrator of that repository; and the middleware takes that spelling for the server administrator's. With such a
  token its bearer has the owner's rights on every repository of the server until the token expires, and passes
  the check that the server's own endpoints make.
\<close>

theorem repo_admin_becomes_server_admin:
  assumes "jwt_documented env"
    and "session_exchange env js d now org_i rnd s (Some r) = (Inr resp, d')"
    and "session_user env d now org_i s = (Inr user, d1)"
    and "resolve_repo_role env (ad_org d1) (us_id user) r = Inr (Some RoAdmin)"
    and "later \<le> now + js_access_token_ttl js"
  shows "\<exists>identity. fst (auth_middleware env js admin_key d2' later (bearer (tp_access_token resp))) = Next (Some identity) \<and>
      ai_user_id identity = au_uuid_parse env (se_uuid env (us_id user)) \<and>
      require_server_admin identity = Inr () \<and>
      require_repo_permission env od False identity any_repo RoOwner = Inr RoOwner"
proof -
  obtain role where role: "session_role env (ad_org d1) (us_id user) (Some r) = Inr role" and
    sign: "jwt_sign env js now (se_uuid env (us_id user)) (Some (us_name user)) (map_option (se_uuid env) (Some r)) role = Inr (tp_access_token resp)"
    using session_exchange_Inr [OF assms(2)] assms(3) by (metis Inr_inject Pair_inject)
  have "role = Some ''admin''" using role assms(4) by (simp add: session_role_def map_error_def)
  note v = jwt_sign_verify [OF assms(1) sign assms(5)]
  let ?c = "\<lparr>tc_sub = se_uuid env (us_id user), tc_name = Some (us_name user), tc_repo_id = map_option (se_uuid env) (Some r),
      tc_role = role, tc_iat = now, tc_exp = now + js_access_token_ttl js\<rparr>"
  have "authenticates env js admin_key d2' later (trim (tp_access_token resp)) (jwt_identity env ?c)"
    using v by (simp add: authenticates_def trim_id)
  then have "fst (auth_middleware env js admin_key d2' later (bearer (tp_access_token resp))) = Next (Some (jwt_identity env ?c))"
    by (auto simp: auth_middleware_fst bearer_def is_ws_upgrade_def)
  moreover have "ai_is_admin (jwt_identity env ?c)" "ai_user_id (jwt_identity env ?c) = au_uuid_parse env (se_uuid env (us_id user))"
    using \<open>role = Some ''admin''\<close> by (simp_all add: jwt_identity_def)
  ultimately show ?thesis by (intro exI [of _ "jwt_identity env ?c"]) (simp add: require_server_admin_def require_repo_permission_def)
qed

section \<open>A sample deployment\<close>

definition sample_claims :: TokenClaims where
  "sample_claims = \<lparr>tc_sub = nat_to_string 7, tc_name = Some ''ann'', tc_repo_id = Some (nat_to_string 5), tc_role = Some ''admin'',
     tc_iat = 0, tc_exp = 86400\<rparr>"

definition sample_auth_env :: auth_env where
  "sample_auth_env =
     \<lparr>se_uuid = nat_to_string, se_down = (\<lambda>op key. False), se_lower = to_lowercase, se_order_issues = (\<lambda>c xs. xs),
      se_order_workspaces = (\<lambda>c xs. xs), se_order_workers = (\<lambda>c xs. xs), oe_sort_names = (\<lambda>xs. xs), oe_quote = (\<lambda>s. s),
      au_hash = rev,
      au_encode = (\<lambda>k c. if k = ''secret'' \<and> c = sample_claims then Inr ''h.p.s'' else Inl ''unsupported''),
      au_decode = (\<lambda>k leeway now t. if k = ''secret'' \<and> t = ''h.p.s''
        then (if now \<le> tc_exp sample_claims + leeway then Inr sample_claims else Inl ExpiredSignature)
        else Inl (OtherKind ''InvalidSignature'')),
      au_uuid_parse = parse_digits 0\<rparr>"

definition sample_auth_db :: auth_db where
  "sample_auth_db =
     \<lparr>ad_org = \<lparr>od_orgs = [\<lparr>og_id = 1, og_name = ''ann'', og_slug = ''user-'' @ nat_to_string 7, og_created_at = 0\<rparr>],
        od_users = [\<lparr>us_id = 7, us_email = ''a@b'', us_name = ''ann'', us_created_at = 0\<rparr>],
        od_members = [\<lparr>gr_owner = 1, gr_user = 7, gr_role = ''owner'', gr_at = 0\<rparr>],
        od_collaborators = [\<lparr>gr_owner = 5, gr_user = 7, gr_role = ''admin'', gr_at = 0\<rparr>],
        od_repos = [\<lparr>or_id = 5, or_name = ''demo'', or_org_id = None, or_created_at = 0\<rparr>]\<rparr>,
      ad_keys = [], ad_refresh = [], ad_devices = [], ad_sessions = [\<lparr>ss_token = ''sess'', ss_user_id = nat_to_string 7, ss_expires_at = 1000\<rparr>],
      ad_last_used_cache = []\<rparr>"

lemma sample_jwt_documented: "jwt_documented sample_auth_env"
  by (simp add: jwt_documented_def sample_auth_env_def no_ws_def is_ws_def)

lemma sample_session_user:
  "session_user sample_auth_env sample_auth_db 0 3 ''sess'' = (Inr \<lparr>us_id = 7, us_email = ''a@b'', us_name = ''ann'', us_created_at = 0\<rparr>, sample_auth_db)"
  by (simp add: session_user_def validate_session_def db_read_def sample_auth_env_def sample_auth_db_def map_error_def parse_digits_nat_to_string
      get_user_def get_or_create_personal_org_def upsert_org_def find_grant_def grant_at_def Let_def del: nat_to_string.simps)

lemma sample_role: "resolve_repo_role sample_auth_env (ad_org sample_auth_db) 7 5 = Inr (Some RoAdmin)"
  by (simp add: resolve_repo_role_def db_read_def sample_auth_env_def sample_auth_db_def find_grant_def grant_at_def
      org_derived_role_def repo_role_from_db_def Let_def)

lemma sample_exchange:
  "fst (session_exchange sample_auth_env (jwt_new ''secret'' None 0) sample_auth_db 0 3 ''tok'' ''sess'' (Some 5)) =
     Inr \<lparr>tp_access_token = ''h.p.s'', tp_token_type = ''Bearer'', tp_expires_in = 86400, tp_refresh_token = Some ''rt_tok''\<rparr>"
  unfolding session_exchange_def sample_session_user
  by (simp add: session_role_def sample_role map_error_def sign_token_def jwt_sign_def jwt_new_def)
    (simp add: sample_auth_env_def sample_claims_def sample_auth_db_def create_refresh_token_def db_write_def jwt_new_def Let_def del: nat_to_string.simps)

theorem repo_admin_becomes_server_admin_witness:
  "\<exists>identity. fst (auth_middleware sample_auth_env (jwt_new ''secret'' None 0) ''root'' sample_auth_db 60 (bearer ''h.p.s'')) = Next (Some identity) \<and>
      ai_user_id identity = au_uuid_parse sample_auth_env (se_uuid sample_auth_env 7) \<and>
      require_server_admin identity = Inr () \<and>
      require_repo_permission sample_auth_env (ad_org sample_auth_db) False identity 42 RoOwner = Inr RoOwner"
proof -
  obtain d' where x: "session_exchange sample_auth_env (jwt_new ''secret'' None 0) sample_auth_db 0 3 ''tok'' ''sess'' (Some 5) =
      (Inr \<lparr>tp_access_token = ''h.p.s'', tp_token_type = ''Bearer'', tp_expires_in = 86400, tp_refresh_token = Some ''rt_tok''\<rparr>, d')"
    using sample_exchange by (metis prod.collapse)
  have "(60::nat) \<le> 0 + js_access_token_ttl (jwt_new ''secret'' None 0)" by (simp add: jwt_new_def)
  from repo_admin_becomes_server_admin [OF sample_jwt_documented x sample_session_user _ this, of "''root''" sample_auth_db "ad_org sample_auth_db" 42] sample_role
  show ?thesis by simp
qed

definition sample_user_identity :: AgentIdentity where
  "sample_user_identity = \<lparr>ai_key_id = ''k'', ai_name = ''ann'', ai_is_admin = False, ai_user_id = Some 7, ai_role_override = Some ''write'',
     ai_jwt_repo_scope = None, ai_auth_source = AsApiKey\<rparr>"

theorem permission_least_privilege_witness:
  "require_repo_permission sample_auth_env (ad_org sample_auth_db) False sample_user_identity 5 RoRead = Inr RoWrite \<and> rank RoRead \<le> rank RoWrite"
proof -
  have g: "require_repo_permission sample_auth_env (ad_org sample_auth_db) False sample_user_identity 5 RoRead = Inr RoWrite"
    by (simp add: require_repo_permission_def sample_user_identity_def sample_role map_error_def repo_role_from_db_def)
  with permission_least_privilege [OF g] show ?thesis by blast
qed

section \<open>Refresh tokens\<close>

lemma find_append_case: "find P (xs @ ys) = (case find P xs of None \<Rightarrow> find P ys | Some x \<Rightarrow> Some x)"
  by (induction xs) simp_all

lemma create_refresh_token_Inr:
  assumes "create_refresh_token env d token u expires_at = (Inr t, d')"
  shows "t = ''rt_'' @ token"
    "ad_refresh d' = ad_refresh d @ [\<lparr>rt_user_id = u, rt_token_hash = au_hash env token, rt_expires_at = expires_at, rt_revoked_at = None\<rparr>]"
    "\<forall>r\<in>set (ad_refresh d). rt_token_hash r \<noteq> au_hash env token"
  using assms by (auto simp: create_refresh_token_def db_write_def Let_def list_ex_iff split: if_splits)

text \<open>C23: The refresh token handed to the client is the drawn token with the prefix \<open>rt_\<close>, but the hash kept is that of the
  token without it. So, unless the hashes collide, the endpoint that refreshes answers 401 to every token that was
  ever issued, at once and later, the endpoint that revokes answers 401 and revokes nothing, and the row is
  found only by the token the client never sees.
\<close>

theorem refresh_token_never_accepted:
  assumes "create_refresh_token env d token u expires_at = (Inr t, d')"
    and "au_hash env t \<notin> insert (au_hash env token) (rt_token_hash ` set (ad_refresh d))"
    and "\<forall>op key. \<not> se_down env op key"
  shows "refresh_token_handler env js d' now t = Inl (api_unauthorized ''invalid, expired, or revoked refresh token'') \<and>
    revoke_token_handler env d' now t = (Inl (api_unauthorized ''refresh token not found or already revoked''), d') \<and>
    (validate_refresh_token env d' now token = Inr u \<longleftrightarrow> now < expires_at)"
proof -
  note c = create_refresh_token_Inr [OF assms(1)]
  have none: "r \<in> set (ad_refresh d') \<Longrightarrow> rt_token_hash r \<noteq> au_hash env t" for r
    using assms(2) by (auto simp: c(2)) (metis imageI)
  have "find (\<lambda>r. rt_token_hash r = au_hash env t \<and> now < rt_expires_at r \<and> rt_revoked_at r = None) (ad_refresh d') = None"
    using none by (auto simp: find_None_iff)
  then have v: "validate_refresh_token env d' now t = Inl (StNotFound ''invalid, expired, or revoked refresh token'')"
    using assms(3) by (simp add: validate_refresh_token_def db_read_def)
  have "find (\<lambda>r. rt_token_hash r = au_hash env token \<and> now < rt_expires_at r \<and> rt_revoked_at r = None) (ad_refresh d) = None"
    using c(3) by (auto simp: find_None_iff)
  then have "validate_refresh_token env d' now token = Inr u \<longleftrightarrow> now < expires_at"
    using assms(3) by (simp add: validate_refresh_token_def db_read_def c(2) find_append_case)
  moreover have "revoke_refresh_token env d' now t = (Inl (StNotFound ''refresh token not found or already revoked''), d')"
    using none assms(3) by (auto simp: revoke_refresh_token_def db_write_def Let_def list_ex_iff)
  ultimately show ?thesis using v by (simp add: refresh_token_handler_def revoke_token_handler_def map_error_def not_found_as_def)
qed

theorem refresh_token_never_accepted_witness:
  "refresh_token_handler sample_auth_env (jwt_new ''secret'' None 0) (snd (create_refresh_token sample_auth_env sample_auth_db ''tok'' 7 1000)) 5 ''rt_tok''
     = Inl (api_unauthorized ''invalid, expired, or revoked refresh token'') \<and>
   validate_refresh_token sample_auth_env (snd (create_refresh_token sample_auth_env sample_auth_db ''tok'' 7 1000)) 5 ''tok'' = Inr 7"
proof -
  let ?d = "snd (create_refresh_token sample_auth_env sample_auth_db ''tok'' 7 1000)"
  have c: "create_refresh_token sample_auth_env sample_auth_db ''tok'' 7 1000 = (Inr ''rt_tok'', ?d)"
    by (simp add: create_refresh_token_def db_write_def sample_auth_env_def sample_auth_db_def Let_def)
  have h: "au_hash sample_auth_env ''rt_tok'' \<notin> insert (au_hash sample_auth_env ''tok'') (rt_token_hash ` set (ad_refresh sample_auth_db))"
    by (simp add: sample_auth_env_def sample_auth_db_def)
  have "\<forall>op key. \<not> se_down sample_auth_env op key" by (simp add: sample_auth_env_def)
  from refresh_token_never_accepted [OF c h this, of "jwt_new ''secret'' None 0" 5] show ?thesis by simp
qed

section \<open>Keys\<close>

definition active_users :: "key_row list \<Rightarrow> (uuid option \<times> string) list" where
  "active_users ks = map (\<lambda>k. (ak_user_id (kr_key k), ak_name (kr_key k)))
     (filter (\<lambda>k. ak_user_id (kr_key k) \<noteq> None \<and> \<not> ak_revoked (kr_key k)) ks)"

text \<open>The constraints of the table: hashes are unique, and so are the names of a user's keys that are not revoked.\<close>

definition keys_ok :: "auth_db \<Rightarrow> bool" where
  "keys_ok d \<longleftrightarrow> distinct (map kr_key_hash (ad_keys d)) \<and> distinct (active_users (ad_keys d))"

lemma find_SomeD: "find P xs = Some x \<Longrightarrow> x \<in> set xs \<and> P x"
  by (auto simp: find_Some_iff)

lemma find_conj_filter: "find (\<lambda>x. P x \<and> Q x) xs = find Q (filter P xs)"
  by (induction xs) simp_all

lemma active_unique:
  assumes "distinct (active_users ks)" "k \<in> set ks" "same_active_key u name k" "k' \<in> set ks" "same_active_key u name k'"
  shows "k' = k"
proof -
  let ?A = "filter (\<lambda>k. ak_user_id (kr_key k) \<noteq> None \<and> \<not> ak_revoked (kr_key k)) ks"
  have "k \<in> set ?A" "k' \<in> set ?A" using assms(2-5) by (auto simp: same_active_key_def)
  moreover have "inj_on (\<lambda>k. (ak_user_id (kr_key k), ak_name (kr_key k))) (set ?A)"
    using assms(1) by (simp add: active_users_def distinct_map)
  moreover have "(ak_user_id (kr_key k), ak_name (kr_key k)) = (ak_user_id (kr_key k'), ak_name (kr_key k'))"
    using assms(3,5) by (simp add: same_active_key_def)
  ultimately show ?thesis by (metis (mono_tags, lifting) inj_onD)
qed

lemma same_active_rotate [simp]: "same_active_key u name (rotate_key h p now role k) = same_active_key u name k"
  by (simp add: same_active_key_def rotate_key_def)

lemma rotate_key_hash [simp]: "kr_key_hash (rotate_key h p now role k) = h"
  by (simp add: rotate_key_def)

lemma filter_rotated:
  assumes "distinct (map kr_key_hash ks)" "distinct (active_users ks)" "\<forall>k\<in>set ks. kr_key_hash k \<noteq> h" "find (same_active_key u name) ks = Some old"
  shows "filter (\<lambda>k. kr_key_hash k = h) (map (\<lambda>k. if same_active_key u name k then rotate_key h p now role k else k) ks) = [rotate_key h p now role old]"
proof -
  have old: "old \<in> set ks" "same_active_key u name old" using assms(4) by (auto simp: find_Some_iff)
  have uniq: "k \<in> set ks \<Longrightarrow> same_active_key u name k \<Longrightarrow> k = old" for k using active_unique [OF assms(2) old] by blast
  obtain as bs where ks: "ks = as @ old # bs" using old(1) by (meson split_list)
  have "distinct ks" using assms(1) by (simp add: distinct_map)
  then have out: "old \<notin> set as" "old \<notin> set bs" using ks by auto
  have other: "\<not> same_active_key u name k \<and> kr_key_hash k \<noteq> h" if "k \<in> set as \<union> set bs" for k
    using that uniq [of k] out assms(3) ks by auto
  then have "filter (\<lambda>k. kr_key_hash k = h) (map (\<lambda>k. if same_active_key u name k then rotate_key h p now role k else k) xs) = []"
    if "set xs \<subseteq> set as \<union> set bs" for xs using that by (auto simp: filter_empty_conv)
  from this [of as] this [of bs] show ?thesis using old(2) by (simp add: ks)
qed

text \<open>The row that \<open>create_key\<close> leaves under the hash of the new token, and the metadata it returns.\<close>

lemma create_key_Inr:
  assumes "keys_ok d" "create_key env d now i token repo name user role agent expires = (Inr (k, t), d')"
  shows "t = token" "\<exists>row. filter (\<lambda>x. kr_key_hash x = au_hash env token) (ad_keys d') = [row] \<and> kr_key row = k"
    "case Option.bind user (\<lambda>u. find (same_active_key u name) (ad_keys d)) of
       None \<Rightarrow> ak_id k = i \<and> ak_role_override k = role \<and> ak_expires_at k = expires
     | Some old \<Rightarrow> ak_id k = ak_id (kr_key old) \<and> ak_role_override k = coalesce (ak_role_override (kr_key old)) role \<and>
         ak_expires_at k = ak_expires_at (kr_key old)"
proof -
  let ?h = "au_hash env token"
  have free: "\<forall>x\<in>set (ad_keys d). kr_key_hash x \<noteq> ?h" and up: "\<not> se_down env ''create_key'' 0"
    using assms(2) by (auto simp: create_key_def Let_def db_write_def key_hash_free_def list_ex_iff split: if_splits)
  have kf: "key_hash_free d ?h" using free by (simp add: key_hash_free_def list_ex_iff)
  note * = assms(2) [unfolded create_key_def Let_def db_write_def] 
  have "t = token \<and> (\<exists>row. filter (\<lambda>x. kr_key_hash x = ?h) (ad_keys d') = [row] \<and> kr_key row = k) \<and>
    (case Option.bind user (\<lambda>u. find (same_active_key u name) (ad_keys d)) of
       None \<Rightarrow> ak_id k = i \<and> ak_role_override k = role \<and> ak_expires_at k = expires
     | Some old \<Rightarrow> ak_id k = ak_id (kr_key old) \<and> ak_role_override k = coalesce (ak_role_override (kr_key old)) role \<and>
         ak_expires_at k = ak_expires_at (kr_key old))"
  proof (cases "Option.bind user (\<lambda>u. find (same_active_key u name) (ad_keys d))")
    case None
    then show ?thesis using * free up kf by (auto simp: filter_empty_conv split: option.splits if_splits)
  next
    case (Some old)
    then obtain u where "user = Some u" "find (same_active_key u name) (ad_keys d) = Some old" by (auto simp: bind_eq_Some_conv)
    then show ?thesis using * Some up kf filter_rotated [OF _ _ free, of u name old] assms(1)
      by (auto simp: keys_ok_def row_to_api_key_def rotate_key_def)
  qed
  then show "t = token" "\<exists>row. filter (\<lambda>x. kr_key_hash x = ?h) (ad_keys d') = [row] \<and> kr_key row = k"
    "case Option.bind user (\<lambda>u. find (same_active_key u name) (ad_keys d)) of
       None \<Rightarrow> ak_id k = i \<and> ak_role_override k = role \<and> ak_expires_at k = expires
     | Some old \<Rightarrow> ak_id k = ak_id (kr_key old) \<and> ak_role_override k = coalesce (ak_role_override (kr_key old)) role \<and>
         ak_expires_at k = ak_expires_at (kr_key old)" by blast+
qed

lemma validate_key_single:
  assumes "filter (\<lambda>x. kr_key_hash x = au_hash env token) (ad_keys d) = [row]" "\<forall>op key. \<not> se_down env op key"
  shows "fst (validate_key env d now token) =
      (if key_live now (kr_key row) then Inr (kr_key row) else Inl (StNotFound ''invalid or revoked API key''))"
  using assms(2) find_conj_filter [of "\<lambda>x. kr_key_hash x = au_hash env token" "\<lambda>x. key_live now (kr_key x)" "ad_keys d"] assms(1)
  by (simp add: validate_key_def db_write_def row_to_api_key_def)

text \<open>C24: The token that \<open>create_key\<close> returns is accepted exactly while the metadata returned with it is live, and gives that
  metadata. For a user's key whose name is in use the metadata keeps the identifier and the expiry of the key it replaces,
  whatever expiry was asked for, and the role cap of that key when it had one: replacing an expired key gives a token that is refused from the start.
\<close>

theorem create_key_accepted_while_live:
  assumes "keys_ok d" and "create_key env d now i token repo name user role agent expires = (Inr (k, t), d')"
    and "\<forall>op key. \<not> se_down env op key"
  shows "fst (validate_key env d' later t) = (if key_live later k then Inr k else Inl (StNotFound ''invalid or revoked API key'')) \<and>
    (case Option.bind user (\<lambda>u. find (same_active_key u name) (ad_keys d)) of
       None \<Rightarrow> ak_id k = i \<and> ak_role_override k = role \<and> ak_expires_at k = expires
     | Some old \<Rightarrow> ak_id k = ak_id (kr_key old) \<and> ak_role_override k = coalesce (ak_role_override (kr_key old)) role \<and>
         ak_expires_at k = ak_expires_at (kr_key old))"
  using create_key_Inr [OF assms(1,2)] validate_key_single [OF _ assms(3), of token d' _ later] by auto

definition expired_key_db :: auth_db where
  "expired_key_db = sample_auth_db\<lparr>ad_keys := [\<lparr>kr_key = \<lparr>ak_id = ''k1'', ak_name = ''ci'', ak_key_prefix = ''old'', ak_created_at = 0,
     ak_last_used_at = None, ak_revoked = False, ak_user_id = Some 7, ak_role_override = None, ak_agent_type = None,
     ak_expires_at = Some 10\<rparr>, kr_repo_id = None, kr_key_hash = ''dlo''\<rparr>]\<rparr>"

theorem create_key_accepted_while_live_witness:
  "fst (validate_key sample_auth_env (snd (create_key sample_auth_env expired_key_db 50 ''k2'' ''new'' None ''ci'' (Some 7) None None (Some 1000))) 60 ''new'') =
     Inl (StNotFound ''invalid or revoked API key'')"
proof -
  let ?k = "\<lparr>ak_id = ''k1'', ak_name = ''ci'', ak_key_prefix = ''new'', ak_created_at = 50,
     ak_last_used_at = None, ak_revoked = False, ak_user_id = Some 7, ak_role_override = None, ak_agent_type = None, ak_expires_at = Some 10\<rparr>"
  let ?d = "snd (create_key sample_auth_env expired_key_db 50 ''k2'' ''new'' None ''ci'' (Some 7) None None (Some 1000))"
  have ok: "keys_ok expired_key_db" by (simp add: keys_ok_def expired_key_db_def active_users_def)
  have c: "create_key sample_auth_env expired_key_db 50 ''k2'' ''new'' None ''ci'' (Some 7) None None (Some 1000) = (Inr (?k, ''new''), ?d)"
    by (simp add: create_key_def Let_def db_write_def key_hash_free_def expired_key_db_def sample_auth_env_def same_active_key_def
        rotate_key_def row_to_api_key_def coalesce_def)
  have "\<forall>op key. \<not> se_down sample_auth_env op key" by (simp add: sample_auth_env_def)
  from create_key_accepted_while_live [OF ok c this, of 60] show ?thesis by (simp add: key_live_def)
qed

lemma revoke_key_rejects:
  assumes "\<forall>op key. \<not> se_down env op key" "revoke_key env d i = (Inr u, d')" "fst (validate_key env d' now token) = Inr k"
  shows "ak_id k \<noteq> i"
proof
  assume i: "ak_id k = i"
  have d': "d' = revoke_rows (\<lambda>x. ak_id (kr_key x) = i) d" using assms(1,2) by (simp add: revoke_key_def db_write_def)
  obtain row where row: "find (\<lambda>x. kr_key_hash x = au_hash env token \<and> key_live now (kr_key x)) (ad_keys d') = Some row" and k: "kr_key row = k"
    using assms(1,3) by (auto simp: validate_key_def db_write_def row_to_api_key_def split: option.splits)
  have "set (ad_keys d') = (\<lambda>x. if ak_id (kr_key x) = i then x\<lparr>kr_key := (kr_key x)\<lparr>ak_revoked := True\<rparr>\<rparr> else x) ` set (ad_keys d)"
    unfolding d' revoke_rows_def update_key_def by simp
  with find_SomeD [OF row] obtain x where x: "row = (if ak_id (kr_key x) = i then x\<lparr>kr_key := (kr_key x)\<lparr>ak_revoked := True\<rparr>\<rparr> else x)" by blast
  have live: "\<not> ak_revoked (kr_key row)" using find_SomeD [OF row] by (simp add: key_live_def)
  show False
  proof (cases "ak_id (kr_key x) = i")
    case True with x live show ?thesis by simp
  next
    case False with x k i show ?thesis by simp
  qed
qed

section \<open>Device codes\<close>

text \<open>The row of a code that can still be authorized at a time.\<close>

definition authorizable :: "auth_db \<Rightarrow> time \<Rightarrow> string \<Rightarrow> bool" where
  "authorizable d now code \<longleftrightarrow> list_ex (\<lambda>x. dc_code x = code \<and> now \<le> dc_expires_at x \<and> dc_api_key x = None) (ad_devices d)"

lemma authorize_device_code_Inr:
  assumes "authorize_device_code env d now code u key = (Inr x, d')"
  shows "ad_devices d' = map (\<lambda>x. if dc_code x = code \<and> now \<le> dc_expires_at x \<and> dc_api_key x = None
      then x\<lparr>dc_user_id := Some u, dc_api_key := Some key\<rparr> else x) (ad_devices d)" "ad_org d' = ad_org d"
  using assms by (auto simp: authorize_device_code_def Let_def db_write_def split: if_splits)

lemma find_code_map:
  assumes "\<And>x. dc_code (f x) = dc_code x"
  shows "find (\<lambda>x. dc_code x = code) (map f xs) = map_option f (find (\<lambda>x. dc_code x = code) xs)"
  using assms by (induction xs) simp_all

text \<open>A device code works once. Once it has been authorized nobody can authorize it again. The next poll within its
  life gives the key to whoever asks and deletes the code, so that every poll after that finds nothing.
\<close>

theorem device_code_single_use:
  assumes "authorize_device_code env d now code u key = (Inr x, d1)" and "distinct (map dc_code (ad_devices d))"
    and "find (\<lambda>x. us_id x = u) (od_users (ad_org d)) = Some user" and "\<forall>op k. \<not> se_down env op k"
    and "find (\<lambda>x. dc_code x = code) (ad_devices d) = Some row" and "now \<le> later" "later \<le> dc_expires_at row"
  shows "authorize_device_code env d1 later code v key' = (Inl (StNotFound ''device code not found, expired, or already authorized''), d1) \<and>
    fst (poll_device_code env d1 later code) = Inr (DcAuthorized key u (us_email user)) \<and>
    poll_device_code env (snd (poll_device_code env d1 later code)) again code =
      (Inl (StNotFound ''device code not found''), snd (poll_device_code env d1 later code))"
proof -
  note a = authorize_device_code_Inr [OF assms(1)]
  have row: "row \<in> set (ad_devices d)" "dc_code row = code" using find_SomeD [OF assms(5)] by auto
  have "\<exists>x\<in>set (ad_devices d). dc_code x = code \<and> now \<le> dc_expires_at x \<and> dc_api_key x = None"
    using assms(1,4) by (auto simp: authorize_device_code_def Let_def db_write_def list_ex_iff split: if_splits)
  then obtain y where "y \<in> set (ad_devices d)" "dc_code y = code" and y: "dc_api_key y = None" by blast
  then have "y = row" using inj_onD [of dc_code "set (ad_devices d)" y row] assms(2) row by (simp add: distinct_map)
  with y assms(6,7) have f: "find (\<lambda>x. dc_code x = code) (ad_devices d1) = Some (row\<lparr>dc_user_id := Some u, dc_api_key := Some key\<rparr>)"
    using row assms(5) by (simp add: a(1) find_code_map)
  have "\<not> list_ex (\<lambda>x. dc_code x = code \<and> later \<le> dc_expires_at x \<and> dc_api_key x = None) (ad_devices d1)"
    unfolding a(1) list_ex_iff
  proof clarify
    fix z assume "z \<in> set (map (\<lambda>x. if dc_code x = dc_code z \<and> now \<le> dc_expires_at x \<and> dc_api_key x = None
        then x\<lparr>dc_user_id := Some u, dc_api_key := Some key\<rparr> else x) (ad_devices d))"
      and l: "later \<le> dc_expires_at z" "dc_api_key z = None"
    then obtain x where "z = (if dc_code x = dc_code z \<and> now \<le> dc_expires_at x \<and> dc_api_key x = None
        then x\<lparr>dc_user_id := Some u, dc_api_key := Some key\<rparr> else x)" by (auto simp only: set_map image_iff)
    with l assms(6) show False by (cases "dc_code x = dc_code z \<and> now \<le> dc_expires_at x \<and> dc_api_key x = None") auto
  qed
  then have "authorize_device_code env d1 later code v key' = (Inl (StNotFound ''device code not found, expired, or already authorized''), d1)"
    using assms(4) by (simp add: authorize_device_code_def Let_def db_write_def)
  moreover have "poll_device_code env d1 later code = (Inr (DcAuthorized key u (us_email user)), d1\<lparr>ad_devices := filter (\<lambda>x. dc_code x \<noteq> code) (ad_devices d1)\<rparr>)"
    using f assms(3,4,7) by (simp add: poll_device_code_def db_write_def a(2) delete_device_code_def)
  moreover have "find (\<lambda>x. dc_code x = code) (filter (\<lambda>x. dc_code x \<noteq> code) (ad_devices d1)) = None" by (simp add: find_None_iff)
  ultimately show ?thesis using assms(4) by (simp add: poll_device_code_def db_write_def)
qed

definition device_db :: auth_db where
  "device_db = sample_auth_db\<lparr>ad_devices := [\<lparr>dc_code = ''AAAA-BBBB'', dc_user_id = None, dc_api_key = None, dc_expires_at = 600\<rparr>]\<rparr>"

theorem device_code_single_use_witness:
  "fst (poll_device_code sample_auth_env (snd (authorize_device_code sample_auth_env device_db 10 ''AAAA-BBBB'' 7 ''key'')) 20 ''AAAA-BBBB'') =
     Inr (DcAuthorized ''key'' 7 ''a@b'') \<and>
   authorize_device_code sample_auth_env (snd (authorize_device_code sample_auth_env device_db 10 ''AAAA-BBBB'' 7 ''key'')) 20 ''AAAA-BBBB'' 8 ''other'' =
     (Inl (StNotFound ''device code not found, expired, or already authorized''), snd (authorize_device_code sample_auth_env device_db 10 ''AAAA-BBBB'' 7 ''key''))"
proof -
  let ?d = "snd (authorize_device_code sample_auth_env device_db 10 ''AAAA-BBBB'' 7 ''key'')"
  have a: "authorize_device_code sample_auth_env device_db 10 ''AAAA-BBBB'' 7 ''key'' = (Inr (), ?d)"
    by (simp add: authorize_device_code_def Let_def db_write_def sample_auth_env_def device_db_def)
  have "distinct (map dc_code (ad_devices device_db))"
    and "find (\<lambda>x. us_id x = 7) (od_users (ad_org device_db)) = Some \<lparr>us_id = 7, us_email = ''a@b'', us_name = ''ann'', us_created_at = 0\<rparr>"
    and "\<forall>op k. \<not> se_down sample_auth_env op k"
    and "find (\<lambda>x. dc_code x = ''AAAA-BBBB'') (ad_devices device_db) = Some \<lparr>dc_code = ''AAAA-BBBB'', dc_user_id = None, dc_api_key = None, dc_expires_at = 600\<rparr>"
    by (simp_all add: device_db_def sample_auth_db_def sample_auth_env_def)
  from device_code_single_use [OF a this, of 20 8 "''other''" 20] show ?thesis by simp
qed

text \<open>The handler that authorizes a device code creates the key before it looks at the code. A request with a code that is
  unknown, expired or used up is answered 404, and yet it has replaced the key the user's CLI was using: that key was accepted before the
  request and is refused after it, and the new token is in nobody's hands.
\<close>

theorem bad_device_code_replaces_key:
  assumes "keys_ok d" and "\<not> authorizable d now code" and "\<forall>op k. \<not> se_down env op k"
    and "ai_user_id identity = Some u" and "find (same_active_key u ''CLI (device code)'') (ad_keys d) = Some old"
    and "kr_key_hash old = au_hash env old_token" and "key_live now (kr_key old)" and "key_hash_free d (au_hash env token)"
  shows "fst (authorize_device_code_handler env d now key_i token identity code) =
      Inl (api_not_found ''device code not found, expired, or already authorized'') \<and>
    fst (validate_key env d now old_token) = Inr (kr_key old) \<and>
    fst (validate_key env (snd (authorize_device_code_handler env d now key_i token identity code)) now old_token) =
      Inl (StNotFound ''invalid or revoked API key'')"
proof -
  let ?name = "''CLI (device code)''"
  let ?d = "d\<lparr>ad_keys := map (\<lambda>k. if same_active_key u ?name k then rotate_key (au_hash env token) (take 8 token) now (Some ''write'') k else k) (ad_keys d)\<rparr>"
  have old: "old \<in> set (ad_keys d)" "same_active_key u ?name old" using find_SomeD [OF assms(5)] by auto
  have c: "create_key env d now key_i token None ?name (Some u) (Some ''write'') (Some ''cli'') None =
      (Inr (row_to_api_key (rotate_key (au_hash env token) (take 8 token) now (Some ''write'') old), token), ?d)"
    using assms(3,5,8) by (simp add: create_key_def Let_def db_write_def)
  have "authorize_device_code env ?d now code u token = (Inl (StNotFound ''device code not found, expired, or already authorized''), ?d)"
    using assms(2,3) by (simp add: authorize_device_code_def Let_def db_write_def authorizable_def)
  then have h: "authorize_device_code_handler env d now key_i token identity code =
      (Inl (api_not_found ''device code not found, expired, or already authorized''), ?d)"
    using assms(4) c by (simp add: authorize_device_code_handler_def not_found_as_def)
  have inj: "k \<in> set (ad_keys d) \<Longrightarrow> kr_key_hash k = au_hash env old_token \<Longrightarrow> k = old" for k
    using assms(1,6) old(1) unfolding keys_ok_def by (metis distinct_map inj_onD)
  have "au_hash env token \<noteq> au_hash env old_token" using assms(6,8) old(1) by (auto simp: key_hash_free_def list_ex_iff)
  then have "kr_key_hash k \<noteq> au_hash env old_token" if "k \<in> set (ad_keys ?d)" for k
    using that old(2) by (auto split: if_splits dest: inj)
  then have "find (\<lambda>k. kr_key_hash k = au_hash env old_token \<and> key_live now (kr_key k)) (ad_keys ?d) = None"
    unfolding find_None_iff by blast
  then have after: "fst (validate_key env ?d now old_token) = Inl (StNotFound ''invalid or revoked API key'')"
    using assms(3) by (simp add: validate_key_def db_write_def)
  obtain k where f: "find (\<lambda>k. kr_key_hash k = au_hash env old_token \<and> key_live now (kr_key k)) (ad_keys d) = Some k"
    using old(1) assms(6,7) by (metis (mono_tags, lifting) find_None_iff not_None_eq)
  then have "k = old" using inj find_SomeD [OF f] by blast
  then have "fst (validate_key env d now old_token) = Inr (kr_key old)"
    using f assms(3) by (simp add: validate_key_def db_write_def row_to_api_key_def)
  with after h show ?thesis by simp
qed

definition cli_key_db :: auth_db where
  "cli_key_db = sample_auth_db\<lparr>ad_keys := [\<lparr>kr_key = \<lparr>ak_id = ''k1'', ak_name = ''CLI (device code)'', ak_key_prefix = ''old'', ak_created_at = 0,
     ak_last_used_at = None, ak_revoked = False, ak_user_id = Some 7, ak_role_override = Some ''write'', ak_agent_type = Some ''cli'',
     ak_expires_at = None\<rparr>, kr_repo_id = None, kr_key_hash = ''dlo''\<rparr>]\<rparr>"

theorem bad_device_code_replaces_key_witness:
  "fst (authorize_device_code_handler sample_auth_env cli_key_db 5 ''k2'' ''new'' sample_user_identity ''nope'') =
     Inl (api_not_found ''device code not found, expired, or already authorized'') \<and>
   fst (validate_key sample_auth_env (snd (authorize_device_code_handler sample_auth_env cli_key_db 5 ''k2'' ''new'' sample_user_identity ''nope'')) 5 ''old'') =
     Inl (StNotFound ''invalid or revoked API key'')"
proof -
  let ?old = "hd (ad_keys cli_key_db)"
  have "keys_ok cli_key_db" "\<not> authorizable cli_key_db 5 ''nope''" "\<forall>op k. \<not> se_down sample_auth_env op k"
    "ai_user_id sample_user_identity = Some 7" "find (same_active_key 7 ''CLI (device code)'') (ad_keys cli_key_db) = Some ?old"
    "kr_key_hash ?old = au_hash sample_auth_env ''old''" "key_live 5 (kr_key ?old)" "key_hash_free cli_key_db (au_hash sample_auth_env ''new'')"
    by (simp_all add: keys_ok_def active_users_def cli_key_db_def authorizable_def sample_auth_db_def sample_auth_env_def sample_user_identity_def
        same_active_key_def key_live_def key_hash_free_def)
  from bad_device_code_replaces_key [OF this, of "''k2''"] show ?thesis by simp
qed

end
