(* ===== verification/WorkerRegistry_Laws.thy ===== *)
theory WorkerRegistry_Laws
  imports WorkerRegistry Auth_Laws
begin

text \<open>
  Laws of the worker registry: what the dead-worker pass leaves behind and what it leaves alone, that an
  abandoned claim returns to the queue, that no pass exceeds the concurrency cap, and the number of
  workers the top-up pass ends with. The facts about machines are proved for every provider that keeps the
  contract \<open>compute_provider\<close>, the exact ones for one whose \<open>destroy\<close> never fails silently.
\<close>

section \<open>What each step touches\<close>

lemma update_issue_frame [simp]:
  "ho_workers (snd (update_issue env h now r i u)) = ho_workers h"
  "ho_workspaces (snd (update_issue env h now r i u)) = ho_workspaces h"
  "ho_repos (snd (update_issue env h now r i u)) = ho_repos h"
  by (simp_all add: update_issue_def db_write_def update_issue_rows_def Let_def split: sum.split)

lemma discard_workspace_frame [simp]:
  "ho_workers (snd (discard_workspace env h now r i)) = ho_workers h"
  "ho_issues (snd (discard_workspace env h now r i)) = ho_issues h"
  "ho_repos (snd (discard_workspace env h now r i)) = ho_repos h"
  by (simp_all add: discard_workspace_def db_write_def update_workspace_row_def)

lemma mark_done_frame [simp]:
  "ho_workspaces (snd (mark_done env h now i reason)) = ho_workspaces h"
  "ho_issues (snd (mark_done env h now i reason)) = ho_issues h"
  "ho_repos (snd (mark_done env h now i reason)) = ho_repos h"
  by (simp_all add: mark_done_def update_worker_checked_def db_write_def update_worker_def)

lemma release_workspace_workers [simp]: "ho_workers (release_workspace env now w h) = ho_workers h"
proof -
  have "ho_workers (snd (discard_workspace env h now r ws)) = ho_workers h" for r ws by simp
  then show ?thesis
    unfolding release_workspace_def
    by (auto split: option.split sum.split prod.split simp del: discard_workspace_frame) (metis snd_conv)+
qed

definition dead :: "time \<Rightarrow> AgentWorker \<Rightarrow> AgentWorker" where
  "dead now w = w\<lparr>wk_state := ''dead'', wk_ended_at := Some now\<rparr>"

lemma dead_simps [simp]:
  "wk_id (dead now w) = wk_id w" "wk_workspace_id (dead now w) = wk_workspace_id w" "wk_repo_id (dead now w) = wk_repo_id w"
  "\<not> worker_live (dead now w)" "dead now (dead now w) = dead now w"
  by (simp_all add: dead_def worker_live_def live_states_def)

lemma mark_done_workers:
  "ho_workers (snd (mark_done env h now i DoneTerminated)) =
     (if se_down env ''mark_done'' i then ho_workers h else map (\<lambda>w. if wk_id w = i then dead now w else w) (ho_workers h))"
proof -
  have "map (\<lambda>w. if wk_id w = i then dead now w else w) (ho_workers h) = ho_workers h" if "\<not> worker_exists h i"
    using that by (auto simp: worker_exists_def list_ex_iff intro: map_idI)
  then show ?thesis by (auto simp: mark_done_def update_worker_checked_def db_write_def update_worker_def dead_def [abs_def])
qed

lemma mark_done_Inr: "fst (mark_done env h now i reason) = Inr () \<longleftrightarrow> \<not> se_down env ''mark_done'' i \<and> worker_exists h i"
  by (auto simp: mark_done_def update_worker_checked_def db_write_def)

lemma worker_exists_iff: "worker_exists h i \<longleftrightarrow> i \<in> set (map wk_id (ho_workers h))"
  by (auto simp: worker_exists_def list_ex_iff)

section \<open>The workers after the pass\<close>

definition reaped :: "('e) registry_env_scheme \<Rightarrow> AgentWorker list \<Rightarrow> AgentWorker \<Rightarrow> bool" where
  "reaped env ws x \<longleftrightarrow> list_ex (\<lambda>w. wk_id w = wk_id x) ws \<and> \<not> se_down env ''mark_done'' (wk_id x)"

lemma reap_worker_hosted:
  "fst (snd (reap_worker env cp now w (n, h, c))) = snd (mark_done env (release_workspace env now w h) now (wk_id w) DoneTerminated)"
  by (auto simp: reap_worker_def Let_def split: prod.split sum.split)

lemma fold_reap_workers:
  "ho_workers (fst (snd (fold (reap_worker env cp now) ws s))) = map (\<lambda>x. if reaped env ws x then dead now x else x) (ho_workers (fst (snd s)))"
proof (induction ws arbitrary: s)
  case Nil
  then show ?case by (simp add: reaped_def)
next
  case (Cons w ws)
  obtain n h c where s: "s = (n, h, c)" by (metis prod_cases3)
  show ?case
    by (auto simp: Cons.IH s reap_worker_hosted mark_done_workers reaped_def)
qed

section \<open>The sweep\<close>

definition discarded :: "time \<Rightarrow> WorkspaceMeta \<Rightarrow> WorkspaceMeta" where
  "discarded now m = m\<lparr>wm_status := WDiscarded, wm_updated_at := now\<rparr>"

lemma discarded_simps [simp]:
  "wm_id (discarded now m) = wm_id m" "wm_issue_id (discarded now m) = wm_issue_id m" "wm_status (discarded now m) = WDiscarded"
  "discarded now (discarded now m) = discarded now m"
  by (simp_all add: discarded_def)

lemma discard_rows:
  "ho_workspaces (snd (discard_workspace env h now r i)) =
     map (\<lambda>(r', m). if r' = r \<and> wm_id m = i \<and> \<not> se_down env ''discard_workspace'' i then (r', discarded now m) else (r', m)) (ho_workspaces h)"
  by (auto simp: discard_workspace_def db_write_def update_workspace_row_def discarded_def [abs_def] intro: map_idI [symmetric])

lemma sweep_one_hosted:
  "ho_workspaces (snd (sweep_one env now (ws, r, i) (n, h))) = ho_workspaces (snd (discard_workspace env h now r ws))"
  "ho_workers (snd (sweep_one env now (ws, r, i) (n, h))) = ho_workers h"
  using discard_workspace_frame(1) [of env h now r ws]
  by (auto simp: sweep_one_def Let_def split: prod.split sum.split simp del: discard_workspace_frame)

definition swept :: "('e) registry_env_scheme \<Rightarrow> (uuid \<times> uuid \<times> uuid) list \<Rightarrow> uuid \<times> WorkspaceMeta \<Rightarrow> bool" where
  "swept env xs row \<longleftrightarrow> list_ex (\<lambda>(ws, r, i). ws = wm_id (snd row) \<and> r = fst row) xs \<and> \<not> se_down env ''discard_workspace'' (wm_id (snd row))"

lemma fold_sweep_workers: "ho_workers (snd (fold (sweep_one env now) xs s)) = ho_workers (snd s)"
proof (induction xs arbitrary: s)
  case (Cons x xs)
  obtain ws r i n h where "x = (ws, r, i)" "s = (n, h)" by (metis prod_cases3 surj_pair)
  with Cons show ?case by (simp add: sweep_one_hosted)
qed simp

lemma fold_sweep_rows:
  "ho_workspaces (snd (fold (sweep_one env now) xs s)) =
     map (\<lambda>(r, m). if swept env xs (r, m) then (r, discarded now m) else (r, m)) (ho_workspaces (snd s))"
proof (induction xs arbitrary: s)
  case Nil
  then show ?case by (simp add: swept_def case_prod_unfold)
next
  case (Cons x xs)
  obtain ws r i n h where "x = (ws, r, i)" "s = (n, h)" by (metis prod_cases3 surj_pair)
  with Cons show ?case by (auto simp: sweep_one_hosted discard_rows swept_def)
qed

lemma orphaned_workers: "ho_workers h = ho_workers h' \<Longrightarrow> orphaned h = orphaned h'"
  by (auto simp: orphaned_def fun_eq_iff)

lemma sweep_complete:
  assumes "\<not> se_down env ''list_orphaned_issue_workspaces'' 0" "x \<in> set (ho_workspaces (snd (sweep_orphaned_workspaces env h now secs)))"
    "orphaned (snd (sweep_orphaned_workspaces env h now secs)) now secs x"
  shows "se_down env ''discard_workspace'' (wm_id (snd x))"
proof (rule ccontr)
  assume up: "\<not> se_down env ''discard_workspace'' (wm_id (snd x))"
  let ?os = "map (\<lambda>(r, m). (wm_id m, r, the (wm_issue_id m))) (filter (orphaned h now secs) (ho_workspaces h))"
  have sw: "sweep_orphaned_workspaces env h now secs = fold (sweep_one env now) ?os (0, h)"
    using assms(1) by (simp add: sweep_orphaned_workspaces_def list_orphaned_issue_workspaces_def db_read_def)
  have o: "orphaned h now secs x" using assms(3) orphaned_workers [OF fold_sweep_workers, of env now ?os "(0, h)"] by (simp add: sw)
  obtain r m where y: "(r, m) \<in> set (ho_workspaces h)" "x = (if swept env ?os (r, m) then (r, discarded now m) else (r, m))"
    using assms(2) by (auto simp: sw fold_sweep_rows)
  show False
  proof (cases "swept env ?os (r, m)")
    case True
    with o y show False by (simp add: orphaned_def)
  next
    case False
    with y have "x = (r, m)" by simp
    then have "swept env ?os (r, m)" using o up y(1) by (force simp: swept_def list_ex_iff)
    with False show False ..
  qed
qed

section \<open>The machines\<close>

definition machine_of :: "AgentWorker \<Rightarrow> MachineId set" where
  "machine_of w = (case wk_machine_id w of None \<Rightarrow> {} | Some m \<Rightarrow> {MachineId m})"

lemma reap_worker_compute:
  "snd (snd (reap_worker env cp now w (n, h, c))) =
     (if \<not> se_down env ''mark_done'' (wk_id w) \<and> worker_exists h (wk_id w) then destroy_machine cp w c else c)"
proof -
  have "worker_exists (release_workspace env now w h) = worker_exists h" by (simp add: worker_exists_def fun_eq_iff)
  with mark_done_Inr [of env "release_workspace env now w h" now "wk_id w" DoneTerminated]
  show ?thesis by (auto simp: reap_worker_def Let_def split: prod.split sum.split)
qed

context compute_provider begin

lemma destroy_machine_bounds:
  assumes "wf c"
  shows "wf (destroy_machine cp w c)" "live (destroy_machine cp w c) \<subseteq> live c" "live c - machine_of w \<subseteq> live (destroy_machine cp w c)"
  using assms destroy_wf destroy_mono destroy_others by (auto simp: destroy_machine_def machine_of_def split: option.split)

text \<open>A pass stops no machine but those of the workers it reaps.\<close>

lemma reap_bounds:
  assumes "wf (snd (snd s))"
  shows "wf (snd (snd (fold (reap_worker env cp now) ws s)))"
    "live (snd (snd (fold (reap_worker env cp now) ws s))) \<subseteq> live (snd (snd s))"
    "live (snd (snd s)) - (\<Union>w\<in>set ws. machine_of w) \<subseteq> live (snd (snd (fold (reap_worker env cp now) ws s)))"
proof -
  have "wf (snd (snd (fold (reap_worker env cp now) ws s))) \<and> live (snd (snd (fold (reap_worker env cp now) ws s))) \<subseteq> live (snd (snd s)) \<and>
    live (snd (snd s)) - (\<Union>w\<in>set ws. machine_of w) \<subseteq> live (snd (snd (fold (reap_worker env cp now) ws s)))"
    using assms
  proof (induction ws arbitrary: s)
    case (Cons w ws)
    obtain n h c where s: "s = (n, h, c)" by (metis prod_cases3)
    let ?s = "reap_worker env cp now w s"
    have "wf (snd (snd ?s)) \<and> live (snd (snd ?s)) \<subseteq> live c \<and> live c - machine_of w \<subseteq> live (snd (snd ?s))"
      using destroy_machine_bounds [of c w] Cons.prems by (simp add: s reap_worker_compute)
    with Cons.IH [of ?s] show ?case by (auto simp: s)
  qed simp
  then show "wf (snd (snd (fold (reap_worker env cp now) ws s)))"
    "live (snd (snd (fold (reap_worker env cp now) ws s))) \<subseteq> live (snd (snd s))"
    "live (snd (snd s)) - (\<Union>w\<in>set ws. machine_of w) \<subseteq> live (snd (snd (fold (reap_worker env cp now) ws s)))" by auto
qed

end

text \<open>A provider whose \<open>destroy\<close> always leaves the machine stopped.\<close>

locale sure_provider = compute_provider +
  assumes destroy_sure: "wf c \<Longrightarrow> m \<notin> live (snd (cp_destroy cp c m))"
begin

lemma destroy_machine_live: "wf c \<Longrightarrow> live (destroy_machine cp w c) = live c - machine_of w"
  using destroy_machine_bounds [of c w] destroy_sure [of c] by (auto simp: destroy_machine_def machine_of_def split: option.splits)

lemma reap_live:
  assumes "wf (snd (snd s))" "list_all (\<lambda>w. worker_exists (fst (snd s)) (wk_id w)) ws"
  shows "live (snd (snd (fold (reap_worker env cp now) ws s))) =
    live (snd (snd s)) - (\<Union>w\<in>{w \<in> set ws. \<not> se_down env ''mark_done'' (wk_id w)}. machine_of w)"
  using assms
proof (induction ws arbitrary: s)
  case (Cons w ws)
  obtain n h c where s: "s = (n, h, c)" by (metis prod_cases3)
  let ?s = "reap_worker env cp now w s"
  have "map wk_id (ho_workers (fst (snd ?s))) = map wk_id (ho_workers h)" by (auto simp: s reap_worker_hosted mark_done_workers)
  then have e: "worker_exists (fst (snd ?s)) = worker_exists h" by (simp only: worker_exists_iff fun_eq_iff simp_thms)
  have "wf (snd (snd ?s))" "live (snd (snd ?s)) = live c - (if se_down env ''mark_done'' (wk_id w) then {} else machine_of w)"
    using Cons.prems destroy_machine_bounds(1) destroy_machine_live by (auto simp: s reap_worker_compute)
  with Cons.IH [of ?s] Cons.prems e show ?case by (auto simp: s)
qed simp

end

interpretation ims: sure_provider in_memory im_ok im_live
proof
  show "m \<notin> im_live (snd (cp_destroy in_memory c m))" if "im_ok c" for c m
    using im_destroy_cases [of c m] by (cases "cp_destroy in_memory c m") auto
qed

section \<open>The pass\<close>

lemma reconcile_split:
  assumes "\<not> se_down env ''list_stale_workers'' 0"
  obtains n h1 c1 where
    "fold (reap_worker env cp now) (filter (worker_stale now secs) (ho_workers h)) (0, h, c) = (n, h1, c1)"
    "reconcile_once env cp now secs (h, c) = (n + fst (sweep_orphaned_workspaces env h1 now secs), snd (sweep_orphaned_workspaces env h1 now secs), c1)"
  using assms
  by (cases "fold (reap_worker env cp now) (filter (worker_stale now secs) (ho_workers h)) (0, h, c)")
    (auto simp: reconcile_once_def list_stale_workers_def db_read_def case_prod_unfold Let_def)

lemma sweep_workers: "ho_workers (snd (sweep_orphaned_workspaces env h now secs)) = ho_workers h"
  by (auto simp: sweep_orphaned_workspaces_def fold_sweep_workers split: sum.split)

lemma reconcile_workers:
  assumes "\<not> se_down env ''list_stale_workers'' 0"
  shows "ho_workers (fst (snd (reconcile_once env cp now secs (h, c)))) =
    map (\<lambda>x. if reaped env (filter (worker_stale now secs) (ho_workers h)) x then dead now x else x) (ho_workers h)"
proof -
  obtain n h1 c1 where f: "fold (reap_worker env cp now) (filter (worker_stale now secs) (ho_workers h)) (0, h, c) = (n, h1, c1)"
    and r: "reconcile_once env cp now secs (h, c) = (n + fst (sweep_orphaned_workspaces env h1 now secs), snd (sweep_orphaned_workspaces env h1 now secs), c1)"
    by (rule reconcile_split [OF assms])
  show ?thesis using fold_reap_workers [of env cp now "filter (worker_stale now secs) (ho_workers h)" "(0, h, c)"] by (simp add: f r sweep_workers)
qed

lemma machines_of_reaped:
  "(\<Union>w\<in>{w \<in> set (filter (worker_stale now secs) ws). P w}. machine_of w) =
     {MachineId m |w m. w \<in> set ws \<and> worker_stale now secs w \<and> P w \<and> wk_machine_id w = Some m}"
  by (auto simp: machine_of_def split: option.splits)


section \<open>What the pass leaves alone\<close>

lemma release_rows:
  obtains "ho_workspaces (release_workspace env now w h) = ho_workspaces h"
  | ws where "wk_workspace_id w = Some ws"
      "ho_workspaces (release_workspace env now w h) = ho_workspaces (snd (discard_workspace env h now (wk_repo_id w) ws))"
proof (cases "wk_workspace_id w")
  case None
  then show thesis using that(1) by (simp add: release_workspace_def)
next
  case (Some ws)
  show thesis
  proof (cases "get_workspace env h (wk_repo_id w) ws")
    case (Inl e)
    then show thesis using that(1) by (simp add: release_workspace_def Some)
  next
    case (Inr m)
    have "ho_workspaces (release_workspace env now w h) = ho_workspaces (snd (discard_workspace env h now (wk_repo_id w) ws))"
      by (simp add: release_workspace_def Some Inr split: prod.split sum.split option.split)
    then show thesis using that(2) Some by blast
  qed
qed

lemma reap_keeps_row:
  assumes "x \<in> set (ho_workspaces h)" "wk_workspace_id w \<noteq> Some (wm_id (snd x))"
  shows "x \<in> set (ho_workspaces (fst (snd (reap_worker env cp now w (n, h, c)))))"
proof (cases rule: release_rows [of env now w h])
  case (2 ws)
  then have "x \<in> set (ho_workspaces (release_workspace env now w h))"
    using assms by (cases x) (auto simp: discard_rows intro!: image_eqI [of _ _ x])
  then show ?thesis by (simp add: reap_worker_hosted)
qed (simp add: reap_worker_hosted assms(1))

lemma fold_reap_keeps_row:
  assumes "x \<in> set (ho_workspaces (fst (snd s)))" "\<And>w. w \<in> set ws \<Longrightarrow> wk_workspace_id w \<noteq> Some (wm_id (snd x))"
  shows "x \<in> set (ho_workspaces (fst (snd (fold (reap_worker env cp now) ws s))))"
  using assms
proof (induction ws arbitrary: s)
  case (Cons w ws)
  obtain n h c where s: "s = (n, h, c)" by (metis prod_cases3)
  have "x \<in> set (ho_workspaces (fst (snd (reap_worker env cp now w s))))" using Cons.prems by (simp add: s reap_keeps_row)
  with Cons show ?case by simp
qed simp

lemma sweep_keeps_row:
  assumes "x \<in> set (ho_workspaces h)" "w \<in> set (ho_workers h)" "worker_live w" "wk_workspace_id w = Some (wm_id (snd x))"
  shows "x \<in> set (ho_workspaces (snd (sweep_orphaned_workspaces env h now secs)))"
proof -
  let ?os = "map (\<lambda>(r, m). (wm_id m, r, the (wm_issue_id m))) (filter (orphaned h now secs) (ho_workspaces h))"
  have "\<not> swept env ?os x" using assms(2-4) by (auto simp: swept_def list_ex_iff orphaned_def)
  then show ?thesis using assms(1)
    by (cases x) (auto simp: sweep_orphaned_workspaces_def list_orphaned_issue_workspaces_def db_read_def fold_sweep_rows intro!: image_eqI [of _ _ x])
qed

lemma reconcile_list_down: "se_down env ''list_stale_workers'' 0 \<Longrightarrow> reconcile_once env cp now secs s = (0, s)"
  by (simp add: reconcile_once_def list_stale_workers_def db_read_def)


section \<open>An abandoned claim\<close>

lemma find_map_keep: "(\<And>x. P (g x) = P x) \<Longrightarrow> find P (map g xs) = map_option g (find P xs)"
  by (induction xs) simp_all

lemma find_workspace_row:
  assumes "\<And>m. wm_id (f m) = wm_id m"
  shows "find_workspace (update_workspace_row r i f h) r' i' = map_option (\<lambda>m. if r' = r \<and> i' = i then f m else m) (find_workspace h r' i')"
proof -
  have "find (\<lambda>(r', m). r' = r'' \<and> wm_id m = i') (map (\<lambda>(r', m). if r' = r \<and> wm_id m = i then (r', f m) else (r', m)) xs) =
      map_option (\<lambda>(r', m). if r' = r \<and> wm_id m = i then (r', f m) else (r', m)) (find (\<lambda>(r', m). r' = r'' \<and> wm_id m = i') xs)" for r'' xs
    using assms by (intro find_map_keep) (auto split: if_splits)
  then show ?thesis
    by (auto simp: find_workspace_def update_workspace_row_def option.map_comp o_def case_prod_unfold intro!: option.map_cong dest: find_SomeD)
qed

lemma find_issue_row:
  assumes "\<And>m. is_id (f m) = is_id m"
  shows "find_issue (update_issue_rows r i f h) r' i' = map_option (\<lambda>m. if r' = r \<and> i' = i then f m else m) (find_issue h r' i')"
proof -
  have "find (\<lambda>(r', m). r' = r'' \<and> is_id m = i') (map (\<lambda>(r', m). if r' = r \<and> is_id m = i then (r', f m) else (r', m)) xs) =
      map_option (\<lambda>(r', m). if r' = r \<and> is_id m = i then (r', f m) else (r', m)) (find (\<lambda>(r', m). r' = r'' \<and> is_id m = i') xs)" for r'' xs
    using assms by (intro find_map_keep) (auto split: if_splits)
  then show ?thesis
    by (auto simp: find_issue_def update_issue_rows_def option.map_comp o_def case_prod_unfold intro!: option.map_cong dest: find_SomeD)
qed

text \<open>Every step of the pass can only discard workspaces and reopen issues.\<close>

definition reopened :: "time \<Rightarrow> Issue \<Rightarrow> Issue" where
  "reopened now x = x\<lparr>is_status := IOpen, is_updated_at := now\<rparr>"

definition settles :: "time \<Rightarrow> hosted \<Rightarrow> hosted \<Rightarrow> bool" where
  "settles now h h' \<longleftrightarrow>
     (\<forall>r i. find_workspace h' r i \<in> {find_workspace h r i, map_option (discarded now) (find_workspace h r i)}) \<and>
     (\<forall>r i. find_issue h' r i \<in> {find_issue h r i, map_option (reopened now) (find_issue h r i)})"

lemma reopened_simps [simp]:
  "is_status (reopened now x) = IOpen" "is_id (reopened now x) = is_id x" "reopened now (reopened now x) = reopened now x"
  by (simp_all add: reopened_def)

lemma settles_refl: "settles now h h"
  by (simp add: settles_def)

lemma settles_trans:
  assumes "settles now h h1" "settles now h1 h2" shows "settles now h h2"
proof -
  have a: "find_workspace h1 r i \<in> {find_workspace h r i, map_option (discarded now) (find_workspace h r i)}"
    "find_workspace h2 r i \<in> {find_workspace h1 r i, map_option (discarded now) (find_workspace h1 r i)}"
    "find_issue h1 r i \<in> {find_issue h r i, map_option (reopened now) (find_issue h r i)}"
    "find_issue h2 r i \<in> {find_issue h1 r i, map_option (reopened now) (find_issue h1 r i)}" for r i
    using assms unfolding settles_def by blast+
  have "find_workspace h2 r i \<in> {find_workspace h r i, map_option (discarded now) (find_workspace h r i)}" for r i
    using a(1,2) [of r i] by (auto simp: option.map_comp o_def)
  moreover have "find_issue h2 r i \<in> {find_issue h r i, map_option (reopened now) (find_issue h r i)}" for r i
    using a(3,4) [of r i] by (auto simp: option.map_comp o_def)
  ultimately show ?thesis unfolding settles_def by blast
qed

lemma find_cong:
  "ho_workspaces h = ho_workspaces h' \<Longrightarrow> find_workspace h = find_workspace h'"
  "ho_issues h = ho_issues h' \<Longrightarrow> find_issue h = find_issue h'"
  by (simp_all add: find_workspace_def find_issue_def fun_eq_iff)

lemma find_discard:
  "find_workspace (snd (discard_workspace env h now r i)) r' i' =
     (if r' = r \<and> i' = i \<and> \<not> se_down env ''discard_workspace'' i then map_option (discarded now) (find_workspace h r' i') else find_workspace h r' i')"
  "find_issue (snd (discard_workspace env h now r i)) = find_issue h"
proof -
  have "find_workspace (update_workspace_row r i (\<lambda>m. m\<lparr>wm_status := WDiscarded, wm_updated_at := now\<rparr>) h) r' i' =
      map_option (\<lambda>m. if r' = r \<and> i' = i then discarded now m else m) (find_workspace h r' i')"
    unfolding discarded_def by (subst find_workspace_row) simp_all
  then show "find_workspace (snd (discard_workspace env h now r i)) r' i' =
     (if r' = r \<and> i' = i \<and> \<not> se_down env ''discard_workspace'' i then map_option (discarded now) (find_workspace h r' i') else find_workspace h r' i')"
    by (auto simp: discard_workspace_def db_write_def option.map_ident)
qed (rule find_cong, simp)

lemma find_reopen:
  "find_workspace (snd (update_issue env h now r i reopen)) = find_workspace h"
  "find_issue (snd (update_issue env h now r i reopen)) r' i' =
     (if r' = r \<and> i' = i \<and> \<not> se_down env ''get_issue'' i \<and> \<not> se_down env ''update_issue'' i
      then map_option (reopened now) (find_issue h r' i') else find_issue h r' i')"
proof -
  show "find_workspace (snd (update_issue env h now r i reopen)) = find_workspace h" by (rule find_cong) simp
  have row: "find_issue (update_issue_rows r i (\<lambda>x. f x) h) r' i' = map_option (\<lambda>x. if r' = r \<and> i' = i then f x else x) (find_issue h r' i')"
    if "\<And>x. is_id (f x) = is_id x" for f :: "Issue \<Rightarrow> Issue" using that by (rule find_issue_row)
  show "find_issue (snd (update_issue env h now r i reopen)) r' i' =
     (if r' = r \<and> i' = i \<and> \<not> se_down env ''get_issue'' i \<and> \<not> se_down env ''update_issue'' i
      then map_option (reopened now) (find_issue h r' i') else find_issue h r' i')"
  proof (cases "se_down env ''get_issue'' i \<or> se_down env ''update_issue'' i \<or> find_issue h r i = None")
    case True
    then show ?thesis by (auto simp: update_issue_def get_issue_def db_read_def db_write_def split: option.split)
  next
    case False
    then obtain x where x: "find_issue h r i = Some x" "\<not> se_down env ''get_issue'' i" "\<not> se_down env ''update_issue'' i" by blast
    show ?thesis
      by (auto simp: update_issue_def get_issue_def db_read_def db_write_def x Let_def row reopened_def reopen_def issue_update_default_def option.map_ident)
  qed
qed

lemma settles_discard: "settles now h (snd (discard_workspace env h now r i))"
  by (simp add: settles_def find_discard)

lemma settles_reopen: "settles now h (snd (update_issue env h now r i reopen))"
  by (simp add: settles_def find_reopen)

lemma settles_mark_done: "settles now h (snd (mark_done env h now i reason))"
proof -
  have "find_workspace (snd (mark_done env h now i reason)) = find_workspace h" "find_issue (snd (mark_done env h now i reason)) = find_issue h"
    by (rule find_cong, simp)+
  then show ?thesis by (simp add: settles_def)
qed

lemma settles_release: "settles now h (release_workspace env now w h)"
proof (cases "wk_workspace_id w")
  case (Some ws)
  let ?d = "discard_workspace env h now (wk_repo_id w) ws"
  have "settles now h (snd (update_issue env (snd ?d) now (wk_repo_id w) i reopen))" for i
    using settles_trans [OF settles_discard settles_reopen] .
  then show ?thesis using settles_refl [of now h] settles_discard [of now h env "wk_repo_id w" ws]
    by (cases ?d) (auto simp: release_workspace_def Some split: sum.split option.split)
qed (simp add: release_workspace_def settles_refl)

lemma settles_reap: "settles now (fst (snd s)) (fst (snd (fold (reap_worker env cp now) ws s)))"
proof (induction ws arbitrary: s)
  case (Cons w ws)
  obtain n h c where s: "s = (n, h, c)" by (metis prod_cases3)
  have "settles now h (fst (snd (reap_worker env cp now w s)))"
    using settles_trans [OF settles_release settles_mark_done] by (simp add: s reap_worker_hosted)
  with Cons.IH [of "reap_worker env cp now w s"] show ?case by (auto simp: s intro: settles_trans)
qed (simp add: settles_refl)

lemma settles_sweep: "settles now h (snd (sweep_orphaned_workspaces env h now secs))"
proof -
  have "settles now (snd s) (snd (fold (sweep_one env now) xs s))" for xs s
  proof (induction xs arbitrary: s)
    case (Cons x xs)
    obtain ws r i n g where x: "x = (ws, r, i)" "s = (n, g)" by (metis prod_cases3 surj_pair)
    have "settles now g (snd (sweep_one env now x s))"
      using settles_discard [of now g env r ws] settles_trans [OF settles_discard [of now g env r ws] settles_reopen [of now _ env r i]]
      by (auto simp: sweep_one_def x Let_def split: prod.split sum.split)
    with Cons.IH [of "sweep_one env now x s"] show ?case by (auto simp: x intro: settles_trans)
  qed (simp add: settles_refl)
  then show ?thesis using settles_refl by (force simp: sweep_orphaned_workspaces_def split: sum.split)
qed

definition on_hold :: "uuid \<Rightarrow> uuid \<Rightarrow> uuid \<Rightarrow> hosted \<Rightarrow> bool" where
  "on_hold r ws i h \<longleftrightarrow> Option.bind (find_workspace h r ws) wm_issue_id = Some i \<and> find_issue h r i \<noteq> None"

definition requeued :: "uuid \<Rightarrow> uuid \<Rightarrow> uuid \<Rightarrow> hosted \<Rightarrow> bool" where
  "requeued r ws i h \<longleftrightarrow> map_option wm_status (find_workspace h r ws) = Some WDiscarded \<and> map_option is_status (find_issue h r i) = Some IOpen"

lemma settlesE:
  assumes "settles now h h'"
  obtains "find_workspace h' r ws = find_workspace h r ws" | "find_workspace h' r ws = map_option (discarded now) (find_workspace h r ws)"
  using assms unfolding settles_def by blast

lemma settlesE_issue:
  assumes "settles now h h'"
  obtains "find_issue h' r i = find_issue h r i" | "find_issue h' r i = map_option (reopened now) (find_issue h r i)"
  using assms unfolding settles_def by blast

lemma settles_workspace:
  assumes "settles now h h'"
  shows "Option.bind (find_workspace h' r ws) wm_issue_id = Option.bind (find_workspace h r ws) wm_issue_id"
    "map_option wm_status (find_workspace h r ws) = Some WDiscarded \<Longrightarrow> map_option wm_status (find_workspace h' r ws) = Some WDiscarded"
  by (rule settlesE [OF assms, of r ws]; cases "find_workspace h r ws"; simp)+

lemma settles_issue:
  assumes "settles now h h'"
  shows "find_issue h r i \<noteq> None \<Longrightarrow> find_issue h' r i \<noteq> None"
    "map_option is_status (find_issue h r i) = Some IOpen \<Longrightarrow> map_option is_status (find_issue h' r i) = Some IOpen"
  by (rule settlesE_issue [OF assms, of r i]; cases "find_issue h r i"; simp)+

lemma settles_keeps:
  assumes "settles now h h'"
  shows "on_hold r ws i h \<Longrightarrow> on_hold r ws i h'" "requeued r ws i h \<Longrightarrow> requeued r ws i h'"
  unfolding on_hold_def requeued_def using settles_workspace [OF assms] settles_issue [OF assms] by metis+

lemma release_requeues:
  assumes "\<And>op k. \<not> se_down env op k" "wk_workspace_id w = Some ws" "on_hold (wk_repo_id w) ws i h"
  shows "requeued (wk_repo_id w) ws i (release_workspace env now w h)"
proof -
  obtain m x where m: "find_workspace h (wk_repo_id w) ws = Some m" "wm_issue_id m = Some i" "find_issue h (wk_repo_id w) i = Some x"
    using assms(3) by (auto simp: on_hold_def bind_eq_Some_conv)
  have "fst (discard_workspace env h now (wk_repo_id w) ws) = Inr ()" using assms(1) by (simp add: discard_workspace_def db_write_def)
  then have "release_workspace env now w h =
      snd (update_issue env (snd (discard_workspace env h now (wk_repo_id w) ws)) now (wk_repo_id w) i reopen)"
    using assms(1,2) m by (cases "discard_workspace env h now (wk_repo_id w) ws") (simp add: release_workspace_def get_workspace_def db_read_def)
  then show ?thesis using assms(1) m by (simp add: requeued_def find_discard find_reopen)
qed

lemma reconcile_requeues:
  assumes "\<And>op k. \<not> se_down env op k" "w \<in> set (ho_workers h)" "worker_stale now secs w" "wk_workspace_id w = Some ws"
    "on_hold (wk_repo_id w) ws i h"
  shows "requeued (wk_repo_id w) ws i (fst (snd (reconcile_once env cp now secs (h, c))))"
proof -
  let ?stale = "filter (worker_stale now secs) (ho_workers h)"
  obtain n h1 c1 where f: "fold (reap_worker env cp now) ?stale (0, h, c) = (n, h1, c1)"
    and r: "reconcile_once env cp now secs (h, c) = (n + fst (sweep_orphaned_workspaces env h1 now secs), snd (sweep_orphaned_workspaces env h1 now secs), c1)"
    by (rule reconcile_split) (rule assms(1))
  obtain xs ys where l: "?stale = xs @ w # ys" using assms(2,3) split_list [of w ?stale] by auto
  obtain k g d where s: "fold (reap_worker env cp now) xs (0, h, c) = (k, g, d)" by (metis prod_cases3)
  have "on_hold (wk_repo_id w) ws i g" using settles_keeps(1) [OF settles_reap [of now "(0, h, c)" env cp xs]] assms(5) by (simp add: s)
  then have "requeued (wk_repo_id w) ws i (release_workspace env now w g)" by (rule release_requeues [OF assms(1,4)])
  then have "requeued (wk_repo_id w) ws i (fst (snd (reap_worker env cp now w (k, g, d))))"
    by (subst reap_worker_hosted) (rule settles_keeps(2) [OF settles_mark_done])
  then have "requeued (wk_repo_id w) ws i h1"
    using settles_keeps(2) [OF settles_reap [of now "reap_worker env cp now w (k, g, d)" env cp ys]] f by (simp add: l s)
  then show ?thesis by (simp add: r settles_keeps(2) [OF settles_sweep])
qed

lemma create_workspace_Inr:
  assumes "\<And>op k. \<not> se_down env op k"
    "create_workspace env h t fresh r \<lparr>nws_id = None, nws_intent = intent, nws_base_version = base, nws_issue_id = Some i\<rparr> = (Inr ws, h1)"
  shows "find_workspace h1 r fresh = Some ws" "wm_id ws = fresh" "wm_issue_id ws = Some i" "ho_workers h1 = ho_workers h" "ho_issues h1 = ho_issues h"
proof -
  have fresh: "find (\<lambda>(r', m). r' = r \<and> wm_id m = fresh) (ho_workspaces h) = None" and
    h1: "find_workspace h1 r fresh = Some ws" "ho_workers h1 = ho_workers h" "ho_issues h1 = ho_issues h"
    using assms by (auto simp: create_workspace_def db_write_def Let_def get_workspace_def db_read_def find_None_iff list_ex_iff split: if_splits option.splits)
  have "h1 = h\<lparr>ho_workspaces := ho_workspaces h @ [(r, \<lparr>wm_id = fresh, wm_intent = intent, wm_base_version = base, wm_status = WCreated,
      wm_created_at = t, wm_updated_at = t, wm_issue_id = Some i, wm_deleted_paths = []\<rparr>)]\<rparr>"
    using assms by (auto simp: create_workspace_def db_write_def Let_def split: if_splits)
  then have "find_workspace h1 r fresh = Some \<lparr>wm_id = fresh, wm_intent = intent, wm_base_version = base, wm_status = WCreated,
      wm_created_at = t, wm_updated_at = t, wm_issue_id = Some i, wm_deleted_paths = []\<rparr>"
    by (simp add: find_workspace_def find_append_case fresh)
  with h1 show "find_workspace h1 r fresh = Some ws" "wm_id ws = fresh" "wm_issue_id ws = Some i" "ho_workers h1 = ho_workers h" "ho_issues h1 = ho_issues h"
    by auto
qed

lemma update_issue_status:
  assumes "\<And>op k. \<not> se_down env op k" "find_issue h r i = Some x" "iu_status u = Some st"
  shows "map_option is_status (find_issue (snd (update_issue env h t r i u)) r i) = Some st"
  using assms by (simp add: update_issue_def get_issue_def db_read_def db_write_def Let_def find_issue_row)

lemma pg_append_frame [simp]:
  "ho_workspaces (snd (pg_append env h now r k)) = ho_workspaces h" "ho_issues (snd (pg_append env h now r k)) = ho_issues h"
  "ho_workers (snd (pg_append env h now r k)) = ho_workers h"
  by (simp_all add: pg_append_def db_write_def Let_def)

lemma link_worker_frame [simp]:
  "ho_workspaces (link_worker env ienv wid ws h) = ho_workspaces h" "ho_issues (link_worker env ienv wid ws h) = ho_issues h"
  by (simp_all add: link_worker_def set_workspace_id_def update_worker_checked_def db_write_def update_worker_def split: option.split)

lemma link_worker_workers: "ho_workers h = ho_workers h' \<Longrightarrow> ho_workers (link_worker env ienv wid ws h) = ho_workers (link_worker env ienv wid ws h')"
  by (simp add: link_worker_def set_workspace_id_def update_worker_checked_def db_write_def update_worker_def worker_exists_def split: option.split)

lemma claim_effects_Inr:
  assumes "\<And>op k. \<not> se_down env op k" "claim_effects env ienv t r body x prediction ws s = (Inr res, s')" "find_issue (ap_hosted s) r (is_id x) = Some x"
  shows "ho_workspaces (ap_hosted s') = ho_workspaces (ap_hosted s)" "map_option is_status (find_issue (ap_hosted s') r (is_id x)) = Some IInProgress"
    "ho_workers (ap_hosted s') = ho_workers (link_worker env ienv (cw_worker_id body) (wm_id ws) (ap_hosted s))"
proof -
  let ?u = "issue_update_default\<lparr>iu_status := Some IInProgress, iu_workspace_id := Some (wm_id ws)\<rparr>"
  let ?h1 = "snd (update_issue env (ap_hosted s) t r (is_id x) ?u)"
  let ?h2 = "link_worker env ienv (cw_worker_id body) (wm_id ws) ?h1"
  have eq: "ho_workspaces (ap_hosted s') = ho_workspaces ?h2" "ho_issues (ap_hosted s') = ho_issues ?h2" "ho_workers (ap_hosted s') = ho_workers ?h2"
    using assms(2) by (auto simp: claim_effects_def emit_def broadcast_event_def Let_def split: prod.splits sum.splits simp del: update_issue_frame)
  show "ho_workspaces (ap_hosted s') = ho_workspaces (ap_hosted s)" using eq(1) by simp
  have "find_issue (ap_hosted s') = find_issue ?h1" by (rule find_cong(2)) (simp add: eq(2))
  then show "map_option is_status (find_issue (ap_hosted s') r (is_id x)) = Some IInProgress"
    by (simp only:) (rule update_issue_status [OF assms(1,3)], simp)
  show "ho_workers (ap_hosted s') = ho_workers (link_worker env ienv (cw_worker_id body) (wm_id ws) (ap_hosted s))"
    unfolding eq(3) by (rule link_worker_workers) simp
qed

lemma claim_work_Inr:
  assumes "\<And>op k. \<not> se_down env op k" "claim_work_handler env ienv graph loc t fresh identity r body s = (Inr res, s')"
    "uuid_from_str ienv (cw_issue_id body) = Some i"
  shows "on_hold r fresh i (ap_hosted s')" "map_option is_status (find_issue (ap_hosted s') r i) = Some IInProgress"
    "ho_workers (ap_hosted s') = ho_workers (link_worker env ienv (cw_worker_id body) fresh (ap_hosted s))"
proof -
  obtain x ws h1 pr base where x: "find_issue (ap_hosted s) r i = Some x"
    and cr: "create_workspace env (ap_hosted s) t fresh r \<lparr>nws_id = None, nws_intent = is_title x, nws_base_version = base, nws_issue_id = Some i\<rparr> = (Inr ws, h1)"
    and ef: "claim_effects env ienv t r body x pr ws (s\<lparr>ap_hosted := h1\<rparr>) = (Inr res, s')"
    using assms by (auto simp: claim_work_handler_def get_issue_def db_read_def Let_def split: sum.splits option.splits if_splits prod.splits)
  have i: "is_id x = i" using x by (auto simp: find_issue_def dest: find_SomeD)
  note c = create_workspace_Inr [OF assms(1) cr]
  have fi: "find_issue h1 = find_issue (ap_hosted s)" by (rule find_cong(2)) (rule c(5))
  have "find_issue (ap_hosted (s\<lparr>ap_hosted := h1\<rparr>)) r (is_id x) = Some x" using x i by (simp add: fi)
  note e = claim_effects_Inr [OF assms(1) ef this]
  have "find_workspace (ap_hosted s') = find_workspace h1" by (rule find_cong(1)) (simp add: e(1))
  moreover show st: "map_option is_status (find_issue (ap_hosted s') r i) = Some IInProgress" using e(2) by (simp add: i)
  ultimately show "on_hold r fresh i (ap_hosted s')" using c(1,3) by (auto simp: on_hold_def)
  show "ho_workers (ap_hosted s') = ho_workers (link_worker env ienv (cw_worker_id body) fresh (ap_hosted s))"
    using e(3) c(2) link_worker_workers [OF c(4), of env ienv "cw_worker_id body" fresh] by simp
qed

lemma linked_worker:
  assumes "\<And>op k. \<not> se_down env op k" "Option.bind wid (uuid_from_str ienv) = Some (wk_id w)" "w \<in> set (ho_workers h)"
  shows "w\<lparr>wk_workspace_id := Some ws\<rparr> \<in> set (ho_workers (link_worker env ienv wid ws h))"
  using assms by (auto simp: link_worker_def set_workspace_id_def update_worker_checked_def db_write_def update_worker_def worker_exists_def list_ex_iff)

text \<open>C30: A claim that its worker abandons goes back to the queue. When a worker of the repository claims an issue through
  the work queue, the issue is in progress; when that worker has then given no sign of life for longer than the
  threshold, one dead-worker pass without outages leaves the issue open again, the workspace of the claim discarded, and
  no live worker under that identifier, whatever else the pass reaps and whatever the provider answers.\<close>

theorem abandoned_claim_requeued:
  assumes "\<And>op k. \<not> se_down env op k" "claim_work_handler env ienv graph loc t fresh identity r body s = (Inr res, s')"
    "uuid_from_str ienv (cw_issue_id body) = Some i" "Option.bind (cw_worker_id body) (uuid_from_str ienv) = Some (wk_id w)"
    "w \<in> set (ho_workers (ap_hosted s))" "wk_repo_id w = r" "worker_stale now secs w"
    "reconcile_once env cp now secs (ap_hosted s', c) = (n, h', c')"
  shows "map_option is_status (find_issue (ap_hosted s') r i) = Some IInProgress \<and> map_option is_status (find_issue h' r i) = Some IOpen \<and>
    map_option wm_status (find_workspace h' r fresh) = Some WDiscarded \<and> \<not> list_ex (\<lambda>v. wk_id v = wk_id w \<and> worker_live v) (ho_workers h')"
proof -
  note claim = claim_work_Inr [OF assms(1-3)]
  let ?w = "w\<lparr>wk_workspace_id := Some fresh\<rparr>"
  have w: "?w \<in> set (ho_workers (ap_hosted s'))" using linked_worker [OF assms(1,4,5)] by (simp add: claim(3))
  have st: "worker_stale now secs ?w" using assms(7) by (simp add: worker_stale_def worker_live_def last_sign_def split: option.splits)
  have "requeued (wk_repo_id ?w) fresh i (fst (snd (reconcile_once env cp now secs (ap_hosted s', c))))"
    using claim(1) assms(6) by (intro reconcile_requeues [OF assms(1) w st]) simp_all
  then have q: "requeued r fresh i h'" using assms(6,8) by simp
  have "reaped env (filter (worker_stale now secs) (ho_workers (ap_hosted s'))) v" if "wk_id v = wk_id w" for v
    using w st assms(1) that by (auto simp: reaped_def list_ex_iff intro: exI [of _ ?w])
  then have "\<not> list_ex (\<lambda>v. wk_id v = wk_id w \<and> worker_live v) (ho_workers h')"
    using reconcile_workers [OF assms(1), of cp now secs "ap_hosted s'" c] assms(8) by (auto simp: list_ex_iff)
  with q claim(2) show ?thesis by (simp add: requeued_def)
qed

section \<open>The concurrency cap\<close>

lemma set_machine_id_frame [simp]:
  "running_workers (snd (set_machine_id env h i m)) r = running_workers h r"
  "ho_repos (snd (set_machine_id env h i m)) = ho_repos h" "ho_issues (snd (set_machine_id env h i m)) = ho_issues h"
  by (simp_all add: set_machine_id_def db_write_def update_worker_def running_workers_def filter_map worker_live_def o_def length_filter_map
      if_distrib cong: if_cong)

lemma create_worker_running:
  "running_workers (snd (create_worker env h i now nw)) r =
     running_workers h r + (case fst (create_worker env h i now nw) of Inr w \<Rightarrow> if nw_repo_id nw = r then 1 else 0 | Inl e \<Rightarrow> 0)"
  by (simp add: create_worker_def db_write_def running_workers_def worker_live_def live_states_def Let_def)

lemma create_worker_frame [simp]:
  "ho_repos (snd (create_worker env h i now nw)) = ho_repos h" "ho_issues (snd (create_worker env h i now nw)) = ho_issues h"
  by (simp_all add: create_worker_def db_write_def Let_def)

lemma spawn_commit_running:
  "running_workers (fst (snd (spawn_commit env cp now s r key cfg))) r' \<le> running_workers (fst s) r' + (if r' = r then 1 else 0)"
proof -
  obtain h c where s: "s = (h, c)" by (cases s)
  let ?cw = "create_worker env h (rg_new_id env h) now \<lparr>nw_repo_id = r, nw_provider = ''fly'', nw_machine_id = None\<rparr>"
  have "running_workers (snd ?cw) r' \<le> running_workers h r' + (if r' = r then 1 else 0)"
    by (auto simp: create_worker_running split: sum.split)
  then show ?thesis by (auto simp: spawn_commit_def s split: sum.split prod.split)
qed

lemma spawn_allowed_True:
  "spawn_allowed env h r = Inr True \<Longrightarrow> running_workers h r < configured_max_concurrent env"
  by (auto simp: spawn_allowed_def bind_result_Inr_iff map_error_def count_running_workers_def db_read_def split: sum.splits if_splits)

lemma spawn_if_capacity_running:
  "running_workers (fst (snd (spawn_if_capacity env cp now s r key cfg))) r' \<le> max (running_workers (fst s) r') (configured_max_concurrent env)"
proof (cases "spawn_allowed env (fst s) r = Inr True")
  case True
  with spawn_commit_running [of env cp now s r key cfg r'] spawn_allowed_True [OF True]
  show ?thesis by (auto simp: spawn_if_capacity_def split: if_splits)
next
  case False
  then show ?thesis by (auto simp: spawn_if_capacity_def split: sum.split bool.split)
qed

lemma spawn_loop_running:
  "running_workers (fst (spawn_loop env cp ctx now repo n s)) r \<le> max (running_workers (fst s) r) (configured_max_concurrent env)"
proof (induction n arbitrary: s)
  case (Suc n)
  obtain x s1 where p: "spawn_if_capacity env cp now s (fst repo) (sc_anthropic_key ctx) (spawn_config env ctx now repo) = (x, s1)" by (rule prod.exhaust)
  have "running_workers (fst s1) r \<le> max (running_workers (fst s) r) (configured_max_concurrent env)"
    using spawn_if_capacity_running [of env cp now s "fst repo" "sc_anthropic_key ctx" "spawn_config env ctx now repo" r] by (simp add: p)
  with Suc.IH [of s1] show ?case by (auto simp: p split: sum.split option.split)
qed simp

lemma top_up_repo_running:
  "running_workers (fst (top_up_repo env cp ctx now k repo s)) r \<le> max (running_workers (fst s) r) (configured_max_concurrent env)"
  by (auto simp: top_up_repo_def spawn_loop_running split: sum.split option.split)

text \<open>No top-up pass puts a repository over its concurrency cap: after \<open>spawn_reconcile_once\<close> each repository has at most the
  cap of live workers, or as many as it had before when that was more, whatever fails and whatever the provider does.\<close>

theorem spawn_reconcile_within_cap:
  "running_workers (fst (spawn_reconcile_once env cp ctx now s)) r \<le> max (running_workers (fst s) r) (configured_max_concurrent env)"
proof -
  have "running_workers (fst (fold (top_up_repo env cp ctx now k) repos s)) r \<le> max (running_workers (fst s) r) (configured_max_concurrent env)" for k repos
  proof (induction repos arbitrary: s)
    case (Cons x repos)
    from Cons.IH [of "top_up_repo env cp ctx now k x s"] top_up_repo_running [of env cp ctx now k x s r] show ?case by simp
  qed simp
  then show ?thesis by (simp add: spawn_reconcile_once_def split: sum.split)
qed

text \<open>
  The check and the insert are two steps: two callers that both pass the check before either inserts go over the cap. The
  route that creates an issue and the top-up pass are such callers.
\<close>

lemma spawn_race:
  assumes "running_workers h r + 1 = configured_max_concurrent env" "spawn_allowed env h r = Inr True"
    "spawn_commit env cp now (h, c) r key cfg = (Inr (Some a), h1, c1)" "spawn_commit env cp now (h1, c1) r key cfg = (Inr (Some b), h2, c2)"
  shows "running_workers h2 r = configured_max_concurrent env + 1"
proof -
  have step: "running_workers g' r = running_workers g r + 1" if "spawn_commit env cp now (g, d) r key cfg = (Inr (Some a), g', d')" for g g' d d' a
  proof -
    let ?cw = "create_worker env g (rg_new_id env g) now \<lparr>nw_repo_id = r, nw_provider = ''fly'', nw_machine_id = None\<rparr>"
    obtain y g1 where y: "?cw = (y, g1)" by (rule prod.exhaust)
    then have "running_workers g1 r = running_workers g r + (case y of Inr w \<Rightarrow> 1 | Inl e \<Rightarrow> 0)"
      using create_worker_running [of env g "rg_new_id env g" now "\<lparr>nw_repo_id = r, nw_provider = ''fly'', nw_machine_id = None\<rparr>" r] by simp
    with that show ?thesis by (auto simp: spawn_commit_def y split: sum.splits prod.splits)
  qed
  show ?thesis using step [OF assms(3)] step [OF assms(4)] assms(1) by simp
qed

section \<open>Topping up\<close>

text \<open>
  What the exact count needs: no outage, identifiers that are new, a key for the worker, vaults that open, an \<open>ORDER BY\<close> that
  loses no row, and a provider that starts what it is asked to.
\<close>

definition smooth :: "('e) registry_env_scheme \<Rightarrow> 'c ComputeProvider \<Rightarrow> SpawnReconcilerCtx \<Rightarrow> bool" where
  "smooth env cp ctx \<longleftrightarrow> (\<forall>op k. \<not> se_down env op k) \<and> (\<forall>h. \<not> worker_exists h (rg_new_id env h)) \<and> sc_anthropic_key ctx \<noteq> [] \<and>
     (\<forall>r. \<exists>v. rg_secrets env r = Inr v) \<and> (\<forall>clause xs. length (se_order_issues env clause xs) = length xs) \<and>
     (\<forall>c spec. \<exists>m c'. cp_spawn cp c spec = (Inr m, c'))"

lemma smoothD:
  assumes "smooth env cp ctx"
  shows "\<not> se_down env op k" "\<not> worker_exists h (rg_new_id env h)" "sc_anthropic_key ctx \<noteq> []" "\<exists>v. rg_secrets env r = Inr v"
    "length (se_order_issues env clause xs) = length xs" "\<exists>m c'. cp_spawn cp c spec = (Inr m, c')"
  using assms unfolding smooth_def by blast+

definition repo_enabled :: "hosted \<Rightarrow> uuid \<Rightarrow> bool" where
  "repo_enabled h r \<longleftrightarrow> (case find (\<lambda>x. rp_id x = r) (ho_repos h) of None \<Rightarrow> False | Some x \<Rightarrow> rp_cloud_agent_enabled x)"

definition open_issues :: "hosted \<Rightarrow> uuid \<Rightarrow> nat" where
  "open_issues h r = length (filter (\<lambda>(r', x). r' = r \<and> is_status x = IOpen) (ho_issues h))"

lemma smooth_secrets:
  assumes "smooth env cp ctx" shows "\<exists>v. worker_secrets env r (sc_anthropic_key ctx) = Inr v"
proof -
  obtain v where "rg_secrets env r = Inr v" using smoothD(4) [OF assms] by blast
  with smoothD(3) [OF assms] show ?thesis by (simp add: worker_secrets_def map_error_def)
qed

lemma spawn_smooth:
  assumes "smooth env cp ctx" "repo_enabled (fst s) r" "running_workers (fst s) r < configured_max_concurrent env"
  obtains w s1 where "spawn_if_capacity env cp now s r (sc_anthropic_key ctx) cfg = (Inr (Some w), s1)"
    "\<And>r'. running_workers (fst s1) r' = running_workers (fst s) r' + (if r' = r then 1 else 0)"
    "ho_repos (fst s1) = ho_repos (fst s)" "ho_issues (fst s1) = ho_issues (fst s)"
proof -
  obtain h c where s: "s = (h, c)" by (cases s)
  note up = smoothD(1) [OF assms(1)]
  let ?nw = "\<lparr>nw_repo_id = r, nw_provider = ''fly'', nw_machine_id = None\<rparr>"
  obtain w h1 where w: "create_worker env h (rg_new_id env h) now ?nw = (Inr w, h1)"
    using up smoothD(2) [OF assms(1), of h] by (simp add: create_worker_def db_write_def Let_def)
  obtain v where v: "worker_secrets env r (sc_anthropic_key ctx) = Inr v" using smooth_secrets [OF assms(1)] by blast
  obtain m c1 where m: "cp_spawn cp c (worker_spec env h1 r (wk_id w) cfg v) = (Inr m, c1)" using smoothD(6) [OF assms(1)] by blast
  have a: "spawn_allowed env h r = Inr True"
    using assms(2,3) up by (simp add: s spawn_allowed_def is_cloud_agent_enabled_def count_running_workers_def db_read_def map_error_def repo_enabled_def)
  have h1: "running_workers h1 r' = running_workers h r' + (if r' = r then 1 else 0)" "ho_repos h1 = ho_repos h" "ho_issues h1 = ho_issues h" for r'
    using create_worker_running [of env h "rg_new_id env h" now ?nw r'] create_worker_frame [of env h "rg_new_id env h" now ?nw] w by auto
  show thesis
    by (rule that [of "wk_id w" "(snd (set_machine_id env h1 (wk_id w) (machine_id_0 m)), c1)"])
      (simp_all add: spawn_if_capacity_def a spawn_commit_def v w m s h1)
qed

lemma spawn_loop_smooth:
  assumes "smooth env cp ctx" "repo_enabled (fst s) (fst repo)" "running_workers (fst s) (fst repo) + n \<le> configured_max_concurrent env"
  shows "(\<forall>r'. running_workers (fst (spawn_loop env cp ctx now repo n s)) r' = running_workers (fst s) r' + (if r' = fst repo then n else 0)) \<and>
    ho_repos (fst (spawn_loop env cp ctx now repo n s)) = ho_repos (fst s) \<and> ho_issues (fst (spawn_loop env cp ctx now repo n s)) = ho_issues (fst s)"
  using assms(2,3)
proof (induction n arbitrary: s)
  case (Suc n)
  obtain w s1 where s1: "spawn_if_capacity env cp now s (fst repo) (sc_anthropic_key ctx) (spawn_config env ctx now repo) = (Inr (Some w), s1)"
    "\<And>r'. running_workers (fst s1) r' = running_workers (fst s) r' + (if r' = fst repo then 1 else 0)"
    "ho_repos (fst s1) = ho_repos (fst s)" "ho_issues (fst s1) = ho_issues (fst s)"
    by (rule spawn_smooth [OF assms(1) Suc.prems(1), where now = now and cfg = "spawn_config env ctx now repo"]) (use Suc.prems(2) in simp)+
  have "repo_enabled (fst s1) (fst repo)" using Suc.prems(1) by (simp add: repo_enabled_def s1(3))
  with Suc.IH [of s1] Suc.prems(2) show ?case by (simp add: s1)
qed simp

lemma count_open_smooth:
  assumes "smooth env cp ctx" shows "count_open_issues env h r = Some (open_issues h r)"
proof -
  have "length (filter (issue_matches env h open_issues_filter) (map snd (filter (\<lambda>(r', x). r' = r) (ho_issues h)))) = open_issues h r"
    by (auto simp: open_issues_def open_issues_filter_def issue_matches_def filter_map length_filter_map o_def case_prod_unfold intro!: arg_cong [of _ _ length] filter_cong)
  then show ?thesis using smoothD(1,5) [OF assms]
    by (simp add: count_open_issues_def list_issues_def sql_limit_offset_def db_read_def limit_clause_def paginate_def u32_max_def i64_max_def Let_def)
qed

definition topped_up :: "('e) registry_env_scheme \<Rightarrow> hosted \<Rightarrow> uuid \<Rightarrow> nat" where
  "topped_up env h r = max (running_workers h r) (min (open_issues h r) (configured_max_concurrent env))"

lemma top_up_smooth:
  assumes "smooth env cp ctx" "repo_enabled (fst s) (fst repo)"
  shows "(\<forall>r. running_workers (fst (top_up_repo env cp ctx now (configured_max_concurrent env) repo s)) r =
      (if r = fst repo then topped_up env (fst s) r else running_workers (fst s) r)) \<and>
    ho_repos (fst (top_up_repo env cp ctx now (configured_max_concurrent env) repo s)) = ho_repos (fst s) \<and>
    ho_issues (fst (top_up_repo env cp ctx now (configured_max_concurrent env) repo s)) = ho_issues (fst s)"
proof (cases "configured_max_concurrent env \<le> running_workers (fst s) (fst repo)")
  case True
  then show ?thesis using smoothD(1) [OF assms(1)] by (simp add: top_up_repo_def count_running_workers_def db_read_def topped_up_def)
next
  case False
  let ?n = "min (open_issues (fst s) (fst repo)) (configured_max_concurrent env) - running_workers (fst s) (fst repo)"
  have "top_up_repo env cp ctx now (configured_max_concurrent env) repo s = spawn_loop env cp ctx now repo ?n s"
    using False smoothD(1) [OF assms(1)] by (simp add: top_up_repo_def count_running_workers_def db_read_def count_open_smooth [OF assms(1)])
  moreover have "running_workers (fst s) (fst repo) + ?n \<le> configured_max_concurrent env" using False by simp
  ultimately show ?thesis using spawn_loop_smooth [OF assms, of ?n now] by (auto simp: topped_up_def)
qed

lemma fold_top_up:
  assumes "smooth env cp ctx" "distinct (map fst repos)" "\<And>x. x \<in> set repos \<Longrightarrow> repo_enabled (fst s) (fst x)"
  shows "running_workers (fst (fold (top_up_repo env cp ctx now (configured_max_concurrent env)) repos s)) r =
    (if r \<in> fst ` set repos then topped_up env (fst s) r else running_workers (fst s) r)"
  using assms(2,3)
proof (induction repos arbitrary: s)
  case (Cons x repos)
  let ?s = "top_up_repo env cp ctx now (configured_max_concurrent env) x s"
  note t = top_up_smooth [OF assms(1), of s x now]
  have f: "ho_repos (fst ?s) = ho_repos (fst s)" "ho_issues (fst ?s) = ho_issues (fst s)"
    "\<And>r. running_workers (fst ?s) r = (if r = fst x then topped_up env (fst s) r else running_workers (fst s) r)"
    using t Cons.prems(2) by simp_all
  have e: "repo_enabled (fst ?s) = repo_enabled (fst s)" "open_issues (fst ?s) = open_issues (fst s)"
    by (simp_all add: repo_enabled_def open_issues_def fun_eq_iff f(1,2))
  have other: "topped_up env (fst ?s) r = topped_up env (fst s) r" if "r \<noteq> fst x" using that by (simp add: topped_up_def f(3) e(2))
  have ih: "running_workers (fst (fold (top_up_repo env cp ctx now (configured_max_concurrent env)) repos ?s)) r =
      (if r \<in> fst ` set repos then topped_up env (fst ?s) r else running_workers (fst ?s) r)"
    using Cons.prems by (intro Cons.IH) (simp_all add: e(1))
  show ?case
  proof (cases "r = fst x")
    case True
    with Cons.prems(1) ih f(3) [of r] show ?thesis by auto
  next
    case False
    with other ih f(3) [of r] show ?thesis by auto
  qed
qed simp

lemma find_unique: "distinct (map f xs) \<Longrightarrow> x \<in> set xs \<Longrightarrow> find (\<lambda>y. f y = f x) xs = Some x"
  by (induction xs) (auto dest: image_eqI [of _ f])

text \<open>C33: When nothing fails, one top-up pass ends with exactly the workers that are useful: each repository with cloud agents
  enabled then has as many live workers as it has open issues, up to the cap, or as many as before when that was more;
  every other repository has the workers it had. Repositories have distinct identifiers.\<close>

theorem spawn_reconcile_tops_up:
  assumes "smooth env cp ctx" "distinct (map rp_id (ho_repos h))" "x \<in> set (ho_repos h)"
  shows "running_workers (fst (spawn_reconcile_once env cp ctx now (h, c))) (rp_id x) =
    (if rp_cloud_agent_enabled x then max (running_workers h (rp_id x)) (min (open_issues h (rp_id x)) (configured_max_concurrent env))
     else running_workers h (rp_id x))"
proof -
  let ?repos = "map (\<lambda>x. (rp_id x, rp_name x)) (filter rp_cloud_agent_enabled (ho_repos h))"
  have "spawn_reconcile_once env cp ctx now (h, c) = fold (top_up_repo env cp ctx now (configured_max_concurrent env)) ?repos (h, c)"
    using smoothD(1) [OF assms(1)] by (simp add: spawn_reconcile_once_def list_cloud_enabled_repos_def db_read_def)
  moreover have en: "repo_enabled h (rp_id y)" if "y \<in> set (ho_repos h)" "rp_cloud_agent_enabled y" for y
    using that find_unique [OF assms(2) that(1)] by (simp add: repo_enabled_def)
  moreover have "rp_id x \<in> fst ` set ?repos \<longleftrightarrow> rp_cloud_agent_enabled x"
    using assms(2,3) by (auto simp: image_iff distinct_map dest: inj_onD)
  moreover have dist: "distinct (map fst ?repos)" using assms(2) by (simp add: o_def distinct_map_filter)
  moreover have "running_workers (fst (fold (top_up_repo env cp ctx now (configured_max_concurrent env)) ?repos (h, c))) (rp_id x) =
      (if rp_id x \<in> fst ` set ?repos then topped_up env h (rp_id x) else running_workers h (rp_id x))"
    by (subst fold_top_up [OF assms(1) dist]) (use en in auto)
  ultimately show ?thesis by (simp add: topped_up_def)
qed

section \<open>Samples\<close>

definition sample_registry_env :: registry_env where
  "sample_registry_env = records_env.extend sample_records_env
     \<lparr>rg_new_id = (\<lambda>h. Suc (sum_list (map wk_id (ho_workers h)))), rg_idempotency_key = (\<lambda>h. ''0123456789''), rg_secrets = (\<lambda>r. Inr []),
      rg_var = (\<lambda>v. None), rg_json = concat \<circ> map snd, rg_rfc3339 = nat_to_string, rg_parse_ts = parse_digits 0\<rparr>"

lemma sample_registry_simps [simp]:
  "se_down sample_registry_env op k = False" "se_order_issues sample_registry_env c xs = xs"
  "rg_secrets sample_registry_env r = Inr []" "rg_var sample_registry_env v = None" "se_uuid sample_registry_env = nat_to_string"
  "rg_new_id sample_registry_env h = Suc (sum_list (map wk_id (ho_workers h)))"
  by (simp_all add: sample_registry_env_def records_env.extend_def sample_records_env_def)

definition sample_worker :: "uuid \<Rightarrow> time \<Rightarrow> uuid option \<Rightarrow> AgentWorker" where
  "sample_worker i t ws = \<lparr>wk_id = i, wk_repo_id = 5, wk_provider = ''fly'', wk_machine_id = Some (nat_to_string i), wk_state = ''spawning'',
     wk_workspace_id = ws, wk_last_heartbeat_at = None, wk_started_at = t, wk_ended_at = None\<rparr>"

definition sample_held :: "uuid \<Rightarrow> WorkspaceMeta" where
  "sample_held i = \<lparr>wm_id = i, wm_intent = ''fix'', wm_base_version = ''v1'', wm_status = WActive, wm_created_at = 0, wm_updated_at = 0,
     wm_issue_id = Some 9, wm_deleted_paths = []\<rparr>"

definition sample_issue :: Issue where
  "sample_issue = \<lparr>is_id = 9, is_title = ''t'', is_description = ''d'', is_status = IOpen, is_priority = PHigh, is_labels = [], is_creator = ''c'',
     is_resolution = None, is_agent_source = None, is_acceptance_criteria = [], is_created_at = 0, is_updated_at = 0\<rparr>"

definition sample_hosted :: hosted where
  "sample_hosted = empty_hosted\<lparr>ho_repos := [\<lparr>rp_id = 5, rp_name = ''demo'', rp_cloud_agent_enabled = True\<rparr>],
     ho_workers := [sample_worker 1 0 (Some 21), sample_worker 2 5000 (Some 22)], ho_workspaces := [(5, sample_held 21), (5, sample_held 22)],
     ho_issues := [(5, sample_issue)]\<rparr>"

lemma sample_stale: "worker_stale 5100 900 (sample_worker i t ws) \<longleftrightarrow> t < 4200"
  by (auto simp: worker_stale_def worker_live_def live_states_def last_sign_def sample_worker_def)



definition sample_ctx :: SpawnReconcilerCtx where
  "sample_ctx = \<lparr>sc_jwt_service = jwt_new ''secret'' None 0, sc_server_url = ''https://vai'', sc_anthropic_key = ''key'', sc_version = ''1.0.0''\<rparr>"

lemma sample_smooth: "smooth sample_registry_env in_memory sample_ctx"
proof -
  have "Suc (sum_list (map wk_id ws)) \<notin> set (map wk_id ws)" for ws :: "AgentWorker list"
    using member_le_sum_list [of "Suc (sum_list (map wk_id ws))" "map wk_id ws"] by auto
  then show ?thesis by (simp add: smooth_def worker_exists_iff sample_ctx_def in_memory_def im_spawn_def Let_def)
qed

theorem spawn_reconcile_tops_up_witness:
  "running_workers (fst (spawn_reconcile_once sample_registry_env in_memory sample_ctx 7 (sample_hosted\<lparr>ho_workers := []\<rparr>, im_new nat_to_string))) 5 = 1"
proof -
  let ?h = "sample_hosted\<lparr>ho_workers := []\<rparr>" and ?x = "\<lparr>rp_id = 5, rp_name = ''demo'', rp_cloud_agent_enabled = True\<rparr>"
  have "distinct (map rp_id (ho_repos ?h))" "?x \<in> set (ho_repos ?h)" by (simp_all add: sample_hosted_def)
  from spawn_reconcile_tops_up [OF sample_smooth this, of 7 "im_new nat_to_string"]
  show ?thesis by (simp add: running_workers_def open_issues_def sample_hosted_def sample_issue_def configured_max_concurrent_def default_max_concurrent_def)
qed

definition sample_app :: "InMemoryProvider app_state" where
  "sample_app = \<lparr>ap_hosted = sample_hosted\<lparr>ho_workers := [sample_worker 1 0 None], ho_workspaces := []\<rparr>,
     ap_records = \<lparr>rd_versions = [], rd_heads = [(5, ''v1'')], rd_escalations = [], rd_comments = [], rd_mentions = [], rd_attachments = []\<rparr>,
     ap_org = empty_org_db, ap_engine = engine_new, ap_broadcast = broadcast_new, ap_compute = im_new nat_to_string\<rparr>"

definition sample_claim :: "(ApiError, ClaimResult) result \<times> InMemoryProvider app_state" where
  "sample_claim = claim_work_handler sample_registry_env sample_issue_env None False 10 30 admin_identity 5
     \<lparr>cw_issue_id = nat_to_string 9, cw_worker_id = Some (nat_to_string 1)\<rparr> sample_app"

lemma sample_uuid_from_str: "uuid_from_str sample_issue_env (nat_to_string n) = Some n"
  by (simp add: sample_issue_env_def parse_digits_nat_to_string)

lemma sample_claim_Inr: "\<exists>res. fst sample_claim = Inr res"
proof -
  have "find_issue (ap_hosted sample_app) 5 9 = Some sample_issue"
    by (simp add: sample_app_def sample_hosted_def find_issue_def sample_issue_def)
  moreover have "find_issue (h\<lparr>ho_workspaces := ws\<rparr>) = find_issue h" for h ws by (rule find_cong(2)) simp
  ultimately show ?thesis
    by (simp add: sample_claim_def claim_work_handler_def require_repo_permission_def admin_identity_def sample_uuid_from_str get_issue_def
        db_read_def db_write_def predict_scope_def sample_issue_def sample_app_def engine_new_def all_scopes_def create_workspace_def
        get_workspace_def find_workspace_def sample_hosted_def claim_effects_def update_issue_def find_issue_row Let_def)
qed

theorem abandoned_claim_requeued_witness:
  "let h' = fst (snd (reconcile_once sample_registry_env in_memory 5100 900 (ap_hosted (snd sample_claim), im_new nat_to_string)))
   in map_option is_status (find_issue (ap_hosted (snd sample_claim)) 5 9) = Some IInProgress \<and> map_option is_status (find_issue h' 5 9) = Some IOpen \<and>
      map_option wm_status (find_workspace h' 5 30) = Some WDiscarded \<and> \<not> list_ex (\<lambda>v. wk_id v = 1 \<and> worker_live v) (ho_workers h')"
proof -
  let ?w = "sample_worker 1 0 None"
  obtain res where c: "claim_work_handler sample_registry_env sample_issue_env None False 10 30 admin_identity 5
      \<lparr>cw_issue_id = nat_to_string 9, cw_worker_id = Some (nat_to_string 1)\<rparr> sample_app = (Inr res, snd sample_claim)"
    using sample_claim_Inr by (auto simp: sample_claim_def prod_eq_iff)
  obtain n h' c' where r: "reconcile_once sample_registry_env in_memory 5100 900 (ap_hosted (snd sample_claim), im_new nat_to_string) = (n, h', c')"
    by (metis prod_cases3)
  have w: "?w \<in> set (ho_workers (ap_hosted sample_app))" "wk_repo_id ?w = 5" "wk_id ?w = 1" by (simp_all add: sample_app_def sample_worker_def)
  show ?thesis
    using abandoned_claim_requeued [OF _ c _ _ w(1,2) _ r, of 9] by (simp add: r sample_uuid_from_str w(3) w(3) [simplified] sample_stale Let_def)
qed

end
