(* ===== verification/Limits_Laws.thy ===== *)
theory Limits_Laws
  imports Limits
begin

text \<open>
  The limiter lets through at most its limit in every window, the replay buffer loses nothing without saying so when
  broadcasts do not overlap, and loses silently when they do, and a sanitized path never leaves the directory it is joined to.
\<close>

section \<open>The rate limiter\<close>

text \<open>
  The times at which the requests of one bucket were allowed, in a sequence of requests, each with its time and bucket;
  a bucket has one limit and one window.
\<close>

fun allowed_times :: "int \<Rightarrow> (string \<Rightarrow> nat \<times> int) \<Rightarrow> string \<Rightarrow> RateLimiter \<Rightarrow> (int \<times> string) list \<Rightarrow> int list" where
  "allowed_times inst_min lims k w [] = []"
| "allowed_times inst_min lims k w ((now, key) # rs) =
     (case limiter_check inst_min w now key (fst (lims key)) (snd (lims key)) of
        None \<Rightarrow> allowed_times inst_min lims k w rs
      | Some (Denied n, w') \<Rightarrow> allowed_times inst_min lims k w' rs
      | Some (Allowed, w') \<Rightarrow> (if key = k then [now] else []) @ allowed_times inst_min lims k w' rs)"

definition in_window :: "int \<Rightarrow> int \<Rightarrow> int list \<Rightarrow> nat" where
  "in_window W T ts = length (filter (\<lambda>t. T - W < t \<and> t \<le> T) ts)"

lemma in_window_append [simp]: "in_window W T (a @ b) = in_window W T a + in_window W T b"
  by (simp add: in_window_def)

lemma in_window_le: "in_window W T ts \<le> length ts"
  by (simp add: in_window_def)

lemma in_window_zero: "\<forall>t\<in>set ts. t + W \<le> T \<Longrightarrow> in_window W T ts = 0"
  by (auto simp: in_window_def filter_empty_conv)

text \<open>One check of a bucket: what is kept is a suffix, and what is dropped has left the window.\<close>

lemma limiter_check_cases:
  assumes "limiter_check inst_min w now key lim W = Some (r, w')" "inst_min \<le> now - W"
  obtains B E where "w key = B @ E" "\<forall>b\<in>set B. b + W \<le> now" "\<And>k. k \<noteq> key \<Longrightarrow> w' k = w k"
    "r = Allowed \<and> length E < lim \<and> w' key = E @ [now] \<or> (\<exists>n. r = Denied n) \<and> w' key = E"
proof -
  let ?P = "\<lambda>ts. ts \<le> now - W"
  have "w key = takeWhile ?P (w key) @ dropWhile ?P (w key)" by simp
  moreover have "\<forall>b\<in>set (takeWhile ?P (w key)). b + W \<le> now" by (auto dest: set_takeWhileD)
  moreover have "k \<noteq> key \<Longrightarrow> w' k = w k" for k
    using assms by (auto simp: limiter_check_def checked_sub_def Let_def split: if_splits list.splits)
  moreover have "r = Allowed \<and> length (dropWhile ?P (w key)) < lim \<and> w' key = dropWhile ?P (w key) @ [now] \<or>
      (\<exists>n. r = Denied n) \<and> w' key = dropWhile ?P (w key)"
    using assms by (auto simp: limiter_check_def checked_sub_def Let_def split: if_splits list.splits)
  ultimately show ?thesis using that by blast
qed

lemma limiter_bound:
  assumes "A = B @ w k" "\<forall>b\<in>set B. b + snd (lims k) \<le> cur" "\<forall>T. in_window (snd (lims k)) T A \<le> fst (lims k)"
    and "sorted (map fst reqs)" "\<forall>q\<in>set reqs. cur \<le> fst q \<and> inst_min \<le> fst q - snd (lims (snd q))"
  shows "in_window (snd (lims k)) T (A @ allowed_times inst_min lims k w reqs) \<le> fst (lims k)"
  using assms
proof (induction reqs arbitrary: w A B cur)
  case (Cons q rs)
  obtain now key where q: "q = (now, key)" by (rule prod.exhaust)
  let ?W = "snd (lims k)" and ?m = "fst (lims k)"
  have cur: "cur \<le> now" and rs: "sorted (map fst rs)" "\<forall>q\<in>set rs. cur \<le> fst q \<and> inst_min \<le> fst q - snd (lims (snd q))"
    and rs': "\<forall>q\<in>set rs. now \<le> fst q \<and> inst_min \<le> fst q - snd (lims (snd q))" using Cons.prems(4,5) q by auto
  show ?case
  proof (cases "limiter_check inst_min w now key (fst (lims key)) (snd (lims key))")
    case None
    with Cons.IH [where w = w and A = A and B = B and cur = cur] Cons.prems(1-3) rs q show ?thesis by simp
  next
    case (Some c)
    obtain r w' where c: "c = (r, w')" by (rule prod.exhaust)
    have ck: "limiter_check inst_min w now key (fst (lims key)) (snd (lims key)) = Some (r, w')" using Some c by simp
    have "inst_min \<le> now - snd (lims key)" using Cons.prems(5) q by simp
    from limiter_check_cases [OF ck this] obtain B' E where E: "w key = B' @ E" "\<forall>b\<in>set B'. b + snd (lims key) \<le> now"
      "\<And>k. k \<noteq> key \<Longrightarrow> w' k = w k"
      "r = Allowed \<and> length E < fst (lims key) \<and> w' key = E @ [now] \<or> (\<exists>n. r = Denied n) \<and> w' key = E" by metis
    show ?thesis
    proof (cases "key = k \<and> r = Allowed")
      case allowed: True
      have B: "\<forall>b\<in>set (B @ B'). b + ?W \<le> now" using Cons.prems(2) E(2) cur allowed by fastforce
      have A: "A = (B @ B') @ E" using Cons.prems(1) E(1) allowed by simp
      have "in_window ?W T (A @ [now]) \<le> ?m" for T
      proof (cases "T < now")
        case True
        then show ?thesis using Cons.prems(3) by (simp add: in_window_def)
      next
        case False
        then have "in_window ?W T (B @ B') = 0" using B by (intro in_window_zero) force
        then show ?thesis using A in_window_le [of ?W T "E @ [now]"] E(4) allowed by auto
      qed
      moreover have "A @ [now] = (B @ B') @ w' k" using A E(4) allowed by simp
      ultimately have "in_window ?W T ((A @ [now]) @ allowed_times inst_min lims k w' rs) \<le> ?m"
        using Cons.IH [of "A @ [now]" "B @ B'" w' now] B rs(1) rs' by blast
      then show ?thesis using ck q allowed by simp
    next
      case False
      have "\<exists>B''. A = B'' @ w' k \<and> (\<forall>b\<in>set B''. b + ?W \<le> now)"
      proof (cases "key = k")
        case True
        then have "A = (B @ B') @ w' k" using Cons.prems(1) E(1,4) False by auto
        moreover have "\<forall>b\<in>set (B @ B'). b + ?W \<le> now" using Cons.prems(2) E(2) cur True by fastforce
        ultimately show ?thesis by blast
      next
        case False
        then show ?thesis using Cons.prems(1,2) E(3) cur by (intro exI [of _ B]) fastforce
      qed
      then have "in_window ?W T (A @ allowed_times inst_min lims k w' rs) \<le> ?m" using Cons.IH [of A _ w' now] Cons.prems(3) rs(1) rs' by blast
      then show ?thesis using ck q False E(4) by (auto split: RateLimitResult.split)
    qed
  qed
qed simp

text \<open>C25: Whatever requests arrive, in the order of their times, at most as many requests of a bucket are allowed in any
  window of its length, wherever the window starts, as its limit says.
\<close>

theorem rate_limit_sliding_window:
  assumes "sorted (map fst reqs)" and "\<forall>q\<in>set reqs. inst_min \<le> fst q - snd (lims (snd q))"
  shows "in_window (snd (lims k)) T (allowed_times inst_min lims k limiter_new reqs) \<le> fst (lims k)"
proof (cases reqs)
  case (Cons q rs)
  have "\<forall>q'\<in>set reqs. fst q \<le> fst q' \<and> inst_min \<le> fst q' - snd (lims (snd q'))" using assms Cons by auto
  from limiter_bound [of "[]" "[]" limiter_new k lims "fst q" reqs inst_min T, OF _ _ _ assms(1) this]
  show ?thesis by (simp add: limiter_new_def in_window_def)
qed (simp add: in_window_def)

theorem rate_limit_sliding_window_witness:
  "in_window 10 8 (allowed_times 0 (\<lambda>k. (2, 10)) ''a'' limiter_new [(10, ''a''), (11, ''a''), (12, ''a''), (21, ''a'')]) \<le> 2 \<and>
   allowed_times 0 (\<lambda>k. (2, 10)) ''a'' limiter_new [(10, ''a''), (11, ''a''), (12, ''a''), (21, ''a'')] = [10, 11, 21]"
proof
  show "in_window 10 8 (allowed_times 0 (\<lambda>k. (2, 10)) ''a'' limiter_new [(10, ''a''), (11, ''a''), (12, ''a''), (21, ''a'')]) \<le> 2"
    using rate_limit_sliding_window [of "[(10, ''a''), (11, ''a''), (12, ''a''), (21, ''a'')]" 0 "\<lambda>k. (2, 10)" "''a''" 8] by simp
  show "allowed_times 0 (\<lambda>k. (2, 10)) ''a'' limiter_new [(10, ''a''), (11, ''a''), (12, ''a''), (21, ''a'')] = [10, 11, 21]"
    by (simp add: limiter_check_def checked_sub_def limiter_new_def Let_def)
qed

text \<open>
  Where the difference is not representable the window is emptied instead of kept whole: every request is allowed.
\<close>

lemma unrepresentable_window_allows:
  assumes "now - window < inst_min" "\<forall>t\<in>set (w key). t \<le> now" "0 < lim"
  shows "limiter_check inst_min w now key lim window = Some (Allowed, w(key := [now]))"
proof -
  have e: "dropWhile (\<lambda>ts. ts \<le> now) (w key) = []" using assms(2) by (simp add: dropWhile_eq_Nil_conv)
  show ?thesis using assms(1,3) by (simp add: limiter_check_def checked_sub_def Let_def e)
qed

section \<open>Paths\<close>

text \<open>Following the components of a path from a directory, one by one.\<close>

fun follow :: "string list \<Rightarrow> string list \<Rightarrow> string list" where
  "follow dir [] = dir"
| "follow dir (c # cs) = follow (if c = ''..'' then butlast dir else dir @ [c]) cs"

lemma follow_inside: "''..'' \<notin> set cs \<Longrightarrow> follow dir cs = dir @ cs"
  by (induction cs arbitrary: dir) auto

lemma sanitize_trimmed: "\<not> starts_with (dropWhile (\<lambda>c. c = CHR ''/'') raw) ''/''"
  by (induction raw) (auto simp: starts_with_def)


section \<open>Replay\<close>

text \<open>The timestamp of a broadcast is not an hour old when the event is appended.\<close>

definition fresh_stamp :: "(string \<Rightarrow> time option) \<Rightarrow> time \<times> BroadcastEvent \<Rightarrow> bool" where
  "fresh_stamp parse_ts te \<longleftrightarrow> \<not> too_old parse_ts (fst te) (snd te)"

definition broadcast_all :: "(string \<Rightarrow> time option) \<Rightarrow> (time \<times> BroadcastEvent) list \<Rightarrow> broadcast_state" where
  "broadcast_all parse_ts tes = foldl (broadcast parse_ts) broadcast_new tes"

text \<open>
  Without overlap the numbers are the positions in what was sent, and the buffer is the end of it, not empty once
  anything was sent.
\<close>

definition replay_inv :: "broadcast_state \<Rightarrow> bool" where
  "replay_inv s \<longleftrightarrow> map be_event_id (bs_sent s) = [1..<Suc (bs_seq s)] \<and> bs_drawn s = [] \<and> suffix (bs_buffer s) (bs_sent s) \<and>
     (bs_buffer s = [] \<longrightarrow> bs_sent s = [])"

lemma too_old_id [simp]: "too_old parse_ts now (e\<lparr>be_event_id := n\<rparr>) = too_old parse_ts now e"
  by (simp add: too_old_def)

lemma buffer_push_keeps:
  assumes "\<not> too_old parse_ts now e"
  shows "suffix (buffer_push parse_ts now b e) (b @ [e])" "buffer_push parse_ts now b e \<noteq> []"
proof -
  let ?c = "drop (length (b @ [e]) - buffer_max_events) (b @ [e])"
  have "suffix (dropWhile (too_old parse_ts now) ?c) ?c" by (rule suffix_dropWhile)
  moreover have "suffix ?c (b @ [e])" by (rule suffix_drop)
  ultimately show "suffix (buffer_push parse_ts now b e) (b @ [e])"
    unfolding buffer_push_def Let_def by (rule suffix_order.trans)
  have "e \<in> set ?c" by (simp add: buffer_max_events_def)
  then show "buffer_push parse_ts now b e \<noteq> []"
    using assms unfolding buffer_push_def Let_def by (auto simp: dropWhile_eq_Nil_conv)
qed

lemma broadcast_replay_inv:
  assumes "replay_inv s" "fresh_stamp parse_ts te"
  shows "replay_inv (broadcast parse_ts s te)"
proof -
  let ?e = "snd te\<lparr>be_event_id := bs_seq s + 1\<rparr>"
  have k: "\<not> too_old parse_ts (fst te) ?e" using assms(2) by (simp add: fresh_stamp_def)
  have s: "broadcast parse_ts s te = s\<lparr>bs_seq := bs_seq s + 1, bs_drawn := [], bs_buffer := buffer_push parse_ts (fst te) (bs_buffer s) ?e,
      bs_sent := bs_sent s @ [?e]\<rparr>"
    using assms(1) by (simp add: broadcast_def broadcast_draw_def broadcast_append_def Let_def replay_inv_def)
  have "suffix (bs_buffer s @ [?e]) (bs_sent s @ [?e])" using assms(1) by (auto simp: replay_inv_def suffix_def)
  with buffer_push_keeps [OF k, of "bs_buffer s"] have "suffix (buffer_push parse_ts (fst te) (bs_buffer s) ?e) (bs_sent s @ [?e])"
    by (blast intro: suffix_order.trans)
  with buffer_push_keeps(2) [OF k] assms(1) show ?thesis by (simp add: s replay_inv_def)
qed

lemma broadcast_all_inv: "list_all (fresh_stamp parse_ts) tes \<Longrightarrow> replay_inv (broadcast_all parse_ts tes)"
proof (induction tes rule: rev_induct)
  case Nil then show ?case by (simp add: broadcast_all_def broadcast_new_def replay_inv_def)
next
  case (snoc te tes)
  then show ?case using broadcast_replay_inv by (simp add: broadcast_all_def)
qed

lemma replay_exact:
  assumes "replay_inv s" "last_id < 2 ^ 64 - 1"
  shows "events_since (bs_buffer s) last_id = (False, missed) \<Longrightarrow> missed = filter (\<lambda>e. last_id < be_event_id e) (bs_sent s)"
    and "fst (events_since (bs_buffer s) last_id) \<Longrightarrow> bs_sent s \<noteq> [] \<Longrightarrow> last_id < bs_seq s \<Longrightarrow>
      snd (events_since (bs_buffer s) last_id) \<noteq> filter (\<lambda>e. last_id < be_event_id e) (bs_sent s)"
proof -
  obtain old where old: "bs_sent s = old @ bs_buffer s" using assms(1) by (auto simp: replay_inv_def suffix_def)
  have ids: "map be_event_id (bs_sent s) = [1..<Suc (bs_seq s)]" using assms(1) by (simp add: replay_inv_def)
  have len: "length (bs_sent s) = bs_seq s" using arg_cong [OF ids, of length] by (simp del: upt_Suc)
  have nth: "be_event_id (bs_sent s ! i) = Suc i" if "i < length (bs_sent s)" for i
  proof -
    have "be_event_id (bs_sent s ! i) = map be_event_id (bs_sent s) ! i" using that by simp
    also have "\<dots> = 1 + i" unfolding ids using that len by (intro nth_upt) simp
    also have "\<dots> = Suc i" by simp
    finally show ?thesis .
  qed
  have old_ids: "be_event_id e \<le> length old" if "e \<in> set old" for e
    using that nth old by (metis Suc_leI in_set_conv_nth length_append nth_append trans_less_add1)
  have first: "be_event_id (hd (bs_buffer s)) = Suc (length old)" if "bs_buffer s \<noteq> []"
    using nth [of "length old"] that old by (simp add: hd_conv_nth nth_append)
  have wrap: "(last_id + 1) mod 2 ^ 64 = last_id + 1" using assms(2) by simp
  show "missed = filter (\<lambda>e. last_id < be_event_id e) (bs_sent s)" if m: "events_since (bs_buffer s) last_id = (False, missed)"
  proof (cases "bs_buffer s")
    case Nil
    then show ?thesis using m assms(1) by (auto simp: events_since_def replay_inv_def)
  next
    case (Cons b bs)
    then have "length old \<le> last_id" using m first wrap by (simp add: events_since_def Let_def)
    then have "filter (\<lambda>e. last_id < be_event_id e) old = []" using old_ids by (force simp: filter_empty_conv)
    then show ?thesis using m old by (simp add: events_since_def Let_def)
  qed
  show "snd (events_since (bs_buffer s) last_id) \<noteq> filter (\<lambda>e. last_id < be_event_id e) (bs_sent s)"
    if ex: "fst (events_since (bs_buffer s) last_id)" and "bs_sent s \<noteq> []" "last_id < bs_seq s"
  proof -
    obtain b bs where Cons: "bs_buffer s = b # bs" using assms(1) \<open>bs_sent s \<noteq> []\<close> by (cases "bs_buffer s") (auto simp: replay_inv_def)
    then have l: "last_id < length old" using ex first wrap by (simp add: events_since_def Let_def)
    then have "old ! last_id \<in> set (filter (\<lambda>e. last_id < be_event_id e) old)"
      using nth [of last_id] old by (simp add: nth_append)
    then have "filter (\<lambda>e. last_id < be_event_id e) old \<noteq> []" by (metis empty_iff list.set(1))
    then show ?thesis using old by (simp add: events_since_def Let_def)
  qed
qed

text \<open>C27: As long as broadcasts follow one another, a client that reconnects with the number of the last event it saw
  learns the truth: when the buffer does not report that it was exceeded, the events it replays are exactly the later
  ones among all that were ever sent, in order; and when it does report so to a client that missed something, events are missing from the replay.\<close>

theorem replay_complete:
  assumes "list_all (fresh_stamp parse_ts) tes" and "last_id < 2 ^ 64 - 1" and "last_id < bs_seq (broadcast_all parse_ts tes)"
  shows "fst (events_since (bs_buffer (broadcast_all parse_ts tes)) last_id) \<longleftrightarrow>
    snd (events_since (bs_buffer (broadcast_all parse_ts tes)) last_id) \<noteq>
      filter (\<lambda>e. last_id < be_event_id e) (bs_sent (broadcast_all parse_ts tes))"
proof -
  let ?s = "broadcast_all parse_ts tes"
  note inv = broadcast_all_inv [OF assms(1)]
  have "length (bs_sent ?s) = bs_seq ?s" using inv unfolding replay_inv_def by (metis diff_Suc_1 length_map length_upt)
  then have "bs_sent ?s \<noteq> []" using assms(3) by auto
  then show ?thesis using replay_exact [OF inv assms(2)] assms(3) by (metis (full_types) prod.collapse)
qed

definition sample_broadcast :: "string \<Rightarrow> string \<Rightarrow> BroadcastEvent" where
  "sample_broadcast ty ts = \<lparr>be_event_type = ty, be_event_id = 0, be_workspace_id = None, be_timestamp = ts, be_data = []\<rparr>"

theorem replay_complete_witness:
  "events_since (bs_buffer (broadcast_all (parse_digits 0) [(1, sample_broadcast ''A'' ''1''), (5, sample_broadcast ''B'' ''5'')])) 1 =
     (False, [(sample_broadcast ''B'' ''5'')\<lparr>be_event_id := 2\<rparr>])"
proof -
  let ?tes = "[(1, sample_broadcast ''A'' ''1''), (5, sample_broadcast ''B'' ''5'')]"
  let ?s = "broadcast_all (parse_digits 0) ?tes" and ?b = "(sample_broadcast ''B'' ''5'')\<lparr>be_event_id := 2\<rparr>"
  note defs = broadcast_all_def broadcast_def broadcast_new_def broadcast_draw_def broadcast_append_def buffer_push_def
    buffer_max_events_def buffer_max_age_secs_def too_old_def fresh_stamp_def sample_broadcast_def events_since_def Let_def digit_val_def
  have seq: "bs_seq ?s = 2" by (simp add: defs)
  have sent: "filter (\<lambda>e. 1 < be_event_id e) (bs_sent ?s) = [?b]" by (simp add: defs)
  have missed: "snd (events_since (bs_buffer ?s) 1) = [?b]" by (simp add: defs)
  have fresh: "list_all (fresh_stamp (parse_digits 0)) ?tes" by (simp add: defs)
  have "(1::nat) < 2 ^ 64 - 1" by simp
  moreover have "1 < bs_seq ?s" unfolding seq by simp
  ultimately have "fst (events_since (bs_buffer ?s) 1) \<longleftrightarrow> snd (events_since (bs_buffer ?s) 1) \<noteq> filter (\<lambda>e. 1 < be_event_id e) (bs_sent ?s)"
    by (rule replay_complete [OF fresh])
  then have "fst (events_since (bs_buffer ?s) 1) = False" unfolding sent missed by simp
  with missed show ?thesis by (intro prod_eqI) (simp_all only: fst_conv snd_conv)
qed

text \<open>When broadcasts overlap, the promise fails. There is an interleaving of two callers in which the second draws its number
  after the first but appends before it; once its event has aged out while the first one's is still there, a client
  that last saw number 1 is told that nothing was exceeded and never receives number 2.\<close>

theorem overlapping_broadcasts_lose_event:
  "\<exists>s e. (broadcast_step (parse_digits 0))\<^sup>*\<^sup>* broadcast_new s \<and> bs_drawn s = [] \<and> e \<in> set (bs_sent s) \<and> 1 < be_event_id e \<and>
     fst (events_since (bs_buffer s) 1) = False \<and> e \<notin> set (snd (events_since (bs_buffer s) 1))"
proof -
  let ?p = "parse_digits 0"
  let ?a = "(sample_broadcast ''A'' ''5'')\<lparr>be_event_id := 1\<rparr>" and ?b = "(sample_broadcast ''B'' ''0'')\<lparr>be_event_id := 2\<rparr>"
    and ?c = "(sample_broadcast ''C'' ''3602'')\<lparr>be_event_id := 3\<rparr>"
  define s1 where "s1 = snd (broadcast_draw broadcast_new (sample_broadcast ''A'' ''5''))"
  define s2 where "s2 = snd (broadcast_draw s1 (sample_broadcast ''B'' ''0''))"
  define s3 where "s3 = broadcast_append ?p 6 s2 ?b"
  define s4 where "s4 = broadcast_append ?p 6 s3 ?a"
  define s5 where "s5 = snd (broadcast_draw s4 (sample_broadcast ''C'' ''3602''))"
  define s6 where "s6 = broadcast_append ?p 3602 s5 ?c"
  note d = s1_def s2_def s3_def s4_def s5_def s6_def
  have drawn: "?b \<in> set (bs_drawn s2)" "?a \<in> set (bs_drawn s3)" "?c \<in> set (bs_drawn s5)"
    by (simp_all add: d broadcast_new_def broadcast_draw_def broadcast_append_def sample_broadcast_def Let_def)
  have "broadcast_step ?p broadcast_new s1" "broadcast_step ?p s1 s2" "broadcast_step ?p s4 s5"
    unfolding s1_def s2_def s5_def by (rule broadcast_step.draw)+
  moreover have "broadcast_step ?p s2 s3" unfolding s3_def by (rule broadcast_step.append [OF drawn(1)])
  moreover have "broadcast_step ?p s3 s4" unfolding s4_def by (rule broadcast_step.append [OF drawn(2)])
  moreover have "broadcast_step ?p s5 s6" unfolding s6_def by (rule broadcast_step.append [OF drawn(3)])
  ultimately have "(broadcast_step ?p)\<^sup>*\<^sup>* broadcast_new s6" by (meson rtranclp.rtrancl_into_rtrancl rtranclp.rtrancl_refl)
  moreover have "bs_drawn s6 = [] \<and> ?b \<in> set (bs_sent s6) \<and> 1 < be_event_id ?b \<and>
     fst (events_since (bs_buffer s6) 1) = False \<and> ?b \<notin> set (snd (events_since (bs_buffer s6) 1))"
    by (simp add: d broadcast_new_def broadcast_draw_def broadcast_append_def buffer_push_def
        buffer_max_events_def buffer_max_age_secs_def too_old_def sample_broadcast_def events_since_def Let_def digit_val_def)
  ultimately show ?thesis by blast
qed

end
