(* ===== verification/ScopeInference.thy ===== *)
theory ScopeInference
  imports WorkQueue "HOL-Library.AList"
begin

text \<open>
  Scope inference (\<open>src/scope_inference/mod.rs\<close>): the terms of an intent, the entities they match, the search of
  their neighbourhood, the grading, and the influence of past intents; and the history those come from
  (\<open>src/scope_history/mod.rs\<close>).

  The search is a loop over a work list, here a partial function; that it ends is a theorem. A \<open>HashMap\<close> is
  an association list without duplicate keys; its order stands for the unspecified one. Arithmetic on \<open>f64\<close>
  is an argument, \<open>float_ops\<close>. The JSON codec of the list columns, \<open>ORDER BY\<close> and the clock are fields of the
  environment.
\<close>

section \<open>Terms\<close>

datatype ConfidenceLevel = Low | Medium | High

fun confidence_label :: "ConfidenceLevel \<Rightarrow> string" where
  "confidence_label High = ''HIGH''"
| "confidence_label Medium = ''MEDIUM''"
| "confidence_label Low = ''LOW''"

fun confidence_rank :: "ConfidenceLevel \<Rightarrow> nat" where
  "confidence_rank Low = 0"
| "confidence_rank Medium = 1"
| "confidence_rank High = 2"

definition inference_stop_words :: "string list" where
  "inference_stop_words = [''a'', ''an'', ''the'', ''this'', ''that'', ''these'', ''those'', ''each'', ''every'', ''some'', ''any'',
     ''all'', ''both'', ''few'', ''more'', ''most'', ''other'', ''such'', ''in'', ''on'', ''at'', ''by'', ''for'', ''of'', ''to'', ''up'',
     ''as'', ''or'', ''and'', ''but'', ''not'', ''nor'', ''so'', ''yet'', ''with'', ''into'', ''from'', ''about'', ''above'', ''after'',
     ''before'', ''below'', ''between'', ''during'', ''through'', ''it'', ''its'', ''they'', ''them'', ''their'', ''we'', ''our'', ''you'',
     ''your'', ''he'', ''she'', ''his'', ''her'', ''who'', ''which'', ''what'', ''where'', ''when'', ''how'', ''why'', ''is'', ''are'',
     ''was'', ''were'', ''be'', ''been'', ''being'', ''have'', ''has'', ''had'', ''do'', ''does'', ''did'', ''will'', ''would'', ''could'',
     ''should'', ''may'', ''might'', ''shall'', ''can'', ''add'', ''fix'', ''update'', ''implement'', ''change'', ''refactor'', ''remove'',
     ''delete'', ''create'', ''make'', ''build'', ''use'', ''using'', ''get'', ''set'', ''new'', ''old'', ''now'', ''also'', ''just'',
     ''very'', ''too'', ''than'', ''then'', ''there'', ''if'', ''else'', ''while'', ''return'', ''need'', ''needs'', ''want'']"

definition trim_underscores :: "string \<Rightarrow> string" where
  "trim_underscores t = rev (dropWhile (\<lambda>c. c = CHR ''_'') (rev (dropWhile (\<lambda>c. c = CHR ''_'') t)))"

definition extract_terms :: "('a) issue_env_scheme \<Rightarrow> string \<Rightarrow> string list" where
  "extract_terms env intent =
     dedup_by id {} (filter (\<lambda>t. 3 \<le> length t \<and> t \<notin> set inference_stop_words)
       (map (\<lambda>t. str_lowercase env (trim_underscores t)) (split_words (\<lambda>c. \<not> is_alphanumeric env c \<and> c \<noteq> ''_'') intent)))"

section \<open>Inference\<close>

record ScopedEntity =
  se_entity :: Entity
  se_confidence :: ConfidenceLevel
  se_reason :: string

record HistoryInfluence =
  hi_past_intent :: string
  hi_entity_ids :: "string list"
  hi_term_overlap :: nat

record ScopeInference =
  si_intent :: string
  si_terms :: "string list"
  si_predicted_scope :: "ScopedEntity list"
  si_history_influences :: "HistoryInfluence list"
  si_inferred_at :: time

type_synonym scope_map = "(string \<times> ScopedEntity) list"

definition match_entity :: "('a) issue_env_scheme \<Rightarrow> string \<Rightarrow> Entity \<Rightarrow> scope_map \<Rightarrow> scope_map" where
  "match_entity env term entity scope =
     (let conf = (if str_lowercase env (en_name entity) = term then High else Medium);
          reason = ''name/path matches term '' @ [CHR 0x27] @ term @ [CHR 0x27]
      in case map_of scope (en_id entity) of
           Some e \<Rightarrow>
             if confidence_rank (se_confidence e) < confidence_rank conf
             then AList.update (en_id entity) (e\<lparr>se_confidence := conf, se_reason := reason\<rparr>) scope else scope
         | None \<Rightarrow> AList.update (en_id entity) \<lparr>se_entity = entity, se_confidence = conf, se_reason = reason\<rparr> scope)"

definition direct_scope :: "('a) issue_env_scheme \<Rightarrow> graph_db \<Rightarrow> string list \<Rightarrow> scope_map" where
  "direct_scope env g terms = fold (\<lambda>t. fold (match_entity env t) (search_entities_broad g t)) terms []"

text \<open>The loop over the relationships of one entity.\<close>

fun hop_rels ::
  "string \<Rightarrow> nat \<Rightarrow> Relationship list \<Rightarrow> (string \<times> nat) list \<Rightarrow> (string \<times> nat) list \<Rightarrow> (string \<times> nat) list \<times> (string \<times> nat) list" where
  "hop_rels i hops [] dist queue = (dist, queue)"
| "hop_rels i hops (r # rs) dist queue =
     (let nb = (if rl_from_entity r = i then rl_to_entity r else rl_from_entity r)
      in if map_of dist nb = None then hop_rels i hops rs (dist @ [(nb, hops + 1)]) (queue @ [(nb, hops + 1)])
         else hop_rels i hops rs dist queue)"

text \<open>The loop over the work list.\<close>

partial_function (option) hop_loop :: "graph_db \<Rightarrow> nat \<Rightarrow> (string \<times> nat) list \<Rightarrow> (string \<times> nat) list \<Rightarrow> (string \<times> nat) list option" where
  "hop_loop g max_hops dist queue =
     (if queue = [] then Some dist
      else if max_hops \<le> snd (hd queue) then hop_loop g max_hops dist (tl queue)
      else let p = hop_rels (fst (hd queue)) (snd (hd queue)) (get_relationships_for_entity g (fst (hd queue))) dist (tl queue)
           in hop_loop g max_hops (fst p) (snd p))"

definition add_hop :: "nat \<Rightarrow> (string \<times> nat) list \<Rightarrow> Entity \<Rightarrow> scope_map \<Rightarrow> scope_map" where
  "add_hop max_hops dist entity scope =
     (let hops = (case map_of dist (en_id entity) of Some h \<Rightarrow> h | None \<Rightarrow> max_hops)
      in if map_of scope (en_id entity) \<noteq> None then scope
         else AList.update (en_id entity) \<lparr>se_entity = entity, se_confidence = (if hops = 1 then Medium else Low),
                se_reason = nat_to_string hops @ ''-hop relationship from direct match''\<rparr> scope)"

definition expand_scope :: "graph_db \<Rightarrow> nat \<Rightarrow> scope_map \<Rightarrow> scope_map option" where
  "expand_scope g max_hops scope =
     (if 0 < max_hops \<and> scope \<noteq> []
      then map_option (\<lambda>dist.
             fold (add_hop max_hops dist)
               (get_entities_by_ids g (map fst (filter (\<lambda>(i, h). 0 < h \<and> map_of scope i = None) dist))) scope)
             (hop_loop g max_hops (map (\<lambda>p. (fst p, 0)) scope) (map (\<lambda>p. (fst p, 0)) scope))
      else Some scope)"

definition by_confidence :: "ScopedEntity list \<Rightarrow> ScopedEntity list" where
  "by_confidence = sort_key (\<lambda>s. 2 - confidence_rank (se_confidence s))"

definition infer :: "('a) issue_env_scheme \<Rightarrow> graph_db \<Rightarrow> time \<Rightarrow> string \<Rightarrow> nat \<Rightarrow> ScopeInference option" where
  "infer env g now intent max_hops =
     (let terms = extract_terms env intent
      in map_option (\<lambda>scope. \<lparr>si_intent = intent, si_terms = terms, si_predicted_scope = by_confidence (map snd scope),
             si_history_influences = [], si_inferred_at = now\<rparr>)
           (expand_scope g max_hops (direct_scope env g terms)))"

section \<open>History\<close>

record 'f float_ops =
  fl_zero :: 'f
  fl_add :: "'f \<Rightarrow> 'f \<Rightarrow> 'f"
  fl_mul :: "'f \<Rightarrow> 'f \<Rightarrow> 'f"
  fl_div :: "'f \<Rightarrow> 'f \<Rightarrow> 'f"
  fl_of_nat :: "nat \<Rightarrow> 'f"
  fl_less :: "'f \<Rightarrow> 'f \<Rightarrow> bool"
  fl_fixed2 :: "'f \<Rightarrow> string"

datatype ScopeHistoryError = ShSqlite | ShJson

record IntentRecord =
  ir_id :: uuid
  ir_intent_text :: string
  ir_terms :: "string list"
  ir_predicted_entity_ids :: "string list"
  ir_actual_entity_ids :: "string list"
  ir_workspace_id :: "string option"
  ir_recorded_at :: time

record intent_row =
  iw_id :: string
  iw_intent_text :: string
  iw_terms_json :: string
  iw_predicted_json :: string
  iw_actual_json :: string
  iw_workspace_id :: "string option"
  iw_recorded_at :: string

record hist_env = issue_env +
  hs_to_json :: "string list \<Rightarrow> string"
  hs_from_json :: "string \<Rightarrow> string list option"
  hs_order_desc :: "intent_row list \<Rightarrow> intent_row list"

definition record_intent ::
  "('e) hist_env_scheme \<Rightarrow> intent_row list \<Rightarrow> time \<Rightarrow> uuid \<Rightarrow> string \<Rightarrow> string list \<Rightarrow> string list \<Rightarrow> string list \<Rightarrow> string option \<Rightarrow>
   (ScopeHistoryError, IntentRecord) result \<times> intent_row list" where
  "record_intent env tbl now i intent_text terms guessed actual workspace_id =
     (if list_ex (\<lambda>r. iw_id r = uuid_to_string env i) tbl then (Inl ShSqlite, tbl)
      else (Inr \<lparr>ir_id = i, ir_intent_text = intent_text, ir_terms = terms, ir_predicted_entity_ids = guessed,
                 ir_actual_entity_ids = actual, ir_workspace_id = workspace_id, ir_recorded_at = now\<rparr>,
            tbl @ [\<lparr>iw_id = uuid_to_string env i, iw_intent_text = intent_text, iw_terms_json = hs_to_json env terms,
                    iw_predicted_json = hs_to_json env guessed, iw_actual_json = hs_to_json env actual,
                    iw_workspace_id = workspace_id, iw_recorded_at = to_rfc3339 env now\<rparr>]))"

definition row_to_record :: "('e) hist_env_scheme \<Rightarrow> time \<Rightarrow> intent_row \<Rightarrow> IntentRecord option" where
  "row_to_record env now r =
     (case (hs_from_json env (iw_terms_json r), hs_from_json env (iw_predicted_json r), hs_from_json env (iw_actual_json r)) of
        (Some terms, Some guessed, Some actual) \<Rightarrow>
          Some \<lparr>ir_id = (case uuid_from_str env (iw_id r) of Some i \<Rightarrow> i | None \<Rightarrow> 0), ir_intent_text = iw_intent_text r, ir_terms = terms,
                ir_predicted_entity_ids = guessed, ir_actual_entity_ids = actual, ir_workspace_id = iw_workspace_id r,
                ir_recorded_at = (case from_rfc3339 env (iw_recorded_at r) of Some t \<Rightarrow> t | None \<Rightarrow> now)\<rparr>
      | _ \<Rightarrow> None)"

text \<open>A limit beyond \<open>i64\<close> becomes negative, which is no limit.\<close>

definition sql_limit :: "nat \<Rightarrow> 'x list \<Rightarrow> 'x list" where
  "sql_limit n xs = (if n < 2 ^ 63 then take n xs else xs)"

definition list_recent :: "('e) hist_env_scheme \<Rightarrow> intent_row list \<Rightarrow> time \<Rightarrow> nat \<Rightarrow> (ScopeHistoryError, IntentRecord list) result" where
  "list_recent env tbl now limit =
     (let rows = map (row_to_record env now) (sql_limit limit (hs_order_desc env tbl))
      in if None \<in> set rows then Inl ShJson else Inr (map the rows))"

definition term_overlap :: "string list \<Rightarrow> IntentRecord \<Rightarrow> nat" where
  "term_overlap query_terms x = length (filter (\<lambda>t. t \<in> set query_terms) (ir_terms x))"

definition weigh_record :: "'f float_ops \<Rightarrow> string list \<Rightarrow> IntentRecord \<Rightarrow> (string \<times> 'f) list \<Rightarrow> (string \<times> 'f) list" where
  "weigh_record fl query_terms x weights =
     (if ir_actual_entity_ids x = [] \<or> term_overlap query_terms x = 0 then weights
      else let score = fl_div fl (fl_of_nat fl (term_overlap query_terms x)) (fl_of_nat fl (length query_terms))
           in fold (\<lambda>i ws. AList.update i (fl_add fl (case map_of ws i of Some w \<Rightarrow> w | None \<Rightarrow> fl_zero fl) score) ws)
                (ir_actual_entity_ids x) weights)"

fun insert_desc :: "('f \<Rightarrow> 'f \<Rightarrow> bool) \<Rightarrow> string \<times> 'f \<Rightarrow> (string \<times> 'f) list \<Rightarrow> (string \<times> 'f) list" where
  "insert_desc lt x [] = [x]"
| "insert_desc lt x (y # ys) = (if lt (snd x) (snd y) then y # insert_desc lt x ys else x # y # ys)"

text \<open>A stable sort by descending weight.\<close>

definition compute_entity_weights ::
  "'f float_ops \<Rightarrow> ('e) hist_env_scheme \<Rightarrow> intent_row list \<Rightarrow> time \<Rightarrow> string list \<Rightarrow> (ScopeHistoryError, (string \<times> 'f) list) result" where
  "compute_entity_weights fl env tbl now query_terms =
     (if query_terms = [] then Inr []
      else bind_result (list_recent env tbl now 10000)
             (\<lambda>rs. Inr (foldr (insert_desc (fl_less fl)) (fold (weigh_record fl query_terms) rs []) [])))"

record 'f AccuracyMetrics =
  am_sample_count :: nat
  am_avg_recall :: 'f
  am_avg_precision :: 'f
  am_f1_score :: 'f

definition accuracy_sample :: "nat \<Rightarrow> IntentRecord list \<Rightarrow> IntentRecord list" where
  "accuracy_sample limit rs = take limit (filter (\<lambda>x. ir_predicted_entity_ids x \<noteq> [] \<and> ir_actual_entity_ids x \<noteq> []) rs)"

definition true_positives :: "IntentRecord \<Rightarrow> nat" where
  "true_positives x = card (set (ir_predicted_entity_ids x) \<inter> set (ir_actual_entity_ids x))"

definition sum_ratio :: "'f float_ops \<Rightarrow> (IntentRecord \<Rightarrow> string list) \<Rightarrow> IntentRecord list \<Rightarrow> 'f" where
  "sum_ratio fl f rs =
     fold (\<lambda>x acc. fl_add fl acc (fl_div fl (fl_of_nat fl (true_positives x)) (fl_of_nat fl (card (set (f x)))))) rs (fl_zero fl)"

text \<open>\<open>None\<close> is the overflow of \<open>limit * 2\<close>.\<close>

definition accuracy ::
  "'f float_ops \<Rightarrow> ('e) hist_env_scheme \<Rightarrow> intent_row list \<Rightarrow> time \<Rightarrow> nat \<Rightarrow> (ScopeHistoryError, 'f AccuracyMetrics) result option" where
  "accuracy fl env tbl now limit =
     (if 2 ^ 64 \<le> limit * 2 then None
      else Some (bind_result (list_recent env tbl now (limit * 2)) (\<lambda>records.
        (let rs = accuracy_sample limit records; n = length rs; z = fl_zero fl
         in if n = 0 then Inr \<lparr>am_sample_count = 0, am_avg_recall = z, am_avg_precision = z, am_f1_score = z\<rparr>
            else let avg_recall = fl_div fl (sum_ratio fl ir_actual_entity_ids rs) (fl_of_nat fl n);
                     avg_precision = fl_div fl (sum_ratio fl ir_predicted_entity_ids rs) (fl_of_nat fl n);
                     total_score = fl_add fl avg_recall avg_precision
                 in Inr \<lparr>am_sample_count = n, am_avg_recall = avg_recall, am_avg_precision = avg_precision,
                         am_f1_score = (if fl_less fl z total_score
                           then fl_div fl (fl_mul fl (fl_mul fl (fl_of_nat fl 2) avg_precision) avg_recall) (fl_add fl avg_precision avg_recall)
                           else z)\<rparr>))))"

section \<open>Inference with history\<close>

datatype ScopeInferenceError = SiHistory ScopeHistoryError

fun boost :: "ConfidenceLevel \<Rightarrow> ConfidenceLevel" where
  "boost Low = Medium"
| "boost Medium = High"
| "boost High = High"

definition boost_entity :: "'f float_ops \<Rightarrow> (string \<rightharpoonup> 'f) \<Rightarrow> ScopedEntity \<Rightarrow> ScopedEntity" where
  "boost_entity fl weight s =
     (case weight (en_id (se_entity s)) of
        None \<Rightarrow> s
      | Some w \<Rightarrow>
          if fl_less fl (fl_zero fl) w \<and> confidence_rank (se_confidence s) < confidence_rank (boost (se_confidence s))
          then s\<lparr>se_confidence := boost (se_confidence s),
                 se_reason := se_reason s @ '' + historical match (weight '' @ fl_fixed2 fl w @ '')''\<rparr>
          else s)"

definition influences :: "string list \<Rightarrow> IntentRecord list \<Rightarrow> HistoryInfluence list" where
  "influences terms rs =
     rev (sort_key hi_term_overlap (rev (map (\<lambda>x. \<lparr>hi_past_intent = ir_intent_text x, hi_entity_ids = ir_actual_entity_ids x,
                                                    hi_term_overlap = term_overlap terms x\<rparr>)
       (filter (\<lambda>x. \<not> (term_overlap terms x = 0 \<or> ir_actual_entity_ids x = [])) rs))))"

definition with_history ::
  "'f float_ops \<Rightarrow> graph_db \<Rightarrow> (string \<times> 'f) list \<Rightarrow> ScopedEntity list \<Rightarrow> ScopedEntity list" where
  "with_history fl g weights scope =
     (let boosted = map (boost_entity fl (map_of weights)) scope;
          new_ids = filter (\<lambda>i. i \<notin> (\<lambda>s. en_id (se_entity s)) ` set boosted) (map fst weights);
          added = map (\<lambda>e. \<lparr>se_entity = e, se_confidence = Low,
                    se_reason = ''historical match (weight '' @ fl_fixed2 fl (the (map_of weights (en_id e))) @ '')''\<rparr>) (get_entities_by_ids g new_ids)
      in by_confidence (boosted @ added))"

definition infer_with_history ::
  "'f float_ops \<Rightarrow> ('e) hist_env_scheme \<Rightarrow> graph_db \<Rightarrow> intent_row list \<Rightarrow> time \<Rightarrow> string \<Rightarrow> nat \<Rightarrow>
   (ScopeInferenceError, ScopeInference) result option" where
  "infer_with_history fl env g tbl now intent max_hops =
     map_option (\<lambda>res.
       case compute_entity_weights fl env tbl now (si_terms res) of
         Inl e \<Rightarrow> Inl (SiHistory e)
       | Inr [] \<Rightarrow> Inr res
       | Inr (w # ws) \<Rightarrow>
           (case list_recent env tbl now 10000 of
              Inl e \<Rightarrow> Inl (SiHistory e)
            | Inr rs \<Rightarrow> Inr (res\<lparr>si_predicted_scope := with_history fl g (w # ws) (si_predicted_scope res),
                                 si_history_influences := influences (si_terms res) rs\<rparr>)))
       (infer env g now intent max_hops)"

end
