(* ===== verification/ScopeInference_Laws.thy ===== *)
theory ScopeInference_Laws
  imports ScopeInference
begin

text \<open>
  Laws of scope inference: the search over the work list ends, whatever list and distances it starts from, and
  an inference predicts exactly the entities within the given number of steps of a match, graded by match and
  distance.
\<close>

section \<open>The search ends\<close>

lemma hop_loop_simps:
  "hop_loop g m dist [] = Some dist"
  "hop_loop g m dist ((i, h) # queue) =
     (if m \<le> h then hop_loop g m dist queue
      else hop_loop g m (fst (hop_rels i h (get_relationships_for_entity g i) dist queue))
             (snd (hop_rels i h (get_relationships_for_entity g i) dist queue)))"
  by (simp_all add: hop_loop.simps [of g m] Let_def)

text \<open>The loop over relationships does to the keys of \<open>dist\<close> what \<open>visit_rels\<close> does to its list.\<close>

lemma hop_rels_visit:
  "\<exists>new. hop_rels i h rs dist queue = (dist @ map (\<lambda>w. (w, h + 1)) new, queue @ map (\<lambda>w. (w, h + 1)) new) \<and>
     visit_rels i h rs (map fst dist) queue = (map fst dist @ new, queue @ map (\<lambda>w. (w, h + 1)) new) \<and>
     distinct new \<and> set new = nb_of i ` set rs - fst ` set dist"
proof (induction i h rs dist queue rule: hop_rels.induct)
  case (2 i h r rs dist queue)
  define nb where "nb = nb_of i r"
  have nb': "(if rl_from_entity r = i then rl_to_entity r else rl_from_entity r) = nb" by (simp add: nb_def nb_of_def)
  show ?case
  proof (cases "map_of dist nb = None")
    case True
    then have n: "nb \<notin> fst ` set dist" by (simp add: map_of_eq_None_iff)
    from 2(1) [OF refl] True obtain new where
      "hop_rels i h rs (dist @ [(nb, h + 1)]) (queue @ [(nb, h + 1)]) =
        ((dist @ [(nb, h + 1)]) @ map (\<lambda>w. (w, h + 1)) new, (queue @ [(nb, h + 1)]) @ map (\<lambda>w. (w, h + 1)) new)"
      "visit_rels i h rs (map fst (dist @ [(nb, h + 1)])) (queue @ [(nb, h + 1)]) =
        (map fst (dist @ [(nb, h + 1)]) @ new, (queue @ [(nb, h + 1)]) @ map (\<lambda>w. (w, h + 1)) new)"
      "distinct new" "set new = nb_of i ` set rs - fst ` set (dist @ [(nb, h + 1)])"
      unfolding nb' by blast
    with n show ?thesis
      by (intro exI [of _ "nb # new"]) (auto simp: nb' nb_def [symmetric] Let_def True)
  next
    case False
    then have n: "nb \<in> fst ` set dist" by (simp add: map_of_eq_None_iff)
    from 2(2) [OF refl] False n show ?thesis by (auto simp: nb' nb_def [symmetric] Let_def)
  qed
qed simp

lemma rels_endpoints:
  "\<forall>r\<in>set (get_relationships_for_entity g i). rl_from_entity r \<in> endpoints g \<and> rl_to_entity r \<in> endpoints g"
  by (auto simp: get_relationships_for_entity_def row_to_relationship_def endpoints_def)

lemma hop_loop_returns: "\<exists>d. hop_loop g m dist queue = Some d"
proof (induction "2 * card (endpoints g - fst ` set dist) + length queue" arbitrary: dist queue rule: less_induct)
  case less
  show ?case
  proof (cases queue)
    case Nil
    then show ?thesis by (simp add: hop_loop_simps)
  next
    case (Cons x queue')
    obtain i h where x: "x = (i, h)" by (cases x)
    obtain new where new: "hop_rels i h (get_relationships_for_entity g i) dist queue' =
        (dist @ map (\<lambda>w. (w, h + 1)) new, queue' @ map (\<lambda>w. (w, h + 1)) new)"
      "visit_rels i h (get_relationships_for_entity g i) (map fst dist) queue' = (map fst dist @ new, queue' @ map (\<lambda>w. (w, h + 1)) new)"
      using hop_rels_visit by blast
    have "2 * card (endpoints g - fst ` set (dist @ map (\<lambda>w. (w, h + 1)) new)) + length (queue' @ map (\<lambda>w. (w, h + 1)) new)
        < 2 * card (endpoints g - fst ` set dist) + length queue"
      using visit_rels_measure [OF finite_endpoints rels_endpoints [of g i], of i h "map fst dist" queue'] by (simp add: new(2) Cons image_Un image_image)
    then show ?thesis using less [of dist queue'] less by (auto simp: Cons x hop_loop_simps new(1))
  qed
qed

section \<open>The distances\<close>

definition hop_distance :: "graph_db \<Rightarrow> string set \<Rightarrow> string \<Rightarrow> nat" where
  "hop_distance g S v = (LEAST k. v \<in> within g S k)"

lemma within_mono: "n \<le> m \<Longrightarrow> within g S n \<subseteq> within g S m"
  by (induction m) (auto simp: le_Suc_eq)

lemma hop_distance_new: "v \<in> within g S (Suc n) \<Longrightarrow> v \<notin> within g S n \<Longrightarrow> hop_distance g S v = Suc n"
  unfolding hop_distance_def by (rule Least_equality) (auto dest: within_mono [of _ n, THEN subsetD] simp: not_less_eq_eq [symmetric])

lemma hop_loop_level:
  assumes "n < m"
  shows "\<exists>new. hop_loop g m dist (map (\<lambda>v. (v, n)) L @ map (\<lambda>v. (v, n + 1)) M) =
      hop_loop g m (dist @ map (\<lambda>v. (v, n + 1)) new) (map (\<lambda>v. (v, n + 1)) (M @ new)) \<and>
      distinct new \<and> set new = nbs g (set L) - fst ` set dist"
proof (induction L arbitrary: dist M)
  case Nil
  show ?case by (intro exI [of _ "[]"]) (simp add: nbs_def)
next
  case (Cons v L)
  let ?q = "map (\<lambda>v. (v, n)) L @ map (\<lambda>v. (v, n + 1)) M"
  obtain new1 where new1: "hop_rels v n (get_relationships_for_entity g v) dist ?q = (dist @ map (\<lambda>w. (w, n + 1)) new1, ?q @ map (\<lambda>w. (w, n + 1)) new1)"
    "distinct new1" "set new1 = nbs g {v} - fst ` set dist"
    using hop_rels_visit [of v n "get_relationships_for_entity g v" dist ?q] unfolding rel_neighbours by blast
  obtain new2 where new2: "hop_loop g m (dist @ map (\<lambda>w. (w, n + 1)) new1) (map (\<lambda>v. (v, n)) L @ map (\<lambda>v. (v, n + 1)) (M @ new1)) =
      hop_loop g m ((dist @ map (\<lambda>w. (w, n + 1)) new1) @ map (\<lambda>w. (w, n + 1)) new2) (map (\<lambda>v. (v, n + 1)) ((M @ new1) @ new2))"
    "distinct new2" "set new2 = nbs g (set L) - fst ` set (dist @ map (\<lambda>w. (w, n + 1)) new1)" using Cons by blast
  have "nbs g (set (v # L)) = nbs g {v} \<union> nbs g (set L)" using nbs_Un [of g "{v}" "set L"] by simp
  then show ?case using assms new1 new2
    by (intro exI [of _ "new1 @ new2"]) (auto simp: hop_loop_simps image_Un image_image)
qed

lemma hop_loop_done: "m \<le> n \<Longrightarrow> hop_loop g m dist (map (\<lambda>v. (v, n)) L) = Some dist"
  by (induction L) (simp_all add: hop_loop_simps)

definition distances :: "graph_db \<Rightarrow> string set \<Rightarrow> nat \<Rightarrow> (string \<times> nat) list \<Rightarrow> bool" where
  "distances g S n d \<longleftrightarrow> distinct (map fst d) \<and> fst ` set d = within g S n \<and> (\<forall>(v, k)\<in>set d. k = hop_distance g S v)"

lemma hop_loop_distances:
  assumes "n \<le> m" "distances g S n dist" "set L \<subseteq> fst ` set dist" "nbs g (fst ` set dist - set L) \<subseteq> fst ` set dist"
  shows "\<exists>d. hop_loop g m dist (map (\<lambda>v. (v, n)) L) = Some d \<and> distances g S m d"
  using assms
proof (induction "m - n" arbitrary: n dist L)
  case 0
  then show ?case by (simp add: hop_loop_done)
next
  case (Suc k)
  then have n: "n < m" by simp
  let ?V = "fst ` set dist"
  obtain new where new: "hop_loop g m dist (map (\<lambda>v. (v, n)) L) = hop_loop g m (dist @ map (\<lambda>v. (v, n + 1)) new) (map (\<lambda>v. (v, n + 1)) new)"
    "distinct new" "set new = nbs g (set L) - ?V" using hop_loop_level [OF n, of g dist L "[]"] by auto
  let ?d = "dist @ map (\<lambda>v. (v, n + 1)) new"
  have keys: "fst ` set ?d = ?V \<union> set new" by (simp add: image_Un image_image)
  have split: "nbs g ?V = nbs g (?V - set L) \<union> nbs g (set L)"
    using nbs_Un [of g "?V - set L" "set L"] Suc.prems(3) by (simp add: Un_absorb2)
  have v: "?V \<union> set new = within g S (n + 1)"
    using Suc.prems(2,4) new(3) split by (auto simp: distances_def)
  have "hop_distance g S w = Suc n" if "w \<in> set new" for w
    using that v new(3) Suc.prems(2) by (intro hop_distance_new) (auto simp: distances_def)
  then have "distances g S (n + 1) ?d"
    using Suc.prems(2) new(2,3) v by (auto simp: distances_def image_Un image_image o_def)
  moreover have "nbs g (fst ` set ?d - set new) \<subseteq> fst ` set ?d"
  proof -
    have "fst ` set ?d - set new = ?V" using new(3) keys by auto
    moreover have "nbs g ?V \<subseteq> ?V \<union> set new" using split Suc.prems(4) new(3) by auto
    ultimately show ?thesis by (simp only: keys)
  qed
  ultimately have "\<exists>d. hop_loop g m ?d (map (\<lambda>v. (v, n + 1)) new) = Some d \<and> distances g S m d"
    using Suc.hyps(2) n keys by (intro Suc.hyps(1)) auto
  with new(1) show ?case by simp
qed

lemma hop_loop_seeds:
  assumes "distinct vs"
  obtains d where "hop_loop g m (map (\<lambda>v. (v, 0)) vs) (map (\<lambda>v. (v, 0)) vs) = Some d" "distances g (set vs) m d"
proof -
  have "hop_distance g (set vs) v = 0" if "v \<in> set vs" for v unfolding hop_distance_def by (rule Least_eq_0) (simp add: that)
  then have "distances g (set vs) 0 (map (\<lambda>v. (v, 0)) vs)" using assms by (auto simp: distances_def o_def image_image)
  then have "\<exists>d. hop_loop g m (map (\<lambda>v. (v, 0)) vs) (map (\<lambda>v. (v, 0)) vs) = Some d \<and> distances g (set vs) m d"
    by (rule hop_loop_distances [OF le0]) (simp_all add: image_image nbs_def)
  then show thesis using that by blast
qed

section \<open>The direct matches\<close>

definition match_pairs :: "graph_db \<Rightarrow> string list \<Rightarrow> (string \<times> Entity) list" where
  "match_pairs g terms = concat (map (\<lambda>t. map (Pair t) (search_entities_broad g t)) terms)"

lemma direct_scope_fold: "direct_scope env g terms = fold (\<lambda>(t, e). match_entity env t e) (match_pairs g terms) []"
proof -
  have "fold (\<lambda>t. fold (match_entity env t) (search_entities_broad g t)) terms s = fold (\<lambda>(t, e). match_entity env t e) (match_pairs g terms) s" for s
    by (induction terms arbitrary: s) (simp_all add: match_pairs_def fold_map o_def)
  then show ?thesis by (simp add: direct_scope_def)
qed

definition named :: "('a) issue_env_scheme \<Rightarrow> (string \<times> Entity) list \<Rightarrow> string \<Rightarrow> bool" where
  "named env ps i \<longleftrightarrow> list_ex (\<lambda>(t, e). en_id e = i \<and> str_lowercase env (en_name e) = t) ps"

definition scope_ok :: "(string \<times> Entity) list \<Rightarrow> scope_map \<Rightarrow> bool" where
  "scope_ok ps scope \<longleftrightarrow> distinct (map fst scope) \<and> fst ` set scope = (\<lambda>p. en_id (snd p)) ` set ps \<and>
     (\<forall>(k, s)\<in>set scope. en_id (se_entity s) = k \<and> se_entity s \<in> snd ` set ps)"

lemma update_entries: "(k, v) \<in> set (AList.update k' v' xs) \<Longrightarrow> k = k' \<and> v = v' \<or> (k, v) \<in> set xs"
  by (induction xs) (auto split: if_splits)

lemma update_keys: "fst ` set (AList.update k v xs) = insert k (fst ` set xs)"
  by (induction xs) auto

lemma update_new: "k \<notin> fst ` set xs \<Longrightarrow> AList.update k v xs = xs @ [(k, v)]"
  by (induction xs) auto

lemma match_entity_ok:
  assumes "scope_ok ps scope" "\<And>i. map_option se_confidence (map_of scope i) =
      (if i \<in> (\<lambda>p. en_id (snd p)) ` set ps then Some (if named env ps i then High else Medium) else None)"
  shows "scope_ok (ps @ [(t, e)]) (match_entity env t e scope)"
    "map_option se_confidence (map_of (match_entity env t e scope) i) =
      (if i \<in> (\<lambda>p. en_id (snd p)) ` set (ps @ [(t, e)]) then Some (if named env (ps @ [(t, e)]) i then High else Medium) else None)"
proof -
  have named: "named env (ps @ [(t, e)]) i \<longleftrightarrow> named env ps i \<or> en_id e = i \<and> str_lowercase env (en_name e) = t" for i
    by (auto simp: named_def)
  have member: "i \<in> (\<lambda>p. en_id (snd p)) ` set ps" if "named env ps i" for i using that by (force simp: named_def list_ex_iff)
  consider (old) s where "map_of scope (en_id e) = Some s" | (new) "map_of scope (en_id e) = None" by (cases "map_of scope (en_id e)") auto
  then show "scope_ok (ps @ [(t, e)]) (match_entity env t e scope)"
  proof cases
    case old
    then have m: "(en_id e, s) \<in> set scope" "en_id (se_entity s) = en_id e" "se_entity s \<in> snd ` set ps"
      using assms(1) by (auto dest!: map_of_SomeD simp: scope_ok_def)
    then have k: "en_id e \<in> fst ` set scope" by force
    show ?thesis using assms(1) m k
      by (auto simp: match_entity_def old Let_def scope_ok_def distinct_update update_keys dest!: update_entries)
  next
    case new
    then show ?thesis using assms(1)
      by (auto simp: match_entity_def Let_def scope_ok_def distinct_update update_keys dest!: update_entries)
  qed
  show "map_option se_confidence (map_of (match_entity env t e scope) i) =
      (if i \<in> (\<lambda>p. en_id (snd p)) ` set (ps @ [(t, e)]) then Some (if named env (ps @ [(t, e)]) i then High else Medium) else None)"
    using assms(2) [of i] assms(2) [of "en_id e"] member
    by (cases "map_of scope (en_id e)"; cases "i = en_id e")
      (auto simp: match_entity_def Let_def update_conv' named split: if_splits)
qed

lemma direct_scope_ok:
  shows "scope_ok (match_pairs g terms) (direct_scope env g terms)"
    "map_option se_confidence (map_of (direct_scope env g terms) i) =
      (if i \<in> (\<lambda>p. en_id (snd p)) ` set (match_pairs g terms) then Some (if named env (match_pairs g terms) i then High else Medium) else None)"
proof -
  have "scope_ok ps (fold (\<lambda>(t, e). match_entity env t e) ps []) \<and>
    (\<forall>i. map_option se_confidence (map_of (fold (\<lambda>(t, e). match_entity env t e) ps []) i) =
      (if i \<in> (\<lambda>p. en_id (snd p)) ` set ps then Some (if named env ps i then High else Medium) else None))" for ps
  proof (induction ps rule: rev_induct)
    case Nil
    then show ?case by (simp add: scope_ok_def)
  next
    case (snoc x ps)
    obtain t e where x: "x = (t, e)" by (cases x)
    with snoc show ?case using match_entity_ok [of ps "fold (\<lambda>(t, e). match_entity env t e) ps []" env t e] by simp
  qed
  then show "scope_ok (match_pairs g terms) (direct_scope env g terms)"
    "map_option se_confidence (map_of (direct_scope env g terms) i) =
      (if i \<in> (\<lambda>p. en_id (snd p)) ` set (match_pairs g terms) then Some (if named env (match_pairs g terms) i then High else Medium) else None)"
    unfolding direct_scope_fold by blast+
qed

section \<open>The expansion\<close>

lemma fold_add_hop:
  assumes "distinct (map fst scope)" "distinct (map en_id es)" "\<And>e. e \<in> set es \<Longrightarrow> en_id e \<notin> fst ` set scope"
  shows "\<exists>added. fold (add_hop m dist) es scope = scope @ added \<and> map fst added = map en_id es \<and>
    map (\<lambda>p. (se_entity (snd p), se_confidence (snd p))) added = map (\<lambda>e. (e, if map_of dist (en_id e) = Some 1 \<or> (map_of dist (en_id e) = None \<and> m = 1) then Medium else Low)) es"
  using assms
proof (induction es arbitrary: scope)
  case (Cons e es)
  have n: "map_of scope (en_id e) = None" using Cons.prems(3) by (simp add: map_of_eq_None_iff)
  define s where "s = \<lparr>se_entity = e, se_confidence = (if (case map_of dist (en_id e) of Some h \<Rightarrow> h | None \<Rightarrow> m) = 1 then Medium else Low),
      se_reason = nat_to_string (case map_of dist (en_id e) of Some h \<Rightarrow> h | None \<Rightarrow> m) @ ''-hop relationship from direct match''\<rparr>"
  have step: "add_hop m dist e scope = scope @ [(en_id e, s)]"
    unfolding add_hop_def Let_def s_def using Cons.prems(3) [of e] by (simp add: n update_new)
  have "\<exists>added. fold (add_hop m dist) es (scope @ [(en_id e, s)]) = (scope @ [(en_id e, s)]) @ added \<and> map fst added = map en_id es \<and>
    map (\<lambda>p. (se_entity (snd p), se_confidence (snd p))) added = map (\<lambda>e. (e, if map_of dist (en_id e) = Some 1 \<or> (map_of dist (en_id e) = None \<and> m = 1) then Medium else Low)) es"
    using Cons.prems by (intro Cons.IH) (auto simp: image_iff)
  then obtain added where "fold (add_hop m dist) es (scope @ [(en_id e, s)]) = (scope @ [(en_id e, s)]) @ added" "map fst added = map en_id es"
    "map (\<lambda>p. (se_entity (snd p), se_confidence (snd p))) added = map (\<lambda>e. (e, if map_of dist (en_id e) = Some 1 \<or> (map_of dist (en_id e) = None \<and> m = 1) then Medium else Low)) es"
    by blast
  then show ?case by (intro exI [of _ "(en_id e, s) # added"]) (simp add: step s_def split: option.split)
qed simp

text \<open>The reference: what is predicted, and with which confidence.\<close>

definition matched :: "graph_db \<Rightarrow> string list \<Rightarrow> string set" where
  "matched g terms = (\<Union>t\<in>set terms. en_id ` set (search_entities_broad g t))"

definition name_matched :: "('a) issue_env_scheme \<Rightarrow> graph_db \<Rightarrow> string list \<Rightarrow> Entity \<Rightarrow> bool" where
  "name_matched env g terms e \<longleftrightarrow> list_ex (\<lambda>t. str_lowercase env (en_name e) = t \<and> e \<in> set (search_entities_broad g t)) terms"

definition inferred_confidence :: "('a) issue_env_scheme \<Rightarrow> graph_db \<Rightarrow> string list \<Rightarrow> Entity \<Rightarrow> ConfidenceLevel" where
  "inferred_confidence env g terms e =
     (if en_id e \<in> matched g terms then if name_matched env g terms e then High else Medium
      else if en_id e \<in> within g (matched g terms) 1 then Medium else Low)"

lemma match_pairs_ids: "(\<lambda>p. en_id (snd p)) ` set (match_pairs g terms) = matched g terms"
  by (simp add: match_pairs_def matched_def image_UN image_image)

lemma all_entities_set: "set (all_entities g) = row_to_entity ` set (entities_tbl g)"
  by (simp add: all_entities_def order_by_byte_def)

lemma en_id_row [simp]: "en_id (row_to_entity r) = er_id r"
  by (simp add: row_to_entity_def)

lemma search_subset: "set (search_entities_broad g t) \<subseteq> set (all_entities g)"
  by (auto simp: search_entities_broad_def Let_def all_entities_set order_by_line_def)

lemma by_ids_set: "set (get_entities_by_ids g ids) = {e \<in> set (all_entities g). en_id e \<in> set ids}"
  by (auto simp: get_entities_by_ids_def all_entities_set order_by_line_def)

lemma entity_by_id_unique: "wf_graph g \<Longrightarrow> e \<in> set (all_entities g) \<Longrightarrow> e' \<in> set (all_entities g) \<Longrightarrow> en_id e = en_id e' \<Longrightarrow> e = e'"
  by (auto simp: wf_graph_def all_entities_set distinct_map dest: inj_onD)

lemma by_ids_distinct: "wf_graph g \<Longrightarrow> distinct (map en_id (get_entities_by_ids g ids))"
proof -
  assume "wf_graph g"
  then have "distinct (map er_id (order_by_line (filter (\<lambda>r. er_id r \<in> set ids) (entities_tbl g))))"
    by (auto simp: order_by_line_def wf_graph_def distinct_map inj_on_def)
  then show ?thesis by (simp add: get_entities_by_ids_def o_def)
qed

lemma named_iff:
  assumes "wf_graph g" "e \<in> set (all_entities g)"
  shows "named env (match_pairs g terms) (en_id e) \<longleftrightarrow> name_matched env g terms e"
proof -
  have "named env (match_pairs g terms) (en_id e) \<longleftrightarrow>
      (\<exists>t\<in>set terms. \<exists>x\<in>set (search_entities_broad g t). en_id x = en_id e \<and> str_lowercase env (en_name x) = t)"
    by (auto simp: named_def match_pairs_def list_ex_iff)
  also have "\<dots> \<longleftrightarrow> name_matched env g terms e"
    using entity_by_id_unique [OF assms(1) _ assms(2)] search_subset [of g] by (auto simp: name_matched_def list_ex_iff)
  finally show ?thesis .
qed

lemma direct_entries:
  assumes "wf_graph g"
  shows "(\<lambda>p. (se_entity (snd p), se_confidence (snd p))) ` set (direct_scope env g terms) =
    {(e, if name_matched env g terms e then High else Medium) |e. e \<in> set (all_entities g) \<and> en_id e \<in> matched g terms}"
proof -
  note ok = direct_scope_ok(1) [of g terms env, unfolded scope_ok_def match_pairs_ids]
  have sub: "snd ` set (match_pairs g terms) \<subseteq> set (all_entities g)" using search_subset by (fastforce simp: match_pairs_def)
  have conf: "se_confidence s = (if name_matched env g terms (se_entity s) then High else Medium)"
    and ent: "se_entity s \<in> set (all_entities g)" "k = en_id (se_entity s)" "k \<in> matched g terms"
    if p: "(k, s) \<in> set (direct_scope env g terms)" for k s
  proof -
    have "case (k, s) of (k, s) \<Rightarrow> en_id (se_entity s) = k \<and> se_entity s \<in> snd ` set (match_pairs g terms)"
      using ok p by (meson bspec)
    then show e: "k = en_id (se_entity s)" and a: "se_entity s \<in> set (all_entities g)" using sub by auto
    show "k \<in> matched g terms" using ok image_eqI [of k fst, OF _ p] by simp
    have "map_of (direct_scope env g terms) k = Some s" using ok p by (simp add: map_of_eq_Some_iff)
    then show "se_confidence s = (if name_matched env g terms (se_entity s) then High else Medium)"
      using direct_scope_ok(2) [of env g terms k] \<open>k \<in> matched g terms\<close> named_iff [OF assms a, of env terms] e by (simp add: match_pairs_ids)
  qed
  show ?thesis (is "?L = ?R")
  proof
    show "?L \<subseteq> ?R" using conf ent by fastforce
    show "?R \<subseteq> ?L"
    proof
      fix q assume "q \<in> ?R"
      then obtain e where e: "q = (e, if name_matched env g terms e then High else Medium)" "e \<in> set (all_entities g)" "en_id e \<in> matched g terms" by blast
      then obtain s where s: "(en_id e, s) \<in> set (direct_scope env g terms)" using ok by (metis (no_types, lifting) image_iff prod.collapse)
      have "se_entity s = e" using entity_by_id_unique [OF assms ent(1) [OF s] e(2)] ent(2) [OF s] by simp
      with conf [OF s] e(1) s show "q \<in> ?L" by (intro image_eqI [of _ _ "(en_id e, s)"]) simp_all
    qed
  qed
qed

lemma within_empty: "within g {} n = {}"
  by (induction n) (simp_all add: nbs_def)

lemma expand_entries:
  assumes "wf_graph g"
  obtains scope where "expand_scope g m (direct_scope env g terms) = Some scope" "distinct (map (\<lambda>p. en_id (se_entity (snd p))) scope)"
    "(\<lambda>p. (se_entity (snd p), se_confidence (snd p))) ` set scope =
      {(e, inferred_confidence env g terms e) |e. e \<in> set (all_entities g) \<and> en_id e \<in> within g (matched g terms) m}"
proof -
  let ?D = "direct_scope env g terms" and ?S = "matched g terms" and ?pr = "\<lambda>p. (se_entity (snd p), se_confidence (snd p))"
  note ok = direct_scope_ok(1) [of g terms env, unfolded scope_ok_def match_pairs_ids]
  have keys: "map (\<lambda>p. en_id (se_entity (snd p))) ?D = map fst ?D" using ok by (intro map_cong) fastforce+
  have direct: "?pr ` set ?D = {(e, inferred_confidence env g terms e) |e. e \<in> set (all_entities g) \<and> en_id e \<in> ?S}"
    using direct_entries [OF assms, of env terms] by (auto simp: inferred_confidence_def)
  show thesis
  proof (cases "0 < m \<and> ?D \<noteq> []")
    case False
    then have "within g ?S m = ?S" using ok within_empty by (cases "m = 0") auto
    moreover have "expand_scope g m ?D = Some ?D" using False by (auto simp: expand_scope_def)
    moreover have "distinct (map (\<lambda>p. en_id (se_entity (snd p))) ?D)" unfolding keys using ok by simp
    ultimately show thesis using direct by (intro that [of ?D]) simp_all
  next
    case True
    obtain d where d: "hop_loop g m (map (\<lambda>v. (v, 0)) (map fst ?D)) (map (\<lambda>v. (v, 0)) (map fst ?D)) = Some d" "distances g (set (map fst ?D)) m d"
      by (rule hop_loop_seeds [of "map fst ?D" g m]) (use ok in simp)
    have S: "set (map fst ?D) = ?S" using ok by (simp only: set_map)
    have d2: "distances g ?S m d" using d(2) unfolding S .
    let ?ids = "map fst (filter (\<lambda>(i, h). 0 < h \<and> map_of ?D i = None) d)"
    have dist: "map_of d v = (if v \<in> within g ?S m then Some (hop_distance g ?S v) else None)" for v
    proof (cases "v \<in> within g ?S m")
      case True
      then obtain k where k: "(v, k) \<in> set d" using d2 unfolding distances_def by (metis (no_types, lifting) imageE prod.collapse)
      then have "k = hop_distance g ?S v" using d2 unfolding distances_def by blast
      with k show ?thesis using True d2 by (simp add: distances_def map_of_eq_Some_iff)
    next
      case False
      then show ?thesis using d2 by (simp add: distances_def map_of_eq_None_iff)
    qed
    have zero: "hop_distance g ?S v = 0 \<longleftrightarrow> v \<in> ?S" if "v \<in> within g ?S m" for v
      using LeastI [of "\<lambda>k. v \<in> within g ?S k" m] that unfolding hop_distance_def by (auto intro: Least_eq_0)
    have ids: "set ?ids = within g ?S m - ?S"
    proof -
      have n: "map_of ?D i = None \<longleftrightarrow> i \<notin> ?S" for i unfolding map_of_eq_None_iff using ok by (simp only: simp_thms)
      have m: "(v, h) \<in> set d \<longleftrightarrow> map_of d v = Some h" for v h using d2 by (simp add: distances_def map_of_eq_Some_iff)
      have "set ?ids = {v. \<exists>h. (v, h) \<in> set d \<and> 0 < h \<and> v \<notin> ?S}" by (auto simp: n image_iff)
      then have "set ?ids = {v. \<exists>h. map_of d v = Some h \<and> 0 < h \<and> v \<notin> ?S}" by (simp only: m)
      then show ?thesis using zero by (auto simp: dist split: if_splits)
    qed
    have one: "map_of d v = Some 1 \<longleftrightarrow> v \<in> within g ?S 1" if "v \<in> within g ?S m" "v \<notin> ?S" for v
    proof
      assume "map_of d v = Some 1"
      then have "hop_distance g ?S v = 1" using that(1) by (simp add: dist)
      then show "v \<in> within g ?S 1" using LeastI [of "\<lambda>k. v \<in> within g ?S k" m] that(1) by (simp add: hop_distance_def)
    next
      assume "v \<in> within g ?S 1"
      then show "map_of d v = Some 1" using that hop_distance_new [of v g ?S 0] by (simp add: dist)
    qed
    let ?es = "get_entities_by_ids g ?ids"
    have es: "set ?es = {e \<in> set (all_entities g). en_id e \<in> within g ?S m - ?S}" by (simp only: by_ids_set ids)
    obtain added where a: "fold (add_hop m d) ?es ?D = ?D @ added" "map fst added = map en_id ?es"
      "map ?pr added = map (\<lambda>e. (e, if map_of d (en_id e) = Some 1 \<or> (map_of d (en_id e) = None \<and> m = 1) then Medium else Low)) ?es"
      using fold_add_hop [of ?D ?es m d] ok by_ids_distinct [OF assms] es by auto
    have grade: "(if map_of d (en_id e) = Some 1 \<or> (map_of d (en_id e) = None \<and> m = 1) then Medium else Low) = inferred_confidence env g terms e" if "e \<in> set ?es" for e
      using that one [of "en_id e"] unfolding es by (auto simp: inferred_confidence_def dist split: if_splits)
    have pa: "map ?pr added = map (\<lambda>e. (e, inferred_confidence env g terms e)) ?es"
      unfolding a(3) by (rule map_cong [OF refl]) (simp only: grade)
    then have "set (map ?pr added) = set (map (\<lambda>e. (e, inferred_confidence env g terms e)) ?es)" by (rule arg_cong)
    then have ad: "?pr ` set added = (\<lambda>e. (e, inferred_confidence env g terms e)) ` {e \<in> set (all_entities g). en_id e \<in> within g ?S m - ?S}"
      by (simp only: set_map es)
    have ex: "expand_scope g m ?D = Some (?D @ added)" using True d(1) a(1) by (simp add: expand_scope_def o_def)
    have "?S \<subseteq> within g ?S m" using within_mono [of 0 m g ?S] by simp
    then have eq: "?pr ` set (?D @ added) = {(e, inferred_confidence env g terms e) |e. e \<in> set (all_entities g) \<and> en_id e \<in> within g ?S m}"
      unfolding set_append image_Un direct ad by blast
    have "map (\<lambda>x. en_id (fst x)) (map ?pr added) = map (\<lambda>x. en_id (fst x)) (map (\<lambda>e. (e, inferred_confidence env g terms e)) ?es)" by (simp only: pa)
    then have ka: "map (\<lambda>p. en_id (se_entity (snd p))) added = map en_id ?es" by (simp add: o_def)
    have "set (map en_id ?es) \<inter> set (map fst ?D) = {}" unfolding S using es by auto
    then have "distinct (map (\<lambda>p. en_id (se_entity (snd p))) (?D @ added))"
      unfolding map_append keys ka using ok by_ids_distinct [OF assms, of ?ids] by (simp only: distinct_append) blast
    with ex eq show thesis by (intro that)
  qed
qed

section \<open>Inference\<close>

text \<open>C35: Scope inference always ends: the search over the work list returns from every graph, bound, table of distances and work
  list, also one with repeated or unknown identifiers, and so does every inference.\<close>

theorem inference_terminates:
  "hop_loop g m dist queue \<noteq> None \<and> infer env g now intent max_hops \<noteq> None"
  using hop_loop_returns [of g m dist queue]
    hop_loop_returns [of g max_hops "map (\<lambda>p. (fst p, 0)) (direct_scope env g (extract_terms env intent))"
      "map (\<lambda>p. (fst p, 0)) (direct_scope env g (extract_terms env intent))"]
  by (auto simp: infer_def expand_scope_def Let_def)

lemma by_confidence_sorted: "sorted_wrt (\<lambda>a b. confidence_rank (se_confidence b) \<le> confidence_rank (se_confidence a)) (by_confidence xs)"
proof -
  have "(2 - confidence_rank (se_confidence a) \<le> 2 - confidence_rank (se_confidence b)) = (confidence_rank (se_confidence b) \<le> confidence_rank (se_confidence a))" for a b :: ScopedEntity
    by (cases "se_confidence a"; cases "se_confidence b") simp_all
  then show ?thesis using sorted_sort_key [of "\<lambda>s. 2 - confidence_rank (se_confidence s)" xs] by (simp add: by_confidence_def sorted_map)
qed

text \<open>C36: An inference predicts exactly the entities at most \<open>max_hops\<close> relationships, in either direction, away from an entity
  that matches a term of the intent, each once and the most certain first: high confidence for an entity whose name is
  a term that finds it, medium for any other match and for one step from a match, low for everything further away.\<close>

theorem infer_exact:
  assumes "wf_graph g"
  shows "\<exists>res. infer env g now intent max_hops = Some res \<and> si_terms res = extract_terms env intent \<and>
    (\<lambda>s. (se_entity s, se_confidence s)) ` set (si_predicted_scope res) =
      {(e, inferred_confidence env g (extract_terms env intent) e) |e.
         e \<in> set (all_entities g) \<and> en_id e \<in> within g (matched g (extract_terms env intent)) max_hops} \<and>
    distinct (map (\<lambda>s. en_id (se_entity s)) (si_predicted_scope res)) \<and>
    sorted_wrt (\<lambda>a b. confidence_rank (se_confidence b) \<le> confidence_rank (se_confidence a)) (si_predicted_scope res)"
proof -
  let ?ts = "extract_terms env intent"
  obtain scope where s: "expand_scope g max_hops (direct_scope env g ?ts) = Some scope" "distinct (map (\<lambda>p. en_id (se_entity (snd p))) scope)"
    "(\<lambda>p. (se_entity (snd p), se_confidence (snd p))) ` set scope =
      {(e, inferred_confidence env g ?ts e) |e. e \<in> set (all_entities g) \<and> en_id e \<in> within g (matched g ?ts) max_hops}"
    by (rule expand_entries [OF assms])
  have "distinct (map (\<lambda>s. en_id (se_entity s)) (by_confidence (map snd scope)))"
    using s(2) by (auto simp: by_confidence_def distinct_map o_def inj_on_def)
  moreover have "(\<lambda>s. (se_entity s, se_confidence s)) ` set (by_confidence (map snd scope)) =
      (\<lambda>p. (se_entity (snd p), se_confidence (snd p))) ` set scope" by (simp add: by_confidence_def image_image)
  ultimately show ?thesis using s(1,3) by_confidence_sorted by (simp add: infer_def Let_def)
qed

theorem infer_exact_witness:
  "\<exists>res. infer sample_issue_env sample_graph 0 ''rename Alpha'' 1 = Some res \<and> si_terms res = extract_terms sample_issue_env ''rename Alpha'' \<and>
    (\<lambda>s. (se_entity s, se_confidence s)) ` set (si_predicted_scope res) =
      {(e, inferred_confidence sample_issue_env sample_graph (extract_terms sample_issue_env ''rename Alpha'') e) |e.
         e \<in> set (all_entities sample_graph) \<and> en_id e \<in> within sample_graph (matched sample_graph (extract_terms sample_issue_env ''rename Alpha'')) 1} \<and>
    distinct (map (\<lambda>s. en_id (se_entity s)) (si_predicted_scope res)) \<and>
    sorted_wrt (\<lambda>a b. confidence_rank (se_confidence b) \<le> confidence_rank (se_confidence a)) (si_predicted_scope res)"
  by (rule infer_exact [OF sample_graph_wf])

end
