(* ===== verification/IgnoreRules.thy ===== *)
theory IgnoreRules
  imports Workspace
begin

text \<open>
  Which files of a working tree the program takes into account: the collection of files for listings and
  uploads (\<open>src/ignore_rules.rs\<close>) and the stricter walk of push and pull (\<open>src/remote/tarball.rs\<close>). The
  \<open>ignore\<close> crate, which walks the tree and applies \<open>.gitignore\<close> and \<open>.vaignore\<close>, is the parameter
  \<open>walk\<close>: the paths it yields, relative to the root, each with whether it is a directory. Paths are relative to
  the root and separated by slashes.
\<close>

section \<open>Path components\<close>

text \<open>\<open>Path::components\<close>: empty and \<open>.\<close> segments are dropped; \<open>..\<close> is a component of its own.\<close>

definition components :: "string \<Rightarrow> string list" where
  "components p = filter (\<lambda>c. c \<noteq> [] \<and> c \<noteq> ''.'') (split_char (CHR ''/'') p)"

text \<open>The components that are file names, joined by slashes.\<close>

definition rel_str :: "string \<Rightarrow> string" where
  "rel_str p = join_with ''/'' (filter (\<lambda>c. c \<noteq> ''..'') (components p))"

definition name_of :: "string \<Rightarrow> string" where
  "name_of p = last (split_char (CHR ''/'') p)"

definition dirs_of :: "string \<Rightarrow> string list" where
  "dirs_of p = butlast (split_char (CHR ''/'') p)"

definition forward_slashes :: "string \<Rightarrow> string" where
  "forward_slashes p = map (\<lambda>c. if c = CHR 0x5C then CHR ''/'' else c) p"

text \<open>\<open>Path::extension\<close> of a file name.\<close>

definition name_extension :: "string \<Rightarrow> string option" where
  "name_extension n =
     (let ext = rev (takeWhile (\<lambda>c. c \<noteq> CHR ''.'') (rev n))
      in if n = ''..'' \<or> length n \<le> length ext + 1 then None else Some ext)"

section \<open>Rules\<close>

definition is_builtin_secret_file :: "string \<Rightarrow> bool" where
  "is_builtin_secret_file name \<longleftrightarrow>
     name = ''.env'' \<or> starts_with name ''.env.'' \<or> ends_with name ''.pem'' \<or> ends_with name ''.key'' \<or>
     starts_with name ''id_rsa'' \<or> starts_with name ''id_ed25519''"

definition is_under_builtin_exclude :: "string \<Rightarrow> bool" where
  "is_under_builtin_exclude rel = (case components rel of [] \<Rightarrow> False | c # _ \<Rightarrow> c = ''.vai'' \<or> c = ''.git'')"

fun matches_extra_pattern :: "string \<Rightarrow> string list \<Rightarrow> bool" where
  "matches_extra_pattern name [] = False"
| "matches_extra_pattern name (pattern # patterns) =
     (let p = trim_end_matches (CHR ''/'') pattern
      in (case strip_prefix ''*.'' p of
            Some ext \<Rightarrow> if ends_with name (''.'' @ ext) then True else matches_extra_pattern name patterns
          | None \<Rightarrow> if name = p then True else matches_extra_pattern name patterns))"

definition any_component_matches :: "string \<Rightarrow> string list \<Rightarrow> bool" where
  "any_component_matches rel patterns = list_ex (\<lambda>c. matches_extra_pattern c patterns) (components rel)"

section \<open>Collection\<close>

definition collect_entry :: "string list \<Rightarrow> string list option \<Rightarrow> string \<times> bool \<Rightarrow> string option" where
  "collect_entry extra exts entry =
     (case entry of (path, is_dir) \<Rightarrow>
        if is_dir \<or> is_under_builtin_exclude path \<or> is_builtin_secret_file (name_of path) \<or> any_component_matches path extra then None
        else (case exts of
                None \<Rightarrow> Some path
              | Some es \<Rightarrow> (case name_extension (name_of path) of
                              None \<Rightarrow> None
                            | Some e \<Rightarrow> if e \<in> set es then Some path else None)))"

text \<open>Paths are ordered component by component, as \<open>PathBuf\<close> is.\<close>

definition collect_impl :: "(disk \<Rightarrow> (string \<times> bool) list) \<Rightarrow> disk \<Rightarrow> string list \<Rightarrow> string list option \<Rightarrow> string list" where
  "collect_impl walk d extra exts = sort_key components (List.map_filter (collect_entry extra exts) (walk d))"

definition collect_all_files :: "(disk \<Rightarrow> (string \<times> bool) list) \<Rightarrow> disk \<Rightarrow> string list \<Rightarrow> string list" where
  "collect_all_files walk d extra = collect_impl walk d extra None"

definition src_exts :: "string list" where
  "src_exts = [''rs'', ''ts'', ''tsx'', ''js'', ''jsx'']"

definition collect_source_files :: "(disk \<Rightarrow> (string \<times> bool) list) \<Rightarrow> disk \<Rightarrow> string list \<Rightarrow> string list" where
  "collect_source_files walk d extra = collect_impl walk d extra (Some src_exts)"

definition collect_all_files_relative :: "(disk \<Rightarrow> (string \<times> bool) list) \<Rightarrow> disk \<Rightarrow> string list \<Rightarrow> string list" where
  "collect_all_files_relative walk d extra = map forward_slashes (collect_all_files walk d extra)"

section \<open>The walk of push and pull\<close>

definition IGNORE_DIRS :: "string list" where
  "IGNORE_DIRS = [''.vai'', ''.git'', ''target'', ''node_modules'', ''dist'', ''__pycache__'']"

definition is_ignored_dir :: "string \<Rightarrow> bool" where
  "is_ignored_dir name \<longleftrightarrow> name \<in> set IGNORE_DIRS"

text \<open>The recursion descends into every directory that is not ignored, so it meets the files with no
  ignored directory on their way, in the order of the tree.\<close>

definition visited :: "string \<Rightarrow> bool" where
  "visited p \<longleftrightarrow> \<not> list_ex is_ignored_dir (dirs_of p)"

definition tracked :: "string \<Rightarrow> bool" where
  "tracked p \<longleftrightarrow> visited p \<and> \<not> is_builtin_secret_file (name_of p)"

text \<open>A relative path as a file system walk yields it.\<close>

definition clean_path :: "string \<Rightarrow> bool" where
  "clean_path p \<longleftrightarrow> list_all (\<lambda>c. c \<noteq> [] \<and> c \<noteq> ''.'' \<and> c \<noteq> ''..'') (split_char (CHR ''/'') p) \<and> CHR 0x5C \<notin> set p"

lemma join_split: "join_with [c] (split_char c s) = s"
proof (induction s)
  case (Cons x s)
  obtain p ps where "split_char c s = p # ps" using split_char_nonempty [of c s] by (cases "split_char c s") auto
  with Cons show ?case by (cases ps) auto
qed simp

lemma clean_components: "clean_path p \<Longrightarrow> components p = split_char (CHR ''/'') p"
  by (simp add: clean_path_def components_def list_all_iff filter_id_conv)

lemma clean_rel_str [simp]: "clean_path p \<Longrightarrow> rel_str p = p"
  by (simp add: rel_str_def clean_components filter_True clean_path_def list_all_iff join_split)

lemma clean_forward [simp]: "clean_path p \<Longrightarrow> forward_slashes p = p"
  by (auto simp: clean_path_def forward_slashes_def intro: map_idI)

lemma clean_nonempty: "clean_path p \<Longrightarrow> p \<noteq> []"
  by (auto simp: clean_path_def)

end
