(* ===== verification/Remote.thy ===== *)
theory Remote
  imports IgnoreRules Version
begin

text \<open>
  Push, pull, forced pull and sync of a working tree (\<open>src/remote/mod.rs\<close>), the archives they exchange
  (\<open>src/remote/tarball.rs\<close>) and the in-memory remote (\<open>src/remote/memory.rs\<close>).

  The port \<open>RemoteAdapter\<close> is the record \<open>adapter\<close> over the state of the remote: a call returns its
  result and the remote afterwards. A session works on the record \<open>session_state\<close>: the \<open>.vai\<close> directory, if there is
  one, the files of the working tree and the remote; a failing operation returns the state reached so far. The codecs
  of \<open>remote_env\<close> are SHA-256, base64, gzip and tar archives and the UUID parser. Reading an
  archive yields its entries, \<open>None\<close> where an entry cannot be read. File permissions and the progress bar are not
  represented; the clock is read once per operation.
\<close>

datatype RemoteError =
    ReNoRemote | ReMissingRepo | ReMissingKey | ReMissingMessage | ReNothingToPush
  | RePushWouldDeleteFiles "string list" | ReMergeConflict string | ReServer string | ReTransport | ReIo | ReJson | ReBase64
  | ReTarball string | ReConfig string | ReNotAClone | ReLocalVersionNotFound | RePartialDownload nat nat

datatype ChangeKind = CkAdded | CkModified | CkRemoved

record ManifestEntry =
  me_path :: string
  me_sha256 :: string

record ManifestResult =
  mr_version :: string
  mr_files :: "ManifestEntry list"

record UploadStats =
  us_added :: nat
  us_modified :: nat
  us_deleted :: nat

record RemoteSubmitResult =
  rs_version :: string
  rs_files_applied :: nat

record FilePullEntry =
  fp_path :: string
  fp_change :: ChangeKind
  fp_content_base64 :: "string option"

record IncrementalPullResult =
  ip_base_version :: string
  ip_head_version :: string
  ip_files :: "FilePullEntry list"

record FullDownload =
  dl_head_version :: string
  dl_tarball_gz :: bytes
  dl_expected_file_count :: "nat option"

record RemoteFileChange =
  rc_path :: string
  rc_change :: ChangeKind

record RemoteVersionMeta =
  rv_version_id :: string
  rv_parent_version_id :: "string option"
  rv_intent :: string
  rv_created_by :: string
  rv_created_at :: time
  rv_merge_event_id :: "nat option"

record 'r adapter =
  ra_get_manifest :: "string \<Rightarrow> 'r \<Rightarrow> (RemoteError, ManifestResult) result \<times> 'r"
  ra_create_workspace :: "string \<Rightarrow> string \<Rightarrow> 'r \<Rightarrow> (RemoteError, string) result \<times> 'r"
  ra_upload_snapshot :: "string \<Rightarrow> string \<Rightarrow> bytes \<Rightarrow> 'r \<Rightarrow> (RemoteError, UploadStats) result \<times> 'r"
  ra_submit_workspace :: "string \<Rightarrow> string \<Rightarrow> 'r \<Rightarrow> (RemoteError, RemoteSubmitResult) result \<times> 'r"
  ra_pull_incremental :: "string \<Rightarrow> string \<Rightarrow> 'r \<Rightarrow> (RemoteError, IncrementalPullResult) result \<times> 'r"
  ra_download_full :: "string \<Rightarrow> 'r \<Rightarrow> (RemoteError, FullDownload) result \<times> 'r"
  ra_get_server_head :: "string \<Rightarrow> 'r \<Rightarrow> (RemoteError, string) result \<times> 'r"
  ra_list_versions :: "string \<Rightarrow> 'r \<Rightarrow> (RemoteError, string list) result \<times> 'r"
  ra_get_version_changes :: "string \<Rightarrow> string \<Rightarrow> 'r \<Rightarrow> (RemoteError, RemoteFileChange list) result \<times> 'r"
  ra_download_file :: "string \<Rightarrow> string \<Rightarrow> 'r \<Rightarrow> (RemoteError, bytes) result \<times> 'r"
  ra_fetch_versions_since :: "string \<Rightarrow> nat \<Rightarrow> 'r \<Rightarrow> (RemoteError, RemoteVersionMeta list) result \<times> 'r"

record PushOutcome =
  po_version :: string
  po_files_added :: nat
  po_files_modified :: nat
  po_files_deleted :: nat
  po_deleted_paths :: "string list"
  po_files_applied :: nat
  po_dry_run :: bool

record PullOutcome =
  pl_previous_version :: string
  pl_new_version :: string
  pl_files_updated :: "string list"
  pl_files_removed :: "string list"
  pl_files_restored :: "string list"
  pl_already_up_to_date :: bool
  pl_force :: bool

record WorkspaceConflict =
  wc_path :: string
  wc_workspace_intent :: string

record SyncOutcome =
  sy_previous_version :: string
  sy_new_version :: string
  sy_files_updated :: "string list"
  sy_files_removed :: "string list"
  sy_already_up_to_date :: bool
  sy_workspace_conflicts :: "WorkspaceConflict list"

section \<open>Archives\<close>

datatype tar_kind = TarFile | TarDir | TarOther

record tar_entry =
  te_kind :: tar_kind
  te_path :: string
  te_data :: bytes

record remote_env = ver_env +
  sha256 :: "bytes \<Rightarrow> string"
  b64_encode :: "bytes \<Rightarrow> string"
  b64_decode :: "string \<Rightarrow> bytes option"
  tar_gz :: "tar_entry list \<Rightarrow> bytes"
  untar :: "bytes \<Rightarrow> tar_entry option list"
  uuid_parse :: "string \<Rightarrow> uuid option"

definition tar_entries :: "disk \<Rightarrow> tar_entry list" where
  "tar_entries d = map (\<lambda>(p, c). \<lparr>te_kind = TarFile, te_path = forward_slashes p, te_data = c\<rparr>) (filter (\<lambda>(p, c). tracked p) d)"

definition build_full_tarball :: "('a) remote_env_scheme \<Rightarrow> disk \<Rightarrow> bytes" where
  "build_full_tarball env d = tar_gz env (tar_entries d)"

definition collect_local_hashes :: "('a) remote_env_scheme \<Rightarrow> disk \<Rightarrow> (string \<times> string) list" where
  "collect_local_hashes env d =
     fold (\<lambda>(p, c) m. if tracked p \<and> rel_str p \<noteq> [] then AList.update (rel_str p) (sha256 env c) m else m) d []"

fun paths_of_entries :: "tar_entry option list \<Rightarrow> (RemoteError, string list) result" where
  "paths_of_entries [] = Inr []"
| "paths_of_entries (None # es) = Inl (ReTarball ''invalid tarball entry'')"
| "paths_of_entries (Some e # es) =
     (if te_kind e = TarFile then bind_result (paths_of_entries es) (\<lambda>ps. Inr (forward_slashes (te_path e) # ps))
      else paths_of_entries es)"

definition tarball_paths :: "('a) remote_env_scheme \<Rightarrow> bytes \<Rightarrow> (RemoteError, string list) result" where
  "tarball_paths env gz = paths_of_entries (untar env gz)"

definition unsafe_path :: "string \<Rightarrow> bool" where
  "unsafe_path p \<longleftrightarrow> starts_with p ''/'' \<or> ''..'' \<in> set (components p)"

fun extract_entries :: "tar_entry option list \<Rightarrow> disk \<Rightarrow> (RemoteError, string list) result \<times> disk" where
  "extract_entries [] d = (Inr [], d)"
| "extract_entries (None # es) d = (Inl (ReTarball ''invalid tarball entry''), d)"
| "extract_entries (Some e # es) d =
     (if te_kind e = TarOther then extract_entries es d
      else if unsafe_path (te_path e) then (Inl (ReTarball (''unsafe path in tarball: '' @ te_path e)), d)
      else if te_kind e = TarDir then extract_entries es d
      else case extract_entries es (AList.update (rel_str (te_path e)) (te_data e) d) of
             (Inl err, d') \<Rightarrow> (Inl err, d')
           | (Inr written, d') \<Rightarrow> (Inr (rel_str (te_path e) # written), d'))"

definition extract_tarball :: "('a) remote_env_scheme \<Rightarrow> bytes \<Rightarrow> disk \<Rightarrow> (RemoteError, string list) result \<times> disk" where
  "extract_tarball env gz d = extract_entries (untar env gz) d"

text \<open>The walk of this operation does not skip secret files.\<close>

definition stale :: "string set \<Rightarrow> string \<Rightarrow> bool" where
  "stale server_paths p \<longleftrightarrow> visited p \<and> rel_str p \<notin> server_paths"

definition remove_stale_local_files :: "string set \<Rightarrow> disk \<Rightarrow> string list \<times> disk" where
  "remove_stale_local_files server_paths d =
     (map rel_str (filter (stale server_paths) (map fst d)), filter (\<lambda>(p, c). \<not> stale server_paths p) d)"

section \<open>The session\<close>

record 'r session_state =
  ss_vai :: "ver_dir option"
  ss_disk :: disk
  ss_remote :: 'r

text \<open>Sequencing with the \<open>?\<close> operator: the first error ends the computation and keeps the state reached.\<close>

definition seq :: "('s \<Rightarrow> ('e, 'a) result \<times> 's) \<Rightarrow> ('a \<Rightarrow> 's \<Rightarrow> ('e, 'b) result \<times> 's) \<Rightarrow> 's \<Rightarrow> ('e, 'b) result \<times> 's" where
  "seq m f s = (case m s of (Inl e, s') \<Rightarrow> (Inl e, s') | (Inr a, s') \<Rightarrow> f a s')"

definition ask :: "('r \<Rightarrow> ('e, 'a) result \<times> 'r) \<Rightarrow> 'r session_state \<Rightarrow> ('e, 'a) result \<times> 'r session_state" where
  "ask call s = (case call (ss_remote s) of (res, r) \<Rightarrow> (res, s\<lparr>ss_remote := r\<rparr>))"

definition read_local_head :: "'r session_state \<Rightarrow> (RemoteError, string) result \<times> 'r session_state" where
  "read_local_head s =
     (case ss_vai s of
        None \<Rightarrow> (Inl ReIo, s)
      | Some v \<Rightarrow> (case head_file v of None \<Rightarrow> (Inl ReIo, s) | Some h \<Rightarrow> (Inr (trim h), s)))"

definition write_head :: "string \<Rightarrow> 'r session_state \<Rightarrow> (RemoteError, unit) result \<times> 'r session_state" where
  "write_head ver s =
     (case ss_vai s of
        None \<Rightarrow> (Inl ReIo, s)
      | Some v \<Rightarrow> (Inr (), s\<lparr>ss_vai := Some (v\<lparr>head_file := Some (ver @ [CHR 0x0A])\<rparr>)\<rparr>))"

definition put_file :: "string \<Rightarrow> bytes \<Rightarrow> 'r session_state \<Rightarrow> 'r session_state" where
  "put_file p c s = s\<lparr>ss_disk := AList.update p c (ss_disk s)\<rparr>"

definition delete_local :: "string \<Rightarrow> 'r session_state \<Rightarrow> 'r session_state" where
  "delete_local p s = s\<lparr>ss_disk := AList.delete p (ss_disk s)\<rparr>"

definition parse_version_num_str :: "string \<Rightarrow> nat" where
  "parse_version_num_str vid =
     (case parse_u64 (dropWhile (\<lambda>c. c = CHR ''v'') vid) of Some n \<Rightarrow> n | None \<Rightarrow> 0)"

definition version_meta_of :: "RemoteVersionMeta \<Rightarrow> VersionMeta" where
  "version_meta_of m =
     \<lparr>vm_id = None, vm_version_id = rv_version_id m, vm_parent_version_id = rv_parent_version_id m, vm_intent = rv_intent m,
      vm_created_by = rv_created_by m, vm_created_at = rv_created_at m, vm_merge_event_id = rv_merge_event_id m\<rparr>"

definition write_version_metas ::
  "('a) remote_env_scheme \<Rightarrow> 'r adapter \<Rightarrow> string \<Rightarrow> nat \<Rightarrow> 'r session_state \<Rightarrow> (RemoteError, unit) result \<times> 'r session_state" where
  "write_version_metas env ra repo since =
     seq (ask (ra_fetch_versions_since ra repo since)) (\<lambda>metas s.
       if metas = [] then (Inr (), s)
       else case ss_vai s of
              None \<Rightarrow> (Inl ReIo, s)
            | Some v \<Rightarrow>
                (Inr (), s\<lparr>ss_vai := Some (v\<lparr>version_files :=
                   fold (\<lambda>m. AList.update (rv_version_id m) (ver_to_toml env (version_meta_of m))) metas (version_files v)\<rparr>)\<rparr>))"

subsection \<open>Push\<close>

text \<open>\<open>let _ = log.append(...)\<close>: a failed append leaves the log as it is.\<close>

definition try_append :: "('a) elog_env_scheme \<Rightarrow> time \<Rightarrow> EventKind \<Rightarrow> ver_dir \<Rightarrow> ver_dir" where
  "try_append env now kind v = (case vai_append env v now kind of Inl _ \<Rightarrow> v | Inr (e, v') \<Rightarrow> v')"

definition push_file_event :: "uuid \<Rightarrow> (string \<times> string) list \<Rightarrow> string \<times> string \<Rightarrow> EventKind option" where
  "push_file_event ws server entry =
     (case entry of (path, local_hash) \<Rightarrow>
        (case map_of server path of
           Some server_hash \<Rightarrow>
             if server_hash \<noteq> local_hash then Some (FileModified ws path server_hash local_hash) else None
         | None \<Rightarrow> Some (FileAdded ws path local_hash)))"

definition write_push_local_events ::
  "('a) remote_env_scheme \<Rightarrow> time \<Rightarrow> string \<Rightarrow> string \<Rightarrow> string \<Rightarrow> string \<Rightarrow> (string \<times> string) list \<Rightarrow> (string \<times> string) list \<Rightarrow> string list \<Rightarrow>
   ver_dir \<Rightarrow> ver_dir" where
  "write_push_local_events env now ws_str parent new intent local server deleted v =
     (case uuid_parse env ws_str of
        None \<Rightarrow> v
      | Some ws \<Rightarrow>
          (let v1 = fold (try_append env now) (List.map_filter (push_file_event ws server) local) v;
               v2 = fold (\<lambda>p. try_append env now (FileRemoved ws p)) deleted v1
           in case vai_append env v2 now (MergeCompleted ws new 0) of
                Inl _ \<Rightarrow> v2
              | Inr (me, v3) \<Rightarrow>
                  (case vai_append env v3 now (VersionCreated new (Some parent) intent) of
                     Inl _ \<Rightarrow> v3
                   | Inr (_, v4) \<Rightarrow>
                       (case create_version env v4 new (Some parent) intent ''agent'' (Some (ev_id me)) now of
                          Inl _ \<Rightarrow> v4
                        | Inr (_, v5) \<Rightarrow> v5))))"

definition after_push ::
  "('a) remote_env_scheme \<Rightarrow> time \<Rightarrow> string \<Rightarrow> string \<Rightarrow> string \<Rightarrow> string \<Rightarrow> (string \<times> string) list \<Rightarrow> (string \<times> string) list \<Rightarrow> string list \<Rightarrow>
   'r session_state \<Rightarrow> 'r session_state" where
  "after_push env now ws parent new message local server deleted s =
     (case ss_vai s of
        None \<Rightarrow> s
      | Some v \<Rightarrow> s\<lparr>ss_vai := Some (write_push_local_events env now ws parent new message local server deleted
                                     (v\<lparr>head_file := Some (new @ [CHR 0x0A])\<rparr>))\<rparr>)"

definition server_map_of :: "ManifestResult \<Rightarrow> (string \<times> string) list" where
  "server_map_of m = fold (\<lambda>e. AList.update (me_path e) (me_sha256 e)) (mr_files m) []"

definition modified_paths :: "(string \<times> string) list \<Rightarrow> (string \<times> string) list \<Rightarrow> string list" where
  "modified_paths server local = map fst (filter (\<lambda>(p, h). case map_of server p of Some h' \<Rightarrow> h' \<noteq> h | None \<Rightarrow> False) local)"

definition added_paths :: "(string \<times> string) list \<Rightarrow> (string \<times> string) list \<Rightarrow> string list" where
  "added_paths server local = map fst (filter (\<lambda>(p, h). map_of server p = None) local)"

definition missing_paths :: "(string \<times> string) list \<Rightarrow> (string \<times> string) list \<Rightarrow> string list" where
  "missing_paths server local = sort (filter (\<lambda>p. map_of local p = None) (map fst server))"

definition session_push ::
  "('a) remote_env_scheme \<Rightarrow> 'r adapter \<Rightarrow> string \<Rightarrow> time \<Rightarrow> string \<Rightarrow> bool \<Rightarrow> bool \<Rightarrow> 'r session_state \<Rightarrow>
   (RemoteError, PushOutcome) result \<times> 'r session_state" where
  "session_push env ra repo now message dry_run force =
     seq (ask (ra_get_manifest ra repo)) (\<lambda>manifest s.
       let server = server_map_of manifest;
           local = collect_local_hashes env (ss_disk s);
           modified = length (modified_paths server local);
           added = length (added_paths server local);
           deleted = missing_paths server local
       in if modified = 0 \<and> added = 0 \<and> length deleted = 0 then (Inl ReNothingToPush, s)
          else if \<not> force \<and> \<not> dry_run \<and> deleted \<noteq> [] then (Inl (RePushWouldDeleteFiles deleted), s)
          else if dry_run then
            (Inr \<lparr>po_version = mr_version manifest, po_files_added = added, po_files_modified = modified,
                  po_files_deleted = length deleted, po_deleted_paths = deleted, po_files_applied = 0, po_dry_run = True\<rparr>, s)
          else
            seq (ask (ra_create_workspace ra repo message)) (\<lambda>ws.
            seq (\<lambda>s. ask (ra_upload_snapshot ra repo ws (build_full_tarball env (ss_disk s))) s) (\<lambda>stats.
            seq (ask (ra_submit_workspace ra repo ws)) (\<lambda>sub s.
              (Inr \<lparr>po_version = rs_version sub, po_files_added = us_added stats, po_files_modified = us_modified stats,
                    po_files_deleted = us_deleted stats, po_deleted_paths = [], po_files_applied = rs_files_applied sub, po_dry_run = False\<rparr>,
               after_push env now ws (mr_version manifest) (rs_version sub) message local server deleted s)))) s)"

subsection \<open>Pull\<close>

fun write_entries ::
  "('a) remote_env_scheme \<Rightarrow> FilePullEntry list \<Rightarrow> 'r session_state \<Rightarrow> (RemoteError, string list) result \<times> 'r session_state" where
  "write_entries env [] s = (Inr [], s)"
| "write_entries env (e # es) s =
     (case fp_content_base64 e of
        None \<Rightarrow> write_entries env es s
      | Some b \<Rightarrow>
          (case b64_decode env b of
             None \<Rightarrow> (Inl ReBase64, s)
           | Some c \<Rightarrow> seq (write_entries env es) (\<lambda>ps s'. (Inr (fp_path e # ps), s')) (put_file (fp_path e) c s)))"

definition apply_entries ::
  "('a) remote_env_scheme \<Rightarrow> FilePullEntry list \<Rightarrow> 'r session_state \<Rightarrow> (RemoteError, string list \<times> string list) result \<times> 'r session_state" where
  "apply_entries env es =
     seq (write_entries env (filter (\<lambda>e. fp_change e \<noteq> CkRemoved) es)) (\<lambda>updated s.
       let removed = map fp_path (filter (\<lambda>e. fp_change e = CkRemoved) es)
       in (Inr (updated, removed), fold delete_local removed s))"

fun restore_entries ::
  "'r adapter \<Rightarrow> string \<Rightarrow> string list \<Rightarrow> (string \<times> string) list \<Rightarrow> ManifestEntry list \<Rightarrow> 'r session_state \<Rightarrow>
   (RemoteError, string list) result \<times> 'r session_state" where
  "restore_entries ra repo updated local [] s = (Inr [], s)"
| "restore_entries ra repo updated local (e # es) s =
     (if me_path e \<in> set updated \<or> map_of local (me_path e) \<noteq> None then restore_entries ra repo updated local es s
      else seq (ask (ra_download_file ra repo (me_path e))) (\<lambda>c s'.
             seq (restore_entries ra repo updated local es) (\<lambda>ps s''. (Inr (me_path e # ps), s'')) (put_file (me_path e) c s')) s)"

definition finish_pull ::
  "('a) remote_env_scheme \<Rightarrow> 'r adapter \<Rightarrow> string \<Rightarrow> string \<Rightarrow> string \<Rightarrow> 'r session_state \<Rightarrow> (RemoteError, unit) result \<times> 'r session_state" where
  "finish_pull env ra repo local_head new s =
     (if new \<noteq> local_head
      then seq (write_head new) (\<lambda>_. write_version_metas env ra repo (parse_version_num_str local_head)) s
      else (Inr (), s))"

definition session_pull ::
  "('a) remote_env_scheme \<Rightarrow> 'r adapter \<Rightarrow> string \<Rightarrow> 'r session_state \<Rightarrow> (RemoteError, PullOutcome) result \<times> 'r session_state" where
  "session_pull env ra repo =
     seq read_local_head (\<lambda>local_head.
     seq (ask (ra_pull_incremental ra repo local_head)) (\<lambda>res.
     seq (if ip_head_version res \<noteq> local_head \<and> ip_files res \<noteq> [] then apply_entries env (ip_files res) else (\<lambda>s. (Inr ([], []), s))) (\<lambda>(updated, removed).
     seq (ask (ra_get_manifest ra repo)) (\<lambda>manifest.
     seq (\<lambda>s. restore_entries ra repo updated (collect_local_hashes env (ss_disk s)) (mr_files manifest) s) (\<lambda>restored.
     let new = ip_head_version res
     in seq (finish_pull env ra repo local_head new) (\<lambda>_ s.
          (Inr \<lparr>pl_previous_version = local_head, pl_new_version = new, pl_files_updated = updated, pl_files_removed = removed,
                pl_files_restored = sort restored,
                pl_already_up_to_date = (updated = [] \<and> removed = [] \<and> restored = [] \<and> new = local_head), pl_force = False\<rparr>, s)))))))"

definition check_count :: "nat option \<Rightarrow> nat \<Rightarrow> 's \<Rightarrow> (RemoteError, unit) result \<times> 's" where
  "check_count expected received s =
     (case expected of
        Some n \<Rightarrow> if received \<noteq> n then (Inl (RePartialDownload received n), s) else (Inr (), s)
      | None \<Rightarrow> (Inr (), s))"

definition replace_tree ::
  "('a) remote_env_scheme \<Rightarrow> bytes \<Rightarrow> string list \<Rightarrow> 'r session_state \<Rightarrow> (RemoteError, string list \<times> string list) result \<times> 'r session_state" where
  "replace_tree env gz server_paths s =
     (case remove_stale_local_files (set server_paths) (ss_disk s) of (removed, d) \<Rightarrow>
        (case extract_tarball env gz d of
           (Inl e, d') \<Rightarrow> (Inl e, s\<lparr>ss_disk := d'\<rparr>)
         | (Inr written, d') \<Rightarrow> (Inr (removed, written), s\<lparr>ss_disk := d'\<rparr>)))"

definition head_or_default :: "'r session_state \<Rightarrow> string" where
  "head_or_default s = (case read_local_head s of (Inr h, _) \<Rightarrow> h | (Inl _, _) \<Rightarrow> [])"

definition session_pull_force ::
  "('a) remote_env_scheme \<Rightarrow> 'r adapter \<Rightarrow> string \<Rightarrow> 'r session_state \<Rightarrow> (RemoteError, PullOutcome) result \<times> 'r session_state" where
  "session_pull_force env ra repo s0 =
     seq (ask (ra_download_full ra repo)) (\<lambda>dl.
     seq (\<lambda>s. (tarball_paths env (dl_tarball_gz dl), s)) (\<lambda>server_paths.
     seq (check_count (dl_expected_file_count dl) (length server_paths)) (\<lambda>_.
     seq (replace_tree env (dl_tarball_gz dl) server_paths) (\<lambda>(removed, written).
     seq (if dl_head_version dl \<noteq> ''unknown'' then write_head (dl_head_version dl) else (\<lambda>s. (Inr (), s))) (\<lambda>_.
     seq (write_version_metas env ra repo 0) (\<lambda>_ s.
       (Inr \<lparr>pl_previous_version = head_or_default s0, pl_new_version = dl_head_version dl, pl_files_updated = written,
             pl_files_removed = removed, pl_files_restored = [], pl_already_up_to_date = False, pl_force = True\<rparr>, s))))))) s0"

subsection \<open>Sync\<close>

fun changes_of_versions ::
  "'r adapter \<Rightarrow> string \<Rightarrow> string list \<Rightarrow> (string \<times> ChangeKind) list \<Rightarrow> 'r session_state \<Rightarrow>
   (RemoteError, (string \<times> ChangeKind) list) result \<times> 'r session_state" where
  "changes_of_versions ra repo [] changes s = (Inr changes, s)"
| "changes_of_versions ra repo (v # vs) changes s =
     seq (ask (ra_get_version_changes ra repo v)) (\<lambda>fcs.
       changes_of_versions ra repo vs (fold (\<lambda>fc. AList.update (rc_path fc) (rc_change fc)) fcs changes)) s"

fun download_all :: "'r adapter \<Rightarrow> string \<Rightarrow> string list \<Rightarrow> 'r session_state \<Rightarrow> (RemoteError, unit) result \<times> 'r session_state" where
  "download_all ra repo [] s = (Inr (), s)"
| "download_all ra repo (p # ps) s =
     seq (ask (ra_download_file ra repo p)) (\<lambda>c s'. download_all ra repo ps (put_file p c s')) s"

fun extract_intent_lines :: "string list \<Rightarrow> string" where
  "extract_intent_lines [] = []"
| "extract_intent_lines (l # ls) =
     (case strip_prefix ''intent'' (trim l) of
        None \<Rightarrow> extract_intent_lines ls
      | Some rest \<Rightarrow>
          (case strip_prefix ''='' (dropWhile is_ws rest) of
             None \<Rightarrow> extract_intent_lines ls
           | Some r \<Rightarrow> trim_end_matches (CHR 0x22) (dropWhile (\<lambda>c. c = CHR 0x22) (trim r))))"

definition extract_intent_from_toml :: "string \<Rightarrow> string" where
  "extract_intent_from_toml raw = extract_intent_lines (str_lines raw)"

definition collect_overlay_paths :: "string \<Rightarrow> disk \<Rightarrow> string list" where
  "collect_overlay_paths i d = map forward_slashes (List.map_filter (strip_prefix (overlay_dir i @ ''/'')) (map fst d))"

definition detect_workspace_conflicts :: "ver_dir option \<Rightarrow> disk \<Rightarrow> string set \<Rightarrow> WorkspaceConflict list" where
  "detect_workspace_conflicts vai d changed =
     (case vai of
        None \<Rightarrow> []
      | Some v \<Rightarrow>
          (case active_file v of
             None \<Rightarrow> []
           | Some a \<Rightarrow>
               (let i = trim a
                in if i = [] then []
                   else case map_of (ws_dirs v) i of
                          None \<Rightarrow> []
                        | Some w \<Rightarrow>
                            (case meta_toml w of
                               None \<Rightarrow> []
                             | Some raw \<Rightarrow>
                                 map (\<lambda>p. \<lparr>wc_path = p, wc_workspace_intent = extract_intent_from_toml raw\<rparr>)
                                   (filter (\<lambda>p. p \<in> changed) (collect_overlay_paths i d))))))"

fun after_version :: "string \<Rightarrow> string list \<Rightarrow> string list option" where
  "after_version v [] = None"
| "after_version v (x # xs) = (if x = v then Some xs else after_version v xs)"

definition paths_with :: "(ChangeKind \<Rightarrow> bool) \<Rightarrow> (string \<times> ChangeKind) list \<Rightarrow> string list" where
  "paths_with P changes = sort (map fst (filter (\<lambda>(p, k). P k) changes))"

definition session_sync ::
  "'r adapter \<Rightarrow> string \<Rightarrow> 'r session_state \<Rightarrow> (RemoteError, SyncOutcome) result \<times> 'r session_state" where
  "session_sync ra repo =
     seq read_local_head (\<lambda>local_head.
     seq (ask (ra_get_server_head ra repo)) (\<lambda>server_head.
     if local_head = server_head
     then (\<lambda>s. (Inr \<lparr>sy_previous_version = local_head, sy_new_version = local_head, sy_files_updated = [], sy_files_removed = [],
                    sy_already_up_to_date = True, sy_workspace_conflicts = []\<rparr>, s))
     else
       seq (ask (ra_list_versions ra repo)) (\<lambda>versions.
       case after_version local_head versions of
         None \<Rightarrow> (\<lambda>s. (Inl ReLocalVersionNotFound, s))
       | Some new_versions \<Rightarrow>
           seq (changes_of_versions ra repo new_versions []) (\<lambda>changes.
           let to_download = paths_with (\<lambda>k. k \<noteq> CkRemoved) changes;
               to_remove = paths_with (\<lambda>k. k = CkRemoved) changes
           in seq (download_all ra repo to_download) (\<lambda>_.
              seq (\<lambda>s. write_head server_head (fold delete_local to_remove s)) (\<lambda>_ s.
                (Inr \<lparr>sy_previous_version = local_head, sy_new_version = server_head, sy_files_updated = to_download,
                      sy_files_removed = to_remove, sy_already_up_to_date = False,
                      sy_workspace_conflicts = detect_workspace_conflicts (ss_vai s) (ss_disk s) (set to_download \<union> set to_remove)\<rparr>, s)))))))"

section \<open>Building a session\<close>

text \<open>\<open>read_config\<close> and \<open>load_api_key\<close> are given by their results; \<open>http\<close> is \<open>HttpAdapter::new\<close>.\<close>

record RemoteConfig =
  rcfg_url :: string
  rcfg_repo_name :: "string option"

record RepoConfig =
  cfg_name :: string
  cfg_remote :: "RemoteConfig option"

record 'r Builder =
  bu_server_url :: "string option"
  bu_api_key :: "string option"
  bu_repo_name :: "string option"
  bu_adapter :: "'r adapter option"

definition session_builder :: "'r Builder" where
  "session_builder = \<lparr>bu_server_url = None, bu_api_key = None, bu_repo_name = None, bu_adapter = None\<rparr>"

definition session_open :: "(string, RepoConfig) result \<Rightarrow> (string, string) result \<Rightarrow> (RemoteError, 'r Builder) result" where
  "session_open config api_key =
     bind_result (map_err ReConfig config) (\<lambda>c.
     bind_result (case cfg_remote c of None \<Rightarrow> Inl ReNoRemote | Some r \<Rightarrow> Inr r) (\<lambda>r.
     bind_result (map_err (\<lambda>e. ReConfig (''credentials error: '' @ e)) api_key) (\<lambda>k.
       Inr \<lparr>bu_server_url = Some (rcfg_url r), bu_api_key = Some k,
            bu_repo_name = Some (case rcfg_repo_name r of Some n \<Rightarrow> n | None \<Rightarrow> cfg_name c), bu_adapter = None\<rparr>)))"

definition session_build :: "(string \<Rightarrow> string \<Rightarrow> 'r adapter) \<Rightarrow> 'r Builder \<Rightarrow> (RemoteError, 'r adapter \<times> string) result" where
  "session_build http b =
     (case bu_repo_name b of
        None \<Rightarrow> Inl ReMissingRepo
      | Some repo \<Rightarrow>
          (case bu_adapter b of
             Some a \<Rightarrow> Inr (a, repo)
           | None \<Rightarrow>
               (case bu_server_url b of
                  None \<Rightarrow> Inl ReNoRemote
                | Some url \<Rightarrow> (case bu_api_key b of None \<Rightarrow> Inl ReMissingKey | Some key \<Rightarrow> Inr (http url key, repo)))))"

section \<open>The in-memory remote\<close>

record VersionRecord =
  vr_version_id :: string
  vr_changes :: "(string \<times> ChangeKind) list"

record InnerState =
  is_files :: "(string \<times> bytes) list"
  is_versions :: "VersionRecord list"
  is_force_merge_conflict :: bool
  is_force_upload_failure :: bool
  is_submitted_messages :: "string list"
  is_last_uploaded_paths :: "string list"

definition mem_new :: InnerState where
  "mem_new = \<lparr>is_files = [], is_versions = [], is_force_merge_conflict = False, is_force_upload_failure = False,
     is_submitted_messages = [], is_last_uploaded_paths = []\<rparr>"

definition seed_file :: "string \<Rightarrow> bytes \<Rightarrow> InnerState \<Rightarrow> InnerState" where
  "seed_file p c st = st\<lparr>is_files := AList.update p c (is_files st)\<rparr>"

definition seed_version :: "string \<Rightarrow> (string \<times> ChangeKind) list \<Rightarrow> InnerState \<Rightarrow> InnerState" where
  "seed_version v cs st = st\<lparr>is_versions := is_versions st @ [\<lparr>vr_version_id = v, vr_changes = cs\<rparr>]\<rparr>"

definition current_head :: "InnerState \<Rightarrow> string" where
  "current_head st = (if is_versions st = [] then [] else vr_version_id (last (is_versions st)))"

definition mem_get_manifest :: "('a) remote_env_scheme \<Rightarrow> InnerState \<Rightarrow> (RemoteError, ManifestResult) result \<times> InnerState" where
  "mem_get_manifest env st =
     (Inr \<lparr>mr_version = current_head st, mr_files = map (\<lambda>(p, c). \<lparr>me_path = p, me_sha256 = sha256 env c\<rparr>) (is_files st)\<rparr>, st)"

text \<open>\<open>collect_tarball_paths\<close> skips what it cannot read.\<close>

definition collect_tarball_paths :: "('a) remote_env_scheme \<Rightarrow> bytes \<Rightarrow> string list" where
  "collect_tarball_paths env gz =
     map (\<lambda>e. forward_slashes (te_path e)) (filter (\<lambda>e. te_kind e = TarFile) (List.map_filter id (untar env gz)))"

definition mem_upload_snapshot :: "('a) remote_env_scheme \<Rightarrow> bytes \<Rightarrow> InnerState \<Rightarrow> (RemoteError, UploadStats) result \<times> InnerState" where
  "mem_upload_snapshot env gz st =
     (if is_force_upload_failure st then (Inl (ReServer ''forced upload failure''), st)
      else let paths = collect_tarball_paths env gz
           in (Inr \<lparr>us_added = length paths, us_modified = 0, us_deleted = 0\<rparr>, st\<lparr>is_last_uploaded_paths := paths\<rparr>))"

definition mem_submit_workspace :: "InnerState \<Rightarrow> (RemoteError, RemoteSubmitResult) result \<times> InnerState" where
  "mem_submit_workspace st =
     (if is_force_merge_conflict st then (Inl (ReMergeConflict ''forced conflict''), st)
      else let v = ''v'' @ nat_to_string (length (is_versions st) + 1)
           in (Inr \<lparr>rs_version = v, rs_files_applied = length (is_last_uploaded_paths st)\<rparr>, seed_version v [] st))"

definition mem_pull_entry :: "('a) remote_env_scheme \<Rightarrow> InnerState \<Rightarrow> string \<times> ChangeKind \<Rightarrow> FilePullEntry" where
  "mem_pull_entry env st change =
     \<lparr>fp_path = fst change, fp_change = snd change,
      fp_content_base64 = (if snd change \<noteq> CkRemoved then map_option (b64_encode env) (map_of (is_files st) (fst change)) else None)\<rparr>"

fun records_after :: "string \<Rightarrow> VersionRecord list \<Rightarrow> VersionRecord list option" where
  "records_after v [] = None"
| "records_after v (x # xs) = (if vr_version_id x = v then Some xs else records_after v xs)"

definition mem_pull_incremental ::
  "('a) remote_env_scheme \<Rightarrow> string \<Rightarrow> InnerState \<Rightarrow> (RemoteError, IncrementalPullResult) result \<times> InnerState" where
  "mem_pull_incremental env since st =
     (if since = current_head st then (Inr \<lparr>ip_base_version = since, ip_head_version = current_head st, ip_files = []\<rparr>, st)
      else case records_after since (is_versions st) of
             None \<Rightarrow> (Inl (ReServer (''version '' @ [CHR 0x27] @ since @ [CHR 0x27] @ '' not found'')), st)
           | Some rs \<Rightarrow> (Inr \<lparr>ip_base_version = since, ip_head_version = current_head st,
                              ip_files = map (mem_pull_entry env st) (concat (map vr_changes rs))\<rparr>, st))"

definition mem_download_full :: "('a) remote_env_scheme \<Rightarrow> InnerState \<Rightarrow> (RemoteError, FullDownload) result \<times> InnerState" where
  "mem_download_full env st =
     (Inr \<lparr>dl_head_version = current_head st,
           dl_tarball_gz = tar_gz env (map (\<lambda>(p, c). \<lparr>te_kind = TarFile, te_path = p, te_data = c\<rparr>) (is_files st)),
           dl_expected_file_count = Some (length (is_files st))\<rparr>, st)"

definition mem_get_version_changes :: "string \<Rightarrow> InnerState \<Rightarrow> (RemoteError, RemoteFileChange list) result \<times> InnerState" where
  "mem_get_version_changes v st =
     (case find (\<lambda>x. vr_version_id x = v) (is_versions st) of
        Some r \<Rightarrow> (Inr (map (\<lambda>(p, k). \<lparr>rc_path = p, rc_change = k\<rparr>) (vr_changes r)), st)
      | None \<Rightarrow> (Inl (ReServer (''version '' @ [CHR 0x27] @ v @ [CHR 0x27] @ '' not found'')), st))"

definition mem_download_file :: "string \<Rightarrow> InnerState \<Rightarrow> (RemoteError, bytes) result \<times> InnerState" where
  "mem_download_file p st =
     (case map_of (is_files st) p of
        Some c \<Rightarrow> (Inr c, st)
      | None \<Rightarrow> (Inl (ReServer (''file '' @ [CHR 0x27] @ p @ [CHR 0x27] @ '' not found'')), st))"

definition mem_fetch_versions_since :: "time \<Rightarrow> nat \<Rightarrow> InnerState \<Rightarrow> (RemoteError, RemoteVersionMeta list) result \<times> InnerState" where
  "mem_fetch_versions_since now since st =
     (Inr (map (\<lambda>v. \<lparr>rv_version_id = vr_version_id v, rv_parent_version_id = None, rv_intent = [], rv_created_by = ''unknown'',
                    rv_created_at = now, rv_merge_event_id = None\<rparr>)
            (filter (\<lambda>v. since < parse_version_num_str (vr_version_id v)) (is_versions st))), st)"

text \<open>\<open>fresh\<close> is the identifier drawn by \<open>create_workspace\<close>; the repository name is ignored.\<close>

definition InMemoryAdapter :: "('a) remote_env_scheme \<Rightarrow> uuid \<Rightarrow> time \<Rightarrow> InnerState adapter" where
  "InMemoryAdapter env fresh now =
     \<lparr>ra_get_manifest = (\<lambda>_. mem_get_manifest env), ra_create_workspace = (\<lambda>_ _ st. (Inr (uuid_to_string env fresh), st)),
      ra_upload_snapshot = (\<lambda>_ _. mem_upload_snapshot env), ra_submit_workspace = (\<lambda>_ _. mem_submit_workspace),
      ra_pull_incremental = (\<lambda>_. mem_pull_incremental env), ra_download_full = (\<lambda>_. mem_download_full env),
      ra_get_server_head = (\<lambda>_ st. (Inr (current_head st), st)),
      ra_list_versions = (\<lambda>_ st. (Inr (map vr_version_id (is_versions st)), st)),
      ra_get_version_changes = (\<lambda>_. mem_get_version_changes), ra_download_file = (\<lambda>_. mem_download_file),
      ra_fetch_versions_since = (\<lambda>_. mem_fetch_versions_since now)\<rparr>"

end
