(* ===== verification/Remote_Laws.thy ===== *)
theory Remote_Laws
  imports Remote
begin

text \<open>
  What push, pull, forced pull and sync do to the working tree. The locale \<open>remote_reads\<close> states what the
  client relies on when it reads from a remote; it is interpreted on the in-memory remote.
\<close>

section \<open>Working trees\<close>

definition wf_tree :: "disk \<Rightarrow> bool" where
  "wf_tree d \<longleftrightarrow> distinct (map fst d) \<and> (\<forall>p\<in>set (map fst d). clean_path p)"

lemma wf_tree_update: "wf_tree d \<Longrightarrow> clean_path p \<Longrightarrow> wf_tree (AList.update p c d)"
  by (auto simp: wf_tree_def distinct_update AList.update_keys dom_update)

lemma wf_tree_delete: "wf_tree d \<Longrightarrow> wf_tree (AList.delete p d)"
  by (auto simp: wf_tree_def AList.delete_keys intro: distinct_removeAll)

lemma hashes_fold:
  "wf_tree d \<Longrightarrow>
   map_of (fold (\<lambda>(p, c) m. if tracked p \<and> rel_str p \<noteq> [] then AList.update (rel_str p) (sha256 env c) m else m) d m) q =
     (case (if tracked q then map_of d q else None) of Some c \<Rightarrow> Some (sha256 env c) | None \<Rightarrow> map_of m q)"
proof (induction d arbitrary: m)
  case (Cons x d)
  obtain p c where x: "x = (p, c)" by force
  with Cons.prems have p: "clean_path p" "p \<notin> set (map fst d)" and wf: "wf_tree d" by (auto simp: wf_tree_def)
  from p(2) have none: "map_of d p = None" by (simp add: map_of_eq_None_iff)
  show ?case unfolding x
    using Cons.IH [OF wf] p(1) clean_nonempty [OF p(1)] none
    by (auto simp: update_conv' split: option.splits)
qed simp

lemma local_hashes:
  "wf_tree d \<Longrightarrow> map_of (collect_local_hashes env d) p = (if tracked p then map_option (sha256 env) (map_of d p) else None)"
  unfolding collect_local_hashes_def by (subst hashes_fold) (auto split: option.splits)

lemma local_hashes_distinct: "distinct (map fst (collect_local_hashes env d))"
proof -
  have "distinct (map fst m) \<Longrightarrow> distinct (map fst (fold (\<lambda>(p, c) m. if tracked p \<and> rel_str p \<noteq> [] then AList.update (rel_str p) (sha256 env c) m else m) d m))" for m
    by (induction d arbitrary: m) (auto simp: distinct_update)
  then show ?thesis by (simp add: collect_local_hashes_def)
qed

lemma local_hashes_mem: "wf_tree d \<Longrightarrow> (p, h) \<in> set (collect_local_hashes env d) \<longleftrightarrow> tracked p \<and> (\<exists>c. map_of d p = Some c \<and> h = sha256 env c)"
  using map_of_eq_Some_iff [OF local_hashes_distinct, of env d p h] local_hashes [of d env p] by (auto split: if_splits)

section \<open>Steps of a session\<close>

lemma ask_Inr: "call (ss_remote s) = (Inr a, ss_remote s) \<Longrightarrow> ask call s = (Inr a, s)"
  by (simp add: ask_def)

lemma put_file_disk: "put_file p c s = s\<lparr>ss_disk := AList.update p c (ss_disk s)\<rparr>"
  by (simp add: put_file_def)

lemma remove_files: "fold delete_local ps s = s\<lparr>ss_disk := fold AList.delete ps (ss_disk s)\<rparr>"
  by (induction ps arbitrary: s) (simp_all add: delete_local_def)

lemma delete_all: "map_of (fold AList.delete ps d) p = (if p \<in> set ps then None else map_of d p)"
  by (induction ps arbitrary: d) (auto simp: AList.delete_conv')

lemma wf_delete_all: "wf_tree d \<Longrightarrow> wf_tree (fold AList.delete ps d)"
  by (induction ps arbitrary: d) (auto intro: wf_tree_delete)

lemma write_version_metas_ok:
  assumes "ra_fetch_versions_since ra repo n (ss_remote s) = (Inr ms, ss_remote s)" "ss_vai s = Some v"
  shows "\<exists>v'. write_version_metas env ra repo n s = (Inr (), s\<lparr>ss_vai := Some v'\<rparr>) \<and> head_file v' = head_file v"
proof -
  have a: "ask (ra_fetch_versions_since ra repo n) s = (Inr ms, s)" by (rule ask_Inr) (rule assms(1))
  show ?thesis
  proof (cases "ms = []")
    case True
    with assms(2) show ?thesis by (intro exI [of _ v]) (simp add: write_version_metas_def seq_def a)
  qed (use assms(2) in \<open>auto simp: write_version_metas_def seq_def a\<close>)
qed

lemma write_entries_ok:
  assumes "\<And>c. b64_decode env (b64_encode env c) = Some c"
    and "\<forall>e\<in>set es. fp_content_base64 e = map_option (b64_encode env) (F (fp_path e)) \<and> clean_path (fp_path e)"
    and "wf_tree (ss_disk s)"
  shows "\<exists>d. write_entries env es s = (Inr (map fp_path (filter (\<lambda>e. F (fp_path e) \<noteq> None) es)), s\<lparr>ss_disk := d\<rparr>) \<and> wf_tree d \<and>
    (\<forall>p. map_of d p = (if p \<in> fp_path ` set es \<and> F p \<noteq> None then F p else map_of (ss_disk s) p))"
  using assms(2,3)
proof (induction es arbitrary: s)
  case Nil
  then show ?case by (intro exI [of _ "ss_disk s"]) simp
next
  case (Cons e es)
  from Cons.prems(1) have es: "\<forall>e\<in>set es. fp_content_base64 e = map_option (b64_encode env) (F (fp_path e)) \<and> clean_path (fp_path e)"
    and e: "fp_content_base64 e = map_option (b64_encode env) (F (fp_path e))" "clean_path (fp_path e)" by simp_all
  show ?case
  proof (cases "F (fp_path e)")
    case None
    with e Cons.IH [OF es Cons.prems(2)] show ?thesis by auto
  next
    case (Some c)
    let ?s = "put_file (fp_path e) c s"
    have "wf_tree (ss_disk ?s)" using Cons.prems e by (simp add: put_file_def wf_tree_update)
    from Cons.IH [OF es this] obtain d where d: "write_entries env es ?s = (Inr (map fp_path (filter (\<lambda>e. F (fp_path e) \<noteq> None) es)), ?s\<lparr>ss_disk := d\<rparr>)"
      "wf_tree d" "\<forall>p. map_of d p = (if p \<in> fp_path ` set es \<and> F p \<noteq> None then F p else map_of (ss_disk ?s) p)" by blast
    have "write_entries env (e # es) s = (Inr (map fp_path (filter (\<lambda>e. F (fp_path e) \<noteq> None) (e # es))), s\<lparr>ss_disk := d\<rparr>)"
      using e(1) Some d(1) assms(1) by (simp add: seq_def put_file_def)
    moreover have "\<forall>p. map_of d p = (if p \<in> fp_path ` set (e # es) \<and> F p \<noteq> None then F p else map_of (ss_disk s) p)"
      using Some d(3) by (auto simp: put_file_def update_conv')
    ultimately show ?thesis using d(2) by blast
  qed
qed

lemma restore_entries_ok:
  assumes "\<forall>e\<in>set es. clean_path (me_path e) \<and> (\<exists>c. F (me_path e) = Some c \<and> ra_download_file ra repo (me_path e) (ss_remote s) = (Inr c, ss_remote s))"
    and "wf_tree (ss_disk s)"
  shows "\<exists>d. restore_entries ra repo updated local es s =
      (Inr (filter (\<lambda>p. p \<notin> set updated \<and> map_of local p = None) (map me_path es)), s\<lparr>ss_disk := d\<rparr>) \<and> wf_tree d \<and>
    (\<forall>p. map_of d p = (if p \<in> me_path ` set es \<and> p \<notin> set updated \<and> map_of local p = None then F p else map_of (ss_disk s) p))"
  using assms
proof (induction es arbitrary: s)
  case Nil
  then show ?case by (intro exI [of _ "ss_disk s"]) simp
next
  case (Cons e es)
  from Cons.prems(1) have es: "\<forall>e\<in>set es. clean_path (me_path e) \<and> (\<exists>c. F (me_path e) = Some c \<and> ra_download_file ra repo (me_path e) (ss_remote s) = (Inr c, ss_remote s))" by simp
  show ?case
  proof (cases "me_path e \<in> set updated \<or> map_of local (me_path e) \<noteq> None")
    case True
    with Cons.IH [OF es Cons.prems(2)] show ?thesis by auto
  next
    case False
    from Cons.prems(1) obtain c where c: "F (me_path e) = Some c" "ra_download_file ra repo (me_path e) (ss_remote s) = (Inr c, ss_remote s)" "clean_path (me_path e)" by auto
    let ?s = "put_file (me_path e) c s"
    have wf: "wf_tree (ss_disk ?s)" using Cons.prems c by (simp add: put_file_def wf_tree_update)
    from es have "\<forall>e\<in>set es. clean_path (me_path e) \<and> (\<exists>c. F (me_path e) = Some c \<and> ra_download_file ra repo (me_path e) (ss_remote ?s) = (Inr c, ss_remote ?s))" by (simp add: put_file_def)
    from Cons.IH [OF this wf] obtain d where d: "restore_entries ra repo updated local es ?s =
      (Inr (filter (\<lambda>p. p \<notin> set updated \<and> map_of local p = None) (map me_path es)), ?s\<lparr>ss_disk := d\<rparr>)" "wf_tree d"
      "\<forall>p. map_of d p = (if p \<in> me_path ` set es \<and> p \<notin> set updated \<and> map_of local p = None then F p else map_of (ss_disk ?s) p)" by blast
    have "restore_entries ra repo updated local (e # es) s =
        (Inr (filter (\<lambda>p. p \<notin> set updated \<and> map_of local p = None) (map me_path (e # es))), s\<lparr>ss_disk := d\<rparr>)"
      using False d(1) c(2) by (simp add: seq_def ask_def put_file_def)
    moreover have "\<forall>p. map_of d p = (if p \<in> me_path ` set (e # es) \<and> p \<notin> set updated \<and> map_of local p = None then F p else map_of (ss_disk s) p)"
      using False c(1) d(3) by (auto simp: put_file_def update_conv')
    ultimately show ?thesis using d(2) by blast
  qed
qed

section \<open>What the client relies on\<close>

text \<open>
  A remote in a state of \<open>ok\<close> holds the files \<open>files r\<close> at version \<open>head r\<close>; \<open>changed r v\<close> are the paths changed
  after version \<open>v\<close>. Reading does not change it. An incremental pull lists every changed path, with the current content of a
  path that exists and as removed one that does not.
\<close>

definition entry_ok :: "('a) remote_env_scheme \<Rightarrow> (string \<Rightarrow> bytes option) \<Rightarrow> FilePullEntry \<Rightarrow> bool" where
  "entry_ok env F e \<longleftrightarrow>
     (if fp_change e = CkRemoved then F (fp_path e) = None else fp_content_base64 e = map_option (b64_encode env) (F (fp_path e)))"

definition lists_changes :: "('a) remote_env_scheme \<Rightarrow> (string \<Rightarrow> bytes option) \<Rightarrow> string set \<Rightarrow> FilePullEntry list \<Rightarrow> bool" where
  "lists_changes env F P es \<longleftrightarrow>
     (\<forall>e\<in>set es. entry_ok env F e) \<and> fp_path ` set es = P \<and>
     (\<forall>p\<in>P. F p = None \<longrightarrow> (\<exists>e\<in>set es. fp_path e = p \<and> fp_change e = CkRemoved))"

definition lists_files :: "('a) remote_env_scheme \<Rightarrow> (string \<Rightarrow> bytes option) \<Rightarrow> ManifestEntry list \<Rightarrow> bool" where
  "lists_files env F es \<longleftrightarrow>
     distinct (map me_path es) \<and> (\<forall>e\<in>set es. F (me_path e) \<noteq> None \<and> me_sha256 e = sha256 env (the (F (me_path e)))) \<and>
     (\<forall>p. F p \<noteq> None \<longrightarrow> p \<in> me_path ` set es)"

lemma server_map_fold:
  "distinct (map me_path es) \<Longrightarrow>
   map_of (fold (\<lambda>e. AList.update (me_path e) (me_sha256 e)) es m) p =
     (case map_of (map (\<lambda>e. (me_path e, me_sha256 e)) es) p of Some h \<Rightarrow> Some h | None \<Rightarrow> map_of m p)"
proof (induction es arbitrary: m)
  case (Cons e es)
  then have "map_of (map (\<lambda>e. (me_path e, me_sha256 e)) es) (me_path e) = None" by (auto simp: map_of_eq_None_iff)
  with Cons show ?case by (auto simp: update_conv' split: option.splits)
qed simp

lemma server_map:
  assumes "lists_files env F (mr_files m)"
  shows "map_of (server_map_of m) p = map_option (sha256 env) (F p)"
proof (cases "F p")
  case None
  with assms have "p \<notin> me_path ` set (mr_files m)" by (auto simp: lists_files_def)
  then have "map_of (map (\<lambda>e. (me_path e, me_sha256 e)) (mr_files m)) p = None" by (auto simp: map_of_eq_None_iff)
  with None show ?thesis using assms by (simp add: server_map_of_def lists_files_def server_map_fold)
next
  case (Some c)
  with assms obtain e where e: "e \<in> set (mr_files m)" "me_path e = p" "me_sha256 e = sha256 env c" by (force simp: lists_files_def)
  have "distinct (map fst (map (\<lambda>e. (me_path e, me_sha256 e)) (mr_files m)))" using assms by (simp add: lists_files_def o_def)
  from map_of_is_SomeI [OF this, of p "sha256 env c"] e have "map_of (map (\<lambda>e. (me_path e, me_sha256 e)) (mr_files m)) p = Some (sha256 env c)" by force
  with Some show ?thesis using assms by (simp add: server_map_of_def lists_files_def server_map_fold)
qed

text \<open>The tree after a pull: server content where the path changed, otherwise the local file if it is tracked
  and there, otherwise the file of the server.\<close>

definition pulled :: "(string \<Rightarrow> bytes option) \<Rightarrow> string set \<Rightarrow> disk \<Rightarrow> string \<Rightarrow> bytes option" where
  "pulled F P d p =
     (if p \<in> P then F p else if tracked p \<and> map_of d p \<noteq> None then map_of d p
      else case F p of Some c \<Rightarrow> Some c | None \<Rightarrow> map_of d p)"

locale remote_reads =
  fixes env :: "('a) remote_env_scheme" and ra :: "'r adapter" and repo :: string
    and files :: "'r \<Rightarrow> string \<Rightarrow> bytes option" and head :: "'r \<Rightarrow> string"
    and changed :: "'r \<Rightarrow> string \<Rightarrow> string set option" and ok :: "'r \<Rightarrow> bool"
  assumes b64: "ok r \<Longrightarrow> b64_decode env (b64_encode env c) = Some c"
    and files_clean: "ok r \<Longrightarrow> files r p \<noteq> None \<Longrightarrow> clean_path p"
    and changed_clean: "ok r \<Longrightarrow> changed r v = Some P \<Longrightarrow> p \<in> P \<Longrightarrow> clean_path p"
    and changed_head: "ok r \<Longrightarrow> changed r (head r) = Some {}"
    and manifest: "ok r \<Longrightarrow> \<exists>m. ra_get_manifest ra repo r = (Inr m, r) \<and> mr_version m = head r \<and> lists_files env (files r) (mr_files m)"
    and pull: "ok r \<Longrightarrow> changed r v = Some P \<Longrightarrow>
      \<exists>res. ra_pull_incremental ra repo v r = (Inr res, r) \<and> ip_head_version res = head r \<and> lists_changes env (files r) P (ip_files res)"
    and download: "ok r \<Longrightarrow> files r p = Some c \<Longrightarrow> ra_download_file ra repo p r = (Inr c, r)"
    and fetch: "ok r \<Longrightarrow> \<exists>ms. ra_fetch_versions_since ra repo n r = (Inr ms, r)"
begin

lemma apply_entries_ok:
  assumes "ok r" "changed r v = Some P" "lists_changes env (files r) P es" "wf_tree (ss_disk s)"
  shows "\<exists>d updated removed. apply_entries env es s = (Inr (updated, removed), s\<lparr>ss_disk := d\<rparr>) \<and> wf_tree d \<and>
    set updated = {p \<in> P. files r p \<noteq> None} \<and> (\<forall>p. map_of d p = (if p \<in> P then files r p else map_of (ss_disk s) p))"
proof -
  let ?w = "filter (\<lambda>e. fp_change e \<noteq> CkRemoved) es" and ?x = "map fp_path (filter (\<lambda>e. fp_change e = CkRemoved) es)"
  have es: "\<forall>e\<in>set es. entry_ok env (files r) e" "fp_path ` set es = P"
    "\<forall>p\<in>P. files r p = None \<longrightarrow> (\<exists>e\<in>set es. fp_path e = p \<and> fp_change e = CkRemoved)"
    using assms(3) by (simp_all add: lists_changes_def)
  have "\<forall>e\<in>set ?w. fp_content_base64 e = map_option (b64_encode env) (files r (fp_path e)) \<and> clean_path (fp_path e)"
    using es(1,2) changed_clean [OF assms(1,2)] by (auto simp: entry_ok_def)
  from write_entries_ok [OF b64 [OF assms(1)] this assms(4)] obtain d where
    d: "write_entries env ?w s = (Inr (map fp_path (filter (\<lambda>e. files r (fp_path e) \<noteq> None) ?w)), s\<lparr>ss_disk := d\<rparr>)" "wf_tree d"
      "\<forall>p. map_of d p = (if p \<in> fp_path ` set ?w \<and> files r p \<noteq> None then files r p else map_of (ss_disk s) p)" by blast
  have "{p \<in> P. files r p = None} \<subseteq> set ?x" using es(3) by (auto 0 3)
  then have x: "set ?x = {p \<in> P. files r p = None}" using es(1,2) by (auto simp: entry_ok_def)
  have w: "fp_path ` {e \<in> set ?w. files r (fp_path e) \<noteq> None} = {p \<in> P. files r p \<noteq> None}"
    using es(1,2) by (force simp: entry_ok_def)
  have "map_of (fold AList.delete ?x d) p = (if p \<in> P then files r p else map_of (ss_disk s) p)" for p
  proof (cases "files r p = None")
    case True
    then show ?thesis unfolding delete_all x using d(3) by auto
  next
    case False
    then have "p \<in> fp_path ` set ?w \<longleftrightarrow> p \<in> P" using w by blast
    with False show ?thesis unfolding delete_all x using d(3) by auto
  qed
  moreover have "set (map fp_path (filter (\<lambda>e. files r (fp_path e) \<noteq> None) ?w)) = {p \<in> P. files r p \<noteq> None}"
    using w by simp
  moreover have "apply_entries env es s = (Inr (map fp_path (filter (\<lambda>e. files r (fp_path e) \<noteq> None) ?w), ?x), s\<lparr>ss_disk := fold AList.delete ?x d\<rparr>)"
    unfolding apply_entries_def Let_def remove_files by (simp add: seq_def d(1))
  ultimately show ?thesis using wf_delete_all [OF d(2)] by blast
qed

lemma finish_pull_ok:
  assumes "ok (ss_remote s)" "ss_vai s = Some v"
  shows "\<exists>v'. finish_pull env ra repo h new s = (Inr (), s\<lparr>ss_vai := Some v'\<rparr>) \<and>
    head_file v' = (if new = h then head_file v else Some (new @ [CHR 0x0A]))"
proof (cases "new = h")
  case True
  with assms(2) show ?thesis by (intro exI [of _ v]) (simp add: finish_pull_def)
next
  case False
  let ?v = "v\<lparr>head_file := Some (new @ [CHR 0x0A])\<rparr>"
  have w: "write_head new s = (Inr (), s\<lparr>ss_vai := Some ?v\<rparr>)" using assms(2) by (simp add: write_head_def)
  obtain ms where ms: "ra_fetch_versions_since ra repo (parse_version_num_str h) (ss_remote s) = (Inr ms, ss_remote s)"
    using fetch [OF assms(1)] by blast
  then obtain v' where "write_version_metas env ra repo (parse_version_num_str h) (s\<lparr>ss_vai := Some ?v\<rparr>) = (Inr (), s\<lparr>ss_vai := Some v'\<rparr>)" "head_file v' = head_file ?v"
    using write_version_metas_ok [of ra repo "parse_version_num_str h" "s\<lparr>ss_vai := Some ?v\<rparr>" ms ?v env] by auto
  with False show ?thesis by (auto simp: finish_pull_def w seq_def)
qed

lemma session_pull_ok:
  assumes "ok (ss_remote s)" "ss_vai s = Some v" "head_file v = Some h" "changed (ss_remote s) (trim h) = Some P" "wf_tree (ss_disk s)"
  shows "\<exists>out v' d. session_pull env ra repo s = (Inr out, s\<lparr>ss_disk := d, ss_vai := Some v'\<rparr>) \<and> wf_tree d \<and>
    head_file v' = (if head (ss_remote s) = trim h then Some h else Some (head (ss_remote s) @ [CHR 0x0A])) \<and>
    pl_new_version out = head (ss_remote s) \<and> (\<forall>p. map_of d p = pulled (files (ss_remote s)) P (ss_disk s) p)"
proof -
  let ?r = "ss_remote s" and ?F = "files (ss_remote s)"
  have h: "read_local_head s = (Inr (trim h), s)" using assms(2,3) by (simp add: read_local_head_def)
  obtain res where res: "ra_pull_incremental ra repo (trim h) ?r = (Inr res, ?r)" "ip_head_version res = head ?r" "lists_changes env ?F P (ip_files res)"
    using pull [OF assms(1,4)] by blast
  let ?go = "ip_head_version res \<noteq> trim h \<and> ip_files res \<noteq> []"
  have idle: "P = {}" if "\<not> ?go"
    using that assms(4) changed_head [OF assms(1)] res(2,3) by (auto simp: lists_changes_def)
  have "\<exists>d updated removed. (if ?go then apply_entries env (ip_files res) else (\<lambda>s. (Inr ([], []), s))) s = (Inr (updated, removed), s\<lparr>ss_disk := d\<rparr>) \<and>
    wf_tree d \<and> set updated = {p \<in> P. ?F p \<noteq> None} \<and> (\<forall>p. map_of d p = (if p \<in> P then ?F p else map_of (ss_disk s) p))"
  proof (cases ?go)
    case True
    with apply_entries_ok [OF assms(1,4) res(3) assms(5)] show ?thesis by (simp only: simp_thms if_True)
  next
    case False
    with idle [OF False] assms(5) show ?thesis by (intro exI [of _ "ss_disk s"] exI [of _ "[]"]) auto
  qed
  then obtain d1 updated removed where
    d1: "(if ?go then apply_entries env (ip_files res) else (\<lambda>s. (Inr ([], []), s))) s = (Inr (updated, removed), s\<lparr>ss_disk := d1\<rparr>)"
      "wf_tree d1" "set updated = {p \<in> P. ?F p \<noteq> None}" "\<forall>p. map_of d1 p = (if p \<in> P then ?F p else map_of (ss_disk s) p)" by blast
  let ?s1 = "s\<lparr>ss_disk := d1\<rparr>" and ?l = "collect_local_hashes env d1"
  obtain m where m: "ra_get_manifest ra repo ?r = (Inr m, ?r)" "lists_files env ?F (mr_files m)" using manifest [OF assms(1)] by blast
  have "\<forall>e\<in>set (mr_files m). clean_path (me_path e) \<and> (\<exists>c. ?F (me_path e) = Some c \<and> ra_download_file ra repo (me_path e) (ss_remote ?s1) = (Inr c, ss_remote ?s1))"
    using m(2) files_clean [OF assms(1)] download [OF assms(1)] by (auto simp: lists_files_def)
  from restore_entries_ok [OF this, of updated ?l] d1(2) obtain d restored where
    d: "restore_entries ra repo updated ?l (mr_files m) ?s1 = (Inr restored, ?s1\<lparr>ss_disk := d\<rparr>)" "wf_tree d"
      "\<forall>p. map_of d p = (if p \<in> me_path ` set (mr_files m) \<and> p \<notin> set updated \<and> map_of ?l p = None then ?F p else map_of d1 p)" by auto
  have mf: "p \<in> me_path ` set (mr_files m) \<longleftrightarrow> ?F p \<noteq> None" for p using m(2) by (auto simp: lists_files_def)
  have tree: "map_of d p = pulled ?F P (ss_disk s) p" for p
    using d(3) d1(3,4) mf [of p] local_hashes [OF d1(2), of env p]
    by (auto simp: pulled_def split: if_splits option.splits)
  obtain v' where v': "finish_pull env ra repo (trim h) (head ?r) (s\<lparr>ss_disk := d\<rparr>) = (Inr (), s\<lparr>ss_disk := d, ss_vai := Some v'\<rparr>)"
    "head_file v' = (if head ?r = trim h then Some h else Some (head ?r @ [CHR 0x0A]))"
    using finish_pull_ok [of "s\<lparr>ss_disk := d\<rparr>" v "trim h" "head ?r"] assms(1-3) by auto
  have a1: "ask (ra_pull_incremental ra repo (trim h)) s = (Inr res, s)" by (rule ask_Inr) (rule res(1))
  have a2: "ask (ra_get_manifest ra repo) ?s1 = (Inr m, ?s1)" by (rule ask_Inr) (simp add: m(1))
  have a3: "(\<lambda>s. restore_entries ra repo updated (collect_local_hashes env (ss_disk s)) (mr_files m) s) ?s1 = (Inr restored, s\<lparr>ss_disk := d\<rparr>)"
    using d(1) by simp
  have "\<exists>out. session_pull env ra repo s = (Inr out, s\<lparr>ss_disk := d, ss_vai := Some v'\<rparr>) \<and> pl_new_version out = head ?r"
    unfolding session_pull_def
    by (simp only: seq_def h a1 d1(1) [unfolded res(2)] a2 a3 Let_def res(2) v'(1) prod.case sum.case) simp
  with d(2) v'(2) tree show ?thesis by blast
qed

lemma nothing_to_push:
  assumes "ok (ss_remote s)" "wf_tree (ss_disk s)" "\<And>p. tracked p \<Longrightarrow> map_of (ss_disk s) p = files (ss_remote s) p"
    "\<And>p. files (ss_remote s) p \<noteq> None \<Longrightarrow> tracked p"
  shows "session_push env ra repo now message dry_run force s = (Inl ReNothingToPush, s)"
proof -
  let ?F = "files (ss_remote s)" and ?l = "collect_local_hashes env (ss_disk s)"
  obtain m where m: "ra_get_manifest ra repo (ss_remote s) = (Inr m, ss_remote s)" "lists_files env ?F (mr_files m)" using manifest [OF assms(1)] by blast
  let ?v = "server_map_of m"
  have sv: "map_of ?v p = map_option (sha256 env) (?F p)" for p by (rule server_map [OF m(2)])
  have "modified_paths ?v ?l = []" "added_paths ?v ?l = []"
    using local_hashes_mem [OF assms(2), of _ _ env] assms(3) sv by (auto simp: modified_paths_def added_paths_def filter_empty_conv)
  moreover have "map_of ?l p \<noteq> None" if "p \<in> set (map fst ?v)" for p
    using that sv [of p] assms(3,4) [of p] local_hashes [OF assms(2), of env p] by (cases "?F p") (auto simp: map_of_eq_None_iff)
  then have "missing_paths ?v ?l = []" by (auto simp: missing_paths_def filter_empty_conv)
  moreover have "ask (ra_get_manifest ra repo) s = (Inr m, s)" by (rule ask_Inr) (rule m(1))
  ultimately show ?thesis by (simp add: session_push_def seq_def Let_def)
qed

lemma pull_then_nothing_to_push:
  assumes "ok (ss_remote s)" "ss_vai s = Some v" "head_file v = Some h" "changed (ss_remote s) (trim h) = Some P" "wf_tree (ss_disk s)"
    and "\<And>p. tracked p \<Longrightarrow> p \<notin> P \<Longrightarrow> map_of (ss_disk s) p \<noteq> None \<Longrightarrow> map_of (ss_disk s) p = files (ss_remote s) p"
    and "\<And>p. files (ss_remote s) p \<noteq> None \<Longrightarrow> tracked p"
  shows "\<exists>out s'. session_pull env ra repo s = (Inr out, s') \<and> ss_remote s' = ss_remote s \<and>
    session_push env ra repo now message dry_run force s' = (Inl ReNothingToPush, s') \<and>
    (\<forall>p. map_of (ss_disk s') p = (if tracked p then files (ss_remote s) p else if p \<in> P then None else map_of (ss_disk s) p))"
proof -
  obtain out v' d where o: "session_pull env ra repo s = (Inr out, s\<lparr>ss_disk := d, ss_vai := Some v'\<rparr>)" "wf_tree d"
    "\<forall>p. map_of d p = pulled (files (ss_remote s)) P (ss_disk s) p"
    using session_pull_ok [OF assms(1-5)] by blast
  let ?s = "s\<lparr>ss_disk := d, ss_vai := Some v'\<rparr>"
  have t: "map_of d p = (if tracked p then files (ss_remote s) p else if p \<in> P then None else map_of (ss_disk s) p)" for p
    using o(3) assms(6,7) [of p] by (auto simp: pulled_def split: option.splits)
  have "session_push env ra repo now message dry_run force ?s = (Inl ReNothingToPush, ?s)"
    using assms(1,7) o(2) t by (intro nothing_to_push) auto
  with o(1) t show ?thesis by auto
qed

end

section \<open>The in-memory remote\<close>

definition codecs_ok :: "('a) remote_env_scheme \<Rightarrow> bool" where
  "codecs_ok env \<longleftrightarrow> (\<forall>c. b64_decode env (b64_encode env c) = Some c) \<and> (\<forall>es. untar env (tar_gz env es) = map Some es)"

definition mem_history :: "InnerState \<Rightarrow> (string \<times> ChangeKind) list" where
  "mem_history st = concat (map vr_changes (is_versions st))"

text \<open>A history that agrees with the files: a removed path is absent, and the last change of an absent path is its removal.\<close>

definition mem_ok :: "('a) remote_env_scheme \<Rightarrow> InnerState \<Rightarrow> bool" where
  "mem_ok env st \<longleftrightarrow> codecs_ok env \<and> distinct (map fst (is_files st)) \<and> distinct (map vr_version_id (is_versions st)) \<and>
     (\<forall>p\<in>set (map fst (is_files st)). clean_path p) \<and>
     (\<forall>x\<in>set (mem_history st). clean_path (fst x) \<and> (snd x = CkRemoved \<longrightarrow> map_of (is_files st) (fst x) = None) \<and>
        (map_of (is_files st) (fst x) = None \<longrightarrow> map_of (rev (mem_history st)) (fst x) = Some CkRemoved))"

definition mem_changed :: "InnerState \<Rightarrow> string \<Rightarrow> string set option" where
  "mem_changed st v =
     (if v = current_head st then Some {}
      else map_option (\<lambda>rs. fst ` set (concat (map vr_changes rs))) (records_after v (is_versions st)))"

lemma records_after_suffix: "records_after v xs = Some rs \<Longrightarrow> \<exists>ys. xs = ys @ rs"
proof (induction xs)
  case (Cons x xs)
  show ?case
  proof (cases "vr_version_id x = v")
    case True
    with Cons.prems show ?thesis by (intro exI [of _ "[x]"]) simp
  next
    case False
    with Cons obtain ys where "xs = ys @ rs" by auto
    then show ?thesis by (intro exI [of _ "x # ys"]) simp
  qed
qed simp

lemma last_change_in_suffix: "p \<in> fst ` set zs \<Longrightarrow> map_of (rev (ys @ zs)) p = Some k \<Longrightarrow> (p, k) \<in> set zs"
proof -
  assume p: "p \<in> fst ` set zs" and k: "map_of (rev (ys @ zs)) p = Some k"
  from p have "map_of (rev zs) p \<noteq> None" by (simp add: map_of_eq_None_iff)
  with k have "map_of (rev zs) p = Some k" by (auto simp: map_add_def split: option.splits)
  then show ?thesis using map_of_SomeD by fastforce
qed

lemma mem_lists_changes:
  assumes "mem_ok env st" "records_after v (is_versions st) = Some rs"
  shows "lists_changes env (map_of (is_files st)) (fst ` set (concat (map vr_changes rs))) (map (mem_pull_entry env st) (concat (map vr_changes rs)))"
proof -
  let ?zs = "concat (map vr_changes rs)"
  obtain ys where ys: "is_versions st = ys @ rs" using records_after_suffix [OF assms(2)] by blast
  then have h: "mem_history st = concat (map vr_changes ys) @ ?zs" by (simp add: mem_history_def)
  have "\<exists>x\<in>set ?zs. fst x = p \<and> snd x = CkRemoved" if "p \<in> fst ` set ?zs" "map_of (is_files st) p = None" for p
  proof -
    have "map_of (rev (mem_history st)) p = Some CkRemoved" using that assms(1) h by (auto simp: mem_ok_def)
    from last_change_in_suffix [OF that(1) this [unfolded h]] show ?thesis by force
  qed
  moreover have "map_of (is_files st) (fst x) = None" if "x \<in> set ?zs" "snd x = CkRemoved" for x
    using that assms(1) h by (auto simp: mem_ok_def)
  ultimately show ?thesis
    by (auto simp: lists_changes_def entry_ok_def mem_pull_entry_def image_image)
qed

lemma mem_lists_files:
  assumes "mem_ok env st"
  shows "lists_files env (map_of (is_files st)) (map (\<lambda>(p, c). \<lparr>me_path = p, me_sha256 = sha256 env c\<rparr>) (is_files st))"
proof -
  have "distinct (map fst (is_files st))" using assms by (simp add: mem_ok_def)
  then have "map_of (is_files st) p = Some c" if "(p, c) \<in> set (is_files st)" for p c using that by simp
  moreover have "map me_path (map (\<lambda>(p, c). \<lparr>me_path = p, me_sha256 = sha256 env c\<rparr>) (is_files st)) = map fst (is_files st)" by auto
  moreover have "p \<in> me_path ` set (map (\<lambda>(p, c). \<lparr>me_path = p, me_sha256 = sha256 env c\<rparr>) (is_files st))" if "map_of (is_files st) p = Some c" for p c
    using map_of_SomeD [OF that] by force
  ultimately show ?thesis using assms by (auto simp: lists_files_def mem_ok_def simp del: map_map)
qed

interpretation inmem: remote_reads env "InMemoryAdapter env fresh now" repo "\<lambda>st. map_of (is_files st)" current_head mem_changed "mem_ok env"
proof unfold_locales
  fix st v P assume st: "mem_ok env st" and P: "mem_changed st v = Some P"
  show "\<exists>res. ra_pull_incremental (InMemoryAdapter env fresh now) repo v st = (Inr res, st) \<and>
      ip_head_version res = current_head st \<and> lists_changes env (map_of (is_files st)) P (ip_files res)"
  proof (cases "v = current_head st")
    case True
    with P show ?thesis by (simp add: InMemoryAdapter_def mem_pull_incremental_def mem_changed_def lists_changes_def)
  next
    case False
    with P obtain rs where rs: "records_after v (is_versions st) = Some rs" "P = fst ` set (concat (map vr_changes rs))" by (auto simp: mem_changed_def)
    from mem_lists_changes [OF st rs(1)] False rs show ?thesis by (simp add: InMemoryAdapter_def mem_pull_incremental_def)
  qed
  show "clean_path p" if p: "p \<in> P" for p
    using P p st records_after_suffix [of v "is_versions st"] by (fastforce simp: mem_changed_def mem_ok_def mem_history_def split: if_splits)
next
  fix st show "\<exists>m. ra_get_manifest (InMemoryAdapter env fresh now) repo st = (Inr m, st) \<and> mr_version m = current_head st \<and> lists_files env (map_of (is_files st)) (mr_files m)"
    if "mem_ok env st" using mem_lists_files [OF that] by (simp add: InMemoryAdapter_def mem_get_manifest_def)
qed (auto simp: mem_ok_def codecs_ok_def InMemoryAdapter_def mem_download_file_def mem_fetch_versions_since_def mem_changed_def map_of_eq_None_iff
  dest: map_of_SomeD split: option.splits)

section \<open>Archives\<close>

definition archive :: "(string \<times> bytes) list \<Rightarrow> tar_entry list" where
  "archive fs = map (\<lambda>(p, c). \<lparr>te_kind = TarFile, te_path = p, te_data = c\<rparr>) fs"

lemma clean_safe: "clean_path p \<Longrightarrow> \<not> unsafe_path p"
proof -
  assume p: "clean_path p"
  have "\<not> starts_with p ''/''"
  proof
    assume "starts_with p ''/''"
    then obtain r where "p = CHR ''/'' # r" by (auto simp: starts_with_iff)
    with p show False by (simp add: clean_path_def)
  qed
  with p show ?thesis using clean_components [OF p] by (auto simp: unsafe_path_def clean_path_def list_all_iff)
qed

lemma archive_paths:
  "\<forall>p\<in>set (map fst fs). clean_path p \<Longrightarrow> paths_of_entries (map Some (archive fs)) = Inr (map fst fs)"
  by (induction fs) (auto simp: archive_def)

lemma extract_archive:
  "\<forall>p\<in>set (map fst fs). clean_path p \<Longrightarrow> distinct (map fst fs) \<Longrightarrow>
   \<exists>d'. extract_entries (map Some (archive fs)) d = (Inr (map fst fs), d') \<and>
     (\<forall>p. map_of d' p = (case map_of fs p of Some c \<Rightarrow> Some c | None \<Rightarrow> map_of d p))"
proof (induction fs arbitrary: d)
  case (Cons x fs)
  obtain p c where x: "x = (p, c)" by force
  with Cons.prems have p: "clean_path p" "p \<notin> set (map fst fs)" by auto
  from p(2) have none: "map_of fs p = None" by (simp add: map_of_eq_None_iff)
  obtain d' where d': "extract_entries (map Some (archive fs)) (AList.update p c d) = (Inr (map fst fs), d')"
    "\<forall>q. map_of d' q = (case map_of fs q of Some c \<Rightarrow> Some c | None \<Rightarrow> map_of (AList.update p c d) q)"
    using Cons.IH [of "AList.update p c d"] Cons.prems by auto
  have "extract_entries (map Some (archive (x # fs))) d = (Inr (map fst (x # fs)), d')"
    using x p(1) clean_safe [OF p(1)] d'(1) by (simp add: archive_def)
  moreover have "\<forall>q. map_of d' q = (case map_of (x # fs) q of Some c \<Rightarrow> Some c | None \<Rightarrow> map_of d q)"
    using d'(2) none x by (auto simp: update_conv' split: option.splits)
  ultimately show ?case by blast
qed (simp add: archive_def)

lemma map_of_filter_keys: "map_of (filter (\<lambda>(q, c). \<not> Q q) d) p = (if Q p then None else map_of d p)"
  by (induction d) auto

section \<open>Histories\<close>

lemma after_version_records: "after_version v (map vr_version_id xs) = map_option (map vr_version_id) (records_after v xs)"
  by (induction xs) auto

lemma changes_of_versions_mem:
  assumes "distinct (map vr_version_id (is_versions (ss_remote s)))" "set rs \<subseteq> set (is_versions (ss_remote s))"
  shows "changes_of_versions (InMemoryAdapter env fresh now) repo (map vr_version_id rs) acc s =
    (Inr (fold (\<lambda>(p, k). AList.update p k) (concat (map vr_changes rs)) acc), s)"
  using assms(2)
proof (induction rs arbitrary: acc)
  case (Cons r rs)
  have "find (\<lambda>x. vr_version_id x = vr_version_id r) xs = Some r" if "distinct (map vr_version_id xs)" "r \<in> set xs" for xs
    using that by (induction xs) auto
  with assms(1) Cons.prems have "mem_get_version_changes (vr_version_id r) (ss_remote s) =
    (Inr (map (\<lambda>(p, k). \<lparr>rc_path = p, rc_change = k\<rparr>) (vr_changes r)), ss_remote s)" by (simp add: mem_get_version_changes_def)
  then have "ask (ra_get_version_changes (InMemoryAdapter env fresh now) repo (vr_version_id r)) s =
    (Inr (map (\<lambda>(p, k). \<lparr>rc_path = p, rc_change = k\<rparr>) (vr_changes r)), s)" by (simp add: InMemoryAdapter_def ask_def)
  moreover have "(\<lambda>fc. AList.update (rc_path fc) (rc_change fc)) \<circ> (\<lambda>(p, k). \<lparr>rc_path = p, rc_change = k\<rparr>) = (\<lambda>(p, k). AList.update p k)"
    by (auto simp: fun_eq_iff)
  ultimately show ?case using Cons by (simp add: seq_def fold_map)
qed simp

lemma last_changes: "map_of (fold (\<lambda>(p, k). AList.update p k) zs acc) p = map_of (rev zs @ acc) p"
  by (induction zs arbitrary: acc) (auto simp: update_conv' map_add_def split: option.splits)

lemma last_changes_distinct: "distinct (map fst acc) \<Longrightarrow> distinct (map fst (fold (\<lambda>(p, k). AList.update p k) zs acc))"
  by (induction zs arbitrary: acc) (auto simp: distinct_update)

lemma paths_with_set: "distinct (map fst cs) \<Longrightarrow> p \<in> set (paths_with Q cs) \<longleftrightarrow> (\<exists>k. map_of cs p = Some k \<and> Q k)"
  by (force simp: paths_with_def)

lemma download_all_ok:
  "\<forall>p\<in>set ps. \<exists>c. F p = Some c \<and> ra_download_file ra repo p (ss_remote s) = (Inr c, ss_remote s) \<Longrightarrow>
   \<exists>d. download_all ra repo ps s = (Inr (), s\<lparr>ss_disk := d\<rparr>) \<and> (\<forall>p. map_of d p = (if p \<in> set ps then F p else map_of (ss_disk s) p))"
proof (induction ps arbitrary: s)
  case Nil
  then show ?case by (intro exI [of _ "ss_disk s"]) simp
next
  case (Cons p ps)
  then obtain c where c: "F p = Some c" "ra_download_file ra repo p (ss_remote s) = (Inr c, ss_remote s)" by auto
  let ?s = "put_file p c s"
  have "\<forall>p\<in>set ps. \<exists>c. F p = Some c \<and> ra_download_file ra repo p (ss_remote ?s) = (Inr c, ss_remote ?s)" using Cons.prems by (simp add: put_file_def)
  from Cons.IH [OF this] obtain d where d: "download_all ra repo ps ?s = (Inr (), ?s\<lparr>ss_disk := d\<rparr>)"
    "\<forall>p. map_of d p = (if p \<in> set ps then F p else map_of (ss_disk ?s) p)" by blast
  have "download_all ra repo (p # ps) s = (Inr (), s\<lparr>ss_disk := d\<rparr>)" using c(2) d(1) by (simp add: seq_def ask_def put_file_def)
  moreover have "\<forall>q. map_of d q = (if q \<in> set (p # ps) then F q else map_of (ss_disk s) q)" using c(1) d(2) by (auto simp: put_file_def update_conv')
  ultimately show ?case by blast
qed

section \<open>Properties\<close>



text \<open>The files of a manifest with no tracked local counterpart.\<close>

definition would_delete :: "ManifestResult \<Rightarrow> disk \<Rightarrow> string list" where
  "would_delete m d = sort (filter (\<lambda>p. \<not> (tracked p \<and> map_of d p \<noteq> None)) (map fst (server_map_of m)))"


text \<open>C40: A forced pull replaces the working tree: every file of the server is there with the server's content, and every
  other file the walk visits is deleted, also a secret file such as \<open>.env\<close> that a push never uploads; only files below an
  ignored directory are left alone.\<close>

theorem pull_force_exact:
  assumes "mem_ok env (ss_remote s)" "ss_vai s = Some v" "wf_tree (ss_disk s)"
  shows "\<exists>out v' d. session_pull_force env (InMemoryAdapter env fresh now) repo s = (Inr out, s\<lparr>ss_disk := d, ss_vai := Some v'\<rparr>) \<and>
    pl_files_updated out = map fst (is_files (ss_remote s)) \<and>
    head_file v' = (if current_head (ss_remote s) = ''unknown'' then head_file v else Some (current_head (ss_remote s) @ [CHR 0x0A])) \<and>
    (\<forall>p. map_of d p = (case map_of (is_files (ss_remote s)) p of
            Some c \<Rightarrow> Some c | None \<Rightarrow> if visited p then None else map_of (ss_disk s) p))"
proof -
  let ?r = "ss_remote s" and ?fs = "is_files (ss_remote s)" and ?ra = "InMemoryAdapter env fresh now"
  let ?dl = "\<lparr>dl_head_version = current_head ?r, dl_tarball_gz = tar_gz env (archive ?fs), dl_expected_file_count = Some (length ?fs)\<rparr>"
  let ?kept = "filter (\<lambda>(p, c). \<not> stale (set (map fst ?fs)) p) (ss_disk s)"
  have fs: "\<forall>p\<in>set (map fst ?fs). clean_path p" "distinct (map fst ?fs)" and u: "untar env (tar_gz env (archive ?fs)) = map Some (archive ?fs)"
    using assms(1) by (auto simp: mem_ok_def codecs_ok_def)
  have a1: "ask (ra_download_full ?ra repo) s = (Inr ?dl, s)" by (simp add: ask_def InMemoryAdapter_def mem_download_full_def archive_def)
  have a2: "tarball_paths env (tar_gz env (archive ?fs)) = Inr (map fst ?fs)" using archive_paths [OF fs(1)] by (simp add: tarball_paths_def u)
  obtain d where d: "extract_tarball env (tar_gz env (archive ?fs)) ?kept = (Inr (map fst ?fs), d)"
    "\<forall>p. map_of d p = (case map_of ?fs p of Some c \<Rightarrow> Some c | None \<Rightarrow> map_of ?kept p)"
    using extract_archive [OF fs, of ?kept] unfolding extract_tarball_def u by blast
  obtain removed where a3: "replace_tree env (tar_gz env (archive ?fs)) (map fst ?fs) s = (Inr (removed, map fst ?fs), s\<lparr>ss_disk := d\<rparr>)"
    using d(1) by (auto simp: replace_tree_def remove_stale_local_files_def)
  have tree: "map_of d p = (case map_of ?fs p of Some c \<Rightarrow> Some c | None \<Rightarrow> if visited p then None else map_of (ss_disk s) p)" for p
  proof (cases "map_of ?fs p")
    case None
    then have "p \<notin> set (map fst ?fs)" by (simp add: map_of_eq_None_iff)
    moreover have "map_of ?kept p = (if stale (set (map fst ?fs)) p then None else map_of (ss_disk s) p)" by (simp add: map_of_filter_keys)
    ultimately have "map_of ?kept p = (if visited p then None else map_of (ss_disk s) p)"
      using assms(3) by (cases "clean_path p") (auto simp: stale_def wf_tree_def map_of_eq_None_iff)
    then show ?thesis using None d(2) by simp
  qed (use d(2) in simp)
  let ?w = "if current_head ?r \<noteq> ''unknown'' then write_head (current_head ?r) else (\<lambda>s. (Inr (), s))"
  let ?v = "if current_head ?r = ''unknown'' then v else v\<lparr>head_file := Some (current_head ?r @ [CHR 0x0A])\<rparr>"
  have a4: "?w (s\<lparr>ss_disk := d\<rparr>) = (Inr (), s\<lparr>ss_disk := d, ss_vai := Some ?v\<rparr>)" using assms(2) by (auto simp: write_head_def)
  obtain v' where a5: "write_version_metas env ?ra repo 0 (s\<lparr>ss_disk := d, ss_vai := Some ?v\<rparr>) = (Inr (), s\<lparr>ss_disk := d, ss_vai := Some v'\<rparr>)" "head_file v' = head_file ?v"
    using write_version_metas_ok [of ?ra repo 0 "s\<lparr>ss_disk := d, ss_vai := Some ?v\<rparr>" _ ?v env]
    by (auto simp: InMemoryAdapter_def mem_fetch_versions_since_def simp del: if_split)
  have "\<exists>out. session_pull_force env ?ra repo s = (Inr out, s\<lparr>ss_disk := d, ss_vai := Some v'\<rparr>) \<and> pl_files_updated out = map fst ?fs"
    unfolding session_pull_force_def
    by (simp only: seq_def a1 a2 FullDownload.simps check_count_def length_map a3 a4 a5(1) prod.case sum.case option.case simp_thms if_False) simp
  moreover have "head_file v' = (if current_head ?r = ''unknown'' then head_file v else Some (current_head ?r @ [CHR 0x0A]))" using a5(2) by simp
  ultimately show ?thesis using tree by blast
qed

text \<open>A sync brings exactly the paths changed since the local head to the server's state and touches no other file; a
  warning is given for just those changed paths that the overlay of the active workspace also holds.\<close>

theorem sync_exact:
  assumes "mem_ok env (ss_remote s)" "ss_vai s = Some v" "head_file v = Some h" "trim h \<noteq> current_head (ss_remote s)"
    "mem_changed (ss_remote s) (trim h) = Some P"
  shows "\<exists>out d. session_sync (InMemoryAdapter env fresh now) repo s =
      (Inr out, s\<lparr>ss_disk := d, ss_vai := Some (v\<lparr>head_file := Some (current_head (ss_remote s) @ [CHR 0x0A])\<rparr>)\<rparr>) \<and>
    (\<forall>p. map_of d p = (if p \<in> P then map_of (is_files (ss_remote s)) p else map_of (ss_disk s) p)) \<and>
    set (sy_files_updated out) \<union> set (sy_files_removed out) = P \<and>
    sy_workspace_conflicts out = detect_workspace_conflicts (Some (v\<lparr>head_file := Some (current_head (ss_remote s) @ [CHR 0x0A])\<rparr>)) d P"
proof -
  let ?r = "ss_remote s" and ?F = "map_of (is_files (ss_remote s))" and ?ra = "InMemoryAdapter env fresh now"
  obtain rs where rs: "records_after (trim h) (is_versions ?r) = Some rs" "P = fst ` set (concat (map vr_changes rs))"
    using assms(4,5) by (auto simp: mem_changed_def)
  let ?zs = "concat (map vr_changes rs)" and ?cs = "fold (\<lambda>(p, k). AList.update p k) (concat (map vr_changes rs)) []"
  obtain ys where ys: "is_versions ?r = ys @ rs" using records_after_suffix [OF rs(1)] by blast
  then have hist: "mem_history ?r = concat (map vr_changes ys) @ ?zs" by (simp add: mem_history_def)
  have cs: "distinct (map fst ?cs)" "\<And>p. map_of ?cs p = map_of (rev ?zs) p" using last_changes_distinct [of "[]"] last_changes [of ?zs "[]"] by simp_all
  have dom: "p \<in> P \<longleftrightarrow> (\<exists>k. map_of ?cs p = Some k)" for p
    unfolding cs(2) rs(2) using map_of_eq_None_iff [of "rev ?zs" p] by auto
  have kind: "k = CkRemoved \<longleftrightarrow> ?F p = None" if "map_of ?cs p = Some k" for p k
  proof -
    from that cs(2) have k: "map_of (rev ?zs) p = Some k" by simp
    then have "(p, k) \<in> set (rev ?zs)" by (rule map_of_SomeD)
    then have x: "(p, k) \<in> set (mem_history ?r)" by (simp add: hist)
    have "map_of (rev (mem_history ?r)) p = Some k" using k by (simp add: hist map_add_def)
    with x assms(1) show ?thesis by (force simp: mem_ok_def)
  qed
  let ?down = "paths_with (\<lambda>k. k \<noteq> CkRemoved) ?cs" and ?gone = "paths_with (\<lambda>k. k = CkRemoved) ?cs"
  have "p \<in> set ?down \<longleftrightarrow> p \<in> P \<and> ?F p \<noteq> None" "p \<in> set ?gone \<longleftrightarrow> p \<in> P \<and> ?F p = None" for p
    unfolding paths_with_set [OF cs(1)] using dom [of p] kind [of p] by (cases "map_of ?cs p"; simp)+
  then have down: "set ?down = {p \<in> P. ?F p \<noteq> None}" and gone: "set ?gone = {p \<in> P. ?F p = None}" by blast+
  have "\<forall>p\<in>set ?down. \<exists>c. ?F p = Some c \<and> ra_download_file ?ra repo p ?r = (Inr c, ?r)"
    unfolding down by (auto simp: InMemoryAdapter_def mem_download_file_def)
  from download_all_ok [OF this] obtain d where d: "download_all ?ra repo ?down s = (Inr (), s\<lparr>ss_disk := d\<rparr>)"
    "\<forall>p. map_of d p = (if p \<in> set ?down then ?F p else map_of (ss_disk s) p)" by blast
  let ?d = "fold AList.delete ?gone d" and ?v = "v\<lparr>head_file := Some (current_head ?r @ [CHR 0x0A])\<rparr>"
  have tree: "\<forall>p. map_of ?d p = (if p \<in> P then ?F p else map_of (ss_disk s) p)" unfolding delete_all down gone using d(2) down by auto
  have a1: "read_local_head s = (Inr (trim h), s)" using assms(2,3) by (simp add: read_local_head_def)
  have a2: "ask (ra_get_server_head ?ra repo) s = (Inr (current_head ?r), s)" "ask (ra_list_versions ?ra repo) s = (Inr (map vr_version_id (is_versions ?r)), s)"
    by (simp_all add: ask_def InMemoryAdapter_def)
  have a3: "changes_of_versions ?ra repo (map vr_version_id rs) [] s = (Inr ?cs, s)"
    using assms(1) ys by (intro changes_of_versions_mem) (auto simp: mem_ok_def)
  have a4: "after_version (trim h) (map vr_version_id (is_versions ?r)) = Some (map vr_version_id rs)" by (simp add: after_version_records rs(1))
  have a5: "write_head (current_head ?r) (fold delete_local ?gone (s\<lparr>ss_disk := d\<rparr>)) = (Inr (), s\<lparr>ss_disk := ?d, ss_vai := Some ?v\<rparr>)"
    using assms(2) by (simp add: write_head_def remove_files)
  have "set ?down \<union> set ?gone = P" using down gone by auto
  then have "\<exists>out. session_sync ?ra repo s = (Inr out, s\<lparr>ss_disk := ?d, ss_vai := Some ?v\<rparr>) \<and> set (sy_files_updated out) \<union> set (sy_files_removed out) = P \<and>
      sy_workspace_conflicts out = detect_workspace_conflicts (Some ?v) ?d P"
    unfolding session_sync_def using assms(4)
    by (simp only: seq_def a1 a2 a3 a4 a5 d(1) Let_def prod.case sum.case option.case if_False) simp
  with tree show ?thesis by blast
qed

section \<open>Concrete inputs\<close>

definition e_tar :: "tar_entry enc" where
  "e_tar e = e_nat (case te_kind e of TarFile \<Rightarrow> 0 | TarDir \<Rightarrow> 1 | TarOther \<Rightarrow> 2) @ e_str (te_path e) @ e_str (te_data e)"
definition d_tar :: "tar_entry dec" where
  "d_tar = d3 tar_entry.make (d_map (\<lambda>n. if n = 0 then TarFile else if n = 1 then TarDir else TarOther) d_nat) d_str d_str"

lemma wires_tar [simp]: "wires e_tar d_tar"
  unfolding wires_def by (auto simp: e_tar_def d_tar_def d_chain tar_entry.defs split: tar_kind.splits)

definition sample_remote_env :: remote_env where
  "sample_remote_env = \<lparr>ev_to_json = to_text e_event, ev_from_json = from_text d_event,
     to_rfc3339 = nat_to_string, uuid_to_string = nat_to_string,
     meta_to_toml = to_text e_meta, meta_from_toml = from_text d_meta,
     ver_to_toml = to_text e_ver, ver_from_toml = from_text d_ver,
     sha256 = (\<lambda>c. c), b64_encode = (\<lambda>c. c), b64_decode = Some,
     tar_gz = to_text (e_list e_tar), untar = (\<lambda>b. case from_text (d_list d_tar) b of Some es \<Rightarrow> map Some es | None \<Rightarrow> [None]),
     uuid_parse = parse_u64\<rparr>"

lemma sample_codecs [simp]: "codecs_ok sample_remote_env"
  by (simp add: codecs_ok_def sample_remote_env_def from_to_text)

definition sample_inner :: InnerState where
  "sample_inner = seed_version ''v2'' [(''b.rs'', CkRemoved), (''c.rs'', CkAdded)] (seed_version ''v1'' [(''a.rs'', CkAdded), (''b.rs'', CkAdded)]
     (seed_file ''c.rs'' ''3'' (seed_file ''a.rs'' ''1'' mem_new)))"

lemmas sample_inner_eq = sample_inner_def [unfolded seed_version_def seed_file_def mem_new_def]

definition sample_session :: "InnerState session_state" where
  "sample_session = \<lparr>ss_vai = Some sample_repo, ss_disk = [(''a.rs'', ''1''), (''b.rs'', ''2''), (''.env'', ''k'')], ss_remote = sample_inner\<rparr>"

lemma sample_paths [simp]: "clean_path ''a.rs''" "clean_path ''b.rs''" "clean_path ''c.rs''" "clean_path ''.env''" "tracked ''a.rs''" "tracked ''c.rs''" "\<not> tracked ''.env''"
  by code_simp+

lemma sample_inner_files: "is_files sample_inner = [(''a.rs'', ''1''), (''c.rs'', ''3'')]" "current_head sample_inner = ''v2''"
  by code_simp+

lemma sample_inner_ok [simp]: "mem_ok sample_remote_env sample_inner"
  by (simp add: mem_ok_def sample_inner_eq mem_history_def)

lemma sample_session_facts [simp]: "mem_ok sample_remote_env (ss_remote sample_session)" "ss_vai sample_session = Some sample_repo"
  "head_file sample_repo = Some ''v1\<newline>''" "wf_tree (ss_disk sample_session)"
  by (simp_all add: sample_session_def sample_repo_def wf_tree_def)

lemma sample_trim: "trim ''v1\<newline>'' = ''v1''"
  by code_simp

lemma sample_changed: "mem_changed (ss_remote sample_session) (trim ''v1\<newline>'') = Some {''b.rs'', ''c.rs''}"
  unfolding sample_trim by (simp add: mem_changed_def sample_session_def sample_inner_eq current_head_def)

lemma sample_session_parts: "ss_remote sample_session = sample_inner" "ss_disk sample_session = [(''a.rs'', ''1''), (''b.rs'', ''2''), (''.env'', ''k'')]"
  by (simp_all add: sample_session_def)




theorem pull_force_exact_witness:
  "\<exists>out v' d. session_pull_force sample_remote_env (InMemoryAdapter sample_remote_env 7 0) ''r'' sample_session =
      (Inr out, sample_session\<lparr>ss_disk := d, ss_vai := Some v'\<rparr>) \<and> map_of d ''c.rs'' = Some ''3'' \<and> map_of d ''.env'' = None"
proof -
  obtain out v' d where r: "session_pull_force sample_remote_env (InMemoryAdapter sample_remote_env 7 0) ''r'' sample_session = (Inr out, sample_session\<lparr>ss_disk := d, ss_vai := Some v'\<rparr>)"
    "\<forall>p. map_of d p = (case map_of (is_files (ss_remote sample_session)) p of Some c \<Rightarrow> Some c | None \<Rightarrow> if visited p then None else map_of (ss_disk sample_session) p)"
    using pull_force_exact [OF sample_session_facts(1,2,4), of 7 0 "''r''"] by blast
  have "visited ''.env''" by code_simp
  with r(2) have "map_of d ''c.rs'' = Some ''3''" "map_of d ''.env'' = None" by (simp_all add: sample_session_parts sample_inner_files)
  with r(1) show ?thesis by blast
qed

theorem sync_exact_witness:
  "\<exists>out s'. session_sync (InMemoryAdapter sample_remote_env 7 0) ''r'' sample_session = (Inr out, s') \<and>
    set (sy_files_updated out) \<union> set (sy_files_removed out) = {''b.rs'', ''c.rs''} \<and> map_of (ss_disk s') ''b.rs'' = None"
proof -
  have "trim ''v1\<newline>'' \<noteq> current_head (ss_remote sample_session)" by (simp add: sample_trim sample_session_parts sample_inner_files)
  from sync_exact [OF sample_session_facts(1-3) this sample_changed, of 7 0 "''r''"] obtain out d where
    r: "session_sync (InMemoryAdapter sample_remote_env 7 0) ''r'' sample_session =
        (Inr out, sample_session\<lparr>ss_disk := d, ss_vai := Some (sample_repo\<lparr>head_file := Some (current_head (ss_remote sample_session) @ [CHR 0x0A])\<rparr>)\<rparr>)"
    "\<forall>p. map_of d p = (if p \<in> {''b.rs'', ''c.rs''} then map_of (is_files (ss_remote sample_session)) p else map_of (ss_disk sample_session) p)"
    "set (sy_files_updated out) \<union> set (sy_files_removed out) = {''b.rs'', ''c.rs''}" by (elim exE conjE)
  from r(2) have "map_of d ''b.rs'' = None" by (simp add: sample_session_parts sample_inner_files)
  with r(1,3) show ?thesis by auto
qed

end
