(* ===== verification/Spec2Isabelle.thy ===== *)
theory Spec2Isabelle
  imports Semantic_Properties WorkQueue_Laws Watcher_Laws Extract_Laws MergePatterns WorkerRegistry_Laws Limits_Laws ScopeInference_Laws Remote_Laws
begin

text \<open>
  A verification development of \<open>vai\<close>, version control for AI agents (the Rust crate under
  \<open>src/src\<close>).

  \<^bold>\<open>The program.\<close> A repository is a project directory with a \<open>.vai\<close> directory. An agent works in a
  workspace, whose changed files live in an overlay below \<open>.vai/workspaces\<close>. Submitting a workspace
  computes its diff, merges it into the project files (copying the overlay when HEAD has not moved,
  a three-level merge otherwise), saves the previous contents below \<open>.vai/versions\<close>, creates a version and
  advances HEAD. Every operation appends to an event log. A semantic graph of the source entities
  supports entity-level diffs, the second and third level of the merge, and predictions of what an issue will
  touch. Issues, watchers that report problems as issues, a conflict engine over the scopes of the active workspaces and
  a work queue coordinate several agents. A hosted server keeps the same data in Postgres, authenticates its callers, limits their
  rate and starts cloud workers for the open issues; a client pushes to it and pulls from it.

  \<^bold>\<open>Theories and sources.\<close>
  \<^item> \<open>Vai_Prelude\<close>: strings, decimal numbers, splitting and joining, trimming, association lists, the
    \<open>result\<close> type (a sum, \<open>Inl\<close> is the error) and the named theorem collections.
  \<^item> \<open>EventLog\<close>, \<open>EventLog_Laws\<close> (\<open>event_log/mod.rs\<close>): segment files and index table; an append is
    readable under a fresh identifier, the queries are exact, a rebuilt index answers alike. The
    locale of append-only logs is interpreted on \<open>elog_append\<close>; every client uses its facts.
  \<^item> \<open>Wire\<close>: a concrete text codec of the stored data, which instantiates the serialiser parameters
    in the witnesses.
  \<^item> \<open>Workspace\<close> (\<open>workspace/mod.rs\<close>): metadata files, the active pointer, create, list, get, switch,
    discard; a step relation and the invariant that the active pointer never dangles.
  \<^item> \<open>MergeFs\<close> (\<open>merge_fs.rs\<close>, the file store of \<open>storage/mod.rs\<close>): the file abstraction as a locale
    with read, write, list, exists and delete laws, interpreted on the disk and on the buffered S3
    implementation.
  \<^item> \<open>Graph\<close> (\<open>graph/mod.rs\<close>): entity and relationship tables, updates from a parser, queries, breadth-first search.
  \<^item> \<open>Version\<close> (\<open>version/mod.rs\<close>): version files, history, version diffs, impact analysis, rollback.
  \<^item> \<open>Diff\<close> (\<open>diff/mod.rs\<close>): the diff of a workspace against the project, and its events.
  \<^item> \<open>TextMerge\<close> (\<open>merge/mod.rs\<close>, level 1): longest common subsequence, hunks, overlap test,
    application of two hunk sets.
  \<^item> \<open>MergeEngine\<close> with \<open>Merge_Laws\<close>, \<open>Submit\<close>, \<open>Semantic_Laws\<close>, \<open>Semantic_Properties\<close>
    (\<open>merge/mod.rs\<close>): submit with its fast-forward and semantic branches, entity substitution,
    referential conflicts, conflict records; the properties of a whole submission on the disk.
  \<^item> \<open>Conflict\<close> (\<open>conflict/mod.rs\<close>): scopes, classification of overlaps, the engine.
  \<^item> \<open>Issue\<close>, \<open>Issue_Laws\<close> (\<open>issue/mod.rs\<close>): the issue store; creation, life cycle along any
    sequence of operations, rate limit, label filter.
  \<^item> \<open>WorkQueue\<close>, \<open>WorkQueue_Laws\<close> (\<open>work_queue/mod.rs\<close>): scope prediction against graph distance,
    the partition of the open issues, every outcome of a claim across issue store, workspaces and logs.
  \<^item> \<open>Watcher\<close>, \<open>Watcher_Laws\<close> (\<open>watcher/mod.rs\<close>): policies, the discovery pipeline, what duplicate
    suppression guarantees along interleavings with the issue store.
  \<^item> \<open>Extract\<close>, \<open>Extract_Laws\<close> (\<open>graph/mod.rs\<close>, the language front ends): the walks over the syntax tree, which yield a
    forest of entities and relationships that never dangle.
  \<^item> \<open>MergePatterns\<close> (\<open>merge_patterns/mod.rs\<close>): learned resolutions and their exact counters.
  \<^item> \<open>Escalation\<close> (\<open>escalation/mod.rs\<close>): the store and its mirror in the event log.
  \<^item> \<open>ScopeInference\<close>, \<open>ScopeInference_Laws\<close> (\<open>scope_inference/mod.rs\<close>, \<open>scope_history/mod.rs\<close>): the entities an intent will
    touch, by a bounded search that always ends, and what the history of intents adds.
  \<^item> \<open>Pagination\<close> (\<open>storage/pagination.rs\<close>, \<open>server/pagination.rs\<close>): list queries; the pages of a query partition its rows.
  \<^item> \<open>HostedStore\<close>, \<open>HostedRecords\<close>, \<open>OrgStore\<close> (\<open>storage/postgres\<close>): the tables of workspaces, issues, workers, events,
    versions, escalations, comments, links, attachments, organizations, users and memberships; an event filter in SQL against
    its in-memory definition, keys and references along any sequence of operations.
  \<^item> \<open>Auth\<close>, \<open>Auth_Laws\<close> (\<open>auth\<close>, \<open>server/auth.rs\<close>, \<open>storage/postgres/auth.rs\<close> and the checks of \<open>server/mod.rs\<close>): keys,
    session and refresh tokens, device codes, the middleware and the permission check.
  \<^item> \<open>Limits\<close>, \<open>Limits_Laws\<close> (\<open>server/mod.rs\<close>, \<open>server/ws.rs\<close>): rate limiter, path and length checks, replay buffer.
  \<^item> \<open>Compute\<close> (\<open>server/compute\<close>): the port to the machines as a locale, interpreted on the in-memory adapter; the
    Fly adapter over the answers of its HTTP interface.
  \<^item> \<open>WorkerRegistry\<close>, \<open>WorkerRegistry_Laws\<close> (\<open>server/worker_registry.rs\<close>, \<open>server/worker.rs\<close>, \<open>server/work_queue.rs\<close>): capacity,
    spawning, the dead-worker and top-up passes, the worker and work-queue endpoints; a silent worker's issue is open again
    after the next pass.
  \<^item> \<open>IgnoreRules\<close> (\<open>ignore_rules.rs\<close>): which files are collected.
  \<^item> \<open>Remote\<close>, \<open>Remote_Laws\<close> (\<open>remote/mod.rs\<close>, \<open>remote/tarball.rs\<close>, \<open>remote/memory.rs\<close>): push, pull, forced pull and sync over the
    adapter port. What the client relies on is the locale \<open>remote_reads\<close>, interpreted on the in-memory adapter; the laws give the
    working tree after each operation at every path.

  \<^bold>\<open>State and errors.\<close> A database is a record of tables (lists of rows), a directory a record of its
  files, the project tree an association list from paths to contents. An operation takes the state
  and returns it; where a failing operation keeps earlier effects (\<open>submit\<close>, the stores) the state is
  returned beside the result, and the stages of a merge before the first write return the starting state.
  Each error value of the source is a constructor; a panic is an error constructor of its own or \<open>None\<close>.

  \<^bold>\<open>Parameters.\<close> What is not in the repository is a field of an environment record: the TOML and JSON
  codecs, time stamp and UUID printing, the tree-sitter parsers, SHA-256, Unicode tables and the
  IEEE operations on 64-bit patterns. What is relied on is a named predicate: \<open>json_ok\<close>, \<open>meta_ok\<close>, \<open>ver_ok\<close>, \<open>conflict_ok\<close> and
  \<open>issue_codecs\<close> (decoding inverts encoding), \<open>uuid_ok\<close> (printing is injective and clean), \<open>parse_total\<close> (a parse
  does not fail). The invariants \<open>wf_log\<close>, \<open>wf_vai\<close>, \<open>wf_versions\<close>, \<open>wf_graph\<close>, \<open>wf_issues\<close>, \<open>disk_inv\<close> are
  kept by the operations. Fresh UUIDs and the current time are arguments; the clock is read once per operation.

  \<^bold>\<open>Choices.\<close> The iteration order of a hash map is the order of the list that models it. Directories are not
  represented, a file exists or not. SQLite is modelled by its tables with their keys, \<open>LIKE\<close> patterns and
  orderings; its I/O errors are not. The comparison of a Jaccard index with one half is done on the fraction.
  All loops are structural or have a termination proof (the breadth-first search by the unvisited endpoints
  and the queue length); the search of scope inference is a partial function in the option monad that is proved to return. No fuel is used.

  \<^bold>\<open>Not modelled.\<close> The command line, the dashboard and the agent runner (argument decoding, printing and processes around
  the operations above); of the HTTP server the routing, the OpenAPI document and the request handlers other than those named above, among
  them the hosted submission and the file transfer endpoints; the HTTP adapter of the remote port, the remote diff report and the remote workspace
  commands, which wrap URLs and JSON around endpoints; the SQLite adapter, a translation of the storage traits to the local
  stores above, and the S3 client; the file, graph and watcher tables of Postgres; repository initialisation, configuration
  files and the database migration; the status and clone reports; the file-level facade over workspace, diff and merge.
\<close>

end
